(* ===== verification/Prelude.thy ===== *)
theory Prelude
  imports Main "HOL-Library.Multiset"
begin

text \<open>
  Shared ground of the development: the collections of facts the component theories feed,
  and the generic lemmas on lists, options, maps and multisets that more than one of them
  uses. Nothing here mentions the program.

  Two modelling conventions hold everywhere. A Go value that may be \<open>nil\<close> is an
  \<open>option\<close>; the two-result form \<open>v, ok\<close> is an \<open>option\<close> as well, with \<open>None\<close> for
  \<open>ok == false\<close>. A Go map is a partial function \<open>'k \<rightharpoonup> 'v\<close>; a map that is only used
  as a set of booleans is a set.
\<close>

named_theorems ast_simps \<open>type assertions of the syntax tree, solved for the constructor\<close>
named_theorems op_defs \<open>definitions of the mutation operators\<close>
named_theorems schemata_defs \<open>definitions of the schemata builders\<close>
named_theorems conserve \<open>facts that a pass loses and invents no mutants\<close>

subsection \<open>Lists and options\<close>

lemma map_filter_Some [simp]: "List.map_filter Some xs = xs"
  by (induction xs) (simp_all add: List.map_filter_simps)

lemma map_filter_append [simp]:
  "List.map_filter f (xs @ ys) = List.map_filter f xs @ List.map_filter f ys"
  by (induction xs) (simp_all add: List.map_filter_simps split: option.splits)

lemma set_map_filter [simp]: "set (List.map_filter f xs) = {y. \<exists>x \<in> set xs. f x = Some y}"
  by (induction xs) (auto simp add: List.map_filter_simps split: option.splits)

lemma mset_filter_split: "mset (filter P xs) + mset (filter (\<lambda>x. \<not> P x) xs) = mset xs"
  by (induction xs) auto

lemma mset_halves [conserve]: "mset (take k xs) + mset (drop k xs) = mset xs"
  by (metis append_take_drop_id mset_append)

lemma list_ex_find: "list_ex P xs \<longleftrightarrow> find P xs \<noteq> None"
  by (induction xs) auto

lemma find_Some_in: "find P xs = Some x \<Longrightarrow> x \<in> set xs \<and> P x"
  by (induction xs) (auto split: if_splits)

text \<open>An optional element as a list, and the first, last or only element with a default.\<close>

primrec option_list :: "'a option \<Rightarrow> 'a list" where
  "option_list None = []"
| "option_list (Some x) = [x]"

primrec or_else :: "'a \<Rightarrow> 'a option \<Rightarrow> 'a" where
  "or_else d None = d"
| "or_else d (Some x) = x"

definition first_or :: "'a \<Rightarrow> 'a list \<Rightarrow> 'a" where
  "first_or d xs = (case xs of [] \<Rightarrow> d | x # _ \<Rightarrow> x)"

definition last_or :: "'a \<Rightarrow> 'a list \<Rightarrow> 'a" where
  "last_or d xs = (if xs = [] then d else last xs)"

lemma first_or_simps [simp]: "first_or d [] = d" "first_or d (x # xs) = x"
  by (simp_all add: first_or_def)

lemma last_or_simps [simp]: "last_or d [] = d" "last_or d (xs @ [x]) = x"
  by (simp_all add: last_or_def)

subsection \<open>Keeping the last or the first of several candidates\<close>

text \<open>
  Several loops of the program scan a list and keep the best element seen so far, replacing
  it only by a strictly better one. \<open>best_by\<close> is that loop.
\<close>

definition best_step :: "('a \<Rightarrow> 'k::linorder) \<Rightarrow> 'a option \<Rightarrow> 'a \<Rightarrow> 'a option" where
  "best_step key best x =
     (case best of None \<Rightarrow> Some x | Some b \<Rightarrow> if key b < key x then Some x else Some b)"

definition best_by :: "('a \<Rightarrow> 'k::linorder) \<Rightarrow> 'a list \<Rightarrow> 'a option" where
  "best_by key xs = foldl (best_step key) None xs"

lemma foldl_best_step_mem:
  "foldl (best_step key) b xs = Some y \<Longrightarrow> b = Some y \<or> y \<in> set xs"
proof (induction xs arbitrary: b)
  case Nil
  then show ?case by simp
next
  case (Cons x xs)
  have step: "best_step key b x = Some y \<Longrightarrow> b = Some y \<or> y = x"
    by (cases b) (auto simp: best_step_def split: if_splits)
  from Cons.prems have "foldl (best_step key) (best_step key b x) xs = Some y" by simp
  from Cons.IH [OF this] step show ?case by auto
qed

lemma foldl_best_step_ge:
  "foldl (best_step key) b xs = Some y \<Longrightarrow>
     (\<forall>z. b = Some z \<longrightarrow> key z \<le> key y) \<and> (\<forall>x \<in> set xs. key x \<le> key y)"
proof (induction xs arbitrary: b)
  case Nil
  then show ?case by simp
next
  case (Cons x xs)
  define b' where "b' = best_step key b x"
  have "foldl (best_step key) b' xs = Some y"
    using Cons.prems by (simp add: b'_def)
  from Cons.IH [OF this]
  have ge: "\<And>z. b' = Some z \<Longrightarrow> key z \<le> key y" and rest: "\<forall>x \<in> set xs. key x \<le> key y"
    by auto
  have "key x \<le> key y \<and> (\<forall>z. b = Some z \<longrightarrow> key z \<le> key y)"
    using ge unfolding b'_def best_step_def
    by (cases b) (fastforce split: if_splits)+
  with rest show ?case by auto
qed

lemma foldl_best_step_None: "foldl (best_step key) b xs = None \<longleftrightarrow> b = None \<and> xs = []"
proof (induction xs arbitrary: b)
  case (Cons x xs)
  then show ?case by (simp add: best_step_def split: option.splits)
qed simp

lemma best_by_Nil [simp]: "best_by key [] = None"
  by (simp add: best_by_def)

lemma best_by_None [simp]: "best_by key xs = None \<longleftrightarrow> xs = []"
  by (simp add: best_by_def foldl_best_step_None)

lemma best_by_mem: "best_by key xs = Some y \<Longrightarrow> y \<in> set xs"
  using foldl_best_step_mem unfolding best_by_def by fastforce

lemma best_by_max: "best_by key xs = Some y \<Longrightarrow> x \<in> set xs \<Longrightarrow> key x \<le> key y"
  using foldl_best_step_ge unfolding best_by_def by fastforce

text \<open>Both halves of a list of two or more are shorter.\<close>

lemma half_bounds: "n \<noteq> 0 \<Longrightarrow> n \<noteq> 1 \<Longrightarrow> n div 2 < n \<and> 0 < n div (2 :: nat)"
  by linarith

lemma halves_shorter:
  assumes "cs \<noteq> []" "length cs \<noteq> 1"
  shows "length (take (length cs div 2) cs) < length cs" "length (drop (length cs div 2) cs) < length cs"
  using half_bounds [of "length cs"] assms by simp_all

end
