(* ===== verification/GoStrings.thy ===== *)
theory GoStrings
  imports Prelude
begin

text \<open>
  The part of Go's \<open>strings\<close> and \<open>strconv\<close> packages the program calls, on byte strings
  (a \<open>char\<close> is a byte, as in a Go string). A search that returns \<open>-1\<close> in Go returns
  \<open>None\<close> here. \<open>TrimSpace\<close> knows the six ASCII white-space bytes; Unicode white space
  above ASCII is outside the model. \<open>Atoi\<close> fails, as in Go on a 64-bit platform, on a
  number outside the 64-bit signed range.
\<close>

definition HasPrefix :: "string \<Rightarrow> string \<Rightarrow> bool" where
  "HasPrefix s p = (take (length p) s = p)"

definition HasSuffix :: "string \<Rightarrow> string \<Rightarrow> bool" where
  "HasSuffix s p = (length p \<le> length s \<and> drop (length s - length p) s = p)"

definition TrimPrefix :: "string \<Rightarrow> string \<Rightarrow> string" where
  "TrimPrefix s p = (if HasPrefix s p then drop (length p) s else s)"

definition TrimSuffix :: "string \<Rightarrow> string \<Rightarrow> string" where
  "TrimSuffix s p = (if HasSuffix s p then take (length s - length p) s else s)"

fun Index :: "string \<Rightarrow> string \<Rightarrow> nat option" where
  "Index [] sub = (if sub = [] then Some 0 else None)"
| "Index (c # cs) sub =
     (if HasPrefix (c # cs) sub then Some 0 else map_option Suc (Index cs sub))"

fun IndexByte :: "string \<Rightarrow> char \<Rightarrow> nat option" where
  "IndexByte [] b = None"
| "IndexByte (c # cs) b = (if c = b then Some 0 else map_option Suc (IndexByte cs b))"

fun LastIndexByte :: "string \<Rightarrow> char \<Rightarrow> nat option" where
  "LastIndexByte [] b = None"
| "LastIndexByte (c # cs) b =
     (case LastIndexByte cs b of
        Some i \<Rightarrow> Some (Suc i)
      | None \<Rightarrow> if c = b then Some 0 else None)"

definition Contains :: "string \<Rightarrow> string \<Rightarrow> bool" where
  "Contains s sub = (Index s sub \<noteq> None)"

fun Split :: "string \<Rightarrow> char \<Rightarrow> string list" where
  "Split [] b = [[]]"
| "Split (c # cs) b =
     (if c = b then [] # Split cs b
      else (case Split cs b of [] \<Rightarrow> [[c]] | x # xs \<Rightarrow> (c # x) # xs))"

text \<open>\<open>strings.SplitN(s, sep, 2)\<close> for a one-byte separator.\<close>

definition SplitN2 :: "string \<Rightarrow> char \<Rightarrow> string list" where
  "SplitN2 s b =
     (case IndexByte s b of None \<Rightarrow> [s] | Some i \<Rightarrow> [take i s, drop (Suc i) s])"

fun Join :: "string list \<Rightarrow> string \<Rightarrow> string" where
  "Join [] sep = []"
| "Join [x] sep = x"
| "Join (x # y # xs) sep = x @ sep @ Join (y # xs) sep"

definition isSpace :: "char \<Rightarrow> bool" where
  "isSpace c = (c \<in> {CHR '' '', CHR 0x09, CHR 0x0A, CHR 0x0B, CHR 0x0C, CHR 0x0D})"

definition TrimLeft :: "(char \<Rightarrow> bool) \<Rightarrow> string \<Rightarrow> string" where
  "TrimLeft p s = dropWhile p s"

definition TrimBoth :: "(char \<Rightarrow> bool) \<Rightarrow> string \<Rightarrow> string" where
  "TrimBoth p s = rev (dropWhile p (rev (dropWhile p s)))"

definition TrimSpace :: "string \<Rightarrow> string" where
  "TrimSpace s = TrimBoth isSpace s"

definition ToLowerByte :: "char \<Rightarrow> char" where
  "ToLowerByte c =
     (let n = (of_char c :: nat) in if 65 \<le> n \<and> n \<le> 90 then char_of (n + 32) else c)"

definition ToLower :: "string \<Rightarrow> string" where
  "ToLower s = map ToLowerByte s"

definition isDigit :: "char \<Rightarrow> bool" where
  "isDigit c = (48 \<le> (of_char c :: nat) \<and> (of_char c :: nat) \<le> 57)"

definition digitVal :: "char \<Rightarrow> nat" where
  "digitVal c = of_char c - 48"

fun parseDigits :: "nat \<Rightarrow> string \<Rightarrow> nat option" where
  "parseDigits acc [] = Some acc"
| "parseDigits acc (c # cs) =
     (if isDigit c then parseDigits (10 * acc + digitVal c) cs else None)"

definition parseNat :: "string \<Rightarrow> nat option" where
  "parseNat s = (if s = [] then None else parseDigits 0 s)"

definition int64 :: "int \<Rightarrow> int option" where
  "int64 n = (if - (2 ^ 63) \<le> n \<and> n < 2 ^ 63 then Some n else None)"

definition Atoi :: "string \<Rightarrow> int option" where
  "Atoi s =
     (case s of
        [] \<Rightarrow> None
      | c # cs \<Rightarrow>
          if c = CHR ''-'' then Option.bind (parseNat cs) (\<lambda>n. int64 (- int n))
          else if c = CHR ''+'' then Option.bind (parseNat cs) (\<lambda>n. int64 (int n))
          else Option.bind (parseNat s) (\<lambda>n. int64 (int n)))"

fun natDigits :: "nat \<Rightarrow> string" where
  "natDigits n =
     (if n < 10 then [char_of (48 + n)]
      else natDigits (n div 10) @ [char_of (48 + n mod 10)])"

declare natDigits.simps [simp del]

definition Itoa :: "int \<Rightarrow> string" where
  "Itoa n = (if n < 0 then CHR ''-'' # natDigits (nat (- n)) else natDigits (nat n))"

subsection \<open>Laws of the string operations\<close>

lemma HasPrefix_iff: "HasPrefix s p \<longleftrightarrow> (\<exists>t. s = p @ t)"
  unfolding HasPrefix_def by (metis append_eq_conv_conj)

lemma HasPrefix_append [simp]: "HasPrefix (p @ s) p"
  by (simp add: HasPrefix_def)

lemma HasPrefix_Nil [simp]: "HasPrefix s []"
  by (simp add: HasPrefix_def)

lemma HasPrefix_trans: "HasPrefix a b \<Longrightarrow> HasPrefix b c \<Longrightarrow> HasPrefix a c"
  by (auto simp: HasPrefix_iff)

lemma Split_nonempty [simp]: "Split s b \<noteq> []"
  by (induction s) (auto split: list.splits)

lemma Join_Split: "Join (Split s b) [b] = s"
proof (induction s)
  case (Cons c cs)
  obtain x xs where sp: "Split cs b = x # xs"
    by (meson Split_nonempty neq_Nil_conv)
  show ?case using Cons sp by (cases xs) auto
qed simp

lemma Split_no_sep: "x \<in> set (Split s b) \<Longrightarrow> b \<notin> set x"
  by (induction s arbitrary: x) (fastforce split: list.splits if_splits)+

lemma LastIndexByte_None: "LastIndexByte s b = None \<longleftrightarrow> b \<notin> set s"
  by (induction s) (auto split: option.splits)

lemma LastIndexByte_split:
  "b \<notin> set t \<Longrightarrow> LastIndexByte (s @ b # t) b = Some (length s)"
proof (induction s)
  case Nil
  then have "LastIndexByte t b = None" by (simp add: LastIndexByte_None)
  then show ?case by simp
qed simp

lemma isDigit_char [simp]: "(d::nat) < 10 \<Longrightarrow> isDigit (char_of (48 + d))"
  by (simp add: isDigit_def)

lemma digitVal_char [simp]: "(d::nat) < 10 \<Longrightarrow> digitVal (char_of (48 + d)) = d"
  by (simp add: digitVal_def)

lemma natDigits_nonempty [simp]: "natDigits n \<noteq> []"
  by (subst natDigits.simps) simp

lemma natDigits_digits: "c \<in> set (natDigits n) \<Longrightarrow> isDigit c"
proof (induction n rule: natDigits.induct)
  case (1 n)
  then show ?case
    by (cases "n < 10") (auto simp: natDigits.simps [of n])
qed

lemma parseDigits_append:
  "parseDigits a (xs @ ys) = Option.bind (parseDigits a xs) (\<lambda>b. parseDigits b ys)"
  by (induction xs arbitrary: a) auto

lemma parseDigits_natDigits:
  "parseDigits 0 (natDigits n) = Some n"
proof (induction n rule: natDigits.induct)
  case (1 n)
  show ?case
  proof (cases "n < 10")
    case True
    then show ?thesis by (simp add: natDigits.simps [of n])
  next
    case False
    with 1 show ?thesis
      by (simp add: natDigits.simps [of n] parseDigits_append)
  qed
qed

lemma parseNat_natDigits [simp]: "parseNat (natDigits n) = Some n"
  by (simp add: parseNat_def parseDigits_natDigits)

lemma natDigits_hd: "natDigits n = c # cs \<Longrightarrow> c \<noteq> CHR ''-'' \<and> c \<noteq> CHR ''+''"
  using natDigits_digits [of c n] by (auto simp: isDigit_def)

text \<open>Printing and parsing a 64-bit integer are inverse.\<close>

lemma Atoi_Itoa [simp]: "- (2 ^ 63) \<le> n \<Longrightarrow> n < 2 ^ 63 \<Longrightarrow> Atoi (Itoa n) = Some n"
proof -
  assume lo: "- (2 ^ 63) \<le> n" and hi: "n < 2 ^ 63"
  show ?thesis
  proof (cases "n < 0")
    case True
    then show ?thesis using lo hi by (simp add: Itoa_def Atoi_def int64_def)
  next
    case False
    obtain c cs where ds: "natDigits (nat n) = c # cs"
      by (meson natDigits_nonempty neq_Nil_conv)
    from natDigits_hd [OF ds] have "c \<noteq> CHR ''-''" "c \<noteq> CHR ''+''" by auto
    moreover have "parseNat (c # cs) = Some (nat n)"
      using parseNat_natDigits [of "nat n"] ds by simp
    ultimately show ?thesis
      using False lo hi ds by (simp add: Itoa_def Atoi_def int64_def)
  qed
qed

lemma natDigits_inj: "natDigits m = natDigits n \<Longrightarrow> m = n"
  by (metis parseNat_natDigits option.inject)

lemma natDigits_no_minus: "natDigits n \<noteq> CHR ''-'' # cs"
  using natDigits_hd by blast

lemma Itoa_inj: "Itoa m = Itoa n \<longleftrightarrow> m = n"
  by (auto simp: Itoa_def natDigits_no_minus natDigits_no_minus [symmetric]
           dest!: natDigits_inj split: if_splits)

lemma TrimSpace_idem [simp]: "TrimSpace (TrimSpace s) = TrimSpace s"
proof -
  define t where "t = dropWhile isSpace s"
  define u where "u = dropWhile isSpace (rev t)"
  have h: "dropWhile isSpace (rev u) = rev u"
  proof (cases "rev u")
    case (Cons a as)
    have "\<exists>v. rev t = v @ u" unfolding u_def by (metis takeWhile_dropWhile_id)
    then obtain v where "rev t = v @ u" by auto
    then have "t = rev u @ rev v" by (metis rev_append rev_rev_ident)
    with Cons have "t = a # (as @ rev v)" by simp
    then have "\<not> isSpace a" unfolding t_def by (metis dropWhile_eq_Cons_conv)
    with Cons show ?thesis by simp
  qed simp
  have "dropWhile isSpace u = u" unfolding u_def by (simp add: dropWhile_eq_self_iff hd_dropWhile)
  with h show ?thesis unfolding TrimSpace_def TrimBoth_def u_def t_def by simp
qed

end
