(* ===== verification/GoAst.thy ===== *)
theory GoAst
  imports GoStrings
begin

text \<open>
  Go's \<open>go/token\<close> and \<open>go/ast\<close>, the data every mutation component works on. One
  constructor per node type, with the fields the program reads or writes, in the order of
  the Go struct. A field that Go documents as possibly \<open>nil\<close> is an \<open>option\<close>; a slice is
  a list, and an \<open>option\<close> of a list only where the program tells \<open>nil\<close> from empty
  (\<open>CaseClause.List\<close>, \<open>nil\<close> for a default clause). Positions (\<open>token.Pos\<close>) are
  integers and \<open>NoPos\<close> is 0, so two nodes of one parsed file that are equal here are the
  same node: they have a token at the same offset. This is how pointer comparisons of the
  source (\<open>rhs == bl\<close>, \<open>c == cc\<close>) are read.
\<close>

subsection \<open>Tokens\<close>

datatype (plugins only: size code) token = T_ILLEGAL | T_IDENT | T_INT | T_FLOAT | T_IMAG | T_CHAR | T_STRING
  | T_ADD | T_SUB | T_MUL | T_QUO | T_REM | T_AND | T_OR | T_XOR | T_SHL | T_SHR
  | T_ADD_ASSIGN | T_SUB_ASSIGN | T_MUL_ASSIGN | T_QUO_ASSIGN
  | T_LAND | T_LOR | T_ARROW | T_INC | T_DEC | T_EQL | T_LSS | T_GTR | T_ASSIGN | T_NOT
  | T_NEQ | T_LEQ | T_GEQ | T_DEFINE
  | T_BREAK | T_CONTINUE | T_GOTO | T_FALLTHROUGH | T_CONST | T_IMPORT | T_TYPE | T_VAR
  | T_RANGE | T_OTHER string

primrec tokenString :: "token \<Rightarrow> string" where
  "tokenString T_ILLEGAL = ''ILLEGAL''"
| "tokenString T_IDENT = ''IDENT''"
| "tokenString T_INT = ''INT''"
| "tokenString T_FLOAT = ''FLOAT''"
| "tokenString T_IMAG = ''IMAG''"
| "tokenString T_CHAR = ''CHAR''"
| "tokenString T_STRING = ''STRING''"
| "tokenString T_ADD = ''+''"
| "tokenString T_SUB = ''-''"
| "tokenString T_MUL = ''*''"
| "tokenString T_QUO = ''/''"
| "tokenString T_REM = ''%''"
| "tokenString T_AND = ''&''"
| "tokenString T_OR = ''|''"
| "tokenString T_XOR = ''^''"
| "tokenString T_SHL = ''<<''"
| "tokenString T_SHR = ''>>''"
| "tokenString T_ADD_ASSIGN = ''+=''"
| "tokenString T_SUB_ASSIGN = ''-=''"
| "tokenString T_MUL_ASSIGN = ''*=''"
| "tokenString T_QUO_ASSIGN = ''/=''"
| "tokenString T_LAND = ''&&''"
| "tokenString T_LOR = ''||''"
| "tokenString T_ARROW = ''<-''"
| "tokenString T_INC = ''++''"
| "tokenString T_DEC = ''--''"
| "tokenString T_EQL = ''==''"
| "tokenString T_LSS = ''<''"
| "tokenString T_GTR = ''>''"
| "tokenString T_ASSIGN = ''=''"
| "tokenString T_NOT = ''!''"
| "tokenString T_NEQ = ''!=''"
| "tokenString T_LEQ = ''<=''"
| "tokenString T_GEQ = ''>=''"
| "tokenString T_DEFINE = '':=''"
| "tokenString T_BREAK = ''break''"
| "tokenString T_CONTINUE = ''continue''"
| "tokenString T_GOTO = ''goto''"
| "tokenString T_FALLTHROUGH = ''fallthrough''"
| "tokenString T_CONST = ''const''"
| "tokenString T_IMPORT = ''import''"
| "tokenString T_TYPE = ''type''"
| "tokenString T_VAR = ''var''"
| "tokenString T_RANGE = ''range''"
| "tokenString (T_OTHER s) = s"

subsection \<open>Nodes\<close>

datatype (plugins only: size code) node =
    BadExpr int int
  | Ident int string
  | Ellipsis int "node option"
  | BasicLit int token string
  | FuncLit node node
  | CompositeLit "node option" int "node list" int
  | ParenExpr int node int
  | SelectorExpr node node
  | IndexExpr node int node int
  | IndexListExpr node int "node list" int
  | SliceExpr node int "node option" "node option" "node option" bool int
  | TypeAssertExpr node int "node option" int
  | CallExpr node int "node list" int int
  | StarExpr int node
  | UnaryExpr int token node
  | BinaryExpr node int token node
  | KeyValueExpr node int node
  | ArrayType int "node option" node
  | StructType int node
  | FuncType int "node option" "node option" "node option"
  | InterfaceType int node
  | MapType int node node
  | ChanType int nat node
  | BadStmt int int
  | DeclStmt node
  | EmptyStmt int bool
  | LabeledStmt node int node
  | ExprStmt node
  | SendStmt node int node
  | IncDecStmt node int token
  | AssignStmt "node list" int token "node list"
  | GoStmt int node
  | DeferStmt int node
  | ReturnStmt int "node list"
  | BranchStmt int token "node option"
  | BlockStmt int "node list" int
  | IfStmt int "node option" node node "node option"
  | CaseClause int "node list option" int "node list"
  | SwitchStmt int "node option" "node option" node
  | TypeSwitchStmt int "node option" node node
  | CommClause int "node option" int "node list"
  | SelectStmt int node
  | ForStmt int "node option" "node option" "node option" node
  | RangeStmt int "node option" "node option" int token int node node
  | ImportSpec "node option" "node option" node "node option"
  | ValueSpec "node option" "node list" "node option" "node list" "node option"
  | TypeSpec "node option" node "node option" int node "node option"
  | BadDecl int int
  | GenDecl "node option" int token int "node list" int
  | FuncDecl "node option" "node option" node node "node option"
  | Field "node option" "node list" "node option" "node option" "node option"
  | FieldList int "node list" int
  | Comment int string
  | CommentGroup "node list"
  | File "node option" int node "node list" "node list"

text \<open>Membership of Go's \<open>ast.Expr\<close> and \<open>ast.Stmt\<close> interfaces.\<close>

definition is_Expr :: "node \<Rightarrow> bool" where
  "is_Expr n = (case n of
     BadExpr _ _ \<Rightarrow> True | Ident _ _ \<Rightarrow> True | Ellipsis _ _ \<Rightarrow> True | BasicLit _ _ _ \<Rightarrow> True
   | FuncLit _ _ \<Rightarrow> True | CompositeLit _ _ _ _ \<Rightarrow> True | ParenExpr _ _ _ \<Rightarrow> True
   | SelectorExpr _ _ \<Rightarrow> True | IndexExpr _ _ _ _ \<Rightarrow> True | IndexListExpr _ _ _ _ \<Rightarrow> True
   | SliceExpr _ _ _ _ _ _ _ \<Rightarrow> True | TypeAssertExpr _ _ _ _ \<Rightarrow> True
   | CallExpr _ _ _ _ _ \<Rightarrow> True | StarExpr _ _ \<Rightarrow> True | UnaryExpr _ _ _ \<Rightarrow> True
   | BinaryExpr _ _ _ _ \<Rightarrow> True | KeyValueExpr _ _ _ \<Rightarrow> True | ArrayType _ _ _ \<Rightarrow> True
   | StructType _ _ \<Rightarrow> True | FuncType _ _ _ _ \<Rightarrow> True | InterfaceType _ _ \<Rightarrow> True
   | MapType _ _ _ \<Rightarrow> True | ChanType _ _ _ \<Rightarrow> True | _ \<Rightarrow> False)"

definition is_Stmt :: "node \<Rightarrow> bool" where
  "is_Stmt n = (case n of
     BadStmt _ _ \<Rightarrow> True | DeclStmt _ \<Rightarrow> True | EmptyStmt _ _ \<Rightarrow> True | LabeledStmt _ _ _ \<Rightarrow> True
   | ExprStmt _ \<Rightarrow> True | SendStmt _ _ _ \<Rightarrow> True | IncDecStmt _ _ _ \<Rightarrow> True
   | AssignStmt _ _ _ _ \<Rightarrow> True | GoStmt _ _ \<Rightarrow> True | DeferStmt _ _ \<Rightarrow> True
   | ReturnStmt _ _ \<Rightarrow> True | BranchStmt _ _ _ \<Rightarrow> True | BlockStmt _ _ _ \<Rightarrow> True
   | IfStmt _ _ _ _ _ \<Rightarrow> True | CaseClause _ _ _ _ \<Rightarrow> True | SwitchStmt _ _ _ _ \<Rightarrow> True
   | TypeSwitchStmt _ _ _ _ \<Rightarrow> True | CommClause _ _ _ _ \<Rightarrow> True | SelectStmt _ _ \<Rightarrow> True
   | ForStmt _ _ _ _ _ \<Rightarrow> True | RangeStmt _ _ _ _ _ _ _ _ \<Rightarrow> True | _ \<Rightarrow> False)"

text \<open>The statements of a block (\<open>x.Body.List\<close>); every field it is used on is a block.\<close>

definition blockList :: "node \<Rightarrow> node list" where
  "blockList n = (case n of BlockStmt _ l _ \<Rightarrow> l | _ \<Rightarrow> [])"

lemma blockList_simps [simp]: "blockList (BlockStmt a l b) = l"
  by (simp add: blockList_def)

end
