(* ===== verification/Tokens.thy ===== *)
theory Tokens
  imports GoAst
begin

text \<open>
  \<open>pkg/mutator/tokens/tokens.go\<close>: the flip tables of the token-based operators. A Go map
  from tokens to tokens is a partial function, a \<open>map[token.Token]struct{}\<close> a set. Every
  table comes as a pair, the tokens an operator accepts and the token each is replaced by;
  \<open>token_flip\<close> is the contract such a pair has to meet, \<open>involutive_flip\<close> the stronger
  one of the tables that undo themselves.
\<close>

definition ArithmeticFlipPairs :: "token \<rightharpoonup> token" where
  "ArithmeticFlipPairs =
     [T_ADD \<mapsto> T_SUB, T_SUB \<mapsto> T_ADD, T_MUL \<mapsto> T_QUO, T_QUO \<mapsto> T_MUL]"

definition ArithmeticFlipTokens :: "token set" where
  "ArithmeticFlipTokens = {T_ADD, T_SUB, T_MUL, T_QUO}"

definition ComparisonNegationPairs :: "token \<rightharpoonup> token" where
  "ComparisonNegationPairs =
     [T_EQL \<mapsto> T_NEQ, T_NEQ \<mapsto> T_EQL, T_LSS \<mapsto> T_GEQ,
      T_LEQ \<mapsto> T_GTR, T_GTR \<mapsto> T_LEQ, T_GEQ \<mapsto> T_LSS]"

definition ComparisonNegationTokens :: "token set" where
  "ComparisonNegationTokens = {T_EQL, T_NEQ, T_LSS, T_LEQ, T_GTR, T_GEQ}"

definition BoundaryValuePairs :: "token \<rightharpoonup> token" where
  "BoundaryValuePairs =
     [T_LSS \<mapsto> T_LEQ, T_LEQ \<mapsto> T_LSS, T_GTR \<mapsto> T_GEQ, T_GEQ \<mapsto> T_GTR]"

definition BoundaryValueTokens :: "token set" where
  "BoundaryValueTokens = {T_LSS, T_GTR, T_LEQ, T_GEQ}"

definition LogicalOperatorPairs :: "token \<rightharpoonup> token" where
  "LogicalOperatorPairs = [T_LAND \<mapsto> T_LOR, T_LOR \<mapsto> T_LAND]"

definition LogicalOperatorTokens :: "token set" where
  "LogicalOperatorTokens = {T_LAND, T_LOR}"

definition BinaryMathPairs :: "token \<rightharpoonup> token" where
  "BinaryMathPairs =
     [T_REM \<mapsto> T_MUL, T_AND \<mapsto> T_OR, T_OR \<mapsto> T_AND, T_SHL \<mapsto> T_SHR, T_SHR \<mapsto> T_SHL]"

definition BinaryMathTokens :: "token set" where
  "BinaryMathTokens = {T_REM, T_AND, T_OR, T_SHL, T_SHR}"

definition IncDecPairs :: "token \<rightharpoonup> token" where
  "IncDecPairs = [T_INC \<mapsto> T_DEC, T_DEC \<mapsto> T_INC]"

definition IncDecTokens :: "token set" where
  "IncDecTokens = {T_INC, T_DEC}"

definition SignTogglePairs :: "token \<rightharpoonup> token" where
  "SignTogglePairs = [T_SUB \<mapsto> T_ADD, T_ADD \<mapsto> T_SUB]"

definition SignToggleTokens :: "token set" where
  "SignToggleTokens = {T_SUB, T_ADD}"

definition SwapBinaryToken :: "token \<Rightarrow> (token \<rightharpoonup> token) \<Rightarrow> token option" where
  "SwapBinaryToken op pairs = pairs op"

lemmas flip_tables =
  ArithmeticFlipPairs_def ArithmeticFlipTokens_def
  ComparisonNegationPairs_def ComparisonNegationTokens_def
  BoundaryValuePairs_def BoundaryValueTokens_def
  LogicalOperatorPairs_def LogicalOperatorTokens_def
  BinaryMathPairs_def BinaryMathTokens_def
  IncDecPairs_def IncDecTokens_def
  SignTogglePairs_def SignToggleTokens_def

subsection \<open>The contract of a table\<close>

locale token_flip =
  fixes pairs :: "token \<rightharpoonup> token" and toks :: "token set"
  assumes total: "t \<in> toks \<longleftrightarrow> pairs t \<noteq> None"
    and changes: "pairs t = Some u \<Longrightarrow> u \<noteq> t"
begin

lemma accepted_iff: "t \<in> toks \<longleftrightarrow> (\<exists>u. SwapBinaryToken t pairs = Some u \<and> u \<noteq> t)"
  using total changes by (fastforce simp: SwapBinaryToken_def)

lemma not_fixed: "SwapBinaryToken t pairs \<noteq> Some t"
  using changes by (auto simp: SwapBinaryToken_def)

end

locale involutive_flip = token_flip +
  assumes undo: "pairs t = Some u \<Longrightarrow> pairs u = Some t"
begin

lemma swap_swap: "SwapBinaryToken t pairs = Some u \<Longrightarrow> SwapBinaryToken u pairs = Some t"
  unfolding SwapBinaryToken_def by (rule undo)

lemma closed: "SwapBinaryToken t pairs = Some u \<Longrightarrow> u \<in> toks"
  unfolding SwapBinaryToken_def total by (drule undo) simp

lemma injective: "SwapBinaryToken t pairs = Some u \<Longrightarrow> SwapBinaryToken t' pairs = Some u \<Longrightarrow> t = t'"
  unfolding SwapBinaryToken_def using undo [of t u] undo [of t' u] by simp

end

lemma arith_total: "t \<in> ArithmeticFlipTokens \<longleftrightarrow> ArithmeticFlipPairs t \<noteq> None"
  by (cases t) (simp_all add: ArithmeticFlipPairs_def ArithmeticFlipTokens_def)

lemma arith_changes: "ArithmeticFlipPairs t = Some u \<Longrightarrow> u \<noteq> t"
  by (cases t) (auto simp: ArithmeticFlipPairs_def)

lemma arith_undo: "ArithmeticFlipPairs t = Some u \<Longrightarrow> ArithmeticFlipPairs u = Some t"
  by (cases t) (auto simp: ArithmeticFlipPairs_def)

interpretation arith: involutive_flip ArithmeticFlipPairs ArithmeticFlipTokens
  by unfold_locales (fact arith_total arith_changes arith_undo)+

lemma cmpneg_total: "t \<in> ComparisonNegationTokens \<longleftrightarrow> ComparisonNegationPairs t \<noteq> None"
  by (cases t) (simp_all add: ComparisonNegationPairs_def ComparisonNegationTokens_def)

lemma cmpneg_changes: "ComparisonNegationPairs t = Some u \<Longrightarrow> u \<noteq> t"
  by (cases t) (auto simp: ComparisonNegationPairs_def)

lemma cmpneg_undo: "ComparisonNegationPairs t = Some u \<Longrightarrow> ComparisonNegationPairs u = Some t"
  by (cases t) (auto simp: ComparisonNegationPairs_def)

interpretation cmpneg: involutive_flip ComparisonNegationPairs ComparisonNegationTokens
  by unfold_locales (fact cmpneg_total cmpneg_changes cmpneg_undo)+

lemma boundary_total: "t \<in> BoundaryValueTokens \<longleftrightarrow> BoundaryValuePairs t \<noteq> None"
  by (cases t) (simp_all add: BoundaryValuePairs_def BoundaryValueTokens_def)

lemma boundary_changes: "BoundaryValuePairs t = Some u \<Longrightarrow> u \<noteq> t"
  by (cases t) (auto simp: BoundaryValuePairs_def)

lemma boundary_undo: "BoundaryValuePairs t = Some u \<Longrightarrow> BoundaryValuePairs u = Some t"
  by (cases t) (auto simp: BoundaryValuePairs_def)

interpretation boundary: involutive_flip BoundaryValuePairs BoundaryValueTokens
  by unfold_locales (fact boundary_total boundary_changes boundary_undo)+

lemma logical_total: "t \<in> LogicalOperatorTokens \<longleftrightarrow> LogicalOperatorPairs t \<noteq> None"
  by (cases t) (simp_all add: LogicalOperatorPairs_def LogicalOperatorTokens_def)

lemma logical_changes: "LogicalOperatorPairs t = Some u \<Longrightarrow> u \<noteq> t"
  by (cases t) (auto simp: LogicalOperatorPairs_def)

lemma logical_undo: "LogicalOperatorPairs t = Some u \<Longrightarrow> LogicalOperatorPairs u = Some t"
  by (cases t) (auto simp: LogicalOperatorPairs_def)

interpretation logical: involutive_flip LogicalOperatorPairs LogicalOperatorTokens
  by unfold_locales (fact logical_total logical_changes logical_undo)+

lemma binmath_total: "t \<in> BinaryMathTokens \<longleftrightarrow> BinaryMathPairs t \<noteq> None"
  by (cases t) (simp_all add: BinaryMathPairs_def BinaryMathTokens_def)

lemma binmath_changes: "BinaryMathPairs t = Some u \<Longrightarrow> u \<noteq> t"
  by (cases t) (auto simp: BinaryMathPairs_def)

interpretation binmath: token_flip BinaryMathPairs BinaryMathTokens
  by unfold_locales (fact binmath_total binmath_changes)+

lemma incdec_total: "t \<in> IncDecTokens \<longleftrightarrow> IncDecPairs t \<noteq> None"
  by (cases t) (simp_all add: IncDecPairs_def IncDecTokens_def)

lemma incdec_changes: "IncDecPairs t = Some u \<Longrightarrow> u \<noteq> t"
  by (cases t) (auto simp: IncDecPairs_def)

lemma incdec_undo: "IncDecPairs t = Some u \<Longrightarrow> IncDecPairs u = Some t"
  by (cases t) (auto simp: IncDecPairs_def)

interpretation incdec: involutive_flip IncDecPairs IncDecTokens
  by unfold_locales (fact incdec_total incdec_changes incdec_undo)+

lemma sign_total: "t \<in> SignToggleTokens \<longleftrightarrow> SignTogglePairs t \<noteq> None"
  by (cases t) (simp_all add: SignTogglePairs_def SignToggleTokens_def)

lemma sign_changes: "SignTogglePairs t = Some u \<Longrightarrow> u \<noteq> t"
  by (cases t) (auto simp: SignTogglePairs_def)

lemma sign_undo: "SignTogglePairs t = Some u \<Longrightarrow> SignTogglePairs u = Some t"
  by (cases t) (auto simp: SignTogglePairs_def)

interpretation sign: involutive_flip SignTogglePairs SignToggleTokens
  by unfold_locales (fact sign_total sign_changes sign_undo)+

subsection \<open>What the comparison tables mean\<close>

text \<open>
  The relation a comparison token stands for on integers; \<open>None\<close> for the other tokens.
\<close>

definition cmp_sem :: "token \<Rightarrow> (int \<Rightarrow> int \<Rightarrow> bool) option" where
  "cmp_sem t = (case t of
     T_EQL \<Rightarrow> Some (\<lambda>a b. a = b) | T_NEQ \<Rightarrow> Some (\<lambda>a b. a \<noteq> b)
   | T_LSS \<Rightarrow> Some (\<lambda>a b. a < b) | T_LEQ \<Rightarrow> Some (\<lambda>a b. a \<le> b)
   | T_GTR \<Rightarrow> Some (\<lambda>a b. a > b) | T_GEQ \<Rightarrow> Some (\<lambda>a b. a \<ge> b) | _ \<Rightarrow> None)"

lemma negation_negates:
  assumes "SwapBinaryToken t ComparisonNegationPairs = Some u"
  shows "\<exists>r s. cmp_sem t = Some r \<and> cmp_sem u = Some s \<and> (\<forall>a b. s a b \<longleftrightarrow> \<not> r a b)"
  using assms
  by (cases t) (auto simp: SwapBinaryToken_def ComparisonNegationPairs_def cmp_sem_def)

lemma boundary_at_equality:
  assumes "SwapBinaryToken t BoundaryValuePairs = Some u"
  shows "\<exists>r s. cmp_sem t = Some r \<and> cmp_sem u = Some s \<and>
           (\<forall>a b. s a b \<noteq> r a b \<longleftrightarrow> a = b)"
  using assms
  by (cases t) (auto simp: SwapBinaryToken_def BoundaryValuePairs_def cmp_sem_def)

end
