(* ===== verification/AstOps.thy ===== *)
theory AstOps
  imports GoAst
begin

text \<open>
  The operations of \<open>go/ast\<close> on nodes: the type assertions \<open>x, ok := n.(*ast.T)\<close> (one
  \<open>as_T\<close> per type, returning the fields), the children in the order of \<open>ast.Walk\<close>,
  \<open>ast.Inspect\<close> as the list of nodes it visits, and \<open>Pos\<close> and \<open>End\<close>.
\<close>

subsection \<open>Type assertions\<close>

definition as_Ident :: "node \<Rightarrow> (int \<times> string) option" where
  "as_Ident n = (case n of Ident x0 x1 \<Rightarrow> Some (x0, x1) | _ \<Rightarrow> None)"

definition as_BasicLit :: "node \<Rightarrow> (int \<times> token \<times> string) option" where
  "as_BasicLit n = (case n of BasicLit x0 x1 x2 \<Rightarrow> Some (x0, x1, x2) | _ \<Rightarrow> None)"

definition as_FuncLit :: "node \<Rightarrow> (node \<times> node) option" where
  "as_FuncLit n = (case n of FuncLit x0 x1 \<Rightarrow> Some (x0, x1) | _ \<Rightarrow> None)"

definition as_CompositeLit :: "node \<Rightarrow> (node option \<times> int \<times> node list \<times> int) option" where
  "as_CompositeLit n = (case n of CompositeLit x0 x1 x2 x3 \<Rightarrow> Some (x0, x1, x2, x3) | _ \<Rightarrow> None)"

definition as_ParenExpr :: "node \<Rightarrow> (int \<times> node \<times> int) option" where
  "as_ParenExpr n = (case n of ParenExpr x0 x1 x2 \<Rightarrow> Some (x0, x1, x2) | _ \<Rightarrow> None)"

definition as_SelectorExpr :: "node \<Rightarrow> (node \<times> node) option" where
  "as_SelectorExpr n = (case n of SelectorExpr x0 x1 \<Rightarrow> Some (x0, x1) | _ \<Rightarrow> None)"

definition as_IndexExpr :: "node \<Rightarrow> (node \<times> int \<times> node \<times> int) option" where
  "as_IndexExpr n = (case n of IndexExpr x0 x1 x2 x3 \<Rightarrow> Some (x0, x1, x2, x3) | _ \<Rightarrow> None)"

definition as_IndexListExpr :: "node \<Rightarrow> (node \<times> int \<times> node list \<times> int) option" where
  "as_IndexListExpr n = (case n of IndexListExpr x0 x1 x2 x3 \<Rightarrow> Some (x0, x1, x2, x3) | _ \<Rightarrow> None)"

definition as_SliceExpr :: "node \<Rightarrow> (node \<times> int \<times> node option \<times> node option \<times> node option \<times> bool \<times> int) option" where
  "as_SliceExpr n = (case n of SliceExpr x0 x1 x2 x3 x4 x5 x6 \<Rightarrow> Some (x0, x1, x2, x3, x4, x5, x6) | _ \<Rightarrow> None)"

definition as_TypeAssertExpr :: "node \<Rightarrow> (node \<times> int \<times> node option \<times> int) option" where
  "as_TypeAssertExpr n = (case n of TypeAssertExpr x0 x1 x2 x3 \<Rightarrow> Some (x0, x1, x2, x3) | _ \<Rightarrow> None)"

definition as_CallExpr :: "node \<Rightarrow> (node \<times> int \<times> node list \<times> int \<times> int) option" where
  "as_CallExpr n = (case n of CallExpr x0 x1 x2 x3 x4 \<Rightarrow> Some (x0, x1, x2, x3, x4) | _ \<Rightarrow> None)"

definition as_StarExpr :: "node \<Rightarrow> (int \<times> node) option" where
  "as_StarExpr n = (case n of StarExpr x0 x1 \<Rightarrow> Some (x0, x1) | _ \<Rightarrow> None)"

definition as_UnaryExpr :: "node \<Rightarrow> (int \<times> token \<times> node) option" where
  "as_UnaryExpr n = (case n of UnaryExpr x0 x1 x2 \<Rightarrow> Some (x0, x1, x2) | _ \<Rightarrow> None)"

definition as_BinaryExpr :: "node \<Rightarrow> (node \<times> int \<times> token \<times> node) option" where
  "as_BinaryExpr n = (case n of BinaryExpr x0 x1 x2 x3 \<Rightarrow> Some (x0, x1, x2, x3) | _ \<Rightarrow> None)"

definition as_KeyValueExpr :: "node \<Rightarrow> (node \<times> int \<times> node) option" where
  "as_KeyValueExpr n = (case n of KeyValueExpr x0 x1 x2 \<Rightarrow> Some (x0, x1, x2) | _ \<Rightarrow> None)"

definition as_ArrayType :: "node \<Rightarrow> (int \<times> node option \<times> node) option" where
  "as_ArrayType n = (case n of ArrayType x0 x1 x2 \<Rightarrow> Some (x0, x1, x2) | _ \<Rightarrow> None)"

definition as_MapType :: "node \<Rightarrow> (int \<times> node \<times> node) option" where
  "as_MapType n = (case n of MapType x0 x1 x2 \<Rightarrow> Some (x0, x1, x2) | _ \<Rightarrow> None)"

definition as_ChanType :: "node \<Rightarrow> (int \<times> nat \<times> node) option" where
  "as_ChanType n = (case n of ChanType x0 x1 x2 \<Rightarrow> Some (x0, x1, x2) | _ \<Rightarrow> None)"

definition as_FuncType :: "node \<Rightarrow> (int \<times> node option \<times> node option \<times> node option) option" where
  "as_FuncType n = (case n of FuncType x0 x1 x2 x3 \<Rightarrow> Some (x0, x1, x2, x3) | _ \<Rightarrow> None)"

definition as_ExprStmt :: "node \<Rightarrow> (node) option" where
  "as_ExprStmt n = (case n of ExprStmt x0 \<Rightarrow> Some x0 | _ \<Rightarrow> None)"

definition as_IncDecStmt :: "node \<Rightarrow> (node \<times> int \<times> token) option" where
  "as_IncDecStmt n = (case n of IncDecStmt x0 x1 x2 \<Rightarrow> Some (x0, x1, x2) | _ \<Rightarrow> None)"

definition as_AssignStmt :: "node \<Rightarrow> (node list \<times> int \<times> token \<times> node list) option" where
  "as_AssignStmt n = (case n of AssignStmt x0 x1 x2 x3 \<Rightarrow> Some (x0, x1, x2, x3) | _ \<Rightarrow> None)"

definition as_GoStmt :: "node \<Rightarrow> (int \<times> node) option" where
  "as_GoStmt n = (case n of GoStmt x0 x1 \<Rightarrow> Some (x0, x1) | _ \<Rightarrow> None)"

definition as_DeferStmt :: "node \<Rightarrow> (int \<times> node) option" where
  "as_DeferStmt n = (case n of DeferStmt x0 x1 \<Rightarrow> Some (x0, x1) | _ \<Rightarrow> None)"

definition as_ReturnStmt :: "node \<Rightarrow> (int \<times> node list) option" where
  "as_ReturnStmt n = (case n of ReturnStmt x0 x1 \<Rightarrow> Some (x0, x1) | _ \<Rightarrow> None)"

definition as_DeclStmt :: "node \<Rightarrow> (node) option" where
  "as_DeclStmt n = (case n of DeclStmt x0 \<Rightarrow> Some x0 | _ \<Rightarrow> None)"

definition as_BranchStmt :: "node \<Rightarrow> (int \<times> token \<times> node option) option" where
  "as_BranchStmt n = (case n of BranchStmt x0 x1 x2 \<Rightarrow> Some (x0, x1, x2) | _ \<Rightarrow> None)"

definition as_BlockStmt :: "node \<Rightarrow> (int \<times> node list \<times> int) option" where
  "as_BlockStmt n = (case n of BlockStmt x0 x1 x2 \<Rightarrow> Some (x0, x1, x2) | _ \<Rightarrow> None)"

definition as_IfStmt :: "node \<Rightarrow> (int \<times> node option \<times> node \<times> node \<times> node option) option" where
  "as_IfStmt n = (case n of IfStmt x0 x1 x2 x3 x4 \<Rightarrow> Some (x0, x1, x2, x3, x4) | _ \<Rightarrow> None)"

definition as_CaseClause :: "node \<Rightarrow> (int \<times> node list option \<times> int \<times> node list) option" where
  "as_CaseClause n = (case n of CaseClause x0 x1 x2 x3 \<Rightarrow> Some (x0, x1, x2, x3) | _ \<Rightarrow> None)"

definition as_ForStmt :: "node \<Rightarrow> (int \<times> node option \<times> node option \<times> node option \<times> node) option" where
  "as_ForStmt n = (case n of ForStmt x0 x1 x2 x3 x4 \<Rightarrow> Some (x0, x1, x2, x3, x4) | _ \<Rightarrow> None)"

definition as_RangeStmt :: "node \<Rightarrow> (int \<times> node option \<times> node option \<times> int \<times> token \<times> int \<times> node \<times> node) option" where
  "as_RangeStmt n = (case n of RangeStmt x0 x1 x2 x3 x4 x5 x6 x7 \<Rightarrow> Some (x0, x1, x2, x3, x4, x5, x6, x7) | _ \<Rightarrow> None)"

definition as_SwitchStmt :: "node \<Rightarrow> (int \<times> node option \<times> node option \<times> node) option" where
  "as_SwitchStmt n = (case n of SwitchStmt x0 x1 x2 x3 \<Rightarrow> Some (x0, x1, x2, x3) | _ \<Rightarrow> None)"

definition as_TypeSwitchStmt :: "node \<Rightarrow> (int \<times> node option \<times> node \<times> node) option" where
  "as_TypeSwitchStmt n = (case n of TypeSwitchStmt x0 x1 x2 x3 \<Rightarrow> Some (x0, x1, x2, x3) | _ \<Rightarrow> None)"

definition as_ValueSpec :: "node \<Rightarrow> (node option \<times> node list \<times> node option \<times> node list \<times> node option) option" where
  "as_ValueSpec n = (case n of ValueSpec x0 x1 x2 x3 x4 \<Rightarrow> Some (x0, x1, x2, x3, x4) | _ \<Rightarrow> None)"

definition as_TypeSpec :: "node \<Rightarrow> (node option \<times> node \<times> node option \<times> int \<times> node \<times> node option) option" where
  "as_TypeSpec n = (case n of TypeSpec x0 x1 x2 x3 x4 x5 \<Rightarrow> Some (x0, x1, x2, x3, x4, x5) | _ \<Rightarrow> None)"

definition as_GenDecl :: "node \<Rightarrow> (node option \<times> int \<times> token \<times> int \<times> node list \<times> int) option" where
  "as_GenDecl n = (case n of GenDecl x0 x1 x2 x3 x4 x5 \<Rightarrow> Some (x0, x1, x2, x3, x4, x5) | _ \<Rightarrow> None)"

definition as_FuncDecl :: "node \<Rightarrow> (node option \<times> node option \<times> node \<times> node \<times> node option) option" where
  "as_FuncDecl n = (case n of FuncDecl x0 x1 x2 x3 x4 \<Rightarrow> Some (x0, x1, x2, x3, x4) | _ \<Rightarrow> None)"

definition as_ImportSpec :: "node \<Rightarrow> (node option \<times> node option \<times> node \<times> node option) option" where
  "as_ImportSpec n = (case n of ImportSpec x0 x1 x2 x3 \<Rightarrow> Some (x0, x1, x2, x3) | _ \<Rightarrow> None)"

definition as_File :: "node \<Rightarrow> (node option \<times> int \<times> node \<times> node list \<times> node list) option" where
  "as_File n = (case n of File x0 x1 x2 x3 x4 \<Rightarrow> Some (x0, x1, x2, x3, x4) | _ \<Rightarrow> None)"

definition as_Field :: "node \<Rightarrow> (node option \<times> node list \<times> node option \<times> node option \<times> node option) option" where
  "as_Field n = (case n of Field x0 x1 x2 x3 x4 \<Rightarrow> Some (x0, x1, x2, x3, x4) | _ \<Rightarrow> None)"

definition as_FieldList :: "node \<Rightarrow> (int \<times> node list \<times> int) option" where
  "as_FieldList n = (case n of FieldList x0 x1 x2 \<Rightarrow> Some (x0, x1, x2) | _ \<Rightarrow> None)"

lemma as_Ident_Some: "as_Ident n = Some (x0, x1) \<longleftrightarrow> n = Ident x0 x1"
  by (cases n) (auto simp: as_Ident_def)

lemma as_BasicLit_Some: "as_BasicLit n = Some (x0, x1, x2) \<longleftrightarrow> n = BasicLit x0 x1 x2"
  by (cases n) (auto simp: as_BasicLit_def)

lemma as_FuncLit_Some: "as_FuncLit n = Some (x0, x1) \<longleftrightarrow> n = FuncLit x0 x1"
  by (cases n) (auto simp: as_FuncLit_def)

lemma as_CompositeLit_Some: "as_CompositeLit n = Some (x0, x1, x2, x3) \<longleftrightarrow> n = CompositeLit x0 x1 x2 x3"
  by (cases n) (auto simp: as_CompositeLit_def)

lemma as_ParenExpr_Some: "as_ParenExpr n = Some (x0, x1, x2) \<longleftrightarrow> n = ParenExpr x0 x1 x2"
  by (cases n) (auto simp: as_ParenExpr_def)

lemma as_SelectorExpr_Some: "as_SelectorExpr n = Some (x0, x1) \<longleftrightarrow> n = SelectorExpr x0 x1"
  by (cases n) (auto simp: as_SelectorExpr_def)

lemma as_IndexExpr_Some: "as_IndexExpr n = Some (x0, x1, x2, x3) \<longleftrightarrow> n = IndexExpr x0 x1 x2 x3"
  by (cases n) (auto simp: as_IndexExpr_def)

lemma as_IndexListExpr_Some: "as_IndexListExpr n = Some (x0, x1, x2, x3) \<longleftrightarrow> n = IndexListExpr x0 x1 x2 x3"
  by (cases n) (auto simp: as_IndexListExpr_def)

lemma as_SliceExpr_Some: "as_SliceExpr n = Some (x0, x1, x2, x3, x4, x5, x6) \<longleftrightarrow> n = SliceExpr x0 x1 x2 x3 x4 x5 x6"
  by (cases n) (auto simp: as_SliceExpr_def)

lemma as_TypeAssertExpr_Some: "as_TypeAssertExpr n = Some (x0, x1, x2, x3) \<longleftrightarrow> n = TypeAssertExpr x0 x1 x2 x3"
  by (cases n) (auto simp: as_TypeAssertExpr_def)

lemma as_CallExpr_Some: "as_CallExpr n = Some (x0, x1, x2, x3, x4) \<longleftrightarrow> n = CallExpr x0 x1 x2 x3 x4"
  by (cases n) (auto simp: as_CallExpr_def)

lemma as_StarExpr_Some: "as_StarExpr n = Some (x0, x1) \<longleftrightarrow> n = StarExpr x0 x1"
  by (cases n) (auto simp: as_StarExpr_def)

lemma as_UnaryExpr_Some: "as_UnaryExpr n = Some (x0, x1, x2) \<longleftrightarrow> n = UnaryExpr x0 x1 x2"
  by (cases n) (auto simp: as_UnaryExpr_def)

lemma as_BinaryExpr_Some: "as_BinaryExpr n = Some (x0, x1, x2, x3) \<longleftrightarrow> n = BinaryExpr x0 x1 x2 x3"
  by (cases n) (auto simp: as_BinaryExpr_def)

lemma as_KeyValueExpr_Some: "as_KeyValueExpr n = Some (x0, x1, x2) \<longleftrightarrow> n = KeyValueExpr x0 x1 x2"
  by (cases n) (auto simp: as_KeyValueExpr_def)

lemma as_ArrayType_Some: "as_ArrayType n = Some (x0, x1, x2) \<longleftrightarrow> n = ArrayType x0 x1 x2"
  by (cases n) (auto simp: as_ArrayType_def)

lemma as_MapType_Some: "as_MapType n = Some (x0, x1, x2) \<longleftrightarrow> n = MapType x0 x1 x2"
  by (cases n) (auto simp: as_MapType_def)

lemma as_ChanType_Some: "as_ChanType n = Some (x0, x1, x2) \<longleftrightarrow> n = ChanType x0 x1 x2"
  by (cases n) (auto simp: as_ChanType_def)

lemma as_FuncType_Some: "as_FuncType n = Some (x0, x1, x2, x3) \<longleftrightarrow> n = FuncType x0 x1 x2 x3"
  by (cases n) (auto simp: as_FuncType_def)

lemma as_ExprStmt_Some: "as_ExprStmt n = Some x0 \<longleftrightarrow> n = ExprStmt x0"
  by (cases n) (auto simp: as_ExprStmt_def)

lemma as_IncDecStmt_Some: "as_IncDecStmt n = Some (x0, x1, x2) \<longleftrightarrow> n = IncDecStmt x0 x1 x2"
  by (cases n) (auto simp: as_IncDecStmt_def)

lemma as_AssignStmt_Some: "as_AssignStmt n = Some (x0, x1, x2, x3) \<longleftrightarrow> n = AssignStmt x0 x1 x2 x3"
  by (cases n) (auto simp: as_AssignStmt_def)

lemma as_GoStmt_Some: "as_GoStmt n = Some (x0, x1) \<longleftrightarrow> n = GoStmt x0 x1"
  by (cases n) (auto simp: as_GoStmt_def)

lemma as_DeferStmt_Some: "as_DeferStmt n = Some (x0, x1) \<longleftrightarrow> n = DeferStmt x0 x1"
  by (cases n) (auto simp: as_DeferStmt_def)

lemma as_ReturnStmt_Some: "as_ReturnStmt n = Some (x0, x1) \<longleftrightarrow> n = ReturnStmt x0 x1"
  by (cases n) (auto simp: as_ReturnStmt_def)

lemma as_DeclStmt_Some: "as_DeclStmt n = Some x0 \<longleftrightarrow> n = DeclStmt x0"
  by (cases n) (auto simp: as_DeclStmt_def)

lemma as_BranchStmt_Some: "as_BranchStmt n = Some (x0, x1, x2) \<longleftrightarrow> n = BranchStmt x0 x1 x2"
  by (cases n) (auto simp: as_BranchStmt_def)

lemma as_BlockStmt_Some: "as_BlockStmt n = Some (x0, x1, x2) \<longleftrightarrow> n = BlockStmt x0 x1 x2"
  by (cases n) (auto simp: as_BlockStmt_def)

lemma as_IfStmt_Some: "as_IfStmt n = Some (x0, x1, x2, x3, x4) \<longleftrightarrow> n = IfStmt x0 x1 x2 x3 x4"
  by (cases n) (auto simp: as_IfStmt_def)

lemma as_CaseClause_Some: "as_CaseClause n = Some (x0, x1, x2, x3) \<longleftrightarrow> n = CaseClause x0 x1 x2 x3"
  by (cases n) (auto simp: as_CaseClause_def)

lemma as_ForStmt_Some: "as_ForStmt n = Some (x0, x1, x2, x3, x4) \<longleftrightarrow> n = ForStmt x0 x1 x2 x3 x4"
  by (cases n) (auto simp: as_ForStmt_def)

lemma as_RangeStmt_Some: "as_RangeStmt n = Some (x0, x1, x2, x3, x4, x5, x6, x7) \<longleftrightarrow> n = RangeStmt x0 x1 x2 x3 x4 x5 x6 x7"
  by (cases n) (auto simp: as_RangeStmt_def)

lemma as_SwitchStmt_Some: "as_SwitchStmt n = Some (x0, x1, x2, x3) \<longleftrightarrow> n = SwitchStmt x0 x1 x2 x3"
  by (cases n) (auto simp: as_SwitchStmt_def)

lemma as_TypeSwitchStmt_Some: "as_TypeSwitchStmt n = Some (x0, x1, x2, x3) \<longleftrightarrow> n = TypeSwitchStmt x0 x1 x2 x3"
  by (cases n) (auto simp: as_TypeSwitchStmt_def)

lemma as_ValueSpec_Some: "as_ValueSpec n = Some (x0, x1, x2, x3, x4) \<longleftrightarrow> n = ValueSpec x0 x1 x2 x3 x4"
  by (cases n) (auto simp: as_ValueSpec_def)

lemma as_TypeSpec_Some: "as_TypeSpec n = Some (x0, x1, x2, x3, x4, x5) \<longleftrightarrow> n = TypeSpec x0 x1 x2 x3 x4 x5"
  by (cases n) (auto simp: as_TypeSpec_def)

lemma as_GenDecl_Some: "as_GenDecl n = Some (x0, x1, x2, x3, x4, x5) \<longleftrightarrow> n = GenDecl x0 x1 x2 x3 x4 x5"
  by (cases n) (auto simp: as_GenDecl_def)

lemma as_FuncDecl_Some: "as_FuncDecl n = Some (x0, x1, x2, x3, x4) \<longleftrightarrow> n = FuncDecl x0 x1 x2 x3 x4"
  by (cases n) (auto simp: as_FuncDecl_def)

lemma as_ImportSpec_Some: "as_ImportSpec n = Some (x0, x1, x2, x3) \<longleftrightarrow> n = ImportSpec x0 x1 x2 x3"
  by (cases n) (auto simp: as_ImportSpec_def)

lemma as_File_Some: "as_File n = Some (x0, x1, x2, x3, x4) \<longleftrightarrow> n = File x0 x1 x2 x3 x4"
  by (cases n) (auto simp: as_File_def)

lemma as_Field_Some: "as_Field n = Some (x0, x1, x2, x3, x4) \<longleftrightarrow> n = Field x0 x1 x2 x3 x4"
  by (cases n) (auto simp: as_Field_def)

lemma as_FieldList_Some: "as_FieldList n = Some (x0, x1, x2) \<longleftrightarrow> n = FieldList x0 x1 x2"
  by (cases n) (auto simp: as_FieldList_def)

lemma as_Ident_ctor [simp]: "as_Ident (Ident x0 x1) = Some (x0, x1)"
  by (simp add: as_Ident_def)

lemma as_BasicLit_ctor [simp]: "as_BasicLit (BasicLit x0 x1 x2) = Some (x0, x1, x2)"
  by (simp add: as_BasicLit_def)

lemma as_FuncLit_ctor [simp]: "as_FuncLit (FuncLit x0 x1) = Some (x0, x1)"
  by (simp add: as_FuncLit_def)

lemma as_CompositeLit_ctor [simp]: "as_CompositeLit (CompositeLit x0 x1 x2 x3) = Some (x0, x1, x2, x3)"
  by (simp add: as_CompositeLit_def)

lemma as_ParenExpr_ctor [simp]: "as_ParenExpr (ParenExpr x0 x1 x2) = Some (x0, x1, x2)"
  by (simp add: as_ParenExpr_def)

lemma as_SelectorExpr_ctor [simp]: "as_SelectorExpr (SelectorExpr x0 x1) = Some (x0, x1)"
  by (simp add: as_SelectorExpr_def)

lemma as_IndexExpr_ctor [simp]: "as_IndexExpr (IndexExpr x0 x1 x2 x3) = Some (x0, x1, x2, x3)"
  by (simp add: as_IndexExpr_def)

lemma as_IndexListExpr_ctor [simp]: "as_IndexListExpr (IndexListExpr x0 x1 x2 x3) = Some (x0, x1, x2, x3)"
  by (simp add: as_IndexListExpr_def)

lemma as_SliceExpr_ctor [simp]: "as_SliceExpr (SliceExpr x0 x1 x2 x3 x4 x5 x6) = Some (x0, x1, x2, x3, x4, x5, x6)"
  by (simp add: as_SliceExpr_def)

lemma as_TypeAssertExpr_ctor [simp]: "as_TypeAssertExpr (TypeAssertExpr x0 x1 x2 x3) = Some (x0, x1, x2, x3)"
  by (simp add: as_TypeAssertExpr_def)

lemma as_CallExpr_ctor [simp]: "as_CallExpr (CallExpr x0 x1 x2 x3 x4) = Some (x0, x1, x2, x3, x4)"
  by (simp add: as_CallExpr_def)

lemma as_StarExpr_ctor [simp]: "as_StarExpr (StarExpr x0 x1) = Some (x0, x1)"
  by (simp add: as_StarExpr_def)

lemma as_UnaryExpr_ctor [simp]: "as_UnaryExpr (UnaryExpr x0 x1 x2) = Some (x0, x1, x2)"
  by (simp add: as_UnaryExpr_def)

lemma as_BinaryExpr_ctor [simp]: "as_BinaryExpr (BinaryExpr x0 x1 x2 x3) = Some (x0, x1, x2, x3)"
  by (simp add: as_BinaryExpr_def)

lemma as_KeyValueExpr_ctor [simp]: "as_KeyValueExpr (KeyValueExpr x0 x1 x2) = Some (x0, x1, x2)"
  by (simp add: as_KeyValueExpr_def)

lemma as_ArrayType_ctor [simp]: "as_ArrayType (ArrayType x0 x1 x2) = Some (x0, x1, x2)"
  by (simp add: as_ArrayType_def)

lemma as_MapType_ctor [simp]: "as_MapType (MapType x0 x1 x2) = Some (x0, x1, x2)"
  by (simp add: as_MapType_def)

lemma as_ChanType_ctor [simp]: "as_ChanType (ChanType x0 x1 x2) = Some (x0, x1, x2)"
  by (simp add: as_ChanType_def)

lemma as_FuncType_ctor [simp]: "as_FuncType (FuncType x0 x1 x2 x3) = Some (x0, x1, x2, x3)"
  by (simp add: as_FuncType_def)

lemma as_ExprStmt_ctor [simp]: "as_ExprStmt (ExprStmt x0) = Some x0"
  by (simp add: as_ExprStmt_def)

lemma as_IncDecStmt_ctor [simp]: "as_IncDecStmt (IncDecStmt x0 x1 x2) = Some (x0, x1, x2)"
  by (simp add: as_IncDecStmt_def)

lemma as_AssignStmt_ctor [simp]: "as_AssignStmt (AssignStmt x0 x1 x2 x3) = Some (x0, x1, x2, x3)"
  by (simp add: as_AssignStmt_def)

lemma as_GoStmt_ctor [simp]: "as_GoStmt (GoStmt x0 x1) = Some (x0, x1)"
  by (simp add: as_GoStmt_def)

lemma as_DeferStmt_ctor [simp]: "as_DeferStmt (DeferStmt x0 x1) = Some (x0, x1)"
  by (simp add: as_DeferStmt_def)

lemma as_ReturnStmt_ctor [simp]: "as_ReturnStmt (ReturnStmt x0 x1) = Some (x0, x1)"
  by (simp add: as_ReturnStmt_def)

lemma as_DeclStmt_ctor [simp]: "as_DeclStmt (DeclStmt x0) = Some x0"
  by (simp add: as_DeclStmt_def)

lemma as_BranchStmt_ctor [simp]: "as_BranchStmt (BranchStmt x0 x1 x2) = Some (x0, x1, x2)"
  by (simp add: as_BranchStmt_def)

lemma as_BlockStmt_ctor [simp]: "as_BlockStmt (BlockStmt x0 x1 x2) = Some (x0, x1, x2)"
  by (simp add: as_BlockStmt_def)

lemma as_IfStmt_ctor [simp]: "as_IfStmt (IfStmt x0 x1 x2 x3 x4) = Some (x0, x1, x2, x3, x4)"
  by (simp add: as_IfStmt_def)

lemma as_CaseClause_ctor [simp]: "as_CaseClause (CaseClause x0 x1 x2 x3) = Some (x0, x1, x2, x3)"
  by (simp add: as_CaseClause_def)

lemma as_ForStmt_ctor [simp]: "as_ForStmt (ForStmt x0 x1 x2 x3 x4) = Some (x0, x1, x2, x3, x4)"
  by (simp add: as_ForStmt_def)

lemma as_RangeStmt_ctor [simp]: "as_RangeStmt (RangeStmt x0 x1 x2 x3 x4 x5 x6 x7) = Some (x0, x1, x2, x3, x4, x5, x6, x7)"
  by (simp add: as_RangeStmt_def)

lemma as_SwitchStmt_ctor [simp]: "as_SwitchStmt (SwitchStmt x0 x1 x2 x3) = Some (x0, x1, x2, x3)"
  by (simp add: as_SwitchStmt_def)

lemma as_TypeSwitchStmt_ctor [simp]: "as_TypeSwitchStmt (TypeSwitchStmt x0 x1 x2 x3) = Some (x0, x1, x2, x3)"
  by (simp add: as_TypeSwitchStmt_def)

lemma as_ValueSpec_ctor [simp]: "as_ValueSpec (ValueSpec x0 x1 x2 x3 x4) = Some (x0, x1, x2, x3, x4)"
  by (simp add: as_ValueSpec_def)

lemma as_TypeSpec_ctor [simp]: "as_TypeSpec (TypeSpec x0 x1 x2 x3 x4 x5) = Some (x0, x1, x2, x3, x4, x5)"
  by (simp add: as_TypeSpec_def)

lemma as_GenDecl_ctor [simp]: "as_GenDecl (GenDecl x0 x1 x2 x3 x4 x5) = Some (x0, x1, x2, x3, x4, x5)"
  by (simp add: as_GenDecl_def)

lemma as_FuncDecl_ctor [simp]: "as_FuncDecl (FuncDecl x0 x1 x2 x3 x4) = Some (x0, x1, x2, x3, x4)"
  by (simp add: as_FuncDecl_def)

lemma as_ImportSpec_ctor [simp]: "as_ImportSpec (ImportSpec x0 x1 x2 x3) = Some (x0, x1, x2, x3)"
  by (simp add: as_ImportSpec_def)

lemma as_File_ctor [simp]: "as_File (File x0 x1 x2 x3 x4) = Some (x0, x1, x2, x3, x4)"
  by (simp add: as_File_def)

lemma as_Field_ctor [simp]: "as_Field (Field x0 x1 x2 x3 x4) = Some (x0, x1, x2, x3, x4)"
  by (simp add: as_Field_def)

lemma as_FieldList_ctor [simp]: "as_FieldList (FieldList x0 x1 x2) = Some (x0, x1, x2)"
  by (simp add: as_FieldList_def)

lemmas as_Some =
  as_Ident_Some
  as_BasicLit_Some
  as_FuncLit_Some
  as_CompositeLit_Some
  as_ParenExpr_Some
  as_SelectorExpr_Some
  as_IndexExpr_Some
  as_IndexListExpr_Some
  as_SliceExpr_Some
  as_TypeAssertExpr_Some
  as_CallExpr_Some
  as_StarExpr_Some
  as_UnaryExpr_Some
  as_BinaryExpr_Some
  as_KeyValueExpr_Some
  as_ArrayType_Some
  as_MapType_Some
  as_ChanType_Some
  as_FuncType_Some
  as_ExprStmt_Some
  as_IncDecStmt_Some
  as_AssignStmt_Some
  as_GoStmt_Some
  as_DeferStmt_Some
  as_ReturnStmt_Some
  as_DeclStmt_Some
  as_BranchStmt_Some
  as_BlockStmt_Some
  as_IfStmt_Some
  as_CaseClause_Some
  as_ForStmt_Some
  as_RangeStmt_Some
  as_SwitchStmt_Some
  as_TypeSwitchStmt_Some
  as_ValueSpec_Some
  as_TypeSpec_Some
  as_GenDecl_Some
  as_FuncDecl_Some
  as_ImportSpec_Some
  as_File_Some
  as_Field_Some
  as_FieldList_Some

text \<open>Unfolding a type assertion; only on a node that is built by a constructor.\<close>

lemmas as_eval [ast_simps] =
  as_Ident_def
  as_BasicLit_def
  as_FuncLit_def
  as_CompositeLit_def
  as_ParenExpr_def
  as_SelectorExpr_def
  as_IndexExpr_def
  as_IndexListExpr_def
  as_SliceExpr_def
  as_TypeAssertExpr_def
  as_CallExpr_def
  as_StarExpr_def
  as_UnaryExpr_def
  as_BinaryExpr_def
  as_KeyValueExpr_def
  as_ArrayType_def
  as_MapType_def
  as_ChanType_def
  as_FuncType_def
  as_ExprStmt_def
  as_IncDecStmt_def
  as_AssignStmt_def
  as_GoStmt_def
  as_DeferStmt_def
  as_ReturnStmt_def
  as_DeclStmt_def
  as_BranchStmt_def
  as_BlockStmt_def
  as_IfStmt_def
  as_CaseClause_def
  as_ForStmt_def
  as_RangeStmt_def
  as_SwitchStmt_def
  as_TypeSwitchStmt_def
  as_ValueSpec_def
  as_TypeSpec_def
  as_GenDecl_def
  as_FuncDecl_def
  as_ImportSpec_def
  as_File_def
  as_Field_def
  as_FieldList_def

subsection \<open>Children, in the order of ast.Walk\<close>

primrec kids :: "node \<Rightarrow> node list" where
  "kids (BadExpr a b) = []"
| "kids (Ident p s) = []"
| "kids (Ellipsis p e) = option_list e"
| "kids (BasicLit p k v) = []"
| "kids (FuncLit t b) = [t, b]"
| "kids (CompositeLit t l es r) = option_list t @ es"
| "kids (ParenExpr l x r) = [x]"
| "kids (SelectorExpr x s) = [x, s]"
| "kids (IndexExpr x l i r) = [x, i]"
| "kids (IndexListExpr x l is r) = x # is"
| "kids (SliceExpr x l lo hi mx s3 r) = x # option_list lo @ option_list hi @ option_list mx"
| "kids (TypeAssertExpr x l t r) = x # option_list t"
| "kids (CallExpr f l as e r) = f # as"
| "kids (StarExpr p x) = [x]"
| "kids (UnaryExpr p op x) = [x]"
| "kids (BinaryExpr x p op y) = [x, y]"
| "kids (KeyValueExpr k c v) = [k, v]"
| "kids (ArrayType p l e) = option_list l @ [e]"
| "kids (StructType p fs) = [fs]"
| "kids (FuncType p tps ps rs) = option_list tps @ option_list ps @ option_list rs"
| "kids (InterfaceType p ms) = [ms]"
| "kids (MapType p k v) = [k, v]"
| "kids (ChanType p d v) = [v]"
| "kids (BadStmt a b) = []"
| "kids (DeclStmt d) = [d]"
| "kids (EmptyStmt p i) = []"
| "kids (LabeledStmt l c s) = [l, s]"
| "kids (ExprStmt x) = [x]"
| "kids (SendStmt c p v) = [c, v]"
| "kids (IncDecStmt x p t) = [x]"
| "kids (AssignStmt ls p t rs) = ls @ rs"
| "kids (GoStmt p c) = [c]"
| "kids (DeferStmt p c) = [c]"
| "kids (ReturnStmt p rs) = rs"
| "kids (BranchStmt p t l) = option_list l"
| "kids (BlockStmt a l b) = l"
| "kids (IfStmt p i c b e) = option_list i @ [c, b] @ option_list e"
| "kids (CaseClause p l c b) = (case l of None \<Rightarrow> [] | Some es \<Rightarrow> es) @ b"
| "kids (SwitchStmt p i t b) = option_list i @ option_list t @ [b]"
| "kids (TypeSwitchStmt p i a b) = option_list i @ [a, b]"
| "kids (CommClause p s c b) = option_list s @ b"
| "kids (SelectStmt p b) = [b]"
| "kids (ForStmt p i c q b) = option_list i @ option_list c @ option_list q @ [b]"
| "kids (RangeStmt p k v tp t rp x b) = option_list k @ option_list v @ [x, b]"
| "kids (ImportSpec d nm path cm) = option_list d @ option_list nm @ [path] @ option_list cm"
| "kids (ValueSpec d ns t vs cm) = option_list d @ ns @ option_list t @ vs @ option_list cm"
| "kids (TypeSpec d nm tps a t cm) = option_list d @ [nm] @ option_list tps @ [t] @ option_list cm"
| "kids (BadDecl a b) = []"
| "kids (GenDecl d p t l sp r) = option_list d @ sp"
| "kids (FuncDecl d rv nm t b) = option_list d @ option_list rv @ [nm, t] @ option_list b"
| "kids (Field d ns t tg cm) = option_list d @ ns @ option_list t @ option_list tg @ option_list cm"
| "kids (FieldList a l b) = l"
| "kids (Comment p t) = []"
| "kids (CommentGroup l) = l"
| "kids (File d p nm ds cs) = option_list d @ [nm] @ ds"

lemma option_list_size: "x \<in> set (option_list t) \<Longrightarrow> size x < Suc (size_option size t)"
  by (cases t) auto

lemma list_elem_size: "x \<in> set xs \<Longrightarrow> size x < Suc (size_list size xs)"
  by (induction xs) auto

lemma kids_size: "k \<in> set (kids n) \<Longrightarrow> size k < size n"
  by (cases n) (auto dest!: list_elem_size option_list_size split: option.splits)

subsection \<open>ast.Inspect\<close>

text \<open>
  \<open>walk f n\<close> is the list of nodes that \<open>ast.Inspect(n, f)\<close> calls \<open>f\<close> on, in order:
  the children of a node are visited only where \<open>f\<close> returned true. The closing call
  \<open>f(nil)\<close> is not listed; the visitors of the program return at once on it.
\<close>

function walk :: "(node \<Rightarrow> bool) \<Rightarrow> node \<Rightarrow> node list" where
  "walk f n = n # (if f n then concat (map (walk f) (kids n)) else [])"
  by pat_completeness auto
termination
  by (relation "measure (\<lambda>(f, n). size n)") (auto simp: kids_size)

declare walk.simps [simp del]

definition nodes :: "node \<Rightarrow> node list" where
  "nodes n = walk (\<lambda>_. True) n"

lemma nodes_rec: "nodes n = n # concat (map nodes (kids n))"
  unfolding nodes_def by (subst walk.simps) (simp add: nodes_def [abs_def, symmetric])

lemma self_in_walk [simp]: "n \<in> set (walk f n)"
  by (subst walk.simps) simp

lemma self_in_nodes [simp]: "n \<in> set (nodes n)"
  by (simp add: nodes_def)

lemma kid_in_nodes: "k \<in> set (kids n) \<Longrightarrow> m \<in> set (nodes k) \<Longrightarrow> m \<in> set (nodes n)"
  by (subst nodes_rec) auto

lemma walk_subset_nodes: "m \<in> set (walk f n) \<Longrightarrow> m \<in> set (nodes n)"
proof (induction f n rule: walk.induct)
  case (1 f n)
  from "1.prems" consider "m = n" | k where "f n" "k \<in> set (kids n)" "m \<in> set (walk f k)"
    by (subst (asm) walk.simps) (auto split: if_splits)
  then show ?case
    by cases (use "1.IH" kid_in_nodes in auto)
qed

text \<open>
  Pruning below the nodes that satisfy a test does not lose the existence of one: the
  first such node on a path from the root is visited.
\<close>

lemma walk_prune_ex: "list_ex P (walk (\<lambda>n. \<not> P n) r) \<longleftrightarrow> (\<exists>n \<in> set (nodes r). P n)"
proof
  assume "list_ex P (walk (\<lambda>n. \<not> P n) r)"
  then show "\<exists>n \<in> set (nodes r). P n"
    by (auto simp: list_ex_iff dest: walk_subset_nodes)
next
  assume "\<exists>n \<in> set (nodes r). P n"
  then obtain m where "m \<in> set (nodes r)" "P m" by blast
  then show "list_ex P (walk (\<lambda>n. \<not> P n) r)"
  proof (induction "\<lambda>n. \<not> P n" r rule: walk.induct)
    case (1 n)
    show ?case
    proof (cases "P n")
      case True
      then show ?thesis by (subst walk.simps) simp
    next
      case False
      with "1.prems" obtain k where "k \<in> set (kids n)" "m \<in> set (nodes k)"
        by (subst (asm) nodes_rec) auto
      with False "1.hyps" [of k] "1.prems"(2) show ?thesis
        by (subst walk.simps) (auto simp: list_ex_iff)
    qed
  qed
qed

subsection \<open>Positions\<close>

text \<open>
  \<open>Pos()\<close> and \<open>End()\<close> of \<open>go/ast\<close>. Where Go indexes a slice that the grammar keeps
  non-empty (the left-hand sides of an assignment, the names of a value specification) the
  position of an empty one is \<open>NoPos\<close> here and a panic there.
\<close>

primrec Pos :: "node \<Rightarrow> int" where
  "Pos (BadExpr a b) = a"
| "Pos (Ident p s) = p"
| "Pos (Ellipsis p e) = p"
| "Pos (BasicLit p k v) = p"
| "Pos (FuncLit t b) = Pos t"
| "Pos (CompositeLit t l es r) = or_else l (map_option Pos t)"
| "Pos (ParenExpr l x r) = l"
| "Pos (SelectorExpr x s) = Pos x"
| "Pos (IndexExpr x l i r) = Pos x"
| "Pos (IndexListExpr x l is r) = Pos x"
| "Pos (SliceExpr x l lo hi mx s3 r) = Pos x"
| "Pos (TypeAssertExpr x l t r) = Pos x"
| "Pos (CallExpr f l as e r) = Pos f"
| "Pos (StarExpr p x) = p"
| "Pos (UnaryExpr p op x) = p"
| "Pos (BinaryExpr x p op y) = Pos x"
| "Pos (KeyValueExpr k c v) = Pos k"
| "Pos (ArrayType p l e) = p"
| "Pos (StructType p fs) = p"
| "Pos (FuncType p tps ps rs) = (if p \<noteq> 0 then p else or_else p (map_option Pos ps))"
| "Pos (InterfaceType p ms) = p"
| "Pos (MapType p k v) = p"
| "Pos (ChanType p d v) = p"
| "Pos (BadStmt a b) = a"
| "Pos (DeclStmt d) = Pos d"
| "Pos (EmptyStmt p i) = p"
| "Pos (LabeledStmt l c s) = Pos l"
| "Pos (ExprStmt x) = Pos x"
| "Pos (SendStmt c p v) = Pos c"
| "Pos (IncDecStmt x p t) = Pos x"
| "Pos (AssignStmt ls p t rs) = first_or 0 (map Pos ls)"
| "Pos (GoStmt p c) = p"
| "Pos (DeferStmt p c) = p"
| "Pos (ReturnStmt p rs) = p"
| "Pos (BranchStmt p t l) = p"
| "Pos (BlockStmt a l b) = a"
| "Pos (IfStmt p i c b e) = p"
| "Pos (CaseClause p l c b) = p"
| "Pos (SwitchStmt p i t b) = p"
| "Pos (TypeSwitchStmt p i a b) = p"
| "Pos (CommClause p s c b) = p"
| "Pos (SelectStmt p b) = p"
| "Pos (ForStmt p i c q b) = p"
| "Pos (RangeStmt p k v tp t rp x b) = p"
| "Pos (ImportSpec d nm path cm) = or_else (Pos path) (map_option Pos nm)"
| "Pos (ValueSpec d ns t vs cm) = first_or 0 (map Pos ns)"
| "Pos (TypeSpec d nm tps a t cm) = Pos nm"
| "Pos (BadDecl a b) = a"
| "Pos (GenDecl d p t l sp r) = p"
| "Pos (FuncDecl d rv nm t b) = Pos t"
| "Pos (Field d ns t tg cm) = first_or (or_else 0 (map_option Pos t)) (map Pos ns)"
| "Pos (FieldList a l b) = (if a \<noteq> 0 then a else first_or 0 (map Pos l))"
| "Pos (Comment p t) = p"
| "Pos (CommentGroup l) = first_or 0 (map Pos l)"
| "Pos (File d p nm ds cs) = p"

primrec EndPos :: "node \<Rightarrow> int" where
  "EndPos (BadExpr a b) = b"
| "EndPos (Ident p s) = p + int (length s)"
| "EndPos (Ellipsis p e) = or_else (p + 3) (map_option EndPos e)"
| "EndPos (BasicLit p k v) = p + int (length v)"
| "EndPos (FuncLit t b) = EndPos b"
| "EndPos (CompositeLit t l es r) = r + 1"
| "EndPos (ParenExpr l x r) = r + 1"
| "EndPos (SelectorExpr x s) = EndPos s"
| "EndPos (IndexExpr x l i r) = r + 1"
| "EndPos (IndexListExpr x l is r) = r + 1"
| "EndPos (SliceExpr x l lo hi mx s3 r) = r + 1"
| "EndPos (TypeAssertExpr x l t r) = r + 1"
| "EndPos (CallExpr f l as e r) = r + 1"
| "EndPos (StarExpr p x) = EndPos x"
| "EndPos (UnaryExpr p op x) = EndPos x"
| "EndPos (BinaryExpr x p op y) = EndPos y"
| "EndPos (KeyValueExpr k c v) = EndPos v"
| "EndPos (ArrayType p l e) = EndPos e"
| "EndPos (StructType p fs) = EndPos fs"
| "EndPos (FuncType p tps ps rs) = or_else (or_else 0 (map_option EndPos ps)) (map_option EndPos rs)"
| "EndPos (InterfaceType p ms) = EndPos ms"
| "EndPos (MapType p k v) = EndPos v"
| "EndPos (ChanType p d v) = EndPos v"
| "EndPos (BadStmt a b) = b"
| "EndPos (DeclStmt d) = EndPos d"
| "EndPos (EmptyStmt p i) = (if i then p else p + 1)"
| "EndPos (LabeledStmt l c s) = EndPos s"
| "EndPos (ExprStmt x) = EndPos x"
| "EndPos (SendStmt c p v) = EndPos v"
| "EndPos (IncDecStmt x p t) = p + 2"
| "EndPos (AssignStmt ls p t rs) = last_or 0 (map EndPos rs)"
| "EndPos (GoStmt p c) = EndPos c"
| "EndPos (DeferStmt p c) = EndPos c"
| "EndPos (ReturnStmt p rs) = last_or (p + 6) (map EndPos rs)"
| "EndPos (BranchStmt p t l) = or_else (p + int (length (tokenString t))) (map_option EndPos l)"
| "EndPos (BlockStmt a l b) = (if b \<noteq> 0 then b + 1 else last_or (a + 1) (map EndPos l))"
| "EndPos (IfStmt p i c b e) = or_else (EndPos b) (map_option EndPos e)"
| "EndPos (CaseClause p l c b) = last_or (c + 1) (map EndPos b)"
| "EndPos (SwitchStmt p i t b) = EndPos b"
| "EndPos (TypeSwitchStmt p i a b) = EndPos b"
| "EndPos (CommClause p s c b) = last_or (c + 1) (map EndPos b)"
| "EndPos (SelectStmt p b) = EndPos b"
| "EndPos (ForStmt p i c q b) = EndPos b"
| "EndPos (RangeStmt p k v tp t rp x b) = EndPos b"
| "EndPos (ImportSpec d nm path cm) = EndPos path"
| "EndPos (ValueSpec d ns t vs cm) =
     last_or (or_else (last_or 0 (map EndPos ns)) (map_option EndPos t)) (map EndPos vs)"
| "EndPos (TypeSpec d nm tps a t cm) = EndPos t"
| "EndPos (BadDecl a b) = b"
| "EndPos (GenDecl d p t l sp r) = (if r \<noteq> 0 then r + 1 else first_or 0 (map EndPos sp))"
| "EndPos (FuncDecl d rv nm t b) = or_else (EndPos t) (map_option EndPos b)"
| "EndPos (Field d ns t tg cm) =
     or_else (or_else (last_or 0 (map EndPos ns)) (map_option EndPos t)) (map_option EndPos tg)"
| "EndPos (FieldList a l b) = (if b \<noteq> 0 then b + 1 else last_or 0 (map EndPos l))"
| "EndPos (Comment p t) = p + int (length t)"
| "EndPos (CommentGroup l) = last_or 0 (map EndPos l)"
| "EndPos (File d p nm ds cs) = last_or (EndPos nm) (map EndPos ds)"

end
