(* ===== verification/Analysis.thy ===== *)
theory Analysis
  imports AstOps GoStrings
begin

text \<open>
  \<open>pkg/mutator/analysis\<close>: the questions the operators ask about a node. \<open>literals.go\<close>
  (syntactic classes of expressions), \<open>scope.go\<close> (the variables of a function and their
  types as strings), \<open>ast.go\<close> (enclosing nodes, the memo of \<open>IsInsideCaseClause\<close>,
  cloning). The memo is a map passed through explicitly, with the invariant that makes it
  transparent.
\<close>

subsection \<open>literals.go\<close>

fun IsNumericLiteral :: "node \<Rightarrow> bool" where
  "IsNumericLiteral expr = (case expr of
     BasicLit _ kind _ \<Rightarrow> kind = T_INT \<or> kind = T_FLOAT \<or> kind = T_IMAG
   | ParenExpr _ x _ \<Rightarrow> IsNumericLiteral x
   | _ \<Rightarrow> False)"

fun IsStringLiteral :: "node \<Rightarrow> bool" where
  "IsStringLiteral expr = (case expr of
     BasicLit _ kind _ \<Rightarrow> kind = T_STRING
   | ParenExpr _ x _ \<Rightarrow> IsStringLiteral x
   | _ \<Rightarrow> False)"

definition IsBoolLiteral :: "node \<Rightarrow> bool" where
  "IsBoolLiteral expr = (case as_Ident expr of
     None \<Rightarrow> False | Some (_, name) \<Rightarrow> name = ''true'' \<or> name = ''false'')"

definition IsNumericIdent :: "string \<Rightarrow> bool" where
  "IsNumericIdent name = (case name of [] \<Rightarrow> False | c # _ \<Rightarrow> isDigit c)"

text \<open>The two tests of the \<open>CallExpr\<close> case, on the called expression.\<close>

definition isErrorFun :: "node \<Rightarrow> bool" where
  "isErrorFun f =
     ((case f of
         SelectorExpr (Ident _ x) (Ident _ sel) \<Rightarrow>
           x = ''fmt'' \<and> (sel = ''Errorf'' \<or> sel = ''Errorw'') \<or>
           x = ''errors'' \<and> (sel = ''New'' \<or> sel = ''As'' \<or> sel = ''Is'' \<or> sel = ''Unwrap'')
       | _ \<Rightarrow> False) \<or>
      (case as_Ident f of
         Some (_, name) \<Rightarrow> name = ''New'' \<or> name = ''Errorf'' \<or> name = ''Wrap'' \<or> name = ''Wrapf''
       | None \<Rightarrow> False))"

fun IsErrorExpr :: "node \<Rightarrow> bool" where
  "IsErrorExpr expr = (case expr of
     CallExpr f _ _ _ _ \<Rightarrow> isErrorFun f
   | CompositeLit (Some (SelectorExpr (Ident _ x) (Ident _ sel))) _ _ _ \<Rightarrow>
       x = ''errors'' \<or> HasSuffix sel ''Error''
   | UnaryExpr _ op _ \<Rightarrow> op = T_AND
   | Ident _ name \<Rightarrow>
       \<not> (name = ''nil'' \<or> name = ''true'' \<or> name = ''false'') \<and> \<not> IsNumericIdent name
   | SelectorExpr _ _ \<Rightarrow> True
   | IndexExpr x _ _ _ \<Rightarrow> IsErrorExpr x
   | IndexListExpr x _ _ _ \<Rightarrow> IsErrorExpr x
   | _ \<Rightarrow> False)"

definition IsErrorCall :: "node \<Rightarrow> bool" where
  "IsErrorCall expr = (case expr of
     CallExpr (SelectorExpr (Ident _ x) (Ident _ sel)) _ _ _ _ \<Rightarrow> x = ''fmt'' \<and> sel = ''Errorf''
   | _ \<Rightarrow> False)"

definition IsErrorNil :: "node \<Rightarrow> bool" where
  "IsErrorNil expr = (case as_Ident expr of None \<Rightarrow> False | Some (_, name) \<Rightarrow> name = ''nil'')"

declare IsNumericLiteral.simps [simp del] IsStringLiteral.simps [simp del] IsErrorExpr.simps [simp del]

lemma IsNumericLiteral_simps [simp]:
  "IsNumericLiteral (BasicLit p k v) \<longleftrightarrow> k = T_INT \<or> k = T_FLOAT \<or> k = T_IMAG"
  "IsNumericLiteral (ParenExpr p x q) \<longleftrightarrow> IsNumericLiteral x"
  by (subst IsNumericLiteral.simps, simp)+

lemma IsStringLiteral_simps [simp]:
  "IsStringLiteral (BasicLit p k v) \<longleftrightarrow> k = T_STRING"
  "IsStringLiteral (ParenExpr p x q) \<longleftrightarrow> IsStringLiteral x"
  by (subst IsStringLiteral.simps, simp)+

lemma IsErrorExpr_simps [simp]:
  "IsErrorExpr (CallExpr f a b c d) \<longleftrightarrow> isErrorFun f"
  "IsErrorExpr (Ident p s) \<longleftrightarrow> s \<notin> {''nil'', ''true'', ''false''} \<and> \<not> IsNumericIdent s"
  by (subst IsErrorExpr.simps, simp)+

subsection \<open>scope.go\<close>

record VarInfo =
  VName :: string
  VType :: string

definition constExprToString :: "node \<Rightarrow> string" where
  "constExprToString expr = (case as_BasicLit expr of Some (_, _, v) \<Rightarrow> v | None \<Rightarrow> '''')"

fun TypeExprToString :: "node \<Rightarrow> string" where
  "TypeExprToString e = (case e of
     Ident _ name \<Rightarrow> name
   | StarExpr _ x \<Rightarrow> ''*'' @ TypeExprToString x
   | ArrayType _ l elt \<Rightarrow>
       (case l of None \<Rightarrow> ''[]'' @ TypeExprToString elt
        | Some n \<Rightarrow> ''['' @ constExprToString n @ '']'' @ TypeExprToString elt)
   | MapType _ k v \<Rightarrow> ''map['' @ TypeExprToString k @ '']'' @ TypeExprToString v
   | ChanType _ _ v \<Rightarrow> ''chan '' @ TypeExprToString v
   | FuncType _ _ _ _ \<Rightarrow> ''func:opaque''
   | InterfaceType _ _ \<Rightarrow> ''interface{}''
   | StructType _ _ \<Rightarrow> ''struct{}''
   | SelectorExpr x sel \<Rightarrow>
       (case as_Ident x of
          Some (_, pkg) \<Rightarrow> pkg @ ''.'' @ TypeExprToString sel
        | None \<Rightarrow> TypeExprToString sel)
   | ParenExpr _ x _ \<Rightarrow> TypeExprToString x
   | _ \<Rightarrow> '''')"

declare TypeExprToString.simps [simp del]

text \<open>\<open>sel.Name\<close> above is \<open>TypeExprToString\<close> of \<open>sel\<close>, an identifier.\<close>

lemma TypeExprToString_Ident [simp]: "TypeExprToString (Ident p s) = s"
  by (subst TypeExprToString.simps) simp

definition TypeExprToString_opt :: "node option \<Rightarrow> string" where
  "TypeExprToString_opt e = (case e of None \<Rightarrow> '''' | Some t \<Rightarrow> TypeExprToString t)"

definition isBoolOp :: "token \<Rightarrow> bool" where
  "isBoolOp op \<longleftrightarrow> op \<in> {T_EQL, T_NEQ, T_LSS, T_LEQ, T_GTR, T_GEQ, T_LAND, T_LOR}"

fun ResolveType :: "node \<Rightarrow> (string \<rightharpoonup> string) \<Rightarrow> string" where
  "ResolveType expr typeMap = (case expr of
     Ident _ name \<Rightarrow>
       (case typeMap name of
          Some typ \<Rightarrow> typ
        | None \<Rightarrow> if name = ''true'' \<or> name = ''false'' then ''bool'' else '''')
   | BasicLit _ kind _ \<Rightarrow>
       (case kind of T_INT \<Rightarrow> ''int'' | T_FLOAT \<Rightarrow> ''float64'' | T_STRING \<Rightarrow> ''string''
        | T_CHAR \<Rightarrow> ''rune'' | _ \<Rightarrow> '''')
   | UnaryExpr _ op x \<Rightarrow> if op = T_NOT then ''bool'' else ResolveType x typeMap
   | BinaryExpr x _ op y \<Rightarrow>
       if isBoolOp op then ''bool''
       else let t = ResolveType x typeMap in if t \<noteq> '''' then t else ResolveType y typeMap
   | CallExpr _ _ _ _ _ \<Rightarrow> ''''
   | ParenExpr _ x _ \<Rightarrow> ResolveType x typeMap
   | StarExpr _ x \<Rightarrow>
       let inner = ResolveType x typeMap in if inner = '''' then '''' else ''*'' @ inner
   | _ \<Rightarrow> TypeExprToString expr)"

declare ResolveType.simps [simp del]

definition ResolveType_opt :: "node option \<Rightarrow> (string \<rightharpoonup> string) \<Rightarrow> string" where
  "ResolveType_opt e tm = (case e of None \<Rightarrow> '''' | Some x \<Rightarrow> ResolveType x tm)"

text \<open>
  The variables a \<open>:=\<close> or a \<open>var\<close> declares, one name after another: the type of a name
  is in the map before the next right-hand side is resolved. \<open>typ0\<close> is the declared type
  (empty for \<open>:=\<close>).
\<close>

type_synonym scope = "(string \<rightharpoonup> string) \<times> VarInfo list"

fun declareNames :: "string \<Rightarrow> node list \<Rightarrow> node list \<Rightarrow> scope \<Rightarrow> scope" where
  "declareNames typ0 [] rhs st = st"
| "declareNames typ0 (lhs # rest) rhs (typeMap, vars) =
     (let st' =
        (case as_Ident lhs of
           None \<Rightarrow> (typeMap, vars)
         | Some (_, name) \<Rightarrow>
             if name = ''_'' then (typeMap, vars)
             else let typ = (if typ0 \<noteq> '''' then typ0
                             else case rhs of [] \<Rightarrow> '''' | r # _ \<Rightarrow> ResolveType r typeMap)
                  in (if typ \<noteq> '''' then typeMap(name \<mapsto> typ) else typeMap,
                      vars @ [\<lparr>VName = name, VType = typ\<rparr>]))
      in declareNames typ0 rest (tl rhs) st')"

definition declareSpec :: "scope \<Rightarrow> node \<Rightarrow> scope" where
  "declareSpec st spec = (case as_ValueSpec spec of
     None \<Rightarrow> st
   | Some (_, names, typ, values, _) \<Rightarrow>
       declareNames (TypeExprToString_opt typ) names values st)"

definition collectTopLevelVars :: "node \<Rightarrow> scope \<Rightarrow> scope" where
  "collectTopLevelVars stmt st = (case stmt of
     AssignStmt lhs _ tok rhs \<Rightarrow> if tok \<noteq> T_DEFINE then st else declareNames '''' lhs rhs st
   | DeclStmt decl \<Rightarrow>
       (case as_GenDecl decl of
          None \<Rightarrow> st
        | Some (_, _, tok, _, specs, _) \<Rightarrow>
            if tok \<noteq> T_VAR then st
            else foldl declareSpec st specs)
   | _ \<Rightarrow> st)"

definition fieldVars :: "node option \<Rightarrow> VarInfo list" where
  "fieldVars fl = (case fl of
     Some (FieldList _ fs _) \<Rightarrow>
       concat (map (\<lambda>field. case as_Field field of
         None \<Rightarrow> []
       | Some (_, names, typ, _, _) \<Rightarrow>
           List.map_filter (\<lambda>name. case as_Ident name of
               Some (_, s) \<Rightarrow>
                 if s \<noteq> ''_'' then Some \<lparr>VName = s, VType = TypeExprToString_opt typ\<rparr> else None
             | None \<Rightarrow> None) names) fs)
   | _ \<Rightarrow> [])"

definition typedVars :: "VarInfo list \<Rightarrow> (string \<rightharpoonup> string)" where
  "typedVars vars =
     foldl (\<lambda>m v. if VType v \<noteq> '''' then m(VName v \<mapsto> VType v) else m) Map.empty vars"

definition CollectVars :: "node option \<Rightarrow> VarInfo list" where
  "CollectVars fn = (case fn of
     Some (FuncDecl _ _ _ (FuncType _ _ params results) body) \<Rightarrow>
       let vars = fieldVars params @ fieldVars results;
           typeMap = typedVars vars;
           stmts = (case body of None \<Rightarrow> [] | Some b \<Rightarrow> blockList b)
       in snd (foldl (\<lambda>st stmt. collectTopLevelVars stmt st) (typeMap, vars) stmts)
   | _ \<Rightarrow> [])"

definition BuildTypeMap :: "node option \<Rightarrow> (string \<rightharpoonup> string)" where
  "BuildTypeMap fn = typedVars (CollectVars fn)"

definition TypesCompatible :: "string \<Rightarrow> string \<Rightarrow> bool" where
  "TypesCompatible a b =
     (if a = '''' \<or> b = '''' then False
      else if a = ''func:opaque'' \<or> b = ''func:opaque'' then False
      else if a = ''interface{}'' \<or> b = ''interface{}'' then False
      else a = b)"

definition compatibleVar :: "string \<Rightarrow> string \<Rightarrow> VarInfo \<Rightarrow> bool" where
  "compatibleVar exclude targetType v \<longleftrightarrow>
     VName v \<noteq> exclude \<and> VType v \<noteq> '''' \<and> TypesCompatible (VType v) targetType"

definition FindCompatibleVar :: "VarInfo list \<Rightarrow> string \<Rightarrow> string \<Rightarrow> VarInfo" where
  "FindCompatibleVar vars exclude targetType =
     (if targetType = '''' then \<lparr>VName = '''', VType = ''''\<rparr>
      else case find (compatibleVar exclude targetType) vars of
             Some v \<Rightarrow> v | None \<Rightarrow> \<lparr>VName = '''', VType = ''''\<rparr>)"

definition HasCompatibleVar :: "VarInfo list \<Rightarrow> string \<Rightarrow> string \<Rightarrow> bool" where
  "HasCompatibleVar vars exclude targetType =
     (if targetType = '''' then False else list_ex (compatibleVar exclude targetType) vars)"

lemma TypesCompatible_iff:
  "TypesCompatible a b \<longleftrightarrow> a = b \<and> a \<notin> {'''', ''func:opaque'', ''interface{}''}"
  by (auto simp: TypesCompatible_def)

lemma FindCompatibleVar_has:
  "HasCompatibleVar vars x t \<Longrightarrow>
     FindCompatibleVar vars x t \<in> set vars \<and> compatibleVar x t (FindCompatibleVar vars x t)"
  by (auto simp: HasCompatibleVar_def FindCompatibleVar_def list_ex_find split: if_splits
           dest: find_Some_in)

lemma FindCompatibleVar_none:
  "\<not> HasCompatibleVar vars x t \<Longrightarrow> FindCompatibleVar vars x t = \<lparr>VName = '''', VType = ''''\<rparr>"
  by (auto simp: HasCompatibleVar_def FindCompatibleVar_def list_ex_find)

lemma typedVars_snoc [simp]:
  "typedVars (vs @ [v]) =
     (if VType v \<noteq> '''' then (typedVars vs)(VName v \<mapsto> VType v) else typedVars vs)"
  by (simp add: typedVars_def)

lemma typedVars_Nil [simp]: "typedVars [] = Map.empty"
  by (simp add: typedVars_def)

lemma typedVars_Some: "typedVars vs x = Some t \<Longrightarrow> t \<noteq> '''' \<and> \<lparr>VName = x, VType = t\<rparr> \<in> set vs"
  by (induction vs rule: rev_induct) (auto split: if_splits)

text \<open>
  The type map that is threaded through the statements and the one \<open>BuildTypeMap\<close> rebuilds
  from the collected variables are the same map.
\<close>

lemma declareNames_map:
  "fst st = typedVars (snd st) \<Longrightarrow>
     fst (declareNames t ls rs st) = typedVars (snd (declareNames t ls rs st))"
  by (induction t ls rs st rule: declareNames.induct)
     (auto simp: Let_def split: option.splits)

lemma declareSpec_map:
  "fst st = typedVars (snd st) \<Longrightarrow> fst (declareSpec st s) = typedVars (snd (declareSpec st s))"
  by (auto simp: declareSpec_def declareNames_map split: option.splits)

lemma declareSpecs_map:
  "fst st = typedVars (snd st) \<Longrightarrow>
     fst (foldl declareSpec st ss) = typedVars (snd (foldl declareSpec st ss))"
  by (induction ss arbitrary: st) (simp_all add: declareSpec_map)

lemma collectTopLevelVars_map:
  "fst st = typedVars (snd st) \<Longrightarrow>
     fst (collectTopLevelVars s st) = typedVars (snd (collectTopLevelVars s st))"
  by (cases s) (auto simp: collectTopLevelVars_def declareNames_map declareSpecs_map
                     split: option.splits)

lemma foldl_collect_map:
  "fst st = typedVars (snd st) \<Longrightarrow>
     fst (foldl (\<lambda>st s. collectTopLevelVars s st) st ss) =
     typedVars (snd (foldl (\<lambda>st s. collectTopLevelVars s st) st ss))"
  by (induction ss arbitrary: st) (simp_all add: collectTopLevelVars_map)

subsection \<open>ast.go\<close>

definition IsReturnStmtWithResults :: "node \<Rightarrow> nat \<Rightarrow> (int \<times> node list) option" where
  "IsReturnStmtWithResults n m = (case as_ReturnStmt n of
     None \<Rightarrow> None
   | Some (p, results) \<Rightarrow> if length results < m then None else Some (p, results))"

lemma IsReturnStmtWithResults_Some:
  "IsReturnStmtWithResults n m = Some (p, rs) \<longleftrightarrow> n = ReturnStmt p rs \<and> m \<le> length rs"
  by (auto simp: IsReturnStmtWithResults_def as_ReturnStmt_Some split: option.splits if_splits)

text \<open>A case clause around a position; the traversal does not go below the first one.\<close>

definition caseClauseAround :: "int \<Rightarrow> node \<Rightarrow> bool" where
  "caseClauseAround retPos n \<longleftrightarrow>
     as_CaseClause n \<noteq> None \<and> retPos \<ge> Pos n \<and> retPos < EndPos n"

definition isInsideCaseClauseSlow :: "node \<Rightarrow> node \<Rightarrow> bool" where
  "isInsideCaseClauseSlow ret file =
     (let hit = (\<lambda>n. n \<noteq> ret \<and> caseClauseAround (Pos ret) n)
      in list_ex hit (walk (\<lambda>n. \<not> hit n) file))"

text \<open>
  The memo: the key is the file and the position of the return statement
  (\<open>"%p:%d"\<close> of the two). The state is the map; the result comes with the map after the
  call. The two lock regions are one step each and a stale read only recomputes.
\<close>

type_synonym case_cache = "(node \<times> int) \<rightharpoonup> bool"

definition caseClauseCacheKey :: "node \<Rightarrow> node \<Rightarrow> node \<times> int" where
  "caseClauseCacheKey ret file = (file, Pos ret)"

definition IsInsideCaseClause_memo ::
  "node \<Rightarrow> node option \<Rightarrow> case_cache \<Rightarrow> bool \<times> case_cache" where
  "IsInsideCaseClause_memo ret fileo cache = (case fileo of
     None \<Rightarrow> (False, cache)
   | Some file \<Rightarrow>
       let key = caseClauseCacheKey ret file in
       (case cache key of
          Some cached \<Rightarrow> (cached, cache)
        | None \<Rightarrow> let result = isInsideCaseClauseSlow ret file
                  in (result, cache(key \<mapsto> result))))"

text \<open>The answer without the memo, which the operators are stated over.\<close>

definition IsInsideCaseClause :: "node \<Rightarrow> node option \<Rightarrow> bool" where
  "IsInsideCaseClause ret fileo = (case fileo of
     None \<Rightarrow> False | Some file \<Rightarrow> isInsideCaseClauseSlow ret file)"

definition containsNode :: "node \<Rightarrow> node \<Rightarrow> bool" where
  "containsNode container target =
     list_ex (\<lambda>n. n = target) (walk (\<lambda>n. n \<noteq> target) container)"

definition FindNode :: "node \<Rightarrow> node \<Rightarrow> bool" where
  "FindNode node target = list_ex (\<lambda>n. n = target) (walk (\<lambda>n. n \<noteq> target) node)"

definition findParentByTraversal ::
  "node \<Rightarrow> node \<Rightarrow> (node \<Rightarrow> bool) list \<Rightarrow> node option" where
  "findParentByTraversal target file predicates =
     best_by Pos (filter (\<lambda>n. n \<noteq> target \<and>
         list_ex (\<lambda>pred. pred n \<and> containsNode n target) predicates) (nodes file))"

definition FindParentNode ::
  "node \<Rightarrow> node option \<Rightarrow> (node \<Rightarrow> bool) list \<Rightarrow> node option" where
  "FindParentNode target fileo predicates = (case fileo of
     None \<Rightarrow> None
   | Some file \<Rightarrow>
       if Pos target = 0 then findParentByTraversal target file predicates
       else best_by Pos (filter (\<lambda>n. n \<noteq> target \<and>
              \<not> (Pos n > Pos target \<or> EndPos n < EndPos target) \<and>
              list_ex (\<lambda>pred. pred n) predicates) (nodes file)))"

definition isLoopNode :: "node \<Rightarrow> bool" where
  "isLoopNode n = (case n of ForStmt _ _ _ _ _ \<Rightarrow> True | RangeStmt _ _ _ _ _ _ _ _ \<Rightarrow> True
                   | _ \<Rightarrow> False)"

definition IsInsideLoop :: "node \<Rightarrow> node option \<Rightarrow> bool" where
  "IsInsideLoop n file \<longleftrightarrow> FindParentNode n file [isLoopNode] \<noteq> None"

definition IsInsideIfStmt :: "node \<Rightarrow> node option \<Rightarrow> bool" where
  "IsInsideIfStmt n parent \<longleftrightarrow> (case parent of None \<Rightarrow> False | Some p \<Rightarrow> as_IfStmt p \<noteq> None)"

definition CloneBlockStmt :: "node \<Rightarrow> node" where
  "CloneBlockStmt stmt = (case stmt of BlockStmt l xs r \<Rightarrow> BlockStmt l xs r | _ \<Rightarrow> stmt)"

fun CloneStmt :: "node \<Rightarrow> node" where
  "CloneStmt stmt = (case stmt of
     IfStmt p init cond body els \<Rightarrow>
       IfStmt p init cond (CloneBlockStmt body) (map_option CloneStmt els)
   | BlockStmt _ _ _ \<Rightarrow> CloneBlockStmt stmt
   | _ \<Rightarrow> stmt)"

declare CloneStmt.simps [simp del]

lemma CloneBlockStmt_id [simp]: "CloneBlockStmt b = b"
  by (cases b) (simp_all add: CloneBlockStmt_def)

lemma CloneStmt_id [simp]: "CloneStmt s = s"
proof (induction s rule: CloneStmt.induct)
  case (1 s)
  show ?case
  proof (cases s)
    case (IfStmt p i c b e)
    then show ?thesis using 1 by (subst CloneStmt.simps) (cases e; simp)
  qed (subst CloneStmt.simps, simp)+
qed

lemma isInsideCaseClauseSlow_iff:
  "isInsideCaseClauseSlow ret file \<longleftrightarrow>
     (\<exists>n \<in> set (nodes file). n \<noteq> ret \<and> caseClauseAround (Pos ret) n)"
  unfolding isInsideCaseClauseSlow_def Let_def by (rule walk_prune_ex)

lemma FindNode_iff [simp]: "FindNode r t \<longleftrightarrow> t \<in> set (nodes r)"
  using walk_prune_ex [of "\<lambda>n. n = t" r] by (auto simp: FindNode_def)

lemma containsNode_iff [simp]: "containsNode r t \<longleftrightarrow> t \<in> set (nodes r)"
  using walk_prune_ex [of "\<lambda>n. n = t" r] by (auto simp: containsNode_def)

text \<open>The memo never changes an answer: its entries are what the slow search returns.\<close>

definition cache_ok :: "case_cache \<Rightarrow> bool" where
  "cache_ok cache \<longleftrightarrow>
     (\<forall>ret file b. as_ReturnStmt ret \<noteq> None \<longrightarrow>
        cache (caseClauseCacheKey ret file) = Some b \<longrightarrow> b = isInsideCaseClauseSlow ret file)"

lemma slow_by_position:
  assumes "as_ReturnStmt a \<noteq> None" "as_ReturnStmt b \<noteq> None" "Pos a = Pos b"
  shows "isInsideCaseClauseSlow a file = isInsideCaseClauseSlow b file"
proof -
  have "n \<noteq> a \<and> n \<noteq> b" if "caseClauseAround p n" for n p
    using that assms(1,2) by (cases n) (auto simp: caseClauseAround_def as_CaseClause_def as_ReturnStmt_def)
  with assms(3) show ?thesis unfolding isInsideCaseClauseSlow_iff by metis
qed

lemma IsInsideCaseClause_memo_step:
  assumes "cache_ok cache" "as_ReturnStmt ret \<noteq> None"
  shows "fst (IsInsideCaseClause_memo ret fileo cache) = IsInsideCaseClause ret fileo \<and>
         cache_ok (snd (IsInsideCaseClause_memo ret fileo cache))"
proof (cases fileo)
  case None
  with assms show ?thesis by (simp add: IsInsideCaseClause_memo_def IsInsideCaseClause_def)
next
  case (Some f)
  show ?thesis
  proof (cases "cache (caseClauseCacheKey ret f)")
    case None
    have "b = isInsideCaseClauseSlow r g"
      if "as_ReturnStmt r \<noteq> None"
        and "(cache(caseClauseCacheKey ret f \<mapsto> isInsideCaseClauseSlow ret f))
               (caseClauseCacheKey r g) = Some b" for r g b
    proof (cases "caseClauseCacheKey r g = caseClauseCacheKey ret f")
      case True
      then have "g = f" "Pos r = Pos ret" by (simp_all add: caseClauseCacheKey_def)
      with that True slow_by_position [OF that(1) assms(2)] show ?thesis by simp
    next
      case False
      with that assms(1) show ?thesis unfolding cache_ok_def by simp
    qed
    then have "cache_ok (cache(caseClauseCacheKey ret f \<mapsto> isInsideCaseClauseSlow ret f))"
      unfolding cache_ok_def by blast
    with None Some show ?thesis
      by (simp add: IsInsideCaseClause_memo_def IsInsideCaseClause_def Let_def)
  next
    case hit: (Some b)
    with assms have "b = isInsideCaseClauseSlow ret f" unfolding cache_ok_def by blast
    with hit Some assms show ?thesis
      by (simp add: IsInsideCaseClause_memo_def IsInsideCaseClause_def Let_def)
  qed
qed

lemma cache_ok_empty: "cache_ok Map.empty"
  by (simp add: cache_ok_def)

lemma IsInsideLoop_iff:
  assumes "Pos n \<noteq> 0"
  shows "IsInsideLoop n (Some file) \<longleftrightarrow>
    (\<exists>l \<in> set (nodes file). isLoopNode l \<and> l \<noteq> n \<and> Pos l \<le> Pos n \<and> EndPos n \<le> EndPos l)"
  using assms by (auto simp: IsInsideLoop_def FindParentNode_def filter_empty_conv)

end
