(* ===== verification/OpBase.thy ===== *)
theory OpBase
  imports Tokens Analysis
begin

text \<open>
  The interfaces of \<open>pkg/mutator/api.go\<close>. An operator value is a record: the two optional
  interfaces it may implement besides \<open>Operator\<close> (\<open>ContextualOperator\<close>,
  \<open>SafetyConstrainedOperator\<close>) are optional fields, and \<open>TypeAware\<close> is the answer to
  \<open>RequiresTypeCheck\<close> (\<open>false\<close> when the method is missing, which is how the callers read
  it). A \<open>nil\<close> result of \<open>Mutate\<close> is \<open>None\<close>.
\<close>

record Position =
  PFilename :: string
  POffset :: int
  PLine :: int
  PColumn :: int

definition noPosition :: Position where
  "noPosition = \<lparr>PFilename = '''', POffset = 0, PLine = 0, PColumn = 0\<rparr>"

record Context =
  ReturnType :: string
  FunctionName :: string
  PackageName :: string
  FileName :: string
  CtxPosition :: Position
  EnclosingFunc :: "node option"
  CtxFile :: "node option"
  Parent :: "node option"

text \<open>The zero value \<open>mutator.Context{}\<close>.\<close>

definition emptyContext :: Context where
  "emptyContext = \<lparr>ReturnType = '''', FunctionName = '''', PackageName = '''', FileName = '''',
     CtxPosition = noPosition, EnclosingFunc = None, CtxFile = None, Parent = None\<rparr>"

record operator =
  OpName :: string
  CanApply :: "node \<Rightarrow> bool"
  Mutate :: "node \<Rightarrow> node option"
  Contextual :: "((node \<Rightarrow> Context \<Rightarrow> bool) \<times> (node \<Rightarrow> Context \<Rightarrow> node option)) option"
  AlwaysInvalid :: "(string \<Rightarrow> bool) option"
  TypeAware :: bool

text \<open>An operator with the base interface only.\<close>

definition plainOperator ::
  "string \<Rightarrow> (node \<Rightarrow> bool) \<Rightarrow> (node \<Rightarrow> node option) \<Rightarrow> operator" where
  "plainOperator nm ca mu = \<lparr>OpName = nm, CanApply = ca, Mutate = mu, Contextual = None,
     AlwaysInvalid = None, TypeAware = False\<rparr>"

text \<open>An operator that is also contextual.\<close>

definition contextualOperator ::
  "string \<Rightarrow> (node \<Rightarrow> bool) \<Rightarrow> (node \<Rightarrow> node option) \<Rightarrow> (node \<Rightarrow> Context \<Rightarrow> bool) \<Rightarrow>
   (node \<Rightarrow> Context \<Rightarrow> node option) \<Rightarrow> operator" where
  "contextualOperator nm ca mu cac mwc =
     \<lparr>OpName = nm, CanApply = ca, Mutate = mu, Contextual = Some (cac, mwc),
      AlwaysInvalid = None, TypeAware = False\<rparr>"

text \<open>The stub methods of an operator that is only used with a context.\<close>

definition neverApply :: "node \<Rightarrow> bool" where "neverApply n = False"

definition neverMutate :: "node \<Rightarrow> node option" where "neverMutate n = None"

text \<open>
  The common shape of the five binary token operators: the node is rebuilt with the
  replaced token, and without \<open>OpPos\<close>.
\<close>

definition acceptBinary :: "token set \<Rightarrow> node \<Rightarrow> bool" where
  "acceptBinary toks n = (case as_BinaryExpr n of
     None \<Rightarrow> False | Some (_, _, op, _) \<Rightarrow> op \<in> toks)"

definition flipBinary :: "(token \<rightharpoonup> token) \<Rightarrow> node \<Rightarrow> node option" where
  "flipBinary pairs n = (case as_BinaryExpr n of
     None \<Rightarrow> None
   | Some (x, _, op, y) \<Rightarrow>
       (case SwapBinaryToken op pairs of
          None \<Rightarrow> None
        | Some newOp \<Rightarrow> Some (BinaryExpr x 0 newOp y)))"

lemma flipBinary_Some:
  "flipBinary pairs n = Some m \<longleftrightarrow>
     (\<exists>x p op y q. n = BinaryExpr x p op y \<and> SwapBinaryToken op pairs = Some q \<and>
        m = BinaryExpr x 0 q y)"
  by (auto simp: flipBinary_def as_BinaryExpr_Some split: option.splits)

lemma acceptBinary_iff:
  "acceptBinary toks n \<longleftrightarrow> (\<exists>x p op y. n = BinaryExpr x p op y \<and> op \<in> toks)"
  by (auto simp: acceptBinary_def as_BinaryExpr_Some split: option.splits)

context token_flip begin

lemma accepted_mutates: "acceptBinary toks n \<longleftrightarrow> flipBinary pairs n \<noteq> None"
  by (cases n) (simp_all add: acceptBinary_def flipBinary_def as_BinaryExpr_def total
      SwapBinaryToken_def split: option.split)

lemma mutant_differs: "flipBinary pairs n = Some m \<Longrightarrow> m \<noteq> n"
  using not_fixed by (auto simp: flipBinary_Some)

end

context involutive_flip begin

lemma flip_flip:
  assumes "flipBinary pairs n = Some m"
  shows "\<exists>x p op y. n = BinaryExpr x p op y \<and> flipBinary pairs m = Some (BinaryExpr x 0 op y)"
proof -
  from assms obtain x p op y q where n: "n = BinaryExpr x p op y"
    and q: "SwapBinaryToken op pairs = Some q" and m: "m = BinaryExpr x 0 q y"
    unfolding flipBinary_Some by blast
  from swap_swap [OF q] m have "flipBinary pairs m = Some (BinaryExpr x 0 op y)"
    by (simp add: flipBinary_def)
  with n show ?thesis by blast
qed

end

end
