(* ===== verification/OpsExpr.thy ===== *)
theory OpsExpr
  imports OpBase
begin

text \<open>
  The operators on expressions: \<open>arithmetic_flip\<close>, \<open>condition_negation\<close>,
  \<open>boundary_value\<close>, \<open>logical_operator\<close>, \<open>binary_math\<close>, \<open>sign_toggle\<close>,
  \<open>constant_replacement\<close>, \<open>variable_replacement\<close>. Each is its \<open>CanApply\<close> and
  \<open>Mutate\<close> (with their contextual forms) and the record registered by \<open>init\<close>.
\<close>

subsection \<open>Token flips\<close>

definition isStringLiteral :: "node \<Rightarrow> bool" where
  "isStringLiteral n = (case as_BasicLit n of None \<Rightarrow> False | Some (_, kind, _) \<Rightarrow> kind = T_STRING)"

definition ArithmeticFlip_CanApply :: "node \<Rightarrow> bool" where
  "ArithmeticFlip_CanApply n = (case as_BinaryExpr n of
     None \<Rightarrow> False
   | Some (x, _, op, y) \<Rightarrow>
       if op = T_ADD \<and> (isStringLiteral x \<or> isStringLiteral y) then False
       else op \<in> ArithmeticFlipTokens)"

definition ArithmeticFlip_Mutate :: "node \<Rightarrow> node option" where
  "ArithmeticFlip_Mutate n = flipBinary ArithmeticFlipPairs n"

definition ArithmeticFlip :: operator where
  "ArithmeticFlip = plainOperator ''arithmetic_flip'' ArithmeticFlip_CanApply ArithmeticFlip_Mutate"

definition BoundaryValue_CanApply :: "node \<Rightarrow> bool" where
  "BoundaryValue_CanApply n = acceptBinary BoundaryValueTokens n"

definition BoundaryValue_Mutate :: "node \<Rightarrow> node option" where
  "BoundaryValue_Mutate n = flipBinary BoundaryValuePairs n"

definition BoundaryValue :: operator where
  "BoundaryValue = plainOperator ''boundary_value'' BoundaryValue_CanApply BoundaryValue_Mutate"

definition ConditionNegation_CanApply :: "node \<Rightarrow> bool" where
  "ConditionNegation_CanApply n = acceptBinary ComparisonNegationTokens n"

definition ConditionNegation_Mutate :: "node \<Rightarrow> node option" where
  "ConditionNegation_Mutate n = flipBinary ComparisonNegationPairs n"

definition ConditionNegation :: operator where
  "ConditionNegation =
     plainOperator ''condition_negation'' ConditionNegation_CanApply ConditionNegation_Mutate"

definition LogicalOperator_CanApply :: "node \<Rightarrow> bool" where
  "LogicalOperator_CanApply n = acceptBinary LogicalOperatorTokens n"

definition LogicalOperator_Mutate :: "node \<Rightarrow> node option" where
  "LogicalOperator_Mutate n = flipBinary LogicalOperatorPairs n"

definition LogicalOperator :: operator where
  "LogicalOperator =
     plainOperator ''logical_operator'' LogicalOperator_CanApply LogicalOperator_Mutate"

definition BinaryMath_CanApply :: "node \<Rightarrow> bool" where
  "BinaryMath_CanApply n = acceptBinary BinaryMathTokens n"

definition BinaryMath_Mutate :: "node \<Rightarrow> node option" where
  "BinaryMath_Mutate n = flipBinary BinaryMathPairs n"

definition BinaryMath :: operator where
  "BinaryMath = plainOperator ''binary_math'' BinaryMath_CanApply BinaryMath_Mutate"

definition SignToggle_CanApply :: "node \<Rightarrow> bool" where
  "SignToggle_CanApply n = (case as_UnaryExpr n of
     None \<Rightarrow> False | Some (_, op, _) \<Rightarrow> op \<in> SignToggleTokens)"

definition SignToggle_Mutate :: "node \<Rightarrow> node option" where
  "SignToggle_Mutate n = (case as_UnaryExpr n of
     None \<Rightarrow> None
   | Some (_, op, x) \<Rightarrow>
       (case SwapBinaryToken op SignTogglePairs of
          None \<Rightarrow> None | Some newOp \<Rightarrow> Some (UnaryExpr 0 newOp x)))"

definition SignToggle :: operator where
  "SignToggle = plainOperator ''sign_toggle'' SignToggle_CanApply SignToggle_Mutate"

subsection \<open>constant_replacement\<close>

definition ConstantReplacement_CanApply :: "node \<Rightarrow> bool" where
  "ConstantReplacement_CanApply n = (case as_BasicLit n of
     None \<Rightarrow> False | Some (_, kind, _) \<Rightarrow> kind \<in> {T_INT, T_FLOAT, T_STRING, T_CHAR})"

definition isSafeLiteral :: "node \<Rightarrow> bool" where
  "isSafeLiteral n = (case as_BasicLit n of
     None \<Rightarrow> False | Some (_, kind, _) \<Rightarrow> kind \<in> {T_INT, T_FLOAT, T_STRING, T_CHAR})"

definition isTimeDuration :: "node \<Rightarrow> bool" where
  "isTimeDuration e = (case e of
     SelectorExpr (Ident _ pkg) (Ident _ sel) \<Rightarrow>
       pkg = ''time'' \<and>
       sel \<in> {''Nanosecond'', ''Microsecond'', ''Millisecond'', ''Second'', ''Minute'', ''Hour''}
   | _ \<Rightarrow> False)"

text \<open>A composite literal element that is the literal, or a key-value pair holding it.\<close>

definition isElement :: "node \<Rightarrow> node \<Rightarrow> bool" where
  "isElement bl elt = (case as_KeyValueExpr elt of Some (_, _, v) \<Rightarrow> v = bl | None \<Rightarrow> elt = bl)"

definition ConstantReplacement_CanApplyWithContext :: "node \<Rightarrow> Context \<Rightarrow> bool" where
  "ConstantReplacement_CanApplyWithContext bl ctx =
     (if as_BasicLit bl = None then False
      else case Parent ctx of
        Some (AssignStmt _ _ tok rhs) \<Rightarrow>
          bl \<in> set rhs \<and> (tok = T_DEFINE \<or> tok = T_ASSIGN) \<and> isSafeLiteral bl
      | Some (ReturnStmt _ results) \<Rightarrow> bl \<in> set results \<and> isSafeLiteral bl
      | Some (BinaryExpr x _ op y) \<Rightarrow>
          if isTimeDuration x \<or> isTimeDuration y then False
          else op \<in> {T_EQL, T_NEQ, T_LSS, T_LEQ, T_GTR, T_GEQ, T_ADD, T_SUB, T_MUL, T_QUO, T_REM}
               \<and> isSafeLiteral bl
      | Some (ValueSpec _ _ typ values _) \<Rightarrow> bl \<in> set values \<and> typ = None \<and> isSafeLiteral bl
      | Some (CompositeLit _ _ elts _) \<Rightarrow> list_ex (isElement bl) elts \<and> isSafeLiteral bl
      | _ \<Rightarrow> False)"

definition isEmptyStringLiteral :: "string \<Rightarrow> bool" where
  "isEmptyStringLiteral v =
     (length v = 2 \<and> (v ! 0 = CHR 0x22 \<or> v ! 0 = CHR 0x60) \<and> v ! 1 = v ! 0)"

definition mutateBasicLit :: "node \<Rightarrow> node option" where
  "mutateBasicLit n = (case as_BasicLit n of
     None \<Rightarrow> None
   | Some (_, kind, v) \<Rightarrow>
       if kind = T_INT then
         Some (BasicLit 0 T_INT (if v = ''0'' then ''1'' else ''0''))
       else if kind = T_FLOAT then
         Some (BasicLit 0 T_FLOAT (if v = ''0.0'' then ''1.0'' else ''0.0''))
       else if kind = T_STRING then
         Some (BasicLit 0 T_STRING
           (if isEmptyStringLiteral v then [CHR 0x22, CHR '' '', CHR 0x22]
            else [CHR 0x22, CHR 0x22]))
       else if kind = T_CHAR then
         Some (BasicLit 0 T_CHAR
           (if v = [CHR 0x27, CHR ''a'', CHR 0x27] then [CHR 0x27, CHR ''b'', CHR 0x27]
            else [CHR 0x27, CHR ''a'', CHR 0x27]))
       else None)"

definition ConstantReplacement_Mutate :: "node \<Rightarrow> node option" where
  "ConstantReplacement_Mutate n = (if as_BasicLit n = None then None else mutateBasicLit n)"

definition ConstantReplacement_MutateWithContext :: "node \<Rightarrow> Context \<Rightarrow> node option" where
  "ConstantReplacement_MutateWithContext n ctx =
     (if \<not> ConstantReplacement_CanApplyWithContext n ctx then None
      else ConstantReplacement_Mutate n)"

definition ConstantReplacement :: operator where
  "ConstantReplacement =
     (contextualOperator ''constant_replacement'' ConstantReplacement_CanApply
        ConstantReplacement_Mutate ConstantReplacement_CanApplyWithContext
        ConstantReplacement_MutateWithContext) \<lparr>TypeAware := True\<rparr>"

subsection \<open>variable_replacement\<close>

definition isExcludedParent :: "node \<Rightarrow> node option \<Rightarrow> bool" where
  "isExcludedParent ident parent = (case parent of
     Some (IncDecStmt _ _ _) \<Rightarrow> True
   | Some (SelectorExpr _ sel) \<Rightarrow> sel = ident
   | Some (KeyValueExpr key _ _) \<Rightarrow> key = ident
   | Some (AssignStmt lhs _ _ _) \<Rightarrow> ident \<in> set lhs
   | Some (RangeStmt _ key val _ _ _ _ _) \<Rightarrow> key = Some ident \<or> val = Some ident
   | Some (TypeAssertExpr _ _ typ _) \<Rightarrow> typ = Some ident
   | Some (CallExpr f _ _ _ _) \<Rightarrow> f = ident
   | Some (CompositeLit typ _ _ _) \<Rightarrow> typ = Some ident
   | _ \<Rightarrow> False)"

text \<open>The guards both methods start with: the name, and the type its replacement must have.\<close>

definition replaceable :: "node \<Rightarrow> Context \<Rightarrow> (int \<times> string \<times> string) option" where
  "replaceable n ctx = (case as_Ident n of
     None \<Rightarrow> None
   | Some (p, name) \<Rightarrow>
       if name = ''_'' \<or> EnclosingFunc ctx = None then None
       else if isExcludedParent n (Parent ctx) then None
       else case BuildTypeMap (EnclosingFunc ctx) name of
              None \<Rightarrow> None
            | Some identType \<Rightarrow> if identType = '''' then None else Some (p, name, identType))"

definition VariableReplacement_CanApplyWithContext :: "node \<Rightarrow> Context \<Rightarrow> bool" where
  "VariableReplacement_CanApplyWithContext n ctx = (case replaceable n ctx of
     None \<Rightarrow> False
   | Some (_, name, identType) \<Rightarrow>
       HasCompatibleVar (CollectVars (EnclosingFunc ctx)) name identType)"

definition VariableReplacement_MutateWithContext :: "node \<Rightarrow> Context \<Rightarrow> node option" where
  "VariableReplacement_MutateWithContext n ctx = (case replaceable n ctx of
     None \<Rightarrow> None
   | Some (p, name, identType) \<Rightarrow>
       let repl = FindCompatibleVar (CollectVars (EnclosingFunc ctx)) name identType in
       if VName repl = '''' then None else Some (Ident p (VName repl)))"

definition VariableReplacement :: operator where
  "VariableReplacement =
     (contextualOperator ''variable_replacement'' neverApply neverMutate
        VariableReplacement_CanApplyWithContext VariableReplacement_MutateWithContext)
     \<lparr>TypeAware := True\<rparr>"

end
