(* ===== verification/OpsStmt.thy ===== *)
theory OpsStmt
  imports OpBase
begin

text \<open>
  The operators on statements, clauses and declarations: assignments, increments,
  conditions of \<open>if\<close> and \<open>for\<close>, loops, calls, \<open>defer\<close>, \<open>go\<close>, \<open>panic\<close>, error and
  nil checks, switch clauses, early returns and function bodies. A node built without its
  positions has 0 there, as the Go literal has.
\<close>

definition emptyStmt :: node where "emptyStmt = EmptyStmt 0 False"

definition emptyBlock :: node where "emptyBlock = BlockStmt 0 [] 0"

subsection \<open>assignment_operator and inc_dec_flip\<close>

definition AssignmentOperator_CanApply :: "node \<Rightarrow> bool" where
  "AssignmentOperator_CanApply n = (case n of
     AssignStmt [_] _ tok [rhs] \<Rightarrow>
       if tok = T_ASSIGN then
         (case rhs of
            BasicLit _ kind _ \<Rightarrow> kind = T_INT \<or> kind = T_FLOAT
          | Ident _ name \<Rightarrow> \<not> (name = ''true'' \<or> name = ''false'' \<or> name = ''nil'')
          | BinaryExpr _ _ _ _ \<Rightarrow> True
          | CallExpr _ _ _ _ _ \<Rightarrow> True
          | UnaryExpr _ _ _ \<Rightarrow> True
          | _ \<Rightarrow> False)
       else tok \<in> {T_ADD_ASSIGN, T_SUB_ASSIGN, T_MUL_ASSIGN, T_QUO_ASSIGN}
   | _ \<Rightarrow> False)"

definition assignFlip :: "token \<Rightarrow> token option" where
  "assignFlip tok = (case tok of
     T_ASSIGN \<Rightarrow> Some T_ADD_ASSIGN
   | T_ADD_ASSIGN \<Rightarrow> Some T_SUB_ASSIGN
   | T_SUB_ASSIGN \<Rightarrow> Some T_ADD_ASSIGN
   | T_MUL_ASSIGN \<Rightarrow> Some T_QUO_ASSIGN
   | T_QUO_ASSIGN \<Rightarrow> Some T_MUL_ASSIGN
   | _ \<Rightarrow> None)"

definition AssignmentOperator_Mutate :: "node \<Rightarrow> node option" where
  "AssignmentOperator_Mutate n = (case as_AssignStmt n of
     None \<Rightarrow> None
   | Some (lhs, _, tok, rhs) \<Rightarrow>
       (case assignFlip tok of None \<Rightarrow> None | Some newTok \<Rightarrow> Some (AssignStmt lhs 0 newTok rhs)))"

definition AssignmentOperator :: operator where
  "AssignmentOperator =
     plainOperator ''assignment_operator'' AssignmentOperator_CanApply AssignmentOperator_Mutate"

definition IncDecFlip_CanApply :: "node \<Rightarrow> bool" where
  "IncDecFlip_CanApply n = (case as_IncDecStmt n of
     None \<Rightarrow> False | Some (_, _, tok) \<Rightarrow> tok \<in> IncDecTokens)"

definition IncDecFlip_Mutate :: "node \<Rightarrow> node option" where
  "IncDecFlip_Mutate n = (case as_IncDecStmt n of
     None \<Rightarrow> None
   | Some (x, _, tok) \<Rightarrow>
       (case SwapBinaryToken tok IncDecPairs of
          None \<Rightarrow> None | Some newTok \<Rightarrow> Some (IncDecStmt x 0 newTok)))"

definition IncDecFlip :: operator where
  "IncDecFlip = plainOperator ''inc_dec_flip'' IncDecFlip_CanApply IncDecFlip_Mutate"

subsection \<open>conditional_expression\<close>

text \<open>
  The shared \<open>conditionMutator\<close>; its \<open>nodeType\<close> is a sample node that only selects the
  branch, so it is a two-valued type here.
\<close>

datatype condNode = IfNode | ForNode

fun isSafeCondition :: "node \<Rightarrow> bool" where
  "isSafeCondition expr = (case expr of
     Ident _ _ \<Rightarrow> True
   | BasicLit _ _ _ \<Rightarrow> True
   | ParenExpr _ x _ \<Rightarrow> isSafeCondition x
   | UnaryExpr _ op x \<Rightarrow> op = T_NOT \<and> isSafeCondition x
   | BinaryExpr x _ op y \<Rightarrow>
       if op \<in> {T_EQL, T_NEQ, T_LSS, T_LEQ, T_GTR, T_GEQ, T_LAND, T_LOR}
       then isSafeCondition x \<and> isSafeCondition y else False
   | SelectorExpr _ _ \<Rightarrow> True
   | CallExpr _ _ _ _ _ \<Rightarrow> True
   | _ \<Rightarrow> False)"

declare isSafeCondition.simps [simp del]

definition conditionMutator_CanApply :: "condNode \<Rightarrow> node \<Rightarrow> bool" where
  "conditionMutator_CanApply nodeType n = (case nodeType of
     IfNode \<Rightarrow>
       (case as_IfStmt n of
          None \<Rightarrow> False
        | Some (_, init, cond, _, _) \<Rightarrow>
            (case init of
               None \<Rightarrow> isSafeCondition cond
             | Some i \<Rightarrow>
                 (case as_AssignStmt i of
                    None \<Rightarrow> False
                  | Some (_, _, tok, _) \<Rightarrow>
                      if tok = T_DEFINE then False else isSafeCondition cond)))
   | ForNode \<Rightarrow>
       (case as_ForStmt n of
          Some (_, _, Some cond, _, _) \<Rightarrow> isSafeCondition cond
        | _ \<Rightarrow> False))"

definition conditionMutator_Mutate :: "condNode \<Rightarrow> string \<Rightarrow> node \<Rightarrow> node option" where
  "conditionMutator_Mutate nodeType replaceWith n = (case nodeType of
     IfNode \<Rightarrow>
       (case as_IfStmt n of
          None \<Rightarrow> None
        | Some (p, init, cond, body, els) \<Rightarrow>
            Some (IfStmt p init (Ident (Pos cond) replaceWith) body els))
   | ForNode \<Rightarrow>
       (case as_ForStmt n of
          Some (p, init, Some cond, post, body) \<Rightarrow>
            Some (ForStmt p init (Some (Ident (Pos cond) replaceWith)) post body)
        | _ \<Rightarrow> None))"

definition buildConditionMutator :: "string \<Rightarrow> condNode \<Rightarrow> string \<Rightarrow> operator" where
  "buildConditionMutator nm nodeType replaceWith =
     contextualOperator nm (conditionMutator_CanApply nodeType)
       (conditionMutator_Mutate nodeType replaceWith)
       (\<lambda>n _. conditionMutator_CanApply nodeType n)
       (\<lambda>n _. conditionMutator_Mutate nodeType replaceWith n)"

definition ForConditionFalse :: operator where
  "ForConditionFalse = buildConditionMutator ''for_condition_false'' ForNode ''false''"

definition ForConditionTrue :: operator where
  "ForConditionTrue = buildConditionMutator ''for_condition_true'' ForNode ''true''"

definition IfConditionFalse :: operator where
  "IfConditionFalse = buildConditionMutator ''if_condition_false'' IfNode ''false''"

definition IfConditionTrue :: operator where
  "IfConditionTrue = buildConditionMutator ''if_condition_true'' IfNode ''true''"

subsection \<open>negate_condition\<close>

definition NegateCondition_CanApplyWithContext :: "node \<Rightarrow> Context \<Rightarrow> bool" where
  "NegateCondition_CanApplyWithContext n ctx = (case as_IfStmt n of
     None \<Rightarrow> False | Some (_, _, cond, _, _) \<Rightarrow> as_UnaryExpr cond = None)"

definition NegateCondition_MutateWithContext :: "node \<Rightarrow> Context \<Rightarrow> node option" where
  "NegateCondition_MutateWithContext n ctx = (case as_IfStmt n of
     None \<Rightarrow> None
   | Some (_, init, cond, body, els) \<Rightarrow>
       if as_UnaryExpr cond \<noteq> None then None
       else Some (IfStmt 0 init (UnaryExpr 0 T_NOT cond) (CloneBlockStmt body)
                    (map_option CloneStmt els)))"

definition NegateCondition :: operator where
  "NegateCondition = contextualOperator ''negate_condition'' neverApply neverMutate
     NegateCondition_CanApplyWithContext NegateCondition_MutateWithContext"

subsection \<open>Loops\<close>

definition isLoop :: "node \<Rightarrow> Context \<Rightarrow> bool" where
  "isLoop n ctx \<longleftrightarrow> as_ForStmt n \<noteq> None \<or> as_RangeStmt n \<noteq> None"

definition LoopBodyRemoval_MutateWithContext :: "node \<Rightarrow> Context \<Rightarrow> node option" where
  "LoopBodyRemoval_MutateWithContext n ctx = (case n of
     ForStmt p init cond post _ \<Rightarrow> Some (ForStmt p init cond post emptyBlock)
   | RangeStmt p k v tp tok rg x _ \<Rightarrow> Some (RangeStmt p k v tp tok rg x emptyBlock)
   | _ \<Rightarrow> None)"

definition LoopBodyRemoval :: operator where
  "LoopBodyRemoval = contextualOperator ''loop_body_removal'' neverApply neverMutate
     isLoop LoopBodyRemoval_MutateWithContext"

text \<open>The body with a \<open>break\<close> appended, positioned at the end of the old body.\<close>

definition breakBody :: "node \<Rightarrow> node option" where
  "breakBody body =
     (if blockList body = [] then None
      else Some (BlockStmt 0 (blockList body @ [BranchStmt (EndPos body) T_BREAK None]) 0))"

definition LoopBreakFirst_MutateWithContext :: "node \<Rightarrow> Context \<Rightarrow> node option" where
  "LoopBreakFirst_MutateWithContext n ctx = (case n of
     ForStmt p init cond post body \<Rightarrow> map_option (ForStmt p init cond post) (breakBody body)
   | RangeStmt p k v tp tok rg x body \<Rightarrow> map_option (RangeStmt p k v tp tok rg x) (breakBody body)
   | _ \<Rightarrow> None)"

definition LoopBreakFirst :: operator where
  "LoopBreakFirst = contextualOperator ''loop_break_first'' neverApply neverMutate
     isLoop LoopBreakFirst_MutateWithContext"

text \<open>\<open>branch.Tok != 0\<close> compares with \<open>token.ILLEGAL\<close>, the token of value 0.\<close>

definition LoopBreakRemoval_CanApplyWithContext :: "node \<Rightarrow> Context \<Rightarrow> bool" where
  "LoopBreakRemoval_CanApplyWithContext n ctx = (case as_BranchStmt n of
     None \<Rightarrow> False
   | Some (_, tok, _) \<Rightarrow> if tok \<noteq> T_ILLEGAL then False else IsInsideLoop n (CtxFile ctx))"

definition LoopBreakRemoval_MutateWithContext :: "node \<Rightarrow> Context \<Rightarrow> node option" where
  "LoopBreakRemoval_MutateWithContext n ctx = (case as_BranchStmt n of
     None \<Rightarrow> None
   | Some (_, tok, _) \<Rightarrow>
       if tok \<noteq> T_ILLEGAL then None
       else if \<not> IsInsideLoop n (CtxFile ctx) then None
       else Some emptyStmt)"

definition LoopBreakRemoval :: operator where
  "LoopBreakRemoval = contextualOperator ''loop_break_removal'' neverApply neverMutate
     LoopBreakRemoval_CanApplyWithContext LoopBreakRemoval_MutateWithContext"

subsection \<open>Calls, defer, go and panic\<close>

definition FunctionCallRemoval_CanApply :: "node \<Rightarrow> bool" where
  "FunctionCallRemoval_CanApply n = (case as_ExprStmt n of
     None \<Rightarrow> False | Some x \<Rightarrow> as_CallExpr x \<noteq> None)"

definition FunctionCallRemoval_Mutate :: "node \<Rightarrow> node option" where
  "FunctionCallRemoval_Mutate n = (case as_ExprStmt n of
     None \<Rightarrow> None | Some x \<Rightarrow> if as_CallExpr x = None then None else Some emptyStmt)"

definition FunctionCallRemoval :: operator where
  "FunctionCallRemoval = contextualOperator ''function_call_removal''
     FunctionCallRemoval_CanApply FunctionCallRemoval_Mutate
     (\<lambda>n _. FunctionCallRemoval_CanApply n) (\<lambda>n _. FunctionCallRemoval_Mutate n)"

definition DeferRemoval_CanApplyWithContext :: "node \<Rightarrow> Context \<Rightarrow> bool" where
  "DeferRemoval_CanApplyWithContext n ctx \<longleftrightarrow> as_DeferStmt n \<noteq> None"

definition DeferRemoval_MutateWithContext :: "node \<Rightarrow> Context \<Rightarrow> node option" where
  "DeferRemoval_MutateWithContext n ctx =
     (if as_DeferStmt n = None then None else Some emptyStmt)"

definition DeferRemoval :: operator where
  "DeferRemoval = contextualOperator ''defer_removal'' neverApply neverMutate
     DeferRemoval_CanApplyWithContext DeferRemoval_MutateWithContext"

definition GoroutineRemoval_CanApplyWithContext :: "node \<Rightarrow> Context \<Rightarrow> bool" where
  "GoroutineRemoval_CanApplyWithContext n ctx \<longleftrightarrow> as_GoStmt n \<noteq> None"

definition GoroutineRemoval_MutateWithContext :: "node \<Rightarrow> Context \<Rightarrow> node option" where
  "GoroutineRemoval_MutateWithContext n ctx = (case as_GoStmt n of
     None \<Rightarrow> None | Some (_, call) \<Rightarrow> Some (ExprStmt call))"

definition GoroutineRemoval :: operator where
  "GoroutineRemoval = contextualOperator ''goroutine_removal''
     (\<lambda>n. GoroutineRemoval_CanApplyWithContext n emptyContext)
     (\<lambda>n. GoroutineRemoval_MutateWithContext n emptyContext)
     GoroutineRemoval_CanApplyWithContext GoroutineRemoval_MutateWithContext"

definition PanicRemoval_CanApplyWithContext :: "node \<Rightarrow> Context \<Rightarrow> bool" where
  "PanicRemoval_CanApplyWithContext n ctx = (case n of
     ExprStmt (CallExpr (Ident _ name) _ _ _ _) \<Rightarrow> name = ''panic''
   | _ \<Rightarrow> False)"

definition PanicRemoval_MutateWithContext :: "node \<Rightarrow> Context \<Rightarrow> node option" where
  "PanicRemoval_MutateWithContext n ctx = (case n of
     ExprStmt (CallExpr (Ident _ name) _ _ _ _) \<Rightarrow>
       if name \<noteq> ''panic'' then None else Some emptyStmt
   | _ \<Rightarrow> None)"

definition PanicRemoval :: operator where
  "PanicRemoval = contextualOperator ''panic_removal'' neverApply neverMutate
     PanicRemoval_CanApplyWithContext PanicRemoval_MutateWithContext"

subsection \<open>Error and nil checks\<close>

definition isErrNotNilCheck :: "node \<Rightarrow> bool" where
  "isErrNotNilCheck n = (case n of
     IfStmt _ None (BinaryExpr (Ident _ x) _ op (Ident _ y)) body None \<Rightarrow>
       op = T_NEQ \<and> x = ''err'' \<and> y = ''nil'' \<and> length (blockList body) = 1 \<and>
       as_ReturnStmt (blockList body ! 0) \<noteq> None
   | _ \<Rightarrow> False)"

definition ErrorCheckRemoval_CanApplyWithContext :: "node \<Rightarrow> Context \<Rightarrow> bool" where
  "ErrorCheckRemoval_CanApplyWithContext n ctx \<longleftrightarrow> isErrNotNilCheck n"

definition ErrorCheckRemoval_MutateWithContext :: "node \<Rightarrow> Context \<Rightarrow> node option" where
  "ErrorCheckRemoval_MutateWithContext n ctx =
     (if isErrNotNilCheck n then Some emptyStmt else None)"

definition ErrorCheckRemoval :: operator where
  "ErrorCheckRemoval = contextualOperator ''error_check_removal'' neverApply neverMutate
     ErrorCheckRemoval_CanApplyWithContext ErrorCheckRemoval_MutateWithContext"

definition isSimpleNilCheck :: "node \<Rightarrow> bool" where
  "isSimpleNilCheck n = (case n of
     IfStmt _ None (BinaryExpr (Ident _ x) _ op (Ident _ y)) body None \<Rightarrow>
       (op = T_NEQ \<or> op = T_EQL) \<and> y = ''nil'' \<and> x \<noteq> ''err'' \<and> blockList body \<noteq> []
   | _ \<Rightarrow> False)"

definition NilCheckRemoval_CanApplyWithContext :: "node \<Rightarrow> Context \<Rightarrow> bool" where
  "NilCheckRemoval_CanApplyWithContext n ctx \<longleftrightarrow> isSimpleNilCheck n"

definition NilCheckRemoval_MutateWithContext :: "node \<Rightarrow> Context \<Rightarrow> node option" where
  "NilCheckRemoval_MutateWithContext n ctx = (case as_IfStmt n of
     None \<Rightarrow> None
   | Some (_, _, _, body, _) \<Rightarrow>
       if \<not> isSimpleNilCheck n then None else Some (BlockStmt 0 (blockList body) 0))"

definition NilCheckRemoval :: operator where
  "NilCheckRemoval = contextualOperator ''nil_check_removal'' neverApply neverMutate
     NilCheckRemoval_CanApplyWithContext NilCheckRemoval_MutateWithContext"

subsection \<open>Early returns\<close>

definition EarlyReturnRemoval_CanApplyWithContext :: "node \<Rightarrow> Context \<Rightarrow> bool" where
  "EarlyReturnRemoval_CanApplyWithContext n ctx = (case as_ReturnStmt n of
     None \<Rightarrow> False
   | Some (_, results) \<Rightarrow> if results = [] then False else IsInsideIfStmt n (Parent ctx))"

definition EarlyReturnRemoval_MutateWithContext :: "node \<Rightarrow> Context \<Rightarrow> node option" where
  "EarlyReturnRemoval_MutateWithContext n ctx = (case as_ReturnStmt n of
     None \<Rightarrow> None
   | Some (p, results) \<Rightarrow>
       if results = [] then None
       else if \<not> IsInsideIfStmt n (Parent ctx) then None
       else Some (ReturnStmt p []))"

definition EarlyReturnRemoval :: operator where
  "EarlyReturnRemoval = contextualOperator ''early_return_removal'' neverApply neverMutate
     EarlyReturnRemoval_CanApplyWithContext EarlyReturnRemoval_MutateWithContext"

subsection \<open>switch_mutations\<close>

definition isSwitchNode :: "node \<Rightarrow> bool" where
  "isSwitchNode n \<longleftrightarrow> as_SwitchStmt n \<noteq> None \<or> as_TypeSwitchStmt n \<noteq> None"

definition findSiblingCasesInSameSwitch :: "node \<Rightarrow> node option \<Rightarrow> node list" where
  "findSiblingCasesInSameSwitch cc file = (case FindParentNode cc file [isSwitchNode] of
     Some (SwitchStmt _ _ _ body) \<Rightarrow> filter (\<lambda>s. as_CaseClause s \<noteq> None) (blockList body)
   | Some (TypeSwitchStmt _ _ _ body) \<Rightarrow> filter (\<lambda>s. as_CaseClause s \<noteq> None) (blockList body)
   | _ \<Rightarrow> [])"

fun indexOf :: "'a list \<Rightarrow> 'a \<Rightarrow> nat option" where
  "indexOf [] x = None"
| "indexOf (y # ys) x = (if y = x then Some 0 else map_option Suc (indexOf ys x))"

definition caseBody :: "node \<Rightarrow> node list" where
  "caseBody c = (case as_CaseClause c of None \<Rightarrow> [] | Some (_, _, _, body) \<Rightarrow> body)"

definition SwapCaseBodies_CanApplyWithContext :: "node \<Rightarrow> Context \<Rightarrow> bool" where
  "SwapCaseBodies_CanApplyWithContext n ctx = (case as_CaseClause n of
     None \<Rightarrow> False | Some (_, cases, _, body) \<Rightarrow> cases \<noteq> None \<and> body \<noteq> [])"

definition SwapCaseBodies_MutateWithContext :: "node \<Rightarrow> Context \<Rightarrow> node option" where
  "SwapCaseBodies_MutateWithContext cc ctx = (case as_CaseClause cc of
     None \<Rightarrow> None
   | Some (p, cases, colon, body) \<Rightarrow>
       if cases = None \<or> body = [] then None
       else if CtxFile ctx = None then None
       else let siblings = findSiblingCasesInSameSwitch cc (CtxFile ctx) in
         if length siblings < 2 then None
         else case indexOf siblings cc of
           None \<Rightarrow> None
         | Some currentIndex \<Rightarrow>
             let swapIndex = (if currentIndex = length siblings - 1 then currentIndex - 1
                              else currentIndex + 1);
                 swapBody = caseBody (siblings ! swapIndex)
             in if swapBody = [] then None
                else Some (CaseClause p cases colon swapBody))"

definition SwapCaseBodies :: operator where
  "SwapCaseBodies = (contextualOperator ''swap_case_bodies'' neverApply neverMutate
     SwapCaseBodies_CanApplyWithContext SwapCaseBodies_MutateWithContext)
     \<lparr>AlwaysInvalid := Some (\<lambda>_. True)\<rparr>"

definition SwitchRemoveDefault_CanApply :: "node \<Rightarrow> bool" where
  "SwitchRemoveDefault_CanApply n = (case as_CaseClause n of
     None \<Rightarrow> False | Some (_, cases, _, _) \<Rightarrow> cases = None)"

definition SwitchRemoveDefault_Mutate :: "node \<Rightarrow> node option" where
  "SwitchRemoveDefault_Mutate n = (case as_CaseClause n of
     None \<Rightarrow> None | Some (p, cases, colon, _) \<Rightarrow> Some (CaseClause p cases colon []))"

definition SwitchRemoveDefault :: operator where
  "SwitchRemoveDefault = contextualOperator ''switch_remove_default''
     SwitchRemoveDefault_CanApply SwitchRemoveDefault_Mutate
     (\<lambda>n _. SwitchRemoveDefault_CanApply n) (\<lambda>n _. SwitchRemoveDefault_Mutate n)"

subsection \<open>empty_body\<close>

text \<open>Identifiers are ASCII here, so \<open>unicode.IsUpper\<close> is the range A to Z.\<close>

definition isExported :: "string \<Rightarrow> bool" where
  "isExported name = (case name of
     [] \<Rightarrow> False | c # _ \<Rightarrow> 65 \<le> (of_char c :: nat) \<and> (of_char c :: nat) \<le> 90)"

definition fieldsOf :: "node option \<Rightarrow> node list" where
  "fieldsOf fl = (case fl of Some (FieldList _ fs _) \<Rightarrow> fs | _ \<Rightarrow> [])"

definition namedType :: "node \<Rightarrow> bool" where
  "namedType t = (case as_Ident t of None \<Rightarrow> False | Some (_, s) \<Rightarrow> s \<noteq> ''_'' \<and> s \<noteq> '''')"

definition hasConcretReceiver :: "node option \<Rightarrow> bool" where
  "hasConcretReceiver recv = (case fieldsOf recv of
     Field _ _ (Some (StarExpr _ t)) _ _ # _ \<Rightarrow> namedType t
   | Field _ _ (Some t) _ _ # _ \<Rightarrow> namedType t
   | _ \<Rightarrow> False)"

definition EmptyBody_CanApplyWithContext :: "node \<Rightarrow> Context \<Rightarrow> bool" where
  "EmptyBody_CanApplyWithContext n ctx = (case n of
     FuncDecl _ recv (Ident _ name) (FuncType _ _ _ results) (Some body) \<Rightarrow>
       if blockList body = [] then False
       else if name = ''init'' \<or> name = ''main'' then False
       else if fieldsOf results \<noteq> [] then False
       else if recv \<noteq> None \<and> \<not> isExported name then hasConcretReceiver recv
       else True
   | _ \<Rightarrow> False)"

definition EmptyBody_MutateWithContext :: "node \<Rightarrow> Context \<Rightarrow> node option" where
  "EmptyBody_MutateWithContext n ctx = (case n of
     FuncDecl doc recv name typ (Some (BlockStmt l _ r)) \<Rightarrow>
       if \<not> EmptyBody_CanApplyWithContext n ctx then None
       else Some (FuncDecl doc recv name typ (Some (BlockStmt l [] r)))
   | _ \<Rightarrow> None)"

definition EmptyBody :: operator where
  "EmptyBody = contextualOperator ''empty_body'' neverApply neverMutate
     EmptyBody_CanApplyWithContext EmptyBody_MutateWithContext"

end
