(* ===== verification/OpsReturn.thy ===== *)
theory OpsReturn
  imports OpBase
begin

text \<open>
  The operators on return statements: \<open>zero_value_return\<close> (four operators over one base
  record), \<open>reference_returns\<close> (five operators that return \<open>nil\<close>) and
  \<open>error_return_nil\<close>.
\<close>

subsection \<open>zero_value_return\<close>

record zeroValueReturnBase =
  zname :: string
  checkExpr :: "node \<Rightarrow> bool"
  zeroValueFn :: "node \<Rightarrow> node"

definition zeroValueReturn_CanApply :: "zeroValueReturnBase \<Rightarrow> node \<Rightarrow> bool" where
  "zeroValueReturn_CanApply b n = (case IsReturnStmtWithResults n 1 of
     None \<Rightarrow> False | Some (_, results) \<Rightarrow> checkExpr b (hd results))"

definition zeroValueReturn_CanApplyWithContext ::
  "zeroValueReturnBase \<Rightarrow> node \<Rightarrow> Context \<Rightarrow> bool" where
  "zeroValueReturn_CanApplyWithContext b n ctx = (case IsReturnStmtWithResults n 1 of
     None \<Rightarrow> False
   | Some (_, results) \<Rightarrow>
       if CtxFile ctx \<noteq> None \<and> IsInsideCaseClause n (CtxFile ctx) then False
       else checkExpr b (hd results))"

definition zeroValueReturn_Mutate :: "zeroValueReturnBase \<Rightarrow> node \<Rightarrow> node option" where
  "zeroValueReturn_Mutate b n = (case IsReturnStmtWithResults n 1 of
     None \<Rightarrow> None
   | Some (_, results) \<Rightarrow>
       if \<not> checkExpr b (hd results) then None
       else Some (ReturnStmt 0 [zeroValueFn b (hd results)]))"

definition zeroValueReturn_MutateWithContext ::
  "zeroValueReturnBase \<Rightarrow> node \<Rightarrow> Context \<Rightarrow> node option" where
  "zeroValueReturn_MutateWithContext b n ctx = (case IsReturnStmtWithResults n 1 of
     None \<Rightarrow> None
   | Some (_, results) \<Rightarrow>
       if CtxFile ctx \<noteq> None \<and> IsInsideCaseClause n (CtxFile ctx) then None
       else if \<not> checkExpr b (hd results) then None
       else Some (ReturnStmt 0 [zeroValueFn b (hd results)]))"

definition zeroValueReturnOperator :: "zeroValueReturnBase \<Rightarrow> operator" where
  "zeroValueReturnOperator b = contextualOperator (zname b)
     (zeroValueReturn_CanApply b) (zeroValueReturn_Mutate b)
     (zeroValueReturn_CanApplyWithContext b) (zeroValueReturn_MutateWithContext b)"

definition numericZeroValue :: "node \<Rightarrow> node" where
  "numericZeroValue expr = (case as_BasicLit expr of
     None \<Rightarrow> Ident 0 ''0''
   | Some (_, kind, _) \<Rightarrow>
       if kind = T_INT then BasicLit 0 T_INT ''0''
       else if kind = T_FLOAT then BasicLit 0 T_FLOAT ''0.0''
       else if kind = T_IMAG then BasicLit 0 T_IMAG ''0i''
       else Ident 0 ''0'')"

definition ZeroNumericBase :: zeroValueReturnBase where
  "ZeroNumericBase = \<lparr>zname = ''zero_value_return_numeric'', checkExpr = IsNumericLiteral,
     zeroValueFn = numericZeroValue\<rparr>"

definition ZeroStringBase :: zeroValueReturnBase where
  "ZeroStringBase = \<lparr>zname = ''zero_value_return_string'', checkExpr = IsStringLiteral,
     zeroValueFn = (\<lambda>_. BasicLit 0 T_STRING [CHR 0x22, CHR 0x22])\<rparr>"

definition ZeroBoolBase :: zeroValueReturnBase where
  "ZeroBoolBase = \<lparr>zname = ''zero_value_return_bool'', checkExpr = IsBoolLiteral,
     zeroValueFn = (\<lambda>_. Ident 0 ''false'')\<rparr>"

definition ZeroErrorBase :: zeroValueReturnBase where
  "ZeroErrorBase = \<lparr>zname = ''zero_value_return_error'', checkExpr = IsErrorCall,
     zeroValueFn = (\<lambda>_. Ident 0 ''nil'')\<rparr>"

definition ZeroValueReturnNumeric :: operator where
  "ZeroValueReturnNumeric = zeroValueReturnOperator ZeroNumericBase"

definition ZeroValueReturnString :: operator where
  "ZeroValueReturnString = zeroValueReturnOperator ZeroStringBase"

definition ZeroValueReturnBool :: operator where
  "ZeroValueReturnBool = zeroValueReturnOperator ZeroBoolBase"

definition ZeroValueReturnError :: operator where
  "ZeroValueReturnError = zeroValueReturnOperator ZeroErrorBase"

subsection \<open>reference_returns\<close>

definition returnNilMutate :: "node \<Rightarrow> node option" where
  "returnNilMutate n = (case as_ReturnStmt n of
     None \<Rightarrow> None
   | Some (_, results) \<Rightarrow> if results = [] then None else Some (ReturnStmt 0 [Ident 0 ''nil'']))"

text \<open>A test on the first result, false on a node that is not a return with results.\<close>

definition firstResult :: "(node \<Rightarrow> bool) \<Rightarrow> node \<Rightarrow> bool" where
  "firstResult P n = (case as_ReturnStmt n of
     None \<Rightarrow> False | Some (_, results) \<Rightarrow> (case results of [] \<Rightarrow> False | e # _ \<Rightarrow> P e))"

definition isMakeChan :: "node \<Rightarrow> bool" where
  "isMakeChan e = (case e of
     CallExpr (Ident _ f) _ (a # _) _ _ \<Rightarrow> f = ''make'' \<and> as_ChanType a \<noteq> None
   | _ \<Rightarrow> False)"

definition ChannelReturns_CanApply :: "node \<Rightarrow> bool" where
  "ChannelReturns_CanApply n = firstResult isMakeChan n"

definition ChannelReturns :: operator where
  "ChannelReturns =
     (plainOperator ''channel_returns'' ChannelReturns_CanApply returnNilMutate)\<lparr>TypeAware := True\<rparr>"

fun isInterfaceLiteral :: "node \<Rightarrow> bool" where
  "isInterfaceLiteral expr = (case expr of
     BasicLit _ kind _ \<Rightarrow> kind = T_STRING \<or> kind = T_CHAR \<or> kind = T_INT
   | ParenExpr _ x _ \<Rightarrow> isInterfaceLiteral x
   | _ \<Rightarrow> False)"

declare isInterfaceLiteral.simps [simp del]

definition InterfaceReturns_CanApply :: "node \<Rightarrow> bool" where
  "InterfaceReturns_CanApply n = firstResult isInterfaceLiteral n"

definition InterfaceReturns_CanApplyWithContext :: "node \<Rightarrow> Context \<Rightarrow> bool" where
  "InterfaceReturns_CanApplyWithContext n ctx =
     firstResult (\<lambda>e. ReturnType ctx = ''interface{}'' \<and> isInterfaceLiteral e) n"

definition InterfaceReturns_MutateWithContext :: "node \<Rightarrow> Context \<Rightarrow> node option" where
  "InterfaceReturns_MutateWithContext n ctx = returnNilMutate n"

definition InterfaceReturns :: operator where
  "InterfaceReturns =
     (contextualOperator ''interface_returns'' InterfaceReturns_CanApply neverMutate
        InterfaceReturns_CanApplyWithContext InterfaceReturns_MutateWithContext)
     \<lparr>TypeAware := True\<rparr>"

definition isMapLiteral :: "node \<Rightarrow> bool" where
  "isMapLiteral e = (case as_CompositeLit e of
     Some (Some t, _, _, _) \<Rightarrow> as_MapType t \<noteq> None | _ \<Rightarrow> False)"

definition MapReturns_CanApply :: "node \<Rightarrow> bool" where
  "MapReturns_CanApply n = firstResult isMapLiteral n"

definition MapReturns :: operator where
  "MapReturns = (plainOperator ''map_returns'' MapReturns_CanApply returnNilMutate)\<lparr>TypeAware := True\<rparr>"

definition isAddressOf :: "node \<Rightarrow> bool" where
  "isAddressOf e = (case as_UnaryExpr e of None \<Rightarrow> False | Some (_, op, _) \<Rightarrow> op = T_AND)"

definition PointerReturns_CanApply :: "node \<Rightarrow> bool" where
  "PointerReturns_CanApply n = firstResult isAddressOf n"

definition PointerReturns :: operator where
  "PointerReturns =
     (plainOperator ''pointer_returns'' PointerReturns_CanApply returnNilMutate)\<lparr>TypeAware := True\<rparr>"

definition SliceReturns_CanApplyWithContext :: "node \<Rightarrow> Context \<Rightarrow> bool" where
  "SliceReturns_CanApplyWithContext n ctx =
     firstResult (\<lambda>e. HasPrefix (ReturnType ctx) ''[]'' \<and> as_CompositeLit e \<noteq> None) n"

definition SliceReturns_MutateWithContext :: "node \<Rightarrow> Context \<Rightarrow> node option" where
  "SliceReturns_MutateWithContext n ctx = returnNilMutate n"

definition SliceReturns :: operator where
  "SliceReturns =
     (contextualOperator ''slice_returns'' neverApply returnNilMutate
        SliceReturns_CanApplyWithContext SliceReturns_MutateWithContext)\<lparr>TypeAware := True\<rparr>"

subsection \<open>error_return_nil\<close>

definition lastReturnTypeIsError :: "string \<Rightarrow> bool" where
  "lastReturnTypeIsError returnType =
     (if returnType = '''' then False
      else case LastIndexByte returnType (CHR '','') of
             Some idx \<Rightarrow> drop (idx + 1) returnType = ''error''
           | None \<Rightarrow> returnType = ''error'')"

definition ErrorReturnNil_CanApply :: "node \<Rightarrow> bool" where
  "ErrorReturnNil_CanApply n = (case IsReturnStmtWithResults n 2 of
     None \<Rightarrow> False
   | Some (_, results) \<Rightarrow> \<not> IsErrorNil (last results) \<and> IsErrorExpr (last results))"

definition ErrorReturnNil_CanApplyWithContext :: "node \<Rightarrow> Context \<Rightarrow> bool" where
  "ErrorReturnNil_CanApplyWithContext n ctx = (case IsReturnStmtWithResults n 2 of
     None \<Rightarrow> False
   | Some (_, results) \<Rightarrow>
       if \<not> lastReturnTypeIsError (ReturnType ctx) then False
       else if IsErrorNil (last results) \<or> \<not> IsErrorExpr (last results) then False
       else if CtxFile ctx \<noteq> None \<and> IsInsideCaseClause n (CtxFile ctx) then False
       else True)"

definition ErrorReturnNil_Mutate :: "node \<Rightarrow> node option" where
  "ErrorReturnNil_Mutate n = (case IsReturnStmtWithResults n 2 of
     None \<Rightarrow> None
   | Some (p, results) \<Rightarrow>
       if IsErrorNil (last results) \<or> \<not> IsErrorExpr (last results) then None
       else Some (ReturnStmt p (results[length results - 1 := Ident 0 ''nil''])))"

definition ErrorReturnNil_MutateWithContext :: "node \<Rightarrow> Context \<Rightarrow> node option" where
  "ErrorReturnNil_MutateWithContext n ctx = (case IsReturnStmtWithResults n 2 of
     None \<Rightarrow> None
   | Some (p, results) \<Rightarrow>
       if \<not> lastReturnTypeIsError (ReturnType ctx) then None
       else if IsErrorNil (last results) \<or> \<not> IsErrorExpr (last results) then None
       else Some (ReturnStmt p (results[length results - 1 := Ident 0 ''nil''])))"

definition ErrorReturnNil :: operator where
  "ErrorReturnNil = contextualOperator ''error_return_nil''
     ErrorReturnNil_CanApply ErrorReturnNil_Mutate
     ErrorReturnNil_CanApplyWithContext ErrorReturnNil_MutateWithContext"

lemma lastReturnTypeIsError_iff:
  "lastReturnTypeIsError t \<longleftrightarrow> t = ''error'' \<or> (\<exists>pre. t = pre @ '',error'')"
proof (cases "CHR '','' \<in> set t")
  case False
  then have "LastIndexByte t (CHR '','') = None" by (simp add: LastIndexByte_None)
  with False show ?thesis by (auto simp: lastReturnTypeIsError_def)
next
  case True
  then obtain ys zs where t: "t = ys @ CHR '','' # zs" and zs: "CHR '','' \<notin> set zs"
    by (meson split_list_last)
  have drop: "lastReturnTypeIsError t \<longleftrightarrow> zs = ''error''"
    by (simp add: lastReturnTypeIsError_def LastIndexByte_split [OF zs] t)
  have "zs = ''error''" if "t = pre @ '',error''" for pre
  proof -
    have "LastIndexByte t (CHR '','') = Some (length pre)"
      using LastIndexByte_split [of "CHR '',''" "''error''" pre] that by simp
    with LastIndexByte_split [OF zs, of ys] t have "length pre = length ys" by simp
    with that t show ?thesis by simp
  qed
  moreover have "t \<noteq> ''error''" using True by auto
  ultimately show ?thesis using drop t by auto
qed

end
