(* ===== verification/Registry.thy ===== *)
theory Registry
  imports OpsExpr OpsStmt OpsReturn
begin

text \<open>
  \<open>pkg/mutator/api.go\<close>: applying an operator, the registry and the category table. The
  two Go maps of the registry are association lists with distinct keys: iteration visits the
  entries in list order, one of the orders Go allows, and no statement below depends on
  which. \<open>allOperators\<close> are the operators the binary links in, in the order of their
  packages' \<open>init\<close> functions.
\<close>

subsection \<open>Applying an operator\<close>

definition ApplyOperator ::
  "operator \<Rightarrow> node \<Rightarrow> string \<Rightarrow> node option \<Rightarrow> node option \<Rightarrow> node option" where
  "ApplyOperator op n returnType file enclosingFunc =
     (let ctx = emptyContext\<lparr>ReturnType := returnType, CtxFile := file,
                             EnclosingFunc := enclosingFunc\<rparr>
      in case Contextual op of
           Some (_, mutateWithContext) \<Rightarrow> mutateWithContext n ctx
         | None \<Rightarrow> Mutate op n)"

subsection \<open>The registry\<close>

record OperatorRegistry =
  operators :: "(string \<times> operator) list"
  initializers :: "(string \<times> operator) list"

text \<open>An initializer is the operator it returns: \<open>OperatorInitializer\<close> has no argument.\<close>

definition NewOperatorRegistry :: OperatorRegistry where
  "NewOperatorRegistry = \<lparr>operators = [], initializers = []\<rparr>"

fun mapSet :: "'k \<Rightarrow> 'v \<Rightarrow> ('k \<times> 'v) list \<Rightarrow> ('k \<times> 'v) list" where
  "mapSet k v [] = [(k, v)]"
| "mapSet k v ((k', v') # m) = (if k = k' then (k, v) # m else (k', v') # mapSet k v m)"

definition Register :: "OperatorRegistry \<Rightarrow> operator \<Rightarrow> OperatorRegistry" where
  "Register r op = r\<lparr>operators := mapSet (OpName op) op (operators r)\<rparr>"

definition RegisterInitializer :: "OperatorRegistry \<Rightarrow> string \<Rightarrow> operator \<Rightarrow> OperatorRegistry" where
  "RegisterInitializer r name init = r\<lparr>initializers := mapSet name init (initializers r)\<rparr>"

definition Get :: "OperatorRegistry \<Rightarrow> string \<Rightarrow> operator option \<times> OperatorRegistry" where
  "Get r name = (case map_of (operators r) name of
     Some op \<Rightarrow> (Some op, r)
   | None \<Rightarrow>
       (case map_of (initializers r) name of
          Some op \<Rightarrow> (Some op, r\<lparr>operators := mapSet name op (operators r)\<rparr>)
        | None \<Rightarrow> (None, r)))"

definition ListOps :: "OperatorRegistry \<Rightarrow> operator list" where
  "ListOps r = map snd (operators r) @
     map snd (filter (\<lambda>(name, _). map_of (operators r) name = None) (initializers r))"

definition AllOps :: "OperatorRegistry \<Rightarrow> (string \<rightharpoonup> operator)" where
  "AllOps r = (\<lambda>name. case map_of (operators r) name of
     Some op \<Rightarrow> Some op | None \<Rightarrow> map_of (initializers r) name)"

definition ListAll :: "OperatorRegistry \<Rightarrow> operator list" where
  "ListAll r = map snd (operators r) @ map snd (initializers r)"

text \<open>\<open>MustGet\<close>: \<open>None\<close> is the panic.\<close>

definition MustGet :: "OperatorRegistry \<Rightarrow> string \<Rightarrow> operator option" where
  "MustGet r name = fst (Get r name)"

subsection \<open>Categories\<close>

definition categoryMap :: "(string \<times> string list) list" where
  "categoryMap =
   [(''arithmetic'', [''arithmetic_flip'']),
    (''logical'', [''condition_negation'', ''negate_condition'', ''logical_operator'']),
    (''boundary'', [''boundary_value'']),
    (''assignment'', [''assignment_operator'']),
    (''function_body'', [''empty_body'']),
    (''reference_returns'',
      [''pointer_returns'', ''slice_returns'', ''map_returns'', ''interface_returns'',
       ''channel_returns'']),
    (''switch_mutations'', [''switch_remove_default'', ''swap_case_bodies'']),
    (''zero_value_return'',
      [''zero_value_return_numeric'', ''zero_value_return_string'', ''zero_value_return_bool'',
       ''zero_value_return_error'']),
    (''binary'', [''binary_math'', ''inc_dec_flip'', ''sign_toggle'']),
    (''literal'', [''constant_replacement'', ''variable_replacement'']),
    (''early_return'', [''early_return_removal'']),
    (''loop'', [''loop_body_removal'', ''loop_break_first'', ''loop_break_removal'']),
    (''statement'', [''defer_removal'']),
    (''conditional_expression'',
      [''if_condition_true'', ''if_condition_false'', ''for_condition_true'',
       ''for_condition_false'']),
    (''function'', [''function_call_removal'']),
    (''error_handling'', [''nil_check_removal'', ''error_return_nil'', ''error_check_removal'']),
    (''concurrency'', [''goroutine_removal'']),
    (''panic_recovery'', [''panic_removal''])]"

text \<open>\<open>GetCategory\<close> looks the names up one after another; an unknown name is skipped.\<close>

fun getAll :: "OperatorRegistry \<Rightarrow> string list \<Rightarrow> operator list \<times> OperatorRegistry" where
  "getAll r [] = ([], r)"
| "getAll r (n # ns) =
     (let (op, r') = Get r n; (ops, r'') = getAll r' ns
      in (option_list op @ ops, r''))"

definition GetCategory ::
  "OperatorRegistry \<Rightarrow> string \<Rightarrow> operator list option \<times> OperatorRegistry" where
  "GetCategory r name = (case map_of categoryMap name of
     None \<Rightarrow> (None, r)
   | Some names \<Rightarrow> (let (ops, r') = getAll r names in (Some ops, r')))"

definition ListCategories :: "string list" where
  "ListCategories = map fst categoryMap"

subsection \<open>The operators of the program\<close>

definition allOperators :: "operator list" where
  "allOperators =
   [ArithmeticFlip, AssignmentOperator, BoundaryValue, GoroutineRemoval, ConditionNegation,
    ForConditionFalse, ForConditionTrue, IfConditionFalse, IfConditionTrue,
    ConstantReplacement, PanicRemoval, DeferRemoval, EarlyReturnRemoval, EmptyBody,
    ErrorCheckRemoval, ErrorReturnNil, NilCheckRemoval, FunctionCallRemoval, IncDecFlip,
    LogicalOperator, LoopBodyRemoval, LoopBreakFirst, LoopBreakRemoval, BinaryMath,
    NegateCondition, ChannelReturns, InterfaceReturns, MapReturns, PointerReturns,
    SliceReturns, SignToggle, SwapCaseBodies, SwitchRemoveDefault, VariableReplacement,
    ZeroValueReturnNumeric, ZeroValueReturnString, ZeroValueReturnBool, ZeroValueReturnError]"

definition globalRegistry :: OperatorRegistry where
  "globalRegistry = foldl Register NewOperatorRegistry allOperators"

lemmas operator_defs =
  ArithmeticFlip_def AssignmentOperator_def BoundaryValue_def GoroutineRemoval_def
  ConditionNegation_def ForConditionFalse_def ForConditionTrue_def IfConditionFalse_def
  IfConditionTrue_def ConstantReplacement_def PanicRemoval_def DeferRemoval_def
  EarlyReturnRemoval_def EmptyBody_def ErrorCheckRemoval_def ErrorReturnNil_def
  NilCheckRemoval_def FunctionCallRemoval_def IncDecFlip_def LogicalOperator_def
  LoopBodyRemoval_def LoopBreakFirst_def LoopBreakRemoval_def BinaryMath_def
  NegateCondition_def ChannelReturns_def InterfaceReturns_def MapReturns_def
  PointerReturns_def SliceReturns_def SignToggle_def SwapCaseBodies_def
  SwitchRemoveDefault_def VariableReplacement_def ZeroValueReturnNumeric_def
  ZeroValueReturnString_def ZeroValueReturnBool_def ZeroValueReturnError_def
  buildConditionMutator_def zeroValueReturnOperator_def ZeroNumericBase_def
  ZeroStringBase_def ZeroBoolBase_def ZeroErrorBase_def
  plainOperator_def contextualOperator_def

definition allNames :: "string list" where
  "allNames = map OpName allOperators"

lemma allNames_eval: "allNames =
   [''arithmetic_flip'', ''assignment_operator'', ''boundary_value'', ''goroutine_removal'',
    ''condition_negation'', ''for_condition_false'', ''for_condition_true'',
    ''if_condition_false'', ''if_condition_true'', ''constant_replacement'', ''panic_removal'',
    ''defer_removal'', ''early_return_removal'', ''empty_body'', ''error_check_removal'',
    ''error_return_nil'', ''nil_check_removal'', ''function_call_removal'', ''inc_dec_flip'',
    ''logical_operator'', ''loop_body_removal'', ''loop_break_first'', ''loop_break_removal'',
    ''binary_math'', ''negate_condition'', ''channel_returns'', ''interface_returns'',
    ''map_returns'', ''pointer_returns'', ''slice_returns'', ''sign_toggle'',
    ''swap_case_bodies'', ''switch_remove_default'', ''variable_replacement'',
    ''zero_value_return_numeric'', ''zero_value_return_string'', ''zero_value_return_bool'',
    ''zero_value_return_error'']"
  by (simp add: allNames_def allOperators_def operator_defs)

lemma allNames_distinct: "distinct allNames"
  unfolding allNames_eval by code_simp

lemma categories_permute: "mset (concat (map snd categoryMap)) = mset allNames"
proof -
  have "set (concat (map snd categoryMap)) = set allNames"
    unfolding allNames_eval categoryMap_def by code_simp
  moreover have "distinct (concat (map snd categoryMap))"
    unfolding categoryMap_def by code_simp
  ultimately show ?thesis using allNames_distinct set_eq_iff_mset_eq_distinct by blast
qed

subsection \<open>Laws of the registry\<close>

lemma map_of_mapSet [simp]: "map_of (mapSet k v m) = (map_of m)(k \<mapsto> v)"
  by (induction k v m rule: mapSet.induct) auto

lemma keys_mapSet: "set (map fst (mapSet k v m)) = insert k (set (map fst m))"
  by (induction k v m rule: mapSet.induct) auto

lemma mapSet_new: "k \<notin> set (map fst m) \<Longrightarrow> mapSet k v m = m @ [(k, v)]"
  by (induction k v m rule: mapSet.induct) auto

lemma distinct_mapSet: "distinct (map fst m) \<Longrightarrow> distinct (map fst (mapSet k v m))"
proof (induction m)
  case (Cons e m)
  obtain k' v' where e: "e = (k', v')" by (cases e)
  with Cons keys_mapSet [of k v m] show ?case by (cases "k = k'") auto
qed simp

lemma set_mapSet: "p \<in> set (mapSet k v m) \<Longrightarrow> p = (k, v) \<or> p \<in> set m"
  by (induction k v m rule: mapSet.induct) (auto split: if_splits)

definition entries_ok :: "(string \<times> operator) list \<Rightarrow> bool" where
  "entries_ok m \<longleftrightarrow> distinct (map fst m) \<and> (\<forall>e \<in> set m. OpName (snd e) = fst e)"

definition registry_ok :: "OperatorRegistry \<Rightarrow> bool" where
  "registry_ok r \<longleftrightarrow> entries_ok (operators r) \<and> entries_ok (initializers r)"

lemma entries_ok_mapSet: "entries_ok m \<Longrightarrow> entries_ok (mapSet (OpName op) op m)"
  unfolding entries_ok_def using distinct_mapSet set_mapSet by fastforce

lemma entries_ok_lookup: "entries_ok m \<Longrightarrow> map_of m name = Some op \<Longrightarrow> OpName op = name"
  unfolding entries_ok_def using map_of_SomeD by fastforce

lemma registry_ok_New: "registry_ok NewOperatorRegistry"
  by (simp add: registry_ok_def entries_ok_def NewOperatorRegistry_def)

lemma registry_ok_Register: "registry_ok r \<Longrightarrow> registry_ok (Register r op)"
  by (simp add: registry_ok_def Register_def entries_ok_mapSet)

lemma registry_ok_Get: "registry_ok r \<Longrightarrow> registry_ok (snd (Get r name))"
  by (auto simp: registry_ok_def Get_def entries_ok_mapSet dest: entries_ok_lookup
           split: option.split)

lemma Get_AllOps: "fst (Get r name) = AllOps r name \<and> AllOps (snd (Get r name)) = AllOps r"
  by (auto simp: Get_def AllOps_def fun_eq_iff split: option.splits)

lemma getAll_AllOps:
  "fst (getAll r ns) = concat (map (option_list \<circ> AllOps r) ns) \<and>
   AllOps (snd (getAll r ns)) = AllOps r"
proof (induction ns arbitrary: r)
  case (Cons n ns)
  then show ?case using Get_AllOps [of r n] by (simp add: case_prod_beta)
qed simp

lemma foldl_Register_ok: "registry_ok r \<Longrightarrow> registry_ok (foldl Register r ops)"
  by (induction ops arbitrary: r) (simp_all add: registry_ok_Register)

lemma foldl_Register_operators:
  "distinct (map fst (operators r) @ map OpName ops) \<Longrightarrow>
     operators (foldl Register r ops) = operators r @ map (\<lambda>op. (OpName op, op)) ops"
proof (induction ops arbitrary: r)
  case (Cons op ops)
  then have "operators (Register r op) = operators r @ [(OpName op, op)]"
    by (simp add: Register_def mapSet_new)
  with Cons show ?case by simp
qed simp

lemma globalRegistry_operators:
  "operators globalRegistry = map (\<lambda>op. (OpName op, op)) allOperators"
  using foldl_Register_operators [of NewOperatorRegistry allOperators] allNames_distinct
  by (simp add: globalRegistry_def NewOperatorRegistry_def allNames_def)

lemma globalRegistry_ok: "registry_ok globalRegistry"
  by (simp add: globalRegistry_def foldl_Register_ok registry_ok_New)

lemma AllOps_global: "op \<in> set allOperators \<Longrightarrow> AllOps globalRegistry (OpName op) = Some op"
proof -
  assume "op \<in> set allOperators"
  then have "map_of (map (\<lambda>op. (OpName op, op)) allOperators) (OpName op) = Some op"
    using allNames_distinct by (intro map_of_is_SomeI) (auto simp: allNames_def comp_def)
  then show ?thesis by (simp add: AllOps_def globalRegistry_operators)
qed

lemma distinct_categories: "distinct ListCategories"
  unfolding ListCategories_def categoryMap_def by code_simp

text \<open>Every category of the table resolves to operators with exactly its names.\<close>

lemma GetCategory_global:
  assumes mem: "(cat, names) \<in> set categoryMap"
  shows "map_option (map OpName) (fst (GetCategory globalRegistry cat)) = Some names"
proof -
  have look: "map_of categoryMap cat = Some names"
    using distinct_categories mem by (simp add: ListCategories_def)
  have reg: "\<exists>op. AllOps globalRegistry n = Some op \<and> OpName op = n" if "n \<in> set names" for n
  proof -
    have "n \<in># mset (concat (map snd categoryMap))" using mem that by force
    then have "n \<in> set (map OpName allOperators)"
      unfolding categories_permute allNames_def by (simp only: set_mset_mset)
    then show ?thesis using AllOps_global by auto
  qed
  then have "map OpName (concat (map (option_list \<circ> AllOps globalRegistry) names)) = names"
    by (induction names) fastforce+
  with look getAll_AllOps [of globalRegistry names] show ?thesis
    by (simp add: GetCategory_def case_prod_beta)
qed

end
