(* ===== verification/SchemataHandlers.thy ===== *)
theory SchemataHandlers
  imports Registry
begin

text \<open>
  \<open>internal/core/schemata_nodes\<close>: the handlers that splice the mutants of one node into it,
  each behind a test of \<open>activeMutantID\<close>. A handler maps the original node and its mutants
  to the schemata node. The shared table of condition nodes (\<open>mutantIDCondCache\<close>) is a map
  threaded through \<open>createMutantIDCondition_memo\<close>; the handlers use the plain function it
  is proved equal to.
\<close>

record MutantForSite =
  msID :: int
  msOp :: operator
  msReturnType :: string
  msEnclosingFunc :: "node option"

datatype (plugins only: size code) NodeType =
    NTUnknown | NTBinaryExpr | NTUnaryExpr | NTCallExpr | NTIdent | NTBasicLit | NTCaseClause
  | NTIfStmt | NTForStmt | NTRangeStmt | NTAssignStmt | NTIncDecStmt | NTDeferStmt | NTGoStmt
  | NTSendStmt | NTSwitchStmt | NTTypeSwitchStmt | NTReturnStmt | NTBranchStmt | NTSelectStmt
  | NTCommClause | NTLabeledStmt | NTExprStmt | NTDeclStmt | NTErrStmt | NTBlockStmt | NTFuncDecl

definition NodeTypeOf :: "node \<Rightarrow> NodeType" where
  "NodeTypeOf n = (case n of
     BinaryExpr _ _ _ _ \<Rightarrow> NTBinaryExpr
   | UnaryExpr _ _ _ \<Rightarrow> NTUnaryExpr
   | CallExpr _ _ _ _ _ \<Rightarrow> NTCallExpr
   | Ident _ _ \<Rightarrow> NTIdent
   | BasicLit _ _ _ \<Rightarrow> NTBasicLit
   | CaseClause _ _ _ _ \<Rightarrow> NTCaseClause
   | IfStmt _ _ _ _ _ \<Rightarrow> NTIfStmt
   | ForStmt _ _ _ _ _ \<Rightarrow> NTForStmt
   | RangeStmt _ _ _ _ _ _ _ _ \<Rightarrow> NTRangeStmt
   | AssignStmt _ _ _ _ \<Rightarrow> NTAssignStmt
   | IncDecStmt _ _ _ \<Rightarrow> NTIncDecStmt
   | DeferStmt _ _ \<Rightarrow> NTDeferStmt
   | GoStmt _ _ \<Rightarrow> NTGoStmt
   | SendStmt _ _ _ \<Rightarrow> NTSendStmt
   | SwitchStmt _ _ _ _ \<Rightarrow> NTSwitchStmt
   | TypeSwitchStmt _ _ _ _ \<Rightarrow> NTTypeSwitchStmt
   | ReturnStmt _ _ \<Rightarrow> NTReturnStmt
   | BranchStmt _ _ _ \<Rightarrow> NTBranchStmt
   | SelectStmt _ _ \<Rightarrow> NTSelectStmt
   | CommClause _ _ _ _ \<Rightarrow> NTCommClause
   | LabeledStmt _ _ _ \<Rightarrow> NTLabeledStmt
   | ExprStmt _ \<Rightarrow> NTExprStmt
   | DeclStmt _ \<Rightarrow> NTDeclStmt
   | EmptyStmt _ _ \<Rightarrow> NTErrStmt
   | BlockStmt _ _ _ \<Rightarrow> NTBlockStmt
   | FuncDecl _ _ _ _ _ \<Rightarrow> NTFuncDecl
   | _ \<Rightarrow> NTUnknown)"

definition GetNodePosition :: "node \<Rightarrow> (int \<Rightarrow> 'pos) \<Rightarrow> 'pos" where
  "GetNodePosition n position = (case n of
     BinaryExpr _ opPos _ _ \<Rightarrow> position opPos
   | UnaryExpr opPos _ _ \<Rightarrow> position opPos
   | IncDecStmt _ tokPos _ \<Rightarrow> position tokPos
   | AssignStmt _ tokPos _ _ \<Rightarrow> position tokPos
   | BranchStmt tokPos _ _ \<Rightarrow> position tokPos
   | _ \<Rightarrow> position (Pos n))"

subsection \<open>Conditions, types and zero values\<close>

definition createMutantIDCondition :: "int \<Rightarrow> node" where
  "createMutantIDCondition mutantID =
     BinaryExpr (Ident 0 ''activeMutantID'') 0 T_EQL (BasicLit 0 T_INT (Itoa mutantID))"

definition createMutantIDCondition_memo ::
  "int \<Rightarrow> (int \<rightharpoonup> node) \<Rightarrow> node \<times> (int \<rightharpoonup> node)" where
  "createMutantIDCondition_memo mutantID cache =
     (if 0 \<le> mutantID \<and> mutantID < 256 then
        (case cache mutantID of
           Some cond \<Rightarrow> (cond, cache)
         | None \<Rightarrow>
             let cond = BinaryExpr (Ident 0 ''activeMutantID'') 0 T_EQL
                          (BasicLit 0 T_INT (Itoa mutantID))
             in (cond, cache(mutantID \<mapsto> cond)))
      else (BinaryExpr (Ident 0 ''activeMutantID'') 0 T_EQL
              (BasicLit 0 T_INT (Itoa mutantID)), cache))"

definition buildTypeExpr :: "string \<Rightarrow> node" where
  "buildTypeExpr resultType =
     (if resultType = '''' then Ident 0 ''interface{}''
      else if HasPrefix resultType ''*'' \<and> TrimPrefix resultType ''*'' \<noteq> ''''
      then StarExpr 0 (Ident 0 (TrimPrefix resultType ''*''))
      else Ident 0 resultType)"

definition GetZeroValueForType :: "string \<Rightarrow> node" where
  "GetZeroValueForType returnType =
     (if returnType \<in> {''int'', ''int8'', ''int16'', ''int32'', ''int64'', ''uint'', ''uint8'',
                       ''uint16'', ''uint32'', ''uint64''}
      then BasicLit 0 T_INT ''0''
      else if returnType \<in> {''float32'', ''float64''} then BasicLit 0 T_FLOAT ''0.0''
      else if returnType = ''string'' then BasicLit 0 T_STRING [CHR 0x22, CHR 0x22]
      else if returnType = ''bool'' then Ident 0 ''false''
      else Ident 0 ''nil'')"

definition isComparisonOp :: "token \<Rightarrow> bool" where
  "isComparisonOp op \<longleftrightarrow> op \<in> {T_EQL, T_NEQ, T_LSS, T_LEQ, T_GTR, T_GEQ}"

definition isLogicalOp :: "token \<Rightarrow> bool" where
  "isLogicalOp op \<longleftrightarrow> op \<in> {T_LAND, T_LOR}"

definition formatNode :: "node \<Rightarrow> string" where
  "formatNode expr = (case expr of BasicLit _ _ v \<Rightarrow> v | Ident _ name \<Rightarrow> name | _ \<Rightarrow> '''')"

fun typeToString :: "node \<Rightarrow> string" where
  "typeToString e = (case e of
     Ident _ name \<Rightarrow> name
   | StarExpr _ x \<Rightarrow> ''*'' @ typeToString x
   | ArrayType _ l elt \<Rightarrow>
       (case l of None \<Rightarrow> ''[]'' @ typeToString elt
        | Some n \<Rightarrow> ''['' @ formatNode n @ '']'' @ typeToString elt)
   | MapType _ k v \<Rightarrow> ''map['' @ typeToString k @ '']'' @ typeToString v
   | ChanType _ _ v \<Rightarrow> ''chan '' @ typeToString v
   | InterfaceType _ _ \<Rightarrow> ''interface{}''
   | FuncType _ _ _ _ \<Rightarrow> ''func''
   | _ \<Rightarrow> '''')"

declare typeToString.simps [simp del]

text \<open>The site's return type where it says something, else a default.\<close>

definition siteTypeOr :: "string \<Rightarrow> string \<Rightarrow> string" where
  "siteTypeOr siteReturnType d =
     (if siteReturnType \<noteq> '''' \<and> siteReturnType \<noteq> ''interface{}'' then siteReturnType else d)"

definition inferIdent :: "string \<Rightarrow> string \<Rightarrow> string" where
  "inferIdent name siteReturnType =
     (if name = ''true'' \<or> name = ''false'' then ''bool''
      else if name = ''nil'' then ''interface{}''
      else if name \<in> {''int'', ''int8'', ''int16'', ''int32'', ''int64''} then ''int''
      else if name \<in> {''uint'', ''uint8'', ''uint16'', ''uint32'', ''uint64''} then ''uint''
      else if name \<in> {''float32'', ''float64''} then ''float64''
      else if name = ''string'' then ''string''
      else if name = ''bool'' then ''bool''
      else if name = ''byte'' then siteTypeOr siteReturnType ''byte''
      else if name = ''rune'' then siteTypeOr siteReturnType ''rune''
      else siteTypeOr siteReturnType ''interface{}'')"

fun inferExprType :: "node \<Rightarrow> string \<Rightarrow> (string \<rightharpoonup> string) \<Rightarrow> string" where
  "inferExprType expr siteReturnType typeMap = (case expr of
     Ident _ name \<Rightarrow>
       (case typeMap name of Some typ \<Rightarrow> typ | None \<Rightarrow> inferIdent name siteReturnType)
   | BasicLit _ kind _ \<Rightarrow>
       if kind = T_INT then ''int''
       else if kind = T_FLOAT then ''float64''
       else if kind = T_STRING then ''string''
       else if kind = T_CHAR then (if siteReturnType = ''byte'' then ''byte'' else ''rune'')
       else ''interface{}''
   | BinaryExpr x _ op y \<Rightarrow>
       if isComparisonOp op \<or> isLogicalOp op then ''bool''
       else if op \<in> {T_ADD, T_SUB, T_MUL, T_QUO, T_REM} then ''int''
       else inferExprType x siteReturnType typeMap
   | UnaryExpr _ op x \<Rightarrow>
       if op = T_NOT then ''bool'' else inferExprType x siteReturnType typeMap
   | CallExpr _ _ _ _ _ \<Rightarrow> siteTypeOr siteReturnType ''interface{}''
   | StarExpr _ x \<Rightarrow> ''*'' @ inferExprType x siteReturnType typeMap
   | IndexExpr x _ _ _ \<Rightarrow> inferExprType x siteReturnType typeMap
   | SliceExpr x _ _ _ _ _ _ \<Rightarrow> inferExprType x siteReturnType typeMap
   | SelectorExpr x _ \<Rightarrow> inferExprType x siteReturnType typeMap
   | TypeAssertExpr _ _ typ _ \<Rightarrow>
       (case typ of Some t \<Rightarrow> typeToString t | None \<Rightarrow> ''interface{}'')
   | CompositeLit typ _ _ _ \<Rightarrow> (case typ of Some t \<Rightarrow> typeToString t | None \<Rightarrow> '''')
   | FuncLit _ _ \<Rightarrow> ''func''
   | ParenExpr _ x _ \<Rightarrow> inferExprType x siteReturnType typeMap
   | KeyValueExpr _ _ v \<Rightarrow> inferExprType v siteReturnType typeMap
   | _ \<Rightarrow> ''interface{}'')"

declare inferExprType.simps [simp del]

definition isNilExpr :: "node \<Rightarrow> bool" where
  "isNilExpr expr = (case as_Ident expr of Some (_, name) \<Rightarrow> name = ''nil'' | None \<Rightarrow> False)"

definition isNilableType :: "string \<Rightarrow> bool" where
  "isNilableType t =
     (if t = '''' then True
      else if t \<in> {''bool'', ''int'', ''int8'', ''int16'', ''int32'', ''int64'', ''uint'',
                   ''uint8'', ''uint16'', ''uint32'', ''uint64'', ''uintptr'', ''float32'',
                   ''float64'', ''complex64'', ''complex128'', ''string'', ''byte'', ''rune''}
      then False
      else True)"

subsection \<open>Expressions\<close>

text \<open>The pieces of the generated closure \<open>func() T { if activeMutantID == k { return e }; return o }()\<close>.\<close>

definition block :: "node list \<Rightarrow> node" where "block ss = BlockStmt 0 ss 0"

definition ret :: "node list \<Rightarrow> node" where "ret es = ReturnStmt 0 es"

definition guardReturn :: "int \<times> node \<Rightarrow> node" where
  "guardReturn p = (case p of (mid, e) \<Rightarrow>
     IfStmt 0 None (createMutantIDCondition mid) (block [ret [e]]) None)"

definition closure :: "node \<Rightarrow> node list \<Rightarrow> node" where
  "closure typeExpr stmts =
     CallExpr
       (FuncLit
         (FuncType 0 None None (Some (FieldList 0 [Field None [] (Some typeExpr) None None] 0)))
         (block stmts)) 0 [] 0 0"

definition wrapExprWithIf ::
  "node \<Rightarrow> node \<Rightarrow> int \<Rightarrow> string \<Rightarrow> (string \<rightharpoonup> string) \<Rightarrow> node" where
  "wrapExprWithIf mutated original mutantID returnType typeMap =
     (let exprType = inferExprType original returnType typeMap
      in closure (buildTypeExpr exprType)
           [guardReturn (mutantID, mutated), ret [original]])"

definition wrapWithSchemata ::
  "node \<Rightarrow> node \<Rightarrow> int \<Rightarrow> string \<Rightarrow> (string \<rightharpoonup> string) \<Rightarrow> node" where
  "wrapWithSchemata original mutated mutantID returnType typeMap =
     (if is_Expr original then
        (if \<not> is_Expr mutated then original
         else wrapExprWithIf mutated original mutantID returnType typeMap)
      else if is_Stmt original then
        (if \<not> is_Stmt mutated then original
         else IfStmt 0 None (createMutantIDCondition mutantID) (block [mutated])
                (Some (block [original])))
      else mutated)"

text \<open>The type map of an enclosing function; \<open>nil\<close> (no function) answers no lookup.\<close>

definition funcTypeMap :: "node option \<Rightarrow> (string \<rightharpoonup> string)" where
  "funcTypeMap fn = (if fn = None then Map.empty else BuildTypeMap fn)"

definition applySingleMutant ::
  "node \<Rightarrow> MutantForSite \<Rightarrow> string \<Rightarrow> node option \<Rightarrow> node" where
  "applySingleMutant original m returnType file =
     (case ApplyOperator (msOp m) original returnType file (msEnclosingFunc m) of
        None \<Rightarrow> original
      | Some mutated \<Rightarrow>
          wrapWithSchemata original mutated (msID m) returnType (funcTypeMap (msEnclosingFunc m)))"

text \<open>The mutants of a list that apply to a node, with the replacement when it is an expression.\<close>

definition exprMutants ::
  "node \<Rightarrow> MutantForSite list \<Rightarrow> string \<Rightarrow> node option \<Rightarrow> (int \<times> node) list" where
  "exprMutants original mutants returnType file =
     List.map_filter (\<lambda>m.
       case ApplyOperator (msOp m) original returnType file (msEnclosingFunc m) of
         None \<Rightarrow> None
       | Some mutated \<Rightarrow> if is_Expr mutated then Some (msID m, mutated) else None) mutants"

text \<open>The first inferred type that is not empty, over the mutants and then the original.\<close>

fun firstType :: "(node \<Rightarrow> string) \<Rightarrow> (int \<times> node) list \<Rightarrow> node \<Rightarrow> string" where
  "firstType infer [] original = infer original"
| "firstType infer ((_, e) # ps) original =
     (if infer e \<noteq> '''' then infer e else firstType infer ps original)"

definition wrapExpressionMulti ::
  "node \<Rightarrow> MutantForSite list \<Rightarrow> string \<Rightarrow> node option \<Rightarrow> node" where
  "wrapExpressionMulti original mutants returnType file =
     (let typeMap = (case mutants of [] \<Rightarrow> Map.empty | m # _ \<Rightarrow> funcTypeMap (msEnclosingFunc m));
          pairs = exprMutants original mutants returnType file
      in if pairs = [] then original
         else closure
                (buildTypeExpr (firstType (\<lambda>e. inferExprType e returnType typeMap) pairs original))
                (map guardReturn pairs @ [ret [original]]))"

definition exprHandler :: "node \<Rightarrow> MutantForSite list \<Rightarrow> string \<Rightarrow> node option \<Rightarrow> node" where
  "exprHandler original mutants returnType file =
     (case mutants of
        [] \<Rightarrow> original
      | [m] \<Rightarrow> applySingleMutant original m returnType file
      | _ \<Rightarrow> wrapExpressionMulti original mutants returnType file)"

subsection \<open>Statements\<close>

definition buildIfElseChain :: "node \<Rightarrow> (int \<times> node) list \<Rightarrow> node" where
  "buildIfElseChain originalStmt pairs =
     (if pairs = [] then originalStmt
      else block [foldr (\<lambda>(mid, stmt) chain.
                    IfStmt 0 None (createMutantIDCondition mid) (block [stmt]) (Some chain))
                  pairs (block [originalStmt])])"

text \<open>
  \<open>extractMutated\<close> of \<open>WrapStatement\<close>, over all the mutants: applied without the enclosing
  function.
\<close>

definition stmtMutants ::
  "node \<Rightarrow> MutantForSite list \<Rightarrow> string \<Rightarrow> node option \<Rightarrow> (int \<times> node) list" where
  "stmtMutants original mutants returnType file =
     List.map_filter (\<lambda>m.
       case ApplyOperator (msOp m) original returnType file None of
         None \<Rightarrow> None
       | Some mutated \<Rightarrow> if is_Stmt mutated then Some (msID m, mutated) else None) mutants"

definition WrapStatement :: "node \<Rightarrow> MutantForSite list \<Rightarrow> string \<Rightarrow> node option \<Rightarrow> node" where
  "WrapStatement original mutants returnType file =
     (if mutants = [] then original
      else if \<not> is_Stmt original then original
      else buildIfElseChain original (stmtMutants original mutants returnType file))"

definition stmtHandler :: "node \<Rightarrow> MutantForSite list \<Rightarrow> string \<Rightarrow> node option \<Rightarrow> node" where
  "stmtHandler original mutants returnType file =
     (case mutants of
        [] \<Rightarrow> original
      | [m] \<Rightarrow> applySingleMutant original m returnType file
      | _ \<Rightarrow> WrapStatement original mutants returnType file)"

definition HandleRangeStmt :: "node \<Rightarrow> MutantForSite list \<Rightarrow> string \<Rightarrow> node option \<Rightarrow> node" where
  "HandleRangeStmt original mutants returnType file =
     (case mutants of
        [m] \<Rightarrow> applySingleMutant original m returnType file
      | _ \<Rightarrow> WrapStatement original mutants returnType file)"

definition HandleAssignStmt :: "node \<Rightarrow> MutantForSite list \<Rightarrow> string \<Rightarrow> node option \<Rightarrow> node" where
  "HandleAssignStmt original mutants returnType file =
     (case mutants of
        [m] \<Rightarrow> applySingleMutant original m returnType file
      | _ \<Rightarrow> WrapStatement original mutants returnType file)"

definition HandleDeferStmt :: "node \<Rightarrow> MutantForSite list \<Rightarrow> string \<Rightarrow> node option \<Rightarrow> node" where
  "HandleDeferStmt original mutants returnType file =
     (case mutants of
        [m] \<Rightarrow> applySingleMutant original m returnType file
      | _ \<Rightarrow> WrapStatement original mutants returnType file)"

subsection \<open>Case clauses\<close>

definition HandleCaseClause :: "node \<Rightarrow> MutantForSite list \<Rightarrow> string \<Rightarrow> node option \<Rightarrow> node" where
  "HandleCaseClause original mutants returnType0 file =
     (case as_CaseClause original of
        None \<Rightarrow> original
      | Some (p, cases, colon, body) \<Rightarrow>
          if length mutants \<noteq> 1 then original
          else
            let returnType = (if returnType0 = '''' then ''string'' else returnType0);
                zeroVal = GetZeroValueForType returnType;
                newBody = List.map_filter (\<lambda>m.
                  case ApplyOperator (msOp m) original returnType file None of
                    None \<Rightarrow> None
                  | Some mutated \<Rightarrow>
                      (case as_CaseClause mutated of
                         None \<Rightarrow> None
                       | Some (_, _, _, mbody) \<Rightarrow>
                           Some (IfStmt 0 None (createMutantIDCondition (msID m))
                             (block (if mbody = [] then [ret [zeroVal]] else mbody)) None)))
                  mutants
            in CaseClause p cases colon (newBody @ body))"

subsection \<open>Return statements\<close>

definition wrapReturnWithSchemata :: "node list \<Rightarrow> node \<Rightarrow> int \<Rightarrow> string \<Rightarrow> node" where
  "wrapReturnWithSchemata originalResults mutatedExpr mutantID returnType =
     (let typeExpr = (if returnType = '''' then Ident 0 ''interface{}'' else buildTypeExpr returnType)
      in ret [closure typeExpr [guardReturn (mutantID, mutatedExpr), ret originalResults]])"

text \<open>The first result of each mutant that applies, less the \<open>nil\<close>s the type cannot hold.\<close>

definition returnMutants ::
  "node \<Rightarrow> MutantForSite list \<Rightarrow> string \<Rightarrow> node option \<Rightarrow> (int \<times> node) list" where
  "returnMutants original mutants returnType file =
     List.map_filter (\<lambda>m.
       let mutReturnType = (if msReturnType m = '''' then returnType else msReturnType m) in
       case ApplyOperator (msOp m) original mutReturnType file (msEnclosingFunc m) of
         None \<Rightarrow> None
       | Some mutated \<Rightarrow>
           (case as_ReturnStmt mutated of
              Some (_, expr # _) \<Rightarrow>
                if isNilExpr expr \<and> \<not> isNilableType returnType then None
                else Some (msID m, expr)
            | _ \<Rightarrow> None)) mutants"

definition HandleReturnStmt :: "node \<Rightarrow> MutantForSite list \<Rightarrow> string \<Rightarrow> node option \<Rightarrow> node" where
  "HandleReturnStmt original mutants returnType file =
     (case as_ReturnStmt original of
        None \<Rightarrow> original
      | Some (_, results) \<Rightarrow>
          if results = [] then original
          else case mutants of
            [m] \<Rightarrow>
              (case ApplyOperator (msOp m) original returnType file (msEnclosingFunc m) of
                 None \<Rightarrow> original
               | Some mutated \<Rightarrow>
                   (case as_ReturnStmt mutated of
                      Some (_, expr # _) \<Rightarrow>
                        if isNilExpr expr \<and> \<not> isNilableType returnType then original
                        else wrapReturnWithSchemata results expr (msID m) returnType
                    | _ \<Rightarrow> mutated))
          | _ \<Rightarrow>
              (case returnMutants original mutants returnType file of
                 [] \<Rightarrow> original
               | [(mid, expr)] \<Rightarrow> wrapReturnWithSchemata results expr mid returnType
               | pairs \<Rightarrow>
                   ret [closure (buildTypeExpr returnType)
                          (map guardReturn pairs @ [ret [hd results]])]))"

subsection \<open>The handler of a node\<close>

definition GetHandler ::
  "node \<Rightarrow> (node \<Rightarrow> MutantForSite list \<Rightarrow> string \<Rightarrow> node option \<Rightarrow> node) option" where
  "GetHandler n = (case NodeTypeOf n of
     NTBinaryExpr \<Rightarrow> Some exprHandler
   | NTUnaryExpr \<Rightarrow> Some exprHandler
   | NTCallExpr \<Rightarrow> Some exprHandler
   | NTIdent \<Rightarrow> Some exprHandler
   | NTBasicLit \<Rightarrow> Some exprHandler
   | NTIfStmt \<Rightarrow> Some stmtHandler
   | NTForStmt \<Rightarrow> Some stmtHandler
   | NTBlockStmt \<Rightarrow> Some stmtHandler
   | NTBranchStmt \<Rightarrow> Some stmtHandler
   | NTIncDecStmt \<Rightarrow> Some stmtHandler
   | NTGoStmt \<Rightarrow> Some stmtHandler
   | NTSendStmt \<Rightarrow> Some stmtHandler
   | NTSwitchStmt \<Rightarrow> Some stmtHandler
   | NTTypeSwitchStmt \<Rightarrow> Some stmtHandler
   | NTSelectStmt \<Rightarrow> Some stmtHandler
   | NTCommClause \<Rightarrow> Some stmtHandler
   | NTLabeledStmt \<Rightarrow> Some stmtHandler
   | NTExprStmt \<Rightarrow> Some stmtHandler
   | NTDeclStmt \<Rightarrow> Some stmtHandler
   | NTErrStmt \<Rightarrow> Some stmtHandler
   | NTFuncDecl \<Rightarrow> Some stmtHandler
   | NTCaseClause \<Rightarrow> Some HandleCaseClause
   | NTRangeStmt \<Rightarrow> Some HandleRangeStmt
   | NTAssignStmt \<Rightarrow> Some HandleAssignStmt
   | NTDeferStmt \<Rightarrow> Some HandleDeferStmt
   | NTReturnStmt \<Rightarrow> Some HandleReturnStmt
   | NTUnknown \<Rightarrow> None)"

end
