(* ===== verification/OpProps.thy ===== *)
theory OpProps
  imports Registry
begin

text \<open>
  What the operators guarantee, over the operators as they are registered and applied:
  a mutant is a node of the same syntactic sort, a token flip undoes itself and inverts the
  comparison it replaces, a replaced variable has the type of the old one, an error return
  changes only its last result; and the operators that can never produce a mutant through
  \<open>ApplyOperator\<close>.
\<close>

subsection \<open>Sorts\<close>

definition sameSort :: "node \<Rightarrow> node \<Rightarrow> bool" where
  "sameSort n m \<longleftrightarrow> is_Expr n = is_Expr m \<and> is_Stmt n = is_Stmt m"

definition opMutate :: "operator \<Rightarrow> node \<Rightarrow> Context \<Rightarrow> node option" where
  "opMutate op n ctx = (case Contextual op of Some (_, mwc) \<Rightarrow> mwc n ctx | None \<Rightarrow> Mutate op n)"

lemma ApplyOperator_opMutate:
  "ApplyOperator op n rt f fn =
     opMutate op n (emptyContext\<lparr>ReturnType := rt, CtxFile := f, EnclosingFunc := fn\<rparr>)"
  by (simp add: ApplyOperator_def opMutate_def Let_def)

text \<open>
  The contract the code that splices mutants relies on: the names identify the operators,
  an expression is replaced by an expression and a statement by a statement.
\<close>

locale operator_family =
  fixes ops :: "operator list"
  assumes distinct_names: "distinct (map OpName ops)"
    and same_sort: "op \<in> set ops \<Longrightarrow> opMutate op n ctx = Some m \<Longrightarrow> sameSort n m"
begin

lemma apply_expr:
  "op \<in> set ops \<Longrightarrow> ApplyOperator op n rt f fn = Some m \<Longrightarrow> is_Expr m \<longleftrightarrow> is_Expr n"
  using same_sort unfolding ApplyOperator_opMutate sameSort_def by blast

lemma apply_stmt:
  "op \<in> set ops \<Longrightarrow> ApplyOperator op n rt f fn = Some m \<Longrightarrow> is_Stmt m \<longleftrightarrow> is_Stmt n"
  using same_sort unfolding ApplyOperator_opMutate sameSort_def by blast

lemma by_name: "op \<in> set ops \<Longrightarrow> op' \<in> set ops \<Longrightarrow> OpName op = OpName op' \<Longrightarrow> op = op'"
  using distinct_names by (auto simp: distinct_map dest: inj_onD)

end

lemma opMutate_plain [simp]: "opMutate (plainOperator nm ca mu) n ctx = mu n"
  by (simp add: opMutate_def plainOperator_def)

lemma opMutate_contextual [simp]: "opMutate (contextualOperator nm ca mu cac mwc) n ctx = mwc n ctx"
  by (simp add: opMutate_def contextualOperator_def)

lemma opMutate_TypeAware [simp]: "opMutate (op\<lparr>TypeAware := b\<rparr>) n ctx = opMutate op n ctx"
  by (cases "Contextual op") (simp_all add: opMutate_def case_prod_beta)

lemma opMutate_AlwaysInvalid [simp]: "opMutate (op\<lparr>AlwaysInvalid := b\<rparr>) n ctx = opMutate op n ctx"
  by (cases "Contextual op") (simp_all add: opMutate_def case_prod_beta)

named_theorems sorts \<open>sort preservation of the single mutators\<close>

lemma sort_flip [sorts]: "flipBinary pairs n = Some m \<Longrightarrow> sameSort n m"
  by (auto simp: flipBinary_Some sameSort_def is_Expr_def is_Stmt_def)

lemma sort_sign [sorts]: "SignToggle_Mutate n = Some m \<Longrightarrow> sameSort n m"
  by (auto simp: SignToggle_Mutate_def as_UnaryExpr_Some sameSort_def is_Expr_def is_Stmt_def
           split: option.splits)

lemma sort_lit: "mutateBasicLit n = Some m \<Longrightarrow> sameSort n m"
  by (auto simp: mutateBasicLit_def as_BasicLit_Some sameSort_def is_Expr_def is_Stmt_def
           split: option.splits if_splits)

lemma sort_const [sorts]: "ConstantReplacement_MutateWithContext n ctx = Some m \<Longrightarrow> sameSort n m"
  by (auto simp: ConstantReplacement_MutateWithContext_def ConstantReplacement_Mutate_def
           intro: sort_lit split: if_splits)

lemma replaceable_Some:
  "replaceable n ctx = Some (p, x, t) \<longleftrightarrow>
     n = Ident p x \<and> x \<noteq> ''_'' \<and> EnclosingFunc ctx \<noteq> None \<and>
     \<not> isExcludedParent n (Parent ctx) \<and> BuildTypeMap (EnclosingFunc ctx) x = Some t \<and> t \<noteq> ''''"
  by (auto simp: replaceable_def as_Ident_Some split: option.splits if_splits)

lemma sort_var [sorts]: "VariableReplacement_MutateWithContext n ctx = Some m \<Longrightarrow> sameSort n m"
  by (auto simp: VariableReplacement_MutateWithContext_def replaceable_Some sameSort_def Let_def
                 is_Expr_def is_Stmt_def split: option.splits if_splits)

lemma sort_assign [sorts]: "AssignmentOperator_Mutate n = Some m \<Longrightarrow> sameSort n m"
  by (auto simp: AssignmentOperator_Mutate_def as_AssignStmt_Some sameSort_def is_Expr_def
                 is_Stmt_def split: option.splits)

lemma sort_incdec [sorts]: "IncDecFlip_Mutate n = Some m \<Longrightarrow> sameSort n m"
  by (auto simp: IncDecFlip_Mutate_def as_IncDecStmt_Some sameSort_def is_Expr_def is_Stmt_def
           split: option.splits)

lemma sort_cond [sorts]: "conditionMutator_Mutate t r n = Some m \<Longrightarrow> sameSort n m"
  by (auto simp: conditionMutator_Mutate_def as_IfStmt_Some as_ForStmt_Some sameSort_def
                 is_Expr_def is_Stmt_def split: condNode.splits option.splits)

lemma sort_negate [sorts]: "NegateCondition_MutateWithContext n ctx = Some m \<Longrightarrow> sameSort n m"
  by (auto simp: NegateCondition_MutateWithContext_def as_IfStmt_Some sameSort_def is_Expr_def
                 is_Stmt_def split: option.splits if_splits)

lemma sort_loopbody [sorts]: "LoopBodyRemoval_MutateWithContext n ctx = Some m \<Longrightarrow> sameSort n m"
  by (cases n) (auto simp: LoopBodyRemoval_MutateWithContext_def sameSort_def is_Expr_def is_Stmt_def)

lemma sort_breakfirst [sorts]: "LoopBreakFirst_MutateWithContext n ctx = Some m \<Longrightarrow> sameSort n m"
  by (cases n) (auto simp: LoopBreakFirst_MutateWithContext_def sameSort_def is_Expr_def is_Stmt_def)

lemma emptyStmt_sort [simp]: "is_Expr emptyStmt = False" "is_Stmt emptyStmt = True"
  by (simp_all add: emptyStmt_def is_Expr_def is_Stmt_def)

lemma sort_breakrem [sorts]: "LoopBreakRemoval_MutateWithContext n ctx = Some m \<Longrightarrow> sameSort n m"
  by (auto simp: LoopBreakRemoval_MutateWithContext_def as_BranchStmt_Some sameSort_def
                 is_Expr_def is_Stmt_def emptyStmt_def split: option.splits if_splits)

lemma sort_call [sorts]: "FunctionCallRemoval_Mutate n = Some m \<Longrightarrow> sameSort n m"
  by (auto simp: FunctionCallRemoval_Mutate_def as_ExprStmt_Some sameSort_def
                 is_Expr_def is_Stmt_def emptyStmt_def split: option.splits if_splits)

lemma sort_defer [sorts]: "DeferRemoval_MutateWithContext n ctx = Some m \<Longrightarrow> sameSort n m"
  by (auto simp: DeferRemoval_MutateWithContext_def as_DeferStmt_Some sameSort_def
                 is_Expr_def is_Stmt_def emptyStmt_def split: if_splits)

lemma sort_go [sorts]: "GoroutineRemoval_MutateWithContext n ctx = Some m \<Longrightarrow> sameSort n m"
  by (auto simp: GoroutineRemoval_MutateWithContext_def as_GoStmt_Some sameSort_def
                 is_Expr_def is_Stmt_def split: option.splits)

lemma PanicRemoval_Some:
  "PanicRemoval_MutateWithContext n ctx = Some m \<Longrightarrow> as_ExprStmt n \<noteq> None \<and> m = emptyStmt"
  by (cases n) (auto simp: PanicRemoval_MutateWithContext_def split: node.splits if_splits)

lemma sort_panic [sorts]: "PanicRemoval_MutateWithContext n ctx = Some m \<Longrightarrow> sameSort n m"
  by (drule PanicRemoval_Some)
     (auto simp: as_ExprStmt_Some sameSort_def is_Expr_def is_Stmt_def emptyStmt_def)

lemma sort_errcheck [sorts]: "ErrorCheckRemoval_MutateWithContext n ctx = Some m \<Longrightarrow> sameSort n m"
  by (cases n) (auto simp: ErrorCheckRemoval_MutateWithContext_def isErrNotNilCheck_def sameSort_def
                           is_Expr_def is_Stmt_def emptyStmt_def split: if_splits)

lemma sort_nilcheck [sorts]: "NilCheckRemoval_MutateWithContext n ctx = Some m \<Longrightarrow> sameSort n m"
  by (auto simp: NilCheckRemoval_MutateWithContext_def as_IfStmt_Some sameSort_def
                 is_Expr_def is_Stmt_def split: option.splits if_splits)

lemma sort_early [sorts]: "EarlyReturnRemoval_MutateWithContext n ctx = Some m \<Longrightarrow> sameSort n m"
  by (auto simp: EarlyReturnRemoval_MutateWithContext_def as_ReturnStmt_Some sameSort_def
                 is_Expr_def is_Stmt_def split: option.splits if_splits)

lemma sort_swap [sorts]: "SwapCaseBodies_MutateWithContext n ctx = Some m \<Longrightarrow> sameSort n m"
  by (auto simp: SwapCaseBodies_MutateWithContext_def as_CaseClause_Some sameSort_def Let_def
                 is_Expr_def is_Stmt_def split: option.splits if_splits)

lemma sort_remdef [sorts]: "SwitchRemoveDefault_Mutate n = Some m \<Longrightarrow> sameSort n m"
  by (auto simp: SwitchRemoveDefault_Mutate_def as_CaseClause_Some sameSort_def
                 is_Expr_def is_Stmt_def split: option.splits)

lemma EmptyBody_Some:
  "EmptyBody_MutateWithContext n ctx = Some m \<Longrightarrow>
     (\<exists>d r nm t l ss q. n = FuncDecl d r nm t (Some (BlockStmt l ss q)) \<and>
        m = FuncDecl d r nm t (Some (BlockStmt l [] q)) \<and> EmptyBody_CanApplyWithContext n ctx)"
  by (auto simp: EmptyBody_MutateWithContext_def
           split: node.split_asm option.split_asm if_split_asm)

lemma sort_empty [sorts]: "EmptyBody_MutateWithContext n ctx = Some m \<Longrightarrow> sameSort n m"
  by (auto dest!: EmptyBody_Some simp: sameSort_def is_Expr_def is_Stmt_def)

lemma sort_zero [sorts]: "zeroValueReturn_MutateWithContext b n ctx = Some m \<Longrightarrow> sameSort n m"
  by (auto simp: zeroValueReturn_MutateWithContext_def IsReturnStmtWithResults_Some sameSort_def
                 is_Expr_def is_Stmt_def split: option.splits if_splits)

lemma sort_nil [sorts]: "returnNilMutate n = Some m \<Longrightarrow> sameSort n m"
  by (auto simp: returnNilMutate_def as_ReturnStmt_Some sameSort_def is_Expr_def is_Stmt_def
           split: option.splits if_splits)

lemma sort_errnil [sorts]: "ErrorReturnNil_MutateWithContext n ctx = Some m \<Longrightarrow> sameSort n m"
  by (auto simp: ErrorReturnNil_MutateWithContext_def IsReturnStmtWithResults_Some sameSort_def
                 is_Expr_def is_Stmt_def split: option.splits if_splits)

lemmas operator_wrappers =
  ArithmeticFlip_Mutate_def BoundaryValue_Mutate_def ConditionNegation_Mutate_def
  LogicalOperator_Mutate_def BinaryMath_Mutate_def InterfaceReturns_MutateWithContext_def
  SliceReturns_MutateWithContext_def

lemma opMutate_sort:
  assumes "op \<in> set allOperators" "opMutate op n ctx = Some m"
  shows "sameSort n m"
  using assms
  unfolding allOperators_def
  by (auto simp: ArithmeticFlip_def AssignmentOperator_def BoundaryValue_def GoroutineRemoval_def
    ConditionNegation_def ForConditionFalse_def ForConditionTrue_def IfConditionFalse_def
    IfConditionTrue_def ConstantReplacement_def PanicRemoval_def DeferRemoval_def
    EarlyReturnRemoval_def EmptyBody_def ErrorCheckRemoval_def ErrorReturnNil_def
    NilCheckRemoval_def FunctionCallRemoval_def IncDecFlip_def LogicalOperator_def
    LoopBodyRemoval_def LoopBreakFirst_def LoopBreakRemoval_def BinaryMath_def
    NegateCondition_def ChannelReturns_def InterfaceReturns_def MapReturns_def
    PointerReturns_def SliceReturns_def SignToggle_def SwapCaseBodies_def
    SwitchRemoveDefault_def VariableReplacement_def ZeroValueReturnNumeric_def
    ZeroValueReturnString_def ZeroValueReturnBool_def ZeroValueReturnError_def
    buildConditionMutator_def zeroValueReturnOperator_def operator_wrappers dest: sorts)

interpretation gorgon: operator_family allOperators
  by unfold_locales (use allNames_distinct opMutate_sort in \<open>auto simp: allNames_def\<close>)

subsection \<open>Applicability\<close>

definition opCanApply :: "operator \<Rightarrow> node \<Rightarrow> Context \<Rightarrow> bool" where
  "opCanApply op n ctx = (case Contextual op of Some (cac, _) \<Rightarrow> cac n ctx | None \<Rightarrow> CanApply op n)"

lemma opCanApply_plain [simp]: "opCanApply (plainOperator nm ca mu) n ctx = ca n"
  by (simp add: opCanApply_def plainOperator_def)

lemma opCanApply_contextual [simp]: "opCanApply (contextualOperator nm ca mu cac mwc) n ctx = cac n ctx"
  by (simp add: opCanApply_def contextualOperator_def)

lemma opCanApply_TypeAware [simp]: "opCanApply (op\<lparr>TypeAware := b\<rparr>) n ctx = opCanApply op n ctx"
  by (cases "Contextual op") (simp_all add: opCanApply_def case_prod_beta)

lemma opCanApply_AlwaysInvalid [simp]:
  "opCanApply (op\<lparr>AlwaysInvalid := b\<rparr>) n ctx = opCanApply op n ctx"
  by (cases "Contextual op") (simp_all add: opCanApply_def case_prod_beta)

lemma OpName_simps [simp]:
  "OpName (plainOperator nm ca mu) = nm"
  "OpName (contextualOperator nm ca mu cac mwc) = nm"
  by (simp_all add: plainOperator_def contextualOperator_def)

lemma OpName_LoopBreakFirst [simp]: "OpName LoopBreakFirst = ''loop_break_first''"
  by (simp add: LoopBreakFirst_def)

lemma OpName_SwapCaseBodies [simp]: "OpName SwapCaseBodies = ''swap_case_bodies''"
  by (simp add: SwapCaseBodies_def)

lemma OpName_VariableReplacement [simp]: "OpName VariableReplacement = ''variable_replacement''"
  by (simp add: VariableReplacement_def)

named_theorems applies \<open>an applicable operator yields a mutant\<close>

lemma ap_arith [applies]: "ArithmeticFlip_CanApply n \<Longrightarrow> flipBinary ArithmeticFlipPairs n \<noteq> None"
  using arith.accepted_mutates [of n]
  by (auto simp: ArithmeticFlip_CanApply_def acceptBinary_def split: option.splits if_splits)

lemma ap_bound [applies]: "BoundaryValue_CanApply n \<Longrightarrow> flipBinary BoundaryValuePairs n \<noteq> None"
  by (simp add: BoundaryValue_CanApply_def boundary.accepted_mutates)

lemma ap_neg [applies]: "ConditionNegation_CanApply n \<Longrightarrow> flipBinary ComparisonNegationPairs n \<noteq> None"
  by (simp add: ConditionNegation_CanApply_def cmpneg.accepted_mutates)

lemma ap_logical [applies]: "LogicalOperator_CanApply n \<Longrightarrow> flipBinary LogicalOperatorPairs n \<noteq> None"
  by (simp add: LogicalOperator_CanApply_def logical.accepted_mutates)

lemma ap_binmath [applies]: "BinaryMath_CanApply n \<Longrightarrow> flipBinary BinaryMathPairs n \<noteq> None"
  by (simp add: BinaryMath_CanApply_def binmath.accepted_mutates)

lemma ap_sign [applies]: "SignToggle_CanApply n \<Longrightarrow> SignToggle_Mutate n \<noteq> None"
  using sign.accepted_iff
  by (auto simp: SignToggle_CanApply_def SignToggle_Mutate_def split: option.splits)

lemma ap_incdec [applies]: "IncDecFlip_CanApply n \<Longrightarrow> IncDecFlip_Mutate n \<noteq> None"
  using incdec.accepted_iff
  by (auto simp: IncDecFlip_CanApply_def IncDecFlip_Mutate_def split: option.splits)

lemma ap_assign [applies]:
  assumes "AssignmentOperator_CanApply n" shows "AssignmentOperator_Mutate n \<noteq> None"
proof -
  from assms obtain x p tok y where "n = AssignStmt [x] p tok [y]"
    and "tok = T_ASSIGN \<or> tok \<in> {T_ADD_ASSIGN, T_SUB_ASSIGN, T_MUL_ASSIGN, T_QUO_ASSIGN}"
    by (cases n) (auto simp: AssignmentOperator_CanApply_def split: list.splits if_splits)
  then show ?thesis by (auto simp: AssignmentOperator_Mutate_def assignFlip_def)
qed

lemma ap_cond: "conditionMutator_CanApply t n \<Longrightarrow> \<exists>m. conditionMutator_Mutate t r n = Some m"
  by (cases n; cases t)
     (auto simp: conditionMutator_CanApply_def conditionMutator_Mutate_def as_IfStmt_def
        as_ForStmt_def split: option.splits)

lemma ap_const [applies]: "ConstantReplacement_CanApplyWithContext n ctx \<Longrightarrow>
    ConstantReplacement_MutateWithContext n ctx \<noteq> None"
proof -
  assume can: "ConstantReplacement_CanApplyWithContext n ctx"
  then obtain p k v where n: "n = BasicLit p k v"
    by (cases "as_BasicLit n")
       (auto simp: ConstantReplacement_CanApplyWithContext_def as_BasicLit_Some)
  have "isSafeLiteral n"
    using can by (cases "Parent ctx"; cases "the (Parent ctx)")
      (auto simp: ConstantReplacement_CanApplyWithContext_def split: if_splits)
  with can n show ?thesis
    by (auto simp: ConstantReplacement_MutateWithContext_def ConstantReplacement_Mutate_def
                   isSafeLiteral_def mutateBasicLit_def)
qed

lemma ap_negate [applies]: "NegateCondition_CanApplyWithContext n ctx \<Longrightarrow>
    NegateCondition_MutateWithContext n ctx \<noteq> None"
  by (auto simp: NegateCondition_CanApplyWithContext_def NegateCondition_MutateWithContext_def
           split: option.splits)

lemma ap_loopbody [applies]: "isLoop n ctx \<Longrightarrow> LoopBodyRemoval_MutateWithContext n ctx \<noteq> None"
  by (cases n) (auto simp: isLoop_def LoopBodyRemoval_MutateWithContext_def as_ForStmt_def as_RangeStmt_def)

lemma ap_breakrem [applies]: "LoopBreakRemoval_CanApplyWithContext n ctx \<Longrightarrow>
    LoopBreakRemoval_MutateWithContext n ctx \<noteq> None"
  by (auto simp: LoopBreakRemoval_CanApplyWithContext_def LoopBreakRemoval_MutateWithContext_def
           split: option.splits)

lemma ap_call [applies]: "FunctionCallRemoval_CanApply n \<Longrightarrow> FunctionCallRemoval_Mutate n \<noteq> None"
  by (auto simp: FunctionCallRemoval_CanApply_def FunctionCallRemoval_Mutate_def
           split: option.splits)

lemma ap_defer [applies]: "DeferRemoval_CanApplyWithContext n ctx \<Longrightarrow>
    DeferRemoval_MutateWithContext n ctx \<noteq> None"
  by (simp add: DeferRemoval_CanApplyWithContext_def DeferRemoval_MutateWithContext_def)

lemma ap_go [applies]: "GoroutineRemoval_CanApplyWithContext n ctx \<Longrightarrow>
    GoroutineRemoval_MutateWithContext n ctx \<noteq> None"
  by (auto simp: GoroutineRemoval_CanApplyWithContext_def GoroutineRemoval_MutateWithContext_def)

lemma ap_panic [applies]: "PanicRemoval_CanApplyWithContext n ctx \<Longrightarrow>
    PanicRemoval_MutateWithContext n ctx \<noteq> None"
  by (auto simp: PanicRemoval_CanApplyWithContext_def PanicRemoval_MutateWithContext_def
           split: node.split_asm)

lemma ap_errcheck [applies]: "ErrorCheckRemoval_CanApplyWithContext n ctx \<Longrightarrow>
    ErrorCheckRemoval_MutateWithContext n ctx \<noteq> None"
  by (simp add: ErrorCheckRemoval_CanApplyWithContext_def ErrorCheckRemoval_MutateWithContext_def)

lemma ap_nilcheck [applies]: "NilCheckRemoval_CanApplyWithContext n ctx \<Longrightarrow>
    NilCheckRemoval_MutateWithContext n ctx \<noteq> None"
  by (cases n) (auto simp: NilCheckRemoval_CanApplyWithContext_def isSimpleNilCheck_def
                  NilCheckRemoval_MutateWithContext_def)

lemma ap_early [applies]: "EarlyReturnRemoval_CanApplyWithContext n ctx \<Longrightarrow>
    EarlyReturnRemoval_MutateWithContext n ctx \<noteq> None"
  by (auto simp: EarlyReturnRemoval_CanApplyWithContext_def EarlyReturnRemoval_MutateWithContext_def
           split: option.splits if_splits)

lemma ap_remdef [applies]: "SwitchRemoveDefault_CanApply n \<Longrightarrow> SwitchRemoveDefault_Mutate n \<noteq> None"
  by (auto simp: SwitchRemoveDefault_CanApply_def SwitchRemoveDefault_Mutate_def
           split: option.splits)

lemma blockList_nonempty: "blockList b \<noteq> [] \<Longrightarrow> \<exists>l ss r. b = BlockStmt l ss r"
  by (cases b) (auto simp: blockList_def)

lemma ap_empty [applies]: "EmptyBody_CanApplyWithContext n ctx \<Longrightarrow>
    EmptyBody_MutateWithContext n ctx \<noteq> None"
proof -
  assume can: "EmptyBody_CanApplyWithContext n ctx"
  then obtain d r nm t b where n: "n = FuncDecl d r nm t (Some b)" "blockList b \<noteq> []"
    by (auto simp: EmptyBody_CanApplyWithContext_def
             split: node.split_asm option.split_asm if_split_asm)
  with blockList_nonempty can show ?thesis
    by (fastforce simp: EmptyBody_MutateWithContext_def)
qed

lemma ap_zero [applies]: "zeroValueReturn_CanApplyWithContext b n ctx \<Longrightarrow>
    zeroValueReturn_MutateWithContext b n ctx \<noteq> None"
  by (auto simp: zeroValueReturn_CanApplyWithContext_def zeroValueReturn_MutateWithContext_def
           split: option.splits if_splits)

lemma firstResult_nil: "firstResult P n \<Longrightarrow> returnNilMutate n \<noteq> None"
  by (auto simp: firstResult_def returnNilMutate_def split: option.splits list.splits)

lemmas applies_nil [applies] =
  firstResult_nil [of isMakeChan, folded ChannelReturns_CanApply_def]
  firstResult_nil [of isMapLiteral, folded MapReturns_CanApply_def]
  firstResult_nil [of isAddressOf, folded PointerReturns_CanApply_def]

lemma ap_slice [applies]: "SliceReturns_CanApplyWithContext n ctx \<Longrightarrow> returnNilMutate n \<noteq> None"
  unfolding SliceReturns_CanApplyWithContext_def by (rule firstResult_nil)

lemma ap_interface [applies]: "InterfaceReturns_CanApplyWithContext n ctx \<Longrightarrow> returnNilMutate n \<noteq> None"
  unfolding InterfaceReturns_CanApplyWithContext_def by (rule firstResult_nil)

lemma ap_errnil [applies]: "ErrorReturnNil_CanApplyWithContext n ctx \<Longrightarrow>
    ErrorReturnNil_MutateWithContext n ctx \<noteq> None"
  by (auto simp: ErrorReturnNil_CanApplyWithContext_def ErrorReturnNil_MutateWithContext_def
           split: option.splits if_splits)

lemma opCanApply_mutates:
  assumes "op \<in> set allOperators" "opCanApply op n ctx"
    and "OpName op \<notin> {''loop_break_first'', ''swap_case_bodies'', ''variable_replacement''}"
  shows "opMutate op n ctx \<noteq> None"
  using assms
  unfolding allOperators_def
  by (auto simp: ArithmeticFlip_def AssignmentOperator_def BoundaryValue_def GoroutineRemoval_def
    ConditionNegation_def ForConditionFalse_def ForConditionTrue_def IfConditionFalse_def
    IfConditionTrue_def ConstantReplacement_def PanicRemoval_def DeferRemoval_def
    EarlyReturnRemoval_def EmptyBody_def ErrorCheckRemoval_def ErrorReturnNil_def
    NilCheckRemoval_def FunctionCallRemoval_def IncDecFlip_def LogicalOperator_def
    LoopBodyRemoval_def LoopBreakRemoval_def BinaryMath_def
    NegateCondition_def ChannelReturns_def InterfaceReturns_def MapReturns_def
    PointerReturns_def SliceReturns_def SignToggle_def
    SwitchRemoveDefault_def ZeroValueReturnNumeric_def
    ZeroValueReturnString_def ZeroValueReturnBool_def ZeroValueReturnError_def
    buildConditionMutator_def zeroValueReturnOperator_def operator_wrappers
    dest: applies intro: ap_cond)

subsection \<open>Properties\<close>

text \<open>
  C26. A mutant has the syntactic sort of the node it replaces: whatever operator of the
  registry is applied to whatever node, an expression becomes an expression and a statement
  a statement. The code that splices mutants into the file relies on it.
\<close>

theorem mutants_keep_sort:
  assumes "op \<in> set allOperators" "ApplyOperator op n rt file fn = Some m"
  shows "(is_Expr m \<longleftrightarrow> is_Expr n) \<and> (is_Stmt m \<longleftrightarrow> is_Stmt n)"
  using gorgon.apply_expr [OF assms] gorgon.apply_stmt [OF assms] by blast

theorem mutants_keep_sort_witness:
  "is_Expr (BinaryExpr (Ident 1 ''a'') 0 T_SUB (Ident 5 ''b''))"
proof -
  have "ApplyOperator ArithmeticFlip (BinaryExpr (Ident 1 ''a'') 3 T_ADD (Ident 5 ''b'')) ''int'' None None
      = Some (BinaryExpr (Ident 1 ''a'') 0 T_SUB (Ident 5 ''b''))"
    by (simp add: ApplyOperator_opMutate ArithmeticFlip_def ArithmeticFlip_Mutate_def
          flipBinary_def SwapBinaryToken_def ArithmeticFlipPairs_def)
  from mutants_keep_sort [OF _ this] show ?thesis
    by (simp add: allOperators_def is_Expr_def)
qed

text \<open>
  C27. An operator that declares itself applicable at a node in a context does produce a
  mutant there, for every operator but three: \<open>loop_break_first\<close> (empty body),
  \<open>swap_case_bodies\<close> (no sibling with a body) and \<open>variable_replacement\<close>.
\<close>

theorem applicable_operators_mutate:
  assumes "op \<in> set allOperators" "opCanApply op n ctx"
    and "OpName op \<notin> {''loop_break_first'', ''swap_case_bodies'', ''variable_replacement''}"
  shows "\<exists>m. opMutate op n ctx = Some m"
  using opCanApply_mutates [OF assms] by blast

theorem applicable_operators_mutate_witness:
  "\<exists>m. opMutate DeferRemoval (DeferStmt 3 (CallExpr (Ident 9 ''f'') 10 [] 0 11)) emptyContext = Some m"
  by (rule applicable_operators_mutate)
     (simp_all add: allOperators_def DeferRemoval_def DeferRemoval_CanApplyWithContext_def)

text \<open>
  Three operators are dead code: \<open>constant_replacement\<close> and \<open>early_return_removal\<close> need
  the parent node, which \<open>ApplyOperator\<close> never passes, so they yield no mutant at any node;
  and \<open>loop_break_removal\<close> asks for the token \<open>ILLEGAL\<close>, so no \<open>break\<close> is ever removed.
\<close>

theorem dead_operators:
  "ApplyOperator ConstantReplacement n rt file fn = None \<and>
   ApplyOperator EarlyReturnRemoval n rt file fn = None \<and>
   ApplyOperator LoopBreakRemoval (BranchStmt p T_BREAK lbl) rt file fn = None"
  by (simp add: ApplyOperator_opMutate ConstantReplacement_def EarlyReturnRemoval_def
        LoopBreakRemoval_def emptyContext_def
        ConstantReplacement_MutateWithContext_def ConstantReplacement_CanApplyWithContext_def
        EarlyReturnRemoval_MutateWithContext_def IsInsideIfStmt_def
        LoopBreakRemoval_MutateWithContext_def split: option.split)

text \<open>
  \<open>condition_negation\<close> negates: the mutant of a comparison is the comparison of the same
  operands that holds, on integers, exactly where the original does not.
\<close>

theorem condition_negation_negates:
  assumes "ApplyOperator ConditionNegation n rt file fn = Some m"
  shows "\<exists>x p op y q r s. n = BinaryExpr x p op y \<and> m = BinaryExpr x 0 q y \<and>
           cmp_sem op = Some r \<and> cmp_sem q = Some s \<and> (\<forall>a b. s a b = (\<not> r a b))"
proof -
  from assms have "flipBinary ComparisonNegationPairs n = Some m"
    by (simp add: ApplyOperator_opMutate ConditionNegation_def ConditionNegation_Mutate_def)
  then obtain x p op y q where n: "n = BinaryExpr x p op y"
    and q: "SwapBinaryToken op ComparisonNegationPairs = Some q" and m: "m = BinaryExpr x 0 q y"
    unfolding flipBinary_Some by blast
  with negation_negates [OF q] show ?thesis by blast
qed

theorem condition_negation_negates_witness:
  "\<exists>x p op y q r s. BinaryExpr (Ident 1 ''a'') 3 T_LSS (Ident 5 ''b'') = BinaryExpr x p op y \<and>
     BinaryExpr (Ident 1 ''a'') 0 T_GEQ (Ident 5 ''b'') = BinaryExpr x 0 q y \<and>
     cmp_sem op = Some r \<and> cmp_sem q = Some s \<and> (\<forall>a b. s a b = (\<not> r a b))"
  by (rule condition_negation_negates [of _ "''bool''" None None])
     (simp add: ApplyOperator_opMutate ConditionNegation_def ConditionNegation_Mutate_def
        flipBinary_def SwapBinaryToken_def ComparisonNegationPairs_def)

text \<open>
  \<open>boundary_value\<close> moves the boundary and nothing else: original and mutant disagree on
  two integers exactly when they are equal.
\<close>

theorem boundary_value_differs_at_equality:
  assumes "ApplyOperator BoundaryValue n rt file fn = Some m"
  shows "\<exists>x p op y q r s. n = BinaryExpr x p op y \<and> m = BinaryExpr x 0 q y \<and>
           cmp_sem op = Some r \<and> cmp_sem q = Some s \<and> (\<forall>a b. (s a b \<noteq> r a b) = (a = b))"
proof -
  from assms have "flipBinary BoundaryValuePairs n = Some m"
    by (simp add: ApplyOperator_opMutate BoundaryValue_def BoundaryValue_Mutate_def)
  then obtain x p op y q where n: "n = BinaryExpr x p op y"
    and q: "SwapBinaryToken op BoundaryValuePairs = Some q" and m: "m = BinaryExpr x 0 q y"
    unfolding flipBinary_Some by blast
  with boundary_at_equality [OF q] show ?thesis by blast
qed

theorem boundary_value_differs_at_equality_witness:
  "\<exists>x p op y q r s. BinaryExpr (Ident 1 ''a'') 3 T_LSS (Ident 5 ''b'') = BinaryExpr x p op y \<and>
     BinaryExpr (Ident 1 ''a'') 0 T_LEQ (Ident 5 ''b'') = BinaryExpr x 0 q y \<and>
     cmp_sem op = Some r \<and> cmp_sem q = Some s \<and> (\<forall>a b. (s a b \<noteq> r a b) = (a = b))"
  by (rule boundary_value_differs_at_equality [of _ "''bool''" None None])
     (simp add: ApplyOperator_opMutate BoundaryValue_def BoundaryValue_Mutate_def
        flipBinary_def SwapBinaryToken_def BoundaryValuePairs_def)

text \<open>
  The flips of arithmetic, comparison, boundary and logical operators undo themselves:
  applying the operator to its own mutant gives back the original node, up to the position
  of the operator token.
\<close>

theorem flips_undo_themselves:
  assumes "op \<in> {ArithmeticFlip, ConditionNegation, BoundaryValue, LogicalOperator}"
    and "ApplyOperator op n rt file fn = Some m"
  shows "\<exists>x p t y. n = BinaryExpr x p t y \<and>
           ApplyOperator op m rt file fn = Some (BinaryExpr x 0 t y)"
proof -
  note wrap = ApplyOperator_opMutate ArithmeticFlip_def ConditionNegation_def BoundaryValue_def
    LogicalOperator_def ArithmeticFlip_Mutate_def ConditionNegation_Mutate_def
    BoundaryValue_Mutate_def LogicalOperator_Mutate_def
  from assms(1) consider "op = ArithmeticFlip" | "op = ConditionNegation" | "op = BoundaryValue"
    | "op = LogicalOperator" by auto
  then show ?thesis
    using assms(2) arith.flip_flip cmpneg.flip_flip boundary.flip_flip logical.flip_flip
    by cases (simp_all add: wrap)
qed

theorem flips_undo_themselves_witness:
  "ApplyOperator LogicalOperator (BinaryExpr (Ident 1 ''a'') 0 T_LOR (Ident 6 ''b'')) ''bool'' None None
     = Some (BinaryExpr (Ident 1 ''a'') 0 T_LAND (Ident 6 ''b''))"
proof -
  have "ApplyOperator LogicalOperator (BinaryExpr (Ident 1 ''a'') 3 T_LAND (Ident 6 ''b'')) ''bool'' None None
     = Some (BinaryExpr (Ident 1 ''a'') 0 T_LOR (Ident 6 ''b''))"
    by (simp add: ApplyOperator_opMutate LogicalOperator_def LogicalOperator_Mutate_def
          flipBinary_def SwapBinaryToken_def LogicalOperatorPairs_def)
  from flips_undo_themselves [OF _ this] show ?thesis by simp
qed

text \<open>
  \<open>variable_replacement\<close> keeps the program typed: the identifier it puts in has another
  name, is declared in the enclosing function, and has there the same non-opaque type string
  that the function's type map gives the identifier it replaces.
\<close>

theorem variable_replacement_keeps_type:
  assumes "ApplyOperator VariableReplacement n rt file fn = Some m"
  shows "\<exists>p x y t. n = Ident p x \<and> m = Ident p y \<and> y \<noteq> x \<and>
           BuildTypeMap fn x = Some t \<and> \<lparr>VName = y, VType = t\<rparr> \<in> set (CollectVars fn) \<and>
           t \<notin> {'''', ''func:opaque'', ''interface{}''}"
proof -
  define ctx where "ctx = emptyContext\<lparr>ReturnType := rt, CtxFile := file, EnclosingFunc := fn\<rparr>"
  have fn: "EnclosingFunc ctx = fn" by (simp add: ctx_def)
  from assms have "VariableReplacement_MutateWithContext n ctx = Some m"
    by (simp add: ApplyOperator_opMutate VariableReplacement_def ctx_def)
  then obtain p x t where r: "replaceable n ctx = Some (p, x, t)"
    and m: "m = Ident p (VName (FindCompatibleVar (CollectVars fn) x t))"
    and ne: "VName (FindCompatibleVar (CollectVars fn) x t) \<noteq> ''''"
    by (auto simp: VariableReplacement_MutateWithContext_def Let_def fn
             split: option.splits if_splits)
  define v where "v = FindCompatibleVar (CollectVars fn) x t"
  have "v \<in> set (CollectVars fn) \<and> compatibleVar x t v"
    using FindCompatibleVar_has FindCompatibleVar_none ne unfolding v_def by fastforce
  moreover obtain y u where "v = \<lparr>VName = y, VType = u\<rparr>" by (cases v)
  ultimately show ?thesis
    using r m unfolding replaceable_Some v_def [symmetric] compatibleVar_def TypesCompatible_iff fn
    by auto
qed

definition exFunc :: node where
  "exFunc = FuncDecl None None (Ident 6 ''f'')
     (FuncType 1 None
       (Some (FieldList 7 [Field None [Ident 8 ''a'', Ident 11 ''b''] (Some (Ident 13 ''int'')) None None] 16))
       None) None"

lemma exFunc_vars [simp]:
  "CollectVars (Some exFunc) = [\<lparr>VName = ''a'', VType = ''int''\<rparr>, \<lparr>VName = ''b'', VType = ''int''\<rparr>]"
  by (simp add: exFunc_def CollectVars_def fieldVars_def List.map_filter_simps TypeExprToString_opt_def)

theorem variable_replacement_keeps_type_witness:
  "\<exists>p x y t. Ident 30 ''a'' = Ident p x \<and> Ident 30 ''b'' = Ident p y \<and> y \<noteq> x \<and>
     BuildTypeMap (Some exFunc) x = Some t \<and>
     \<lparr>VName = y, VType = t\<rparr> \<in> set (CollectVars (Some exFunc)) \<and>
     t \<notin> {[], ''func:opaque'', ''interface{}''}"
  by (rule variable_replacement_keeps_type [of _ "''int''" None])
     (simp add: ApplyOperator_opMutate VariableReplacement_def Let_def
        VariableReplacement_MutateWithContext_def replaceable_def isExcludedParent_def emptyContext_def
        BuildTypeMap_def typedVars_def FindCompatibleVar_def compatibleVar_def TypesCompatible_def)

text \<open>
  \<open>error_return_nil\<close> changes exactly the last result of a return with at least two, to
  the identifier \<open>nil\<close>, and only where the signature ends in \<open>error\<close>.
\<close>

theorem error_return_nil_changes_last:
  assumes "ApplyOperator ErrorReturnNil n rt file fn = Some m"
  shows "\<exists>p rs e. n = ReturnStmt p (rs @ [e]) \<and> rs \<noteq> [] \<and>
           m = ReturnStmt p (rs @ [Ident 0 ''nil'']) \<and> \<not> IsErrorNil e \<and>
           (rt = ''error'' \<or> (\<exists>pre. rt = pre @ '',error''))"
proof -
  from assms obtain p results where n: "n = ReturnStmt p results" and len: "2 \<le> length results"
    and m: "m = ReturnStmt p (results[length results - 1 := Ident 0 ''nil''])"
    and e: "\<not> IsErrorNil (last results)" and rt: "lastReturnTypeIsError rt"
    by (auto simp: ApplyOperator_opMutate ErrorReturnNil_def ErrorReturnNil_MutateWithContext_def
          IsReturnStmtWithResults_Some split: option.splits if_splits)
  from len obtain rs l where "results = rs @ [l]" by (cases results rule: rev_cases) auto
  with n len m e rt show ?thesis
    unfolding lastReturnTypeIsError_iff by (auto simp: list_update_append)
qed

theorem error_return_nil_changes_last_witness:
  "\<exists>p rs e. ReturnStmt 1 [Ident 8 ''x'', Ident 11 ''err''] = ReturnStmt p (rs @ [e]) \<and> rs \<noteq> [] \<and>
     ReturnStmt 1 [Ident 8 ''x'', Ident 0 ''nil''] = ReturnStmt p (rs @ [Ident 0 ''nil'']) \<and>
     \<not> IsErrorNil e \<and> (''int,error'' = ''error'' \<or> (\<exists>pre. ''int,error'' = pre @ '',error''))"
  by (rule error_return_nil_changes_last [of _ _ None None])
     (simp add: ApplyOperator_opMutate ErrorReturnNil_def ErrorReturnNil_MutateWithContext_def
        IsReturnStmtWithResults_def lastReturnTypeIsError_def IsErrorNil_def IsNumericIdent_def
        isDigit_def)

text \<open>
  \<open>zero_value_return_numeric\<close> accepts the return of a literal zero, where its mutant
  returns the same literal: an equivalent mutant that no test can kill.
\<close>

theorem zero_return_equivalent_mutant:
  "opCanApply ZeroValueReturnNumeric (ReturnStmt p (BasicLit q T_INT ''0'' # rs)) emptyContext \<and>
   opMutate ZeroValueReturnNumeric (ReturnStmt p (BasicLit q T_INT ''0'' # rs)) emptyContext =
     Some (ReturnStmt 0 [BasicLit 0 T_INT ''0''])"
  by (simp add: ZeroValueReturnNumeric_def zeroValueReturnOperator_def ZeroNumericBase_def
        zeroValueReturn_CanApplyWithContext_def zeroValueReturn_MutateWithContext_def
        IsReturnStmtWithResults_def emptyContext_def numericZeroValue_def)

text \<open>
  The category table is a partition of the registered operators: every operator is in
  exactly one category, every name in the table is registered, and looking a category up
  returns one operator for each of its names.
\<close>

theorem categories_partition:
  "mset (concat (map snd categoryMap)) = mset (map OpName allOperators) \<and>
   distinct ListCategories \<and>
   list_all (\<lambda>(cat, names).
      map_option (map OpName) (fst (GetCategory globalRegistry cat)) = Some names) categoryMap"
  using GetCategory_global categories_permute distinct_categories
  by (auto simp: allNames_def list_all_iff)

text \<open>
  The views of a registry agree: looking a name up gives what \<open>All\<close> maps it to, does not
  change \<open>All\<close> (an initializer is run at most once) and keeps every entry under its own
  name; and \<open>List\<close> is exactly the operators \<open>All\<close> maps to.
\<close>

theorem registry_views_agree:
  assumes "registry_ok r"
  shows "fst (Get r name) = AllOps r name \<and> AllOps (snd (Get r name)) = AllOps r \<and>
         registry_ok (snd (Get r name)) \<and> set (ListOps r) = ran (AllOps r)"
proof -
  have d: "distinct (map fst (operators r))" "distinct (map fst (initializers r))"
    using assms by (auto simp: registry_ok_def entries_ok_def)
  have "x \<in> set (ListOps r) \<longleftrightarrow> (\<exists>n. AllOps r n = Some x)" for x
  proof -
    have "x \<in> set (ListOps r) \<longleftrightarrow>
        (\<exists>n. (n, x) \<in> set (operators r)) \<or>
        (\<exists>n. (n, x) \<in> set (initializers r) \<and> map_of (operators r) n = None)"
      unfolding ListOps_def by force
    also have "\<dots> \<longleftrightarrow> (\<exists>n. map_of (operators r) n = Some x \<or>
        map_of (operators r) n = None \<and> map_of (initializers r) n = Some x)"
      unfolding map_of_eq_Some_iff [OF d(1)] map_of_eq_Some_iff [OF d(2)] by blast
    also have "\<dots> \<longleftrightarrow> (\<exists>n. AllOps r n = Some x)"
      by (rule arg_cong [of _ _ Ex], rule ext) (simp add: AllOps_def split: option.split)
    finally show ?thesis .
  qed
  then show ?thesis using Get_AllOps registry_ok_Get [OF assms] by (auto simp: ran_def)
qed

theorem registry_views_agree_witness:
  "fst (Get globalRegistry ''defer_removal'') = AllOps globalRegistry ''defer_removal''"
  using registry_views_agree [OF globalRegistry_ok] by blast

end
