(* ===== verification/SchemataProps.thy ===== *)
theory SchemataProps
  imports SchemataHandlers OpProps
begin

text \<open>
  What the handlers promise. The test run sets \<open>activeMutantID\<close>; the reference semantics
  below follows the generated tests for one value of it and says which node control
  reaches. A handler meets the contract \<open>schemata\<close> when that node is the replacement of the
  mutant with that number, and the original for every other value.
\<close>

subsection \<open>Reading a schemata node\<close>

text \<open>A generated condition under one value of \<open>activeMutantID\<close>; \<open>None\<close> for other conditions.\<close>

definition condHolds :: "int \<Rightarrow> node \<Rightarrow> bool option" where
  "condHolds a cond = (case cond of
     BinaryExpr (Ident _ x) _ op (BasicLit _ kind v) \<Rightarrow>
       if x = ''activeMutantID'' \<and> op = T_EQL \<and> kind = T_INT then Some (v = Itoa a) else None
   | _ \<Rightarrow> None)"

lemma condHolds_create [simp]: "condHolds a (createMutantIDCondition k) = Some (a = k)"
  by (auto simp: condHolds_def createMutantIDCondition_def Itoa_inj)

text \<open>The results a guarded sequence of returns yields.\<close>

fun runGuards :: "int \<Rightarrow> node list \<Rightarrow> node list option" where
  "runGuards a [] = None"
| "runGuards a (s # ss) =
     (case s of
        ReturnStmt _ es \<Rightarrow> Some es
      | IfStmt _ None cond body None \<Rightarrow>
          (case condHolds a cond of
             None \<Rightarrow> None
           | Some True \<Rightarrow> (case blockList body of [r] \<Rightarrow> map_option snd (as_ReturnStmt r) | _ \<Rightarrow> None)
           | Some False \<Rightarrow> runGuards a ss)
      | _ \<Rightarrow> None)"

definition isGuardIf :: "node \<Rightarrow> bool" where
  "isGuardIf s = (case as_IfStmt s of
     Some (_, None, cond, _, _) \<Rightarrow> condHolds 0 cond \<noteq> None | _ \<Rightarrow> False)"

text \<open>The statements of a call of a function literal that starts with a generated guard.\<close>

definition closureBody :: "node \<Rightarrow> node list option" where
  "closureBody e = (case e of
     CallExpr (FuncLit _ body) _ [] _ _ \<Rightarrow>
       (case blockList body of
          [] \<Rightarrow> None
        | s # ss \<Rightarrow> if isGuardIf s then Some (s # ss) else None)
   | _ \<Rightarrow> None)"

definition selExpr :: "int \<Rightarrow> node \<Rightarrow> node" where
  "selExpr a e = (case closureBody e of
     None \<Rightarrow> e
   | Some ss \<Rightarrow> (case runGuards a ss of Some [r] \<Rightarrow> r | _ \<Rightarrow> e))"

fun selChain :: "int \<Rightarrow> node \<Rightarrow> node list" where
  "selChain a n = (case n of
     IfStmt _ None cond body (Some els) \<Rightarrow>
       (case condHolds a cond of
          None \<Rightarrow> [n]
        | Some True \<Rightarrow> blockList body
        | Some False \<Rightarrow> selChain a els)
   | BlockStmt _ l _ \<Rightarrow> l
   | _ \<Rightarrow> [n])"

declare selChain.simps [simp del]

definition selStmt :: "int \<Rightarrow> node \<Rightarrow> node list" where
  "selStmt a n =
     (if isGuardIf n then selChain a n
      else case n of
        BlockStmt _ [c] _ \<Rightarrow> if isGuardIf c then selChain a c else [n]
      | _ \<Rightarrow> [n])"

definition stmtSchemata :: "node \<Rightarrow> bool" where
  "stmtSchemata n \<longleftrightarrow> isGuardIf n \<or>
     (case n of BlockStmt _ [c] _ \<Rightarrow> isGuardIf c | _ \<Rightarrow> False)"

definition selRet :: "int \<Rightarrow> node \<Rightarrow> node list option" where
  "selRet a n = (case n of
     ReturnStmt _ [e] \<Rightarrow>
       (case closureBody e of None \<Rightarrow> Some [e] | Some ss \<Rightarrow> runGuards a ss)
   | ReturnStmt _ es \<Rightarrow> Some es
   | _ \<Rightarrow> None)"

subsection \<open>The contract of a handler\<close>

locale schemata =
  fixes handler :: "node \<Rightarrow> MutantForSite list \<Rightarrow> string \<Rightarrow> node option \<Rightarrow> node"
    and select :: "int \<Rightarrow> node \<Rightarrow> 'r"
    and applied :: "node \<Rightarrow> MutantForSite \<Rightarrow> string \<Rightarrow> node option \<Rightarrow> 'r option"
    and plain :: "node \<Rightarrow> 'r"
    and admissible :: "node \<Rightarrow> MutantForSite list \<Rightarrow> string \<Rightarrow> bool"
  assumes selects: "admissible n ms rt \<Longrightarrow>
      select a (handler n ms rt fl) =
        (case map_of (List.map_filter
                (\<lambda>m. map_option (Pair (msID m)) (applied n m rt fl)) ms) a of
           Some r \<Rightarrow> r | None \<Rightarrow> plain n)"
    and admissible_one: "admissible n ms rt \<Longrightarrow> m \<in> set ms \<Longrightarrow> admissible n [m] rt"
begin

lemma applied_of:
  "distinct (map msID ms) \<Longrightarrow> m \<in> set ms \<Longrightarrow>
     map_of (List.map_filter (\<lambda>m. map_option (Pair (msID m)) (applied n m rt fl)) ms) (msID m)
       = applied n m rt fl"
proof (induction ms)
  case (Cons m' ms)
  have other: "map_of (List.map_filter
      (\<lambda>m. map_option (Pair (msID m)) (applied n m rt fl)) ms) (msID m') = None"
    using Cons.prems(1) by (auto simp: map_of_eq_None_iff)
  show ?case
  proof (cases "m = m'")
    case True
    then show ?thesis using other by (simp add: List.map_filter_simps split: option.split)
  next
    case False
    with Cons.prems have m: "m \<in> set ms" by simp
    then have "msID m \<noteq> msID m'" using Cons.prems(1) by (metis distinct.simps(2) image_eqI list.set_map list.simps(9))
    with Cons.IH [OF _ m] Cons.prems(1) show ?thesis
      by (simp add: List.map_filter_simps split: option.split)
  qed
qed simp

lemma applied_none:
  "a \<notin> msID ` set ms \<Longrightarrow>
     map_of (List.map_filter (\<lambda>m. map_option (Pair (msID m)) (applied n m rt fl)) ms) a = None"
  by (auto simp: map_of_eq_None_iff)

lemma baseline:
  "admissible n ms rt \<Longrightarrow> a \<notin> msID ` set ms \<Longrightarrow> select a (handler n ms rt fl) = plain n"
  by (simp add: selects applied_none)

lemma mutant:
  "admissible n ms rt \<Longrightarrow> distinct (map msID ms) \<Longrightarrow> m \<in> set ms \<Longrightarrow>
     select (msID m) (handler n ms rt fl) =
       (case applied n m rt fl of Some r \<Rightarrow> r | None \<Rightarrow> plain n)"
  by (simp add: selects applied_of)

text \<open>Mutants of one node do not interfere: in the shared node each behaves as if alone.\<close>

lemma independent:
  assumes "admissible n ms rt" "distinct (map msID ms)" "m \<in> set ms"
  shows "select (msID m) (handler n ms rt fl) = select (msID m) (handler n [m] rt fl)"
proof -
  have "admissible n [m] rt" using admissible_one assms by blast
  with mutant [OF assms] mutant [of n "[m]" rt m] show ?thesis by simp
qed

end

subsection \<open>Expressions\<close>

definition exprApplied :: "node \<Rightarrow> MutantForSite \<Rightarrow> string \<Rightarrow> node option \<Rightarrow> node option" where
  "exprApplied n m rt fl =
     (case ApplyOperator (msOp m) n rt fl (msEnclosingFunc m) of
        None \<Rightarrow> None | Some e \<Rightarrow> if is_Expr e then Some e else None)"

definition exprAdmissible :: "node \<Rightarrow> MutantForSite list \<Rightarrow> string \<Rightarrow> bool" where
  "exprAdmissible n ms rt \<longleftrightarrow> is_Expr n \<and> closureBody n = None"

lemma exprMutants_applied:
  "exprMutants n ms rt fl =
     List.map_filter (\<lambda>m. map_option (Pair (msID m)) (exprApplied n m rt fl)) ms"
  unfolding exprMutants_def exprApplied_def
  by (rule arg_cong2 [of _ _ _ _ List.map_filter]) (auto split: option.split)

lemma runGuards_guards:
  "runGuards a (map guardReturn ps @ [ret es]) =
     Some (case map_of ps a of Some e \<Rightarrow> [e] | None \<Rightarrow> es)"
  by (induction ps) (auto simp: guardReturn_def ret_def block_def split: option.split)

lemma isGuardIf_guardReturn [simp]: "isGuardIf (guardReturn p)"
  by (cases p) (simp add: isGuardIf_def guardReturn_def)

lemma closureBody_closure:
  "ps \<noteq> [] \<Longrightarrow> closureBody (closure t (map guardReturn ps @ ss)) = Some (map guardReturn ps @ ss)"
  by (cases ps) (simp_all add: closureBody_def closure_def block_def)

lemma selExpr_closure:
  "ps \<noteq> [] \<Longrightarrow> selExpr a (closure t (map guardReturn ps @ [ret [o']])) =
     (case map_of ps a of Some e \<Rightarrow> e | None \<Rightarrow> o')"
  by (simp add: selExpr_def closureBody_closure runGuards_guards split: option.split)

lemma exprHandler_single:
  assumes "is_Expr n" "closureBody n = None"
  shows "selExpr a (applySingleMutant n m rt fl) =
     (case exprApplied n m rt fl of Some e \<Rightarrow> if a = msID m then e else n | None \<Rightarrow> n)"
proof -
  have "selExpr a n = n" using assms by (simp add: selExpr_def)
  moreover have "selExpr a (wrapExprWithIf e n (msID m) rt tm) = (if a = msID m then e else n)"
    for e tm
    using selExpr_closure [of "[(msID m, e)]" a "buildTypeExpr (inferExprType n rt tm)" n]
    by (simp add: wrapExprWithIf_def)
  ultimately show ?thesis
    using assms by (auto simp: applySingleMutant_def wrapWithSchemata_def exprApplied_def
                         split: option.split)
qed

lemma exprHandler_multi:
  assumes "is_Expr n" "closureBody n = None"
  shows "selExpr a (wrapExpressionMulti n ms rt fl) =
     (case map_of (exprMutants n ms rt fl) a of Some e \<Rightarrow> e | None \<Rightarrow> n)"
  using assms selExpr_closure [of "exprMutants n ms rt fl"]
  by (auto simp: wrapExpressionMulti_def Let_def selExpr_def split: option.split)

interpretation expr: schemata exprHandler selExpr exprApplied "\<lambda>n. n" exprAdmissible
proof
  fix n ms rt a fl
  assume "exprAdmissible n ms rt"
  then have n: "is_Expr n" "closureBody n = None" by (simp_all add: exprAdmissible_def)
  show "selExpr a (exprHandler n ms rt fl) =
      (case map_of (List.map_filter
          (\<lambda>m. map_option (Pair (msID m)) (exprApplied n m rt fl)) ms) a of
         Some r \<Rightarrow> r | None \<Rightarrow> n)"
  proof (cases ms rule: remdups_adj.cases)
    case 1
    then show ?thesis using n by (simp add: exprHandler_def selExpr_def)
  next
    case (2 m)
    then show ?thesis
      by (simp add: exprHandler_def exprHandler_single [OF n] List.map_filter_simps
               split: option.split)
  next
    case (3 m m' ms')
    then show ?thesis
      by (simp only: exprHandler_def list.case exprHandler_multi [OF n] exprMutants_applied)
  qed
qed (simp add: exprAdmissible_def)

subsection \<open>Statements\<close>

lemma mutators_enclosing [simp]:
  "ConstantReplacement_MutateWithContext n (ctx\<lparr>EnclosingFunc := fn\<rparr>) = ConstantReplacement_MutateWithContext n ctx"
  "EarlyReturnRemoval_MutateWithContext n (ctx\<lparr>EnclosingFunc := fn\<rparr>) = EarlyReturnRemoval_MutateWithContext n ctx"
  "LoopBreakRemoval_MutateWithContext n (ctx\<lparr>EnclosingFunc := fn\<rparr>) = LoopBreakRemoval_MutateWithContext n ctx"
  "SwapCaseBodies_MutateWithContext n (ctx\<lparr>EnclosingFunc := fn\<rparr>) = SwapCaseBodies_MutateWithContext n ctx"
  "ErrorReturnNil_MutateWithContext n (ctx\<lparr>EnclosingFunc := fn\<rparr>) = ErrorReturnNil_MutateWithContext n ctx"
  "InterfaceReturns_MutateWithContext n (ctx\<lparr>EnclosingFunc := fn\<rparr>) = InterfaceReturns_MutateWithContext n ctx"
  "SliceReturns_MutateWithContext n (ctx\<lparr>EnclosingFunc := fn\<rparr>) = SliceReturns_MutateWithContext n ctx"
  "NegateCondition_MutateWithContext n (ctx\<lparr>EnclosingFunc := fn\<rparr>) = NegateCondition_MutateWithContext n ctx"
  "LoopBodyRemoval_MutateWithContext n (ctx\<lparr>EnclosingFunc := fn\<rparr>) = LoopBodyRemoval_MutateWithContext n ctx"
  "LoopBreakFirst_MutateWithContext n (ctx\<lparr>EnclosingFunc := fn\<rparr>) = LoopBreakFirst_MutateWithContext n ctx"
  "DeferRemoval_MutateWithContext n (ctx\<lparr>EnclosingFunc := fn\<rparr>) = DeferRemoval_MutateWithContext n ctx"
  "GoroutineRemoval_MutateWithContext n (ctx\<lparr>EnclosingFunc := fn\<rparr>) = GoroutineRemoval_MutateWithContext n ctx"
  "PanicRemoval_MutateWithContext n (ctx\<lparr>EnclosingFunc := fn\<rparr>) = PanicRemoval_MutateWithContext n ctx"
  "ErrorCheckRemoval_MutateWithContext n (ctx\<lparr>EnclosingFunc := fn\<rparr>) = ErrorCheckRemoval_MutateWithContext n ctx"
  "NilCheckRemoval_MutateWithContext n (ctx\<lparr>EnclosingFunc := fn\<rparr>) = NilCheckRemoval_MutateWithContext n ctx"
  "zeroValueReturn_MutateWithContext zb n (ctx\<lparr>EnclosingFunc := fn\<rparr>) =
     zeroValueReturn_MutateWithContext zb n ctx"
  subgoal by (simp add: ConstantReplacement_MutateWithContext_def ConstantReplacement_CanApplyWithContext_def cong: if_cong split: option.split)
  subgoal by (simp add: EarlyReturnRemoval_MutateWithContext_def cong: if_cong split: option.split)
  subgoal by (simp add: LoopBreakRemoval_MutateWithContext_def cong: if_cong split: option.split)
  subgoal by (simp add: SwapCaseBodies_MutateWithContext_def cong: if_cong split: option.split)
  subgoal by (simp add: ErrorReturnNil_MutateWithContext_def cong: if_cong split: option.split)
  subgoal by (simp add: InterfaceReturns_MutateWithContext_def cong: if_cong split: option.split)
  subgoal by (simp add: SliceReturns_MutateWithContext_def cong: if_cong split: option.split)
  subgoal by (simp add: NegateCondition_MutateWithContext_def cong: if_cong split: option.split)
  subgoal by (simp add: LoopBodyRemoval_MutateWithContext_def cong: if_cong split: option.split)
  subgoal by (simp add: LoopBreakFirst_MutateWithContext_def cong: if_cong split: option.split)
  subgoal by (simp add: DeferRemoval_MutateWithContext_def cong: if_cong split: option.split)
  subgoal by (simp add: GoroutineRemoval_MutateWithContext_def cong: if_cong split: option.split)
  subgoal by (simp add: PanicRemoval_MutateWithContext_def cong: if_cong split: option.split)
  subgoal by (simp add: ErrorCheckRemoval_MutateWithContext_def cong: if_cong split: option.split)
  subgoal by (simp add: NilCheckRemoval_MutateWithContext_def cong: if_cong split: option.split)
  subgoal by (simp add: zeroValueReturn_MutateWithContext_def split: option.split)
  done

lemma EmptyBody_CanApply_ctx: "EmptyBody_CanApplyWithContext n c = EmptyBody_CanApplyWithContext n c'"
  by (simp add: EmptyBody_CanApplyWithContext_def)

lemma EmptyBody_enclosing [simp]:
  "EmptyBody_MutateWithContext n (ctx\<lparr>EnclosingFunc := fn\<rparr>) = EmptyBody_MutateWithContext n ctx"
  unfolding EmptyBody_MutateWithContext_def
  by (simp only: EmptyBody_CanApply_ctx [of n "ctx\<lparr>EnclosingFunc := fn\<rparr>" ctx])

lemma VariableReplacement_other [simp]:
  "as_Ident n = None \<Longrightarrow> VariableReplacement_MutateWithContext n ctx = None"
  by (simp add: VariableReplacement_MutateWithContext_def replaceable_def)

lemma opMutate_enclosing:
  assumes "op \<in> set allOperators" "as_Ident n = None"
  shows "opMutate op n (ctx\<lparr>EnclosingFunc := fn\<rparr>) = opMutate op n ctx"
  using assms
  unfolding allOperators_def
  by (auto simp: ArithmeticFlip_def AssignmentOperator_def BoundaryValue_def GoroutineRemoval_def
    ConditionNegation_def ForConditionFalse_def ForConditionTrue_def IfConditionFalse_def
    IfConditionTrue_def ConstantReplacement_def PanicRemoval_def DeferRemoval_def
    EarlyReturnRemoval_def EmptyBody_def ErrorCheckRemoval_def ErrorReturnNil_def
    NilCheckRemoval_def FunctionCallRemoval_def IncDecFlip_def LogicalOperator_def
    LoopBodyRemoval_def LoopBreakFirst_def LoopBreakRemoval_def BinaryMath_def
    NegateCondition_def ChannelReturns_def InterfaceReturns_def MapReturns_def
    PointerReturns_def SliceReturns_def SignToggle_def SwapCaseBodies_def
    SwitchRemoveDefault_def VariableReplacement_def ZeroValueReturnNumeric_def
    ZeroValueReturnString_def ZeroValueReturnBool_def ZeroValueReturnError_def
    buildConditionMutator_def zeroValueReturnOperator_def)

lemma ApplyOperator_stmt_enclosing:
  assumes "op \<in> set allOperators" "is_Stmt n"
  shows "ApplyOperator op n rt f fn = ApplyOperator op n rt f None"
proof -
  have "as_Ident n = None" using assms(2) by (cases n) (simp_all add: is_Stmt_def as_Ident_def)
  from opMutate_enclosing [OF assms(1) this, where fn = fn
      and ctx = "emptyContext\<lparr>ReturnType := rt, CtxFile := f, EnclosingFunc := None\<rparr>"]
  show ?thesis by (simp add: ApplyOperator_opMutate)
qed

definition stmtApplied :: "node \<Rightarrow> MutantForSite \<Rightarrow> string \<Rightarrow> node option \<Rightarrow> node list option" where
  "stmtApplied n m rt fl =
     (case ApplyOperator (msOp m) n rt fl None of
        None \<Rightarrow> None | Some s \<Rightarrow> if is_Stmt s then Some [s] else None)"

definition stmtAdmissible :: "node \<Rightarrow> MutantForSite list \<Rightarrow> string \<Rightarrow> bool" where
  "stmtAdmissible n ms rt \<longleftrightarrow>
     is_Stmt n \<and> \<not> stmtSchemata n \<and> (\<forall>m \<in> set ms. msOp m \<in> set allOperators)"

lemma stmt_not_expr: "is_Stmt n \<Longrightarrow> \<not> is_Expr n"
  by (cases n) (simp_all add: is_Stmt_def is_Expr_def)

lemma selStmt_plain: "\<not> stmtSchemata n \<Longrightarrow> selStmt a n = [n]"
  by (auto simp: selStmt_def stmtSchemata_def split: node.splits list.splits)

lemma selChain_simps [simp]:
  "selChain a (IfStmt p None (createMutantIDCondition k) body (Some els)) =
     (if a = k then blockList body else selChain a els)"
  "selChain a (BlockStmt l ss r) = ss"
  by (subst selChain.simps, simp)+

lemma isGuardIf_create [simp]: "isGuardIf (IfStmt p None (createMutantIDCondition k) body els)"
  by (simp add: isGuardIf_def)

lemma isGuardIf_block [simp]: "\<not> isGuardIf (BlockStmt l ss r)"
  by (simp add: isGuardIf_def as_IfStmt_def)

lemma selStmt_single:
  "selStmt a (IfStmt 0 None (createMutantIDCondition k) (block [s]) (Some (block [n]))) =
     (if a = k then [s] else [n])"
  by (simp add: selStmt_def block_def)

lemma selChain_foldr:
  "selChain a (foldr (\<lambda>(mid, stmt) chain.
       IfStmt 0 None (createMutantIDCondition mid) (block [stmt]) (Some chain)) ps (block [n])) =
     (case map_of ps a of Some s \<Rightarrow> [s] | None \<Rightarrow> [n])"
  by (induction ps) (auto simp: block_def)

lemma selStmt_chain:
  assumes "\<not> stmtSchemata n"
  shows "selStmt a (buildIfElseChain n ps) = (case map_of ps a of Some s \<Rightarrow> [s] | None \<Rightarrow> [n])"
proof (cases ps)
  case Nil
  with assms show ?thesis by (simp add: buildIfElseChain_def selStmt_plain)
next
  case (Cons p ps')
  then show ?thesis
    using selChain_foldr [of a ps n]
    by (cases p) (simp add: buildIfElseChain_def selStmt_def block_def)
qed

lemma map_of_filter_map:
  "map_of (List.map_filter (\<lambda>m. map_option (Pair (k m)) (map_option g (f m))) ms) a =
     map_option g (map_of (List.map_filter (\<lambda>m. map_option (Pair (k m)) (f m)) ms) a)"
  by (induction ms) (auto simp: List.map_filter_simps split: option.split)

lemma stmtMutants_spec:
  "(case map_of (stmtMutants n ms rt fl) a of Some s \<Rightarrow> [s] | None \<Rightarrow> [n]) =
   (case map_of (List.map_filter
       (\<lambda>m. map_option (Pair (msID m)) (stmtApplied n m rt fl)) ms) a of
      Some r \<Rightarrow> r | None \<Rightarrow> [n])"
proof -
  define f where "f = (\<lambda>m :: MutantForSite. case ApplyOperator (msOp m) n rt fl None of
     None \<Rightarrow> None | Some s \<Rightarrow> if is_Stmt s then Some s else None)"
  have sm: "stmtMutants n ms rt fl = List.map_filter (\<lambda>m. map_option (Pair (msID m)) (f m)) ms"
    unfolding stmtMutants_def f_def
    by (rule arg_cong2 [of _ _ _ _ List.map_filter]) (auto split: option.split)
  have sa: "stmtApplied n m rt fl = map_option (\<lambda>s. [s]) (f m)" for m
    by (simp add: stmtApplied_def f_def split: option.split)
  show ?thesis unfolding sm sa map_of_filter_map by (simp split: option.split)
qed

lemma applySingleMutant_stmt:
  assumes "stmtAdmissible n [m] rt"
  shows "selStmt a (applySingleMutant n m rt fl) =
     (case stmtApplied n m rt fl of Some r \<Rightarrow> if a = msID m then r else [n] | None \<Rightarrow> [n])"
proof -
  from assms have "ApplyOperator (msOp m) n rt fl (msEnclosingFunc m) =
      ApplyOperator (msOp m) n rt fl None"
    by (intro ApplyOperator_stmt_enclosing) (simp_all add: stmtAdmissible_def)
  with assms show ?thesis
    by (auto simp: stmtAdmissible_def applySingleMutant_def wrapWithSchemata_def stmt_not_expr
             stmtApplied_def selStmt_plain selStmt_single split: option.split)
qed

lemma stmt_selects:
  assumes "stmtAdmissible n ms rt"
    and "h n ms rt fl = (case ms of [m] \<Rightarrow> applySingleMutant n m rt fl
                         | _ \<Rightarrow> WrapStatement n ms rt fl)"
  shows "selStmt a (h n ms rt fl) =
      (case map_of (List.map_filter
          (\<lambda>m. map_option (Pair (msID m)) (stmtApplied n m rt fl)) ms) a of
         Some r \<Rightarrow> r | None \<Rightarrow> [n])"
proof (cases ms rule: remdups_adj.cases)
  case 1
  then show ?thesis using assms
    by (simp add: WrapStatement_def stmtAdmissible_def selStmt_plain)
next
  case (2 m)
  then show ?thesis using assms applySingleMutant_stmt [of n m rt a fl]
    by (simp add: List.map_filter_simps split: option.split)
next
  case (3 m m' ms')
  then have "h n ms rt fl = buildIfElseChain n (stmtMutants n ms rt fl)"
    using assms by (simp add: WrapStatement_def stmtAdmissible_def)
  then show ?thesis
    using assms(1) selStmt_chain [of n a "stmtMutants n ms rt fl"] stmtMutants_spec [of n ms rt fl a]
    by (simp add: stmtAdmissible_def)
qed

interpretation stmt: schemata stmtHandler selStmt stmtApplied "\<lambda>n. [n]" stmtAdmissible
proof (unfold_locales, goal_cases)
  case (1 n ms rt a fl)
  then show ?case
    by (rule stmt_selects) (simp add: stmtHandler_def WrapStatement_def split: list.split)
qed (simp add: stmtAdmissible_def)

interpretation range: schemata HandleRangeStmt selStmt stmtApplied "\<lambda>n. [n]" stmtAdmissible
proof (unfold_locales, goal_cases)
  case (1 n ms rt a fl)
  then show ?case
    by (rule stmt_selects) (simp add: HandleRangeStmt_def WrapStatement_def split: list.split)
qed (simp add: stmtAdmissible_def)

interpretation assign: schemata HandleAssignStmt selStmt stmtApplied "\<lambda>n. [n]" stmtAdmissible
proof (unfold_locales, goal_cases)
  case (1 n ms rt a fl)
  then show ?case
    by (rule stmt_selects) (simp add: HandleAssignStmt_def WrapStatement_def split: list.split)
qed (simp add: stmtAdmissible_def)

interpretation deferred: schemata HandleDeferStmt selStmt stmtApplied "\<lambda>n. [n]" stmtAdmissible
proof (unfold_locales, goal_cases)
  case (1 n ms rt a fl)
  then show ?case
    by (rule stmt_selects) (simp add: HandleDeferStmt_def WrapStatement_def split: list.split)
qed (simp add: stmtAdmissible_def)

subsection \<open>Returns\<close>

lemma other_mutators_return [simp]:
  "flipBinary pairs (ReturnStmt p rs) = None"
  "SignToggle_Mutate (ReturnStmt p rs) = None"
  "ConstantReplacement_MutateWithContext (ReturnStmt p rs) ctx = None"
  "VariableReplacement_MutateWithContext (ReturnStmt p rs) ctx = None"
  "AssignmentOperator_Mutate (ReturnStmt p rs) = None"
  "IncDecFlip_Mutate (ReturnStmt p rs) = None"
  "conditionMutator_Mutate t w (ReturnStmt p rs) = None"
  "NegateCondition_MutateWithContext (ReturnStmt p rs) ctx = None"
  "LoopBodyRemoval_MutateWithContext (ReturnStmt p rs) ctx = None"
  "LoopBreakFirst_MutateWithContext (ReturnStmt p rs) ctx = None"
  "LoopBreakRemoval_MutateWithContext (ReturnStmt p rs) ctx = None"
  "FunctionCallRemoval_Mutate (ReturnStmt p rs) = None"
  "DeferRemoval_MutateWithContext (ReturnStmt p rs) ctx = None"
  "GoroutineRemoval_MutateWithContext (ReturnStmt p rs) ctx = None"
  "PanicRemoval_MutateWithContext (ReturnStmt p rs) ctx = None"
  "ErrorCheckRemoval_MutateWithContext (ReturnStmt p rs) ctx = None"
  "NilCheckRemoval_MutateWithContext (ReturnStmt p rs) ctx = None"
  "SwapCaseBodies_MutateWithContext (ReturnStmt p rs) ctx = None"
  "SwitchRemoveDefault_Mutate (ReturnStmt p rs) = None"
  "EmptyBody_MutateWithContext (ReturnStmt p rs) ctx = None"
  by (simp_all add: flipBinary_def SignToggle_Mutate_def ConstantReplacement_MutateWithContext_def
        ConstantReplacement_CanApplyWithContext_def
        AssignmentOperator_Mutate_def IncDecFlip_Mutate_def conditionMutator_Mutate_def
        NegateCondition_MutateWithContext_def LoopBodyRemoval_MutateWithContext_def
        LoopBreakFirst_MutateWithContext_def LoopBreakRemoval_MutateWithContext_def
        FunctionCallRemoval_Mutate_def DeferRemoval_MutateWithContext_def
        GoroutineRemoval_MutateWithContext_def PanicRemoval_MutateWithContext_def
        ErrorCheckRemoval_MutateWithContext_def isErrNotNilCheck_def
        NilCheckRemoval_MutateWithContext_def SwapCaseBodies_MutateWithContext_def
        SwitchRemoveDefault_Mutate_def EmptyBody_MutateWithContext_def as_eval
        split: condNode.split)

lemma zeroReturn_shape:
  "zeroValueReturn_MutateWithContext zb n ctx = Some m \<Longrightarrow> \<exists>q e es. m = ReturnStmt q (e # es)"
  by (auto simp: zeroValueReturn_MutateWithContext_def split: option.splits if_splits)

lemma nilReturn_shape: "returnNilMutate n = Some m \<Longrightarrow> \<exists>q e es. m = ReturnStmt q (e # es)"
  by (auto simp: returnNilMutate_def split: option.splits if_splits)

lemma errnil_shape:
  "ErrorReturnNil_MutateWithContext n ctx = Some m \<Longrightarrow> \<exists>q e es. m = ReturnStmt q (e # es)"
proof -
  assume "ErrorReturnNil_MutateWithContext n ctx = Some m"
  then obtain p rs where m: "m = ReturnStmt p (rs[length rs - 1 := Ident 0 ''nil''])" and "2 \<le> length rs"
    by (auto simp: ErrorReturnNil_MutateWithContext_def IsReturnStmtWithResults_Some
             split: option.splits if_splits)
  then have "rs[length rs - 1 := Ident 0 ''nil''] \<noteq> []" by auto
  with m show ?thesis by (metis neq_Nil_conv)
qed

lemma return_shape:
  assumes "op \<in> set allOperators" "ApplyOperator op (ReturnStmt p rs) rt f fn = Some m"
  shows "\<exists>q e es. m = ReturnStmt q (e # es)"
  using assms
  unfolding allOperators_def ApplyOperator_opMutate
  by (auto simp: ArithmeticFlip_def AssignmentOperator_def BoundaryValue_def GoroutineRemoval_def
    ConditionNegation_def ForConditionFalse_def ForConditionTrue_def IfConditionFalse_def
    IfConditionTrue_def ConstantReplacement_def PanicRemoval_def DeferRemoval_def
    EarlyReturnRemoval_def EmptyBody_def ErrorCheckRemoval_def ErrorReturnNil_def
    NilCheckRemoval_def FunctionCallRemoval_def IncDecFlip_def LogicalOperator_def
    LoopBodyRemoval_def LoopBreakFirst_def LoopBreakRemoval_def BinaryMath_def
    NegateCondition_def ChannelReturns_def InterfaceReturns_def MapReturns_def
    PointerReturns_def SliceReturns_def SignToggle_def SwapCaseBodies_def
    SwitchRemoveDefault_def VariableReplacement_def ZeroValueReturnNumeric_def
    ZeroValueReturnString_def ZeroValueReturnBool_def ZeroValueReturnError_def
    buildConditionMutator_def zeroValueReturnOperator_def operator_wrappers
    EarlyReturnRemoval_MutateWithContext_def IsInsideIfStmt_def emptyContext_def
    dest: zeroReturn_shape nilReturn_shape errnil_shape split: if_splits)

definition returnExpr :: "node \<Rightarrow> MutantForSite \<Rightarrow> string \<Rightarrow> node option \<Rightarrow> node option" where
  "returnExpr n m rt fl =
     (case ApplyOperator (msOp m) n rt fl (msEnclosingFunc m) of
        None \<Rightarrow> None
      | Some mutated \<Rightarrow>
          (case as_ReturnStmt mutated of
             Some (_, e # _) \<Rightarrow> if isNilExpr e \<and> \<not> isNilableType rt then None else Some e
           | _ \<Rightarrow> None))"

definition retApplied ::
  "node \<Rightarrow> MutantForSite \<Rightarrow> string \<Rightarrow> node option \<Rightarrow> node list option option" where
  "retApplied n m rt fl = map_option (\<lambda>e. Some [e]) (returnExpr n m rt fl)"

definition retPlain :: "node \<Rightarrow> node list option" where
  "retPlain n = map_option snd (as_ReturnStmt n)"

definition retAdmissible :: "node \<Rightarrow> MutantForSite list \<Rightarrow> string \<Rightarrow> bool" where
  "retAdmissible n ms rt \<longleftrightarrow>
     (case n of ReturnStmt _ [e] \<Rightarrow> closureBody e = None | _ \<Rightarrow> False) \<and>
     (\<forall>m \<in> set ms. msOp m \<in> set allOperators \<and> msReturnType m \<in> {'''', rt})"

lemma retAdmissible_dest:
  "retAdmissible n ms rt \<Longrightarrow> \<exists>p e. n = ReturnStmt p [e] \<and> closureBody e = None"
  by (cases n) (auto simp: retAdmissible_def split: list.splits)

lemma selRet_plain: "closureBody e = None \<Longrightarrow> selRet a (ReturnStmt p [e]) = Some [e]"
  by (simp add: selRet_def)

lemma selRet_closure:
  "ps \<noteq> [] \<Longrightarrow> selRet a (ret [closure t (map guardReturn ps @ [ret es])]) =
     (case map_of ps a of Some e \<Rightarrow> Some [e] | None \<Rightarrow> Some es)"
  by (simp add: selRet_def ret_def [of "[closure t ss]" for t ss] closureBody_closure
      runGuards_guards split: option.split)

lemma returnMutants_returnExpr:
  assumes "\<forall>m \<in> set ms. msReturnType m \<in> {'''', rt}"
  shows "returnMutants n ms rt fl =
     List.map_filter (\<lambda>m. map_option (Pair (msID m)) (returnExpr n m rt fl)) ms"
proof -
  define f where "f = (\<lambda>m :: MutantForSite.
       let mutReturnType = (if msReturnType m = '''' then rt else msReturnType m) in
       case ApplyOperator (msOp m) n mutReturnType fl (msEnclosingFunc m) of
         None \<Rightarrow> None
       | Some mutated \<Rightarrow>
           (case as_ReturnStmt mutated of
              Some (_, expr # _) \<Rightarrow>
                if isNilExpr expr \<and> \<not> isNilableType rt then None
                else Some (msID m, expr)
            | _ \<Rightarrow> None))"
  have "f m = map_option (Pair (msID m)) (returnExpr n m rt fl)" if "m \<in> set ms" for m
  proof -
    have "(if msReturnType m = '''' then rt else msReturnType m) = rt" using assms that by auto
    then show ?thesis
      unfolding f_def returnExpr_def Let_def by (auto split: option.split list.split)
  qed
  then have "List.map_filter f ms =
      List.map_filter (\<lambda>m. map_option (Pair (msID m)) (returnExpr n m rt fl)) ms"
    by (induction ms) (simp_all add: List.map_filter_simps split: option.split)
  then show ?thesis unfolding returnMutants_def f_def .
qed

lemma HandleReturnStmt_single:
  assumes "retAdmissible n [m] rt"
  shows "selRet a (HandleReturnStmt n [m] rt fl) =
     (case returnExpr n m rt fl of
        Some e \<Rightarrow> if a = msID m then Some [e] else retPlain n | None \<Rightarrow> retPlain n)"
proof -
  from retAdmissible_dest [OF assms] obtain p o' where n: "n = ReturnStmt p [o']"
    and c: "closureBody o' = None" by blast
  have op: "msOp m \<in> set allOperators" using assms by (simp add: retAdmissible_def)
  have wrap: "selRet a (wrapReturnWithSchemata [o'] e (msID m) rt) =
      (if a = msID m then Some [e] else Some [o'])" for e
    using selRet_closure [of "[(msID m, e)]" a _ "[o']"]
    by (simp add: wrapReturnWithSchemata_def Let_def)
  show ?thesis
  proof (cases "ApplyOperator (msOp m) n rt fl (msEnclosingFunc m)")
    case None
    with n c show ?thesis
      by (simp add: HandleReturnStmt_def returnExpr_def selRet_plain retPlain_def)
  next
    case (Some mu)
    then obtain q e es where mu: "mu = ReturnStmt q (e # es)"
      using return_shape [OF op] n by blast
    show ?thesis using Some n c mu wrap
      by (auto simp: HandleReturnStmt_def returnExpr_def selRet_plain retPlain_def)
  qed
qed

lemma HandleReturnStmt_multi:
  fixes fl :: "node option"
  assumes "retAdmissible n (m # m' # ms) rt"
  defines "ps \<equiv> returnMutants n (m # m' # ms) rt fl"
  shows "selRet a (HandleReturnStmt n (m # m' # ms) rt fl) =
     (case map_of ps a of Some e \<Rightarrow> Some [e] | None \<Rightarrow> retPlain n)"
proof -
  from retAdmissible_dest [OF assms(1)] obtain p o' where n: "n = ReturnStmt p [o']"
    and c: "closureBody o' = None" by blast
  then have rn: "as_ReturnStmt n = Some (p, [o'])" and pl: "retPlain n = Some [o']"
    and sel: "selRet a n = Some [o']" by (simp_all add: retPlain_def selRet_plain)
  show ?thesis
  proof (cases ps rule: remdups_adj.cases)
    case 1
    then show ?thesis by (simp add: HandleReturnStmt_def rn pl sel ps_def [symmetric])
  next
    case (2 x)
    obtain k e where x: "x = (k, e)" by (cases x)
    have "HandleReturnStmt n (m # m' # ms) rt fl = wrapReturnWithSchemata [o'] e k rt"
      using 2 x by (simp add: HandleReturnStmt_def rn ps_def [symmetric])
    with 2 x show ?thesis
      using selRet_closure [of "[(k, e)]" a _ "[o']"]
      by (simp add: wrapReturnWithSchemata_def Let_def pl)
  next
    case (3 x y zs)
    have "HandleReturnStmt n (m # m' # ms) rt fl =
        ret [closure (buildTypeExpr rt) (map guardReturn ps @ [ret [o']])]"
      using 3 by (cases x) (simp add: HandleReturnStmt_def rn ps_def [symmetric])
    with 3 show ?thesis
      using selRet_closure [of ps a _ "[o']"] unfolding pl by simp
  qed
qed

interpretation return: schemata HandleReturnStmt selRet retApplied retPlain retAdmissible
proof (unfold_locales, goal_cases)
  case (1 n ms rt a fl)
  have types: "\<forall>m \<in> set ms. msReturnType m \<in> {'''', rt}" using 1 by (simp add: retAdmissible_def)
  have spec: "map_of (List.map_filter (\<lambda>m. map_option (Pair (msID m)) (retApplied n m rt fl)) ms) a =
      map_option (\<lambda>e. Some [e]) (map_of (returnMutants n ms rt fl) a)"
    unfolding returnMutants_returnExpr [OF types] retApplied_def by (rule map_of_filter_map)
  show ?case
  proof (cases ms rule: remdups_adj.cases)
    case m: 1
    obtain p e where "n = ReturnStmt p [e]" "closureBody e = None"
      using retAdmissible_dest [OF 1] by blast
    with m show ?thesis
      by (simp add: HandleReturnStmt_def returnMutants_def List.map_filter_simps selRet_plain
                    retPlain_def)
  next
    case (2 m)
    with 1 HandleReturnStmt_single [of n m rt a fl] spec types show ?thesis
      by (simp add: returnMutants_returnExpr List.map_filter_simps split: option.split)
  next
    case (3 m m' ms')
    with 1 HandleReturnStmt_multi [of n m m' ms' rt a fl] spec show ?thesis
      by (simp split: option.split)
  qed
qed (auto simp: retAdmissible_def)

subsection \<open>The table of conditions\<close>

definition cond_cache_ok :: "(int \<rightharpoonup> node) \<Rightarrow> bool" where
  "cond_cache_ok cache \<longleftrightarrow> (\<forall>k c. cache k = Some c \<longrightarrow> c = createMutantIDCondition k)"

text \<open>
  The shared table of condition nodes is transparent: whatever calls filled it, a call
  returns the condition for its own mutant number, and the table stays sound.
\<close>

theorem condition_table_transparent:
  assumes "cond_cache_ok cache"
  shows "fst (createMutantIDCondition_memo k cache) = createMutantIDCondition k \<and>
         cond_cache_ok (snd (createMutantIDCondition_memo k cache))"
  using assms
  by (auto simp: createMutantIDCondition_memo_def cond_cache_ok_def createMutantIDCondition_def
           Let_def split: option.split)

theorem condition_table_transparent_witness:
  "fst (createMutantIDCondition_memo 7 (snd (createMutantIDCondition_memo 7 Map.empty))) =
     createMutantIDCondition 7"
proof -
  have "cond_cache_ok Map.empty" by (simp add: cond_cache_ok_def)
  then show ?thesis using condition_table_transparent by blast
qed

subsection \<open>What a test run sees\<close>

lemma exprApplied_operator:
  assumes "is_Expr n" "msOp m \<in> set allOperators"
  shows "exprApplied n m rt f = ApplyOperator (msOp m) n rt f (msEnclosingFunc m)"
  using gorgon.apply_expr [OF assms(2)] assms(1)
  by (auto simp: exprApplied_def split: option.split)

lemma stmtApplied_operator:
  assumes "is_Stmt n" "msOp m \<in> set allOperators"
  shows "stmtApplied n m rt f =
    map_option (\<lambda>s. [s]) (ApplyOperator (msOp m) n rt f (msEnclosingFunc m))"
  using gorgon.apply_stmt [OF assms(2)] assms(1)
    ApplyOperator_stmt_enclosing [OF assms(2,1), of rt f "msEnclosingFunc m"]
  by (auto simp: stmtApplied_def split: option.split)

text \<open>
  C4. Mutant schemata of expressions are faithful: in the node generated for an expression
  and its mutants, the test run of mutant number \<open>k\<close> evaluates exactly the expression that
  mutant's operator produces (the original where it produces none), and every other value
  of \<open>activeMutantID\<close>, 0 for the baseline included, evaluates the original.
\<close>

theorem expression_schemata_faithful:
  assumes "is_Expr n" "closureBody n = None"
    and "distinct (map msID ms)" "\<forall>m \<in> set ms. msOp m \<in> set allOperators"
  shows "(\<forall>m \<in> set ms. selExpr (msID m) (exprHandler n ms rt fl) =
            or_else n (ApplyOperator (msOp m) n rt fl (msEnclosingFunc m))) \<and>
         (\<forall>a. a \<notin> msID ` set ms \<longrightarrow> selExpr a (exprHandler n ms rt fl) = n)"
proof -
  have adm: "exprAdmissible n ms rt" using assms by (simp add: exprAdmissible_def)
  have "selExpr (msID m) (exprHandler n ms rt fl) =
      or_else n (ApplyOperator (msOp m) n rt fl (msEnclosingFunc m))" if "m \<in> set ms" for m
    using expr.mutant [OF adm assms(3) that] exprApplied_operator [of n m rt fl] assms(1,4) that
    by (simp split: option.split)
  moreover have "selExpr a (exprHandler n ms rt fl) = n" if "a \<notin> msID ` set ms" for a
    using expr.baseline [OF adm that] by simp
  ultimately show ?thesis by blast
qed

definition exLess :: node where
  "exLess = BinaryExpr (Ident 10 ''a'') 12 T_LSS (Ident 14 ''b'')"

definition exMutants :: "MutantForSite list" where
  "exMutants =
     [\<lparr>msID = 3, msOp = ConditionNegation, msReturnType = ''bool'', msEnclosingFunc = None\<rparr>,
      \<lparr>msID = 4, msOp = BoundaryValue, msReturnType = ''bool'', msEnclosingFunc = None\<rparr>]"

lemma exMutants_apply [simp]:
  "ApplyOperator ConditionNegation exLess rt f fn =
     Some (BinaryExpr (Ident 10 ''a'') 0 T_GEQ (Ident 14 ''b''))"
  "ApplyOperator BoundaryValue exLess rt f fn =
     Some (BinaryExpr (Ident 10 ''a'') 0 T_LEQ (Ident 14 ''b''))"
  by (simp_all add: ApplyOperator_opMutate ConditionNegation_def BoundaryValue_def exLess_def
        ConditionNegation_Mutate_def BoundaryValue_Mutate_def flipBinary_def SwapBinaryToken_def
        ComparisonNegationPairs_def BoundaryValuePairs_def)

theorem expression_schemata_faithful_witness:
  "selExpr 4 (exprHandler exLess exMutants ''bool'' None) =
     BinaryExpr (Ident 10 ''a'') 0 T_LEQ (Ident 14 ''b'') \<and>
   selExpr 0 (exprHandler exLess exMutants ''bool'' None) = exLess"
proof -
  have "is_Expr exLess" "closureBody exLess = None"
    by (simp_all add: exLess_def is_Expr_def closureBody_def)
  moreover have "distinct (map msID exMutants)" "\<forall>m \<in> set exMutants. msOp m \<in> set allOperators"
    by (simp_all add: exMutants_def allOperators_def)
  ultimately show ?thesis
    using expression_schemata_faithful [of exLess exMutants "''bool''" None]
    by (simp add: exMutants_def)
qed

text \<open>
  C5. Mutant schemata of statements are faithful, for every statement handler of the table:
  under \<open>activeMutantID = k\<close> control reaches exactly the statement the operator of mutant
  \<open>k\<close> produces, and under any other value the original statement.
\<close>

theorem statement_schemata_faithful:
  assumes "h \<in> {stmtHandler, HandleRangeStmt, HandleAssignStmt, HandleDeferStmt}"
    and "is_Stmt n" "\<not> stmtSchemata n"
    and "distinct (map msID ms)" "\<forall>m \<in> set ms. msOp m \<in> set allOperators"
  shows "(\<forall>m \<in> set ms. selStmt (msID m) (h n ms rt fl) =
            [or_else n (ApplyOperator (msOp m) n rt fl (msEnclosingFunc m))]) \<and>
         (\<forall>a. a \<notin> msID ` set ms \<longrightarrow> selStmt a (h n ms rt fl) = [n])"
proof -
  have adm: "stmtAdmissible n ms rt" using assms by (simp add: stmtAdmissible_def)
  have one: "selStmt (msID m) (h n ms rt fl) =
      (case stmtApplied n m rt fl of Some r \<Rightarrow> r | None \<Rightarrow> [n])" if "m \<in> set ms" for m
    using assms(1) stmt.mutant [OF adm assms(4) that] range.mutant [OF adm assms(4) that]
      assign.mutant [OF adm assms(4) that] deferred.mutant [OF adm assms(4) that] by auto
  have "selStmt (msID m) (h n ms rt fl) =
      [or_else n (ApplyOperator (msOp m) n rt fl (msEnclosingFunc m))]" if "m \<in> set ms" for m
    using one [OF that] stmtApplied_operator [of n m rt fl] assms(2,5) that
    by (simp split: option.split)
  moreover have "selStmt a (h n ms rt fl) = [n]" if "a \<notin> msID ` set ms" for a
    using assms(1) stmt.baseline [OF adm that] range.baseline [OF adm that]
      assign.baseline [OF adm that] deferred.baseline [OF adm that] by auto
  ultimately show ?thesis by blast
qed

theorem statement_schemata_faithful_witness:
  "selStmt 5 (stmtHandler (IncDecStmt (Ident 1 ''i'') 2 T_INC)
      [\<lparr>msID = 5, msOp = IncDecFlip, msReturnType = '''', msEnclosingFunc = None\<rparr>] '''' None) =
     [IncDecStmt (Ident 1 ''i'') 0 T_DEC]"
proof -
  define m where "m = \<lparr>msID = 5, msOp = IncDecFlip, msReturnType = '''', msEnclosingFunc = None\<rparr>"
  have "ApplyOperator IncDecFlip (IncDecStmt (Ident 1 ''i'') 2 T_INC) '''' None None =
      Some (IncDecStmt (Ident 1 ''i'') 0 T_DEC)"
    by (simp add: ApplyOperator_opMutate IncDecFlip_def IncDecFlip_Mutate_def SwapBinaryToken_def
          IncDecPairs_def)
  moreover have "is_Stmt (IncDecStmt (Ident 1 ''i'') 2 T_INC)"
    "\<not> stmtSchemata (IncDecStmt (Ident 1 ''i'') 2 T_INC)"
    by (simp_all add: is_Stmt_def stmtSchemata_def isGuardIf_def as_IfStmt_def)
  ultimately show ?thesis
    using statement_schemata_faithful [of stmtHandler "IncDecStmt (Ident 1 ''i'') 2 T_INC"
        "[m]" "''''" None]
    by (simp add: m_def allOperators_def)
qed

text \<open>
  C6. Mutant schemata of single-result returns are faithful: mutant \<open>k\<close> returns the first
  result of its mutated statement, unless that is a \<open>nil\<close> the return type cannot hold (the
  mutant is then left out); every other run returns the original result.
\<close>

theorem return_schemata_faithful:
  assumes "closureBody e = None" "distinct (map msID ms)"
    and "\<forall>m \<in> set ms. msOp m \<in> set allOperators \<and> msReturnType m \<in> {'''', rt}"
  shows "(\<forall>m \<in> set ms. selRet (msID m) (HandleReturnStmt (ReturnStmt p [e]) ms rt fl) =
            Some [or_else e (returnExpr (ReturnStmt p [e]) m rt fl)]) \<and>
         (\<forall>a. a \<notin> msID ` set ms \<longrightarrow>
            selRet a (HandleReturnStmt (ReturnStmt p [e]) ms rt fl) = Some [e])"
proof -
  have adm: "retAdmissible (ReturnStmt p [e]) ms rt" using assms by (simp add: retAdmissible_def)
  have "selRet (msID m) (HandleReturnStmt (ReturnStmt p [e]) ms rt fl) =
      Some [or_else e (returnExpr (ReturnStmt p [e]) m rt fl)]" if "m \<in> set ms" for m
    using return.mutant [OF adm assms(2) that]
    by (simp add: retApplied_def retPlain_def split: option.split)
  moreover have "selRet a (HandleReturnStmt (ReturnStmt p [e]) ms rt fl) = Some [e]"
    if "a \<notin> msID ` set ms" for a
    using return.baseline [OF adm that] by (simp add: retPlain_def)
  ultimately show ?thesis by blast
qed

theorem return_schemata_faithful_witness:
  "selRet 8 (HandleReturnStmt (ReturnStmt 1 [BasicLit 8 T_INT ''5''])
      [\<lparr>msID = 8, msOp = ZeroValueReturnNumeric, msReturnType = ''int'', msEnclosingFunc = None\<rparr>]
      ''int'' None) = Some [BasicLit 0 T_INT ''0'']"
proof -
  define m where "m = \<lparr>msID = 8, msOp = ZeroValueReturnNumeric, msReturnType = ''int'',
    msEnclosingFunc = None\<rparr>"
  have "returnExpr (ReturnStmt 1 [BasicLit 8 T_INT ''5'']) m ''int'' None =
      Some (BasicLit 0 T_INT ''0'')"
    by (simp add: returnExpr_def m_def ApplyOperator_opMutate ZeroValueReturnNumeric_def
          zeroValueReturnOperator_def ZeroNumericBase_def zeroValueReturn_MutateWithContext_def
          IsReturnStmtWithResults_def emptyContext_def numericZeroValue_def isNilExpr_def
          as_Ident_def)
  then show ?thesis
    using return_schemata_faithful [of "BasicLit 8 T_INT ''5''" "[m]" "''int''" 1 None]
    by (simp add: m_def allOperators_def closureBody_def)
qed

text \<open>
  Where one node carries several mutants they do not interfere: the run of one mutant in
  the shared node reaches the same node as in a file that has this mutant alone.
\<close>

theorem mutants_independent:
  assumes "is_Stmt n" "\<not> stmtSchemata n" "distinct (map msID ms)"
    and "\<forall>m \<in> set ms. msOp m \<in> set allOperators" "m \<in> set ms"
  shows "selStmt (msID m) (stmtHandler n ms rt fl) =
         selStmt (msID m) (stmtHandler n [m] rt fl)"
  using assms by (intro stmt.independent) (simp_all add: stmtAdmissible_def)

text \<open>
  The mutant of a function declaration is not guarded: \<open>empty_body\<close> replaces the
  declaration itself, whatever the mutant number, so the baseline run and the runs of all
  other mutants of the package execute the emptied function as well.
\<close>

theorem empty_body_unguarded:
  assumes "EmptyBody_CanApplyWithContext (FuncDecl d r nm t (Some (BlockStmt l ss q))) emptyContext"
    and "msOp m = EmptyBody"
  shows "stmtHandler (FuncDecl d r nm t (Some (BlockStmt l ss q))) [m] rt fl =
           FuncDecl d r nm t (Some (BlockStmt l [] q))"
proof -
  have "EmptyBody_CanApplyWithContext (FuncDecl d r nm t (Some (BlockStmt l ss q))) ctx" for ctx
    using assms(1) EmptyBody_CanApply_ctx by blast
  then show ?thesis
    by (simp add: stmtHandler_def applySingleMutant_def assms(2) ApplyOperator_opMutate
          EmptyBody_def EmptyBody_MutateWithContext_def wrapWithSchemata_def is_Expr_def is_Stmt_def)
qed

theorem empty_body_unguarded_witness:
  "stmtHandler
     (FuncDecl None None (Ident 6 ''run'') (FuncType 1 None (Some (FieldList 9 [] 10)) None)
        (Some (BlockStmt 12 [ExprStmt (CallExpr (Ident 14 ''f'') 15 [] 0 16)] 18)))
     [\<lparr>msID = 2, msOp = EmptyBody, msReturnType = '''', msEnclosingFunc = None\<rparr>] '''' None =
   FuncDecl None None (Ident 6 ''run'') (FuncType 1 None (Some (FieldList 9 [] 10)) None)
        (Some (BlockStmt 12 [] 18))"
  by (rule empty_body_unguarded)
     (simp_all add: EmptyBody_CanApplyWithContext_def fieldsOf_def)

text \<open>
  \<open>error_return_nil\<close> is lost on the way: at a return with several results the handler
  keeps only the first result of the mutated statement, which this operator does not change.
  The mutant run returns the unchanged first value (and no error), the other runs the
  original results; the \<open>nil\<close> appears nowhere.
\<close>

theorem error_return_nil_lost:
  assumes "rs \<noteq> []" "msOp m = ErrorReturnNil" "lastReturnTypeIsError rt"
    and "IsErrorExpr (last rs)" "\<not> IsErrorNil (last rs)" "\<not> isNilExpr e"
  shows "selRet a (HandleReturnStmt (ReturnStmt p (e # rs)) [m] rt fl) =
           Some (if a = msID m then [e] else e # rs)"
proof -
  have "ApplyOperator (msOp m) (ReturnStmt p (e # rs)) rt fl (msEnclosingFunc m) =
      Some (ReturnStmt p (e # rs[length rs - 1 := Ident 0 ''nil'']))"
    using assms by (cases rs) (auto simp: ApplyOperator_opMutate ErrorReturnNil_def
      ErrorReturnNil_MutateWithContext_def IsReturnStmtWithResults_def emptyContext_def)
  then have "HandleReturnStmt (ReturnStmt p (e # rs)) [m] rt fl =
      wrapReturnWithSchemata (e # rs) e (msID m) rt"
    using assms(6) by (simp add: HandleReturnStmt_def)
  then show ?thesis
    using selRet_closure [of "[(msID m, e)]" a _ "e # rs"]
    by (simp add: wrapReturnWithSchemata_def Let_def)
qed

theorem error_return_nil_lost_witness:
  "selRet 9 (HandleReturnStmt (ReturnStmt 1 [Ident 8 ''v'', Ident 11 ''err''])
      [\<lparr>msID = 9, msOp = ErrorReturnNil, msReturnType = ''int,error'', msEnclosingFunc = None\<rparr>]
      ''int,error'' None) = Some [Ident 8 ''v'']"
  using error_return_nil_lost [of "[Ident 11 ''err'']"
      "\<lparr>msID = 9, msOp = ErrorReturnNil, msReturnType = ''int,error'', msEnclosingFunc = None\<rparr>"
      "''int,error''" "Ident 8 ''v''" 9 1 None]
  by (simp add: lastReturnTypeIsError_def IsErrorNil_def isNilExpr_def IsNumericIdent_def isDigit_def)

end
