(* ===== verification/GoFmt.thy ===== *)
theory GoFmt
  imports Complex_Main GoStrings
begin

text \<open>
  Numbers and their printed form. Scores, thresholds and tolerances are \<open>float64\<close> in the
  program; here they are the rationals that those stand for, and \<open>Float64\<close> has the rounding
  of their arithmetic. \<open>fmtFixed k r\<close> is \<open>fmt.Sprintf("%.kf", r)\<close>: round to nearest, ties to
  even, on the exact value.
\<close>

definition round_even :: "rat \<Rightarrow> int" where
  "round_even r =
     (let f = \<lfloor>r\<rfloor>; d = r - of_int f in
      if d < 1 / 2 then f
      else if d > 1 / 2 then f + 1
      else if even f then f else f + 1)"

definition padZeros :: "nat \<Rightarrow> string \<Rightarrow> string" where
  "padZeros k s = replicate (k - length s) (CHR ''0'') @ s"

definition fmtFixed :: "nat \<Rightarrow> rat \<Rightarrow> string" where
  "fmtFixed k r =
     (let n = round_even (\<bar>r\<bar> * 10 ^ k);
          whole = Itoa (n div 10 ^ k);
          frac = padZeros k (Itoa (n mod 10 ^ k));
          body = (if k = 0 then whole else whole @ ''.'' @ frac)
      in if r < 0 then CHR ''-'' # body else body)"

definition fmtBool :: "bool \<Rightarrow> string" where
  "fmtBool b = (if b then ''true'' else ''false'')"

lemma round_even_int [simp]: "round_even (of_int n) = n"
  by (simp add: round_even_def Let_def)

lemma round_even_bounds: "of_int (round_even r) \<le> r + 1 / 2 \<and> r - 1 / 2 \<le> of_int (round_even r)"
proof -
  have lo: "of_int \<lfloor>r\<rfloor> \<le> r" and hi: "r < of_int \<lfloor>r\<rfloor> + 1" by linarith+
  have "(rat_of_int (round_even r) = of_int \<lfloor>r\<rfloor> \<and> r - of_int \<lfloor>r\<rfloor> \<le> 1 / 2) \<or>
      (rat_of_int (round_even r) = of_int \<lfloor>r\<rfloor> + 1 \<and> r - of_int \<lfloor>r\<rfloor> \<ge> 1 / 2)"
    by (simp add: round_even_def Let_def)
  with lo hi show ?thesis by linarith
qed

end
