(* ===== verification/Config.thy ===== *)
theory Config
  imports GoFmt
begin

text \<open>
  \<open>pkg/config\<close>: the root configuration, its defaults, \<open>AddSuppression\<close> and the text that
  \<open>Save\<close> writes (\<open>config.go\<close>), the organisation policy (\<open>orgpolicy.go\<close>) and the
  per-directory sub-configuration (\<open>subconfig.go\<close>). Loading is the YAML library's work and
  not modelled.
\<close>

record SuppressEntry =
  Location :: string
  SuppressOps :: "string list"

record DirOperatorRule =
  RuleDir :: string
  Whitelist :: "string list"
  Blacklist :: "string list"

record ExternalSuite =
  SuiteName :: string
  SuitePaths :: "string list"
  SuiteTags :: "string list"
  ShortCircuit :: bool

record ExternalSuitesConfig =
  ExtEnabled :: bool
  RunMode :: string
  Suites :: "ExternalSuite list"

record BaselineConfig =
  NoRegression :: bool
  BaselineFile :: string
  Tolerance :: rat
  BaselineSave :: bool

type_synonym SubConfigMode = string

definition SubConfigMerge :: SubConfigMode where "SubConfigMerge = ''merge''"
definition SubConfigReplace :: SubConfigMode where "SubConfigReplace = ''replace''"
definition SubConfigIsolate :: SubConfigMode where "SubConfigIsolate = ''isolate''"

type_synonym ViolationMode = string

definition ViolationFail :: ViolationMode where "ViolationFail = ''fail''"
definition ViolationWarn :: ViolationMode where "ViolationWarn = ''warn''"
definition ViolationSilent :: ViolationMode where "ViolationSilent = ''silent''"

record Config =
  cOperators :: "string list"
  cConcurrent :: string
  cThreshold :: rat
  cCache :: bool
  cDryRun :: bool
  cDebug :: bool
  cProgBar :: bool
  cShowKilled :: bool
  cShowSurvived :: bool
  cOutputs :: "string list"
  cCPUProfile :: string
  cMemProfile :: string
  cExclude :: "string list"
  cInclude :: "string list"
  cSkip :: "string list"
  cSkipFunc :: "string list"
  cTests :: "string list"
  cBase :: string
  cSuppress :: "SuppressEntry list"
  cDiff :: string
  cDirRules :: "DirOperatorRule list"
  cUnitTestsEnabled :: bool
  cExternalSuites :: ExternalSuitesConfig
  cBaseline :: BaselineConfig
  cGoVersion :: string
  cSubConfigMode :: SubConfigMode
  cThresholdInherit :: bool
  cViolationMode :: ViolationMode
  cBadge :: string
  cChunkLargeFiles :: bool
  cBuildTags :: "string list"

definition DefaultConfig :: Config where
  "DefaultConfig = \<lparr>cOperators = [''all''], cConcurrent = ''all'', cThreshold = 0, cCache = False,
     cDryRun = False, cDebug = False, cProgBar = False, cShowKilled = False,
     cShowSurvived = False, cOutputs = [], cCPUProfile = '''', cMemProfile = '''',
     cExclude = [], cInclude = [], cSkip = [], cSkipFunc = [], cTests = [], cBase = '''',
     cSuppress = [], cDiff = '''', cDirRules = [], cUnitTestsEnabled = True,
     cExternalSuites = \<lparr>ExtEnabled = False, RunMode = '''', Suites = []\<rparr>,
     cBaseline = \<lparr>NoRegression = False, BaselineFile = '''', Tolerance = 0, BaselineSave = False\<rparr>,
     cGoVersion = '''', cSubConfigMode = '''', cThresholdInherit = False,
     cViolationMode = '''', cBadge = '''', cChunkLargeFiles = True, cBuildTags = []\<rparr>"

definition Validate :: "Config \<Rightarrow> Config" where
  "Validate c = (if cConcurrent c = '''' then c\<lparr>cConcurrent := ''all''\<rparr> else c)"

subsection \<open>AddSuppression\<close>

text \<open>
  Trimmed, non-empty, first occurrences in order. In the loop over the existing entries
  \<open>existing\<close> is a copy of the entry: what is appended to it is dropped when the function
  returns.
\<close>

fun normalizeOps :: "string list \<Rightarrow> string list \<Rightarrow> string list" where
  "normalizeOps seen [] = []"
| "normalizeOps seen (o' # os) =
     (let op = TrimSpace o' in
      if op \<noteq> '''' \<and> op \<notin> set seen then op # normalizeOps (op # seen) os
      else normalizeOps seen os)"

definition mergeOps :: "SuppressEntry \<Rightarrow> string list \<Rightarrow> SuppressEntry" where
  "mergeOps existing normalized =
     existing\<lparr>SuppressOps := SuppressOps existing @
       filter (\<lambda>op. op \<notin> set (SuppressOps existing)) normalized\<rparr>"

definition AddSuppression :: "string \<Rightarrow> string list \<Rightarrow> Config \<Rightarrow> Config" where
  "AddSuppression location0 operators c =
     (let location = TrimSpace location0; normalized = normalizeOps [] operators in
      if location = '''' then c
      else case find (\<lambda>e. Location e = location) (cSuppress c) of
             Some entry \<Rightarrow> (let existing = mergeOps entry normalized in c)
           | None \<Rightarrow>
               c\<lparr>cSuppress := cSuppress c @ [\<lparr>Location = location, SuppressOps = normalized\<rparr>]\<rparr>)"

lemma normalizeOps_spec:
  "distinct (normalizeOps seen os) \<and> set (normalizeOps seen os) = (TrimSpace ` set os) - {''''} - set seen"
  by (induction seen os rule: normalizeOps.induct) (auto simp: Let_def)

subsection \<open>Save\<close>

text \<open>A YAML list under a key: the items with their indentation, or the empty list.\<close>

definition yamlList :: "string \<Rightarrow> string \<Rightarrow> string list \<Rightarrow> string list" where
  "yamlList key prefix xs = key # (if xs = [] then [''    []''] else map (\<lambda>x. prefix @ x) xs)"

definition quoted :: "string \<Rightarrow> string" where
  "quoted s = [CHR 0x22] @ s @ [CHR 0x22]"

definition squoted :: "string \<Rightarrow> string" where
  "squoted s = [CHR 0x27] @ s @ [CHR 0x27]"

definition saveCore :: "Config \<Rightarrow> string list" where
  "saveCore c =
     [''# === Core Mutation Settings ==='', ''operators:''] @
     map (\<lambda>op. ''    - '' @ op) (cOperators c) @
     [''threshold: '' @ fmtFixed 0 (cThreshold c), '''',
      ''# === Execution Settings ==='',
      ''concurrent: '' @ cConcurrent c,
      ''cache: '' @ fmtBool (cCache c),
      ''dry_run: '' @ fmtBool (cDryRun c),
      ''progbar: '' @ fmtBool (cProgBar c), '''',
      ''# === Test Configuration ==='',
      ''unit_tests_enabled: '' @ fmtBool (cUnitTestsEnabled c)] @
     yamlList ''tests:'' ''    - '' (cTests c) @ ['''']"

definition saveSuite :: "ExternalSuite \<Rightarrow> string list" where
  "saveSuite s =
     [''        - name: '' @ SuiteName s, ''          paths:''] @
     map (\<lambda>p. ''            - '' @ p) (SuitePaths s) @
     (if SuiteTags s = [] then []
      else ''          tags:'' # map (\<lambda>t. ''            - '' @ t) (SuiteTags s)) @
     [''          short_circuit: '' @ fmtBool (ShortCircuit s)]"

definition saveExternal :: "Config \<Rightarrow> string list" where
  "saveExternal c =
     (let x = cExternalSuites c in
      [''# === External Test Suites ==='', ''external_suites:'',
       ''    enabled: '' @ fmtBool (ExtEnabled x)] @
      (if RunMode x = ''before_unit'' then [''    run_mode: '' @ RunMode x] else []) @
      [''    suites:''] @
      (if Suites x = [] then [''        []''] else concat (map saveSuite (Suites x))) @ [''''])"

definition saveFilters :: "Config \<Rightarrow> string list" where
  "saveFilters c =
     [''# === File Filtering ===''] @
     (''exclude:'' # (if cExclude c = [] then [''    []'']
                    else map (\<lambda>x. ''    - '' @ squoted x) (cExclude c))) @
     yamlList ''include:'' ''    - '' (cInclude c) @
     yamlList ''skip:'' ''    - '' (cSkip c) @
     yamlList ''skip_func:'' ''    - '' (cSkipFunc c) @ ['''']"

definition saveAdvanced :: "Config \<Rightarrow> string list" where
  "saveAdvanced c =
     [''# === Advanced Options ==='',
      ''diff: '' @ quoted (cDiff c), ''base: '' @ quoted (cBase c),
      ''debug: '' @ fmtBool (cDebug c), '''',
      ''# === Baseline / Ratchet ==='', ''baseline:'',
      ''    no_regression: '' @ fmtBool (NoRegression (cBaseline c)),
      ''    tolerance: '' @ fmtFixed 1 (Tolerance (cBaseline c))] @
     (if BaselineFile (cBaseline c) \<noteq> '''' then [''    file: '' @ quoted (BaselineFile (cBaseline c))]
      else []) @ [''''] @
     [''# === Output Settings ==='',
      ''show_killed: '' @ fmtBool (cShowKilled c),
      ''show_survived: '' @ fmtBool (cShowSurvived c)] @
     yamlList ''outputs:'' ''    - '' (cOutputs c) @
     [''cpu_profile: '' @ quoted (cCPUProfile c), ''mem_profile: '' @ quoted (cMemProfile c), '''']"

definition saveRule :: "DirOperatorRule \<Rightarrow> string list" where
  "saveRule r =
     [''    - dir: '' @ RuleDir r] @
     (if Whitelist r = [] then []
      else ''      whitelist:'' # map (\<lambda>w. ''        - '' @ w) (Whitelist r)) @
     (if Blacklist r = [] then []
      else ''      blacklist:'' # map (\<lambda>b. ''        - '' @ b) (Blacklist r))"

definition saveSuppress :: "SuppressEntry \<Rightarrow> string list" where
  "saveSuppress s =
     [''    - location: '' @ Location s] @
     (if SuppressOps s = [] then []
      else ''      operators:'' # map (\<lambda>op. ''        - '' @ op) (SuppressOps s))"

definition saveRules :: "Config \<Rightarrow> string list" where
  "saveRules c =
     (if cDirRules c = [] then []
      else [''# === Directory Rules ==='', ''dir_rules:''] @ concat (map saveRule (cDirRules c)) @ ['''']) @
     [''# === Suppressions (Auto-managed) ==='', ''suppress:''] @
     (if cSuppress c = [] then [''    []''] else concat (map saveSuppress (cSuppress c)))"

definition saveLines :: "Config \<Rightarrow> string list" where
  "saveLines c = saveCore c @ saveExternal c @ saveFilters c @ saveAdvanced c @ saveRules c"

text \<open>The text \<open>Save\<close> writes.\<close>

definition saveContent :: "Config \<Rightarrow> string" where
  "saveContent c = Join (saveLines c) [CHR 0x0A] @ [CHR 0x0A]"

subsection \<open>Organisation policy and sub-configuration\<close>

record OrgPolicy =
  ThresholdFloor :: rat
  RequiredOperators :: "string list"
  ForbiddenOperators :: "string list"
  LockedSettings :: "string list"
  ForcedSkipPaths :: "string list"
  ForcedExcludePatterns :: "string list"
  MinConcurrent :: int
  RequireCache :: "bool option"

definition IsZero :: "OrgPolicy \<Rightarrow> bool" where
  "IsZero p \<longleftrightarrow>
     ThresholdFloor p = 0 \<and> RequiredOperators p = [] \<and> ForbiddenOperators p = [] \<and>
     LockedSettings p = [] \<and> ForcedSkipPaths p = [] \<and> ForcedExcludePatterns p = [] \<and>
     MinConcurrent p = 0 \<and> RequireCache p = None"

record SubConfig =
  scOperators :: "string list"
  scThreshold :: "rat option"
  scTests :: "string list"
  scConcurrent :: string
  scExclude :: "string list"
  scInclude :: "string list"
  scSkip :: "string list"
  scSkipFunc :: "string list"
  scSuppress :: "SuppressEntry list"
  scDirRules :: "DirOperatorRule list"

subsection \<open>Properties\<close>

text \<open>
  Merging a suppression into an existing entry is lost: for a location that has an entry
  already \<open>AddSuppression\<close> leaves the whole configuration as it was, whatever operators are
  given; for a new location the entry is appended with the trimmed, distinct operators.
\<close>

theorem AddSuppression_merge_lost:
  "(TrimSpace loc \<in> Location ` set (cSuppress c) \<longrightarrow> AddSuppression loc ops c = c) \<and>
   (TrimSpace loc \<noteq> '''' \<and> TrimSpace loc \<notin> Location ` set (cSuppress c) \<longrightarrow>
      (\<exists>new. cSuppress (AddSuppression loc ops c) =
               cSuppress c @ [\<lparr>Location = TrimSpace loc, SuppressOps = new\<rparr>] \<and>
             distinct new \<and> set new = TrimSpace ` set ops - {''''}))"
  using normalizeOps_spec [of "[]" ops]
  by (auto simp: AddSuppression_def Let_def find_Some_iff find_None_iff split: option.splits)
     (metis imageI nth_mem)

theorem AddSuppression_merge_lost_witness:
  "AddSuppression ''a.go:3'' [''empty_body'']
     (DefaultConfig\<lparr>cSuppress := [\<lparr>Location = ''a.go:3'', SuppressOps = [''sign_toggle'']\<rparr>]\<rparr>) =
   DefaultConfig\<lparr>cSuppress := [\<lparr>Location = ''a.go:3'', SuppressOps = [''sign_toggle'']\<rparr>]\<rparr>"
proof -
  have "TrimSpace ''a.go:3'' = ''a.go:3''" by (simp add: TrimSpace_def TrimBoth_def isSpace_def)
  then show ?thesis
    using AddSuppression_merge_lost [of "''a.go:3''"
      "DefaultConfig\<lparr>cSuppress := [\<lparr>Location = ''a.go:3'', SuppressOps = [''sign_toggle'']\<rparr>]\<rparr>"
      "[''empty_body'']"] by simp
qed

text \<open>
  \<open>Save\<close> loses settings: eight settings do not influence the text it writes at all
  (Go version, sub-config mode, threshold inheritance, violation mode, badge, chunking, build
  tags and the baseline's \<open>save\<close>), so loading a saved configuration resets them to their
  defaults.
\<close>

theorem Save_loses_settings:
  "saveContent (c\<lparr>cGoVersion := v, cSubConfigMode := m, cThresholdInherit := i,
     cViolationMode := w, cBadge := b, cChunkLargeFiles := l, cBuildTags := t,
     cBaseline := (cBaseline c)\<lparr>BaselineSave := s\<rparr>\<rparr>) = saveContent c"
  by (simp add: saveContent_def saveLines_def saveCore_def saveExternal_def saveFilters_def
        saveAdvanced_def saveRules_def)

end
