(* ===== verification/OrgPolicy.thy ===== *)
theory OrgPolicy
  imports Config Registry
begin

text \<open>
  \<open>internal/orgpolicy/enforce.go\<close>: what an organisation policy does to the root
  configuration (\<open>Apply\<close>, with the log of violations) and to a sub-configuration
  (\<open>ApplyToSubConfig\<close>, the locked settings). \<open>runtime.NumCPU()\<close> is the parameter \<open>ncpu\<close>.
\<close>

record Violation =
  Setting :: string
  Was :: string
  Enforced :: string
  Reason :: string

definition ViolationError :: "Violation \<Rightarrow> string" where
  "ViolationError v = ''org policy: '' @ Setting v @ '' was '' @ quoted (Was v) @ '', enforced to '' @
     quoted (Enforced v) @ '' ('' @ Reason v @ '')''"

subsection \<open>The single rules\<close>

fun addMissing :: "string list \<Rightarrow> string list \<Rightarrow> string list \<Rightarrow> string list \<Rightarrow>
    string list \<times> Violation list \<Rightarrow> string list \<times> Violation list" where
  "addMissing current existing valid [] st = st"
| "addMissing current existing valid (r # rs) (out, vs) =
     (let req = TrimSpace r in
      addMissing current existing valid rs
        (if req = '''' then (out, vs)
         else if req \<notin> set valid then
           (out, vs @ [\<lparr>Setting = ''required_operators'', Was = '''', Enforced = req,
                        Reason = ''unknown operator name in org policy''\<rparr>])
         else if req \<notin> set existing then
           (out @ [req],
            vs @ [\<lparr>Setting = ''operators'', Was = Join current '','', Enforced = req @ '' (injected)'',
                   Reason = ''required by org policy''\<rparr>])
         else (out, vs)))"

definition enforceRequiredOperators ::
  "string list \<Rightarrow> string list \<Rightarrow> operator list \<Rightarrow> Violation list \<Rightarrow> string list \<times> Violation list" where
  "enforceRequiredOperators current required allOps violations =
     (if list_ex (\<lambda>c. TrimSpace c = ''all'') current then (current, violations)
      else addMissing current (map TrimSpace current) (map OpName allOps) required
             (current, violations))"

definition enforceForbiddenOperators ::
  "string list \<Rightarrow> string list \<Rightarrow> operator list \<Rightarrow> Violation list \<Rightarrow> string list \<times> Violation list" where
  "enforceForbiddenOperators current forbidden allOps violations =
     (let effective = (if list_ex (\<lambda>c. TrimSpace c = ''all'') current then map OpName allOps
                       else current);
          deny = map TrimSpace forbidden;
          denied = (\<lambda>op. TrimSpace op \<in> set deny)
      in (filter (\<lambda>op. \<not> denied op) effective,
          violations @ map (\<lambda>op. \<lparr>Setting = ''operators'', Was = TrimSpace op,
              Enforced = ''(removed)'', Reason = ''forbidden by org policy''\<rparr>)
            (filter denied effective)))"

definition parseConcurrent :: "int \<Rightarrow> string \<Rightarrow> int" where
  "parseConcurrent ncpu val =
     (if val = ''all'' then ncpu
      else if val = ''half'' then (let n = ncpu div 2 in if n < 1 then 1 else n)
      else case Atoi val of
             None \<Rightarrow> ncpu
           | Some n \<Rightarrow> if n < 1 then ncpu else n)"

definition enforceMinConcurrent ::
  "int \<Rightarrow> string \<Rightarrow> int \<Rightarrow> Violation list \<Rightarrow> string \<times> Violation list" where
  "enforceMinConcurrent ncpu current mn violations =
     (if parseConcurrent ncpu current \<ge> mn then (current, violations)
      else (Itoa mn,
            violations @ [\<lparr>Setting = ''concurrent'', Was = current, Enforced = Itoa mn,
               Reason = ''below org min_concurrent ('' @ Itoa mn @ '')''\<rparr>]))"

fun mergeUnique :: "string list \<Rightarrow> string list \<Rightarrow> string list" where
  "mergeUnique base [] = base"
| "mergeUnique base (s # ss) = mergeUnique (if s \<in> set base then base else base @ [s]) ss"

subsection \<open>Apply\<close>

definition applyThreshold :: "OrgPolicy \<Rightarrow> Config \<times> Violation list \<Rightarrow> Config \<times> Violation list" where
  "applyThreshold p st = (case st of (c, vs) \<Rightarrow>
     if ThresholdFloor p > 0 \<and> cThreshold c < ThresholdFloor p then
       (c\<lparr>cThreshold := ThresholdFloor p\<rparr>,
        vs @ [\<lparr>Setting = ''threshold'', Was = fmtFixed 2 (cThreshold c),
               Enforced = fmtFixed 2 (ThresholdFloor p), Reason = ''below org threshold_floor''\<rparr>])
     else (c, vs))"

definition applyRequired ::
  "OrgPolicy \<Rightarrow> operator list \<Rightarrow> Config \<times> Violation list \<Rightarrow> Config \<times> Violation list" where
  "applyRequired p allOps st = (case st of (c, vs) \<Rightarrow>
     if RequiredOperators p \<noteq> [] then
       (let (ops, vs') = enforceRequiredOperators (cOperators c) (RequiredOperators p) allOps vs
        in (c\<lparr>cOperators := ops\<rparr>, vs'))
     else (c, vs))"

definition applyForbidden ::
  "OrgPolicy \<Rightarrow> operator list \<Rightarrow> Config \<times> Violation list \<Rightarrow> Config \<times> Violation list" where
  "applyForbidden p allOps st = (case st of (c, vs) \<Rightarrow>
     if ForbiddenOperators p \<noteq> [] then
       (let (ops, vs') = enforceForbiddenOperators (cOperators c) (ForbiddenOperators p) allOps vs
        in (c\<lparr>cOperators := ops\<rparr>, vs'))
     else (c, vs))"

definition applyPaths :: "OrgPolicy \<Rightarrow> Config \<times> Violation list \<Rightarrow> Config \<times> Violation list" where
  "applyPaths p st = (case st of (c, vs) \<Rightarrow>
     (let c1 = (if ForcedSkipPaths p \<noteq> [] then c\<lparr>cSkip := mergeUnique (cSkip c) (ForcedSkipPaths p)\<rparr>
                else c);
          c2 = (if ForcedExcludePatterns p \<noteq> []
                then c1\<lparr>cExclude := mergeUnique (cExclude c1) (ForcedExcludePatterns p)\<rparr> else c1)
      in (c2, vs)))"

definition applyCache :: "OrgPolicy \<Rightarrow> Config \<times> Violation list \<Rightarrow> Config \<times> Violation list" where
  "applyCache p st = (case st of (c, vs) \<Rightarrow>
     if RequireCache p = Some True \<and> \<not> cCache c then
       (c\<lparr>cCache := True\<rparr>,
        vs @ [\<lparr>Setting = ''cache'', Was = ''false'', Enforced = ''true'',
               Reason = ''require_cache set in org policy''\<rparr>])
     else (c, vs))"

definition applyConcurrent ::
  "OrgPolicy \<Rightarrow> int \<Rightarrow> Config \<times> Violation list \<Rightarrow> Config \<times> Violation list" where
  "applyConcurrent p ncpu st = (case st of (c, vs) \<Rightarrow>
     if MinConcurrent p > 0 then
       (let (s, vs') = enforceMinConcurrent ncpu (cConcurrent c) (MinConcurrent p) vs
        in (c\<lparr>cConcurrent := s\<rparr>, vs'))
     else (c, vs))"

definition ApplyPolicy ::
  "Config \<Rightarrow> OrgPolicy option \<Rightarrow> operator list \<Rightarrow> int \<Rightarrow> Config \<times> Violation list" where
  "ApplyPolicy cfg po allOps ncpu = (case po of
     None \<Rightarrow> (cfg, [])
   | Some p \<Rightarrow>
       if IsZero p then (cfg, [])
       else applyConcurrent p ncpu (applyCache p (applyPaths p
              (applyForbidden p allOps (applyRequired p allOps (applyThreshold p (cfg, [])))))))"

subsection \<open>Locked settings of a sub-configuration\<close>

definition lockedBy :: "OrgPolicy \<Rightarrow> string set" where
  "lockedBy p = (ToLower \<circ> TrimSpace) ` set (LockedSettings p)"

definition ApplyToSubConfig :: "SubConfig \<Rightarrow> OrgPolicy option \<Rightarrow> SubConfig" where
  "ApplyToSubConfig sc po = (case po of
     None \<Rightarrow> sc
   | Some p \<Rightarrow>
       if IsZero p \<or> LockedSettings p = [] then sc
       else let locked = lockedBy p in
         \<lparr>scOperators = (if ''operators'' \<in> locked then [] else scOperators sc),
          scThreshold = (if ''threshold'' \<in> locked then None else scThreshold sc),
          scTests = (if ''tests'' \<in> locked then [] else scTests sc),
          scConcurrent = (if ''concurrent'' \<in> locked then '''' else scConcurrent sc),
          scExclude = (if ''exclude'' \<in> locked then [] else scExclude sc),
          scInclude = (if ''include'' \<in> locked then [] else scInclude sc),
          scSkip = (if ''skip'' \<in> locked then [] else scSkip sc),
          scSkipFunc = (if ''skip_func'' \<in> locked then [] else scSkipFunc sc),
          scSuppress = (if ''suppress'' \<in> locked then [] else scSuppress sc),
          scDirRules = (if ''dir_rules'' \<in> locked then [] else scDirRules sc)\<rparr>)"

subsection \<open>Laws\<close>

lemma mergeUnique_set [simp]: "set (mergeUnique base ss) = set base \<union> set ss"
  by (induction base ss rule: mergeUnique.induct) auto

lemma mergeUnique_prefix: "\<exists>ext. mergeUnique base ss = base @ ext \<and> distinct ext \<and> set ext \<inter> set base = {}"
proof (induction base ss rule: mergeUnique.induct)
  case (2 base s ss)
  show ?case
  proof (cases "s \<in> set base")
    case True
    with 2 show ?thesis by simp
  next
    case False
    with 2 obtain ext where "mergeUnique (base @ [s]) ss = (base @ [s]) @ ext"
      "distinct ext" "set ext \<inter> set (base @ [s]) = {}" by auto
    with False show ?thesis by (intro exI [of _ "s # ext"]) auto
  qed
qed simp

lemma addMissing_out:
  "fst (addMissing cur ex valid rs (out, vs)) =
     out @ filter (\<lambda>r. r \<noteq> '''' \<and> r \<in> set valid \<and> r \<notin> set ex) (map TrimSpace rs)"
  by (induction cur ex valid rs "(out, vs)" arbitrary: out vs rule: addMissing.induct)
     (auto simp: Let_def)

text \<open>The operators an entry of the operator list stands for, as far as the policy sees it.\<close>

definition activeIn :: "string list \<Rightarrow> string \<Rightarrow> bool" where
  "activeIn ops name \<longleftrightarrow> ''all'' \<in> TrimSpace ` set ops \<or> name \<in> TrimSpace ` set ops"

lemma list_ex_all: "list_ex (\<lambda>c. TrimSpace c = ''all'') cs \<longleftrightarrow> ''all'' \<in> TrimSpace ` set cs"
  by (simp add: list_ex_iff image_iff) metis

lemma enforceRequired_out:
  "fst (enforceRequiredOperators cur required allOps vs) =
     (if ''all'' \<in> TrimSpace ` set cur then cur
      else cur @ filter (\<lambda>r. r \<noteq> '''' \<and> r \<in> OpName ` set allOps \<and> r \<notin> TrimSpace ` set cur)
             (map TrimSpace required))"
  by (simp add: enforceRequiredOperators_def list_ex_all addMissing_out)

lemma enforceForbidden_out:
  "fst (enforceForbiddenOperators cur forb allOps vs) =
     filter (\<lambda>op. TrimSpace op \<notin> TrimSpace ` set forb)
       (if ''all'' \<in> TrimSpace ` set cur then map OpName allOps else cur)"
  by (simp add: enforceForbiddenOperators_def list_ex_all Let_def)

lemma enforceForbidden_active:
  assumes "activeIn cur n" and "TrimSpace n = n" and "n \<notin> TrimSpace ` set forb"
    and "n \<in> OpName ` set allOps"
  shows "activeIn (fst (enforceForbiddenOperators cur forb allOps vs)) n"
proof (cases "''all'' \<in> TrimSpace ` set cur")
  case True
  with assms have "n \<in> set (fst (enforceForbiddenOperators cur forb allOps vs))"
    by (simp add: enforceForbidden_out)
  with assms(2) show ?thesis unfolding activeIn_def by (metis image_eqI)
next
  case False
  with assms(1) obtain x where "x \<in> set cur" "TrimSpace x = n" by (auto simp: activeIn_def)
  with False assms(3) have "x \<in> set (fst (enforceForbiddenOperators cur forb allOps vs))"
    by (simp add: enforceForbidden_out)
  with \<open>TrimSpace x = n\<close> show ?thesis unfolding activeIn_def by (metis image_eqI)
qed

lemma enforceMinConcurrent_floor:
  assumes "1 \<le> mn" "mn < 2 ^ 63"
  shows "mn \<le> parseConcurrent ncpu (fst (enforceMinConcurrent ncpu cur mn vs))"
proof -
  have "CHR ''a'' \<notin> set (Itoa mn)"
    using natDigits_digits [of "CHR ''a''" "nat mn"] assms by (auto simp: Itoa_def isDigit_def)
  then have "Itoa mn \<noteq> ''all''" "Itoa mn \<noteq> ''half''" by auto
  moreover have "Atoi (Itoa mn) = Some mn" using assms by simp
  ultimately show ?thesis using assms
    by (simp add: enforceMinConcurrent_def parseConcurrent_def)
qed

subsection \<open>Frames of the steps\<close>

lemma threshold_step [simp]:
  "cThreshold (fst (applyRequired p ops st)) = cThreshold (fst st)"
  "cThreshold (fst (applyForbidden p ops st)) = cThreshold (fst st)"
  "cThreshold (fst (applyPaths p st)) = cThreshold (fst st)"
  "cThreshold (fst (applyCache p st)) = cThreshold (fst st)"
  "cThreshold (fst (applyConcurrent p n st)) = cThreshold (fst st)"
  by (simp_all add: applyRequired_def applyForbidden_def applyPaths_def applyCache_def
        applyConcurrent_def case_prod_beta Let_def)

lemma operators_step [simp]:
  "cOperators (fst (applyThreshold p st)) = cOperators (fst st)"
  "cOperators (fst (applyPaths p st)) = cOperators (fst st)"
  "cOperators (fst (applyCache p st)) = cOperators (fst st)"
  "cOperators (fst (applyConcurrent p n st)) = cOperators (fst st)"
  by (simp_all add: applyThreshold_def applyPaths_def applyCache_def
        applyConcurrent_def case_prod_beta Let_def)

lemma paths_step [simp]:
  "cSkip (fst (applyCache p st)) = cSkip (fst st)"
  "cSkip (fst (applyConcurrent p n st)) = cSkip (fst st)"
  "cExclude (fst (applyCache p st)) = cExclude (fst st)"
  "cExclude (fst (applyConcurrent p n st)) = cExclude (fst st)"
  by (simp_all add: applyCache_def applyConcurrent_def case_prod_beta Let_def)

lemma cache_step [simp]: "cCache (fst (applyConcurrent p n st)) = cCache (fst st)"
  by (simp add: applyConcurrent_def case_prod_beta Let_def)

lemma required_ops:
  "cOperators (fst (applyRequired p ops st)) =
     fst (enforceRequiredOperators (cOperators (fst st)) (RequiredOperators p) ops [])"
  by (simp add: applyRequired_def case_prod_beta enforceRequired_out)

lemma forbidden_ops:
  "cOperators (fst (applyForbidden p ops st)) =
     (if ForbiddenOperators p = [] then cOperators (fst st)
      else fst (enforceForbiddenOperators (cOperators (fst st)) (ForbiddenOperators p) ops []))"
  by (simp add: applyForbidden_def case_prod_beta enforceForbidden_out)

lemma policy_operators:
  assumes "\<not> IsZero p"
  shows "cOperators (fst (ApplyPolicy cfg (Some p) ops ncpu)) =
     (let cur = fst (enforceRequiredOperators (cOperators cfg) (RequiredOperators p) ops [])
      in if ForbiddenOperators p = [] then cur
         else fst (enforceForbiddenOperators cur (ForbiddenOperators p) ops []))"
  using assms by (simp add: ApplyPolicy_def forbidden_ops required_ops Let_def)

subsection \<open>Properties\<close>

lemma ApplyPolicy_paths:
  assumes "\<not> IsZero p"
  shows "set (cSkip cfg) \<union> set (ForcedSkipPaths p) \<subseteq> set (cSkip (fst (ApplyPolicy cfg (Some p) ops ncpu)))"
    and "set (cExclude cfg) \<union> set (ForcedExcludePatterns p) \<subseteq> set (cExclude (fst (ApplyPolicy cfg (Some p) ops ncpu)))"
proof -
  have k: "cSkip (fst (applyForbidden p ops (applyRequired p ops (applyThreshold p (cfg, []))))) = cSkip cfg"
    "cExclude (fst (applyForbidden p ops (applyRequired p ops (applyThreshold p (cfg, []))))) = cExclude cfg"
    by (simp_all add: applyForbidden_def applyRequired_def applyThreshold_def case_prod_beta)
  have c: "ApplyPolicy cfg (Some p) ops ncpu = applyConcurrent p ncpu (applyCache p (applyPaths p
              (applyForbidden p ops (applyRequired p ops (applyThreshold p (cfg, []))))))"
    using assms by (simp add: ApplyPolicy_def)
  show "set (cSkip cfg) \<union> set (ForcedSkipPaths p) \<subseteq> set (cSkip (fst (ApplyPolicy cfg (Some p) ops ncpu)))"
    by (simp add: c, simp add: applyPaths_def case_prod_beta Let_def k)
  show "set (cExclude cfg) \<union> set (ForcedExcludePatterns p) \<subseteq> set (cExclude (fst (ApplyPolicy cfg (Some p) ops ncpu)))"
    by (simp add: c, simp add: applyPaths_def case_prod_beta Let_def k)
qed

text \<open>
  C28. The floors of a policy hold afterwards: threshold, cache, forced skip paths and exclude
  patterns, and the number of workers as it will be parsed later.
\<close>

theorem policy_floors_hold:
  fixes cfg :: Config and ops :: "operator list" and ncpu :: int
  assumes "\<not> IsZero p" and "MinConcurrent p < 2 ^ 63"
  defines "c \<equiv> fst (ApplyPolicy cfg (Some p) ops ncpu)"
  shows "(0 < ThresholdFloor p \<longrightarrow> ThresholdFloor p \<le> cThreshold c) \<and>
         (RequireCache p = Some True \<longrightarrow> cCache c) \<and>
         set (cSkip cfg) \<union> set (ForcedSkipPaths p) \<subseteq> set (cSkip c) \<and>
         set (cExclude cfg) \<union> set (ForcedExcludePatterns p) \<subseteq> set (cExclude c) \<and>
         MinConcurrent p \<le> max 0 (parseConcurrent ncpu (cConcurrent c))"
proof (intro conjI)
  have c: "c = fst (applyConcurrent p ncpu (applyCache p (applyPaths p
              (applyForbidden p ops (applyRequired p ops (applyThreshold p (cfg, [])))))))"
    using assms(1) by (simp add: c_def ApplyPolicy_def)
  show "0 < ThresholdFloor p \<longrightarrow> ThresholdFloor p \<le> cThreshold c"
    by (simp add: c applyThreshold_def)
  show "RequireCache p = Some True \<longrightarrow> cCache c"
    by (simp add: c, simp add: applyCache_def case_prod_beta)
  show "set (cSkip cfg) \<union> set (ForcedSkipPaths p) \<subseteq> set (cSkip c)"
    "set (cExclude cfg) \<union> set (ForcedExcludePatterns p) \<subseteq> set (cExclude c)"
    using ApplyPolicy_paths [OF assms(1)] by (simp_all add: c_def)
  show "MinConcurrent p \<le> max 0 (parseConcurrent ncpu (cConcurrent c))"
  proof (cases "0 < MinConcurrent p")
    case True
    then show ?thesis
      unfolding c applyConcurrent_def case_prod_beta
      using enforceMinConcurrent_floor [of "MinConcurrent p" ncpu] assms(2)
      by (simp add: Let_def case_prod_beta max.coboundedI2)
  qed simp
qed

text \<open>
  The operator lists of a policy hold afterwards for operator names: no forbidden name is
  left in the list (nor \<open>all\<close>, which is expanded), and every required name of a
  registered operator that is not forbidden as well is active.
\<close>

theorem policy_operator_lists_hold:
  fixes cfg :: Config and ops :: "operator list" and ncpu :: int
  assumes "\<not> IsZero p"
  defines "c \<equiv> fst (ApplyPolicy cfg (Some p) ops ncpu)"
  shows "(\<forall>name \<in> set (cOperators c). TrimSpace name \<notin> TrimSpace ` set (ForbiddenOperators p)) \<and>
         (\<forall>op \<in> set ops. TrimSpace (OpName op) = OpName op \<and> OpName op \<noteq> '''' \<and>
            OpName op \<in> TrimSpace ` set (RequiredOperators p) - TrimSpace ` set (ForbiddenOperators p) \<longrightarrow>
            activeIn (cOperators c) (OpName op))"
proof (intro conjI ballI impI)
  fix name assume "name \<in> set (cOperators c)"
  then show "TrimSpace name \<notin> TrimSpace ` set (ForbiddenOperators p)"
    by (simp add: c_def policy_operators [OF assms(1)] Let_def enforceForbidden_out split: if_splits)
next
  fix op assume op: "op \<in> set ops" and h: "TrimSpace (OpName op) = OpName op \<and> OpName op \<noteq> '''' \<and>
    OpName op \<in> TrimSpace ` set (RequiredOperators p) - TrimSpace ` set (ForbiddenOperators p)"
  define cur where "cur = fst (enforceRequiredOperators (cOperators cfg) (RequiredOperators p) ops [])"
  have "activeIn cur (OpName op)"
  proof (cases "''all'' \<in> TrimSpace ` set (cOperators cfg) \<or> OpName op \<in> TrimSpace ` set (cOperators cfg)")
    case True
    then show ?thesis by (auto simp: activeIn_def cur_def enforceRequired_out)
  next
    case False
    then have "OpName op \<in> set cur" using op h by (auto simp: cur_def enforceRequired_out)
    with h show ?thesis unfolding activeIn_def by (metis image_eqI)
  qed
  then show "activeIn (cOperators c) (OpName op)"
    using op h enforceForbidden_active [of cur "OpName op" "ForbiddenOperators p" ops]
    by (simp add: c_def policy_operators [OF assms(1)] Let_def cur_def [symmetric])
qed

definition samplePolicy :: OrgPolicy where
  "samplePolicy = \<lparr>ThresholdFloor = 80, RequiredOperators = [''empty_body''],
     ForbiddenOperators = ['' sign_toggle''], LockedSettings = [''Threshold''],
     ForcedSkipPaths = [''gen''], ForcedExcludePatterns = [''*.pb.go''], MinConcurrent = 4,
     RequireCache = Some True\<rparr>"

lemma samplePolicy_nonzero: "\<not> IsZero samplePolicy"
  by (simp add: samplePolicy_def IsZero_def)

theorem policy_floors_hold_witness:
  "80 \<le> cThreshold (fst (ApplyPolicy DefaultConfig (Some samplePolicy) allOperators 2))"
  using policy_floors_hold [OF samplePolicy_nonzero, of DefaultConfig allOperators 2]
  by (simp add: samplePolicy_def)

theorem policy_operator_lists_hold_witness:
  "''sign_toggle'' \<notin> set (cOperators (fst (ApplyPolicy DefaultConfig (Some samplePolicy) allOperators 2)))"
proof
  assume "''sign_toggle'' \<in> set (cOperators (fst (ApplyPolicy DefaultConfig (Some samplePolicy) allOperators 2)))"
  then have "TrimSpace ''sign_toggle'' \<notin> TrimSpace ` set (ForbiddenOperators samplePolicy)"
    using policy_operator_lists_hold [OF samplePolicy_nonzero, of DefaultConfig allOperators 2] by blast
  then show False by (simp add: samplePolicy_def TrimSpace_def TrimBoth_def isSpace_def)
qed

text \<open>Category names are neither \<open>all\<close> nor names of operators, and no name has white space.\<close>

lemma category_names_separate:
  assumes "(cat, names) \<in> set categoryMap"
  shows "TrimSpace cat \<noteq> ''all'' \<and> TrimSpace cat \<notin> TrimSpace ` set names"
proof -
  have "list_all (\<lambda>(c, ns). TrimSpace c \<noteq> ''all'' \<and> TrimSpace c \<notin> set (map TrimSpace ns)) categoryMap"
    unfolding categoryMap_def by code_simp
  with assms show ?thesis by (auto simp: list_all_iff)
qed

text \<open>
  A category name evades the policy: the configuration that selects one category passes
  unchanged a policy that forbids any operators of the category, and the category still
  resolves to them.
\<close>

theorem category_evades_forbidden:
  assumes "(cat, names) \<in> set categoryMap" and "set forb \<subseteq> set names" and "forb \<noteq> []"
  defines "p \<equiv> \<lparr>ThresholdFloor = 0, RequiredOperators = [], ForbiddenOperators = forb,
     LockedSettings = [], ForcedSkipPaths = [], ForcedExcludePatterns = [], MinConcurrent = 0,
     RequireCache = None\<rparr>"
  shows "cOperators (fst (ApplyPolicy (DefaultConfig\<lparr>cOperators := [cat]\<rparr>) (Some p) allOperators ncpu)) =
           [cat] \<and>
         (\<exists>ops. fst (GetCategory globalRegistry cat) = Some ops \<and> set forb \<subseteq> OpName ` set ops)"
proof
  have "\<not> IsZero p" using assms(3) by (simp add: p_def IsZero_def)
  moreover have "TrimSpace cat \<noteq> ''all''" "TrimSpace cat \<notin> TrimSpace ` set forb"
    using category_names_separate [OF assms(1)] assms(2) by blast+
  moreover have "fst (enforceForbiddenOperators [cat] forb allOperators []) = [cat]"
    using calculation by (auto simp: enforceForbidden_out)
  ultimately show "cOperators (fst (ApplyPolicy (DefaultConfig\<lparr>cOperators := [cat]\<rparr>) (Some p) allOperators ncpu)) = [cat]"
    using assms(3) by (simp add: policy_operators enforceRequired_out, simp add: p_def enforceRequired_out)
next
  show "\<exists>ops. fst (GetCategory globalRegistry cat) = Some ops \<and> set forb \<subseteq> OpName ` set ops"
    using GetCategory_global [OF assms(1)] assms(2) by auto
qed

theorem category_evades_forbidden_witness:
  "\<exists>ops. fst (GetCategory globalRegistry ''arithmetic'') = Some ops \<and>
     {''arithmetic_flip''} \<subseteq> OpName ` set ops"
  using category_evades_forbidden [of "''arithmetic''" "[''arithmetic_flip'']" "[''arithmetic_flip'']" 1]
  by (simp add: categoryMap_def)

end
