(* ===== verification/GoPath.thy ===== *)
theory GoPath
  imports GoStrings
begin

text \<open>
  Go's \<open>path/filepath\<close> on a Unix system, as the program uses it: a path is split at
  the separator, \<open>Clean\<close> resolves the dot components, and \<open>Join\<close>, \<open>Dir\<close>, \<open>Base\<close>,
  \<open>Rel\<close> and \<open>Abs\<close> are defined over it. \<open>Rel\<close> returns \<open>None\<close> where Go returns an
  error. The working directory that \<open>Abs\<close> needs is an argument.
\<close>

definition sep :: char where "sep = CHR ''/''"

definition IsAbs :: "string \<Rightarrow> bool" where
  "IsAbs p = HasPrefix p [sep]"

text \<open>One step of \<open>Clean\<close>: the stack of components kept so far, last one first.\<close>

fun clean_step :: "bool \<Rightarrow> string list \<Rightarrow> string \<Rightarrow> string list" where
  "clean_step rooted st c =
     (if c = [] \<or> c = ''.'' then st
      else if c = ''..'' then
        (case st of
           [] \<Rightarrow> if rooted then [] else [''..'']
         | x # xs \<Rightarrow> if x = ''..'' then ''..'' # st else xs)
      else c # st)"

definition clean_comps :: "bool \<Rightarrow> string list \<Rightarrow> string list" where
  "clean_comps rooted cs = rev (foldl (clean_step rooted) [] cs)"

definition Clean :: "string \<Rightarrow> string" where
  "Clean p =
     (let rooted = IsAbs p; cs = clean_comps rooted (Split p sep)
      in if rooted then sep # Join cs [sep]
         else if cs = [] then ''.'' else Join cs [sep])"

definition PathJoin :: "string list \<Rightarrow> string" where
  "PathJoin elems =
     (let es = filter (\<lambda>e. e \<noteq> []) elems in if es = [] then [] else Clean (Join es [sep]))"

definition Dir :: "string \<Rightarrow> string" where
  "Dir p = Clean (case LastIndexByte p sep of None \<Rightarrow> [] | Some i \<Rightarrow> take (Suc i) p)"

definition Base :: "string \<Rightarrow> string" where
  "Base p =
     (if p = [] then ''.''
      else let q = rev (dropWhile (\<lambda>c. c = sep) (rev p));
               r = (case LastIndexByte q sep of None \<Rightarrow> q | Some i \<Rightarrow> drop (Suc i) q)
           in if r = [] then [sep] else r)"

text \<open>The components a cleaned path compares by: none for the root and for a base of dot.\<close>

definition comps :: "string \<Rightarrow> string list" where
  "comps p = filter (\<lambda>c. c \<noteq> []) (Split p sep)"

fun strip_common :: "string list \<Rightarrow> string list \<Rightarrow> string list \<times> string list" where
  "strip_common (x # xs) (y # ys) =
     (if x = y then strip_common xs ys else (x # xs, y # ys))"
| "strip_common xs ys = (xs, ys)"

definition Rel :: "string \<Rightarrow> string \<Rightarrow> string option" where
  "Rel basepath targpath =
     (let base = Clean basepath; targ = Clean targpath in
      if targ = base then Some ''.''
      else let base' = (if base = ''.'' then [] else base) in
        if IsAbs base' \<noteq> IsAbs targ then None
        else (case strip_common (comps base') (comps targ) of
           (bs, ts) \<Rightarrow>
             if bs \<noteq> [] \<and> hd bs = ''..'' then None
             else Some (Join (replicate (length bs) ''..'' @ ts) [sep])))"

definition Abs :: "string \<Rightarrow> string \<Rightarrow> string" where
  "Abs cwd p = (if IsAbs p then Clean p else PathJoin [cwd, p])"

subsection \<open>Being below a directory\<close>

text \<open>The test the program writes in many places: equal, or below with a separator.\<close>

definition under :: "string \<Rightarrow> string \<Rightarrow> bool" where
  "under dir p = (p = dir \<or> HasPrefix p (dir @ [sep]))"

lemma under_refl [simp]: "under d d"
  by (simp add: under_def)

lemma under_trans: "under a b \<Longrightarrow> under b c \<Longrightarrow> under a c"
  unfolding under_def HasPrefix_iff by auto

lemma under_length: "under d p \<Longrightarrow> length d \<le> length p"
  unfolding under_def HasPrefix_iff by auto

text \<open>
  Two directories above the same path are comparable, so among them the longest is the
  innermost.
\<close>

lemma under_comparable:
  assumes "under a p" and "under b p" and "length a \<le> length b"
  shows "under a b"
proof -
  obtain x where x: "p = a @ x" "x = [] \<or> (\<exists>y. x = sep # y)"
    using assms(1) unfolding under_def HasPrefix_iff by auto
  obtain u where u: "p = b @ u" "u = [] \<or> (\<exists>y. u = sep # y)"
    using assms(2) unfolding under_def HasPrefix_iff by auto
  from x(1) u(1) assms(3) obtain w where w: "b = a @ w" "x = w @ u"
    by (metis append_eq_append_conv_if append_eq_conv_conj append_take_drop_id)
  show ?thesis
  proof (cases w)
    case Nil
    with w show ?thesis by simp
  next
    case (Cons c cs)
    with w x(2) have "c = sep" by auto
    with w Cons show ?thesis unfolding under_def HasPrefix_iff by auto
  qed
qed

lemma under_antisym: "under a b \<Longrightarrow> under b a \<Longrightarrow> a = b"
  unfolding under_def HasPrefix_iff by auto

lemma under_same_length:
  "under a p \<Longrightarrow> under b p \<Longrightarrow> length a = length b \<Longrightarrow> a = b"
  by (metis under_comparable under_antisym order_refl)

end
