(* ===== verification/SubConfigs.thy ===== *)
theory SubConfigs
  imports OrgPolicy GoPath "HOL-Library.Multiset"
begin

text \<open>
  \<open>internal/subconfig/resolver.go\<close>: discovery of the per-directory configurations below
  the project root and resolution of the settings that apply to a file. The directory tree is
  an argument; so are the reader of one sub-configuration (\<open>LoadSubConfig\<close>, \<open>None\<close> on an
  error), the working directory and the member modules of the Go workspace.
\<close>

record entry =
  dir :: string
  conf :: SubConfig

record Resolver =
  projectRoot :: string
  entries :: "entry list"
  policy :: "OrgPolicy option"
  mode :: SubConfigMode

subsection \<open>Discovery\<close>

datatype (plugins only: size code) fsnode = Leaf string | Folder string "fsnode list"

text \<open>
  \<open>filepath.Walk\<close> with the callback of \<open>walkRoot\<close>: the files visited, in order. The
  children of a folder stand in the order in which they are walked.
\<close>

definition skippedDir :: "string \<Rightarrow> bool" where
  "skippedDir name \<longleftrightarrow> name = ''vendor'' \<or> name = ''.git'' \<or> HasPrefix name ''_''"

fun walkFiles :: "string \<Rightarrow> fsnode \<Rightarrow> string list"
and walkChildren :: "string \<Rightarrow> fsnode list \<Rightarrow> string list" where
  "walkFiles path (Leaf name) = [path]"
| "walkFiles path (Folder name cs) = (if skippedDir name then [] else walkChildren path cs)"
| "walkChildren path [] = []"
| "walkChildren path (c # cs) =
     walkFiles (PathJoin [path, case c of Leaf n \<Rightarrow> n | Folder n _ \<Rightarrow> n]) c @ walkChildren path cs"

definition isSubConfigFile :: "string \<Rightarrow> string \<Rightarrow> string \<Rightarrow> bool" where
  "isSubConfigFile absRoot absRootConfig path \<longleftrightarrow>
     Base path = ''gorgon.yml'' \<and> path \<noteq> absRootConfig \<and>
     \<not> (Dir path = absRoot \<and> absRootConfig = '''')"

fun loadAll :: "(string \<Rightarrow> SubConfig option) \<Rightarrow> string list \<Rightarrow> entry list option" where
  "loadAll load [] = Some []"
| "loadAll load (p # ps) = (case load p of
     None \<Rightarrow> None
   | Some sc \<Rightarrow> map_option (\<lambda>es. \<lparr>dir = Dir p, conf = sc\<rparr> # es) (loadAll load ps))"

definition walkRoot ::
  "(string \<Rightarrow> fsnode) \<Rightarrow> (string \<Rightarrow> SubConfig option) \<Rightarrow> string \<Rightarrow> string \<Rightarrow> string \<Rightarrow> entry list option" where
  "walkRoot fs load absRoot absRootConfig rt =
     loadAll load (filter (isSubConfigFile absRoot absRootConfig) (walkFiles rt (fs rt)))"

fun walkRoots ::
  "(string \<Rightarrow> entry list option) \<Rightarrow> string list \<Rightarrow> entry list option" where
  "walkRoots walkOne [] = Some []"
| "walkRoots walkOne (r # rs) = (case walkOne r of
     None \<Rightarrow> None
   | Some es \<Rightarrow> map_option (\<lambda>es'. es @ es') (walkRoots walkOne rs))"

text \<open>
  The sort of the entries by the length of their directory is stable here; \<open>sort.Slice\<close>
  promises no order of equal lengths, and \<open>chain_sort_irrelevant\<close> below shows that none is
  needed.
\<close>

definition Discover ::
  "string \<Rightarrow> (string \<Rightarrow> fsnode) \<Rightarrow> (string \<Rightarrow> SubConfig option) \<Rightarrow> string list option \<Rightarrow>
   string \<Rightarrow> string \<Rightarrow> Resolver option" where
  "Discover cwd fs load wsModules rt rootConfigPath =
     (let absRoot = Abs cwd rt;
          absRootConfig = (if rootConfigPath \<noteq> '''' then Abs cwd rootConfigPath else '''');
          roots = (case wsModules of None \<Rightarrow> [absRoot] | Some ms \<Rightarrow> mergeUnique [absRoot] ms)
      in map_option (\<lambda>es. \<lparr>projectRoot = absRoot, entries = sort_key (length \<circ> dir) es,
                          policy = None, mode = ''''\<rparr>)
           (walkRoots (walkRoot fs load absRoot absRootConfig) roots))"

definition DiscoverWithPolicy ::
  "string \<Rightarrow> (string \<Rightarrow> fsnode) \<Rightarrow> (string \<Rightarrow> SubConfig option) \<Rightarrow> string list option \<Rightarrow>
   string \<Rightarrow> string \<Rightarrow> OrgPolicy option \<Rightarrow> Resolver option" where
  "DiscoverWithPolicy cwd fs load wsModules rt rootConfigPath pol =
     map_option (policy_update (\<lambda>_. pol)) (Discover cwd fs load wsModules rt rootConfigPath)"

definition SetMode :: "SubConfigMode \<Rightarrow> Resolver \<Rightarrow> Resolver" where
  "SetMode m r = r\<lparr>mode := m\<rparr>"

subsection \<open>Resolution\<close>

definition lockActive :: "Resolver \<Rightarrow> bool" where
  "lockActive r = (case policy r of None \<Rightarrow> False
     | Some p \<Rightarrow> \<not> IsZero p \<and> LockedSettings p \<noteq> [])"

definition lockSub :: "Resolver \<Rightarrow> SubConfig \<Rightarrow> SubConfig" where
  "lockSub r sc = (if lockActive r then ApplyToSubConfig sc (policy r) else sc)"

definition governs :: "string \<Rightarrow> entry \<Rightarrow> bool" where
  "governs fileDir e \<longleftrightarrow> fileDir = dir e \<or> HasPrefix (fileDir @ [sep]) (dir e @ [sep])"

definition chain :: "string \<Rightarrow> Resolver \<Rightarrow> string \<Rightarrow> SubConfig list" where
  "chain cwd r filePath =
     (let fileDir = Dir (Abs cwd filePath) in
      if mode r = SubConfigIsolate then
        (case find (\<lambda>e. dir e = fileDir) (rev (entries r)) of
           None \<Rightarrow> []
         | Some e \<Rightarrow> [lockSub r (conf e)])
      else if mode r = SubConfigReplace then
        (let ch = map conf (filter (governs fileDir) (entries r));
             deepest = (if ch \<noteq> [] then [last ch] else ch)
         in map (lockSub r) deepest)
      else map (lockSub r) (map conf (filter (governs fileDir) (entries r))))"

definition merging :: "Resolver \<Rightarrow> bool" where
  "merging r \<longleftrightarrow> mode r \<noteq> SubConfigIsolate \<and> mode r \<noteq> SubConfigReplace"

lemmas mode_defs = SubConfigMerge_def SubConfigReplace_def SubConfigIsolate_def

text \<open>The loop from the deepest to the shallowest entry that returns the first value set.\<close>

fun firstSome :: "('a \<Rightarrow> 'b option) \<Rightarrow> 'a list \<Rightarrow> 'b option" where
  "firstSome pick [] = None"
| "firstSome pick (x # xs) = (case pick x of None \<Rightarrow> firstSome pick xs | Some v \<Rightarrow> Some v)"

fun resolveNames :: "(string \<Rightarrow> operator option) \<Rightarrow> operator list \<Rightarrow> string list \<Rightarrow> operator list \<Rightarrow> operator list" where
  "resolveNames index allOps [] out = out"
| "resolveNames index allOps (n # ns) out =
     (let name = TrimSpace n in
      if name = ''all'' then allOps
      else resolveNames index allOps ns
             (case index name of Some op \<Rightarrow> out @ [op] | None \<Rightarrow> out))"

definition resolveOperatorNames :: "string list \<Rightarrow> operator list \<Rightarrow> operator list" where
  "resolveOperatorNames names allOps =
     resolveNames (map_of (rev (map (\<lambda>op. (OpName op, op)) allOps))) allOps names []"

definition pickOperators :: "operator list \<Rightarrow> SubConfig \<Rightarrow> operator list option" where
  "pickOperators allOps sc =
     (if scOperators sc = [] then None
      else let resolved = resolveOperatorNames (scOperators sc) allOps
           in if resolved \<noteq> [] then Some resolved else None)"

definition pickTests :: "SubConfig \<Rightarrow> string list option" where
  "pickTests sc = (if scTests sc \<noteq> [] then Some (scTests sc) else None)"

definition EffectiveOperators ::
  "string \<Rightarrow> Resolver \<Rightarrow> string \<Rightarrow> operator list \<Rightarrow> operator list \<Rightarrow> operator list" where
  "EffectiveOperators cwd r filePath base allOps =
     (case firstSome (pickOperators allOps) (rev (chain cwd r filePath)) of
        Some ops \<Rightarrow> ops | None \<Rightarrow> base)"

definition EffectiveThreshold :: "string \<Rightarrow> Resolver \<Rightarrow> string \<Rightarrow> rat \<Rightarrow> rat" where
  "EffectiveThreshold cwd r filePath rootThreshold =
     (case firstSome scThreshold (rev (chain cwd r filePath)) of
        Some t \<Rightarrow> t | None \<Rightarrow> rootThreshold)"

definition EffectiveTests :: "string \<Rightarrow> Resolver \<Rightarrow> string \<Rightarrow> string list \<Rightarrow> string list" where
  "EffectiveTests cwd r filePath rootTests =
     (case firstSome pickTests (rev (chain cwd r filePath)) of
        Some ts \<Rightarrow> ts | None \<Rightarrow> rootTests)"

definition EffectiveFilters ::
  "string \<Rightarrow> Resolver \<Rightarrow> string \<Rightarrow> Config \<Rightarrow> string list \<times> string list \<times> string list \<times> string list" where
  "EffectiveFilters cwd r filePath rt =
     (let ch = chain cwd r filePath in
      (cExclude rt @ concat (map scExclude ch), cInclude rt @ concat (map scInclude ch),
       cSkip rt @ concat (map scSkip ch), cSkipFunc rt @ concat (map scSkipFunc ch)))"

definition EffectiveSuppress ::
  "string \<Rightarrow> Resolver \<Rightarrow> string \<Rightarrow> SuppressEntry list \<Rightarrow> SuppressEntry list" where
  "EffectiveSuppress cwd r filePath rt = rt @ concat (map scSuppress (chain cwd r filePath))"

definition EffectiveDirRules ::
  "string \<Rightarrow> Resolver \<Rightarrow> string \<Rightarrow> DirOperatorRule list \<Rightarrow> DirOperatorRule list" where
  "EffectiveDirRules cwd r filePath rt = rt @ concat (map scDirRules (chain cwd r filePath))"

definition HasAnyOverrides :: "Resolver \<Rightarrow> bool" where
  "HasAnyOverrides r \<longleftrightarrow> entries r \<noteq> []"

subsection \<open>Laws of the chain\<close>

lemma governs_under: "governs d e \<longleftrightarrow> under (dir e) d"
proof
  assume "governs d e"
  then consider "d = dir e" | us where "d @ [sep] = dir e @ [sep] @ us"
    unfolding governs_def HasPrefix_iff by auto
  then show "under (dir e) d"
  proof cases
    case 2
    then show ?thesis by (cases us rule: rev_cases) (auto simp: under_def HasPrefix_iff)
  qed simp
next
  assume "under (dir e) d"
  then show "governs d e"
    unfolding governs_def under_def HasPrefix_iff by auto
qed

text \<open>What resolution relies on: the entries stand shallowest first.\<close>

definition resolver_ok :: "Resolver \<Rightarrow> bool" where
  "resolver_ok r \<longleftrightarrow> sorted (map (length \<circ> dir) (entries r))"

lemma Discover_ok: "Discover cwd fs load ws p rc = Some r \<Longrightarrow> resolver_ok r"
  by (auto simp: Discover_def resolver_ok_def Let_def sorted_sort_key simp del: map_map)

lemma sorted_split:
  "sorted (map f (xs @ y # ys)) \<Longrightarrow> (\<forall>x \<in> set xs. f x \<le> f y) \<and> (\<forall>z \<in> set ys. f y \<le> f z)"
  by (auto simp: sorted_append)

lemma firstSome_Some:
  "firstSome pick xs = Some v \<longleftrightarrow>
     (\<exists>us x ws. xs = us @ x # ws \<and> pick x = Some v \<and> (\<forall>u \<in> set us. pick u = None))"
proof (induction xs)
  case (Cons y ys)
  show ?case
  proof (cases "pick y")
    case None
    with Cons show ?thesis
      by (auto simp: Cons_eq_append_conv)
         (metis append_Cons set_ConsD, metis append_eq_Cons_conv list.set_intros(2) option.distinct(1))
  next
    case (Some w)
    then show ?thesis by (auto simp: Cons_eq_append_conv) force
  qed
qed simp

lemma firstSome_None: "firstSome pick xs = None \<longleftrightarrow> (\<forall>x \<in> set xs. pick x = None)"
  by (induction xs) (auto split: option.split)

lemma firstSome_map: "firstSome pick (map f xs) = firstSome (pick \<circ> f) xs"
  by (induction xs) (auto split: option.split)

text \<open>The entries that govern one directory are nested, so the last one set is the innermost.\<close>

lemma innermost_wins:
  assumes "sorted (map (length \<circ> dir) es)"
    and "firstSome pick (rev (filter (governs d) es)) = Some v"
  shows "\<exists>e \<in> set es. under (dir e) d \<and> pick e = Some v \<and>
    (\<forall>e' \<in> set es. under (dir e') d \<and> pick e' \<noteq> None \<longrightarrow> under (dir e') (dir e))"
proof -
  let ?fs = "filter (governs d) es"
  obtain us e ws where s: "rev ?fs = us @ e # ws" "pick e = Some v" "\<forall>u \<in> set us. pick u = None"
    using assms(2) by (auto simp: firstSome_Some)
  then have fs: "?fs = rev ws @ e # rev us"
    by (metis append.assoc append_Cons append_Nil rev.simps(2) rev_append rev_rev_ident)
  then have "e \<in> set ?fs" by simp
  then have e: "e \<in> set es" "under (dir e) d" by (simp_all add: governs_under)
  have srt: "sorted (map (length \<circ> dir) (rev ws @ e # rev us))"
    unfolding fs [symmetric] using assms(1) by (rule sorted_filter)
  have inner: "under (dir e') (dir e)" if "e' \<in> set es" "under (dir e') d" "pick e' \<noteq> None" for e'
  proof -
    have "e' \<in> set ?fs" using that governs_under by simp
    with fs s(3) that(3) have "e' = e \<or> e' \<in> set ws" by auto
    with sorted_split [OF srt] have "length (dir e') \<le> length (dir e)" by auto
    then show ?thesis by (rule under_comparable [OF that(2) e(2)])
  qed
  show ?thesis
    by (intro bexI [of _ e] conjI ballI impI e s(2)) (auto intro: inner)
qed

text \<open>Which order \<open>sort.Slice\<close> leaves among equal lengths does not matter.\<close>

lemma same_chain:
  assumes "sorted (map (length \<circ> dir) es)" "sorted (map (length \<circ> dir) es')" "mset es = mset es'"
    and cons: "\<forall>e \<in> set es. \<forall>e' \<in> set es. dir e = dir e' \<longrightarrow> e = e'"
  shows "filter (governs d) es = filter (governs d) es'"
proof -
  have inj: "inj_on (length \<circ> dir) (set (filter (governs d) es))"
  proof (rule inj_onI)
    fix x y assume "x \<in> set (filter (governs d) es)" "y \<in> set (filter (governs d) es)"
      and "(length \<circ> dir) x = (length \<circ> dir) y"
    moreover from this have "dir x = dir y"
      by (intro under_same_length [of _ d]) (simp_all add: governs_under)
    ultimately show "x = y" using cons by simp
  qed
  have "mset (filter (governs d) es) = mset (filter (governs d) es')"
    using assms(3) by simp
  moreover have "sort_key (length \<circ> dir) (filter (governs d) es) = filter (governs d) es'"
    by (rule sort_key_inj_key_eq [OF calculation inj sorted_filter [OF assms(2)]])
  moreover have "sort_key (length \<circ> dir) (filter (governs d) es) = filter (governs d) es"
    by (rule sort_key_inj_key_eq [OF refl inj sorted_filter [OF assms(1)]])
  ultimately show ?thesis by simp
qed

subsection \<open>Settings where the deepest value wins\<close>

text \<open>
  A setting of this kind is read by a function \<open>pick\<close> that depends only on what the setting's
  lock clears: nothing is left of it in a locked sub-configuration, and it is untouched in one
  where it is not locked.
\<close>

definition lockedOut :: "Resolver \<Rightarrow> string \<Rightarrow> bool" where
  "lockedOut r s \<longleftrightarrow> (\<exists>p. policy r = Some p \<and> \<not> IsZero p \<and> s \<in> lockedBy p)"

text \<open>
  The specification of such a setting in merge mode: the value of the innermost directory
  above the file that sets it, or the default.
\<close>

definition innermost ::
  "(SubConfig \<Rightarrow> 'v option) \<Rightarrow> entry set \<Rightarrow> string \<Rightarrow> 'v \<Rightarrow> 'v \<Rightarrow> bool" where
  "innermost pick E d dflt v \<longleftrightarrow>
     (\<exists>e \<in> E. under (dir e) d \<and> pick (conf e) = Some v \<and>
        (\<forall>e' \<in> E. under (dir e') d \<and> pick (conf e') \<noteq> None \<longrightarrow> under (dir e') (dir e))) \<or>
     ((\<forall>e \<in> E. under (dir e) d \<longrightarrow> pick (conf e) = None) \<and> v = dflt)"

locale deepest_setting =
  fixes pick :: "SubConfig \<Rightarrow> 'v option" and lock :: string
  assumes locked: "\<lbrakk>\<not> IsZero p; lock \<in> lockedBy p\<rbrakk> \<Longrightarrow> pick (ApplyToSubConfig sc (Some p)) = None"
    and unlocked: "lock \<notin> lockedBy p \<Longrightarrow> pick (ApplyToSubConfig sc (Some p)) = pick sc"
begin

lemma pick_lockSub: "pick (lockSub r sc) = (if lockedOut r lock then None else pick sc)"
  using locked unlocked
  by (auto simp: lockSub_def lockActive_def lockedBy_def lockedOut_def split: option.splits)

lemma locked_none:
  assumes "lockedOut r lock"
  shows "firstSome pick (rev (chain cwd r f)) = None"
proof -
  have "\<forall>sc \<in> set (chain cwd r f). pick sc = None"
    using assms by (auto simp: chain_def Let_def pick_lockSub split: option.splits)
  then show ?thesis by (simp add: firstSome_None)
qed

lemma merge_chain:
  assumes "merging r" "\<not> lockedOut r lock"
  shows "firstSome pick (rev (chain cwd r f)) =
    firstSome (pick \<circ> conf) (rev (filter (governs (Dir (Abs cwd f))) (entries r)))"
proof -
  have "pick \<circ> (lockSub r \<circ> (conf :: entry \<Rightarrow> SubConfig)) = pick \<circ> conf"
    using assms(2) by (auto simp: fun_eq_iff pick_lockSub)
  with assms(1) show ?thesis
    by (simp add: chain_def merging_def rev_map firstSome_map comp_assoc Let_def)
qed

lemma resolves:
  assumes "resolver_ok r" "merging r" "\<not> lockedOut r lock"
  shows "innermost pick (set (entries r)) (Dir (Abs cwd f)) dflt
    (case firstSome pick (rev (chain cwd r f)) of Some v \<Rightarrow> v | None \<Rightarrow> dflt)"
proof (cases "firstSome pick (rev (chain cwd r f))")
  case None
  then have "\<forall>e \<in> set (entries r). under (dir e) (Dir (Abs cwd f)) \<longrightarrow> pick (conf e) = None"
    by (simp add: merge_chain [OF assms(2,3)] firstSome_None governs_under)
  with None show ?thesis by (simp add: innermost_def)
next
  case (Some v)
  with innermost_wins [OF _ Some [unfolded merge_chain [OF assms(2,3)]]] assms(1)
  show ?thesis by (auto simp: resolver_ok_def innermost_def)
qed

end

lemmas ApplyToSubConfig_simps = ApplyToSubConfig_def lockedBy_def Let_def

interpretation threshold: deepest_setting scThreshold "''threshold''"
  by unfold_locales (auto simp: ApplyToSubConfig_simps)

interpretation tests: deepest_setting pickTests "''tests''"
  by unfold_locales (auto simp: ApplyToSubConfig_simps pickTests_def)

interpretation operators: deepest_setting "pickOperators allOps" "''operators''"
  by unfold_locales (auto simp: ApplyToSubConfig_simps pickOperators_def)

subsection \<open>Settings that add up\<close>

text \<open>
  The other settings are lists that grow from the root to the file: a locked one gets nothing
  from any sub-configuration, an unlocked one what every governing directory adds, outermost first.
\<close>

locale additive_setting =
  fixes field :: "SubConfig \<Rightarrow> 'v list" and lock :: string
  assumes locked: "\<lbrakk>\<not> IsZero p; lock \<in> lockedBy p\<rbrakk> \<Longrightarrow> field (ApplyToSubConfig sc (Some p)) = []"
    and unlocked: "lock \<notin> lockedBy p \<Longrightarrow> field (ApplyToSubConfig sc (Some p)) = field sc"
begin

lemma field_lockSub: "field (lockSub r sc) = (if lockedOut r lock then [] else field sc)"
  using locked unlocked
  by (auto simp: lockSub_def lockActive_def lockedBy_def lockedOut_def split: option.splits)

lemma locked_nothing: "lockedOut r lock \<Longrightarrow> concat (map field (chain cwd r f)) = []"
  by (auto simp: chain_def Let_def field_lockSub split: option.splits)

lemma collects:
  assumes "merging r" "\<not> lockedOut r lock"
  shows "concat (map field (chain cwd r f)) =
    concat (map (field \<circ> conf) (filter (governs (Dir (Abs cwd f))) (entries r)))"
proof -
  have "field \<circ> lockSub r = field" using assms(2) by (simp add: fun_eq_iff field_lockSub)
  then show ?thesis using assms(1) by (simp add: chain_def merging_def Let_def comp_assoc [symmetric])
qed

end

interpretation exclusions: additive_setting scExclude "''exclude''"
  by unfold_locales (auto simp: ApplyToSubConfig_simps)

interpretation inclusions: additive_setting scInclude "''include''"
  by unfold_locales (auto simp: ApplyToSubConfig_simps)

interpretation skips: additive_setting scSkip "''skip''"
  by unfold_locales (auto simp: ApplyToSubConfig_simps)

interpretation skip_funcs: additive_setting scSkipFunc "''skip_func''"
  by unfold_locales (auto simp: ApplyToSubConfig_simps)

interpretation suppresses: additive_setting scSuppress "''suppress''"
  by unfold_locales (auto simp: ApplyToSubConfig_simps)

interpretation rules_added: additive_setting scDirRules "''dir_rules''"
  by unfold_locales (auto simp: ApplyToSubConfig_simps)

interpretation workers: additive_setting scConcurrent "''concurrent''"
  by unfold_locales (auto simp: ApplyToSubConfig_simps)

lemma drop_last_one: "drop (length xs - Suc 0) xs = (if xs \<noteq> [] then [last xs] else xs)"
  by (cases xs rule: rev_cases) auto

lemma lockSub_mode [simp]: "lockSub (r\<lparr>mode := m\<rparr>) = lockSub r"
  by (simp add: lockSub_def lockActive_def fun_eq_iff)

lemma find_split:
  "find P xs = Some x \<Longrightarrow> \<exists>ws us. xs = ws @ x # us \<and> P x \<and> (\<forall>w \<in> set ws. \<not> P w)"
proof (induction xs)
  case (Cons y ys)
  show ?case
  proof (cases "P y")
    case True
    with Cons.prems show ?thesis by (intro exI [of _ "[]"] exI [of _ ys]) auto
  next
    case False
    with Cons obtain ws us where "ys = ws @ x # us" "P x" "\<forall>w \<in> set ws. \<not> P w" by auto
    with False show ?thesis by (intro exI [of _ "y # ws"] exI [of _ us]) auto
  qed
qed simp

lemma find_unique:
  assumes "set xs = set ys" and "\<forall>x \<in> set xs. \<forall>y \<in> set xs. P x \<and> P y \<longrightarrow> x = y"
  shows "find P xs = find P ys"
proof (cases "find P xs")
  case None
  with assms(1) have "find P ys = None" by (simp add: find_None_iff)
  with None show ?thesis by simp
next
  case (Some x)
  then have x: "x \<in> set xs" "P x" using find_split by fastforce+
  with assms(1) have "find P ys \<noteq> None" by (auto simp: find_None_iff)
  then obtain y where y: "find P ys = Some y" by auto
  then have "y \<in> set ys" "P y" using find_split by fastforce+
  with assms x have "x = y" by blast
  with Some y show ?thesis by simp
qed

text \<open>The entry isolate finds is the last one of the merge chain.\<close>

lemma last_governs:
  assumes "resolver_ok r" and "find (\<lambda>e. dir e = d) (rev (entries r)) = Some e"
  shows "filter (governs d) (entries r) \<noteq> [] \<and> last (filter (governs d) (entries r)) = e"
proof -
  obtain ws us where w: "rev (entries r) = ws @ e # us" "dir e = d" "\<forall>w \<in> set ws. dir w \<noteq> d"
    using find_split [OF assms(2)] by blast
  then have es: "entries r = rev us @ e # rev ws"
    by (metis append.assoc append_Cons append_Nil rev.simps(2) rev_append rev_rev_ident)
  have "\<not> governs d w" if m: "w \<in> set ws" for w
  proof
    assume "governs d w"
    then have u: "under (dir w) d" by (simp add: governs_under)
    have "length d \<le> length (dir w)"
      using sorted_split [of "length \<circ> dir" "rev us" e "rev ws"] assms(1) m w(2)
      by (simp add: resolver_ok_def es)
    with under_length [OF u] have "length (dir w) = length d" by simp
    with under_same_length [OF u under_refl] w(3) m show False by auto
  qed
  then have "filter (governs d) (rev ws) = []" by (auto simp: filter_empty_conv)
  moreover have "governs d e" using w(2) by (simp add: governs_def)
  ultimately show ?thesis by (simp add: es)
qed

lemma operator_names_trimmed: "list_all (\<lambda>n. TrimSpace n = n \<and> n \<noteq> ''all'' \<and> n \<noteq> '''') allNames"
  unfolding allNames_eval by code_simp

subsection \<open>Properties\<close>

text \<open>
  C29. In merge mode the threshold, the tests and the operators of a file, each unless the
  policy locks it, come from the innermost directory above it whose sub-configuration sets
  them, and from the root configuration where none does. A list of operators sets something if
  it names a known operator. Nothing else of the policy counts here: a threshold below its floor
  stays, and its lists of required and forbidden operators are not looked at.
\<close>

theorem innermost_override_wins:
  assumes "resolver_ok r" and "merging r"
  shows "(\<not> lockedOut r ''threshold'' \<longrightarrow>
            innermost scThreshold (set (entries r)) (Dir (Abs cwd f)) t (EffectiveThreshold cwd r f t)) \<and>
         (\<not> lockedOut r ''tests'' \<longrightarrow>
            innermost pickTests (set (entries r)) (Dir (Abs cwd f)) ts (EffectiveTests cwd r f ts)) \<and>
         (\<not> lockedOut r ''operators'' \<longrightarrow>
            innermost (pickOperators ops) (set (entries r)) (Dir (Abs cwd f)) base
              (EffectiveOperators cwd r f base ops))"
  unfolding EffectiveThreshold_def EffectiveTests_def EffectiveOperators_def
  using assms threshold.resolves tests.resolves operators.resolves by blast

definition sampleSub :: SubConfig where
  "sampleSub = \<lparr>scOperators = [''sign_toggle''], scThreshold = Some 50, scTests = [],
     scConcurrent = '''', scExclude = [], scInclude = [], scSkip = [], scSkipFunc = [],
     scSuppress = [], scDirRules = []\<rparr>"

definition sampleResolver :: Resolver where
  "sampleResolver = \<lparr>projectRoot = ''/p'', entries = [\<lparr>dir = ''/p/a'', conf = sampleSub\<rparr>],
     policy = None, mode = SubConfigMerge\<rparr>"

lemma sample_dir: "Dir (Abs ''/'' ''/p/a/x.go'') = ''/p/a''"
  by code_simp

theorem innermost_override_wins_witness:
  "EffectiveThreshold ''/'' sampleResolver ''/p/a/x.go'' 90 = 50"
  using innermost_override_wins [of sampleResolver "''/''" "''/p/a/x.go''" 90]
  by (simp add: sampleResolver_def resolver_ok_def lockedOut_def innermost_def sampleSub_def sample_dir
        merging_def mode_defs)

text \<open>
  C30. A setting the organisation policy locks is not touched by any sub-configuration, in any
  mode: threshold, tests and operators are the root's, the lists of filters, suppressions and
  directory rules are the root's with nothing added, and no sub-configuration sets the number of
  workers.
\<close>

theorem locked_settings_hold:
  "(lockedOut r ''threshold'' \<longrightarrow> EffectiveThreshold cwd r f t = t) \<and>
   (lockedOut r ''tests'' \<longrightarrow> EffectiveTests cwd r f ts = ts) \<and>
   (lockedOut r ''operators'' \<longrightarrow> EffectiveOperators cwd r f base ops = base) \<and>
   (case EffectiveFilters cwd r f cfg of (excl, incl, skp, skpFunc) \<Rightarrow>
      (lockedOut r ''exclude'' \<longrightarrow> excl = cExclude cfg) \<and>
      (lockedOut r ''include'' \<longrightarrow> incl = cInclude cfg) \<and>
      (lockedOut r ''skip'' \<longrightarrow> skp = cSkip cfg) \<and>
      (lockedOut r ''skip_func'' \<longrightarrow> skpFunc = cSkipFunc cfg)) \<and>
   (lockedOut r ''suppress'' \<longrightarrow> EffectiveSuppress cwd r f sups = sups) \<and>
   (lockedOut r ''dir_rules'' \<longrightarrow> EffectiveDirRules cwd r f rules = rules) \<and>
   (lockedOut r ''concurrent'' \<longrightarrow> concat (map scConcurrent (chain cwd r f)) = '''')"
  by (simp add: EffectiveThreshold_def EffectiveTests_def EffectiveOperators_def EffectiveFilters_def
        EffectiveSuppress_def EffectiveDirRules_def Let_def del: concat_eq_Nil_conv
        add: threshold.locked_none tests.locked_none operators.locked_none exclusions.locked_nothing inclusions.locked_nothing
        skips.locked_nothing skip_funcs.locked_nothing suppresses.locked_nothing rules_added.locked_nothing workers.locked_nothing)

theorem locked_settings_hold_witness:
  "EffectiveThreshold ''/'' (sampleResolver\<lparr>policy := Some samplePolicy\<rparr>) ''/p/a/x.go'' 90 = 90"
proof -
  have "lockedOut (sampleResolver\<lparr>policy := Some samplePolicy\<rparr>) ''threshold''"
    using samplePolicy_nonzero
    by (simp add: lockedOut_def lockedBy_def) (simp add: samplePolicy_def, code_simp)
  then show ?thesis using locked_settings_hold by blast
qed

text \<open>
  The three modes are nested: replace keeps the last sub-configuration of the merge chain,
  and isolate keeps either the same one or none.
\<close>

theorem modes_nested:
  assumes "resolver_ok r"
  shows "chain cwd (SetMode SubConfigReplace r) f =
           (let ch = chain cwd (SetMode SubConfigMerge r) f in drop (length ch - 1) ch) \<and>
         chain cwd (SetMode SubConfigIsolate r) f \<in> {[], chain cwd (SetMode SubConfigReplace r) f}"
proof
  show "chain cwd (SetMode SubConfigReplace r) f =
          (let ch = chain cwd (SetMode SubConfigMerge r) f in drop (length ch - 1) ch)"
    by (auto simp: chain_def mode_defs SetMode_def Let_def drop_map drop_last_one last_map)
  show "chain cwd (SetMode SubConfigIsolate r) f \<in> {[], chain cwd (SetMode SubConfigReplace r) f}"
  proof (cases "find (\<lambda>e. dir e = Dir (Abs cwd f)) (rev (entries r))")
    case None
    then show ?thesis by (simp add: chain_def mode_defs SetMode_def Let_def)
  next
    case (Some e)
    with last_governs [OF assms Some]
    show ?thesis by (auto simp: chain_def mode_defs SetMode_def Let_def last_map)
  qed
qed

theorem modes_nested_witness:
  "chain ''/'' (SetMode SubConfigReplace sampleResolver) ''/p/a/x.go'' = [sampleSub]"
  using modes_nested [of sampleResolver "''/''" "''/p/a/x.go''"]
  by (simp add: sampleResolver_def resolver_ok_def SetMode_def chain_def mode_defs sample_dir governs_def
        lockSub_def lockActive_def)

text \<open>
  Resolution does not depend on the order in which entries of the same depth stand: two
  resolvers with the same entries, each shallowest first, give every file the same chain.
\<close>

theorem chain_sort_irrelevant:
  assumes "resolver_ok r" and "resolver_ok (r\<lparr>entries := es\<rparr>)" and "mset es = mset (entries r)"
    and "\<forall>e \<in> set es. \<forall>e' \<in> set es. dir e = dir e' \<longrightarrow> e = e'"
  shows "chain cwd (r\<lparr>entries := es\<rparr>) f = chain cwd r f"
proof -
  let ?d = "Dir (Abs cwd f)"
  have "filter (governs ?d) es = filter (governs ?d) (entries r)"
    using assms by (intro same_chain) (simp_all add: resolver_ok_def)
  moreover have "find (\<lambda>e. dir e = ?d) (rev es) = find (\<lambda>e. dir e = ?d) (rev (entries r))"
    using assms(4) mset_eq_setD [OF assms(3)] by (intro find_unique) auto
  moreover have "lockSub (r\<lparr>entries := es\<rparr>) = lockSub r"
    by (simp add: lockSub_def lockActive_def fun_eq_iff)
  ultimately show ?thesis by (simp add: chain_def Let_def split: option.split)
qed

theorem chain_sort_irrelevant_witness:
  "chain ''/'' (sampleResolver\<lparr>entries := entries sampleResolver\<rparr>) ''/p/a/x.go'' =
   chain ''/'' sampleResolver ''/p/a/x.go''"
  using chain_sort_irrelevant [of sampleResolver "entries sampleResolver" "''/''" "''/p/a/x.go''"]
  by (simp add: sampleResolver_def resolver_ok_def)

text \<open>
  The floor of the policy does not reach sub-configurations: what they set stands, below the
  floor too, unless the policy locks the threshold.
\<close>

lemma sub_threshold_below_floor:
  assumes "under d (Dir (Abs cwd f))" "scThreshold sc = Some t" "''threshold'' \<notin> lockedBy p"
  shows "EffectiveThreshold cwd \<lparr>projectRoot = rt, entries = [\<lparr>dir = d, conf = sc\<rparr>], policy = Some p,
     mode = SubConfigMerge\<rparr> f rootThreshold = t"
  using assms governs_under
  by (auto simp: EffectiveThreshold_def chain_def mode_defs Let_def lockSub_def ApplyToSubConfig_def)

text \<open>
  A sub-configuration brings a forbidden operator back: with a policy that forbids an
  operator and locks nothing, a sub-configuration that names it alone makes it the operator
  of its directory; one that names only unknown operators is passed over.
\<close>

theorem forbidden_operator_returns:
  assumes "op \<in> set allOperators" and "under d (Dir (Abs cwd f))" and "LockedSettings p = []"
    and "ForbiddenOperators p = [OpName op]"
  shows "EffectiveOperators cwd \<lparr>projectRoot = rt, entries = [\<lparr>dir = d, conf = sc\<lparr>scOperators := [OpName op]\<rparr>\<rparr>],
            policy = Some p, mode = SubConfigMerge\<rparr> f base allOperators = [op] \<and>
         (n \<notin> insert ''all'' (OpName ` set allOperators) \<and> TrimSpace n = n \<longrightarrow>
          EffectiveOperators cwd \<lparr>projectRoot = rt, entries = [\<lparr>dir = d, conf = sc\<lparr>scOperators := [n]\<rparr>\<rparr>],
            policy = Some p, mode = SubConfigMerge\<rparr> f base allOperators = base)"
proof -
  have ch: "chain cwd \<lparr>projectRoot = rt, entries = [\<lparr>dir = d, conf = c\<rparr>], policy = Some p,
              mode = SubConfigMerge\<rparr> f = [c]" for c
    using assms(2, 3) governs_under
    by (simp add: chain_def mode_defs Let_def lockSub_def lockActive_def)
  have idx: "map_of (rev (map (\<lambda>op. (OpName op, op)) allOperators)) (OpName op) = Some op"
    using assms(1) allNames_distinct
    by (intro map_of_is_SomeI) (auto simp: allNames_def comp_def rev_map [symmetric])
  have name: "TrimSpace (OpName op) = OpName op \<and> OpName op \<noteq> ''all''"
    using operator_names_trimmed assms(1) by (auto simp: list_all_iff allNames_def)
  have none: "map_of (rev (map (\<lambda>op. (OpName op, op)) allOperators)) n = None"
    if "n \<notin> OpName ` set allOperators"
    using that by (auto simp: map_of_eq_None_iff image_iff)
  show ?thesis
    using idx name none
    by (auto simp: EffectiveOperators_def ch pickOperators_def resolveOperatorNames_def)
qed

theorem forbidden_operator_returns_witness:
  "EffectiveOperators ''/'' \<lparr>projectRoot = ''/p'', entries = [\<lparr>dir = ''/p/a'', conf = sampleSub\<lparr>scOperators := [OpName SignToggle]\<rparr>\<rparr>],
     policy = Some (samplePolicy\<lparr>LockedSettings := [], ForbiddenOperators := [OpName SignToggle]\<rparr>),
     mode = SubConfigMerge\<rparr> ''/p/a/x.go'' allOperators allOperators = [SignToggle]"
  using forbidden_operator_returns [of SignToggle "''/p/a''" "''/''" "''/p/a/x.go''"
     "samplePolicy\<lparr>LockedSettings := [], ForbiddenOperators := [OpName SignToggle]\<rparr>" "''/p''" sampleSub]
  by (simp add: allOperators_def sample_dir)

end
