(* ===== verification/Cache.thy ===== *)
theory Cache
  imports GoStrings
begin

text \<open>
  \<open>internal/cache/cache.go\<close>: the table of remembered mutant states. The digest
  (\<open>hex\<close> of \<open>sha256\<close>) is a parameter \<open>sha\<close> of \<open>Key\<close>; the lock is not
  modelled, the JSON file is the subject of \<open>CacheFile\<close>.
\<close>

record Entry =
  eStatus :: string

record Cache =
  Entries :: "string \<rightharpoonup> Entry"

definition NewCache :: Cache where
  "NewCache = \<lparr>Entries = Map.empty\<rparr>"

text \<open>The bytes \<open>Key\<close> digests.\<close>

definition keyBytes :: "string \<Rightarrow> int \<Rightarrow> int \<Rightarrow> nat \<Rightarrow> string \<Rightarrow> string \<Rightarrow> string" where
  "keyBytes filePath line col nodeType operator fileHash =
     filePath @ '':'' @ Itoa line @ '':'' @ Itoa col @ '':'' @ Itoa (int nodeType) @ '':'' @
     operator @ '':'' @ fileHash"

definition Key ::
  "(string \<Rightarrow> string) \<Rightarrow> string \<Rightarrow> int \<Rightarrow> int \<Rightarrow> nat \<Rightarrow> string \<Rightarrow> string \<Rightarrow> string" where
  "Key sha filePath line col nodeType operator fileHash =
     sha (keyBytes filePath line col nodeType operator fileHash)"

definition GetEntry :: "Cache \<Rightarrow> string \<Rightarrow> Entry option" where
  "GetEntry c key = Entries c key"

definition SetEntry :: "Cache \<Rightarrow> string \<Rightarrow> string \<Rightarrow> Cache" where
  "SetEntry c key status = c\<lparr>Entries := (Entries c)(key \<mapsto> \<lparr>eStatus = status\<rparr>)\<rparr>"

lemma Get_Set [simp]:
  "GetEntry (SetEntry c k s) k' = (if k' = k then Some \<lparr>eStatus = s\<rparr> else GetEntry c k')"
  by (simp add: GetEntry_def SetEntry_def)

subsection \<open>Keys are read back\<close>

lemma Itoa_no_colon: "CHR '':'' \<notin> set (Itoa n)"
  using natDigits_digits [of "CHR '':''"] by (auto simp: Itoa_def isDigit_def)

text \<open>A text after the last colon is determined, and so is what stands before it.\<close>

lemma last_colon:
  "\<lbrakk>xs @ '':'' @ b = ys @ '':'' @ b'; CHR '':'' \<notin> set b; CHR '':'' \<notin> set b'\<rbrakk> \<Longrightarrow> xs = ys \<and> b = b'"
proof -
  assume eq: "xs @ '':'' @ b = ys @ '':'' @ b'" and b: "CHR '':'' \<notin> set b" and b': "CHR '':'' \<notin> set b'"
  have r: "rev b @ CHR '':'' # rev xs = rev b' @ CHR '':'' # rev ys"
    using arg_cong [OF eq, of rev] by simp
  have "takeWhile (\<lambda>x. x \<noteq> CHR '':'') (rev b @ CHR '':'' # rev xs) = rev b"
    and "takeWhile (\<lambda>x. x \<noteq> CHR '':'') (rev b' @ CHR '':'' # rev ys) = rev b'"
    using b b' by (auto simp: takeWhile_tail)
  with r have "rev b = rev b'" by metis
  with r show ?thesis by simp
qed

lemma cache_bytes_inj:
  assumes "CHR '':'' \<notin> set p" "CHR '':'' \<notin> set p'" "CHR '':'' \<notin> set h" "CHR '':'' \<notin> set h'"
  shows "keyBytes f l c t p h = keyBytes f' l' c' t' p' h' \<longleftrightarrow>
           f = f' \<and> l = l' \<and> c = c' \<and> t = t' \<and> p = p' \<and> h = h'"
proof
  assume eq: "keyBytes f l c t p h = keyBytes f' l' c' t' p' h'"
  let ?k1 = "f @ '':'' @ Itoa l" and ?k1' = "f' @ '':'' @ Itoa l'"
  let ?k2 = "?k1 @ '':'' @ Itoa c" and ?k2' = "?k1' @ '':'' @ Itoa c'"
  let ?k3 = "?k2 @ '':'' @ Itoa (int t)" and ?k3' = "?k2' @ '':'' @ Itoa (int t')"
  have "(?k3 @ '':'' @ p) @ '':'' @ h = (?k3' @ '':'' @ p') @ '':'' @ h'"
    using eq by (simp add: keyBytes_def)
  from last_colon [OF this assms(3,4)] have 1: "?k3 @ '':'' @ p = ?k3' @ '':'' @ p'" "h = h'" by blast+
  from last_colon [OF 1(1) assms(1,2)] have 2: "?k3 = ?k3'" "p = p'" by blast+
  from last_colon [OF 2(1) Itoa_no_colon Itoa_no_colon]
  have 3: "?k2 = ?k2'" "Itoa (int t) = Itoa (int t')" by blast+
  from last_colon [OF 3(1) Itoa_no_colon Itoa_no_colon] have 4: "?k1 = ?k1'" "Itoa c = Itoa c'" by blast+
  from last_colon [OF 4(1) Itoa_no_colon Itoa_no_colon] have "f = f'" "Itoa l = Itoa l'" by blast+
  with 1 2 3 4 show "f = f' \<and> l = l' \<and> c = c' \<and> t = t' \<and> p = p' \<and> h = h'"
    by (simp add: Itoa_inj)
qed simp

text \<open>
  A cache key determines the site and operator it was made for, and the content of the
  file: two keys with the same bytes agree in path, line, column, node type, operator and
  file hash, whatever the path contains, since operators and hashes have no colon.
\<close>

theorem cache_key_injective:
  assumes "CHR '':'' \<notin> set p" "CHR '':'' \<notin> set p'" "CHR '':'' \<notin> set h" "CHR '':'' \<notin> set h'"
  shows "keyBytes f l c t p h = keyBytes f' l' c' t' p' h' \<longleftrightarrow>
           f = f' \<and> l = l' \<and> c = c' \<and> t = t' \<and> p = p' \<and> h = h'"
  using assms by (rule cache_bytes_inj)

theorem cache_key_injective_witness:
  "keyBytes ''a:3'' 4 5 1 ''sign_toggle'' ''ff'' \<noteq> keyBytes ''a'' 3 4 5 ''sign_toggle'' ''ff''"
  using cache_key_injective [of "''sign_toggle''" "''sign_toggle''" "''ff''" "''ff''"
    "''a:3''" 4 5 1 "''a''" 3 4 5] by simp

end
