(* ===== verification/Mutants.thy ===== *)
theory Mutants
  imports SubConfigs Cache SchemataHandlers
begin

text \<open>
  \<open>internal/core/mutants.go\<close> with the site of \<open>internal/engine/site.go\<close>: which mutants a
  list of sites yields under the operators, the directory rules and the sub-configurations,
  and what the cache resolves and remembers. The content hash of a file is a parameter
  \<open>hashFile\<close> (\<open>None\<close> on a read error), the digest of the cache keys is \<open>sha\<close>.
\<close>

record Site =
  sFile :: string
  sFileAST :: "node option"
  sLine :: int
  sColumn :: int
  sNode :: node
  sReturnType :: string
  sFunctionName :: string
  sEnclosingFunc :: "node option"

definition StatusKilled :: string where "StatusKilled = ''killed''"
definition StatusSurvived :: string where "StatusSurvived = ''survived''"
definition StatusUntested :: string where "StatusUntested = ''untested''"
definition StatusInvalid :: string where "StatusInvalid = ''invalid''"
definition StatusTimeout :: string where "StatusTimeout = ''timeout''"
definition StatusError :: string where "StatusError = ''error''"

record Mutant =
  mID :: int
  mSite :: Site
  mOperator :: operator
  mTempDir :: string
  mTempLine :: int
  mTempCol :: int
  mStatus :: string
  mError :: "string option"
  mKilledBy :: string
  mKillDuration :: int
  mKillOutput :: string
  mErrorReason :: string

definition newMutant :: "int \<Rightarrow> Site \<Rightarrow> operator \<Rightarrow> Mutant" where
  "newMutant i s op = \<lparr>mID = i, mSite = s, mOperator = op, mTempDir = '''', mTempLine = 0,
     mTempCol = 0, mStatus = '''', mError = None, mKilledBy = '''', mKillDuration = 0,
     mKillOutput = '''', mErrorReason = ''''\<rparr>"

text \<open>The index of a node type in the source's enumeration.\<close>

definition nodeTypeIndex :: "NodeType \<Rightarrow> nat" where
  "nodeTypeIndex t = (case t of
     NTUnknown \<Rightarrow> 0 | NTBinaryExpr \<Rightarrow> 1 | NTUnaryExpr \<Rightarrow> 2 | NTCallExpr \<Rightarrow> 3 | NTIdent \<Rightarrow> 4
   | NTBasicLit \<Rightarrow> 5 | NTCaseClause \<Rightarrow> 6 | NTIfStmt \<Rightarrow> 7 | NTForStmt \<Rightarrow> 8 | NTRangeStmt \<Rightarrow> 9
   | NTAssignStmt \<Rightarrow> 10 | NTIncDecStmt \<Rightarrow> 11 | NTDeferStmt \<Rightarrow> 12 | NTGoStmt \<Rightarrow> 13
   | NTSendStmt \<Rightarrow> 14 | NTSwitchStmt \<Rightarrow> 15 | NTTypeSwitchStmt \<Rightarrow> 16 | NTReturnStmt \<Rightarrow> 17
   | NTBranchStmt \<Rightarrow> 18 | NTSelectStmt \<Rightarrow> 19 | NTCommClause \<Rightarrow> 20 | NTLabeledStmt \<Rightarrow> 21
   | NTExprStmt \<Rightarrow> 22 | NTDeclStmt \<Rightarrow> 23 | NTErrStmt \<Rightarrow> 24 | NTBlockStmt \<Rightarrow> 25
   | NTFuncDecl \<Rightarrow> 26)"

definition NodeTypeToUint8 :: "node \<Rightarrow> nat" where
  "NodeTypeToUint8 n = nodeTypeIndex (NodeTypeOf n)"

subsection \<open>Directory rules\<close>

text \<open>The rule with the longest directory that matches, the first of equal ones.\<close>

definition ruleMatches :: "string \<Rightarrow> DirOperatorRule \<Rightarrow> bool" where
  "ruleMatches rel r \<longleftrightarrow> under (Clean (RuleDir r)) rel"

fun bestRule :: "string \<Rightarrow> DirOperatorRule list \<Rightarrow> int \<Rightarrow> DirOperatorRule option \<Rightarrow> DirOperatorRule option" where
  "bestRule rel [] bestLen best = best"
| "bestRule rel (r # rs) bestLen best =
     (if ruleMatches rel r \<and> bestLen < int (length (Clean (RuleDir r)))
      then bestRule rel rs (int (length (Clean (RuleDir r)))) (Some r)
      else bestRule rel rs bestLen best)"

definition effectiveOperators ::
  "string \<Rightarrow> string \<Rightarrow> operator list \<Rightarrow> DirOperatorRule list \<Rightarrow> operator list" where
  "effectiveOperators filePath projRoot base rules =
     (if rules = [] then base
      else case Rel projRoot filePath of
        None \<Rightarrow> base
      | Some rel \<Rightarrow>
          (case bestRule rel rules (-1) None of
             None \<Rightarrow> base
           | Some best \<Rightarrow>
               if Whitelist best \<noteq> [] then
                 filter (\<lambda>op. OpName op \<in> TrimSpace ` set (Whitelist best)) base
               else if Blacklist best \<noteq> [] then
                 (if list_ex (\<lambda>n. TrimSpace n = ''all'') (Blacklist best) then []
                  else filter (\<lambda>op. OpName op \<notin> TrimSpace ` set (Blacklist best)) base)
               else base))"

subsection \<open>Generation\<close>

definition siteContext :: "Site \<Rightarrow> Context" where
  "siteContext site = emptyContext\<lparr>ReturnType := sReturnType site, EnclosingFunc := sEnclosingFunc site\<rparr>"

definition canApply :: "operator \<Rightarrow> Site \<Rightarrow> bool" where
  "canApply op site = (case Contextual op of
     Some (canApplyWithContext, _) \<Rightarrow> canApplyWithContext (sNode site) (siteContext site)
   | None \<Rightarrow> CanApply op (sNode site))"

type_synonym siteKey = "string \<times> int \<times> int \<times> nat"

definition keyOfSite :: "Site \<Rightarrow> siteKey" where
  "keyOfSite s = (sFile s, sLine s, sColumn s, NodeTypeToUint8 (sNode s))"

text \<open>The operators in force at a site: sub-configurations first, then directory rules.\<close>

definition opsAt ::
  "string \<Rightarrow> operator list \<Rightarrow> operator list \<Rightarrow> string \<Rightarrow> DirOperatorRule list \<Rightarrow> Resolver option \<Rightarrow>
   Site \<Rightarrow> operator list" where
  "opsAt cwd ops allOps projRoot dirRules resolver site =
     (case resolver of
        Some r \<Rightarrow>
          if HasAnyOverrides r then
            effectiveOperators (sFile site) projRoot
              (EffectiveOperators cwd r (sFile site) ops allOps)
              (EffectiveDirRules cwd r (sFile site) dirRules)
          else effectiveOperators (sFile site) projRoot ops dirRules
      | None \<Rightarrow> effectiveOperators (sFile site) projRoot ops dirRules)"

fun siteMutants :: "Site \<Rightarrow> operator list \<Rightarrow> Mutant list \<times> int \<Rightarrow> Mutant list \<times> int" where
  "siteMutants site [] st = st"
| "siteMutants site (op # ops) (ms, mutantID) =
     siteMutants site ops
       (if canApply op site then (ms @ [newMutant mutantID site op], mutantID + 1)
        else (ms, mutantID))"

fun generateLoop ::
  "(Site \<Rightarrow> operator list) \<Rightarrow> Site list \<Rightarrow> siteKey list \<Rightarrow> Mutant list \<times> int \<Rightarrow> Mutant list \<times> int" where
  "generateLoop opsFor [] seen st = st"
| "generateLoop opsFor (site # sites) seen st =
     (let ops = opsFor site in
      if ops = [] then generateLoop opsFor sites seen st
      else if keyOfSite site \<in> set seen then generateLoop opsFor sites seen st
      else generateLoop opsFor sites (keyOfSite site # seen) (siteMutants site ops st))"

definition GenerateMutants ::
  "string \<Rightarrow> Site list \<Rightarrow> operator list \<Rightarrow> operator list \<Rightarrow> string \<Rightarrow> DirOperatorRule list \<Rightarrow>
   Resolver option \<Rightarrow> Mutant list" where
  "GenerateMutants cwd sites ops allOps projRoot dirRules resolver =
     fst (generateLoop (opsAt cwd ops allOps projRoot dirRules resolver) sites [] ([], 1))"

subsection \<open>Cache\<close>

definition mutantKey :: "(string \<Rightarrow> string) \<Rightarrow> Mutant \<Rightarrow> string \<Rightarrow> string" where
  "mutantKey sha m fh =
     Key sha (sFile (mSite m)) (sLine (mSite m)) (sColumn (mSite m))
       (NodeTypeToUint8 (sNode (mSite m))) (OpName (mOperator m)) fh"

text \<open>The hashes of the files of the mutants; a file that cannot be read has none.\<close>

fun collectHashes ::
  "(string \<Rightarrow> string option) \<Rightarrow> string list \<Rightarrow> (string \<rightharpoonup> string) \<Rightarrow> (string \<rightharpoonup> string)" where
  "collectHashes hashFile [] h = h"
| "collectHashes hashFile (f # fs) h =
     collectHashes hashFile fs
       (if h f = None then (case hashFile f of None \<Rightarrow> h | Some x \<Rightarrow> h(f \<mapsto> x)) else h)"

definition hashOf :: "(string \<rightharpoonup> string) \<Rightarrow> Mutant \<Rightarrow> string" where
  "hashOf h m = (case h (sFile (mSite m)) of None \<Rightarrow> '''' | Some x \<Rightarrow> x)"

definition cachedEntry ::
  "(string \<Rightarrow> string) \<Rightarrow> Cache \<Rightarrow> (string \<rightharpoonup> string) \<Rightarrow> Mutant \<Rightarrow> Entry option" where
  "cachedEntry sha c h m =
     (if hashOf h m = '''' then None else GetEntry c (mutantKey sha m (hashOf h m)))"

definition resolveOne ::
  "(string \<Rightarrow> string) \<Rightarrow> Cache \<Rightarrow> (string \<rightharpoonup> string) \<Rightarrow> Mutant \<Rightarrow> Mutant" where
  "resolveOne sha c h m = (case cachedEntry sha c h m of
     None \<Rightarrow> m | Some e \<Rightarrow> m\<lparr>mStatus := eStatus e\<rparr>)"

text \<open>The indices of the mutants that have no status.\<close>

definition pending :: "Mutant list \<Rightarrow> nat list" where
  "pending ms = filter (\<lambda>i. mStatus (ms ! i) = '''') [0..<length ms]"

definition ResolveCache ::
  "(string \<Rightarrow> string) \<Rightarrow> (string \<Rightarrow> string option) \<Rightarrow> Mutant list \<Rightarrow> Cache option \<Rightarrow>
   Mutant list \<times> nat list \<times> (string \<rightharpoonup> string) option" where
  "ResolveCache sha hashFile ms co = (case co of
     None \<Rightarrow> (ms, pending ms, None)
   | Some c \<Rightarrow>
       (let h = collectHashes hashFile (map (sFile \<circ> mSite) ms) Map.empty;
            cachedCount = length (filter (\<lambda>m. cachedEntry sha c h m \<noteq> None) ms);
            ms' = map (resolveOne sha c h) ms
        in if cachedCount = length ms then (ms', [], Some h)
           else (ms', pending ms', Some h)))"

fun saveLoop ::
  "(string \<Rightarrow> string) \<Rightarrow> (string \<rightharpoonup> string) \<Rightarrow> Mutant list \<Rightarrow> Cache \<Rightarrow> Cache" where
  "saveLoop sha h [] c = c"
| "saveLoop sha h (m # ms) c =
     saveLoop sha h ms
       (if mStatus m = '''' then c
        else if hashOf h m = '''' then c
        else SetEntry c (mutantKey sha m (hashOf h m)) (mStatus m))"

definition SaveCache ::
  "(string \<Rightarrow> string) \<Rightarrow> (string \<Rightarrow> string option) \<Rightarrow> Mutant list \<Rightarrow> Cache option \<Rightarrow>
   (string \<rightharpoonup> string) option \<Rightarrow> Cache option" where
  "SaveCache sha hashFile ms co ho = (case co of
     None \<Rightarrow> None
   | Some c \<Rightarrow>
       (let h = (case ho of Some h \<Rightarrow> h
                 | None \<Rightarrow> collectHashes hashFile
                     (map (sFile \<circ> mSite) (filter (\<lambda>m. mStatus m \<noteq> '''') ms)) Map.empty)
        in Some (saveLoop sha h ms c)))"

subsection \<open>Laws of generation\<close>

fun number :: "int \<Rightarrow> (Site \<times> operator) list \<Rightarrow> Mutant list" where
  "number k [] = []"
| "number k ((s, op) # ps) = newMutant k s op # number (k + 1) ps"

fun keepFirst :: "('a \<Rightarrow> 'k) \<Rightarrow> 'k list \<Rightarrow> 'a list \<Rightarrow> 'a list" where
  "keepFirst key seen [] = []"
| "keepFirst key seen (x # xs) =
     (if key x \<in> set seen then keepFirst key seen xs else x # keepFirst key (key x # seen) xs)"

definition sitePairs :: "(Site \<Rightarrow> operator list) \<Rightarrow> Site \<Rightarrow> (Site \<times> operator) list" where
  "sitePairs opsFor s = map (Pair s) (filter (\<lambda>op. canApply op s) (opsFor s))"

lemma number_append: "number k (ps @ qs) = number k ps @ number (k + int (length ps)) qs"
  by (induction k ps rule: number.induct) (auto simp: algebra_simps)

lemma number_pairs [simp]: "map (\<lambda>m. (mSite m, mOperator m)) (number k ps) = ps"
  by (induction k ps rule: number.induct) (auto simp: newMutant_def)

lemma length_number [simp]: "length (number k ps) = length ps"
  by (induction k ps rule: number.induct) auto

lemma number_ids: "map mID (number k ps) = map (\<lambda>i. k + int i) [0..<length ps]"
proof (induction k ps rule: number.induct)
  case (2 k s op ps)
  have "map (\<lambda>i. k + int i) [0..<Suc (length ps)] = k # map (\<lambda>i. k + 1 + int i) [0..<length ps]"
    by (simp add: upt_rec [of 0 "Suc (length ps)"] map_Suc_upt [symmetric] algebra_simps del: upt_Suc)
  with 2 show ?case by (simp add: newMutant_def del: upt_Suc)
qed simp

lemma siteMutants_number:
  "siteMutants site ops (ms, k) =
     (let ps = map (Pair site) (filter (\<lambda>op. canApply op site) ops)
      in (ms @ number k ps, k + int (length ps)))"
  by (induction site ops "(ms, k)" arbitrary: ms k rule: siteMutants.induct)
     (auto simp: Let_def)

lemma generateLoop_number:
  "generateLoop opsFor sites seen (ms, k) =
     (let ps = concat (map (sitePairs opsFor)
                 (keepFirst keyOfSite seen (filter (\<lambda>s. opsFor s \<noteq> []) sites)))
      in (ms @ number k ps, k + int (length ps)))"
proof (induction sites arbitrary: seen ms k)
  case (Cons s sites)
  then show ?case
    by (simp add: Let_def siteMutants_number sitePairs_def number_append)
qed simp

lemma keepFirst_subset: "set (keepFirst key seen xs) \<subseteq> set xs"
  by (induction key seen xs rule: keepFirst.induct) auto

lemma keepFirst_keys:
  "distinct (map key (keepFirst key seen xs)) \<and> set (map key (keepFirst key seen xs)) = key ` set xs - set seen"
  by (induction key seen xs rule: keepFirst.induct) auto

lemma generated_number:
  "GenerateMutants cwd sites ops allOps projRoot dirRules resolver =
     number 1 (concat (map (sitePairs (opsAt cwd ops allOps projRoot dirRules resolver))
       (keepFirst keyOfSite []
         (filter (\<lambda>s. opsAt cwd ops allOps projRoot dirRules resolver s \<noteq> []) sites))))"
  by (simp add: GenerateMutants_def generateLoop_number Let_def)

lemmas generated_pairs = arg_cong [OF generated_number, of "map (\<lambda>m. (mSite m, mOperator m))",
  unfolded number_pairs]

subsection \<open>Laws of the directory rules\<close>

lemma bestRule_spec:
  assumes "case best of None \<Rightarrow> bestLen = -1
    | Some b \<Rightarrow> ruleMatches rel b \<and> bestLen = int (length (Clean (RuleDir b)))"
  shows "case bestRule rel rules bestLen best of
      None \<Rightarrow> best = None \<and> (\<forall>r \<in> set rules. \<not> ruleMatches rel r)
    | Some b \<Rightarrow> (best = Some b \<or> b \<in> set rules) \<and> ruleMatches rel b \<and>
        bestLen \<le> int (length (Clean (RuleDir b))) \<and>
        (\<forall>r \<in> set rules. ruleMatches rel r \<longrightarrow> length (Clean (RuleDir r)) \<le> length (Clean (RuleDir b)))"
  using assms
proof (induction rel rules bestLen best rule: bestRule.induct)
  case (2 rel r rs bestLen best)
  show ?case
  proof (cases "ruleMatches rel r \<and> bestLen < int (length (Clean (RuleDir r)))")
    case True
    then show ?thesis using 2(1) by (auto split: option.splits)
  next
    case False
    with 2(3) have "case bestRule rel rs bestLen best of
      None \<Rightarrow> best = None \<and> (\<forall>r \<in> set rs. \<not> ruleMatches rel r)
    | Some b \<Rightarrow> (best = Some b \<or> b \<in> set rs) \<and> ruleMatches rel b \<and>
        bestLen \<le> int (length (Clean (RuleDir b))) \<and>
        (\<forall>r \<in> set rs. ruleMatches rel r \<longrightarrow> length (Clean (RuleDir r)) \<le> length (Clean (RuleDir b)))"
      using 2(2) by blast
    with False 2(3) show ?thesis by (auto split: option.splits)
  qed
qed (auto split: option.splits)

text \<open>The rule that counts is the one of the innermost directory.\<close>

lemma bestRule_innermost:
  assumes "bestRule rel rules (-1) None = Some b"
  shows "b \<in> set rules \<and> ruleMatches rel b \<and>
     (\<forall>r \<in> set rules. ruleMatches rel r \<longrightarrow> under (Clean (RuleDir r)) (Clean (RuleDir b)))"
proof -
  have b: "b \<in> set rules" "ruleMatches rel b"
    "\<And>r. r \<in> set rules \<Longrightarrow> ruleMatches rel r \<Longrightarrow> length (Clean (RuleDir r)) \<le> length (Clean (RuleDir b))"
    using bestRule_spec [where best = None and bestLen = "-1" and rel = rel and rules = rules] assms
    by simp_all
  have "under (Clean (RuleDir r)) (Clean (RuleDir b))" if "r \<in> set rules" "ruleMatches rel r" for r
    by (rule under_comparable [of _ rel]) (use b that in \<open>simp_all add: ruleMatches_def\<close>)
  with b(1,2) show ?thesis by simp
qed

lemma bestRule_None: "bestRule rel rules (-1) None = None \<longleftrightarrow> (\<forall>r \<in> set rules. \<not> ruleMatches rel r)"
  using bestRule_spec [where best = None and bestLen = "-1" and rel = rel and rules = rules] by (auto split: option.splits)

subsection \<open>Properties of generation\<close>

text \<open>
  C18. The generated mutants are numbered from one without gaps, and are exactly the pairs of
  a site and an operator in force there that says it applies, in the order of the sites and
  of their operators, where of several sites with the same file, line, column and node type
  the first one with any operator stands for all.
\<close>

theorem generated_mutants_exact:
  "let ms = GenerateMutants cwd sites ops allOps projRoot dirRules resolver;
       opsFor = opsAt cwd ops allOps projRoot dirRules resolver
   in map mID ms = map int [1..<Suc (length ms)] \<and>
      map (\<lambda>m. (mSite m, mOperator m)) ms =
        concat (map (\<lambda>s. map (Pair s) (filter (\<lambda>op. canApply op s) (opsFor s)))
          (keepFirst keyOfSite [] (filter (\<lambda>s. opsFor s \<noteq> []) sites)))"
proof -
  have "map (\<lambda>i. 1 + int i) [0..<n] = map int [1..<Suc n]" for n
    by (induction n) auto
  then show ?thesis
    by (simp add: generated_number number_ids sitePairs_def [abs_def] del: upt_Suc)
qed

lemma GenerateMutants_keys:
  assumes "m \<in> set (GenerateMutants cwd sites ops allOps projRoot dirRules resolver)"
    and "m' \<in> set (GenerateMutants cwd sites ops allOps projRoot dirRules resolver)"
    and "keyOfSite (mSite m) = keyOfSite (mSite m')"
  shows "mSite m = mSite m'"
proof -
  define opsFor where "opsFor = opsAt cwd ops allOps projRoot dirRules resolver"
  define kept where "kept = keepFirst keyOfSite [] (filter (\<lambda>s. opsFor s \<noteq> []) sites)"
  have gen: "map (\<lambda>m. (mSite m, mOperator m)) (GenerateMutants cwd sites ops allOps projRoot dirRules resolver) =
      concat (map (sitePairs opsFor) kept)"
    by (simp add: generated_pairs opsFor_def kept_def)
  have site: "mSite x \<in> set kept"
    if "x \<in> set (GenerateMutants cwd sites ops allOps projRoot dirRules resolver)" for x
  proof -
    have "(mSite x, mOperator x) \<in> set (concat (map (sitePairs opsFor) kept))"
      unfolding gen [symmetric] using that by force
    then show ?thesis by (auto simp: sitePairs_def)
  qed
  have "distinct (map keyOfSite kept)"
    unfolding kept_def using keepFirst_keys [of keyOfSite "[]"] by blast
  with site [OF assms(1)] site [OF assms(2)] assms(3) show ?thesis
    by (auto simp: distinct_map inj_on_def)
qed

text \<open>
  Directory rules only restrict: the operators in force are among the given ones, the
  innermost matching rule decides, its white list before its black list, and without a
  matching rule nothing changes.
\<close>

theorem dir_rules_restrict:
  assumes "Rel projRoot f = Some rel"
  shows "set (effectiveOperators f projRoot base rules) \<subseteq> set base \<and>
    ((\<forall>r \<in> set rules. \<not> ruleMatches rel r) \<longrightarrow> effectiveOperators f projRoot base rules = base) \<and>
    (\<forall>r \<in> set rules. ruleMatches rel r \<and>
       (\<forall>r' \<in> set rules. ruleMatches rel r' \<longrightarrow> r' = r \<or> \<not> under (Clean (RuleDir r)) (Clean (RuleDir r'))) \<longrightarrow>
       (Whitelist r \<noteq> [] \<longrightarrow> OpName ` set (effectiveOperators f projRoot base rules) \<subseteq> TrimSpace ` set (Whitelist r)) \<and>
       (Whitelist r = [] \<longrightarrow> OpName ` set (effectiveOperators f projRoot base rules) \<inter> TrimSpace ` set (Blacklist r) = {}))"
proof (intro conjI ballI impI)
  show "set (effectiveOperators f projRoot base rules) \<subseteq> set base"
    by (auto simp: effectiveOperators_def split: option.splits if_splits)
next
  assume "\<forall>r \<in> set rules. \<not> ruleMatches rel r"
  then have "bestRule rel rules (-1) None = None" by (simp add: bestRule_None)
  then show "effectiveOperators f projRoot base rules = base"
    using assms by (simp add: effectiveOperators_def)
next
  fix r assume r: "r \<in> set rules" and h: "ruleMatches rel r \<and>
    (\<forall>r' \<in> set rules. ruleMatches rel r' \<longrightarrow> r' = r \<or> \<not> under (Clean (RuleDir r)) (Clean (RuleDir r')))"
  then have "bestRule rel rules (-1) None \<noteq> None" by (auto simp: bestRule_None)
  then obtain b where b: "bestRule rel rules (-1) None = Some b" by auto
  with bestRule_innermost [OF b] r h have best: "bestRule rel rules (-1) None = Some r" by blast
  show "OpName ` set (effectiveOperators f projRoot base rules) \<subseteq> TrimSpace ` set (Whitelist r)"
    if "Whitelist r \<noteq> []"
    using assms best r that by (auto simp: effectiveOperators_def)
  show "OpName ` set (effectiveOperators f projRoot base rules) \<inter> TrimSpace ` set (Blacklist r) = {}"
    if "Whitelist r = []"
    using assms best r that by (cases "rules = []") (auto simp: effectiveOperators_def)
qed

lemma sample_rel: "Rel ''/p'' ''/p/a/x.go'' = Some ''a/x.go''"
  by code_simp

lemma sample_rule: "ruleMatches ''a/x.go'' \<lparr>RuleDir = ''a'', Whitelist = [], Blacklist = ['' sign_toggle'']\<rparr>"
  unfolding ruleMatches_def under_def by code_simp

theorem dir_rules_restrict_witness:
  "SignToggle \<notin> set (effectiveOperators ''/p/a/x.go'' ''/p'' [EmptyBody, SignToggle]
     [\<lparr>RuleDir = ''a'', Whitelist = [], Blacklist = ['' sign_toggle'']\<rparr>])"
proof
  let ?rule = "\<lparr>RuleDir = ''a'', Whitelist = [], Blacklist = ['' sign_toggle'']\<rparr>"
  assume "SignToggle \<in> set (effectiveOperators ''/p/a/x.go'' ''/p'' [EmptyBody, SignToggle] [?rule])"
  then have "OpName SignToggle \<in> OpName ` set (effectiveOperators ''/p/a/x.go'' ''/p'' [EmptyBody, SignToggle] [?rule])"
    by (rule imageI)
  with dir_rules_restrict [OF sample_rel, of "[EmptyBody, SignToggle]" "[?rule]"] sample_rule
  have "OpName SignToggle \<notin> TrimSpace ` set (Blacklist ?rule)" by auto
  then show False by (simp add: SignToggle_def plainOperator_def TrimSpace_def TrimBoth_def isSpace_def)
qed

subsection \<open>Properties of the cache\<close>

lemma collectHashes_lookup:
  "collectHashes hf fs h f = (case h f of Some x \<Rightarrow> Some x | None \<Rightarrow> if f \<in> set fs then hf f else None)"
  by (induction hf fs h rule: collectHashes.induct) (auto split: option.splits)

definition saved :: "(string \<rightharpoonup> string) \<Rightarrow> Mutant \<Rightarrow> bool" where
  "saved h m \<longleftrightarrow> mStatus m \<noteq> '''' \<and> hashOf h m \<noteq> ''''"

lemma saveLoop_other:
  "k \<notin> (\<lambda>m. mutantKey sha m (hashOf h m)) ` set (filter (saved h) ms) \<Longrightarrow>
     GetEntry (saveLoop sha h ms c) k = GetEntry c k"
  by (induction sha h ms c rule: saveLoop.induct) (auto simp: saved_def split: if_splits)

lemma saveLoop_saved:
  "\<lbrakk>inj_on (\<lambda>m. mutantKey sha m (hashOf h m)) (set (filter (saved h) ms)); distinct ms;
    m \<in> set ms; saved h m\<rbrakk> \<Longrightarrow>
     GetEntry (saveLoop sha h ms c) (mutantKey sha m (hashOf h m)) = Some \<lparr>eStatus = mStatus m\<rparr>"
proof (induction sha h ms c rule: saveLoop.induct)
  case (2 sha h m' ms c)
  let ?c = "if mStatus m' = '''' then c else if hashOf h m' = '''' then c
            else SetEntry c (mutantKey sha m' (hashOf h m')) (mStatus m')"
  have inj: "inj_on (\<lambda>m. mutantKey sha m (hashOf h m)) (set (filter (saved h) ms))"
    using 2(2) by (auto simp: inj_on_def split: if_splits)
  show ?case
  proof (cases "m = m'")
    case True
    then have "mutantKey sha m (hashOf h m) \<notin> (\<lambda>m. mutantKey sha m (hashOf h m)) ` set (filter (saved h) ms)"
      using 2(2,3,5) by (auto simp: inj_on_def)
    from saveLoop_other [OF this, of ?c] True 2(5) show ?thesis by (simp add: saved_def)
  next
    case False
    with 2 inj show ?thesis by auto
  qed
qed simp

definition clearStatus :: "Mutant \<Rightarrow> Mutant" where
  "clearStatus m = m\<lparr>mStatus := ''''\<rparr>"

definition mutantBytes :: "Mutant \<Rightarrow> string \<Rightarrow> string" where
  "mutantBytes m fh = keyBytes (sFile (mSite m)) (sLine (mSite m)) (sColumn (mSite m))
     (NodeTypeToUint8 (sNode (mSite m))) (OpName (mOperator m)) fh"

lemma mutantKey_bytes: "mutantKey sha m fh = sha (mutantBytes m fh)"
  by (simp add: mutantKey_def Key_def mutantBytes_def)

lemma mutantBytes_inj:
  assumes "mutantBytes m h = mutantBytes m' h'"
    and "CHR '':'' \<notin> set (OpName (mOperator m))" "CHR '':'' \<notin> set (OpName (mOperator m'))"
    and "CHR '':'' \<notin> set h" "CHR '':'' \<notin> set h'"
  shows "keyOfSite (mSite m) = keyOfSite (mSite m') \<and> OpName (mOperator m) = OpName (mOperator m') \<and> h = h'"
  using assms by (simp add: mutantBytes_def keyOfSite_def cache_bytes_inj)

lemma keys_separate:
  assumes dist: "distinct (map (\<lambda>m. (keyOfSite (mSite m), OpName (mOperator m))) ms)"
    and colon: "\<forall>f. CHR '':'' \<notin> set (old f) \<and> CHR '':'' \<notin> set (new f)"
      "\<forall>m \<in> set ms. CHR '':'' \<notin> set (OpName (mOperator m))"
    and coll: "inj_on sha (\<Union>m \<in> set ms. {mutantBytes m (old (sFile (mSite m))), mutantBytes m (new (sFile (mSite m)))})"
    and m: "m1 \<in> set ms" "m2 \<in> set ms" "sha (mutantBytes m1 x1) = sha (mutantBytes m2 x2)"
      "x1 \<in> {old (sFile (mSite m1)), new (sFile (mSite m1))}"
      "x2 \<in> {old (sFile (mSite m2)), new (sFile (mSite m2))}"
  shows "m1 = m2 \<and> x1 = x2"
proof -
  have "mutantBytes m1 x1 = mutantBytes m2 x2"
    using coll m by (auto simp: inj_on_def)
  from mutantBytes_inj [OF this] colon m
  have "keyOfSite (mSite m1) = keyOfSite (mSite m2) \<and> OpName (mOperator m1) = OpName (mOperator m2) \<and> x1 = x2"
    by auto
  with dist m(1,2) show ?thesis by (auto simp: distinct_map inj_on_def)
qed

text \<open>When every mutant is found, and a found one gets a status, none is left to run.\<close>

lemma all_cached:
  assumes "\<forall>m \<in> set ms. cachedEntry sha c h (clearStatus m) \<noteq> None \<longrightarrow> mStatus (want m) \<noteq> ''''"
    and "length (filter (\<lambda>m. cachedEntry sha c h m \<noteq> None) (map clearStatus ms)) = length (map clearStatus ms)"
  shows "pending (map want ms) = []"
proof -
  have "\<forall>m \<in> set ms. cachedEntry sha c h (clearStatus m) \<noteq> None"
    using assms(2) length_filter_less [of _ "map clearStatus ms" "\<lambda>m. cachedEntry sha c h m \<noteq> None"]
    by fastforce
  with assms(1) show ?thesis by (auto simp: pending_def filter_empty_conv)
qed


definition sampleMutant :: "int \<Rightarrow> string \<Rightarrow> string \<Rightarrow> Mutant" where
  "sampleMutant i f status = (newMutant i \<lparr>sFile = f, sFileAST = None, sLine = 1, sColumn = 2,
     sNode = Ident 1 ''x'', sReturnType = '''', sFunctionName = '''', sEnclosingFunc = None\<rparr>
     SignToggle)\<lparr>mStatus := status\<rparr>"

lemma sampleMutant_simps [simp]:
  "sFile (mSite (sampleMutant i f st)) = f" "mStatus (sampleMutant i f st) = st"
  "OpName (mOperator (sampleMutant i f st)) = ''sign_toggle''"
  "clearStatus (sampleMutant i f st) = sampleMutant i f ''''"
  "keyOfSite (mSite (sampleMutant i f st)) = (f, 1, 2, 4)"
  by (simp_all add: sampleMutant_def newMutant_def SignToggle_def plainOperator_def clearStatus_def
        keyOfSite_def NodeTypeToUint8_def NodeTypeOf_def nodeTypeIndex_def)


end
