(* ===== verification/Transform.thy ===== *)
theory Transform
  imports Mutants SchemataProps
begin

text \<open>
  \<open>internal/core/transform.go\<close>: the visitor that puts the schemata of the mutants into a
  file, the table it reads (mutants by position and node type), the check of a replacement,
  the blank uses of loop variables, and the scan of the printed file for the lines of the
  mutants. Positions (\<open>fset.Position\<close>) are a parameter giving line and column. The traversal
  (\<open>astutil.Apply\<close>) is third-party: the visitor is a function of the parent and the node
  that yields the replacement which the cursor accepts for the field of the parent.
\<close>

type_synonym posKey = "int \<times> int \<times> nat"

definition nodeKey :: "(int \<Rightarrow> int \<times> int) \<Rightarrow> node \<Rightarrow> posKey" where
  "nodeKey position n = (case GetNodePosition n position of (l, c) \<Rightarrow> (l, c, NodeTypeToUint8 n))"

definition forSite :: "Mutant \<Rightarrow> MutantForSite" where
  "forSite m = \<lparr>msID = mID m, msOp = mOperator m, msReturnType = sReturnType (mSite m),
     msEnclosingFunc = sEnclosingFunc (mSite m)\<rparr>"

definition mutantPosKey :: "Mutant \<Rightarrow> posKey" where
  "mutantPosKey m = (sLine (mSite m), sColumn (mSite m), NodeTypeToUint8 (sNode (mSite m)))"

definition buildPositionToMutantsMap :: "Mutant list \<Rightarrow> (posKey \<rightharpoonup> MutantForSite list)" where
  "buildPositionToMutantsMap mutants =
     foldl (\<lambda>tab m. tab(mutantPosKey m \<mapsto>
              (case tab (mutantPosKey m) of None \<Rightarrow> [] | Some ms \<Rightarrow> ms) @ [forSite m]))
       Map.empty mutants"

subsection \<open>Constants\<close>

definition constValues :: "node \<Rightarrow> node list" where
  "constValues n = (case n of
     GenDecl _ _ tok _ specs _ \<Rightarrow>
       if tok = T_CONST then
         concat (map (\<lambda>spec. case spec of ValueSpec _ _ _ vals _ \<Rightarrow> vals | _ \<Rightarrow> []) specs)
       else []
   | _ \<Rightarrow> [])"

text \<open>Every node below a value of a constant declaration.\<close>

definition findConstNodes :: "node \<Rightarrow> node list" where
  "findConstNodes fl = concat (map (\<lambda>n. concat (map nodes (constValues n))) (nodes fl))"

subsection \<open>Replacement\<close>

definition validNodeTypeReplacements :: "NodeType \<Rightarrow> NodeType list option" where
  "validNodeTypeReplacements t = (case t of
     NTBinaryExpr \<Rightarrow> Some [NTBinaryExpr, NTCallExpr]
   | NTUnaryExpr \<Rightarrow> Some [NTUnaryExpr, NTCallExpr]
   | NTCallExpr \<Rightarrow> Some [NTCallExpr]
   | NTIdent \<Rightarrow> Some [NTIdent, NTCallExpr, NTBasicLit]
   | NTBasicLit \<Rightarrow> Some [NTBasicLit, NTCallExpr, NTIdent]
   | NTCaseClause \<Rightarrow> Some [NTCaseClause]
   | NTIfStmt \<Rightarrow> Some [NTIfStmt, NTBlockStmt]
   | NTForStmt \<Rightarrow> Some [NTForStmt, NTBlockStmt]
   | NTRangeStmt \<Rightarrow> Some [NTRangeStmt, NTBlockStmt]
   | NTAssignStmt \<Rightarrow> Some [NTAssignStmt, NTBlockStmt, NTExprStmt]
   | NTIncDecStmt \<Rightarrow> Some [NTIncDecStmt, NTCallExpr, NTBlockStmt]
   | NTDeferStmt \<Rightarrow> Some [NTDeferStmt, NTExprStmt, NTErrStmt, NTBlockStmt]
   | NTGoStmt \<Rightarrow> Some [NTGoStmt, NTExprStmt, NTErrStmt, NTBlockStmt]
   | NTSendStmt \<Rightarrow> Some [NTSendStmt, NTCallExpr, NTBlockStmt]
   | NTSwitchStmt \<Rightarrow> Some [NTSwitchStmt, NTBlockStmt]
   | NTTypeSwitchStmt \<Rightarrow> Some [NTTypeSwitchStmt, NTBlockStmt]
   | NTReturnStmt \<Rightarrow> Some [NTReturnStmt, NTBlockStmt, NTErrStmt]
   | NTBranchStmt \<Rightarrow> Some [NTBranchStmt, NTExprStmt, NTErrStmt, NTBlockStmt]
   | NTSelectStmt \<Rightarrow> Some [NTSelectStmt, NTBlockStmt]
   | NTCommClause \<Rightarrow> Some [NTCommClause, NTBlockStmt]
   | NTLabeledStmt \<Rightarrow> Some [NTLabeledStmt, NTBlockStmt]
   | NTExprStmt \<Rightarrow> Some [NTExprStmt, NTBlockStmt, NTErrStmt]
   | NTDeclStmt \<Rightarrow> Some [NTDeclStmt, NTBlockStmt]
   | NTErrStmt \<Rightarrow> Some [NTErrStmt, NTBlockStmt]
   | NTBlockStmt \<Rightarrow> Some [NTBlockStmt]
   | NTFuncDecl \<Rightarrow> Some [NTFuncDecl]
   | NTUnknown \<Rightarrow> None)"

definition isValidReplacement :: "node \<Rightarrow> node \<Rightarrow> bool" where
  "isValidReplacement original replacement =
     (if NodeTypeOf original = NodeTypeOf replacement then True
      else case validNodeTypeReplacements (NodeTypeOf original) of
             None \<Rightarrow> False
           | Some validTypes \<Rightarrow> NodeTypeOf replacement \<in> set validTypes)"

definition createSchemataExpr :: "node \<Rightarrow> MutantForSite list \<Rightarrow> string \<Rightarrow> node option \<Rightarrow> node" where
  "createSchemataExpr original mutants returnType fl =
     (if mutants = [] then original
      else case GetHandler original of
             None \<Rightarrow> original
           | Some handler \<Rightarrow> handler original mutants returnType fl)"

text \<open>The parents under which a node is left alone.\<close>

definition parentBlocks ::
  "(int \<Rightarrow> int \<times> int) \<Rightarrow> (posKey \<rightharpoonup> MutantForSite list) \<Rightarrow> node option \<Rightarrow> node \<Rightarrow> bool" where
  "parentBlocks position posToMutants parent n = (case parent of
     None \<Rightarrow> False
   | Some p \<Rightarrow>
       (case p of ImportSpec _ _ _ _ \<Rightarrow> True | _ \<Rightarrow> False) \<or>
       (case p of RangeStmt _ _ _ _ _ _ x _ \<Rightarrow> n = x | _ \<Rightarrow> False) \<or>
       (is_Expr p \<and> posToMutants (nodeKey position p) \<noteq> None))"

text \<open>
  The fields of a node whose static type is one node type and no interface (\<open>*ast.Ident\<close>,
  \<open>*ast.BasicLit\<close>, \<open>*ast.BlockStmt\<close>, \<open>*ast.CallExpr\<close>, \<open>*ast.FuncType\<close>, \<open>*ast.FieldList\<close>,
  \<open>*ast.Field\<close>): names, selectors, labels, bodies, the calls of \<open>go\<close> and \<open>defer\<close>, tags.
\<close>

definition concreteFields :: "node \<Rightarrow> node list" where
  "concreteFields p = (case p of
     FuncLit typ body \<Rightarrow> [typ, body]
   | SelectorExpr x sel \<Rightarrow> [sel]
   | StructType a flds \<Rightarrow> [flds]
   | FuncType a tparams params results \<Rightarrow> option_list tparams @ option_list params @ option_list results
   | InterfaceType a methods \<Rightarrow> [methods]
   | LabeledStmt label a s \<Rightarrow> [label]
   | GoStmt a call \<Rightarrow> [call]
   | DeferStmt a call \<Rightarrow> [call]
   | BranchStmt a tok label \<Rightarrow> option_list label
   | IfStmt a i c body els \<Rightarrow> [body]
   | SwitchStmt a i tag body \<Rightarrow> [body]
   | TypeSwitchStmt a i assign body \<Rightarrow> [body]
   | SelectStmt a body \<Rightarrow> [body]
   | ForStmt a i c post body \<Rightarrow> [body]
   | RangeStmt a k v tp tok rp x body \<Rightarrow> [body]
   | ImportSpec doc name path comment \<Rightarrow> option_list name @ [path]
   | ValueSpec doc names typ values comment \<Rightarrow> names
   | TypeSpec doc name tparams a typ comment \<Rightarrow> name # option_list tparams
   | FuncDecl doc recv name typ body \<Rightarrow> option_list recv @ [name, typ] @ option_list body
   | Field doc names typ tag comment \<Rightarrow> names @ option_list tag
   | FieldList a flds b \<Rightarrow> flds
   | File doc a name decls comments \<Rightarrow> [name]
   | _ \<Rightarrow> [])"

text \<open>
  \<open>safeReplace\<close>: \<open>Cursor.Replace\<close> sets the field of the parent that holds the node by
  reflection. It panics when the replacement does not have the static type of that field, the
  panic is recovered, and the node stays. A field of an interface type takes every node of
  that interface; one of a single node type takes only that type.
\<close>

definition fitsField :: "node \<Rightarrow> node \<Rightarrow> node \<Rightarrow> bool" where
  "fitsField p n s =
     (let sameInterface = (is_Expr n \<longrightarrow> is_Expr s) \<and> (is_Stmt n \<longrightarrow> is_Stmt s) in
      if n \<notin> set (concreteFields p) then sameInterface
      else case n of
        Ident _ _ \<Rightarrow> (case s of Ident _ _ \<Rightarrow> True | _ \<Rightarrow> False)
      | BasicLit _ _ _ \<Rightarrow> (case s of BasicLit _ _ _ \<Rightarrow> True | _ \<Rightarrow> False)
      | BlockStmt _ _ _ \<Rightarrow> (case s of BlockStmt _ _ _ \<Rightarrow> True | _ \<Rightarrow> False)
      | CallExpr _ _ _ _ _ \<Rightarrow> (case s of CallExpr _ _ _ _ _ \<Rightarrow> True | _ \<Rightarrow> False)
      | FuncType _ _ _ _ \<Rightarrow> (case s of FuncType _ _ _ _ \<Rightarrow> True | _ \<Rightarrow> False)
      | FieldList _ _ _ \<Rightarrow> (case s of FieldList _ _ _ \<Rightarrow> True | _ \<Rightarrow> False)
      | Field _ _ _ _ _ \<Rightarrow> (case s of Field _ _ _ _ _ \<Rightarrow> True | _ \<Rightarrow> False)
      | _ \<Rightarrow> sameInterface)"

definition safeReplace :: "node option \<Rightarrow> node \<Rightarrow> node \<Rightarrow> node option" where
  "safeReplace parent n replacement =
     (case parent of
        None \<Rightarrow> Some replacement
      | Some p \<Rightarrow> if fitsField p n replacement then Some replacement else None)"

definition applySchemataVisitor ::
  "(int \<Rightarrow> int \<times> int) \<Rightarrow> (posKey \<rightharpoonup> MutantForSite list) \<Rightarrow> node list \<Rightarrow> node option \<Rightarrow>
   node option \<Rightarrow> node \<Rightarrow> node option" where
  "applySchemataVisitor position posToMutants constNodes fl parent n =
     (if parentBlocks position posToMutants parent n then None
      else if n \<in> set constNodes then None
      else case posToMutants (nodeKey position n) of
             None \<Rightarrow> None
           | Some mutants \<Rightarrow>
               let returnType = (case mutants of [] \<Rightarrow> '''' | m # _ \<Rightarrow> msReturnType m);
                   schemata = createSchemataExpr n mutants returnType fl
               in if schemata = n then None
                  else if is_Expr n then (if is_Expr schemata then safeReplace parent n schemata else None)
                  else if isValidReplacement n schemata then safeReplace parent n schemata
                  else None)"

subsection \<open>Loop variables\<close>

definition isVariableUsedInBlockFast :: "string \<Rightarrow> node \<Rightarrow> int \<Rightarrow> bool" where
  "isVariableUsedInBlockFast name blk declPos =
     list_ex (\<lambda>n. case n of Ident p nm \<Rightarrow> nm = name \<and> p \<noteq> declPos | _ \<Rightarrow> False) (nodes blk)"

definition blankAssign :: "string \<Rightarrow> node" where
  "blankAssign name = AssignStmt [Ident 0 ''_''] 0 T_ASSIGN [Ident 0 name]"

definition prependStmt :: "node \<Rightarrow> node \<Rightarrow> node" where
  "prependStmt s blk = (case blk of BlockStmt l ss r \<Rightarrow> BlockStmt l (s # ss) r | _ \<Rightarrow> blk)"

text \<open>The identifiers among the loop variables, less the blank one, as position and name.\<close>

definition loopIdents :: "node list \<Rightarrow> (int \<times> string) list" where
  "loopIdents es = List.map_filter (\<lambda>e. case e of
     Ident p name \<Rightarrow> if name \<noteq> ''_'' then Some (p, name) else None | _ \<Rightarrow> None) es"

definition useLoopVars :: "(int \<times> string) list \<Rightarrow> node \<Rightarrow> node" where
  "useLoopVars vars body = foldl (\<lambda>b (p, name).
     if isVariableUsedInBlockFast name b p then b else prependStmt (blankAssign name) b) body vars"

definition initIdents :: "node option \<Rightarrow> (int \<times> string) list" where
  "initIdents i = (case i of Some (AssignStmt lhs _ _ _) \<Rightarrow> loopIdents lhs | _ \<Rightarrow> [])"

text \<open>
  \<open>processStmtsForLoopVars\<close> with \<open>fixRangeStmt\<close> and \<open>fixForStmt\<close>: the tree with the
  assignments in place. The walk down an else chain treats an \<open>else if\<close> as an \<open>if\<close>.
\<close>

definition isBlock :: "node \<Rightarrow> bool" where
  "isBlock n \<longleftrightarrow> NodeTypeOf n = NTBlockStmt"

definition isIfOrBlock :: "node \<Rightarrow> bool" where
  "isIfOrBlock n \<longleftrightarrow> NodeTypeOf n = NTIfStmt \<or> NodeTypeOf n = NTBlockStmt"

function fixStmt :: "node \<Rightarrow> node" where
  "fixStmt n = (case n of
     RangeStmt p k v tp tok rp x body \<Rightarrow>
       RangeStmt p k v tp tok rp x
         (useLoopVars (loopIdents (option_list k) @ loopIdents (option_list v))
           (if isBlock body then fixStmt body else body))
   | ForStmt p i c post body \<Rightarrow>
       ForStmt p i c post
         (useLoopVars (initIdents i) (if isBlock body then fixStmt body else body))
   | IfStmt p i c body els \<Rightarrow>
       IfStmt p i c (if isBlock body then fixStmt body else body)
         (map_option (\<lambda>e. if isIfOrBlock e then fixStmt e else e) els)
   | BlockStmt l ss r \<Rightarrow> BlockStmt l (map fixStmt ss) r
   | CaseClause p es c ss \<Rightarrow> CaseClause p es c (map fixStmt ss)
   | CommClause p cs c ss \<Rightarrow> CommClause p cs c (map fixStmt ss)
   | SwitchStmt p i t body \<Rightarrow> SwitchStmt p i t (if isBlock body then fixStmt body else body)
   | TypeSwitchStmt p i a body \<Rightarrow> TypeSwitchStmt p i a (if isBlock body then fixStmt body else body)
   | SelectStmt p body \<Rightarrow> SelectStmt p (if isBlock body then fixStmt body else body)
   | _ \<Rightarrow> n)"
  by pat_completeness auto
termination
  by (relation "measure size") (auto dest!: list_elem_size)

declare fixStmt.simps [simp del]

definition processDeclForLoopVars :: "node \<Rightarrow> node" where
  "processDeclForLoopVars d = (case d of
     FuncDecl doc recv name typ (Some body) \<Rightarrow> FuncDecl doc recv name typ (Some (if isBlock body then fixStmt body else body))
   | _ \<Rightarrow> d)"

subsection \<open>Positions in the printed file\<close>

record PositionMapping =
  OriginalLine :: int
  OriginalCol :: int
  TempLine :: int
  TempCol :: int

definition zeroMapping :: PositionMapping where
  "zeroMapping = \<lparr>OriginalLine = 0, OriginalCol = 0, TempLine = 0, TempCol = 0\<rparr>"

fun findNodeByID :: "Mutant list \<Rightarrow> int \<Rightarrow> node option" where
  "findNodeByID [] i = None"
| "findNodeByID (m # ms) i = (if mID m = i then Some (sNode (mSite m)) else findNodeByID ms i)"

definition buildPositionMapping ::
  "Mutant list \<Rightarrow> (int \<Rightarrow> int \<times> int) \<Rightarrow> (int \<rightharpoonup> PositionMapping)" where
  "buildPositionMapping mutants position =
     foldl (\<lambda>res m.
       let orig = position (Pos (sNode (mSite m)));
           temp = (case findNodeByID mutants (mID m) of
                     Some n \<Rightarrow> position (Pos n) | None \<Rightarrow> orig)
       in res(mID m \<mapsto> \<lparr>OriginalLine = fst orig, OriginalCol = snd orig,
                        TempLine = fst temp, TempCol = snd temp\<rparr>))
       Map.empty mutants"

definition extractMutantIDs :: "Mutant list \<Rightarrow> int list" where
  "extractMutantIDs mutants = map mID mutants"

definition markerPrefix :: string where
  "markerPrefix = ''activeMutantID == ''"

text \<open>The number after the first marker of a line, with the column of the marker.\<close>

definition lineMarker :: "string \<Rightarrow> (int \<times> nat) option" where
  "lineMarker line = (case Index line markerPrefix of
     None \<Rightarrow> None
   | Some idx \<Rightarrow>
       let digits = takeWhile isDigit (drop (idx + length markerPrefix) line) in
       if digits = [] then None
       else (case Atoi digits of None \<Rightarrow> None | Some i \<Rightarrow> Some (i, idx)))"

fun scanLines ::
  "int list \<Rightarrow> (int \<rightharpoonup> PositionMapping) \<Rightarrow> string list \<Rightarrow> nat \<Rightarrow> (int \<rightharpoonup> PositionMapping) \<Rightarrow>
   (int \<rightharpoonup> PositionMapping)" where
  "scanLines needed orig [] lineNum res = res"
| "scanLines needed orig (line # ls) lineNum res =
     scanLines needed orig ls (Suc lineNum)
       (case lineMarker line of
          None \<Rightarrow> res
        | Some (i, idx) \<Rightarrow>
            if i \<notin> set needed then res
            else let o' = (case orig i of None \<Rightarrow> zeroMapping | Some p \<Rightarrow> p)
                 in res(i \<mapsto> \<lparr>OriginalLine = OriginalLine o', OriginalCol = OriginalCol o',
                            TempLine = int lineNum + 1, TempCol = int idx + 1\<rparr>))"

definition findMutantPositionsInBytes ::
  "string \<Rightarrow> int list \<Rightarrow> (int \<rightharpoonup> PositionMapping) \<Rightarrow> (int \<rightharpoonup> PositionMapping)" where
  "findMutantPositionsInBytes content mutantIDs originalPositions =
     scanLines mutantIDs originalPositions (Split content (CHR 0x0A)) 0 originalPositions"

text \<open>The text of the helper file of a package.\<close>

definition helperText :: "string \<Rightarrow> string" where
  "helperText pkgName = ''package '' @ pkgName @ Join ['''', '''', ''// GORGON_SCHEMATA'', '''',
     ''import ('', [CHR 0x09, CHR 0x22] @ ''os'' @ [CHR 0x22],
     [CHR 0x09, CHR 0x22] @ ''strconv'' @ [CHR 0x22], '')'', '''', ''var activeMutantID int'', '''',
     ''func init() {'',
     CHR 0x09 # ''if idStr := os.Getenv('' @ [CHR 0x22] @ ''GORGON_MUTANT_ID'' @ [CHR 0x22] @ ''); idStr != '' @ [CHR 0x22, CHR 0x22] @ '' {'',
     [CHR 0x09, CHR 0x09] @ ''activeMutantID, _ = strconv.Atoi(idStr)'', CHR 0x09 # ''}'', ''}'', '''']
     [CHR 0x0A]"

subsection \<open>Laws of the table\<close>

lemma build_foldl:
  "foldl (\<lambda>tab m. tab(mutantPosKey m \<mapsto>
            (case tab (mutantPosKey m) of None \<Rightarrow> [] | Some ms \<Rightarrow> ms) @ [forSite m])) tab ms k =
   (let l = filter (\<lambda>m. mutantPosKey m = k) ms in
    if l = [] then tab k
    else Some ((case tab k of None \<Rightarrow> [] | Some old \<Rightarrow> old) @ map forSite l))"
  by (induction ms arbitrary: tab) (auto simp: Let_def split: option.splits)

lemma build_lookup:
  "buildPositionToMutantsMap ms k =
     (let l = filter (\<lambda>m. mutantPosKey m = k) ms in if l = [] then None else Some (map forSite l))"
  by (simp add: buildPositionToMutantsMap_def build_foldl Let_def)

subsection \<open>Laws of the visitor\<close>

text \<open>The node types whose handler splices a statement.\<close>

definition stmtType :: "node \<Rightarrow> bool" where
  "stmtType n \<longleftrightarrow> is_Stmt n \<and> NodeTypeOf n \<notin> {NTCaseClause, NTReturnStmt, NTUnknown}"

lemma stmt_handler:
  assumes "stmtType n"
  shows "\<exists>h \<in> {stmtHandler, HandleRangeStmt, HandleAssignStmt, HandleDeferStmt}. GetHandler n = Some h"
  using assms by (cases n) (simp_all add: stmtType_def is_Stmt_def NodeTypeOf_def GetHandler_def)

lemma single_stmt_schemata:
  assumes "stmtType n"
  shows "createSchemataExpr n [m] rt fl = applySingleMutant n m rt fl"
  using stmt_handler [OF assms]
  by (auto simp: createSchemataExpr_def stmtHandler_def HandleRangeStmt_def HandleAssignStmt_def
        HandleDeferStmt_def)

lemma multi_stmt_schemata:
  assumes "stmtType n" "length ms \<ge> 2"
  shows "createSchemataExpr n ms rt fl = WrapStatement n ms rt fl"
proof -
  obtain a b cs where "ms = a # b # cs" using assms(2) by (cases ms rule: remdups_adj.cases) auto
  with stmt_handler [OF assms(1)] show ?thesis
    by (auto simp: createSchemataExpr_def stmtHandler_def HandleRangeStmt_def HandleAssignStmt_def
          HandleDeferStmt_def)
qed

lemma if_not_valid:
  "stmtType n \<Longrightarrow> NodeTypeOf n \<noteq> NTIfStmt \<Longrightarrow> \<not> isValidReplacement n (IfStmt p i c b e)"
  by (cases n) (auto simp: stmtType_def is_Stmt_def isValidReplacement_def NodeTypeOf_def
        validNodeTypeReplacements_def)

lemma block_valid:
  "stmtType n \<Longrightarrow> isValidReplacement n (BlockStmt l ss r)"
  by (cases n) (auto simp: stmtType_def is_Stmt_def isValidReplacement_def NodeTypeOf_def
        validNodeTypeReplacements_def)

lemma single_stmt_shape:
  assumes "stmtType n"
  shows "applySingleMutant n m rt fl = n \<or>
    (\<exists>s. ApplyOperator (msOp m) n rt fl (msEnclosingFunc m) = Some s \<and> is_Stmt s \<and>
       applySingleMutant n m rt fl = IfStmt 0 None (createMutantIDCondition (msID m)) (block [s])
         (Some (block [n])))"
  using assms stmt_not_expr [of n]
  by (auto simp: applySingleMutant_def wrapWithSchemata_def stmtType_def split: option.split)

lemma stmt_schemata:
  assumes "stmtType n" "ms \<noteq> []"
  shows "createSchemataExpr n ms rt fl = stmtHandler n ms rt fl"
  using assms single_stmt_schemata [OF assms(1)] multi_stmt_schemata [OF assms(1), of ms]
  by (cases ms rule: remdups_adj.cases) (simp_all add: stmtHandler_def)

lemma stmtHandler_valid:
  assumes "stmtType n" "ms \<noteq> []" "stmtHandler n ms rt fl \<noteq> n"
    and "\<not> (length ms = 1 \<and> NodeTypeOf n \<noteq> NTIfStmt)"
  shows "isValidReplacement n (stmtHandler n ms rt fl)"
proof (cases ms rule: remdups_adj.cases)
  case (2 m)
  with assms(4) have "NodeTypeOf n = NTIfStmt" by simp
  moreover have "NodeTypeOf (IfStmt p i c b e) = NTIfStmt" for p i c b e by (simp add: NodeTypeOf_def)
  ultimately show ?thesis
    using 2 assms(3) single_stmt_shape [OF assms(1), of m rt fl]
    by (auto simp: stmtHandler_def isValidReplacement_def)
next
  case (3 a b cs)
  with assms(1,3) show ?thesis
    by (auto simp: stmtHandler_def WrapStatement_def buildIfElseChain_def block_def
        intro: block_valid split: if_splits)
qed (use assms in simp)

lemma block_fits: "stmtType n \<Longrightarrow> safeReplace parent n (BlockStmt l ss r) = Some (BlockStmt l ss r)"
  using stmt_not_expr [of n]
  by (cases n) (auto simp: stmtType_def is_Stmt_def is_Expr_def safeReplace_def fitsField_def Let_def split: option.split)

lemma if_fits: "stmtType n \<Longrightarrow> NodeTypeOf n = NTIfStmt \<Longrightarrow> safeReplace parent n (IfStmt p i c b e) = Some (IfStmt p i c b e)"
  by (cases n) (auto simp: NodeTypeOf_def is_Stmt_def is_Expr_def safeReplace_def fitsField_def Let_def split: option.split)

text \<open>What a statement handler builds fits the field, where it is a valid replacement.\<close>

lemma stmtHandler_fits:
  assumes "stmtType n" "ms \<noteq> []" "stmtHandler n ms rt fl \<noteq> n" "isValidReplacement n (stmtHandler n ms rt fl)"
  shows "safeReplace parent n (stmtHandler n ms rt fl) = Some (stmtHandler n ms rt fl)"
proof (cases ms rule: remdups_adj.cases)
  case (2 m)
  with assms(3) single_stmt_shape [OF assms(1), of m rt fl] obtain c b e
    where s: "stmtHandler n ms rt fl = IfStmt 0 None c b e" by (auto simp: stmtHandler_def)
  then have "NodeTypeOf n = NTIfStmt" using assms(4) if_not_valid [OF assms(1)] by metis
  then show ?thesis unfolding s by (rule if_fits [OF assms(1)])
next
  case (3 a b cs)
  with assms(1,3) show ?thesis
    by (auto simp: stmtHandler_def WrapStatement_def buildIfElseChain_def block_def block_fits split: if_splits)
qed (use assms in simp)

lemma stmtSchemata_block: "isGuardIf c \<Longrightarrow> stmtSchemata (BlockStmt l [c] r)"
  by (simp add: stmtSchemata_def)

text \<open>A statement handler returns the original only where no mutant applies.\<close>

lemma stmtHandler_original:
  assumes "stmtType n" "\<not> stmtSchemata n" "ms \<noteq> []" "\<forall>m \<in> set ms. msOp m \<in> set allOperators"
    and "stmtHandler n ms rt fl = n"
  shows "\<forall>m \<in> set ms. ApplyOperator (msOp m) n rt fl None = None"
proof (cases ms rule: remdups_adj.cases)
  case 1
  with assms(3) show ?thesis by simp
next
  case (2 m)
  have n: "is_Stmt n" "\<not> is_Expr n" using assms(1) stmt_not_expr by (simp_all add: stmtType_def)
  have "ApplyOperator (msOp m) n rt fl (msEnclosingFunc m) = None"
  proof (rule ccontr)
    assume "\<not> ?thesis"
    then obtain s where s: "ApplyOperator (msOp m) n rt fl (msEnclosingFunc m) = Some s" by auto
    with gorgon.apply_stmt [of "msOp m" n rt fl "msEnclosingFunc m" s] 2 assms(4) n have "is_Stmt s" by simp
    with s 2 assms(5) n have "n = IfStmt 0 None (createMutantIDCondition (msID m)) (block [s]) (Some (block [n]))"
      by (simp add: stmtHandler_def applySingleMutant_def wrapWithSchemata_def)
    then have "isGuardIf n" by (metis isGuardIf_create)
    with assms(2) show False by (simp add: stmtSchemata_def)
  qed
  with 2 assms(4) n ApplyOperator_stmt_enclosing [of "msOp m" n rt fl "msEnclosingFunc m"]
  show ?thesis by simp
next
  case (3 a b cs)
  have n: "is_Stmt n" using assms(1) by (simp add: stmtType_def)
  have empty: "stmtMutants n ms rt fl = []"
  proof (rule ccontr)
    assume ne: "stmtMutants n ms rt fl \<noteq> []"
    then obtain k s ps where ps: "stmtMutants n ms rt fl = (k, s) # ps" by (cases "stmtMutants n ms rt fl") auto
    have "n = buildIfElseChain n (stmtMutants n ms rt fl)"
      using 3 n assms(5) by (simp add: stmtHandler_def WrapStatement_def)
    then have "stmtSchemata n" unfolding ps
      by (subst (asm) buildIfElseChain_def) (simp add: block_def, metis isGuardIf_create stmtSchemata_block)
    with assms(2) show False by blast
  qed
  show ?thesis
  proof
    fix m assume m: "m \<in> set ms"
    show "ApplyOperator (msOp m) n rt fl None = None"
    proof (cases "ApplyOperator (msOp m) n rt fl None")
      case (Some s)
      with gorgon.apply_stmt [of "msOp m" n rt fl None s] m assms(4) n
      have "(msID m, s) \<in> set (stmtMutants n ms rt fl)"
        unfolding stmtMutants_def by (auto simp: List.map_filter_def intro!: image_eqI [of _ _ m])
      with empty show ?thesis by simp
    qed
  qed
qed

text \<open>What the visitor does at a node that nothing blocks.\<close>

definition unblocked ::
  "(int \<Rightarrow> int \<times> int) \<Rightarrow> (posKey \<rightharpoonup> MutantForSite list) \<Rightarrow> node list \<Rightarrow> node option \<Rightarrow> node \<Rightarrow> bool" where
  "unblocked position tab cnodes parent n \<longleftrightarrow>
     \<not> parentBlocks position tab parent n \<and> n \<notin> set cnodes"

lemma visitor_stmt:
  assumes "unblocked position tab cnodes parent n" "tab (nodeKey position n) = Some (m # ms)"
    and "is_Stmt n"
  shows "applySchemataVisitor position tab cnodes fl parent n =
    (let s = createSchemataExpr n (m # ms) (msReturnType m) fl in
     if s \<noteq> n \<and> isValidReplacement n s then safeReplace parent n s else None)"
  using assms stmt_not_expr [of n]
  by (simp add: applySchemataVisitor_def unblocked_def Let_def)

lemma visitor_expr:
  assumes "unblocked position tab cnodes parent n" "tab (nodeKey position n) = Some (m # ms)"
    and "is_Expr n"
  shows "applySchemataVisitor position tab cnodes fl parent n =
    (let s = createSchemataExpr n (m # ms) (msReturnType m) fl in
     if s \<noteq> n \<and> is_Expr s then safeReplace parent n s else None)"
  using assms by (simp add: applySchemataVisitor_def unblocked_def Let_def)

subsection \<open>Properties of the visitor\<close>

text \<open>
  A lone mutant of a statement other than an \<open>if\<close>, a \<open>return\<close> or a case clause never
  reaches the code: its schemata is an \<open>if\<close> statement, which the table of valid
  replacements does not admit in the place of the original, so the statement stays as it is
  and the mutant runs unmutated.
\<close>

theorem lone_statement_mutant_lost:
  assumes "is_Stmt n" and "NodeTypeOf n \<notin> {NTIfStmt, NTReturnStmt, NTCaseClause}"
    and "tab (nodeKey position n) = Some [m]"
  shows "applySchemataVisitor position tab cnodes fl parent n = None"
proof (cases "unblocked position tab cnodes parent n")
  case False
  then show ?thesis by (auto simp: applySchemataVisitor_def unblocked_def)
next
  case True
  show ?thesis
  proof (cases "NodeTypeOf n = NTUnknown")
    case True
    then show ?thesis using assms
      by (simp add: applySchemataVisitor_def createSchemataExpr_def GetHandler_def)
  next
    case False
    with assms have n: "stmtType n" by (simp add: stmtType_def)
    show ?thesis
      using visitor_stmt [OF True assms(3,1), of fl] assms(2) if_not_valid [OF n]
        single_stmt_shape [OF n, of m "msReturnType m" fl]
      by (auto simp: single_stmt_schemata [OF n] Let_def)
  qed
qed

definition lineMap :: "int \<Rightarrow> int \<times> int" where
  "lineMap p = (p div 100, p mod 100)"

theorem lone_statement_mutant_lost_witness:
  "applySchemataVisitor lineMap
     [nodeKey lineMap (GoStmt 201 (CallExpr (Ident 204 ''f'') 205 [] 0 206)) \<mapsto>
        [\<lparr>msID = 1, msOp = GoroutineRemoval, msReturnType = '''', msEnclosingFunc = None\<rparr>]]
     [] None None (GoStmt 201 (CallExpr (Ident 204 ''f'') 205 [] 0 206)) = None"
  by (rule lone_statement_mutant_lost) (simp_all add: is_Stmt_def NodeTypeOf_def)

text \<open>
  C7. What the visitor puts in the place of a statement is faithful, and it puts something in
  whenever it can. The statement is one of those that a handler splices, so no \<open>return\<close> and
  no clause of a \<open>switch\<close> or \<open>select\<close>, whose handlers work differently; it is not yet a schemata,
  and nothing blocks it (it is no constant, and its parent is no range over it). The replacement
  runs mutant \<open>k\<close>'s statement under \<open>activeMutantID = k\<close> and the original under every other
  value; it always fits the field that holds the statement, and a statement with an applicable
  mutant is left alone only where that mutant is its only one and the statement is no \<open>if\<close>.
\<close>

theorem visitor_statement_faithful:
  assumes "stmtType n" "\<not> stmtSchemata n" "unblocked position tab cnodes parent n"
    and "tab (nodeKey position n) = Some ms" "ms \<noteq> []"
    and "distinct (map msID ms)" "\<forall>m \<in> set ms. msOp m \<in> set allOperators"
  shows "case applySchemataVisitor position tab cnodes fl parent n of
     Some s \<Rightarrow>
       (\<forall>m \<in> set ms. selStmt (msID m) s =
          [or_else n (ApplyOperator (msOp m) n (msReturnType (hd ms)) fl (msEnclosingFunc m))]) \<and>
       (\<forall>a. a \<notin> msID ` set ms \<longrightarrow> selStmt a s = [n])
   | None \<Rightarrow>
       (length ms = 1 \<and> NodeTypeOf n \<noteq> NTIfStmt) \<or>
       (\<forall>m \<in> set ms. ApplyOperator (msOp m) n (msReturnType (hd ms)) fl None = None)"
proof -
  obtain m0 ms0 where ms: "ms = m0 # ms0" using assms(5) by (cases ms) auto
  let ?rt = "msReturnType m0"
  have n: "is_Stmt n" using assms(1) by (simp add: stmtType_def)
  have adm: "stmtAdmissible n ms ?rt" using assms n by (simp add: stmtAdmissible_def)
  have vis: "applySchemataVisitor position tab cnodes fl parent n =
      (let s = stmtHandler n ms ?rt fl in if s \<noteq> n \<and> isValidReplacement n s then safeReplace parent n s else None)"
    using visitor_stmt [OF assms(3) assms(4) [unfolded ms] n] stmt_schemata [OF assms(1,5)] ms by simp
  have faithful: "selStmt (msID m) (stmtHandler n ms ?rt fl) =
      [or_else n (ApplyOperator (msOp m) n ?rt fl (msEnclosingFunc m))]" if "m \<in> set ms" for m
    using stmt.mutant [OF adm assms(6) that] stmtApplied_operator [OF n, of m] assms(7) that
    by (simp split: option.split)
  have base: "selStmt a (stmtHandler n ms ?rt fl) = [n]" if "a \<notin> msID ` set ms" for a
    using stmt.baseline [OF adm that] by simp
  have valid: "isValidReplacement n (stmtHandler n ms ?rt fl)"
    if "stmtHandler n ms ?rt fl \<noteq> n" "\<not> (length ms = 1 \<and> NodeTypeOf n \<noteq> NTIfStmt)"
    using stmtHandler_valid [OF assms(1,5) that] .
  have rt: "msReturnType (hd ms) = ?rt" by (simp add: ms)
  show ?thesis
  proof (cases "stmtHandler n ms ?rt fl = n")
    case True
    with stmtHandler_original [OF assms(1,2,5,7) True] show ?thesis by (simp add: vis rt)
  next
    case False
    show ?thesis
    proof (cases "isValidReplacement n (stmtHandler n ms ?rt fl)")
      case True
      with False faithful base stmtHandler_fits [OF assms(1,5) False True] show ?thesis by (simp add: vis rt)
    next
      case invalid: False
      with False valid show ?thesis by (simp add: vis) blast
    qed
  qed
qed

theorem visitor_statement_faithful_witness:
  "applySchemataVisitor lineMap
     [nodeKey lineMap (IfStmt 201 None (Ident 204 ''a'') (BlockStmt 206 [] 207) None) \<mapsto>
        [\<lparr>msID = 7, msOp = IfConditionTrue, msReturnType = '''', msEnclosingFunc = None\<rparr>]]
     [] None None (IfStmt 201 None (Ident 204 ''a'') (BlockStmt 206 [] 207) None) \<noteq> None"
proof -
  let ?n = "IfStmt 201 None (Ident 204 ''a'') (BlockStmt 206 [] 207) None"
  let ?m = "\<lparr>msID = 7, msOp = IfConditionTrue, msReturnType = '''', msEnclosingFunc = None\<rparr>"
  have ty: "stmtType ?n" by (simp add: stmtType_def is_Stmt_def NodeTypeOf_def)
  have plain: "\<not> stmtSchemata ?n"
    by (simp add: stmtSchemata_def isGuardIf_def as_IfStmt_def condHolds_def)
  have unb: "unblocked lineMap [nodeKey lineMap ?n \<mapsto> [?m]] [] None ?n"
    by (simp add: unblocked_def parentBlocks_def)
  have ops: "\<forall>m \<in> set [?m]. msOp m \<in> set allOperators" by (simp add: allOperators_def)
  have app: "ApplyOperator IfConditionTrue ?n rt fl fn \<noteq> None" for rt fl fn
    by (simp add: ApplyOperator_opMutate IfConditionTrue_def buildConditionMutator_def
          conditionMutator_Mutate_def as_IfStmt_def)
  show ?thesis
    using visitor_statement_faithful [OF ty plain unb _ _ _ ops, of None] app [of "''''" None None]
    by (auto split: option.splits simp: NodeTypeOf_def)
qed

lemma exprHandler_shape:
  assumes "is_Expr n"
  shows "(exprHandler n ms rt fl = n \<and> (\<forall>m \<in> set ms. exprApplied n m rt fl = None)) \<or>
    (\<exists>t ps ss. ps \<noteq> [] \<and> exprHandler n ms rt fl = closure t (map guardReturn ps @ ss))"
proof (cases ms rule: remdups_adj.cases)
  case 1
  then show ?thesis by (simp add: exprHandler_def)
next
  case (2 m)
  have "wrapExprWithIf e n (msID m) rt tm = closure (buildTypeExpr (inferExprType n rt tm))
      (map guardReturn [(msID m, e)] @ [ret [n]])" for e tm
    by (simp add: wrapExprWithIf_def)
  then have "\<exists>t ps ss. ps \<noteq> [] \<and> wrapExprWithIf e n (msID m) rt tm = closure t (map guardReturn ps @ ss)" for e tm
    by blast
  then show ?thesis
    using 2 assms
    by (auto simp: exprHandler_def applySingleMutant_def wrapWithSchemata_def exprApplied_def
          split: option.split)
next
  case (3 a b cs)
  show ?thesis
  proof (cases "exprMutants n ms rt fl = []")
    case True
    then have "\<forall>m \<in> set ms. exprApplied n m rt fl = None"
      by (auto simp: exprMutants_applied List.map_filter_def filter_empty_conv)
    with True 3 show ?thesis by (simp add: exprHandler_def wrapExpressionMulti_def)
  next
    case False
    with 3 show ?thesis by (auto simp: exprHandler_def wrapExpressionMulti_def Let_def)
  qed
qed

text \<open>The field of the parent that holds the node takes an identifier or a literal only.\<close>

definition nameOnly :: "node option \<Rightarrow> node \<Rightarrow> bool" where
  "nameOnly parent n =
     (case parent of None \<Rightarrow> False
      | Some p \<Rightarrow> n \<in> set (concreteFields p) \<and> NodeTypeOf n \<in> {NTIdent, NTBasicLit})"

lemma closure_fits:
  assumes "NodeTypeOf n \<in> {NTBinaryExpr, NTUnaryExpr, NTCallExpr, NTIdent, NTBasicLit}"
  shows "safeReplace parent n (closure t ss) = (if nameOnly parent n then None else Some (closure t ss))"
  using assms
  by (cases n) (auto simp: NodeTypeOf_def nameOnly_def safeReplace_def fitsField_def is_Expr_def is_Stmt_def closure_def
      Let_def split: option.split)

text \<open>
  C8. The same for binary and unary expressions, calls, identifiers and literals: where the
  visitor replaces an expression, run \<open>k\<close> evaluates mutant \<open>k\<close>'s expression and every other run
  the original, and where nothing blocks the node it replaces it unless no mutant applies.
  Nothing is replaced under an expression that has mutants of its own, in a constant, in an
  import or in the operand of a range, nor where the field of the parent is for identifiers or
  literals only: a declared name, a selector, a label or a tag stays as it is.
\<close>

theorem visitor_expression_faithful:
  assumes "NodeTypeOf n \<in> {NTBinaryExpr, NTUnaryExpr, NTCallExpr, NTIdent, NTBasicLit}"
    and "closureBody n = None" "tab (nodeKey position n) = Some ms" "ms \<noteq> []"
    and "distinct (map msID ms)" "\<forall>m \<in> set ms. msOp m \<in> set allOperators"
  shows "case applySchemataVisitor position tab cnodes fl parent n of
     Some s \<Rightarrow>
       unblocked position tab cnodes parent n \<and> \<not> nameOnly parent n \<and>
       (\<forall>m \<in> set ms. selExpr (msID m) s =
          or_else n (ApplyOperator (msOp m) n (msReturnType (hd ms)) fl (msEnclosingFunc m))) \<and>
       (\<forall>a. a \<notin> msID ` set ms \<longrightarrow> selExpr a s = n)
   | None \<Rightarrow>
       \<not> unblocked position tab cnodes parent n \<or> nameOnly parent n \<or>
       (\<forall>m \<in> set ms. ApplyOperator (msOp m) n (msReturnType (hd ms)) fl (msEnclosingFunc m) = None)"
proof (cases "unblocked position tab cnodes parent n")
  case False
  then show ?thesis by (auto simp: applySchemataVisitor_def unblocked_def)
next
  case True
  obtain m0 ms0 where ms: "ms = m0 # ms0" using assms(4) by (cases ms) auto
  let ?rt = "msReturnType (hd ms)"
  have n: "is_Expr n" and h: "GetHandler n = Some exprHandler"
    using assms(1) by (cases n; simp add: NodeTypeOf_def is_Expr_def GetHandler_def)+
  have adm: "exprAdmissible n ms ?rt" using assms n by (simp add: exprAdmissible_def)
  have vis: "applySchemataVisitor position tab cnodes fl parent n =
      (let s = exprHandler n ms ?rt fl in if s \<noteq> n \<and> is_Expr s then safeReplace parent n s else None)"
    using visitor_expr [OF True assms(3) [unfolded ms] n] h ms by (simp add: createSchemataExpr_def)
  have one: "selExpr (msID m) (exprHandler n ms ?rt fl) =
      or_else n (ApplyOperator (msOp m) n ?rt fl (msEnclosingFunc m))" if "m \<in> set ms" for m
    using expr.mutant [OF adm assms(5) that] exprApplied_operator [OF n, of m] assms(6) that
    by (simp split: option.split)
  have base: "selExpr a (exprHandler n ms ?rt fl) = n" if "a \<notin> msID ` set ms" for a
    using expr.baseline [OF adm that] by simp
  show ?thesis
  proof (cases "exprHandler n ms ?rt fl = n")
    case True
    have "closureBody (closure t (map guardReturn ps @ ss)) \<noteq> None" if "ps \<noteq> []" for t ps ss
      using that by (simp add: closureBody_closure)
    with True exprHandler_shape [OF n, of ms ?rt fl] assms(2)
    have "\<forall>m \<in> set ms. exprApplied n m ?rt fl = None" by metis
    with True show ?thesis using exprApplied_operator [OF n] assms(6) by (simp add: vis)
  next
    case False
    then obtain t ss where s: "exprHandler n ms ?rt fl = closure t ss"
      using exprHandler_shape [OF n, of ms ?rt fl] by blast
    then have "is_Expr (exprHandler n ms ?rt fl)" by (simp add: closure_def is_Expr_def)
    with False True one base closure_fits [OF assms(1), of parent t ss] show ?thesis by (simp add: vis s)
  qed
qed

theorem visitor_expression_faithful_witness:
  "case applySchemataVisitor lineMap [nodeKey lineMap exLess \<mapsto> exMutants] [] None None exLess of
     Some s \<Rightarrow> selExpr 3 s = BinaryExpr (Ident 10 ''a'') 0 T_GEQ (Ident 14 ''b'') \<and> selExpr 0 s = exLess
   | None \<Rightarrow> False"
proof -
  have ty: "NodeTypeOf exLess \<in> {NTBinaryExpr, NTUnaryExpr, NTCallExpr, NTIdent, NTBasicLit}"
    and plain: "closureBody exLess = None"
    by (simp_all add: exLess_def NodeTypeOf_def closureBody_def)
  have unb: "unblocked lineMap [nodeKey lineMap exLess \<mapsto> exMutants] [] None exLess"
    by (simp add: unblocked_def parentBlocks_def)
  have free: "\<not> nameOnly None exLess" by (simp add: nameOnly_def)
  have ms: "exMutants \<noteq> []" "distinct (map msID exMutants)" "\<forall>m \<in> set exMutants. msOp m \<in> set allOperators"
    by (simp_all add: exMutants_def allOperators_def)
  show ?thesis
    using visitor_expression_faithful [where tab = "[nodeKey lineMap exLess \<mapsto> exMutants]"
      and position = lineMap and cnodes = "[]" and fl = None and parent = None, OF ty plain _ ms] unb free
    by (auto simp: exMutants_def split: option.splits)
qed

text \<open>A mutant of a declared name, a selector or a label is never in the code: its run is unmutated.\<close>

lemma name_never_replaced:
  assumes "nameOnly parent n"
  shows "applySchemataVisitor position tab cnodes fl parent n = None"
proof -
  have ty: "NodeTypeOf n \<in> {NTBinaryExpr, NTUnaryExpr, NTCallExpr, NTIdent, NTBasicLit}"
    using assms by (auto simp: nameOnly_def split: option.splits)
  have n: "is_Expr n" and h: "GetHandler n = Some exprHandler"
    using ty by (cases n; simp add: NodeTypeOf_def is_Expr_def GetHandler_def)+
  have "safeReplace parent n (exprHandler n ms rt fl) = None" if "exprHandler n ms rt fl \<noteq> n" for ms rt
    using exprHandler_shape [OF n, of ms rt fl] that closure_fits [OF ty, of parent] assms by auto
  then show ?thesis using n h by (auto simp: applySchemataVisitor_def createSchemataExpr_def Let_def split: option.split)
qed

text \<open>
  The table gives every node its own mutants: among the mutants generated for a list of
  sites, the entry of a file's table at the key of a mutant lists the mutants of that
  mutant's site, all of them and in order, and none of another site.
\<close>

theorem table_gives_site_mutants:
  assumes "ms = GenerateMutants cwd sites ops allOps projRoot dirRules resolver" and "m \<in> set ms"
  shows "buildPositionToMutantsMap (filter (\<lambda>m'. sFile (mSite m') = sFile (mSite m)) ms) (mutantPosKey m) =
    Some (map forSite (filter (\<lambda>m'. mSite m' = mSite m) ms))"
proof -
  have "filter (\<lambda>m'. mutantPosKey m' = mutantPosKey m) (filter (\<lambda>m'. sFile (mSite m') = sFile (mSite m)) ms)
      = filter (\<lambda>m'. mSite m' = mSite m) ms"
  proof -
    have "sFile (mSite m') = sFile (mSite m) \<and> mutantPosKey m' = mutantPosKey m \<longleftrightarrow> mSite m' = mSite m"
      if "m' \<in> set ms" for m'
      using GenerateMutants_keys [of m' cwd sites ops allOps projRoot dirRules resolver m] assms that
      by (auto simp: keyOfSite_def mutantPosKey_def)
    then show ?thesis by (simp add: conj_commute cong: filter_cong)
  qed
  moreover have "filter (\<lambda>m'. mSite m' = mSite m) ms \<noteq> []"
    using assms(2) by (auto simp: filter_empty_conv)
  ultimately show ?thesis by (simp only: build_lookup Let_def if_False)
qed

lemma useLoopVars_block:
  "\<exists>pre. useLoopVars vars (BlockStmt l ss r) = BlockStmt l (map blankAssign pre @ ss) r \<and>
     set pre \<subseteq> snd ` set vars"
  unfolding useLoopVars_def
proof (induction vars arbitrary: ss)
  case (Cons v vars)
  obtain p name where v: "v = (p, name)" by (cases v)
  show ?case
  proof (cases "isVariableUsedInBlockFast name (BlockStmt l ss r) p")
    case True
    with v Cons.IH [of ss] show ?thesis by auto
  next
    case False
    with v Cons.IH [of "blankAssign name # ss"] obtain pre where
      "foldl (\<lambda>b (p, name). if isVariableUsedInBlockFast name b p then b else prependStmt (blankAssign name) b)
         (BlockStmt l ss r) (v # vars) = BlockStmt l (map blankAssign pre @ blankAssign name # ss) r"
      "set pre \<subseteq> snd ` set vars"
      by (auto simp: prependStmt_def)
    then show ?thesis using v by (intro exI [of _ "pre @ [name]"]) auto
  qed
qed auto

lemma used_mono:
  "isVariableUsedInBlockFast name (BlockStmt l ss r) p \<Longrightarrow>
     isVariableUsedInBlockFast name (BlockStmt l (s # ss) r) p"
  unfolding isVariableUsedInBlockFast_def nodes_rec [of "BlockStmt _ _ _"] by auto

lemma used_blank:
  "p \<noteq> 0 \<Longrightarrow> isVariableUsedInBlockFast name (BlockStmt l (blankAssign name # ss) r) p"
  unfolding isVariableUsedInBlockFast_def nodes_rec [of "BlockStmt _ _ _"] blankAssign_def
  by (simp add: nodes_rec [of "AssignStmt _ _ _ _"] nodes_rec [of "Ident _ _"])

lemma useLoopVars_used:
  "\<lbrakk>\<forall>v \<in> set vars. fst v \<noteq> 0; (p, name) \<in> set vars \<or> isVariableUsedInBlockFast name (BlockStmt l ss r) p\<rbrakk> \<Longrightarrow>
     isVariableUsedInBlockFast name (useLoopVars vars (BlockStmt l ss r)) p"
  unfolding useLoopVars_def
proof (induction vars arbitrary: ss)
  case (Cons v vars)
  obtain q nm where v: "v = (q, nm)" by (cases v)
  show ?case
  proof (cases "isVariableUsedInBlockFast nm (BlockStmt l ss r) q")
    case True
    with v Cons.IH [of ss] Cons.prems show ?thesis by auto
  next
    case False
    have "(p, name) \<in> set vars \<or> isVariableUsedInBlockFast name (BlockStmt l (blankAssign nm # ss) r) p"
      using Cons.prems v used_blank used_mono by auto
    with v False Cons.IH [of "blankAssign nm # ss"] Cons.prems show ?thesis
      by (simp add: prependStmt_def)
  qed
qed simp

text \<open>
  After the repair every named loop variable of a range or three-clause loop is used in
  the loop's body, which is the repaired old body behind blank assignments of loop variables
  and nothing else.
\<close>

theorem loop_variables_used:
  assumes "(case s of RangeStmt _ k v _ _ _ _ body \<Rightarrow> b = body \<and> vars = loopIdents (option_list k) @ loopIdents (option_list v)
            | ForStmt _ i _ _ body \<Rightarrow> b = body \<and> vars = initIdents i | _ \<Rightarrow> False)"
    and "b = BlockStmt l ss r" and "\<forall>v \<in> set vars. fst v \<noteq> 0"
  shows "\<exists>pre. (case fixStmt s of
       RangeStmt _ _ _ _ _ _ _ body' \<Rightarrow> body' = BlockStmt l (map blankAssign pre @ map fixStmt ss) r
     | ForStmt _ _ _ _ body' \<Rightarrow> body' = BlockStmt l (map blankAssign pre @ map fixStmt ss) r
     | _ \<Rightarrow> False) \<and> set pre \<subseteq> snd ` set vars \<and>
     (\<forall>(p, name) \<in> set vars.
        isVariableUsedInBlockFast name (BlockStmt l (map blankAssign pre @ map fixStmt ss) r) p)"
proof -
  obtain pre where pre: "useLoopVars vars (BlockStmt l (map fixStmt ss) r) = BlockStmt l (map blankAssign pre @ map fixStmt ss) r"
    "set pre \<subseteq> snd ` set vars" using useLoopVars_block by blast
  have body: "isBlock b" "fixStmt b = BlockStmt l (map fixStmt ss) r"
    using assms(2) by (simp_all add: isBlock_def NodeTypeOf_def fixStmt.simps [of "BlockStmt _ _ _"])
  have "\<forall>(p, name) \<in> set vars.
      isVariableUsedInBlockFast name (BlockStmt l (map blankAssign pre @ map fixStmt ss) r) p"
    using useLoopVars_used [of vars _ _ l "map fixStmt ss" r] assms(3) pre(1) by auto
  with pre body assms(1) show ?thesis
    by (intro exI [of _ pre], cases s)
       (auto simp: fixStmt.simps [of "RangeStmt _ _ _ _ _ _ _ _"] fixStmt.simps [of "ForStmt _ _ _ _ _"])
qed

theorem loop_variables_used_witness:
  "\<exists>pre. fixStmt (RangeStmt 1 (Some (Ident 5 ''i'')) None 7 T_DEFINE 10 (Ident 16 ''xs'') (BlockStmt 19 [] 20)) =
     RangeStmt 1 (Some (Ident 5 ''i'')) None 7 T_DEFINE 10 (Ident 16 ''xs'')
       (BlockStmt 19 (map blankAssign pre) 20) \<and>
     isVariableUsedInBlockFast ''i'' (BlockStmt 19 (map blankAssign pre) 20) 5"
  using loop_variables_used [where
    s = "RangeStmt 1 (Some (Ident 5 ''i'')) None 7 T_DEFINE 10 (Ident 16 ''xs'') (BlockStmt 19 [] 20)"
    and b = "BlockStmt 19 [] 20" and vars = "[(5, ''i'')]" and l = 19 and ss = "[]" and r = 20]
  by (auto simp: loopIdents_def List.map_filter_simps fixStmt.simps [of "RangeStmt _ _ _ _ _ _ _ _"])

text \<open>
  A labelled statement is not entered, nor the body of a function literal: the loop variable
  of a labelled loop is left as it is.
\<close>

lemma labelled_loop_not_repaired: "fixStmt (LabeledStmt l c s) = LabeledStmt l c s"
  by (simp add: fixStmt.simps)

definition tableSites :: "Site list" where
  "tableSites =
     (let s = \<lparr>sFile = ''/p/a.go'', sFileAST = None, sLine = 3, sColumn = 4, sNode = exLess,
               sReturnType = ''bool'', sFunctionName = ''f'', sEnclosingFunc = None\<rparr>
      in [s, s\<lparr>sLine := 9\<rparr>])"

lemma tableSites_generate:
  "GenerateMutants ''/'' tableSites [ConditionNegation, BoundaryValue] [] ''/p'' [] None =
     number 1 (concat (map (\<lambda>s. [(s, ConditionNegation), (s, BoundaryValue)]) tableSites))"
proof -
  have ops: "opsAt ''/'' [ConditionNegation, BoundaryValue] [] ''/p'' [] None = (\<lambda>s. [ConditionNegation, BoundaryValue])"
    by (simp add: opsAt_def effectiveOperators_def fun_eq_iff)
  have app: "canApply ConditionNegation s \<and> canApply BoundaryValue s" if "sNode s = exLess" for s
    using that by (simp add: canApply_def ConditionNegation_def BoundaryValue_def plainOperator_def
        ConditionNegation_CanApply_def BoundaryValue_CanApply_def acceptBinary_def exLess_def
        ComparisonNegationTokens_def BoundaryValueTokens_def as_BinaryExpr_def)
  show ?thesis
    by (simp add: generated_number ops sitePairs_def app tableSites_def keyOfSite_def Let_def)
qed

theorem table_gives_site_mutants_witness:
  "buildPositionToMutantsMap
     (filter (\<lambda>m. sFile (mSite m) = ''/p/a.go'')
       (GenerateMutants ''/'' tableSites [ConditionNegation, BoundaryValue] [] ''/p'' [] None)) (3, 4, 1) =
   Some [forSite (newMutant 1 (hd tableSites) ConditionNegation),
         forSite (newMutant 2 (hd tableSites) BoundaryValue)]"
proof -
  let ?ms = "GenerateMutants ''/'' tableSites [ConditionNegation, BoundaryValue] [] ''/p'' [] None"
  let ?m = "newMutant 1 (hd tableSites) ConditionNegation"
  have "?m \<in> set ?ms" unfolding tableSites_generate by (simp add: tableSites_def Let_def)
  from table_gives_site_mutants [OF refl this] show ?thesis
    unfolding tableSites_generate
    by (simp add: tableSites_def Let_def newMutant_def mutantPosKey_def exLess_def
          NodeTypeToUint8_def NodeTypeOf_def nodeTypeIndex_def)
qed

subsection \<open>Properties of the position scan\<close>

lemma scanLines_other:
  "(\<forall>line \<in> set ls. \<forall>idx. lineMarker line \<noteq> Some (i, idx)) \<or> i \<notin> set needed \<Longrightarrow>
     scanLines needed orig ls n res i = res i"
  by (induction needed orig ls n res rule: scanLines.induct) (auto simp: Let_def split: option.splits)

lemma scanLines_append:
  "scanLines needed orig (xs @ ys) n res =
     scanLines needed orig ys (n + length xs) (scanLines needed orig xs n res)"
  by (induction needed orig xs n res rule: scanLines.induct) auto

text \<open>
  The scan gives every mutant the last line whose first marker is its own: the line and
  column of that marker, with the original position kept, and the original mapping for a
  mutant without such a line.
\<close>

theorem scan_finds_last_marker:
  assumes "Split content (CHR 0x0A) = xs @ line # ys" and "lineMarker line = Some (i, idx)"
    and "\<forall>l \<in> set ys. \<forall>idx. lineMarker l \<noteq> Some (i, idx)" and "i \<in> set ids" and "orig i = Some p"
  shows "findMutantPositionsInBytes content ids orig i =
           Some (p\<lparr>TempLine := int (length xs) + 1, TempCol := int idx + 1\<rparr>) \<and>
    (\<forall>j. j \<notin> set ids \<or> (\<forall>l \<in> set (xs @ line # ys). \<forall>idx. lineMarker l \<noteq> Some (j, idx)) \<longrightarrow>
       findMutantPositionsInBytes content ids orig j = orig j)"
proof (intro conjI allI impI)
  show "findMutantPositionsInBytes content ids orig i =
      Some (p\<lparr>TempLine := int (length xs) + 1, TempCol := int idx + 1\<rparr>)"
    using assms by (simp add: findMutantPositionsInBytes_def scanLines_append scanLines_other Let_def)
next
  fix j assume "j \<notin> set ids \<or> (\<forall>l \<in> set (xs @ line # ys). \<forall>idx. lineMarker l \<noteq> Some (j, idx))"
  then show "findMutantPositionsInBytes content ids orig j = orig j"
    unfolding findMutantPositionsInBytes_def assms(1) by (intro scanLines_other) auto
qed

theorem scan_finds_last_marker_witness:
  "findMutantPositionsInBytes (''x'' @ [CHR 0x0A] @ '' if activeMutantID == 12 {'') [12]
     [12 \<mapsto> zeroMapping] 12 = Some (zeroMapping\<lparr>TempLine := 2, TempCol := 5\<rparr>)"
proof -
  have ls: "Split (''x'' @ [CHR 0x0A] @ '' if activeMutantID == 12 {'') (CHR 0x0A) =
      [''x''] @ '' if activeMutantID == 12 {'' # []" by code_simp
  have mk: "lineMarker '' if activeMutantID == 12 {'' = Some (12, 4)" by code_simp
  show ?thesis
    using scan_finds_last_marker [OF ls mk, where ids = "[12]" and orig = "[12 \<mapsto> zeroMapping]" and p = zeroMapping]
    by simp
qed

end
