(* ===== verification/Climb.thy ===== *)
theory Climb
  imports GoPath
begin

text \<open>
  Walking up the directories: \<open>filepath.Dir\<close> shortens a path until it no longer changes
  it, so the loops that look for a file in a directory and then in its parents end. The
  loop itself is \<open>findUp\<close>; the program writes it in several places.
\<close>

definition weight :: "string list \<Rightarrow> nat" where
  "weight cs = sum_list (map (\<lambda>c. Suc (length c)) cs)"

lemma weight_simps [simp]:
  "weight [] = 0" "weight (c # cs) = Suc (length c) + weight cs"
  "weight (xs @ ys) = weight xs + weight ys" "weight (rev xs) = weight xs"
  by (simp_all add: weight_def rev_map [symmetric])

lemma weight_Split: "weight (Split s b) = Suc (length s)"
  by (induction s) (auto split: list.split)

lemma length_Join: "cs \<noteq> [] \<Longrightarrow> Suc (length (Join cs [b])) = weight cs"
  by (induction cs "[b]" rule: Join.induct) auto

lemma clean_step_weight: "weight (clean_step r st c) \<le> weight st + Suc (length c)"
proof (cases st)
  case Nil
  then show ?thesis by simp
next
  case (Cons x xs)
  then show ?thesis by simp
qed

lemma clean_foldl_weight: "weight (foldl (clean_step r) st cs) \<le> weight st + weight (filter (\<lambda>c. c \<noteq> []) cs)"
proof (induction cs arbitrary: st)
  case (Cons c cs)
  have "weight (clean_step r st c) \<le> weight st + (if c = [] then 0 else Suc (length c))"
    using clean_step_weight [of r st c] by (cases "c = []") (simp, simp del: clean_step.simps)
  with Cons.IH [of "clean_step r st c"] show ?case by (auto simp del: clean_step.simps)
qed simp

lemma Split_Cons_sep: "Split (b # s) b = [] # Split s b"
  by simp

lemma Split_append_sep: "Split (s @ [b]) b = Split s b @ [[]]"
  by (induction s) (auto split: list.split simp: Cons_eq_append_conv)

lemma weight_filter_le: "weight (filter P cs) \<le> weight cs"
  by (induction cs) auto

lemma Clean_length:
  assumes "p \<noteq> []"
  shows "length (Clean p) \<le> length p"
    and "last p = sep \<Longrightarrow> p \<noteq> [sep] \<Longrightarrow> length (Clean p) < length p"
proof -
  let ?ne = "\<lambda>c. c \<noteq> ([] :: string)"
  define cs where "cs = clean_comps (IsAbs p) (Split p sep)"
  have w: "weight cs \<le> weight (filter ?ne (Split p sep))"
    unfolding cs_def clean_comps_def using clean_foldl_weight [of "IsAbs p" "[]"] by simp
  have len: "length (Clean p) = (if IsAbs p then (if cs = [] then 1 else weight cs)
      else if cs = [] then 1 else weight cs - 1)"
  proof -
    have C: "Clean p = (if IsAbs p then sep # Join cs [sep] else if cs = [] then ''.'' else Join cs [sep])"
      by (simp add: Clean_def Let_def cs_def)
    show ?thesis using length_Join [of cs sep] unfolding C by (cases "cs = []") auto
  qed
  show "length (Clean p) \<le> length p"
  proof (cases "IsAbs p")
    case True
    then obtain q where p: "p = sep # q" by (auto simp: IsAbs_def HasPrefix_iff)
    have "weight cs \<le> length p"
      using w weight_filter_le [of ?ne "Split q sep"] by (simp add: p weight_Split)
    then show ?thesis using assms len True by (auto simp: p)
  next
    case False
    have "weight cs \<le> Suc (length p)"
      using w weight_filter_le [of ?ne "Split p sep"] by (simp add: weight_Split)
    moreover have "0 < length p" using assms by simp
    ultimately show ?thesis using len False by (cases "cs = []") (simp_all add: Suc_le_eq)
  qed
  assume last: "last p = sep" and ne: "p \<noteq> [sep]"
  from assms last obtain q where p: "p = q @ [sep]" by (metis append_butlast_last_id)
  from ne p have q: "q \<noteq> []" by auto
  show "length (Clean p) < length p"
  proof (cases "IsAbs p")
    case True
    then obtain r where r: "q = sep # r" using p q by (cases q) (auto simp: IsAbs_def HasPrefix_iff)
    have "filter ?ne (Split p sep) = filter ?ne (Split r sep)"
      by (simp add: p r Split_append_sep)
    with w weight_filter_le [of ?ne "Split r sep"] have "weight cs \<le> Suc (length r)"
      by (simp add: weight_Split)
    then show ?thesis using len True by (auto simp: p r)
  next
    case False
    have "filter ?ne (Split p sep) = filter ?ne (Split q sep)"
      by (simp add: p Split_append_sep)
    with w weight_filter_le [of ?ne "Split q sep"] have "weight cs \<le> Suc (length q)"
      by (simp add: weight_Split)
    moreover have "0 < length q" using q by simp
    ultimately show ?thesis using len False by (auto simp: p)
  qed
qed

lemma LastIndexByte_Some:
  "LastIndexByte s b = Some i \<Longrightarrow> i < length s \<and> s ! i = b"
  by (induction s arbitrary: i) (auto split: option.splits if_splits simp: nth_Cons split: nat.splits)

definition climb_measure :: "string \<Rightarrow> nat" where
  "climb_measure p = (if p = ''.'' then 0 else Suc (length p))"

lemma Clean_Nil: "Clean [] = ''.''"
  by (simp add: Clean_def IsAbs_def HasPrefix_def clean_comps_def)

lemma Clean_sep: "Clean [sep] = [sep]"
  by (simp add: Clean_def IsAbs_def HasPrefix_def clean_comps_def)

lemma Dir_shrinks: "Dir p \<noteq> p \<Longrightarrow> climb_measure (Dir p) < climb_measure p"
proof (cases "LastIndexByte p sep")
  case None
  assume "Dir p \<noteq> p"
  with None show ?thesis by (auto simp: Dir_def Clean_Nil climb_measure_def)
next
  case (Some i)
  assume ne: "Dir p \<noteq> p"
  define q where "q = take (Suc i) p"
  have i: "i < length p" "p ! i = sep" using LastIndexByte_Some [OF Some] by auto
  have q: "q \<noteq> []" "last q = sep" "length q = Suc i"
    using i by (auto simp: q_def take_Suc_conv_app_nth)
  have dir: "Dir p = Clean q" by (simp add: Dir_def Some q_def)
  have "length (Dir p) < length p"
  proof (cases "q = [sep]")
    case True
    with dir Clean_sep have "Dir p = [sep]" by simp
    with ne i q show ?thesis using True by (cases p) (auto simp: q_def)
  next
    case False
    with Clean_length(2) [OF q(1,2)] dir q(3) i show ?thesis by simp
  qed
  moreover have pne: "p \<noteq> ''.''" using i by (auto simp: sep_def)
  ultimately have "Dir p \<noteq> ''.'' \<Longrightarrow> ?thesis" by (simp add: climb_measure_def)
  moreover from pne have "Dir p = ''.'' \<Longrightarrow> ?thesis" by (simp add: climb_measure_def)
  ultimately show ?thesis by blast
qed

subsection \<open>The loop\<close>

function findUp :: "(string \<Rightarrow> bool) \<Rightarrow> string \<Rightarrow> string option" where
  "findUp P d = (if P d then Some d else if Dir d = d then None else findUp P (Dir d))"
  by pat_completeness auto
termination
  by (relation "measure (climb_measure \<circ> snd)") (auto dest: Dir_shrinks)

declare findUp.simps [simp del]

definition ancestor :: "nat \<Rightarrow> string \<Rightarrow> string" where
  "ancestor n d = (Dir ^^ n) d"

lemma ancestor_simps [simp]: "ancestor 0 d = d" "ancestor (Suc n) d = ancestor n (Dir d)"
  by (simp_all add: ancestor_def funpow_swap1)

lemma ancestor_fixed: "Dir d = d \<Longrightarrow> ancestor n d = d"
  by (induction n) auto

lemma findUp_None: "findUp P d = None \<longleftrightarrow> (\<forall>n. \<not> P (ancestor n d))"
proof (induction P d rule: findUp.induct)
  case (1 P d)
  show ?case
  proof (cases "P d")
    case True
    then show ?thesis by (auto simp: findUp.simps [of P d] intro: exI [of _ 0])
  next
    case False
    show ?thesis
    proof (cases "Dir d = d")
      case True
      with False show ?thesis by (simp add: findUp.simps [of P d] ancestor_fixed)
    next
      case ne: False
      have all: "(\<forall>n. \<not> P (ancestor n d)) \<longleftrightarrow> (\<forall>n. \<not> P (ancestor n (Dir d)))"
        using False by (metis ancestor_simps old.nat.exhaust)
      from 1 False ne all show ?thesis by (simp add: findUp.simps [of P d])
    qed
  qed
qed

lemma findUp_Some:
  "findUp P d = Some e \<Longrightarrow> \<exists>n. e = ancestor n d \<and> P e \<and> (\<forall>m<n. \<not> P (ancestor m d))"
proof (induction P d rule: findUp.induct)
  case (1 P d)
  show ?case
  proof (cases "P d")
    case True
    with 1 show ?thesis by (auto simp: findUp.simps [of P d] intro!: exI [of _ 0])
  next
    case False
    with 1(2) have ne: "Dir d \<noteq> d" "findUp P (Dir d) = Some e"
      by (auto simp: findUp.simps [of P d] split: if_splits)
    from 1(1) [OF False ne] obtain n
      where n: "e = ancestor n (Dir d)" "P e" "\<forall>m<n. \<not> P (ancestor m (Dir d))" by auto
    have "\<forall>m<Suc n. \<not> P (ancestor m d)"
      using n(3) False by (metis ancestor_simps less_Suc_eq_0_disj)
    with n show ?thesis by (intro exI [of _ "Suc n"]) simp
  qed
qed

end
