(* ===== verification/Classify.thy ===== *)
theory Classify
  imports Climb
begin

text \<open>
  \<open>internal/core/classify.go\<close> and the text functions of \<open>internal/core/utils.go\<close>: what the
  verbose output of a test binary says about a mutant, and the reading of compiler errors.
  The run of the binary itself is outside; its output, whether it returned an error and
  whether the deadline had passed are the inputs.
\<close>

definition newline :: char where "newline = CHR 0x0A"

abbreviation splitLines :: "string \<Rightarrow> string list" where
  "splitLines s \<equiv> Split s newline"

subsection \<open>The outcome of a run\<close>

record runResult =
  rrStatus :: string
  rrKilledBy :: string
  rrKillOutput :: string

definition prefixRUN :: string where "prefixRUN = ''=== RUN   ''"
definition prefixFAIL :: string where "prefixFAIL = ''--- FAIL: ''"

definition truncOutput :: "string \<Rightarrow> string" where
  "truncOutput b = (if 300 < length b then take 300 b else b)"

fun IndexAny :: "string \<Rightarrow> char set \<Rightarrow> nat option" where
  "IndexAny [] cs = None"
| "IndexAny (c # s) cs = (if c \<in> cs then Some 0 else map_option Suc (IndexAny s cs))"

definition positive :: "nat option \<Rightarrow> nat option" where
  "positive i = (case i of None \<Rightarrow> None | Some n \<Rightarrow> if 0 < n then Some n else None)"

definition parseFailLineName :: "string \<Rightarrow> string" where
  "parseFailLineName line =
     (let rest = drop (length prefixFAIL) line in
      case positive (Index rest '' ('') of
        Some idx \<Rightarrow> take idx rest
      | None \<Rightarrow>
          (case positive (IndexAny rest {CHR '' '', CHR 0x09}) of
             Some idx \<Rightarrow> take idx rest
           | None \<Rightarrow> rest))"

definition trimIndent :: "string \<Rightarrow> string" where
  "trimIndent s = TrimLeft (\<lambda>c. c \<in> {CHR '' '', CHR 0x09}) s"

fun scanVerbose :: "string list \<Rightarrow> bool \<Rightarrow> string \<Rightarrow> bool \<times> string" where
  "scanVerbose [] sawRun firstFail = (sawRun, firstFail)"
| "scanVerbose (line # lines) sawRun firstFail =
     (let s = trimIndent line in
      scanVerbose lines
        (if \<not> sawRun \<and> HasPrefix s prefixRUN then True else sawRun)
        (if firstFail = '''' \<and> HasPrefix s prefixFAIL then parseFailLineName s else firstFail))"

definition classifyVerboseRun :: "string \<Rightarrow> bool \<Rightarrow> bool \<Rightarrow> runResult" where
  "classifyVerboseRun out runErr deadlineExceeded =
     (if deadlineExceeded then
        \<lparr>rrStatus = ''timeout'', rrKilledBy = ''(timeout)'', rrKillOutput = ''test timed out''\<rparr>
      else case scanVerbose (splitLines out) False '''' of (sawRun, firstFail) \<Rightarrow>
        if firstFail \<noteq> '''' then
          \<lparr>rrStatus = ''killed'', rrKilledBy = firstFail, rrKillOutput = truncOutput out\<rparr>
        else if \<not> sawRun then
          (if runErr then
             \<lparr>rrStatus = ''error'', rrKilledBy = ''runtime error'', rrKillOutput = truncOutput out\<rparr>
           else \<lparr>rrStatus = ''untested'', rrKilledBy = '''', rrKillOutput = ''''\<rparr>)
        else if runErr then
          \<lparr>rrStatus = ''killed'', rrKilledBy = ''runtime error'', rrKillOutput = truncOutput out\<rparr>
        else \<lparr>rrStatus = ''survived'', rrKilledBy = '''', rrKillOutput = ''''\<rparr>)"

subsection \<open>Compiler errors\<close>

record CompilerError =
  ceFile :: string
  ceLine :: int
  ceCol :: int
  ceMessage :: string

definition splitLastInt :: "string \<Rightarrow> (string \<times> int) option" where
  "splitLastInt s = (case LastIndexByte s CHR '':'' of
     None \<Rightarrow> None
   | Some i \<Rightarrow> map_option (Pair (take i s)) (Atoi (drop (Suc i) s)))"

definition parseCompilerErrorLine :: "string \<Rightarrow> CompilerError option" where
  "parseCompilerErrorLine line = (case Index line '': '' of
     None \<Rightarrow> None
   | Some idx \<Rightarrow>
       (case splitLastInt (take idx line) of
          None \<Rightarrow> None
        | Some (rest, col) \<Rightarrow>
            (case splitLastInt rest of
               None \<Rightarrow> None
             | Some (filePath, lineNum) \<Rightarrow>
                 Some \<lparr>ceFile = filePath, ceLine = lineNum, ceCol = col,
                   ceMessage = drop (idx + 2) line\<rparr>)))"

definition skipErrorLine :: "string \<Rightarrow> bool" where
  "skipErrorLine line \<longleftrightarrow> line = '''' \<or> HasSuffix line ''too many errors''"

definition ParseCompilerErrors :: "string \<Rightarrow> CompilerError list" where
  "ParseCompilerErrors out = List.map_filter
     (\<lambda>l. let line = TrimSpace l in
        if skipErrorLine line then None
        else if HasPrefix line ''# '' then None
        else parseCompilerErrorLine line) (splitLines out)"

fun uniqueLoop :: "string \<Rightarrow> string list \<Rightarrow> string list \<Rightarrow> string list \<Rightarrow> string list" where
  "uniqueLoop skipPrefix [] seen errs = errs"
| "uniqueLoop skipPrefix (l # ls) seen errs =
     (let line = TrimSpace l in
      if skipErrorLine line then uniqueLoop skipPrefix ls seen errs
      else if skipPrefix \<noteq> '''' \<and> HasPrefix line skipPrefix then uniqueLoop skipPrefix ls seen errs
      else let msg = (case Index line '': '' of None \<Rightarrow> line | Some idx \<Rightarrow> drop (idx + 2) line) in
        if msg \<in> set seen then uniqueLoop skipPrefix ls seen errs
        else uniqueLoop skipPrefix ls (msg # seen) (errs @ [msg]))"

definition UniqueErrorLines :: "string \<Rightarrow> string \<Rightarrow> string list" where
  "UniqueErrorLines out skipPrefix = uniqueLoop skipPrefix (splitLines out) [] []"

text \<open>The text \<open>attributeCompileErrors\<close> prints an error with.\<close>

definition formatError :: "CompilerError \<Rightarrow> string" where
  "formatError ce = ceFile ce @ '':'' @ Itoa (ceLine ce) @ '':'' @ Itoa (ceCol ce) @ '': '' @ ceMessage ce"

subsection \<open>The module of a directory\<close>

text \<open>\<open>exists\<close> tells which paths can be examined with \<open>os.Stat\<close>.\<close>

definition FindGoModDir :: "string \<Rightarrow> (string \<Rightarrow> bool) \<Rightarrow> string \<Rightarrow> string" where
  "FindGoModDir cwd exists d =
     (case findUp (\<lambda>p. exists (PathJoin [p, ''go.mod''])) (Abs cwd d) of
        None \<Rightarrow> '''' | Some p \<Rightarrow> p)"

subsection \<open>Laws\<close>

text \<open>The indented lines of an output, and the first failure it names.\<close>

definition verboseLines :: "string \<Rightarrow> string list" where
  "verboseLines out = map trimIndent (splitLines out)"

definition failNames :: "string \<Rightarrow> string list" where
  "failNames out = filter (\<lambda>n. n \<noteq> '''')
     (map parseFailLineName (filter (\<lambda>s. HasPrefix s prefixFAIL) (verboseLines out)))"

lemma scanVerbose_spec:
  "scanVerbose lines sawRun firstFail =
     (sawRun \<or> (\<exists>l \<in> set lines. HasPrefix (trimIndent l) prefixRUN),
      if firstFail \<noteq> '''' then firstFail
      else first_or '''' (filter (\<lambda>n. n \<noteq> '''')
        (map parseFailLineName (filter (\<lambda>s. HasPrefix s prefixFAIL) (map trimIndent lines)))))"
  by (induction lines sawRun firstFail rule: scanVerbose.induct) (auto simp: Let_def)

lemma scanVerbose_lines:
  "scanVerbose (splitLines out) False '''' =
     (\<exists>s \<in> set (verboseLines out). HasPrefix s prefixRUN, first_or '''' (failNames out))"
  by (simp add: scanVerbose_spec verboseLines_def failNames_def)

lemma first_or_failNames: "first_or '''' (failNames out) = '''' \<longleftrightarrow> failNames out = []"
proof (cases "failNames out")
  case (Cons n ns)
  then have "n \<in> set (failNames out)" by simp
  then have "n \<noteq> ''''" by (auto simp: failNames_def)
  with Cons show ?thesis by simp
qed simp

lemma failNames_hd: "failNames out = n # ns \<Longrightarrow> n \<noteq> ''''"
  by (metis first_or_failNames first_or_simps(2) list.distinct(1))

lemma truncOutput_bound: "length (truncOutput b) \<le> 300 \<and> HasPrefix b (truncOutput b)"
  by (auto simp: truncOutput_def HasPrefix_def)

lemma classify_statuses:
  "rrStatus (classifyVerboseRun out runErr deadline) \<in>
     {''timeout'', ''killed'', ''survived'', ''error'', ''untested''}"
  by (simp add: classifyVerboseRun_def split: prod.split)

text \<open>
  C24. A run is classified by the documented rules and by nothing else: a passed deadline is
  a timeout; otherwise a named failure line is a kill by the first test so named; otherwise
  a test that started survives or kills by the exit code; without any test, an exit with an
  error is an error and the rest is untested. The kept output is a prefix of at most 300
  bytes, except for the fixed text of a timeout.
\<close>

theorem run_classified_by_rules:
  "let r = classifyVerboseRun out runErr deadline;
       ran = (\<exists>s \<in> set (verboseLines out). HasPrefix s prefixRUN)
   in rrStatus r =
        (if deadline then ''timeout''
         else if failNames out \<noteq> [] then ''killed''
         else if ran then (if runErr then ''killed'' else ''survived'')
         else if runErr then ''error'' else ''untested'') \<and>
      rrKilledBy r =
        (if deadline then ''(timeout)'' else if failNames out \<noteq> [] then hd (failNames out)
         else if runErr then ''runtime error'' else '''') \<and>
      length (rrKillOutput r) \<le> 300 \<and>
      (deadline \<or> HasPrefix out (rrKillOutput r))"
  using truncOutput_bound [of out]
  by (auto simp: classifyVerboseRun_def Let_def scanVerbose_lines first_or_failNames first_or_def
        dest: failNames_hd split: list.splits)

subsection \<open>Compiler errors are read back\<close>

definition printableError :: "CompilerError \<Rightarrow> bool" where
  "printableError ce \<longleftrightarrow>
     newline \<notin> set (ceFile ce) \<and> newline \<notin> set (ceMessage ce) \<and>
     Index (ceFile ce) '': '' = None \<and> \<not> HasPrefix (ceFile ce) ''# '' \<and>
     (ceFile ce \<noteq> '''' \<longrightarrow> \<not> isSpace (hd (ceFile ce))) \<and>
     ceMessage ce \<noteq> '''' \<and> \<not> isSpace (last (ceMessage ce)) \<and>
     \<not> HasSuffix (ceMessage ce) ''too many errors'' \<and>
     int64 (ceLine ce) \<noteq> None \<and> int64 (ceCol ce) \<noteq> None"

lemma Index_colon_space:
  "\<lbrakk>Index xs '': '' = None; c \<noteq> CHR '' ''\<rbrakk> \<Longrightarrow> Index (xs @ c # ys) '': '' = map_option (\<lambda>i. i + length xs) (Index (c # ys) '': '')"
proof (induction xs)
  case (Cons x xs)
  have "\<not> HasPrefix (x # xs @ c # ys) '': ''"
    using Cons.prems by (cases xs) (auto simp: HasPrefix_def split: if_splits)
  with Cons show ?case by (auto simp: HasPrefix_def option.map_comp comp_def split: if_splits)
qed (simp add: option.map_ident)

lemma Index_none_colon: "CHR '':'' \<notin> set xs \<Longrightarrow> Index xs '': '' = None"
  by (induction xs) (auto simp: HasPrefix_def)

lemma Index_here: "Index ('': '' @ ys) '': '' = Some 0"
  by (simp add: HasPrefix_def)

lemma Itoa_chars: "c \<in> set (Itoa n) \<Longrightarrow> isDigit c \<or> c = CHR ''-''"
  using natDigits_digits by (auto simp: Itoa_def split: if_splits)

lemma Itoa_no [simp]:
  "CHR '':'' \<notin> set (Itoa n)" "newline \<notin> set (Itoa n)" "CHR '' '' \<notin> set (Itoa n)"
  by (auto dest!: Itoa_chars simp: isDigit_def newline_def)

lemma Itoa_nonempty [simp]: "Itoa n \<noteq> []"
  by (simp add: Itoa_def)

lemma int64_Atoi: "int64 n \<noteq> None \<Longrightarrow> Atoi (Itoa n) = Some n"
  by (auto simp: int64_def split: if_splits)

lemma splitLastInt_print:
  "int64 n \<noteq> None \<Longrightarrow> splitLastInt (s @ CHR '':'' # Itoa n) = Some (s, n)"
  by (simp add: splitLastInt_def LastIndexByte_split int64_Atoi)

lemma Index_location:
  assumes "Index f '': '' = None"
  shows "Index (f @ CHR '':'' # Itoa a @ CHR '':'' # Itoa b @ '': '' @ msg) '': '' =
     Some (length (f @ CHR '':'' # Itoa a @ CHR '':'' # Itoa b))"
proof -
  obtain x xs where a: "Itoa a = x # xs" and x: "x \<noteq> CHR '' ''"
    using Itoa_nonempty [of a] Itoa_no(3) [of a] by (cases "Itoa a") auto
  obtain y ys where b: "Itoa b = y # ys" and y: "y \<noteq> CHR '' ''"
    using Itoa_nonempty [of b] Itoa_no(3) [of b] by (cases "Itoa b") auto
  let ?tail = "CHR '':'' # CHR '' '' # msg"
  have c: "CHR '':'' \<noteq> CHR '' ''" by simp
  have 1: "Index (Itoa b @ ?tail) '': '' = Some (length (Itoa b))"
    using Index_colon_space [OF Index_none_colon [OF Itoa_no(1)] c, of b "CHR '' '' # msg"]
    by (simp add: HasPrefix_def)
  have 2: "Index (CHR '':'' # Itoa b @ ?tail) '': '' = Some (Suc (length (Itoa b)))"
    using 1 y by (simp add: b HasPrefix_def)
  have 3: "Index (Itoa a @ CHR '':'' # Itoa b @ ?tail) '': '' = Some (Suc (length (Itoa b) + length (Itoa a)))"
    using Index_colon_space [OF Index_none_colon [OF Itoa_no(1)] c, of a "Itoa b @ ?tail"] 2 by simp
  have 4: "Index (CHR '':'' # Itoa a @ CHR '':'' # Itoa b @ ?tail) '': '' =
      Some (Suc (Suc (length (Itoa b) + length (Itoa a))))"
    using 3 x by (simp add: a HasPrefix_def)
  show ?thesis
    using Index_colon_space [OF assms c, of "Itoa a @ CHR '':'' # Itoa b @ ?tail"] 4 by simp
qed

lemma HasSuffix_colon:
  assumes "CHR '':'' \<notin> set S" "HasSuffix (p @ '': '' @ msg) S" "S = [] \<or> hd S \<noteq> CHR '' ''"
  shows "HasSuffix msg S"
proof -
  obtain t where t: "p @ '': '' @ msg = t @ S"
    using assms(2) by (metis HasSuffix_def append_take_drop_id)
  have "length S \<le> length msg"
  proof (rule ccontr)
    assume "\<not> length S \<le> length msg"
    then have S: "S \<noteq> []" and len: "length t < length (p @ '': '')"
      using arg_cong [OF t, of length] by auto
    have "length t \<le> length p \<or> length t = Suc (length p)" using len by auto
    then show False
    proof
      assume le: "length t \<le> length p"
      then have "S = drop (length t) p @ '': '' @ msg"
        using arg_cong [OF t, of "drop (length t)"] by simp
      with assms(1) show False by auto
    next
      assume eq: "length t = Suc (length p)"
      then have "S = CHR '' '' # msg"
        using arg_cong [OF t, of "drop (length t)"] by simp
      with assms(3) show False by simp
    qed
  qed
  moreover have "drop (length msg - length S) msg = S"
  proof -
    have "S = drop (length (p @ '': '' @ msg) - length S) (p @ '': '' @ msg)"
      unfolding t by simp
    also have "\<dots> = drop (length msg - length S) msg"
      using \<open>length S \<le> length msg\<close> by (simp add: Suc_diff_le)
    finally show ?thesis by simp
  qed
  ultimately show ?thesis by (simp add: HasSuffix_def)
qed

lemma HasPrefix_append_shorter:
  "HasPrefix (f @ x # ys) p \<Longrightarrow> x \<notin> set p \<Longrightarrow> HasPrefix f p"
  by (auto simp: HasPrefix_iff append_eq_append_conv2 append_eq_Cons_conv Cons_eq_append_conv)

lemma TrimSpace_id:
  assumes "s = [] \<or> \<not> isSpace (hd s) \<and> \<not> isSpace (last s)"
  shows "TrimSpace s = s"
proof (cases "s = []")
  case False
  with assms have "dropWhile isSpace s = s" by (cases s) auto
  moreover have "dropWhile isSpace (rev s) = rev s"
    using False assms by (cases s rule: rev_cases) auto
  ultimately show ?thesis by (simp add: TrimSpace_def TrimBoth_def)
qed (simp add: TrimSpace_def TrimBoth_def)

lemma formatError_parts:
  assumes "printableError ce"
  shows "TrimSpace (formatError ce) = formatError ce"
    and "\<not> skipErrorLine (formatError ce)"
    and "\<not> HasPrefix (formatError ce) ''# ''"
    and "parseCompilerErrorLine (formatError ce) = Some ce"
    and "newline \<notin> set (formatError ce)"
proof -
  note p = assms [unfolded printableError_def]
  let ?f = "ceFile ce" and ?loc = "ceFile ce @ CHR '':'' # Itoa (ceLine ce) @ CHR '':'' # Itoa (ceCol ce)"
  have form: "formatError ce = ?loc @ '': '' @ ceMessage ce" by (simp add: formatError_def)
  have hd: "\<not> isSpace (hd (formatError ce))"
    using p by (cases ?f) (auto simp: form isSpace_def)
  have "last (formatError ce) = last (ceMessage ce)" using p by (simp add: form)
  with hd p show "TrimSpace (formatError ce) = formatError ce" by (intro TrimSpace_id) simp
  show "\<not> skipErrorLine (formatError ce)"
    using p HasSuffix_colon [of "''too many errors''" ?loc "ceMessage ce"]
    unfolding skipErrorLine_def form by auto
  show "\<not> HasPrefix (formatError ce) ''# ''"
    using p HasPrefix_append_shorter [of ?f "CHR '':''"] by (auto simp: formatError_def)
  have idx: "Index (formatError ce) '': '' = Some (length ?loc)"
    using p Index_location [of ?f "ceLine ce" "ceCol ce" "ceMessage ce"] by (simp add: formatError_def)
  have t: "take (length ?loc) (formatError ce) = ?loc" "drop (length ?loc + 2) (formatError ce) = ceMessage ce"
    unfolding form by (simp_all only: drop_append) simp_all
  have "splitLastInt ?loc = Some (?f @ CHR '':'' # Itoa (ceLine ce), ceCol ce)"
    using p splitLastInt_print [of "ceCol ce" "?f @ CHR '':'' # Itoa (ceLine ce)"] by simp
  moreover have "splitLastInt (?f @ CHR '':'' # Itoa (ceLine ce)) = Some (?f, ceLine ce)"
    using p by (simp add: splitLastInt_print)
  ultimately show "parseCompilerErrorLine (formatError ce) = Some ce"
    unfolding parseCompilerErrorLine_def idx option.case t by simp
  show "newline \<notin> set (formatError ce)"
    using p by (auto simp: formatError_def newline_def Itoa_no(2) [unfolded newline_def])
qed

lemma Split_clean: "b \<notin> set s \<Longrightarrow> Split s b = [s]"
  by (induction s) auto

lemma Split_sep_append: "b \<notin> set s \<Longrightarrow> Split (s @ b # t) b = s # Split t b"
  by (induction s) auto

lemma Split_Join: "\<forall>s \<in> set ss. b \<notin> set s \<Longrightarrow> ss \<noteq> [] \<Longrightarrow> Split (Join ss [b]) b = ss"
  by (induction ss "[b]" rule: Join.induct) (auto simp: Split_clean Split_sep_append)

lemma errors_read_back:
  assumes "\<forall>ce \<in> set ces. printableError ce"
  shows "ParseCompilerErrors (Join (map formatError ces) [newline]) = ces"
proof (cases "ces = []")
  case True
  then show ?thesis
    by (simp add: ParseCompilerErrors_def skipErrorLine_def TrimSpace_def TrimBoth_def List.map_filter_simps)
next
  case False
  have "splitLines (Join (map formatError ces) [newline]) = map formatError ces"
    using assms False formatError_parts(5) by (intro Split_Join) auto
  then have "ParseCompilerErrors (Join (map formatError ces) [newline]) = List.map_filter
     (\<lambda>l. let line = TrimSpace l in
        if skipErrorLine line then None
        else if HasPrefix line ''# '' then None
        else parseCompilerErrorLine line) (map formatError ces)"
    by (simp add: ParseCompilerErrors_def)
  also have "\<dots> = ces"
    using assms
  proof (induction ces)
    case (Cons ce ces)
    then show ?case
      using formatError_parts [of ce] by (simp add: List.map_filter_simps Let_def)
  qed (simp add: List.map_filter_simps)
  finally show ?thesis .
qed

text \<open>
  C25. Compiler errors survive printing and parsing: a list of errors written one per line
  in the form \<open>file:line:column: message\<close> is read back as it was, for any file name and
  message the form can carry.
\<close>

theorem compiler_errors_read_back:
  assumes "\<forall>ce \<in> set ces. printableError ce"
  shows "ParseCompilerErrors (Join (map formatError ces) [newline]) = ces"
  using assms by (rule errors_read_back)

theorem compiler_errors_read_back_witness:
  "ParseCompilerErrors (Join (map formatError
     [\<lparr>ceFile = ''c:/a.go'', ceLine = 12, ceCol = 3, ceMessage = ''undefined: x''\<rparr>,
      \<lparr>ceFile = ''b.go'', ceLine = 7, ceCol = 1, ceMessage = ''missing return''\<rparr>]) [newline]) =
     [\<lparr>ceFile = ''c:/a.go'', ceLine = 12, ceCol = 3, ceMessage = ''undefined: x''\<rparr>,
      \<lparr>ceFile = ''b.go'', ceLine = 7, ceCol = 1, ceMessage = ''missing return''\<rparr>]"
  by (rule compiler_errors_read_back) (simp add: printableError_def newline_def HasPrefix_def
    HasSuffix_def isSpace_def int64_def)

text \<open>
  \<open>FindGoModDir\<close> ends and finds the nearest module: its result is the first of the
  directory and its parents that has a \<open>go.mod\<close>, and it is empty exactly when none has.
\<close>

theorem go_mod_nearest:
  "let r = FindGoModDir cwd exists d; up = (\<lambda>n. ancestor n (Abs cwd d));
       has = (\<lambda>p. exists (PathJoin [p, ''go.mod'']))
   in (\<exists>n. r = up n \<and> has r \<and> (\<forall>m<n. \<not> has (up m))) \<or>
      r = '''' \<and> (\<forall>n. \<not> has (up n))"
proof (cases "findUp (\<lambda>p. exists (PathJoin [p, ''go.mod''])) (Abs cwd d)")
  case None
  then have "\<forall>n. \<not> exists (PathJoin [ancestor n (Abs cwd d), ''go.mod''])" by (simp add: findUp_None)
  with None show ?thesis by (simp add: FindGoModDir_def Let_def)
next
  case (Some p)
  from findUp_Some [OF this] Some show ?thesis by (auto simp: FindGoModDir_def Let_def)
qed

theorem go_mod_nearest_witness:
  "FindGoModDir ''/w'' (\<lambda>p. p \<in> {''/a/b/go.mod'', ''/a/go.mod''}) ''/a/b/c'' = ''/a/b''"
proof -
  define ex where "ex = (\<lambda>p. p \<in> {''/a/b/go.mod'', ''/a/go.mod''})"
  define has where "has = (\<lambda>p. ex (PathJoin [p, ''go.mod'']))"
  define up where "up = (\<lambda>n. ancestor n (Abs ''/w'' ''/a/b/c''))"
  define r where "r = FindGoModDir ''/w'' ex ''/a/b/c''"
  have up: "up 0 = ''/a/b/c''" "up 1 = ''/a/b''" unfolding up_def by code_simp+
  have has: "\<not> has ''/a/b/c''" "has ''/a/b''" unfolding has_def ex_def by code_simp+
  have "(\<exists>n. r = up n \<and> has r \<and> (\<forall>m<n. \<not> has (up m))) \<or> r = '''' \<and> (\<forall>n. \<not> has (up n))"
    using go_mod_nearest [of "''/w''" ex "''/a/b/c''"] unfolding Let_def r_def has_def up_def .
  moreover have "has (up 1)" using up(2) has(2) by simp
  ultimately obtain n where n: "r = up n" "has (up n)" "\<forall>m<n. \<not> has (up m)" by auto
  have "n \<noteq> 0" using n(2) up(1) has(1) by (cases n) auto
  moreover have "\<not> 1 < n" using n(3) up(2) has(2) by auto
  ultimately have "n = 1" by simp
  with n(1) up(2) show ?thesis by (simp add: r_def ex_def)
qed

end
