(* ===== verification/Status.thy ===== *)
theory Status
  imports Transform Classify
begin

text \<open>
  The status of a mutant through a run (\<open>internal/core/schemata.go\<close>, with
  \<open>runMutantsAgainstBinary\<close> of \<open>executor.go\<close>): the ranks, the collection of unit-test
  results, the two forms of the external phase, the packages without tests, and the final
  status. The execution of a test binary on a mutant is a parameter \<open>exec\<close>: the output,
  whether the run returned an error, whether the deadline passed. The binaries of a suite are
  a list, in the order in which the range over the map visits them. A site without a file is
  one whose file has no name.
\<close>

record mutantResult =
  rID :: int
  rStatus :: string
  rErr :: "string option"
  rKilledBy :: string
  rKillDuration :: int
  rKillOutput :: string

definition hasFile :: "Mutant \<Rightarrow> bool" where
  "hasFile m \<longleftrightarrow> sFile (mSite m) \<noteq> ''''"

definition finalizeMutants :: "Mutant list \<Rightarrow> Mutant list" where
  "finalizeMutants ms =
     map (\<lambda>m. if mStatus m = '''' then m\<lparr>mStatus := StatusUntested\<rparr> else m) ms"

definition statusRank :: "string \<Rightarrow> int" where
  "statusRank s = or_else 0 (map_of
     [('''', 0), (''untested'', 1), (''survived'', 2), (''error'', 3), (''timeout'', 4),
      (''killed'', 5), (''invalid'', 6)] s)"

definition shouldUpdate :: "string \<Rightarrow> string \<Rightarrow> bool" where
  "shouldUpdate current incoming =
     (if current = ''invalid'' \<or> current = ''killed'' then False
      else statusRank current \<le> statusRank incoming)"

definition setMutantErrors :: "Mutant list \<Rightarrow> string \<Rightarrow> Mutant list" where
  "setMutantErrors ms err = map (\<lambda>m. m\<lparr>mStatus := ''error'', mError := Some err\<rparr>) ms"

text \<open>The index of each mutant by its id; a later mutant with the same id wins.\<close>

definition idToIndex :: "Mutant list \<Rightarrow> (int \<rightharpoonup> nat)" where
  "idToIndex ms = foldl (\<lambda>f i. f(mID (ms ! i) \<mapsto> i)) Map.empty [0..<length ms]"

definition recordResult :: "string \<Rightarrow> mutantResult \<Rightarrow> Mutant \<Rightarrow> Mutant" where
  "recordResult td r m = m\<lparr>mStatus := rStatus r, mError := rErr r, mTempDir := td,
     mKilledBy := rKilledBy r, mKillDuration := rKillDuration r, mKillOutput := rKillOutput r\<rparr>"

text \<open>The loops over results share their shape: find the mutant, update it in place.\<close>

definition updateByID :: "(int \<rightharpoonup> nat) \<Rightarrow> (Mutant \<Rightarrow> mutantResult \<Rightarrow> Mutant) \<Rightarrow>
    Mutant list \<Rightarrow> mutantResult list \<Rightarrow> Mutant list" where
  "updateByID idx upd ms results = foldl (\<lambda>ms r. case idx (rID r) of
     None \<Rightarrow> ms | Some i \<Rightarrow> ms[i := upd (ms ! i) r]) ms results"

definition collectOne :: "string \<Rightarrow> Mutant \<Rightarrow> mutantResult \<Rightarrow> Mutant" where
  "collectOne td m r = (if \<not> shouldUpdate (mStatus m) (rStatus r) then m else recordResult td r m)"

definition collectResults ::
  "Mutant list \<Rightarrow> mutantResult list \<Rightarrow> (int \<rightharpoonup> nat) \<Rightarrow> string \<Rightarrow> Mutant list" where
  "collectResults ms results idx td = updateByID idx (collectOne td) ms results"

subsection \<open>Packages without tests\<close>

definition markUntested :: "string \<Rightarrow> string set \<Rightarrow> Mutant list \<Rightarrow> Mutant list" where
  "markUntested cwd covered ms = map (\<lambda>m.
     if \<not> hasFile m then m
     else if Dir (Abs cwd (sFile (mSite m))) \<notin> covered then m\<lparr>mStatus := ''untested''\<rparr> else m) ms"

definition filterMutantsByTestPackages :: "string \<Rightarrow> Mutant list \<Rightarrow> string list \<Rightarrow> Mutant list" where
  "filterMutantsByTestPackages cwd ms testPaths =
     (let covered = (\<lambda>t. Dir (Abs cwd t)) ` set testPaths
      in if covered = {} then ms else markUntested cwd covered ms)"

definition collectPackagesWithTestsAbs :: "string \<Rightarrow> (string \<Rightarrow> fsnode) \<Rightarrow> string \<Rightarrow> string set" where
  "collectPackagesWithTestsAbs cwd fs absModule =
     (\<lambda>p. Abs cwd (Dir p)) ` {p \<in> set (walkFiles absModule (fs absModule)). HasSuffix p ''_test.go''}"

definition collectPackagesWithTests :: "(string \<Rightarrow> fsnode) \<Rightarrow> string \<Rightarrow> string set" where
  "collectPackagesWithTests fs absModule = set (List.map_filter
     (\<lambda>p. if HasSuffix p ''_test.go'' then
            map_option (\<lambda>rel. if rel = '''' then ''.'' else rel) (Rel absModule (Dir p))
          else None) (walkFiles absModule (fs absModule)))"

definition filterMutantsWithoutTests ::
  "string \<Rightarrow> (string \<Rightarrow> fsnode) \<Rightarrow> Mutant list \<Rightarrow> string \<Rightarrow> Mutant list" where
  "filterMutantsWithoutTests cwd fs ms projRoot =
     (let pkgs = collectPackagesWithTestsAbs cwd fs (Abs cwd projRoot)
      in if pkgs = {} then ms else markUntested cwd pkgs ms)"

subsection \<open>External suites\<close>

type_synonym execution = "string \<Rightarrow> int \<Rightarrow> string \<times> bool \<times> bool"

definition outcome :: "execution \<Rightarrow> string \<Rightarrow> int \<Rightarrow> runResult" where
  "outcome exec binPath i = (case exec binPath i of
     (raw, runErr, deadline) \<Rightarrow> classifyVerboseRun raw runErr deadline)"

lemma outcome_statuses:
  "rrStatus (outcome exec b i) \<in> {''timeout'', ''killed'', ''survived'', ''error'', ''untested''}"
  unfolding outcome_def by (cases "exec b i") (simp only: prod.case classify_statuses)

definition externalKiller :: "runResult \<Rightarrow> string \<Rightarrow> string" where
  "externalKiller r suiteName =
     (if rrStatus r = ''killed'' then
        (if rrKilledBy r = '''' then suiteName else rrKilledBy r @ '' ['' @ suiteName @ '']'')
      else rrKilledBy r)"

definition externalResult :: "execution \<Rightarrow> string \<Rightarrow> string \<Rightarrow> Mutant \<Rightarrow> mutantResult" where
  "externalResult exec binPath suiteName m =
     (let r = outcome exec binPath (mID m) in
      \<lparr>rID = mID m, rStatus = rrStatus r, rErr = None, rKilledBy = externalKiller r suiteName,
       rKillDuration = 0, rKillOutput = rrKillOutput r\<rparr>)"

definition runMutantsAgainstBinary ::
  "execution \<Rightarrow> string \<Rightarrow> string \<Rightarrow> Mutant list \<Rightarrow> mutantResult list" where
  "runMutantsAgainstBinary exec binPath suiteName ms = map (externalResult exec binPath suiteName) ms"

definition needsExternal :: "string \<Rightarrow> bool" where
  "needsExternal s \<longleftrightarrow> s = ''survived'' \<or> s = '''' \<or> s = StatusUntested \<or> s = StatusError"

text \<open>The targets, pointers into the list of mutants, are indices.\<close>

definition phaseTargets :: "ExternalSuitesConfig \<Rightarrow> Mutant list \<Rightarrow> nat list" where
  "phaseTargets cfg ms =
     (if RunMode cfg = ''before_unit'' then [0..<length ms]
      else filter (\<lambda>i. needsExternal (mStatus (ms ! i))) [0..<length ms])"

definition stillAlive :: "Mutant list \<Rightarrow> nat list \<Rightarrow> nat list" where
  "stillAlive ms targets = filter (\<lambda>i. mStatus (ms ! i) \<noteq> ''killed'') targets"

fun binaryLoop ::
  "(Mutant \<Rightarrow> mutantResult \<Rightarrow> Mutant) \<Rightarrow> execution \<Rightarrow> (int \<rightharpoonup> nat) \<Rightarrow> nat list \<Rightarrow> string \<Rightarrow>
   string list \<Rightarrow> Mutant list \<Rightarrow> Mutant list" where
  "binaryLoop upd exec idx targets suiteName [] ms = ms"
| "binaryLoop upd exec idx targets suiteName (b # bs) ms =
     (let alive = stillAlive ms targets in
      if alive = [] then ms
      else binaryLoop upd exec idx targets suiteName bs
             (updateByID idx upd ms
               (runMutantsAgainstBinary exec b suiteName (map ((!) ms) alive))))"

fun suiteLoop ::
  "(Mutant \<Rightarrow> mutantResult \<Rightarrow> Mutant) \<Rightarrow> execution \<Rightarrow> (ExternalSuite \<Rightarrow> string list option) \<Rightarrow>
   (int \<rightharpoonup> nat) \<Rightarrow> nat list \<Rightarrow> ExternalSuite list \<Rightarrow> Mutant list \<Rightarrow> Mutant list" where
  "suiteLoop upd exec binaries idx targets [] ms = ms"
| "suiteLoop upd exec binaries idx targets (s # ss) ms =
     suiteLoop upd exec binaries idx targets ss
       (case binaries s of
          None \<Rightarrow> ms
        | Some bs \<Rightarrow> if bs = [] then ms else binaryLoop upd exec idx targets (SuiteName s) bs ms)"

definition externalPhase ::
  "(Mutant \<Rightarrow> mutantResult \<Rightarrow> Mutant) \<Rightarrow> execution \<Rightarrow> (ExternalSuite \<Rightarrow> string list option) \<Rightarrow>
   Mutant list \<Rightarrow> ExternalSuitesConfig \<Rightarrow> Mutant list" where
  "externalPhase upd exec binaries ms cfg =
     (let idx = idToIndex ms; targets = phaseTargets cfg ms
      in if targets = [] then ms else suiteLoop upd exec binaries idx targets (Suites cfg) ms)"

text \<open>The update of the phase with prebuilt binaries, by rank, and of the other one.\<close>

definition updateRanked :: "Mutant \<Rightarrow> mutantResult \<Rightarrow> Mutant" where
  "updateRanked m r =
     (if shouldUpdate (mStatus m) (rStatus r) then
        m\<lparr>mStatus := rStatus r, mKilledBy := rKilledBy r, mKillOutput := rKillOutput r\<rparr>
      else m)"

definition updateKills :: "Mutant \<Rightarrow> mutantResult \<Rightarrow> Mutant" where
  "updateKills m r =
     (if rStatus r = StatusKilled then
        m\<lparr>mStatus := StatusKilled, mKilledBy := rKilledBy r, mKillOutput := rKillOutput r\<rparr>
      else if rStatus r = StatusSurvived \<and> (mStatus m = '''' \<or> mStatus m = StatusUntested) then
        m\<lparr>mStatus := StatusSurvived\<rparr>
      else m)"

definition runExternalPhaseWithBinaries ::
  "execution \<Rightarrow> Mutant list \<Rightarrow> ExternalSuitesConfig \<Rightarrow> (string \<rightharpoonup> string list) \<Rightarrow> Mutant list" where
  "runExternalPhaseWithBinaries exec ms cfg suiteBinaries =
     externalPhase updateRanked exec (\<lambda>s. suiteBinaries (SuiteName s)) ms cfg"

text \<open>\<open>buildSuite\<close> gives the binaries of a suite, \<open>None\<close> when nothing is found or built.\<close>

definition runExternalPhase ::
  "execution \<Rightarrow> Mutant list \<Rightarrow> ExternalSuitesConfig \<Rightarrow> (ExternalSuite \<Rightarrow> string list option) \<Rightarrow> Mutant list" where
  "runExternalPhase exec ms cfg buildSuite = externalPhase updateKills exec buildSuite ms cfg"

definition filterKilledFromPkgMap ::
  "(string \<rightharpoonup> int list) \<Rightarrow> Mutant list \<Rightarrow> (int \<rightharpoonup> nat) \<Rightarrow> (string \<rightharpoonup> int list)" where
  "filterKilledFromPkgMap pkgToIDs ms idx = (\<lambda>pkg. case pkgToIDs pkg of
     None \<Rightarrow> None
   | Some ids \<Rightarrow>
       (let kept = filter (\<lambda>i. \<not> (case idx i of None \<Rightarrow> False
              | Some k \<Rightarrow> mStatus (ms ! k) = StatusKilled)) ids
        in if kept = [] then None else Some kept))"

subsection \<open>Laws of updating in place\<close>

text \<open>The index map knows each mutant, and nothing else.\<close>

definition indexes :: "(int \<rightharpoonup> nat) \<Rightarrow> Mutant list \<Rightarrow> bool" where
  "indexes idx ms \<longleftrightarrow> (\<forall>k i. idx k = Some i \<longleftrightarrow> i < length ms \<and> mID (ms ! i) = k)"

lemma foldl_index:
  "foldl (\<lambda>f i. f(g i \<mapsto> i)) f is k = (case filter (\<lambda>i. g i = k) is of [] \<Rightarrow> f k | xs \<Rightarrow> Some (last xs))"
  by (induction "is" arbitrary: f) (auto split: list.splits)

lemma idToIndex_indexes:
  assumes "distinct (map mID ms)"
  shows "indexes (idToIndex ms) ms"
  unfolding indexes_def
proof (intro allI)
  fix k i
  let ?xs = "filter (\<lambda>i. mID (ms ! i) = k) [0..<length ms]"
  have idx: "idToIndex ms k = (case ?xs of [] \<Rightarrow> None | xs \<Rightarrow> Some (last xs))"
    by (simp add: idToIndex_def foldl_index)
  show "idToIndex ms k = Some i \<longleftrightarrow> i < length ms \<and> mID (ms ! i) = k"
  proof (cases "?xs")
    case Nil
    then show ?thesis by (auto simp: idx filter_empty_conv)
  next
    case (Cons x xs)
    then have "last ?xs \<in> set ?xs" by (metis last_in_set list.distinct(1))
    then have l: "last ?xs < length ms" "mID (ms ! last ?xs) = k" by auto
    have "idToIndex ms k = Some (last ?xs)" using Cons idx by simp
    with l assms show ?thesis by (auto simp: distinct_conv_nth)
  qed
qed

lemma indexes_cong:
  "\<lbrakk>indexes idx ms; map mID ms' = map mID ms\<rbrakk> \<Longrightarrow> indexes idx ms'"
  unfolding indexes_def by (metis length_map nth_map)

definition applyResult :: "(Mutant \<Rightarrow> mutantResult \<Rightarrow> Mutant) \<Rightarrow> Mutant \<Rightarrow> mutantResult \<Rightarrow> Mutant" where
  "applyResult upd m r = (if rID r = mID m then upd m r else m)"

text \<open>What one mutant meets in the external phase: every binary, until it is killed.\<close>

definition suitePairs ::
  "(ExternalSuite \<Rightarrow> string list option) \<Rightarrow> ExternalSuite list \<Rightarrow> (string \<times> string) list" where
  "suitePairs binaries suites = concat (map (\<lambda>s. map (Pair (SuiteName s))
     (case binaries s of None \<Rightarrow> [] | Some bs \<Rightarrow> bs)) suites)"

definition meet ::
  "(Mutant \<Rightarrow> mutantResult \<Rightarrow> Mutant) \<Rightarrow> execution \<Rightarrow> Mutant \<Rightarrow> string \<times> string \<Rightarrow> Mutant" where
  "meet upd exec m sb = (if mStatus m = ''killed'' then m
     else upd m (externalResult exec (snd sb) (fst sb) m))"

text \<open>An update by a result keeps the identity of the mutant.\<close>

locale result_update =
  fixes upd :: "Mutant \<Rightarrow> mutantResult \<Rightarrow> Mutant"
  assumes upd_id: "mID (upd m r) = mID m"
begin

lemma applyResult_id: "mID (applyResult upd m r) = mID m"
  by (simp add: applyResult_def upd_id)

lemma foldl_apply_id: "mID (foldl (applyResult upd) m rs) = mID m"
  by (induction rs arbitrary: m) (auto simp: applyResult_id)

lemma foldl_apply_other: "mID m \<notin> rID ` set rs \<Longrightarrow> foldl (applyResult upd) m rs = m"
  by (induction rs arbitrary: m) (auto simp: applyResult_def)

lemma foldl_apply_one:
  "\<lbrakk>distinct (map rID rs); r \<in> set rs; rID r = mID m\<rbrakk> \<Longrightarrow> foldl (applyResult upd) m rs = upd m r"
proof (induction rs arbitrary: m)
  case (Cons r' rs)
  show ?case
  proof (cases "r = r'")
    case True
    then have "mID (upd m r) \<notin> rID ` set rs" using Cons.prems by (auto simp: upd_id)
    moreover have "applyResult upd m r' = upd m r" using True Cons.prems by (simp add: applyResult_def)
    ultimately show ?thesis by (simp add: foldl_apply_other)
  next
    case False
    then have "r \<in> set rs" using Cons.prems by simp
    moreover from this have "rID r' \<noteq> mID m" using Cons.prems by (metis distinct.simps(2) image_eqI list.simps(9) set_map)
    ultimately show ?thesis using Cons by (simp add: applyResult_def)
  qed
qed simp

lemma update_step:
  assumes "indexes idx ms"
  shows "(case idx (rID r) of None \<Rightarrow> ms | Some i \<Rightarrow> ms[i := upd (ms ! i) r]) =
     map (\<lambda>m. applyResult upd m r) ms"
proof (cases "idx (rID r)")
  case None
  have "mID m \<noteq> rID r" if "m \<in> set ms" for m
  proof -
    from that obtain i where "i < length ms" "m = ms ! i" by (auto simp: in_set_conv_nth)
    with assms have "idx (mID m) = Some i" by (simp add: indexes_def)
    with None that show ?thesis by auto
  qed
  then have "map (\<lambda>m. applyResult upd m r) ms = ms"
    by (intro map_idI) (metis applyResult_def)
  with None show ?thesis by simp
next
  case (Some i)
  with assms have i: "i < length ms" "mID (ms ! i) = rID r" by (auto simp: indexes_def)
  have only: "j < length ms \<Longrightarrow> mID (ms ! j) = rID r \<Longrightarrow> j = i" for j
  proof -
    assume "j < length ms" "mID (ms ! j) = rID r"
    with assms have "idx (rID r) = Some j" by (simp add: indexes_def)
    with Some show "j = i" by simp
  qed
  have "ms[i := upd (ms ! i) r] = map (\<lambda>m. applyResult upd m r) ms"
  proof (rule nth_equalityI)
    fix j assume "j < length (ms[i := upd (ms ! i) r])"
    then have j: "j < length ms" by simp
    show "ms[i := upd (ms ! i) r] ! j = map (\<lambda>m. applyResult upd m r) ms ! j"
    proof (cases "j = i")
      case True
      with i show ?thesis by (simp add: applyResult_def)
    next
      case False
      with only [OF j] have "mID (ms ! j) \<noteq> rID r" by blast
      with j False show ?thesis by (simp add: applyResult_def)
    qed
  qed simp
  with Some show ?thesis by simp
qed

lemma updateByID_map:
  "indexes idx ms \<Longrightarrow> updateByID idx upd ms rs = map (\<lambda>m. foldl (applyResult upd) m rs) ms"
proof (induction rs arbitrary: ms)
  case (Cons r rs)
  have "map mID (map (\<lambda>m. applyResult upd m r) ms) = map mID ms" by (simp add: applyResult_id comp_def)
  from Cons.IH [OF indexes_cong [OF Cons.prems this]] update_step [OF Cons.prems, of r]
  show ?case by (simp add: updateByID_def comp_def)
qed (simp add: updateByID_def)

lemma meet_id: "mID (meet upd exec m sb) = mID m"
  by (simp add: meet_def upd_id)

lemma foldl_meet_id: "mID (foldl (meet upd exec) m sbs) = mID m"
  by (induction sbs arbitrary: m) (auto simp: meet_id)

lemma foldl_meet_killed: "mStatus m = ''killed'' \<Longrightarrow> foldl (meet upd exec) m sbs = m"
  by (induction sbs arbitrary: m) (auto simp: meet_def)

lemma binary_round:
  assumes idx: "indexes idx ms" and t: "set targets \<subseteq> {..<length ms}" "distinct targets"
    and i: "i < length ms"
  shows "updateByID idx upd ms (runMutantsAgainstBinary exec b s (map ((!) ms) (stillAlive ms targets))) ! i =
     (if i \<in> set targets then meet upd exec (ms ! i) (s, b) else ms ! i)"
proof -
  let ?alive = "stillAlive ms targets"
  let ?rs = "runMutantsAgainstBinary exec b s (map ((!) ms) ?alive)"
  have inj: "inj_on (\<lambda>j. mID (ms ! j)) {..<length ms}"
    using idx unfolding indexes_def by (intro inj_onI) (metis lessThan_iff option.inject)
  have ids: "map rID ?rs = map (\<lambda>j. mID (ms ! j)) ?alive"
    by (simp add: runMutantsAgainstBinary_def externalResult_def Let_def comp_def)
  have sub: "set ?alive \<subseteq> {..<length ms}" "distinct ?alive"
    using t by (auto simp: stillAlive_def)
  then have dist: "distinct (map rID ?rs)"
    unfolding ids using inj by (simp add: distinct_map inj_on_subset)
  have at: "updateByID idx upd ms ?rs ! i = foldl (applyResult upd) (ms ! i) ?rs"
    using i by (simp add: updateByID_map [OF idx])
  show ?thesis
  proof (cases "i \<in> set ?alive")
    case True
    then have "externalResult exec b s (ms ! i) \<in> set ?rs"
      by (auto simp: runMutantsAgainstBinary_def)
    with dist have "foldl (applyResult upd) (ms ! i) ?rs = upd (ms ! i) (externalResult exec b s (ms ! i))"
      by (intro foldl_apply_one) (simp_all add: externalResult_def Let_def)
    with True at show ?thesis by (auto simp: meet_def stillAlive_def)
  next
    case False
    have "mID (ms ! i) \<notin> set (map rID ?rs)"
      unfolding ids using False sub(1) i inj by (auto dest: inj_onD)
    then have "foldl (applyResult upd) (ms ! i) ?rs = ms ! i"
      by (intro foldl_apply_other) simp
    with False at show ?thesis by (auto simp: meet_def stillAlive_def)
  qed
qed

lemma updateByID_keeps:
  "indexes idx ms \<Longrightarrow> map mID (updateByID idx upd ms rs) = map mID ms"
  by (simp add: updateByID_map comp_def foldl_apply_id)

lemma binaryLoop_nth:
  "\<lbrakk>indexes idx ms; set targets \<subseteq> {..<length ms}; distinct targets\<rbrakk> \<Longrightarrow>
     let ms' = binaryLoop upd exec idx targets s bs ms in
     map mID ms' = map mID ms \<and>
     (\<forall>i < length ms. ms' ! i =
        (if i \<in> set targets then foldl (meet upd exec) (ms ! i) (map (Pair s) bs) else ms ! i))"
proof (induction bs arbitrary: ms)
  case (Cons b bs)
  show ?case
  proof (cases "stillAlive ms targets = []")
    case True
    then have "\<forall>i \<in> set targets. mStatus (ms ! i) = ''killed''"
      by (auto simp: stillAlive_def filter_empty_conv)
    with True show ?thesis by (simp add: Let_def foldl_meet_killed del: foldl_Cons list.map)
  next
    case False
    define ms1 where "ms1 = updateByID idx upd ms
      (runMutantsAgainstBinary exec b s (map ((!) ms) (stillAlive ms targets)))"
    have ids: "map mID ms1 = map mID ms" unfolding ms1_def by (rule updateByID_keeps [OF Cons.prems(1)])
    then have len: "length ms1 = length ms" by (metis length_map)
    have one: "ms1 ! i = (if i \<in> set targets then meet upd exec (ms ! i) (s, b) else ms ! i)"
      if "i < length ms" for i
      unfolding ms1_def by (rule binary_round [OF Cons.prems that])
    have step: "binaryLoop upd exec idx targets s (b # bs) ms = binaryLoop upd exec idx targets s bs ms1"
      using False by (simp add: Let_def ms1_def)
    from Cons.IH [of ms1] indexes_cong [OF Cons.prems(1) ids] Cons.prems(2,3) one
    show ?thesis unfolding step by (auto simp: Let_def ids len)
  qed
qed (simp add: Let_def)

lemma suiteLoop_nth:
  "\<lbrakk>indexes idx ms; set targets \<subseteq> {..<length ms}; distinct targets\<rbrakk> \<Longrightarrow>
     let ms' = suiteLoop upd exec binaries idx targets ss ms in
     map mID ms' = map mID ms \<and>
     (\<forall>i < length ms. ms' ! i =
        (if i \<in> set targets then foldl (meet upd exec) (ms ! i) (suitePairs binaries ss) else ms ! i))"
proof (induction ss arbitrary: ms)
  case (Cons s ss)
  define bs where "bs = (case binaries s of None \<Rightarrow> [] | Some bs \<Rightarrow> bs)"
  define ms1 where "ms1 = binaryLoop upd exec idx targets (SuiteName s) bs ms"
  have step: "suiteLoop upd exec binaries idx targets (s # ss) ms = suiteLoop upd exec binaries idx targets ss ms1"
    by (auto simp: ms1_def bs_def split: option.split)
  have one: "map mID ms1 = map mID ms" "\<forall>i < length ms. ms1 ! i =
      (if i \<in> set targets then foldl (meet upd exec) (ms ! i) (map (Pair (SuiteName s)) bs) else ms ! i)"
    using binaryLoop_nth [OF Cons.prems, of exec "SuiteName s" bs] by (auto simp: Let_def ms1_def)
  then have len: "length ms1 = length ms" by (metis length_map)
  have pairs: "suitePairs binaries (s # ss) = map (Pair (SuiteName s)) bs @ suitePairs binaries ss"
    by (simp add: suitePairs_def bs_def)
  from Cons.IH [of ms1] indexes_cong [OF Cons.prems(1) one(1)] Cons.prems(2,3) one
  show ?case unfolding step pairs by (auto simp: Let_def len)
qed (simp add: Let_def suitePairs_def)

lemma phase_targets:
  "set (phaseTargets cfg ms) \<subseteq> {..<length ms}" "distinct (phaseTargets cfg ms)"
  by (auto simp: phaseTargets_def)

text \<open>The phase, mutant by mutant: the targets meet every binary, the others nothing.\<close>

lemma phase_nth:
  assumes "distinct (map mID ms)"
  shows "map mID (externalPhase upd exec binaries ms cfg) = map mID ms"
    and "i < length ms \<Longrightarrow> externalPhase upd exec binaries ms cfg ! i =
      (if i \<in> set (phaseTargets cfg ms)
       then foldl (meet upd exec) (ms ! i) (suitePairs binaries (Suites cfg)) else ms ! i)"
  using suiteLoop_nth [OF idToIndex_indexes [OF assms] phase_targets, of exec binaries]
  by (auto simp: externalPhase_def Let_def)

end

text \<open>
  The updates of the external phase also agree on what a kill is: a kill is recorded with
  its killer on every mutant that is neither killed nor invalid, and nothing else kills.
\<close>

definition live :: "Mutant \<Rightarrow> bool" where
  "live m \<longleftrightarrow> mStatus m \<noteq> ''killed'' \<and> mStatus m \<noteq> ''invalid''"

definition killers :: "execution \<Rightarrow> int \<Rightarrow> (string \<times> string) list \<Rightarrow> (string \<times> string) list" where
  "killers exec i sbs = filter (\<lambda>sb. rrStatus (outcome exec (snd sb) i) = ''killed'') sbs"

locale kill_update = result_update +
  assumes kill: "live m \<Longrightarrow> rStatus r = ''killed'' \<Longrightarrow>
      mStatus (upd m r) = ''killed'' \<and> mKilledBy (upd m r) = rKilledBy r"
    and no_kill: "live m \<Longrightarrow> rStatus r \<noteq> ''killed'' \<Longrightarrow> rStatus r \<noteq> ''invalid'' \<Longrightarrow> live (upd m r)"
begin

lemma meet_kills:
  assumes "live m"
  shows "case killers exec (mID m) sbs of
      [] \<Rightarrow> live (foldl (meet upd exec) m sbs)
    | (s, b) # _ \<Rightarrow> mStatus (foldl (meet upd exec) m sbs) = ''killed'' \<and>
        mKilledBy (foldl (meet upd exec) m sbs) = externalKiller (outcome exec b (mID m)) s"
  using assms
proof (induction sbs arbitrary: m)
  case (Cons sb sbs)
  obtain s b where sb: "sb = (s, b)" by (cases sb)
  let ?r = "externalResult exec b s m"
  have r: "rStatus ?r = rrStatus (outcome exec b (mID m))"
    "rKilledBy ?r = externalKiller (outcome exec b (mID m)) s"
    by (simp_all add: externalResult_def Let_def)
  have step: "foldl (meet upd exec) m (sb # sbs) = foldl (meet upd exec) (upd m ?r) sbs"
    using Cons.prems by (simp add: meet_def live_def sb)
  show ?case
  proof (cases "rStatus ?r = ''killed''")
    case True
    then have "killers exec (mID m) (sb # sbs) = (s, b) # killers exec (mID m) sbs"
      using r by (simp add: killers_def sb)
    with kill [OF Cons.prems True] r show ?thesis
      unfolding step by (simp add: foldl_meet_killed)
  next
    case False
    then have ks: "killers exec (mID m) (sb # sbs) = killers exec (mID (upd m ?r)) sbs"
      using r by (simp add: killers_def sb upd_id)
    have "rStatus ?r \<noteq> ''invalid''"
      using outcome_statuses [of exec b "mID m"] r(1) by auto
    from Cons.IH [OF no_kill [OF Cons.prems False this]] show ?thesis
      unfolding step ks by (simp only: upd_id)
  qed
qed (simp add: killers_def)

text \<open>Which mutants a phase kills, and who is named as the killer.\<close>

lemma phase_kills:
  fixes exec :: execution and binaries and cfg :: ExternalSuitesConfig
  assumes "distinct (map mID ms)" "i < length ms" "mStatus (ms ! i) \<noteq> ''invalid''"
  defines "ms' \<equiv> externalPhase upd exec binaries ms cfg"
  defines "ks \<equiv> killers exec (mID (ms ! i)) (suitePairs binaries (Suites cfg))"
  shows "mStatus (ms' ! i) = ''killed'' \<longleftrightarrow>
      mStatus (ms ! i) = ''killed'' \<or> i \<in> set (phaseTargets cfg ms) \<and> ks \<noteq> []"
    and "mStatus (ms' ! i) = ''killed'' \<Longrightarrow> mKilledBy (ms' ! i) =
      (if mStatus (ms ! i) = ''killed'' then mKilledBy (ms ! i)
       else externalKiller (outcome exec (snd (hd ks)) (mID (ms ! i))) (fst (hd ks)))"
proof -
  let ?m = "ms ! i" and ?sbs = "suitePairs binaries (Suites cfg)"
  have at: "ms' ! i = (if i \<in> set (phaseTargets cfg ms) then foldl (meet upd exec) ?m ?sbs else ?m)"
    unfolding ms'_def by (rule phase_nth(2) [OF assms(1,2)])
  have "(mStatus (ms' ! i) = ''killed'' \<longleftrightarrow>
      mStatus ?m = ''killed'' \<or> i \<in> set (phaseTargets cfg ms) \<and> ks \<noteq> []) \<and>
    (mStatus (ms' ! i) = ''killed'' \<longrightarrow> mKilledBy (ms' ! i) =
      (if mStatus ?m = ''killed'' then mKilledBy ?m
       else externalKiller (outcome exec (snd (hd ks)) (mID ?m)) (fst (hd ks))))"
  proof (cases "mStatus ?m = ''killed''")
    case True
    then show ?thesis using at by (simp add: foldl_meet_killed)
  next
    case False
    then have "live ?m" using assms(3) by (simp add: live_def)
    from meet_kills [OF this, of exec ?sbs] False at show ?thesis
      by (cases ks) (auto simp: ks_def live_def split: if_splits)
  qed
  then show "mStatus (ms' ! i) = ''killed'' \<longleftrightarrow>
      mStatus ?m = ''killed'' \<or> i \<in> set (phaseTargets cfg ms) \<and> ks \<noteq> []"
    and "mStatus (ms' ! i) = ''killed'' \<Longrightarrow> mKilledBy (ms' ! i) =
      (if mStatus ?m = ''killed'' then mKilledBy ?m
       else externalKiller (outcome exec (snd (hd ks)) (mID ?m)) (fst (hd ks)))"
    by auto
qed

end

interpretation collect: result_update "collectOne td" for td
  by unfold_locales (simp add: collectOne_def recordResult_def)

lemma rank_killed: "s \<noteq> ''invalid'' \<Longrightarrow> statusRank s \<le> statusRank ''killed''"
  by (simp add: statusRank_def)

interpretation ranked: kill_update updateRanked
  by unfold_locales (auto simp: updateRanked_def shouldUpdate_def live_def rank_killed)

interpretation kills: kill_update updateKills
  by unfold_locales (auto simp: updateKills_def live_def StatusKilled_def StatusSurvived_def)

text \<open>What a target that no binary kills takes from the phase by rank: the highest status it meets.\<close>

definition outcomes :: "execution \<Rightarrow> int \<Rightarrow> (string \<times> string) list \<Rightarrow> string list" where
  "outcomes exec i sbs = map (\<lambda>sb. rrStatus (outcome exec (snd sb) i)) sbs"

lemma ranked_highest:
  assumes "live m" "''killed'' \<notin> set (outcomes exec (mID m) sbs)"
  shows "mStatus (foldl (meet updateRanked exec) m sbs) \<in> set (mStatus m # outcomes exec (mID m) sbs) \<and>
    list_all (\<lambda>s. statusRank s \<le> statusRank (mStatus (foldl (meet updateRanked exec) m sbs)))
      (mStatus m # outcomes exec (mID m) sbs)"
  using assms
proof (induction sbs arbitrary: m)
  case (Cons sb sbs)
  let ?s = "rrStatus (outcome exec (snd sb) (mID m))"
  let ?m = "updateRanked m (externalResult exec (snd sb) (fst sb) m)"
  have s: "?s \<noteq> ''killed''" "?s \<noteq> ''invalid''"
    using Cons.prems(2) outcome_statuses [of exec "snd sb" "mID m"] by (auto simp: outcomes_def)
  have m: "mStatus ?m = (if statusRank (mStatus m) \<le> statusRank ?s then ?s else mStatus m)" "mID ?m = mID m"
    using Cons.prems(1)
    by (simp_all add: updateRanked_def externalResult_def Let_def shouldUpdate_def live_def)
  then have "live ?m" using s Cons.prems(1) by (simp add: live_def)
  moreover have "''killed'' \<notin> set (outcomes exec (mID ?m) sbs)" using Cons.prems(2) m(2) by (simp add: outcomes_def)
  moreover have "foldl (meet updateRanked exec) m (sb # sbs) = foldl (meet updateRanked exec) ?m sbs"
    using Cons.prems(1) by (simp add: meet_def live_def)
  ultimately show ?case using Cons.IH [of ?m] m by (auto simp: outcomes_def split: if_splits)
qed (simp add: outcomes_def)

lemma killers_outcomes: "killers exec i sbs = [] \<longleftrightarrow> ''killed'' \<notin> set (outcomes exec i sbs)"
  by (auto simp: killers_def outcomes_def filter_empty_conv image_iff)

text \<open>
  C14. What the external phase with prebuilt binaries does to each mutant: it leaves one alone
  that is no target, or is killed or invalid. Every other target is killed exactly if the run of
  some binary of some suite kills it, and the killer it names is the first one in the order of
  the suites; a target that none kills takes the status that is highest in rank among its own
  and those of its runs, so an error or a timeout replaces a survival. The outcome for one
  mutant does not depend on the other mutants.
\<close>

theorem external_phase_kills_exactly:
  assumes "distinct (map mID ms)" "i < length ms"
  shows "let m = ms ! i; m' = runExternalPhaseWithBinaries exec ms cfg suiteBinaries ! i;
             sbs = suitePairs (\<lambda>s. suiteBinaries (SuiteName s)) (Suites cfg)
         in if i \<notin> set (phaseTargets cfg ms) \<or> mStatus m \<in> {''killed'', ''invalid''} then m' = m
            else case killers exec (mID m) sbs of
                (s, b) # _ \<Rightarrow> mStatus m' = ''killed'' \<and> mKilledBy m' = externalKiller (outcome exec b (mID m)) s
              | [] \<Rightarrow> mStatus m' \<noteq> ''killed'' \<and> mStatus m' \<in> set (mStatus m # outcomes exec (mID m) sbs) \<and>
                  list_all (\<lambda>s. statusRank s \<le> statusRank (mStatus m')) (mStatus m # outcomes exec (mID m) sbs)"
proof -
  let ?m = "ms ! i" and ?sbs = "suitePairs (\<lambda>s. suiteBinaries (SuiteName s)) (Suites cfg)"
  have at: "runExternalPhaseWithBinaries exec ms cfg suiteBinaries ! i =
      (if i \<in> set (phaseTargets cfg ms) then foldl (meet updateRanked exec) ?m ?sbs else ?m)"
    unfolding runExternalPhaseWithBinaries_def by (rule ranked.phase_nth(2) [OF assms])
  show ?thesis
  proof (cases "live ?m")
    case True
    with at ranked.meet_kills [OF True, of exec ?sbs] ranked_highest [OF True, of exec ?sbs] show ?thesis
      by (auto simp: live_def Let_def killers_outcomes [symmetric] split: list.split)
  next
    case False
    have "foldl (meet updateRanked exec) ?m sbs = ?m" for sbs
      using False by (induction sbs) (auto simp: live_def meet_def updateRanked_def shouldUpdate_def)
    with False at show ?thesis by (auto simp: live_def Let_def)
  qed
qed

text \<open>
  The two external phases agree: the one that builds the binaries itself kills the same
  mutants as the one with prebuilt binaries, with the same killer.
\<close>

theorem external_phases_agree:
  assumes "distinct (map mID ms)" "i < length ms" "mStatus (ms ! i) \<noteq> ''invalid''"
    and "\<And>s. buildSuite s = suiteBinaries (SuiteName s)"
  shows "let a = runExternalPhaseWithBinaries exec ms cfg suiteBinaries;
             b = runExternalPhase exec ms cfg buildSuite
         in (mStatus (a ! i) = ''killed'' \<longleftrightarrow> mStatus (b ! i) = ''killed'') \<and>
            (mStatus (a ! i) = ''killed'' \<longrightarrow> mKilledBy (a ! i) = mKilledBy (b ! i))"
proof -
  have same: "(\<lambda>s. suiteBinaries (SuiteName s)) = buildSuite" using assms(4) by auto
  note r = ranked.phase_kills [OF assms(1,2,3), of exec buildSuite cfg]
    and k = kills.phase_kills [OF assms(1,2,3), of exec buildSuite cfg]
  have "mStatus (externalPhase updateRanked exec buildSuite ms cfg ! i) = ''killed'' \<longleftrightarrow>
      mStatus (externalPhase updateKills exec buildSuite ms cfg ! i) = ''killed''"
    unfolding r(1) k(1) ..
  with r(2) k(2) show ?thesis
    unfolding runExternalPhaseWithBinaries_def runExternalPhase_def Let_def same by simp
qed

subsection \<open>The life of a status\<close>

text \<open>
  A run moves the list of mutants by four kinds of step: unit-test results are collected, the
  external phase runs with prebuilt binaries or, in a run of external suites alone, with
  binaries it builds itself, and the missing statuses are filled in. The flag says whether it
  is such a run.
\<close>

inductive runStep :: "bool \<Rightarrow> Mutant list \<Rightarrow> Mutant list \<Rightarrow> bool" for externalOnly where
  collect: "runStep externalOnly ms (collectResults ms results (idToIndex ms) td)"
| external: "runStep externalOnly ms (runExternalPhaseWithBinaries exec ms cfg suiteBinaries)"
| external_built: "externalOnly \<Longrightarrow> runStep externalOnly ms (runExternalPhase exec ms cfg buildSuite)"
| finalize: "runStep externalOnly ms (finalizeMutants ms)"

text \<open>
  How the record of a mutant may change. Only the phase that builds its binaries looks at an
  invalid mutant again, and records a kill on it.
\<close>

definition advances :: "bool \<Rightarrow> Mutant \<Rightarrow> Mutant \<Rightarrow> bool" where
  "advances externalOnly m m' \<longleftrightarrow> mID m' = mID m \<and>
     (if mStatus m = ''killed'' then m' = m
      else if mStatus m = ''invalid'' then m' = m \<or> externalOnly \<and> mStatus m' = ''killed''
      else statusRank (mStatus m) \<le> statusRank (mStatus m'))"

lemma advances_refl [simp]: "advances x m m"
  by (simp add: advances_def)

lemma advances_trans: "advances x a b \<Longrightarrow> advances x b c \<Longrightarrow> advances x a c"
  using rank_killed [of "mStatus a"] by (auto simp: advances_def split: if_splits)

lemma advances_foldl: "(\<And>m r. advances x m (f m r)) \<Longrightarrow> advances x m (foldl f m rs)"
  by (induction rs arbitrary: m) (auto intro: advances_trans)

lemma shouldUpdate_rank:
  "shouldUpdate s t \<Longrightarrow> s \<noteq> ''killed'' \<and> s \<noteq> ''invalid'' \<and> statusRank s \<le> statusRank t"
  by (simp add: shouldUpdate_def split: if_splits)

lemma collect_advances: "advances x m (applyResult (collectOne td) m r)"
  by (auto simp: applyResult_def collectOne_def advances_def recordResult_def dest: shouldUpdate_rank)

lemma ranked_advances: "advances x m (meet updateRanked exec m sb)"
  by (auto simp: meet_def updateRanked_def advances_def dest: shouldUpdate_rank)

lemma kills_advances: "advances True m (meet updateKills exec m sb)"
  using rank_killed [of "mStatus m"]
  by (auto simp: meet_def updateKills_def advances_def StatusKilled_def StatusSurvived_def StatusUntested_def statusRank_def)

lemma finalize_advances: "advances x m (if mStatus m = '''' then m\<lparr>mStatus := StatusUntested\<rparr> else m)"
  by (simp add: advances_def StatusUntested_def statusRank_def)

definition allAdvance :: "bool \<Rightarrow> Mutant list \<Rightarrow> Mutant list \<Rightarrow> bool" where
  "allAdvance x ms ms' \<longleftrightarrow> length ms' = length ms \<and> (\<forall>i < length ms. advances x (ms ! i) (ms' ! i))"

lemma allAdvance_ids: "allAdvance x ms ms' \<Longrightarrow> map mID ms' = map mID ms"
  by (auto simp: allAdvance_def advances_def intro: nth_equalityI)

lemma allAdvance_trans: "allAdvance x a b \<Longrightarrow> allAdvance x b c \<Longrightarrow> allAdvance x a c"
  unfolding allAdvance_def by (metis advances_trans)

lemma runStep_advances:
  assumes "distinct (map mID ms)" "runStep x ms ms'"
  shows "allAdvance x ms ms'"
  using assms(2)
proof cases
  case (collect results td)
  then show ?thesis
    by (simp add: allAdvance_def collectResults_def collect.updateByID_map [OF idToIndex_indexes [OF assms(1)]]
          advances_foldl [OF collect_advances])
next
  case (external exec cfg suiteBinaries)
  have len: "length ms' = length ms"
    using ranked.phase_nth(1) [OF assms(1)] external
    by (metis length_map runExternalPhaseWithBinaries_def)
  have "advances x (ms ! i) (ms' ! i)" if "i < length ms" for i
    unfolding external runExternalPhaseWithBinaries_def ranked.phase_nth(2) [OF assms(1) that]
    by (simp add: advances_foldl [OF ranked_advances])
  with len show ?thesis by (simp add: allAdvance_def)
next
  case (external_built exec cfg buildSuite)
  have len: "length ms' = length ms"
    using kills.phase_nth(1) [OF assms(1)] external_built by (metis length_map runExternalPhase_def)
  have "advances True (ms ! i) (ms' ! i)" if "i < length ms" for i
    unfolding external_built runExternalPhase_def kills.phase_nth(2) [OF assms(1) that]
    by (simp add: advances_foldl [OF kills_advances])
  with len external_built(2) show ?thesis by (simp add: allAdvance_def)
next
  case finalize
  then show ?thesis by (simp only: allAdvance_def finalizeMutants_def) (simp add: finalize_advances)
qed

text \<open>
  C15. Statuses only advance: through any sequence of collections of results, external phases and
  fillings the mutants keep their places and ids, and a mutant once killed keeps its whole
  record, its killer and output included. An invalid mutant keeps its record too, except that
  in a run of external suites alone a suite may kill it. The rank of any other status never
  falls.
\<close>

theorem statuses_only_advance:
  assumes "(runStep externalOnly)\<^sup>*\<^sup>* ms ms'" "distinct (map mID ms)"
  shows "length ms' = length ms \<and> (\<forall>i < length ms. let m = ms ! i; m' = ms' ! i in
     mID m' = mID m \<and>
     (if mStatus m = ''killed'' then m' = m
      else if mStatus m = ''invalid'' then m' = m \<or> externalOnly \<and> mStatus m' = ''killed''
      else statusRank (mStatus m) \<le> statusRank (mStatus m')))"
proof -
  from assms have "allAdvance externalOnly ms ms'"
  proof (induction rule: rtranclp_induct)
    case base
    then show ?case by (simp add: allAdvance_def)
  next
    case (step y z)
    then have y: "allAdvance externalOnly ms y" by blast
    with step.prems have "distinct (map mID y)" by (simp add: allAdvance_ids)
    from allAdvance_trans [OF y runStep_advances [OF this step.hyps(2)]] show ?case .
  qed
  then show ?thesis by (simp add: allAdvance_def advances_def Let_def)
qed

definition sampleSuites :: "string \<Rightarrow> ExternalSuitesConfig" where
  "sampleSuites runMode = \<lparr>ExtEnabled = True, RunMode = runMode,
     Suites = [\<lparr>SuiteName = ''it'', SuitePaths = [''tests''], SuiteTags = [], ShortCircuit = False\<rparr>]\<rparr>"

definition sampleExec :: execution where
  "sampleExec b i = (if i = 1 then (''--- FAIL: TestA (0.01s)'', True, False)
     else (''=== RUN   TestA'', False, False))"

lemma sampleMutant_id [simp]: "mID (sampleMutant i f st) = i"
  by (simp add: sampleMutant_def newMutant_def)

lemma sample_outcome: "rrStatus (outcome sampleExec b 1) = ''killed''"
  "rrKilledBy (outcome sampleExec b 1) = ''TestA''"
  "rrStatus (outcome sampleExec b 2) = ''survived''"
  unfolding outcome_def sampleExec_def by (simp_all, code_simp+)

definition sampleBinaries :: "string \<rightharpoonup> string list" where
  "sampleBinaries = [''it'' \<mapsto> [''b1'', ''b2'']]"

theorem external_phase_kills_exactly_witness:
  "let ms = [sampleMutant 1 ''a.go'' ''survived'', sampleMutant 2 ''a.go'' ''survived''];
       ms' = runExternalPhaseWithBinaries sampleExec ms (sampleSuites '''') sampleBinaries
   in mStatus (ms' ! 0) = ''killed'' \<and> mKilledBy (ms' ! 0) = ''TestA [it]'' \<and>
      mStatus (ms' ! 1) \<noteq> ''killed''"
proof -
  define ms where "ms = [sampleMutant 1 ''a.go'' ''survived'', sampleMutant 2 ''a.go'' ''survived'']"
  define sbs where "sbs = suitePairs (\<lambda>s. sampleBinaries (SuiteName s)) (Suites (sampleSuites ''''))"
  have t: "phaseTargets (sampleSuites '''') ms = [0, 1]"
    by (simp add: phaseTargets_def sampleSuites_def needsExternal_def upt_rec ms_def)
  have sbs: "sbs = [(''it'', ''b1''), (''it'', ''b2'')]"
    by (simp add: sbs_def suitePairs_def sampleSuites_def sampleBinaries_def)
  have ks: "killers sampleExec 1 sbs = [(''it'', ''b1''), (''it'', ''b2'')]" "killers sampleExec 2 sbs = []"
    by (simp_all add: killers_def sbs sample_outcome)
  have ms: "distinct (map mID ms)" "0 < length ms" "Suc 0 < length ms" "mStatus (ms ! 0) = ''survived''"
    "mStatus (ms ! Suc 0) = ''survived''" "mID (ms ! 0) = 1" "mID (ms ! Suc 0) = 2"
    by (simp_all add: ms_def)
  note claim = external_phase_kills_exactly [OF ms(1), where exec = sampleExec and cfg = "sampleSuites ''''"
    and suiteBinaries = sampleBinaries, unfolded Let_def sbs_def [symmetric]]
  from claim [OF ms(2)] claim [OF ms(3)] show ?thesis
    unfolding Let_def ms_def [symmetric] by (simp add: ms t ks externalKiller_def sample_outcome)
qed

theorem external_phases_agree_witness:
  "let ms = [sampleMutant 1 ''a.go'' ''survived'']
   in mStatus (runExternalPhaseWithBinaries sampleExec ms (sampleSuites '''') [''it'' \<mapsto> [''b1'']] ! 0) = ''killed'' \<longleftrightarrow>
      mStatus (runExternalPhase sampleExec ms (sampleSuites '''') (\<lambda>s. [''it'' \<mapsto> [''b1'']] (SuiteName s)) ! 0) = ''killed''"
  using external_phases_agree [of "[sampleMutant 1 ''a.go'' ''survived'']" 0
      "\<lambda>s. [''it'' \<mapsto> [''b1'']] (SuiteName s)" "[''it'' \<mapsto> [''b1'']]" sampleExec "sampleSuites ''''"]
  by (simp add: Let_def)

theorem statuses_only_advance_witness:
  "finalizeMutants (collectResults [sampleMutant 1 ''a.go'' ''killed'']
      [\<lparr>rID = 1, rStatus = ''survived'', rErr = None, rKilledBy = '''', rKillDuration = 3, rKillOutput = ''''\<rparr>]
      (idToIndex [sampleMutant 1 ''a.go'' ''killed'']) ''/tmp'') ! 0 = sampleMutant 1 ''a.go'' ''killed''"
proof -
  let ?ms = "[sampleMutant 1 ''a.go'' ''killed'']"
  have "(runStep False)\<^sup>*\<^sup>* ?ms (finalizeMutants (collectResults ?ms
      [\<lparr>rID = 1, rStatus = ''survived'', rErr = None, rKilledBy = '''', rKillDuration = 3, rKillOutput = ''''\<rparr>]
      (idToIndex ?ms) ''/tmp''))"
    by (meson runStep.collect runStep.finalize rtranclp.rtrancl_refl rtranclp.rtrancl_into_rtrancl)
  from statuses_only_advance [OF this] show ?thesis by (simp add: Let_def)
qed

end
