(* ===== verification/PathLaws.thy ===== *)
theory PathLaws
  imports Climb
begin

text \<open>
  Laws of \<open>filepath.Rel\<close> and \<open>filepath.Join\<close> on absolute paths: joining a relative path
  to its base gives the target back, and a relative path without leading dots stays below
  the directory it is joined to.
\<close>

definition proper :: "string \<Rightarrow> bool" where
  "proper c \<longleftrightarrow> c \<noteq> '''' \<and> c \<noteq> ''.'' \<and> c \<noteq> ''..'' \<and> sep \<notin> set c"

text \<open>The components of an absolute path once cleaned.\<close>

definition parts :: "string \<Rightarrow> string list" where
  "parts p = clean_comps True (Split p sep)"

lemma clean_step_proper:
  "\<lbrakk>\<forall>x \<in> set st. proper x; sep \<notin> set c\<rbrakk> \<Longrightarrow> \<forall>x \<in> set (clean_step True st c). proper x"
  by (cases st) (auto simp: proper_def)

lemma clean_foldl_proper:
  "\<lbrakk>\<forall>x \<in> set st. proper x; \<forall>c \<in> set cs. sep \<notin> set c\<rbrakk> \<Longrightarrow>
     \<forall>x \<in> set (foldl (clean_step True) st cs). proper x"
proof (induction cs arbitrary: st)
  case (Cons c cs)
  have "\<forall>x \<in> set (clean_step True st c). proper x"
    using Cons.prems by (intro clean_step_proper) auto
  from Cons.IH [OF this] Cons.prems show ?case by (simp del: clean_step.simps)
qed simp

lemma parts_proper: "\<forall>c \<in> set (parts p). proper c"
  using clean_foldl_proper [of "[]" "Split p sep"] Split_no_sep [of _ p sep]
  by (simp add: parts_def clean_comps_def)

lemma clean_push: "\<forall>c \<in> set cs. proper c \<Longrightarrow> foldl (clean_step r) st cs = rev cs @ st"
  by (induction cs arbitrary: st) (auto simp: proper_def)

lemma clean_pop:
  "\<forall>c \<in> set st. proper c \<Longrightarrow> k \<le> length st \<Longrightarrow> foldl (clean_step True) st (replicate k ''..'') = drop k st"
proof (induction k arbitrary: st)
  case (Suc k)
  then show ?case by (cases st) (auto simp: proper_def)
qed simp

lemma Split_nosep: "b \<notin> set s \<Longrightarrow> Split s b = [s]"
  by (induction s) auto

lemma Split_append_at: "Split (s @ b # t) b = Split s b @ Split t b"
  by (induction s) (auto split: list.split simp: Cons_eq_append_conv)

lemma Split_Join_sep: "\<forall>c \<in> set cs. b \<notin> set c \<Longrightarrow> cs \<noteq> [] \<Longrightarrow> Split (Join cs [b]) b = cs"
  by (induction cs "[b]" rule: Join.induct) (auto simp: Split_nosep Split_append_at)

lemma Clean_abs: "IsAbs p \<Longrightarrow> Clean p = sep # Join (parts p) [sep]"
  by (simp add: Clean_def parts_def)

lemma comps_Clean: "IsAbs p \<Longrightarrow> comps (Clean p) = parts p"
proof -
  assume "IsAbs p"
  then have C: "Clean p = sep # Join (parts p) [sep]" by (rule Clean_abs)
  have np: "\<forall>c \<in> set (parts p). sep \<notin> set c \<and> c \<noteq> ''''" using parts_proper by (auto simp: proper_def)
  show ?thesis
  proof (cases "parts p = []")
    case True
    then show ?thesis by (simp add: C comps_def)
  next
    case False
    then have "Split (Clean p) sep = [] # parts p"
      using np by (simp add: C Split_Join_sep)
    then show ?thesis using np by (simp add: comps_def filter_id_conv)
  qed
qed

lemma IsAbs_Clean [simp]: "IsAbs p \<Longrightarrow> IsAbs (Clean p)"
  by (simp add: Clean_abs IsAbs_def HasPrefix_def)

lemma strip_common_spec:
  "strip_common xs ys = (bs, ts) \<Longrightarrow>
     \<exists>c. xs = c @ bs \<and> ys = c @ ts \<and> (bs = [] \<or> ts = [] \<or> hd bs \<noteq> hd ts)"
proof (induction xs ys rule: strip_common.induct)
  case (1 x xs y ys)
  show ?case
  proof (cases "x = y")
    case True
    with 1 obtain c where "xs = c @ bs" "ys = c @ ts" "bs = [] \<or> ts = [] \<or> hd bs \<noteq> hd ts" by auto
    with True show ?thesis by (intro exI [of _ "x # c"]) simp
  next
    case False
    with 1(2) show ?thesis by auto
  qed
qed auto

text \<open>What \<open>Rel\<close> yields between absolute paths.\<close>

lemma Rel_abs:
  assumes "IsAbs b" "IsAbs f"
  shows "\<exists>c bs ts. parts b = c @ bs \<and> parts f = c @ ts \<and>
    Rel b f = Some (if bs @ ts = [] then ''.'' else Join (replicate (length bs) ''..'' @ ts) [sep])"
proof -
  obtain bs ts where s: "strip_common (parts b) (parts f) = (bs, ts)" by fastforce
  from strip_common_spec [OF this] obtain c where c: "parts b = c @ bs" "parts f = c @ ts"
    "bs = [] \<or> ts = [] \<or> hd bs \<noteq> hd ts" by blast
  have eq: "Clean f = Clean b \<longleftrightarrow> bs @ ts = []"
  proof
    assume "Clean f = Clean b"
    then have "parts f = parts b" using comps_Clean assms by metis
    with c show "bs @ ts = []" by auto
  next
    assume "bs @ ts = []"
    with c show "Clean f = Clean b" by (simp add: Clean_abs assms)
  qed
  have nd: "Clean b \<noteq> ''.''" using assms by (simp add: Clean_abs sep_def)
  have "bs = [] \<or> hd bs \<noteq> ''..''"
    using parts_proper [of b] c(1) by (cases bs) (auto simp: proper_def)
  then have "Rel b f = Some (if bs @ ts = [] then ''.'' else Join (replicate (length bs) ''..'' @ ts) [sep])"
    using assms eq nd by (simp add: Rel_def Let_def comps_Clean s)
  with c(1,2) show ?thesis by blast
qed

lemma Join_nonempty: "cs \<noteq> [] \<Longrightarrow> \<forall>c \<in> set cs. c \<noteq> [] \<Longrightarrow> Join cs s \<noteq> []"
  by (induction cs s rule: Join.induct) auto

lemma PathJoin2: "a \<noteq> [] \<Longrightarrow> b \<noteq> [] \<Longrightarrow> PathJoin [a, b] = Clean (a @ sep # b)"
  by (simp add: PathJoin_def)

lemma IsAbs_append: "IsAbs a \<Longrightarrow> IsAbs (a @ b)"
  by (auto simp: IsAbs_def HasPrefix_iff)

lemma IsAbs_nonempty: "IsAbs a \<Longrightarrow> a \<noteq> []"
  by (auto simp: IsAbs_def HasPrefix_def)

lemma parts_join:
  "parts (a @ sep # b) = rev (foldl (clean_step True) (rev (parts a)) (Split b sep))"
  by (simp add: parts_def clean_comps_def Split_append_at)

lemma parts_Rel:
  assumes "IsAbs b" "IsAbs f" "Rel b f = Some r"
  shows "r \<noteq> []" and "parts (b @ sep # r) = parts f"
proof -
  from Rel_abs [OF assms(1,2)] obtain c bs ts where
    p: "parts b = c @ bs" "parts f = c @ ts"
    and R: "Rel b f = Some (if bs @ ts = [] then ''.'' else Join (replicate (length bs) ''..'' @ ts) [sep])"
    by blast
  from R assms(3) have r: "r = (if bs @ ts = [] then ''.'' else Join (replicate (length bs) ''..'' @ ts) [sep])"
    by simp
  have pr: "\<forall>x \<in> set (c @ bs). proper x" "\<forall>x \<in> set (c @ ts). proper x"
    using parts_proper [of b] parts_proper [of f] unfolding p by simp_all
  have ne: "\<forall>x \<in> set (replicate (length bs) ''..'' @ ts). x \<noteq> [] \<and> sep \<notin> set x"
  proof
    fix x assume "x \<in> set (replicate (length bs) ''..'' @ ts)"
    then have "x = ''..'' \<or> proper x" using pr(2) by auto
    then show "x \<noteq> [] \<and> sep \<notin> set x" by (auto simp: proper_def sep_def)
  qed
  show "r \<noteq> []"
  proof (cases "bs @ ts = []")
    case False
    have "Join (replicate (length bs) ''..'' @ ts) [sep] \<noteq> []"
      using False ne by (intro Join_nonempty) auto
    with r False show ?thesis by simp
  qed (simp add: r)
  show "parts (b @ sep # r) = parts f"
  proof (cases "bs @ ts = []")
    case True
    have "Split ''.'' sep = [''.'']" by (simp add: sep_def)
    with True have "parts (b @ sep # r) = parts b" by (simp add: parts_join r)
    with True p show ?thesis by simp
  next
    case False
    have "Split r sep = replicate (length bs) ''..'' @ ts"
      using False ne unfolding r by (simp only: if_False) (intro Split_Join_sep, auto)
    then have "parts (b @ sep # r) =
        rev (foldl (clean_step True) (foldl (clean_step True) (rev (c @ bs)) (replicate (length bs) ''..'')) ts)"
      by (simp add: parts_join p)
    also have "foldl (clean_step True) (rev (c @ bs)) (replicate (length bs) ''..'') = rev c"
      using clean_pop [of "rev (c @ bs)" "length bs"] pr(1) by (simp add: Un_commute)
    also have "rev (foldl (clean_step True) (rev c) ts) = c @ ts"
      using clean_push [of ts] pr by simp
    finally show ?thesis by (simp add: p)
  qed
qed

text \<open>Joining the relative path to its base gives the target.\<close>

lemma Join_Rel:
  assumes "IsAbs b" "IsAbs f" "Rel b f = Some r"
  shows "PathJoin [b, r] = Clean f"
  using parts_Rel [OF assms] assms
  by (simp add: PathJoin2 IsAbs_nonempty Clean_abs IsAbs_append)

text \<open>A relative path without leading dots names what is below.\<close>

lemma Rel_inside:
  assumes "IsAbs b" "IsAbs f" "Rel b f = Some r" "\<not> HasPrefix r ''..''"
  shows "\<exists>ts. parts f = parts b @ ts \<and> r = (if ts = [] then ''.'' else Join ts [sep]) \<and>
    (\<forall>c \<in> set ts. proper c)"
proof -
  from Rel_abs [OF assms(1,2)] obtain c bs ts where
    p: "parts b = c @ bs" "parts f = c @ ts"
    and R: "Rel b f = Some (if bs @ ts = [] then ''.'' else Join (replicate (length bs) ''..'' @ ts) [sep])"
    by blast
  from R assms(3) have r: "r = (if bs @ ts = [] then ''.'' else Join (replicate (length bs) ''..'' @ ts) [sep])"
    by simp
  have "bs = []"
  proof (rule ccontr)
    assume "bs \<noteq> []"
    then obtain k where k: "length bs = Suc k" by (cases bs) auto
    have "HasPrefix (Join (''..'' # xs) [sep]) ''..''" for xs
      by (cases xs) (auto simp: HasPrefix_def)
    then have "HasPrefix r ''..''" using \<open>bs \<noteq> []\<close> by (simp add: r k)
    with assms(4) show False by simp
  qed
  with p r parts_proper [of f] show ?thesis by (intro exI [of _ ts]) auto
qed

lemma under_Join:
  "xs \<noteq> [] \<Longrightarrow> under (sep # Join xs [sep]) (sep # Join (xs @ ys) [sep])"
proof (cases ys)
  case (Cons y zs)
  assume "xs \<noteq> []"
  then have "Join (xs @ y # zs) [sep] = Join xs [sep] @ sep # Join (y # zs) [sep]"
    by (induction xs "[sep]" rule: Join.induct) auto
  with Cons show ?thesis by (simp add: under_def HasPrefix_iff)
qed simp

lemma parts_join_Rel:
  assumes "IsAbs b" "IsAbs f" "Rel b f = Some r" "\<not> HasPrefix r ''..''"
  shows "parts (t @ sep # r) = parts t @ drop (length (parts b)) (parts f)"
proof -
  from Rel_inside [OF assms] obtain ts where ts: "parts f = parts b @ ts"
    "r = (if ts = [] then ''.'' else Join ts [sep])" "\<forall>c \<in> set ts. proper c" by blast
  show ?thesis
  proof (cases "ts = []")
    case True
    have "Split ''.'' sep = [''.'']" by (simp add: sep_def)
    with True show ?thesis by (simp add: parts_join ts(1,2))
  next
    case False
    then have "Split r sep = ts" using ts by (simp add: Split_Join_sep proper_def)
    then show ?thesis using ts(3) by (simp add: parts_join ts(1) clean_push)
  qed
qed

lemma Join_proper_nonempty: "\<forall>c \<in> set cs. proper c \<Longrightarrow> Join cs s = [] \<longleftrightarrow> cs = []"
  using Join_nonempty [of cs s] by (cases "cs = []") (auto simp: proper_def)

lemma Join_parts_inj:
  assumes "Join cs [sep] = Join ds [sep]" "\<forall>c \<in> set cs. proper c" "\<forall>d \<in> set ds. proper d"
  shows "cs = ds"
proof (cases "cs = []")
  case True
  then show ?thesis using assms(1) Join_proper_nonempty [OF assms(3), of "[sep]"] by simp
next
  case False
  then have "ds \<noteq> []" using assms(1) Join_proper_nonempty [OF assms(2), of "[sep]"] by auto
  have np: "\<And>c. proper c \<Longrightarrow> sep \<notin> set c" by (simp add: proper_def)
  have "Split (Join cs [sep]) sep = cs" by (rule Split_Join_sep) (use assms(2) np False in blast)+
  moreover have "Split (Join ds [sep]) sep = ds"
    by (rule Split_Join_sep) (use assms(3) np \<open>ds \<noteq> []\<close> in blast)+
  ultimately show ?thesis using assms(1) by argo
qed

end
