(* ===== verification/GoWork.thy ===== *)
theory GoWork
  imports Climb
begin

text \<open>
  \<open>internal/gowork/gowork.go\<close>: the \<open>go.work\<close> file of a multi-module workspace, its parsing,
  its search from a directory upwards, and the module that owns a path. The content of a
  file is a parameter \<open>readFile\<close> (\<open>None\<close> when it cannot be opened), the existence of a path
  is \<open>exists\<close>.
\<close>

record Workspace =
  Root :: string
  Modules :: "string list"

text \<open>
  \<open>bufio.Scanner\<close> over lines: an empty last line is not a line, a carriage return before the
  line end is dropped, and a line of 65536 bytes or more stops the scan with an error.
\<close>

definition dropCR :: "string \<Rightarrow> string" where
  "dropCR l = TrimSuffix l [CHR 0x0D]"

definition rawLines :: "string \<Rightarrow> string list" where
  "rawLines s = (let ls = Split s CHR 0x0A in if last ls = [] then butlast ls else ls)"

definition ScanLines :: "string \<Rightarrow> string list option" where
  "ScanLines s = (if list_ex (\<lambda>l. 65536 \<le> length l) (rawLines s) then None
     else Some (map dropCR (rawLines s)))"

definition trimQuotes :: "string \<Rightarrow> string" where
  "trimQuotes s = TrimBoth (\<lambda>c. c = CHR 0x22) s"

definition absUse :: "string \<Rightarrow> string \<Rightarrow> string" where
  "absUse rt r =
     (let rel = trimQuotes r in if IsAbs rel then Clean rel else Clean (PathJoin [rt, rel]))"

definition workLine :: "string \<Rightarrow> string" where
  "workLine text =
     (let line = TrimSpace text in
      case Index line ''//'' of Some i \<Rightarrow> TrimSpace (take i line) | None \<Rightarrow> line)"

fun parseWork :: "string \<Rightarrow> string list \<Rightarrow> bool \<Rightarrow> string list \<Rightarrow> string list" where
  "parseWork rt [] inUse mods = mods"
| "parseWork rt (text # ls) inUse mods =
     (let line = workLine text in
      if line = '''' then parseWork rt ls inUse mods
      else if HasPrefix line ''use'' then
        (let rest = TrimSpace (drop 3 line) in
         if rest = ''('' then parseWork rt ls True mods
         else if rest \<noteq> '''' then parseWork rt ls inUse (mods @ [absUse rt rest])
         else parseWork rt ls inUse mods)
      else if inUse then
        (if line = '')'' then parseWork rt ls False mods
         else parseWork rt ls inUse (mods @ [absUse rt line]))
      else parseWork rt ls inUse mods)"

definition parseWorkFile :: "(string \<Rightarrow> string option) \<Rightarrow> string \<Rightarrow> Workspace option" where
  "parseWorkFile readFile workPath = (case readFile workPath of
     None \<Rightarrow> None
   | Some content \<Rightarrow>
       (case ScanLines content of
          None \<Rightarrow> None
        | Some ls \<Rightarrow> Some \<lparr>Root = Dir workPath, Modules = parseWork (Dir workPath) ls False []\<rparr>))"

definition FindWork ::
  "string \<Rightarrow> (string \<Rightarrow> bool) \<Rightarrow> (string \<Rightarrow> string option) \<Rightarrow> string \<Rightarrow> Workspace option" where
  "FindWork cwd exists readFile startDir =
     (case findUp (\<lambda>d. exists (PathJoin [d, ''go.work''])) (Abs cwd startDir) of
        None \<Rightarrow> None
      | Some d \<Rightarrow> parseWorkFile readFile (PathJoin [d, ''go.work'']))"

definition ContainsPath :: "Workspace \<Rightarrow> string \<Rightarrow> bool" where
  "ContainsPath w absPath \<longleftrightarrow> list_ex (\<lambda>m. under m absPath) (Modules w)"

definition ModuleFor :: "Workspace \<Rightarrow> string \<Rightarrow> string" where
  "ModuleFor w absPath = foldl (\<lambda>best m.
     if under m absPath \<and> length best < length m then m else best) '''' (Modules w)"

subsection \<open>Ownership\<close>

lemma moduleFor_foldl:
  assumes "best = '''' \<or> under best p"
  shows "let r = foldl (\<lambda>best m. if under m p \<and> length best < length m then m else best) best mods
     in (r = best \<or> r \<in> set mods) \<and> (r = '''' \<or> under r p) \<and> length best \<le> length r \<and>
        (\<forall>m \<in> set mods. under m p \<longrightarrow> length m \<le> length r)"
  using assms
proof (induction mods arbitrary: best)
  case (Cons m mods)
  define b where "b = (if under m p \<and> length best < length m then m else best)"
  have "b = '''' \<or> under b p" using Cons.prems by (auto simp: b_def)
  from Cons.IH [OF this] show ?case by (auto simp: b_def Let_def split: if_splits)
qed (simp add: Let_def)

text \<open>
  A path belongs to its innermost module: \<open>ModuleFor\<close> is empty exactly when no module
  contains the path, and otherwise it is a module that contains it and that every other
  such module contains.
\<close>

theorem innermost_module_owns:
  assumes "'''' \<notin> set (Modules w)"
  shows "let m = ModuleFor w p in
     (m = '''' \<longleftrightarrow> \<not> ContainsPath w p) \<and>
     (m \<noteq> '''' \<longrightarrow> m \<in> set (Modules w) \<and> under m p \<and>
        (\<forall>m' \<in> set (Modules w). under m' p \<longrightarrow> under m' m))"
proof -
  define r where "r = ModuleFor w p"
  have "(r = '''' \<or> r \<in> set (Modules w)) \<and> (r = '''' \<or> under r p) \<and>
      (\<forall>m \<in> set (Modules w). under m p \<longrightarrow> length m \<le> length r)"
    using moduleFor_foldl [of "''''" p "Modules w"] by (simp add: r_def ModuleFor_def Let_def)
  then have r: "r = '''' \<or> r \<in> set (Modules w)" "r = '''' \<or> under r p"
    "\<And>m. m \<in> set (Modules w) \<Longrightarrow> under m p \<Longrightarrow> length m \<le> length r" by auto
  have "r = '''' \<longleftrightarrow> \<not> ContainsPath w p"
  proof
    assume "r = ''''"
    show "\<not> ContainsPath w p"
    proof
      assume "ContainsPath w p"
      then obtain m where m: "m \<in> set (Modules w)" "under m p"
        by (auto simp: ContainsPath_def list_ex_iff)
      from r(3) [OF this] \<open>r = ''''\<close> have "m = ''''" by simp
      with m assms show False by simp
    qed
  next
    assume "\<not> ContainsPath w p"
    with r(1,2) show "r = ''''" by (auto simp: ContainsPath_def list_ex_iff)
  qed
  moreover have "under m' r" if "r \<noteq> ''''" "m' \<in> set (Modules w)" "under m' p" for m'
    using under_comparable [OF that(3) _ r(3) [OF that(2,3)]] r(2) that(1) by blast
  ultimately show ?thesis using r(1,2) unfolding r_def [symmetric] Let_def by blast
qed

theorem innermost_module_owns_witness:
  "ModuleFor \<lparr>Root = ''/w'', Modules = [''/w/a'', ''/w/a/b'', ''/w/ab'']\<rparr> ''/w/a/b/x.go'' = ''/w/a/b''"
proof -
  let ?w = "\<lparr>Root = ''/w'', Modules = [''/w/a'', ''/w/a/b'', ''/w/ab'']\<rparr>"
  have c: "ContainsPath ?w ''/w/a/b/x.go''" "under ''/w/a/b'' ''/w/a/b/x.go''"
    "\<not> under ''/w/a/b'' ''/w/a''" "\<not> under ''/w/a/b'' ''/w/ab''" by code_simp+
  have "'''' \<notin> set (Modules ?w)" by simp
  from innermost_module_owns [OF this, of "''/w/a/b/x.go''"] c show ?thesis
    by (auto simp: Let_def)
qed

subsection \<open>Reading\<close>

text \<open>A directory that can stand in a \<open>use\<close> block and be read as it is.\<close>

definition plainUse :: "string \<Rightarrow> bool" where
  "plainUse r \<longleftrightarrow> workLine (CHR 0x09 # r) = r \<and> r \<noteq> '''' \<and> r \<noteq> '')'' \<and> \<not> HasPrefix r ''use''"

lemma parseWork_block:
  "\<forall>r \<in> set rels. plainUse r \<Longrightarrow>
     parseWork rt (map (\<lambda>r. CHR 0x09 # r) rels @ ls) True mods =
     parseWork rt ls True (mods @ map (absUse rt) rels)"
  by (induction rels arbitrary: mods) (auto simp: plainUse_def Let_def)

lemma workLine_fixed:
  "workLine ''use ('' = ''use (''" "workLine '')'' = '')''"
  by code_simp+

text \<open>
  A \<open>use\<close> block is read as the list of its directories, each resolved against the
  directory of the file, in order.
\<close>

theorem use_block_read:
  assumes "\<forall>r \<in> set rels. plainUse r"
  shows "parseWork rt (''use ('' # map (\<lambda>r. CHR 0x09 # r) rels @ ['')'']) False [] = map (absUse rt) rels"
proof -
  have rest: "TrimSpace '' ('' = ''(''" "HasPrefix ''use ('' ''use''"
    "\<not> HasPrefix '')'' ''use''" by code_simp+
  show ?thesis using assms by (simp add: workLine_fixed rest parseWork_block Let_def)
qed

theorem use_block_read_witness:
  "parseWork ''/w'' [''use ('', CHR 0x09 # ''./a'', CHR 0x09 # ''../b'', '')''] False [] = [''/w/a'', ''/b'']"
proof -
  have "\<forall>r \<in> set [''./a'', ''../b'']. plainUse r" by code_simp
  from use_block_read [OF this, of "''/w''"] have
    "parseWork ''/w'' [''use ('', CHR 0x09 # ''./a'', CHR 0x09 # ''../b'', '')''] False [] =
      map (absUse ''/w'') [''./a'', ''../b'']" by simp
  also have "\<dots> = [''/w/a'', ''/b'']" by code_simp
  finally show ?thesis .
qed

text \<open>A directory in a block whose name starts with the keyword loses these letters.\<close>

lemma use_prefix_cut:
  "parseWork ''/w'' [''use ('', CHR 0x09 # ''users'', '')''] False [] = [''/w/rs'']"
  by code_simp

end
