(* ===== verification/Work.thy ===== *)
theory Work
  imports Status PathLaws GoWork
begin

text \<open>
  \<open>internal/core/workspace.go\<close>: the temporary copy of the module or workspace in which the
  mutants are compiled. Modelled are the roots found by \<open>Setup\<close>, the relative path of a
  file with its memo, the plan of the files copied, the texts written for \<open>go.mod\<close> and
  \<open>go.work\<close>, the packages and the map from packages to mutants. Directory trees, file contents
  and the existence of paths are arguments; the copying itself is in \<open>Placement\<close>.
\<close>

record ModuleWorkspace =
  TempDir :: string
  absModule :: string
  goWork :: "Workspace option"
  fileRelPaths :: "string \<rightharpoonup> string"

definition NewModuleWorkspace :: "string \<Rightarrow> ModuleWorkspace" where
  "NewModuleWorkspace tempDir =
     \<lparr>TempDir = tempDir, absModule = '''', goWork = None, fileRelPaths = Map.empty\<rparr>"

subsection \<open>Relative paths\<close>

definition relRoot :: "ModuleWorkspace \<Rightarrow> string \<Rightarrow> string" where
  "relRoot w f = (case goWork w of
     None \<Rightarrow> absModule w
   | Some g \<Rightarrow> if ModuleFor g f \<noteq> '''' then Root g else absModule w)"

definition relPath :: "ModuleWorkspace \<Rightarrow> string \<Rightarrow> string option \<times> ModuleWorkspace" where
  "relPath w f = (case fileRelPaths w f of
     Some rel \<Rightarrow> (Some rel, w)
   | None \<Rightarrow>
       (case Rel (relRoot w f) f of
          None \<Rightarrow> (None, w)
        | Some rel \<Rightarrow>
            if HasPrefix rel ''..'' then (None, w)
            else (Some rel, w\<lparr>fileRelPaths := (fileRelPaths w)(f \<mapsto> rel)\<rparr>)))"

text \<open>The answer without the memo.\<close>

definition relOf :: "ModuleWorkspace \<Rightarrow> string \<Rightarrow> string option" where
  "relOf w f = (case Rel (relRoot w f) f of
     None \<Rightarrow> None | Some rel \<Rightarrow> if HasPrefix rel ''..'' then None else Some rel)"

definition memoOK :: "ModuleWorkspace \<Rightarrow> bool" where
  "memoOK w \<longleftrightarrow> (\<forall>f rel. fileRelPaths w f = Some rel \<longrightarrow> relOf w f = Some rel)"

subsection \<open>Setting up\<close>

definition SetupRoots ::
  "string \<Rightarrow> (string \<Rightarrow> bool) \<Rightarrow> (string \<Rightarrow> string option) \<Rightarrow> string \<Rightarrow> ModuleWorkspace \<Rightarrow>
   (ModuleWorkspace \<times> string list) option" where
  "SetupRoots cwd exists readFile baseDir w =
     (case FindWork cwd exists readFile baseDir of
        Some ws \<Rightarrow> Some (w\<lparr>goWork := Some ws, absModule := Root ws\<rparr>, Modules ws)
      | None \<Rightarrow>
          (let modDir = FindGoModDir cwd exists baseDir in
           if modDir = '''' then None
           else Some (w\<lparr>goWork := None, absModule := Abs cwd modDir\<rparr>, [Abs cwd modDir])))"

text \<open>The directory of a member module in the copy.\<close>

definition moduleDst :: "ModuleWorkspace \<Rightarrow> string \<Rightarrow> string" where
  "moduleDst w modRoot =
     (let rel = (case Rel (absModule w) modRoot of None \<Rightarrow> Base modRoot | Some r \<Rightarrow> r);
          dst = PathJoin [TempDir w, rel]
      in if dst = PathJoin [TempDir w, ''.''] then TempDir w else dst)"

definition collectAllPackages :: "(string \<Rightarrow> fsnode) \<Rightarrow> string \<Rightarrow> string set" where
  "collectAllPackages fs absMod = set (List.map_filter
     (\<lambda>p. if HasSuffix p ''.go'' \<and> \<not> HasSuffix p ''_test.go'' then Rel absMod (Dir p) else None)
     (walkFiles absMod (fs absMod)))"

definition nodeName :: "fsnode \<Rightarrow> string" where
  "nodeName n = (case n of Leaf s \<Rightarrow> s | Folder s _ \<Rightarrow> s)"

definition hasGoFiles :: "fsnode \<Rightarrow> bool" where
  "hasGoFiles n = (case n of
     Folder _ cs \<Rightarrow> list_ex (\<lambda>c. case c of Leaf s \<Rightarrow> HasSuffix s ''.go'' | _ \<Rightarrow> False) cs
   | Leaf _ \<Rightarrow> False)"

text \<open>The copies made below a directory, as pairs of source and destination.\<close>

function copyDirContents ::
  "string set \<Rightarrow> string \<Rightarrow> string \<Rightarrow> fsnode list \<Rightarrow> (string \<times> string) list" where
  "copyDirContents mutated src dst [] = []"
| "copyDirContents mutated src dst (n # ns) =
     (let s = PathJoin [src, nodeName n]; d = PathJoin [dst, nodeName n] in
      (case n of
         Folder _ cs \<Rightarrow> if hasGoFiles n then copyDirContents mutated s d cs else []
       | Leaf _ \<Rightarrow> if s \<in> mutated then [] else [(s, d)])
      @ copyDirContents mutated src dst ns)"
  by pat_completeness auto
termination
  by (relation "measure (size_list size \<circ> snd \<circ> snd \<circ> snd)") auto

definition packageDst :: "ModuleWorkspace \<Rightarrow> string \<Rightarrow> string \<Rightarrow> string" where
  "packageDst w modRoot pkgRelDir =
     (let rel = (case Rel (absModule w) modRoot of None \<Rightarrow> Base modRoot | Some r \<Rightarrow> r)
      in if rel = ''.'' then PathJoin [TempDir w, pkgRelDir]
         else PathJoin [TempDir w, rel, pkgRelDir])"

definition copyPackageFromModule ::
  "ModuleWorkspace \<Rightarrow> string set \<Rightarrow> string \<Rightarrow> string \<Rightarrow> fsnode list \<Rightarrow> (string \<times> string) list" where
  "copyPackageFromModule w mutated modRoot pkgRelDir dirEntries =
     (let srcDir = PathJoin [modRoot, pkgRelDir]; dstDir = packageDst w modRoot pkgRelDir in
      concat (map (\<lambda>n. let s = PathJoin [srcDir, nodeName n]; d = PathJoin [dstDir, nodeName n] in
        case n of
          Folder _ cs \<Rightarrow> if hasGoFiles n then copyDirContents mutated s d cs else []
        | Leaf name \<Rightarrow>
            if \<not> HasSuffix name ''.go'' then []
            else if \<not> HasSuffix name ''_test.go'' \<and> s \<in> mutated then []
            else [(s, d)]) dirEntries))"

subsection \<open>Texts\<close>

definition isStdlib :: "string \<Rightarrow> bool" where
  "isStdlib path =
     (if path = '''' \<or> hd path = CHR ''.'' then False
      else case IndexByte path CHR ''.'' of
        None \<Rightarrow> True
      | Some dot \<Rightarrow> (case IndexByte path CHR ''/'' of None \<Rightarrow> False | Some slash \<Rightarrow> slash < dot))"

definition MakeSelfContained :: "string \<Rightarrow> string option \<Rightarrow> string" where
  "MakeSelfContained goVersion goMod = (case goMod of
     None \<Rightarrow> ''module gorgon-bench'' @ newline # ''go '' @ goVersion @ [newline]
   | Some content \<Rightarrow>
       if Contains content ''replace github.com/aclfe/gorgon =>'' then content
       else TrimSpace content @ [newline, newline] @ ''replace github.com/aclfe/gorgon => ./'' @ [newline])"

fun moduleName :: "string \<Rightarrow> string list \<Rightarrow> string" where
  "moduleName d [] = d"
| "moduleName d (l # ls) =
     (let line = TrimSpace l in
      if HasPrefix line ''module '' then TrimPrefix line ''module '' else moduleName d ls)"

text \<open>The new \<open>go.mod\<close> of \<open>simplifyGoMod\<close>, or none when the old one stays.\<close>

definition simplifyGoMod :: "ModuleWorkspace \<Rightarrow> string \<Rightarrow> bool \<Rightarrow> string option \<Rightarrow> string option" where
  "simplifyGoMod w goVersion hasNonStdlib goMod =
     (if hasNonStdlib \<or> goWork w \<noteq> None then None
      else let modName = (case goMod of None \<Rightarrow> ''gorgon-standalone''
                 | Some content \<Rightarrow> moduleName ''gorgon-standalone'' (splitLines content))
           in Some (''module '' @ modName @ [newline, newline] @ ''go '' @ goVersion @ [newline]))"

definition goWorkLine :: "string \<Rightarrow> string \<Rightarrow> string" where
  "goWorkLine rt line =
     (let trimmed = TrimSpace line in
      if HasPrefix trimmed ''use '' \<and> \<not> HasSuffix trimmed ''('' then
        (let rel = trimQuotes (TrimSpace (drop 4 trimmed));
             abs = Clean (PathJoin [rt, rel])
         in ''use '' @ (case Rel rt abs of None \<Rightarrow> rel | Some r \<Rightarrow> r) @ [newline])
      else line @ [newline])"

definition copyGoWork :: "string \<Rightarrow> string \<Rightarrow> string option" where
  "copyGoWork rt content = map_option (\<lambda>ls. concat (map (goWorkLine rt) ls)) (ScanLines content)"

subsection \<open>External suites\<close>

fun testDirs :: "string \<Rightarrow> fsnode \<Rightarrow> string list"
and testDirsChildren :: "string \<Rightarrow> fsnode list \<Rightarrow> string list" where
  "testDirs path (Leaf _) = []"
| "testDirs path (Folder _ cs) =
     (if list_ex (\<lambda>c. HasSuffix (nodeName c) ''_test.go'') cs then [path] else [])
     @ testDirsChildren path cs"
| "testDirsChildren path [] = []"
| "testDirsChildren path (c # cs) = testDirs (PathJoin [path, nodeName c]) c @ testDirsChildren path cs"

definition expandGlobPath :: "(string \<Rightarrow> fsnode) \<Rightarrow> string \<Rightarrow> string \<Rightarrow> string list" where
  "expandGlobPath fs absMod pattern =
     (let clean = TrimPrefix pattern ''./''; isRecursive = HasSuffix clean ''/...'';
          clean' = (if isRecursive then TrimSuffix clean ''/...'' else clean);
          rt = PathJoin [absMod, clean']
      in if \<not> isRecursive then [rt] else testDirs rt (fs rt))"

definition collectAllSuitePaths :: "ExternalSuite list \<Rightarrow> string list" where
  "collectAllSuitePaths suites = concat (map SuitePaths suites)"

subsection \<open>Packages\<close>

definition packageOf :: "ModuleWorkspace \<Rightarrow> string \<Rightarrow> string" where
  "packageOf w rel = PathJoin [TempDir w, Dir rel]"

fun buildPkgMap ::
  "ModuleWorkspace \<Rightarrow> Mutant list \<Rightarrow> nat \<Rightarrow> (string \<rightharpoonup> int list) \<times> (int \<rightharpoonup> nat) \<Rightarrow>
   ((string \<rightharpoonup> int list) \<times> (int \<rightharpoonup> nat)) option \<times> ModuleWorkspace" where
  "buildPkgMap w [] i acc = (Some acc, w)"
| "buildPkgMap w (m # ms) i (pkgToIDs, idx) =
     (case relPath w (sFile (mSite m)) of
        (None, w') \<Rightarrow> (None, w')
      | (Some rel, w') \<Rightarrow>
          (let pkg = packageOf w' rel in
           buildPkgMap w' ms (Suc i)
             (pkgToIDs(pkg \<mapsto> (case pkgToIDs pkg of None \<Rightarrow> [] | Some ids \<Rightarrow> ids) @ [mID m]),
              idx(mID m \<mapsto> i))))"

subsection \<open>Laws\<close>

lemma relRoot_memo [simp]: "relRoot (w\<lparr>fileRelPaths := x\<rparr>) f = relRoot w f"
  by (cases "goWork w") (simp_all add: relRoot_def)

lemma relOf_memo [simp]: "relOf (w\<lparr>fileRelPaths := x\<rparr>) f = relOf w f"
  by (simp add: relOf_def)

lemma relPath_cases:
  "relPath w f = (case fileRelPaths w f of
     Some rel \<Rightarrow> (Some rel, w)
   | None \<Rightarrow> (case relOf w f of None \<Rightarrow> (None, w)
       | Some rel \<Rightarrow> (Some rel, w\<lparr>fileRelPaths := (fileRelPaths w)(f \<mapsto> rel)\<rparr>)))"
  by (auto simp: relPath_def relOf_def split: option.split)

lemma relPath_memo:
  assumes "memoOK w"
  shows "fst (relPath w f) = relOf w f" and "memoOK (snd (relPath w f))"
    and "relOf (snd (relPath w f)) g = relOf w g" and "TempDir (snd (relPath w f)) = TempDir w"
  using assms by (auto simp: relPath_cases memoOK_def split: option.splits)

text \<open>What \<open>Setup\<close> establishes: absolute roots, and the workspace root as the module root.\<close>

definition wsOK :: "ModuleWorkspace \<Rightarrow> bool" where
  "wsOK w \<longleftrightarrow> memoOK w \<and> IsAbs (absModule w) \<and> IsAbs (TempDir w) \<and> parts (TempDir w) \<noteq> [] \<and>
     (\<forall>g. goWork w = Some g \<longrightarrow> Root g = absModule w)"

lemma relRoot_OK: "wsOK w \<Longrightarrow> relRoot w f = absModule w"
  by (auto simp: wsOK_def relRoot_def split: option.split)

lemma relOf_Rel:
  "wsOK w \<Longrightarrow> relOf w f = Some rel \<Longrightarrow> Rel (absModule w) f = Some rel \<and> \<not> HasPrefix rel ''..''"
  by (auto simp: relOf_def relRoot_OK split: option.splits if_splits)

text \<open>The place of a file in the copy.\<close>

definition tempPath :: "ModuleWorkspace \<Rightarrow> string \<Rightarrow> string" where
  "tempPath w rel = PathJoin [TempDir w, rel]"

lemma tempPath_parts:
  assumes "wsOK w" "IsAbs f" "relOf w f = Some rel"
  shows "tempPath w rel = sep # Join (parts (TempDir w) @ drop (length (parts (absModule w))) (parts f)) [sep]"
    and "\<exists>ts. parts f = parts (absModule w) @ ts"
proof -
  note r = relOf_Rel [OF assms(1,3)]
  have a: "IsAbs (absModule w)" "IsAbs (TempDir w)" using assms(1) by (auto simp: wsOK_def)
  have ne: "rel \<noteq> []" by (rule parts_Rel(1) [OF a(1) assms(2)]) (use r in blast)
  have "parts (TempDir w @ sep # rel) = parts (TempDir w) @ drop (length (parts (absModule w))) (parts f)"
    by (rule parts_join_Rel [OF a(1) assms(2)]) (use r in blast)+
  then show "tempPath w rel = sep # Join (parts (TempDir w) @ drop (length (parts (absModule w))) (parts f)) [sep]"
    using a(2) ne by (simp add: tempPath_def PathJoin2 IsAbs_nonempty Clean_abs IsAbs_append)
  show "\<exists>ts. parts f = parts (absModule w) @ ts"
    using Rel_inside [OF a(1) assms(2)] r by blast
qed

lemma temp_paths:
  assumes "wsOK w" "IsAbs f" "IsAbs g" "relOf w f = Some r" "relOf w g = Some r'"
  shows "under (Clean (TempDir w)) (tempPath w r)"
    and "tempPath w r = tempPath w r' \<longleftrightarrow> Clean f = Clean g"
proof -
  have t: "IsAbs (TempDir w)" "parts (TempDir w) \<noteq> []" using assms(1) by (auto simp: wsOK_def)
  note f = tempPath_parts [OF assms(1,2,4)] and g = tempPath_parts [OF assms(1,3,5)]
  show "under (Clean (TempDir w)) (tempPath w r)"
    unfolding f(1) Clean_abs [OF t(1)] by (rule under_Join [OF t(2)])
  obtain ts ts' where ts: "parts f = parts (absModule w) @ ts" "parts g = parts (absModule w) @ ts'"
    using f(2) g(2) by blast
  have pr: "\<forall>c \<in> set (parts (TempDir w) @ ts). proper c" "\<forall>c \<in> set (parts (TempDir w) @ ts'). proper c"
    using parts_proper [of f] parts_proper [of g] parts_proper [of "TempDir w"] ts by auto
  have d: "drop (length (parts (absModule w))) (parts f) = ts" "drop (length (parts (absModule w))) (parts g) = ts'"
    by (simp_all add: ts)
  show "tempPath w r = tempPath w r' \<longleftrightarrow> Clean f = Clean g"
  proof
    assume "tempPath w r = tempPath w r'"
    then have "Join (parts (TempDir w) @ ts) [sep] = Join (parts (TempDir w) @ ts') [sep]"
      unfolding f(1) g(1) d by simp
    from Join_parts_inj [OF this pr] show "Clean f = Clean g"
      by (simp add: Clean_abs assms(2,3) ts)
  next
    assume "Clean f = Clean g"
    then have "parts f = parts g" using comps_Clean [OF assms(2)] comps_Clean [OF assms(3)] by argo
    then show "tempPath w r = tempPath w r'" unfolding f(1) g(1) by argo
  qed
qed



fun indexFrom :: "(int \<rightharpoonup> nat) \<Rightarrow> nat \<Rightarrow> Mutant list \<Rightarrow> (int \<rightharpoonup> nat)" where
  "indexFrom f i [] = f"
| "indexFrom f i (m # ms) = indexFrom (f(mID m \<mapsto> i)) (Suc i) ms"

lemma indexFrom_foldl:
  "foldl (\<lambda>f i. f(mID ((xs @ ms) ! i) \<mapsto> i)) f [length xs..<length (xs @ ms)] = indexFrom f (length xs) ms"
proof (induction ms arbitrary: xs f)
  case (Cons m ms)
  have "[length xs..<length (xs @ m # ms)] = length xs # [length (xs @ [m])..<length ((xs @ [m]) @ ms)]"
    using upt_conv_Cons [of "length xs" "length (xs @ m # ms)"] by (simp del: upt_Suc)
  with Cons.IH [of "xs @ [m]" "f(mID m \<mapsto> length xs)"] show ?case by (simp del: upt_Suc fun_upd_apply)
qed simp

lemma indexFrom_idToIndex: "indexFrom Map.empty 0 ms = idToIndex ms"
  using indexFrom_foldl [of "[]" ms Map.empty] by (simp add: idToIndex_def)

lemma buildPkgMap_spec:
  assumes "memoOK w"
  shows "fst (buildPkgMap w ms i (pm, idx)) =
     (if \<forall>m \<in> set ms. relOf w (sFile (mSite m)) \<noteq> None
      then Some (\<lambda>pkg. let ids = map mID (filter (\<lambda>m. packageOf w (the (relOf w (sFile (mSite m)))) = pkg) ms)
                       in if ids = [] then pm pkg else Some (or_else [] (pm pkg) @ ids),
                 indexFrom idx i ms)
      else None)"
  using assms
proof (induction ms arbitrary: w i pm idx)
  case (Cons m ms)
  let ?f = "sFile (mSite m)"
  note mm = relPath_memo [OF Cons.prems, of ?f]
  obtain r w' where rw: "relPath w ?f = (r, w')" by (cases "relPath w ?f")
  have r: "r = relOf w ?f" "memoOK w'" "relOf w' g = relOf w g" "TempDir w' = TempDir w" for g
    using mm(1,2,4) mm(3) [of g] by (simp_all add: rw)
  have pk: "packageOf w' = packageOf w" by (auto simp: packageOf_def r(4))
  show ?case
  proof (cases r)
    case None
    then show ?thesis using r(1) by (simp add: rw)
  next
    case (Some rel)
    have or: "(case x of None \<Rightarrow> [] | Some y \<Rightarrow> y) = or_else [] x" for x :: "int list option"
      by (cases x) simp_all
    show ?thesis
      using Some r(1) Cons.IH [OF r(2), of "Suc i"]
      by (simp add: rw r(3) pk or Let_def fun_eq_iff)
  qed
qed simp

text \<open>
  Every mutant of the copy is filed under one package: when all files lie in the
  workspace, the package map holds, for each package, the ids of exactly its mutants in their
  order, and it fails as soon as one file lies outside.
\<close>

theorem package_map_exact:
  assumes "memoOK w"
  shows "let place = (\<lambda>m. relOf w (sFile (mSite m))) in
     case fst (buildPkgMap w ms 0 (Map.empty, Map.empty)) of
       None \<Rightarrow> \<not> list_all (\<lambda>m. place m \<noteq> None) ms
     | Some (pkgToIDs, idx) \<Rightarrow> list_all (\<lambda>m. place m \<noteq> None) ms \<and> idx = idToIndex ms \<and>
         pkgToIDs = (\<lambda>pkg. let ids = map mID (filter (\<lambda>m. packageOf w (the (place m)) = pkg) ms)
                          in if ids = [] then None else Some ids)"
proof -
  let ?all = "\<forall>m \<in> set ms. relOf w (sFile (mSite m)) \<noteq> None"
  note spec = buildPkgMap_spec [OF assms, of ms 0 Map.empty Map.empty, unfolded indexFrom_idToIndex]
  show ?thesis
  proof (cases ?all)
    case True
    show ?thesis unfolding spec if_P [OF True]
      by (simp only: option.case prod.case Let_def list_all_iff or_else.simps append_Nil simp_thms) (rule True)
  next
    case False
    show ?thesis unfolding spec if_not_P [OF False]
      by (simp only: option.case Let_def list_all_iff) (rule False)
  qed
qed

definition sampleWorkspace :: ModuleWorkspace where
  "sampleWorkspace = (NewModuleWorkspace ''/tmp/g'')\<lparr>absModule := ''/p''\<rparr>"

lemma sampleWorkspace_simps [simp]:
  "TempDir sampleWorkspace = ''/tmp/g''" "relRoot sampleWorkspace f = ''/p''" "memoOK sampleWorkspace"
  by (simp_all add: sampleWorkspace_def NewModuleWorkspace_def relRoot_def memoOK_def)

lemma sampleWorkspace_rel [simp]:
  "relOf sampleWorkspace ''/p/a/x.go'' = Some ''a/x.go''" "relOf sampleWorkspace ''/p/y.go'' = Some ''y.go''"
  "packageOf sampleWorkspace ''a/x.go'' = ''/tmp/g/a''" "packageOf sampleWorkspace ''y.go'' = ''/tmp/g''"
proof -
  have r: "Rel ''/p'' ''/p/a/x.go'' = Some ''a/x.go''" "Rel ''/p'' ''/p/y.go'' = Some ''y.go''"
    "\<not> HasPrefix ''a/x.go'' ''..''" "\<not> HasPrefix ''y.go'' ''..''"
    "PathJoin [''/tmp/g'', Dir ''a/x.go''] = ''/tmp/g/a''" "PathJoin [''/tmp/g'', Dir ''y.go''] = ''/tmp/g''"
    by code_simp+
  then show "relOf sampleWorkspace ''/p/a/x.go'' = Some ''a/x.go''" "relOf sampleWorkspace ''/p/y.go'' = Some ''y.go''"
    "packageOf sampleWorkspace ''a/x.go'' = ''/tmp/g/a''" "packageOf sampleWorkspace ''y.go'' = ''/tmp/g''"
    by (simp_all add: relOf_def packageOf_def)
qed

theorem package_map_exact_witness:
  "case fst (buildPkgMap sampleWorkspace [sampleMutant 7 ''/p/a/x.go'' '''', sampleMutant 9 ''/p/y.go'' ''''] 0
       (Map.empty, Map.empty)) of
     None \<Rightarrow> False | Some (pkgToIDs, _) \<Rightarrow> pkgToIDs ''/tmp/g/a'' = Some [7] \<and> pkgToIDs ''/tmp/g'' = Some [9]"
proof -
  have "memoOK sampleWorkspace" by simp
  from package_map_exact [OF this, of "[sampleMutant 7 ''/p/a/x.go'' '''', sampleMutant 9 ''/p/y.go'' '''']"]
  show ?thesis by (auto simp: Let_def split: option.splits)
qed

end
