(* ===== verification/Disk.thy ===== *)
theory Disk
  imports Work "HOL-Library.List_Lexorder" "HOL-Library.Char_ord"
begin

text \<open>
  The files of the temporary copy and the operations that write them:
  \<open>ApplySchemataToAST\<close> and \<open>InjectSchemataHelpers\<close> (\<open>internal/core/transform.go\<close>),
  \<open>applySingleFile\<close>, \<open>reapplyAffectedFiles\<close>, \<open>resetMutatedFilesInPkgs\<close> and the readers of
  compiler output (\<open>schemata.go\<close>). The disk is a map from paths to contents. What the code
  calls outside the repository is the record \<open>Tools\<close>: reading an original file, whether a
  path can be written, the parser, the traversal with the printer (which sees the mutants
  through the position table only), the positions of a fresh parse, and the Go build, whose
  output is \<open>None\<close> on success. The system's part of an error message is left out.
\<close>

type_synonym disk = "string \<rightharpoonup> string"

record Tools =
  tRead :: "string \<Rightarrow> string option"
  tWritable :: "string \<Rightarrow> bool"
  tParses :: "string \<Rightarrow> string \<Rightarrow> bool"
  tRender :: "string \<Rightarrow> string \<Rightarrow> (posKey \<rightharpoonup> MutantForSite list) \<Rightarrow> string option"
  tPosition :: "string \<Rightarrow> int \<Rightarrow> int \<times> int"
  tBuild :: "disk \<Rightarrow> string option"

definition writeFile :: "Tools \<Rightarrow> string \<Rightarrow> string \<Rightarrow> disk \<Rightarrow> disk option" where
  "writeFile T p text d = (if tWritable T p then Some (d(p \<mapsto> text)) else None)"

definition readDisk :: "Tools \<Rightarrow> disk \<Rightarrow> string \<Rightarrow> string option" where
  "readDisk T d p = (case d p of None \<Rightarrow> tRead T p | Some text \<Rightarrow> Some text)"

definition ApplySchemataToAST ::
  "Tools \<Rightarrow> string \<Rightarrow> string \<Rightarrow> string \<Rightarrow> Mutant list \<Rightarrow> disk \<Rightarrow> ((int \<rightharpoonup> PositionMapping) \<times> disk) option" where
  "ApplySchemataToAST T origPath filePath src ms d =
     (let text = or_else '''' (tRender T origPath src (buildPositionToMutantsMap ms)) in
      if text = '''' then
        Some (Map.empty, if src \<noteq> '''' then or_else d (writeFile T filePath src d) else d)
      else map_option (Pair (findMutantPositionsInBytes text (extractMutantIDs ms)
                               (buildPositionMapping ms (tPosition T origPath))))
             (writeFile T filePath text d))"

definition setTemp :: "(int \<rightharpoonup> PositionMapping) \<Rightarrow> Mutant \<Rightarrow> Mutant" where
  "setTemp posMap m = (case posMap (mID m) of None \<Rightarrow> m
     | Some pm \<Rightarrow> m\<lparr>mTempLine := TempLine pm, mTempCol := TempCol pm\<rparr>)"

text \<open>An update through pointers into the list of mutants.\<close>

definition updateAt :: "(Mutant \<Rightarrow> Mutant) \<Rightarrow> nat list \<Rightarrow> Mutant list \<Rightarrow> Mutant list" where
  "updateAt f is ms = foldl (\<lambda>ms i. ms[i := f (ms ! i)]) ms is"

subsection \<open>Helper files\<close>

definition astPackage :: "Mutant \<Rightarrow> string" where
  "astPackage m = (case sFileAST (mSite m) of
     Some (File _ _ name _ _) \<Rightarrow> (case name of Ident _ s \<Rightarrow> s | _ \<Rightarrow> '''')
   | _ \<Rightarrow> '''')"

definition hasAST :: "Mutant \<Rightarrow> bool" where
  "hasAST m \<longleftrightarrow> sFileAST (mSite m) \<noteq> None"

text \<open>The package name a file gives: that of its first mutant with a syntax tree.\<close>

definition filePackage :: "Mutant list \<Rightarrow> string" where
  "filePackage ms = (case find hasAST ms of None \<Rightarrow> '''' | Some m \<Rightarrow> astPackage m)"

definition dirPackage :: "(string \<times> Mutant list) list \<Rightarrow> string \<Rightarrow> string" where
  "dirPackage fileToMutants d =
     first_or (Base d) (filter (\<lambda>n. n \<noteq> '''')
       (map (filePackage \<circ> snd) (filter (\<lambda>fm. Dir (fst fm) = d) fileToMutants)))"

definition helperFile :: "string \<Rightarrow> string" where
  "helperFile d = PathJoin [d, ''gorgon_schemata.go'']"

fun writeHelpers :: "Tools \<Rightarrow> (string \<times> Mutant list) list \<Rightarrow> string list \<Rightarrow> disk \<Rightarrow> string option \<times> disk" where
  "writeHelpers T fm [] d = (None, d)"
| "writeHelpers T fm (p # ps) d =
     (case writeFile T (helperFile p) (helperText (dirPackage fm p)) d of
        None \<Rightarrow> (Some ''failed to write helper'', d)
      | Some d' \<Rightarrow> writeHelpers T fm ps d')"

definition InjectSchemataHelpers ::
  "Tools \<Rightarrow> (string \<times> Mutant list) list \<Rightarrow> disk \<Rightarrow> string option \<times> disk" where
  "InjectSchemataHelpers T fileToMutants d =
     writeHelpers T fileToMutants (sort (remdups (map (Dir \<circ> fst) fileToMutants))) d"

subsection \<open>One file\<close>

definition applySingleFile ::
  "Tools \<Rightarrow> ModuleWorkspace \<Rightarrow> string \<Rightarrow> nat list \<Rightarrow> disk \<Rightarrow> Mutant list \<Rightarrow>
   string option \<times> disk \<times> Mutant list" where
  "applySingleFile T w srcFile is d ms = (case relOf w srcFile of
     None \<Rightarrow> (Some (''file '' @ srcFile @ '' is outside workspace root''), d, ms)
   | Some rel \<Rightarrow>
       (case tRead T srcFile of
          None \<Rightarrow> (Some (''read '' @ srcFile), d, ms)
        | Some src \<Rightarrow>
            (case writeFile T (tempPath w rel) src d of
               None \<Rightarrow> (Some (''restore '' @ tempPath w rel), d, ms)
             | Some d1 \<Rightarrow>
                 if is = [] then (None, d1, ms)
                 else if \<not> tParses T srcFile src then (Some (''parse '' @ srcFile), d1, ms)
                 else (case ApplySchemataToAST T srcFile (tempPath w rel) src (map ((!) ms) is) d1 of
                         None \<Rightarrow> (Some (''apply schemata to '' @ srcFile), d1, ms)
                       | Some (posMap, d2) \<Rightarrow> (None, d2, updateAt (setTemp posMap) is ms)))))"

subsection \<open>Reading the compiler output\<close>

definition errorPath :: "ModuleWorkspace \<Rightarrow> CompilerError \<Rightarrow> string" where
  "errorPath w ce = (if IsAbs (ceFile ce) then ceFile ce else PathJoin [TempDir w, ceFile ce])"

definition fileHasCompileErrors :: "string \<Rightarrow> ModuleWorkspace \<Rightarrow> string \<Rightarrow> bool" where
  "fileHasCompileErrors buildOut w srcFile = (case relOf w srcFile of
     None \<Rightarrow> False
   | Some rel \<Rightarrow>
       (let want = Clean (tempPath w rel)
        in list_ex (\<lambda>ce. Clean (errorPath w ce) = want) (ParseCompilerErrors buildOut)))"

definition identifyFailingPackages :: "ModuleWorkspace \<Rightarrow> string \<Rightarrow> string set" where
  "identifyFailingPackages w buildOut = (\<lambda>ce. Dir (errorPath w ce)) ` set (ParseCompilerErrors buildOut)"

text \<open>
  The lines five above and five below an error; \<open>None\<close> where the slice expression
  \<open>lines[lo:hi]\<close> panics.
\<close>

definition errorWindow :: "string list \<Rightarrow> int \<Rightarrow> string list option" where
  "errorWindow ls line =
     (let lo = max 0 (line - 5); hi = min (line + 5) (int (length ls))
      in if lo \<le> hi then Some (take (nat hi - nat lo) (drop (nat lo) ls)) else None)"

fun collectIDs :: "string list \<Rightarrow> int list \<Rightarrow> int list" where
  "collectIDs [] ids = ids"
| "collectIDs (l # ls) ids =
     collectIDs ls (case lineMarker l of
       Some (i, _) \<Rightarrow> if i \<in> set ids then ids else ids @ [i]
     | None \<Rightarrow> ids)"

fun extractLoop :: "Tools \<Rightarrow> ModuleWorkspace \<Rightarrow> disk \<Rightarrow> CompilerError list \<Rightarrow> int list \<Rightarrow> int list option" where
  "extractLoop T w d [] ids = Some ids"
| "extractLoop T w d (ce # ces) ids =
     (case readDisk T d (errorPath w ce) of
        None \<Rightarrow> extractLoop T w d ces ids
      | Some content \<Rightarrow>
          (case errorWindow (splitLines content) (ceLine ce) of
             None \<Rightarrow> None
           | Some ls \<Rightarrow> extractLoop T w d ces (collectIDs ls ids)))"

definition extractMutantIDsFromBuildErrors ::
  "Tools \<Rightarrow> ModuleWorkspace \<Rightarrow> disk \<Rightarrow> string \<Rightarrow> int list option" where
  "extractMutantIDsFromBuildErrors T w d buildOut = extractLoop T w d (ParseCompilerErrors buildOut) []"

subsection \<open>Files after a removal\<close>

definition mutantFile :: "Mutant \<Rightarrow> string" where
  "mutantFile m = sFile (mSite m)"

definition indicesOf :: "string \<Rightarrow> Mutant list \<Rightarrow> nat list" where
  "indicesOf f ms = filter (\<lambda>i. mutantFile (ms ! i) = f) [0..<length ms]"

text \<open>
  The files with a removed mutant. \<open>ord\<close> is the order in which the range over the map
  visits its keys.
\<close>

definition affectedFiles ::
  "(string list \<Rightarrow> string list) \<Rightarrow> int set \<Rightarrow> Mutant list \<Rightarrow> string list" where
  "affectedFiles ord removed ms =
     ord (remdups (map mutantFile (filter (\<lambda>m. mID m \<in> removed \<and> hasFile m) ms)))"

fun reapplyLoop ::
  "Tools \<Rightarrow> ModuleWorkspace \<Rightarrow> string list \<Rightarrow> disk \<Rightarrow> Mutant list \<Rightarrow> string option \<times> disk \<times> Mutant list" where
  "reapplyLoop T w [] d kept = (None, d, kept)"
| "reapplyLoop T w (f # fs) d kept = (case relOf w f of
     None \<Rightarrow> reapplyLoop T w fs d kept
   | Some rel \<Rightarrow>
       (case tRead T f of
          None \<Rightarrow> (Some (''re-read '' @ f), d, kept)
        | Some src \<Rightarrow>
            (case writeFile T (tempPath w rel) src d of
               None \<Rightarrow> (Some (''restore '' @ tempPath w rel), d, kept)
             | Some d1 \<Rightarrow>
                 (let is = indicesOf f kept in
                  if is = [] then reapplyLoop T w fs d1 kept
                  else if \<not> tParses T f src then (Some (''re-parse '' @ f), d1, kept)
                  else (case ApplySchemataToAST T f (tempPath w rel) src (map ((!) kept) is) d1 of
                          None \<Rightarrow> (Some (''re-apply schemata '' @ f), d1, kept)
                        | Some (posMap, d2) \<Rightarrow>
                            reapplyLoop T w fs d2 (updateAt (setTemp posMap) is kept))))))"

definition reapplyAffectedFiles ::
  "Tools \<Rightarrow> ModuleWorkspace \<Rightarrow> (string list \<Rightarrow> string list) \<Rightarrow> int set \<Rightarrow> Mutant list \<Rightarrow> Mutant list \<Rightarrow> disk \<Rightarrow>
   string option \<times> disk \<times> Mutant list" where
  "reapplyAffectedFiles T w ord removed ms kept d =
     (let files = affectedFiles ord removed ms in
      case reapplyLoop T w files d kept of
        (Some err, d1, kept1) \<Rightarrow> (Some err, d1, kept1)
      | (None, d1, kept1) \<Rightarrow>
          (let fileToMutants = map (\<lambda>f. (PathJoin [TempDir w, or_else '''' (relOf w f)],
                 map ((!) kept1) (indicesOf f kept1))) files
           in case InjectSchemataHelpers T fileToMutants d1 of (err, d2) \<Rightarrow> (err, d2, kept1)))"

fun resetLoop ::
  "Tools \<Rightarrow> ModuleWorkspace \<Rightarrow> string set \<Rightarrow> Mutant list \<Rightarrow> string set \<Rightarrow> disk \<Rightarrow> string option \<times> disk" where
  "resetLoop T w pkgs [] done d = (None, d)"
| "resetLoop T w pkgs (m # ms) done d =
     (if \<not> hasFile m then resetLoop T w pkgs ms done d
      else case relOf w (mutantFile m) of
        None \<Rightarrow> resetLoop T w pkgs ms done d
      | Some rel \<Rightarrow>
          if packageOf w rel \<notin> pkgs \<or> tempPath w rel \<in> done then resetLoop T w pkgs ms done d
          else (case tRead T (mutantFile m) of
                  None \<Rightarrow> (Some (''re-read '' @ mutantFile m), d)
                | Some src \<Rightarrow>
                    (case writeFile T (tempPath w rel) src d of
                       None \<Rightarrow> (Some (''restore '' @ tempPath w rel), d)
                     | Some d' \<Rightarrow> resetLoop T w pkgs ms (insert (tempPath w rel) done) d')))"

definition resetMutatedFilesInPkgs ::
  "Tools \<Rightarrow> ModuleWorkspace \<Rightarrow> Mutant list \<Rightarrow> string set \<Rightarrow> disk \<Rightarrow> string option \<times> disk" where
  "resetMutatedFilesInPkgs T w ms pkgs d =
     (if pkgs = {} then (None, d) else resetLoop T w pkgs ms {} d)"

end
