(* ===== verification/Preflight.thy ===== *)
theory Preflight
  imports Disk
begin

text \<open>
  \<open>internal/core/preflight.go\<close>: the three levels that throw out mutants before the copy is
  built. Outside come reading and parsing files, the traversal with the printer (as in
  \<open>Disk\<close>), temporary files, \<open>go build\<close>, loading packages and the type checker, which gets the
  source with the position table, the sibling files, the helper and an importer and answers
  with the errors it reports in order and whether it panicked. A range over a map visits its
  keys in the order \<open>ord\<close> gives; the files of level 3 are checked concurrently there and one
  after the other here. A site always has a node.
\<close>

subsection \<open>Packages and importers\<close>

text \<open>A loaded package: its path, its type information if any, and what it imports.\<close>

datatype 'p package = Package (pkgPath: string) (pkgTypes: "'p option") (pkgImports: "'p package list")

fun collectDeps :: "(string \<rightharpoonup> 'p) \<Rightarrow> 'p package \<Rightarrow> (string \<rightharpoonup> 'p)" where
  "collectDeps deps (Package path info imports) = (case info of
     None \<Rightarrow> deps
   | Some t \<Rightarrow> if deps path \<noteq> None then deps else foldl collectDeps (deps(path \<mapsto> t)) imports)"

record 'p PreTools =
  ptTools :: Tools
  ptParseError :: "string \<Rightarrow> string \<Rightarrow> string option"
  ptPackageName :: "string \<Rightarrow> string option"
  ptTemp :: "int \<Rightarrow> string option"
  ptCombinedTemp :: "string option"
  ptCombinedDir :: bool
  ptBuildDir :: "string \<Rightarrow> string option"
  ptEntries :: "string \<Rightarrow> (string \<times> bool) list"
  ptLoad :: "string \<Rightarrow> 'p package list"
  ptDefault :: "string \<Rightarrow> 'p option"
  ptCheck :: "string \<Rightarrow> string \<Rightarrow> (posKey \<rightharpoonup> MutantForSite list) \<Rightarrow> (string \<times> string) list \<Rightarrow>
    string \<Rightarrow> string \<Rightarrow> (string \<Rightarrow> 'p option) \<Rightarrow> string list \<times> bool"

definition loadPackageDeps :: "'p PreTools \<Rightarrow> string \<Rightarrow> (string \<rightharpoonup> 'p)" where
  "loadPackageDeps T pkgDir = foldl collectDeps Map.empty (ptLoad T pkgDir)"

definition importPackage :: "(string \<Rightarrow> 'p option) \<Rightarrow> (string \<rightharpoonup> 'p) \<Rightarrow> string \<Rightarrow> 'p option" where
  "importPackage fallback deps path = (case deps path of Some p \<Rightarrow> Some p | None \<Rightarrow> fallback path)"

text \<open>The cache of loaded directories.\<close>

type_synonym 'p pkgImportCache = "string \<rightharpoonup> (string \<rightharpoonup> 'p)"

definition importerFor ::
  "'p PreTools \<Rightarrow> 'p pkgImportCache \<Rightarrow> string \<Rightarrow> (string \<Rightarrow> 'p option) \<times> 'p pkgImportCache" where
  "importerFor T c pkgDir = (case c pkgDir of
     Some deps \<Rightarrow> (importPackage (ptDefault T) deps, c)
   | None \<Rightarrow> (let deps = loadPackageDeps T pkgDir
       in (importPackage (ptDefault T) deps, c(pkgDir \<mapsto> deps))))"

subsection \<open>Level 1\<close>

record PreflightResult =
  prID :: int
  prStatus :: string
  prError :: "string option"
  prReason :: string

definition StatusCompileError :: string where "StatusCompileError = ''error''"

definition rejected :: "string \<Rightarrow> string \<Rightarrow> Mutant \<Rightarrow> PreflightResult" where
  "rejected status reason m = \<lparr>prID = mID m, prStatus = status, prError = None, prReason = reason\<rparr>"

definition isObviouslyUnsafeMutation :: "Mutant \<Rightarrow> bool" where
  "isObviouslyUnsafeMutation m =
     (if \<not> hasFile m then True
      else case AlwaysInvalid (mOperator m) of
        Some f \<Rightarrow> f (sReturnType (mSite m)) | None \<Rightarrow> False)"

definition staticReason :: "Mutant \<Rightarrow> string option" where
  "staticReason m =
     (if \<not> hasFile m then Some ''nil file''
      else if isObviouslyUnsafeMutation m then Some ''obviously unsafe mutation'' else None)"

definition quickStaticFilter :: "Mutant list \<Rightarrow> Mutant list \<times> PreflightResult list" where
  "quickStaticFilter ms =
     (filter (\<lambda>m. staticReason m = None) ms,
      List.map_filter (\<lambda>m. map_option (\<lambda>why. rejected StatusInvalid why m) (staticReason m)) ms)"

subsection \<open>Level 2\<close>

datatype applied = ApplyFailed string | Unformattable | Applied "int \<rightharpoonup> PositionMapping"

text \<open>\<open>ApplySchemataToAST\<close> into a temporary file, told apart by what the callers test.\<close>

definition applyInTemp :: "'p PreTools \<Rightarrow> string \<Rightarrow> string \<Rightarrow> string \<Rightarrow> Mutant list \<Rightarrow> applied" where
  "applyInTemp T filePath tmp src ms =
     (let text = or_else '''' (tRender (ptTools T) filePath src (buildPositionToMutantsMap ms)) in
      if text = '''' then Unformattable
      else if \<not> tWritable (ptTools T) tmp then ApplyFailed ''write failed''
      else Applied (findMutantPositionsInBytes text (extractMutantIDs ms)
                      (buildPositionMapping ms (tPosition (ptTools T) filePath))))"

definition checkOne :: "'p PreTools \<Rightarrow> string \<Rightarrow> string \<Rightarrow> Mutant \<Rightarrow> PreflightResult + Mutant" where
  "checkOne T filePath src m = (case ptParseError T filePath src of
     Some err \<Rightarrow> Inl (rejected StatusCompileError (''parse error: '' @ err) m)
   | None \<Rightarrow> (case ptTemp T (mID m) of
       None \<Rightarrow> Inl (rejected StatusCompileError ''cannot create temp file for preflight'' m)
     | Some tmp \<Rightarrow> (case applyInTemp T filePath tmp src [m] of
         ApplyFailed err \<Rightarrow> Inl (rejected StatusCompileError (''schemata apply failed: '' @ err) m)
       | Unformattable \<Rightarrow> Inl (rejected StatusCompileError ''schemata produced an un-formattable AST'' m)
       | Applied posMap \<Rightarrow> Inr (setTemp posMap m))))"

definition checkCombinedFileWithSchemata ::
  "'p PreTools \<Rightarrow> string \<Rightarrow> string \<Rightarrow> Mutant list \<Rightarrow> int list \<times> string" where
  "checkCombinedFileWithSchemata T filePath src ms =
     (if length ms < 2 then ([], '''')
      else if ptParseError T filePath src \<noteq> None then ([], '''')
      else case ptCombinedTemp T of
        None \<Rightarrow> ([], '''')
      | Some tmp \<Rightarrow> (case applyInTemp T filePath tmp src ms of
          ApplyFailed err \<Rightarrow> (map mID ms, ''combined schemata apply failed'')
        | _ \<Rightarrow>
            if \<not> ptCombinedDir T then ([], '''')
            else (case ptBuildDir T (Dir filePath) of
              Some out \<Rightarrow> (map mID ms, out)
            | None \<Rightarrow> ([], ''''))))"

text \<open>The loop over the rejected ids: the first valid mutant with the id is marked.\<close>

fun rejectLoop :: "string \<Rightarrow> int list \<Rightarrow> Mutant list \<Rightarrow> PreflightResult list \<Rightarrow> Mutant list \<times> PreflightResult list" where
  "rejectLoop reason [] valid invalid = (valid, invalid)"
| "rejectLoop reason (b # bs) valid invalid =
     (let i = length (takeWhile (\<lambda>m. mID m \<noteq> b) valid) in
      if i < length valid then
        rejectLoop reason bs (valid[i := (valid ! i)\<lparr>mStatus := StatusCompileError\<rparr>])
          (invalid @ [rejected StatusCompileError (''combined schemata conflict: '' @ reason) (valid ! i)])
      else rejectLoop reason bs valid invalid)"

definition makeAllInvalid :: "Mutant list \<Rightarrow> string \<Rightarrow> Mutant list \<times> PreflightResult list" where
  "makeAllInvalid ms reason = ([], map (rejected StatusCompileError reason) ms)"

definition checkFileWithSchemata ::
  "'p PreTools \<Rightarrow> string \<Rightarrow> Mutant list \<Rightarrow> Mutant list \<times> PreflightResult list" where
  "checkFileWithSchemata T filePath ms =
     (if ms = [] then ([], [])
      else case tRead (ptTools T) filePath of
        None \<Rightarrow> makeAllInvalid ms ''cannot read source file''
      | Some src \<Rightarrow>
          (let checked = map (checkOne T filePath src) ms;
               valid = List.map_filter (case_sum (\<lambda>r. None) Some) checked;
               invalid = List.map_filter (case_sum Some (\<lambda>m. None)) checked
           in if 1 < length valid then
                (case checkCombinedFileWithSchemata T filePath src valid of (bad, reason) \<Rightarrow>
                   if bad \<noteq> [] then
                     (case rejectLoop reason bad valid invalid of (valid1, invalid1) \<Rightarrow>
                        (filter (\<lambda>m. mStatus m \<noteq> StatusCompileError) valid1, invalid1))
                   else (valid, invalid))
              else (valid, invalid)))"

definition groupOf :: "Mutant list \<Rightarrow> string \<Rightarrow> Mutant list" where
  "groupOf ms f = filter (\<lambda>m. hasFile m \<and> mutantFile m = f) ms"

definition fileKeys :: "Mutant list \<Rightarrow> string list" where
  "fileKeys ms = remdups (map mutantFile (filter hasFile ms))"

definition level2PackagePreflight ::
  "'p PreTools \<Rightarrow> (string list \<Rightarrow> string list) \<Rightarrow> Mutant list \<Rightarrow> Mutant list \<times> PreflightResult list" where
  "level2PackagePreflight T ord ms =
     (let out = map (\<lambda>f. checkFileWithSchemata T f (groupOf ms f)) (ord (fileKeys ms))
      in (concat (map fst out),
          map (rejected StatusInvalid ''nil file'') (filter (\<lambda>m. \<not> hasFile m) ms) @ concat (map snd out)))"


subsection \<open>Level 3\<close>

definition loadSiblingFiles :: "'p PreTools \<Rightarrow> string \<Rightarrow> string \<Rightarrow> (string \<times> string) list" where
  "loadSiblingFiles T pkgDir excludePath = List.map_filter (\<lambda>(name, isDir).
     if isDir \<or> \<not> HasSuffix name ''.go'' \<or> HasSuffix name ''_test.go'' then None
     else let p = PathJoin [pkgDir, name] in
       if p = excludePath then None else map_option (Pair p) (tRead (ptTools T) p))
     (ptEntries T pkgDir)"

definition parsePackageName :: "'p PreTools \<Rightarrow> string \<Rightarrow> string \<Rightarrow> string" where
  "parsePackageName T src filePath = (case ptPackageName T src of
     None \<Rightarrow> Base (Dir filePath) | Some name \<Rightarrow> name)"

text \<open>The helper the checker sees; it lacks the marker line of the one written to disk.\<close>

definition schemataHelper :: "string \<Rightarrow> string" where
  "schemataHelper pkgName = ''package '' @ pkgName @ Join ['''', '''', ''import ('',
     [CHR 0x09, CHR 0x22] @ ''os'' @ [CHR 0x22],
     [CHR 0x09, CHR 0x22] @ ''strconv'' @ [CHR 0x22], '')'', '''', ''var activeMutantID int'', '''',
     ''func init() {'',
     CHR 0x09 # ''if idStr := os.Getenv('' @ [CHR 0x22] @ ''GORGON_MUTANT_ID'' @ [CHR 0x22] @ ''); idStr != '' @ [CHR 0x22, CHR 0x22] @ '' {'',
     [CHR 0x09, CHR 0x09] @ ''activeMutantID, _ = strconv.Atoi(idStr)'', CHR 0x09 # ''}'', ''}'', '''']
     [CHR 0x0A]"

definition typeErrorMessage :: "string \<Rightarrow> string" where
  "typeErrorMessage s = (case Index s '': '' of Some i \<Rightarrow> drop (i + 2) s | None \<Rightarrow> s)"

text \<open>The surroundings of a check, which are the same for all mutants of a file.\<close>

record 'p surroundings =
  suSiblings :: "(string \<times> string) list"
  suHelper :: string
  suDir :: string
  suImporter :: "string \<Rightarrow> 'p option"

definition checkErrors ::
  "'p PreTools \<Rightarrow> 'p surroundings \<Rightarrow> string \<Rightarrow> string \<Rightarrow> Mutant list \<Rightarrow> string list \<times> bool" where
  "checkErrors T s filePath src ms =
     ptCheck T filePath src (buildPositionToMutantsMap ms) (suSiblings s) (suHelper s) (suDir s) (suImporter s)"

text \<open>
  The messages of the unmodified package with their numbers. A panic of the checker here is
  not recovered by the code and left out.
\<close>

definition computeBaselineErrors ::
  "'p PreTools \<Rightarrow> 'p surroundings \<Rightarrow> string \<Rightarrow> string \<Rightarrow> string \<Rightarrow> nat" where
  "computeBaselineErrors T s filePath src =
     (if ptParseError T filePath src \<noteq> None then (\<lambda>_. 0)
      else count_list (map typeErrorMessage (fst (checkErrors T s filePath src []))))"

fun beyondBudget :: "(string \<Rightarrow> nat) \<Rightarrow> string list \<Rightarrow> string list" where
  "beyondBudget budget [] = []"
| "beyondBudget budget (e # es) =
     (let msg = typeErrorMessage e in
      if 0 < budget msg then beyondBudget (budget(msg := budget msg - 1)) es
      else e # beyondBudget budget es)"

definition runTypeCheck ::
  "'p PreTools \<Rightarrow> 'p surroundings \<Rightarrow> (string \<Rightarrow> nat) \<Rightarrow> string \<Rightarrow> string \<Rightarrow> Mutant list \<Rightarrow> string list \<times> bool" where
  "runTypeCheck T s baseline filePath src ms = (case ptParseError T filePath src of
     Some err \<Rightarrow> ([''schemata: '' @ err], False)
   | None \<Rightarrow> (case checkErrors T s filePath src ms of
       (errs, panicked) \<Rightarrow> if panicked then ([], True) else (beyondBudget baseline errs, False)))"

definition panicReason :: string where
  "panicReason = ''type check: go/types panicked on schemata-generated AST (malformed IIFE return type)''"

text \<open>The bisection over a check: its errors and whether it panicked.\<close>

definition fails :: "(Mutant list \<Rightarrow> string list \<times> bool) \<Rightarrow> Mutant list \<Rightarrow> bool" where
  "fails chk ms \<longleftrightarrow> snd (chk ms) \<or> fst (chk ms) \<noteq> []"

definition singleReason :: "string list \<times> bool \<Rightarrow> string" where
  "singleReason r = (if snd r then panicReason else ''type check: '' @ hd (fst r))"

function bisectMutants ::
  "(Mutant list \<Rightarrow> string list \<times> bool) \<Rightarrow> Mutant list \<Rightarrow> Mutant list \<times> PreflightResult list" where
  "bisectMutants chk ms =
     (if ms = [] then ([], [])
      else if length ms = 1 then
        (if fails chk ms then ([], [rejected StatusCompileError (singleReason (chk ms)) (hd ms)])
         else (ms, []))
      else
        (let left = take (length ms div 2) ms;
             right = drop (length ms div 2) ms;
             l = (if fails chk left then bisectMutants chk left else (left, []));
             r = (if fails chk right then bisectMutants chk right else (right, []))
         in (fst l @ fst r, snd l @ snd r)))"
  by pat_completeness auto
termination
proof (relation "measure (length \<circ> snd)", goal_cases)
  case 1
  show ?case by simp
next
  case (2 chk ms x y)
  then show ?case using halves_shorter(1) [of ms] by simp
next
  case (3 chk ms x y)
  then show ?case using halves_shorter(2) [of ms] by simp
qed

declare bisectMutants.simps [simp del]

definition fileCheck ::
  "'p PreTools \<Rightarrow> string \<Rightarrow> string \<Rightarrow> (string \<Rightarrow> 'p option) \<Rightarrow> Mutant list \<Rightarrow> string list \<times> bool" where
  "fileCheck T filePath src imp =
     (let s = \<lparr>suSiblings = loadSiblingFiles T (Dir filePath) filePath,
               suHelper = schemataHelper (parsePackageName T src filePath),
               suDir = Dir filePath, suImporter = imp\<rparr>
      in runTypeCheck T s (computeBaselineErrors T s filePath src) filePath src)"

definition typeCheckFileGroup ::
  "'p PreTools \<Rightarrow> string \<Rightarrow> Mutant list \<Rightarrow> 'p pkgImportCache \<Rightarrow>
   (Mutant list \<times> PreflightResult list) \<times> 'p pkgImportCache" where
  "typeCheckFileGroup T filePath ms cache = (case tRead (ptTools T) filePath of
     None \<Rightarrow> ((ms, []), cache)
   | Some src \<Rightarrow>
       (case importerFor T cache (Dir filePath) of (imp, cache1) \<Rightarrow>
         (let chk = fileCheck T filePath src imp
          in (if fails chk ms then bisectMutants chk ms else (ms, []), cache1))))"

fun level3Loop ::
  "'p PreTools \<Rightarrow> Mutant list \<Rightarrow> string list \<Rightarrow> 'p pkgImportCache \<Rightarrow> Mutant list \<times> PreflightResult list" where
  "level3Loop T ms [] cache = ([], [])"
| "level3Loop T ms (f # fs) cache =
     (case typeCheckFileGroup T f (groupOf ms f) cache of ((v, bad), cache1) \<Rightarrow>
       (case level3Loop T ms fs cache1 of (vs, bads) \<Rightarrow> (v @ vs, bad @ bads)))"

definition level3TypeCheckPreflight ::
  "'p PreTools \<Rightarrow> (string list \<Rightarrow> string list) \<Rightarrow> Mutant list \<Rightarrow> Mutant list \<times> PreflightResult list" where
  "level3TypeCheckPreflight T ord ms = level3Loop T ms (ord (fileKeys ms)) Map.empty"

subsection \<open>All levels\<close>

definition RunPreflight ::
  "'p PreTools \<Rightarrow> (string list \<Rightarrow> string list) \<Rightarrow> Mutant list \<Rightarrow> Mutant list \<times> PreflightResult list" where
  "RunPreflight T ord ms =
     (case quickStaticFilter ms of (v1, i1) \<Rightarrow>
        if v1 = [] then ([], i1)
        else case level2PackagePreflight T ord v1 of (v2, i2) \<Rightarrow>
          if v2 = [] then ([], i1 @ i2)
          else case level3TypeCheckPreflight T ord v2 of (v3, i3) \<Rightarrow> (v3, i1 @ i2 @ i3))"

text \<open>The two numbers of the summary line: rejected as invalid and as compile errors.\<close>

definition LogPreflightResults :: "PreflightResult list \<Rightarrow> nat \<times> nat" where
  "LogPreflightResults rs =
     (length (filter (\<lambda>r. prStatus r = StatusInvalid) rs),
      length (filter (\<lambda>r. prStatus r = StatusCompileError) rs))"

end
