(* ===== verification/PreflightProps.thy ===== *)
theory PreflightProps
  imports Preflight
begin

text \<open>
  The laws of the preflight: no mutant is lost or doubled, the bisection rejects exactly the
  mutants that fail alone, errors of the unmodified package are subtracted, the cache of
  imports does not show, and what the combined check really builds.
\<close>

subsection \<open>Conservation\<close>

definition census_of :: "Mutant list \<times> PreflightResult list \<Rightarrow> int multiset" where
  "census_of r = mset (map mID (fst r)) + mset (map prID (snd r))"

lemma census_append: "census_of (a @ c, b @ d) = census_of (a, b) + census_of (c, d)"
  by (simp add: census_of_def)

lemma census_more: "census_of (v, i @ j) = mset (map prID i) + census_of (v, j)"
  by (simp add: census_of_def)

lemma rejected_id [simp]: "prID (rejected s why m) = mID m"
  by (simp add: rejected_def)

lemma rejected_ids [simp]: "map (prID \<circ> rejected s why) ms = map mID ms"
  by simp

lemma filter_map_ids:
  "mset (map mID (filter (\<lambda>m. f m = None) ms))
     + mset (map prID (List.map_filter (\<lambda>m. map_option (\<lambda>why. rejected s why m) (f m)) ms))
   = mset (map mID ms)"
  by (induction ms) (auto simp: map_filter_simps split: option.split)

lemma static_census: "census_of (quickStaticFilter ms) = mset (map mID ms)"
  unfolding census_of_def quickStaticFilter_def fst_conv snd_conv by (rule filter_map_ids)

lemma static_hasFile: "m \<in> set (fst (quickStaticFilter ms)) \<Longrightarrow> m \<in> set ms \<and> hasFile m"
  by (auto simp: quickStaticFilter_def staticReason_def split: if_splits)

definition marked :: "Mutant \<Rightarrow> Mutant" where
  "marked m = m\<lparr>mStatus := StatusCompileError\<rparr>"

lemma marked_id [simp]: "mID (marked m) = mID m"
  by (simp add: marked_def)

lemma takeWhile_ids:
  assumes "mID m \<notin> mID ` set pre"
  shows "takeWhile (\<lambda>x. mID x \<noteq> mID m) (map marked pre @ m # suf) = map marked pre"
  using assms by (induction pre) auto

lemma rejectLoop_all:
  "distinct (map mID (pre @ suf)) \<Longrightarrow>
   rejectLoop reason (map mID suf) (map marked pre @ suf) invalid
     = (map marked (pre @ suf),
        invalid @ map (rejected StatusCompileError (''combined schemata conflict: '' @ reason)) suf)"
proof (induction suf arbitrary: pre invalid)
  case (Cons m suf)
  have i: "takeWhile (\<lambda>x. mID x \<noteq> mID m) (map marked pre @ m # suf) = map marked pre"
    using Cons.prems by (intro takeWhile_ids) auto
  have u: "(map marked pre @ m # suf)[length pre := m\<lparr>mStatus := StatusCompileError\<rparr>]
     = map marked (pre @ [m]) @ suf"
    by (simp add: list_update_append marked_def)
  have "distinct (map mID ((pre @ [m]) @ suf))" using Cons.prems by simp
  from Cons.IH [OF this, of "invalid @ [rejected StatusCompileError (''combined schemata conflict: '' @ reason) m]"]
  show ?case by (simp add: Let_def i u [unfolded append_Cons] nth_append)
qed simp

definition passing :: "'p PreTools \<Rightarrow> string \<Rightarrow> string \<Rightarrow> Mutant list \<Rightarrow> Mutant list" where
  "passing T f src ms = List.map_filter (case_sum (\<lambda>r. None) Some) (map (checkOne T f src) ms)"

definition failing :: "'p PreTools \<Rightarrow> string \<Rightarrow> string \<Rightarrow> Mutant list \<Rightarrow> PreflightResult list" where
  "failing T f src ms = List.map_filter (case_sum Some (\<lambda>m. None)) (map (checkOne T f src) ms)"

lemma checkFile_run:
  assumes "tRead (ptTools T) f = Some src" "ms \<noteq> []"
  shows "checkFileWithSchemata T f ms =
     (let bad = checkCombinedFileWithSchemata T f src (passing T f src ms);
          after = rejectLoop (snd bad) (fst bad) (passing T f src ms) (failing T f src ms)
      in if 1 < length (passing T f src ms) \<and> fst bad \<noteq> []
         then (filter (\<lambda>m. mStatus m \<noteq> StatusCompileError) (fst after), snd after)
         else (passing T f src ms, failing T f src ms))"
  using assms by (simp add: checkFileWithSchemata_def Let_def passing_def failing_def split: prod.split)

lemma checkOne_split: "census_of (passing T f src ms, failing T f src ms) = mset (map mID ms)"
proof (induction ms)
  case (Cons m ms)
  have "case_sum prID mID (checkOne T f src m) = mID m"
    by (auto simp: checkOne_def setTemp_def split: option.split applied.split)
  with Cons show ?case
    by (cases "checkOne T f src m") (auto simp: census_of_def map_filter_simps passing_def failing_def)
qed (simp add: census_of_def map_filter_simps passing_def failing_def)

lemma combined_all:
  "fst (checkCombinedFileWithSchemata T f src ms) = [] \<or>
   fst (checkCombinedFileWithSchemata T f src ms) = map mID ms"
  by (auto simp: checkCombinedFileWithSchemata_def split: option.split applied.split)

lemma census_distinct:
  assumes "census_of r = mset (map mID ms)" "distinct (map mID ms)"
  shows "distinct (map mID (fst r))"
proof -
  have "mset (map mID (fst r) @ map prID (snd r)) = mset (map mID ms)"
    using assms(1) by (simp add: census_of_def)
  with assms(2) have "distinct (map mID (fst r) @ map prID (snd r))"
    using mset_eq_imp_distinct_iff by blast
  then show ?thesis by simp
qed

lemma checkFile_census:
  assumes "distinct (map mID ms)"
  shows "census_of (checkFileWithSchemata T f ms) = mset (map mID ms)"
proof (cases "ms = [] \<or> tRead (ptTools T) f = None")
  case True
  then show ?thesis
    by (auto simp: checkFileWithSchemata_def census_of_def makeAllInvalid_def multiset.map_comp comp_def)
next
  case False
  then obtain src where src: "tRead (ptTools T) f = Some src" "ms \<noteq> []" by auto
  let ?valid = "passing T f src ms" and ?invalid = "failing T f src ms"
  let ?bad = "checkCombinedFileWithSchemata T f src ?valid"
  note run = checkFile_run [OF src]
  have c: "census_of (?valid, ?invalid) = mset (map mID ms)" by (rule checkOne_split)
  show ?thesis
  proof (cases "1 < length ?valid \<and> fst ?bad \<noteq> []")
    case True
    then have b: "fst ?bad = map mID ?valid" using combined_all by blast
    have "distinct (map mID ([] @ ?valid))" using census_distinct [OF c assms] by simp
    from rejectLoop_all [OF this, of "snd ?bad" "?invalid"] True
    have "checkFileWithSchemata T f ms = (filter (\<lambda>m. mStatus m \<noteq> StatusCompileError) (map marked ?valid),
       ?invalid @ map (rejected StatusCompileError (''combined schemata conflict: '' @ snd ?bad)) ?valid)"
      by (simp add: run Let_def b)
    moreover have "filter (\<lambda>m. mStatus m \<noteq> StatusCompileError) (map marked ?valid) = []"
      by (simp add: filter_empty_conv marked_def)
    ultimately show ?thesis using c by (simp add: census_of_def multiset.map_comp comp_def add.commute)
  next
    case False
    then show ?thesis unfolding run Let_def by (simp only: if_False c)
  qed
qed

text \<open>Grouping by file splits the mutants that have one.\<close>

lemma groups_census:
  assumes "mset fs = mset (fileKeys ms)"
  shows "(\<Sum>f \<leftarrow> fs. mset (map mID (groupOf ms f))) = mset (map mID (filter hasFile ms))"
proof -
  have split: "distinct fs \<Longrightarrow>
     (\<Sum>f \<leftarrow> fs. mset (map mID (groupOf ms f))) = mset (map mID (filter (\<lambda>m. hasFile m \<and> mutantFile m \<in> set fs) ms))" for fs
  proof (induction fs)
    case (Cons f fs)
    have "mset (map mID (groupOf ms f)) + mset (map mID (filter (\<lambda>m. hasFile m \<and> mutantFile m \<in> set fs) ms))
       = mset (map mID (filter (\<lambda>m. hasFile m \<and> mutantFile m \<in> set (f # fs)) ms))"
      using Cons.prems by (induction ms) (auto simp: groupOf_def)
    with Cons show ?case by simp
  qed simp
  have "distinct fs" using assms by (metis fileKeys_def distinct_remdups mset_eq_imp_distinct_iff)
  moreover have "filter (\<lambda>m. hasFile m \<and> mutantFile m \<in> set fs) ms = filter hasFile ms"
    using mset_eq_setD [OF assms] by (intro filter_cong) (auto simp: fileKeys_def)
  ultimately show ?thesis by (simp only: split)
qed

lemma nofile_split:
  "mset (map mID (filter (\<lambda>m. \<not> hasFile m) ms)) + mset (map mID (filter hasFile ms)) = mset (map mID ms)"
  by (induction ms) auto

lemma groupOf_distinct: "distinct (map mID ms) \<Longrightarrow> distinct (map mID (groupOf ms f))"
  by (simp add: groupOf_def distinct_map_filter)

lemma census_concat:
  "census_of (concat (map fst rs), concat (map snd rs)) = (\<Sum>r \<leftarrow> rs. census_of r)"
  by (induction rs) (auto simp: census_of_def)

lemma level2_census:
  assumes "distinct (map mID ms)" "\<And>fs. mset (ord fs) = mset fs"
  shows "census_of (level2PackagePreflight T ord ms) = mset (map mID ms)"
proof -
  let ?out = "map (\<lambda>f. checkFileWithSchemata T f (groupOf ms f)) (ord (fileKeys ms))"
  have "census_of (concat (map fst ?out), concat (map snd ?out))
      = (\<Sum>f \<leftarrow> ord (fileKeys ms). mset (map mID (groupOf ms f)))"
    unfolding census_concat using checkFile_census [OF groupOf_distinct [OF assms(1)], of T]
    by (simp add: comp_def del: mset_map)
  also have "\<dots> = mset (map mID (filter hasFile ms))" by (rule groups_census) (rule assms(2))
  finally show ?thesis
    using nofile_split [of ms]
    by (simp add: level2PackagePreflight_def Let_def census_more multiset.map_comp comp_def)
qed

subsection \<open>Bisection\<close>

lemma bisect_short:
  "bisectMutants chk [] = ([], [])"
  "bisectMutants chk [m] =
     (if fails chk [m] then ([], [rejected StatusCompileError (singleReason (chk [m])) m]) else ([m], []))"
  by (simp_all add: bisectMutants.simps)

definition half :: "(Mutant list \<Rightarrow> string list \<times> bool) \<Rightarrow> Mutant list \<Rightarrow> Mutant list \<times> PreflightResult list" where
  "half chk ms = (if fails chk ms then bisectMutants chk ms else (ms, []))"

lemma bisect_long:
  assumes "ms \<noteq> []" "length ms \<noteq> 1"
  shows "bisectMutants chk ms =
    (fst (half chk (take (length ms div 2) ms)) @ fst (half chk (drop (length ms div 2) ms)),
     snd (half chk (take (length ms div 2) ms)) @ snd (half chk (drop (length ms div 2) ms)))"
  using assms by (simp add: bisectMutants.simps [of chk ms] half_def Let_def)

lemma bisect_induct [case_names empty single split]:
  assumes "P []" "\<And>m. P [m]"
    "\<And>ms. \<lbrakk>ms \<noteq> []; length ms \<noteq> 1; P (take (length ms div 2) ms); P (drop (length ms div 2) ms)\<rbrakk> \<Longrightarrow> P ms"
  shows "P (ms :: 'a list)"
proof (induction "length ms" arbitrary: ms rule: less_induct)
  case less
  show ?case
  proof (cases "ms = [] \<or> length ms = 1")
    case True
    with assms(1,2) show ?thesis by (auto simp: length_Suc_conv)
  next
    case False
    then have "ms \<noteq> []" "length ms \<noteq> 1" by auto
    note h = halves_shorter [OF this]
    from assms(3) [OF \<open>ms \<noteq> []\<close> \<open>length ms \<noteq> 1\<close> less [OF h(1)] less [OF h(2)]] show ?thesis .
  qed
qed

lemma half_census:
  "census_of (bisectMutants chk ms) = mset (map mID ms) \<Longrightarrow> census_of (half chk ms) = mset (map mID ms)"
  by (simp add: half_def census_of_def)

lemma bisect_census: "census_of (bisectMutants chk ms) = mset (map mID ms)"
proof (induction ms rule: bisect_induct)
  case (split ms)
  let ?l = "half chk (take (length ms div 2) ms)" and ?r = "half chk (drop (length ms div 2) ms)"
  have "census_of (bisectMutants chk ms) = census_of ?l + census_of ?r"
    using split(1,2) by (simp add: bisect_long census_of_def)
  also have "\<dots> = mset (map mID (take (length ms div 2) ms)) + mset (map mID (drop (length ms div 2) ms))"
    by (simp only: half_census [OF split(3)] half_census [OF split(4)])
  also have "\<dots> = mset (map mID (take (length ms div 2) ms @ drop (length ms div 2) ms))"
    by (simp del: append_take_drop_id)
  finally show ?case by simp
qed (simp_all add: bisect_short census_of_def)

lemma fileGroup_shape:
  "(\<exists>chk. fst (typeCheckFileGroup T f ms c) = bisectMutants chk ms) \<or>
   fst (typeCheckFileGroup T f ms c) = (ms, [])"
  by (auto simp: typeCheckFileGroup_def Let_def split: option.split prod.split)

lemma fileGroup_census: "census_of (fst (typeCheckFileGroup T f ms c)) = mset (map mID ms)"
  using fileGroup_shape [of T f ms c] bisect_census [of _ ms] by (auto simp: census_of_def)

lemma level3_census:
  "census_of (level3Loop T ms fs c) = (\<Sum>f \<leftarrow> fs. mset (map mID (groupOf ms f)))"
proof (induction fs arbitrary: c)
  case (Cons f fs)
  obtain v bad c1 where r: "typeCheckFileGroup T f (groupOf ms f) c = ((v, bad), c1)"
    by (metis prod.exhaust)
  have "census_of (v, bad) = mset (map mID (groupOf ms f))"
    using fileGroup_census [of T f "groupOf ms f" c] by (simp add: r)
  with Cons.IH [of c1] r show ?case
    by (cases "level3Loop T ms fs c1") (simp add: census_append del: mset_map)
qed (simp add: census_of_def)

lemma bisect_kept: "set (fst (bisectMutants chk ms)) \<subseteq> set ms"
proof (induction ms rule: bisect_induct)
  case (split ms)
  have "set (fst (half chk xs)) \<subseteq> set xs" if "set (fst (bisectMutants chk xs)) \<subseteq> set xs" for xs
    using that by (simp add: half_def)
  from this [OF split(3)] this [OF split(4)] split(1,2)
  show ?case by (auto simp: bisect_long dest: in_set_takeD in_set_dropD)
qed (simp_all add: bisect_short)

text \<open>What level 2 keeps has the sites it was given.\<close>

lemma rejectLoop_sites: "map mSite (fst (rejectLoop reason bs valid invalid)) = map mSite valid"
proof (induction reason bs valid invalid rule: rejectLoop.induct)
  case (2 reason b bs valid invalid)
  let ?i = "length (takeWhile (\<lambda>m. mID m \<noteq> b) valid)"
  have "map mSite (valid[?i := (valid ! ?i)\<lparr>mStatus := StatusCompileError\<rparr>]) = map mSite valid"
    if "?i < length valid"
    using that by (simp add: map_update list_update_same_conv)
  with 2 show ?case by (simp add: Let_def)
qed simp

lemma checkOne_site: "checkOne T f src m = Inr n \<Longrightarrow> mSite n = mSite m"
  by (auto simp: checkOne_def setTemp_def split: option.splits applied.splits)

lemma passing_sites: "mSite ` set (passing T f src ms) \<subseteq> mSite ` set ms"
proof (induction ms)
  case (Cons m ms)
  then show ?case
    by (cases "checkOne T f src m") (auto simp: map_filter_simps passing_def dest: checkOne_site)
qed (simp add: map_filter_simps passing_def)

lemma checkFile_sites: "mSite ` set (fst (checkFileWithSchemata T f ms)) \<subseteq> mSite ` set ms"
proof (cases "ms = [] \<or> tRead (ptTools T) f = None")
  case True
  then show ?thesis by (auto simp: checkFileWithSchemata_def makeAllInvalid_def)
next
  case False
  then obtain src where src: "tRead (ptTools T) f = Some src" "ms \<noteq> []" by auto
  have "mSite ` set (fst (rejectLoop reason bad (passing T f src ms) i)) \<subseteq> mSite ` set ms" for reason bad i
    using arg_cong [OF rejectLoop_sites, of set reason bad "passing T f src ms" i] passing_sites [of T f src ms]
    by simp
  then have "mSite ` set (filter P (fst (rejectLoop reason bad (passing T f src ms) i))) \<subseteq> mSite ` set ms" for reason bad i P
    by fastforce
  then show ?thesis
    unfolding checkFile_run [OF src] Let_def using passing_sites [of T f src ms] by simp
qed

lemma level2_hasFile:
  assumes "\<And>fs. mset (ord fs) = mset fs" "m \<in> set (fst (level2PackagePreflight T ord ms))"
  shows "hasFile m"
proof -
  from assms(2) obtain f where "m \<in> set (fst (checkFileWithSchemata T f (groupOf ms f)))"
    by (auto simp: level2PackagePreflight_def Let_def)
  then have "mSite m \<in> mSite ` set (groupOf ms f)" using checkFile_sites [of T f "groupOf ms f"] by blast
  then obtain n where "n \<in> set (groupOf ms f)" "mSite m = mSite n" by auto
  then show ?thesis by (auto simp: groupOf_def hasFile_def)
qed

lemma preflight_census:
  assumes "distinct (map mID ms)" "\<And>fs. mset (ord fs) = mset fs"
  shows "census_of (RunPreflight T ord ms) = mset (map mID ms)"
proof -
  obtain v1 i1 where q: "quickStaticFilter ms = (v1, i1)" by fastforce
  obtain v2 i2 where l2: "level2PackagePreflight T ord v1 = (v2, i2)" by fastforce
  obtain v3 i3 where l3: "level3TypeCheckPreflight T ord v2 = (v3, i3)" by fastforce
  have c1: "census_of (v1, i1) = mset (map mID ms)" using static_census [of ms] by (simp add: q)
  have "distinct (map mID v1)" using census_distinct [OF c1 assms(1)] by simp
  from level2_census [OF this assms(2), of T] have c2: "census_of (v2, i2) = mset (map mID v1)" by (simp add: l2)
  have f: "filter hasFile v2 = v2"
    using level2_hasFile [OF assms(2), of _ T v1] by (simp add: l2 filter_id_conv)
  have c3: "census_of (v3, i3) = mset (map mID v2)"
    using level3_census [of T v2 "ord (fileKeys v2)" Map.empty] groups_census [OF assms(2)] f l3
    by (simp add: level3TypeCheckPreflight_def del: mset_map)
  have e2: "census_of (v2, i1 @ i2) = mset (map mID ms)"
    unfolding census_more c2 using c1 by (simp add: census_of_def add.commute)
  have "census_of (v3, i1 @ i2 @ i3) = mset (map prID i1) + (mset (map prID i2) + mset (map mID v2))"
    by (simp only: census_more c3)
  also have "\<dots> = census_of (v2, i1 @ i2)"
    by (simp only: census_more) (simp add: census_of_def add.commute)
  finally have e3: "census_of (v3, i1 @ i2 @ i3) = mset (map mID ms)" by (simp only: e2)
  show ?thesis
    using c1 e2 e3 by (cases "v1 = []"; cases "v2 = []") (simp_all add: RunPreflight_def q l2 l3)
qed

text \<open>
  C12. The preflight loses no mutant and doubles none: in whatever order files are visited,
  the ids of the mutants that pass together with the ids of the rejected ones are exactly the
  ids it was given.
\<close>

theorem preflight_conserves_mutants:
  assumes "distinct (map mID ms)" "\<And>fs. mset (ord fs) = mset fs"
  shows "mset (map mID (fst (RunPreflight T ord ms))) + mset (map prID (snd (RunPreflight T ord ms)))
       = mset (map mID ms)"
  using preflight_census [OF assms] by (simp only: census_of_def)

definition quietTools :: "string PreTools" where
  "quietTools = \<lparr>ptTools = \<lparr>tRead = (\<lambda>f. Some ''package a''), tWritable = (\<lambda>f. True), tParses = (\<lambda>f s. True),
     tRender = (\<lambda>f s tab. Some s), tPosition = (\<lambda>f i. (1, 1)), tBuild = (\<lambda>d. None)\<rparr>,
   ptParseError = (\<lambda>f s. None), ptPackageName = (\<lambda>s. Some ''a''), ptTemp = (\<lambda>i. Some ''/tmp/x.go''),
   ptCombinedTemp = Some ''/tmp/y.go'', ptCombinedDir = True, ptBuildDir = (\<lambda>d. None),
   ptEntries = (\<lambda>d. []), ptLoad = (\<lambda>d. []), ptDefault = (\<lambda>p. None),
   ptCheck = (\<lambda>f s tab sib h d imp. ([], False))\<rparr>"

definition siteIn :: "string \<Rightarrow> int \<Rightarrow> Site" where
  "siteIn f l = \<lparr>sFile = f, sFileAST = None, sLine = l, sColumn = 1, sNode = Ident 1 ''x'',
     sReturnType = '''', sFunctionName = '''', sEnclosingFunc = None\<rparr>"

theorem preflight_conserves_mutants_witness:
  "mset (map mID (fst (RunPreflight quietTools rev
      [newMutant 1 (siteIn ''/p/a.go'' 1) ArithmeticFlip, newMutant 2 (siteIn '''' 1) ArithmeticFlip])))
   + mset (map prID (snd (RunPreflight quietTools rev
      [newMutant 1 (siteIn ''/p/a.go'' 1) ArithmeticFlip, newMutant 2 (siteIn '''' 1) ArithmeticFlip])))
   = {#1, 2#}"
  using preflight_conserves_mutants [of
    "[newMutant 1 (siteIn ''/p/a.go'' 1) ArithmeticFlip, newMutant 2 (siteIn '''' 1) ArithmeticFlip]" rev quietTools]
  by (simp add: newMutant_def del: mset_map)

subsection \<open>Who is rejected\<close>

lemma bisect_sound:
  "r \<in> set (snd (bisectMutants chk ms)) \<Longrightarrow>
   \<exists>m \<in> set ms. fails chk [m] \<and> r = rejected StatusCompileError (singleReason (chk [m])) m"
proof (induction ms rule: bisect_induct)
  case (split ms)
  then have "r \<in> set (snd (bisectMutants chk (take (length ms div 2) ms))) \<or>
     r \<in> set (snd (bisectMutants chk (drop (length ms div 2) ms)))"
    by (auto simp: bisect_long half_def split: if_splits)
  with split(3,4) show ?case by (meson in_set_takeD in_set_dropD)
qed (simp_all add: bisect_short split: if_splits)

lemma bisect_separable:
  assumes "\<And>xs. set xs \<subseteq> set ms \<Longrightarrow> fails chk xs \<longleftrightarrow> (\<exists>m \<in> set xs. culprit m)"
  shows "half chk ms =
     (filter (\<lambda>m. \<not> culprit m) ms,
      map (\<lambda>m. rejected StatusCompileError (singleReason (chk [m])) m) (filter culprit ms))"
  using assms
proof (induction ms rule: bisect_induct)
  case empty
  then show ?case by (simp add: half_def bisect_short)
next
  case (single m)
  from single [of "[m]"] show ?case by (simp add: half_def bisect_short)
next
  case (split ms)
  have sub: "set (take k ms) \<subseteq> set ms" "set (drop k ms) \<subseteq> set ms" for k
    by (auto dest: in_set_takeD in_set_dropD)
  have l: "half chk (take (length ms div 2) ms) = (filter (\<lambda>m. \<not> culprit m) (take (length ms div 2) ms),
      map (\<lambda>m. rejected StatusCompileError (singleReason (chk [m])) m) (filter culprit (take (length ms div 2) ms)))"
    using split.prems sub by (intro split(3)) blast
  have r: "half chk (drop (length ms div 2) ms) = (filter (\<lambda>m. \<not> culprit m) (drop (length ms div 2) ms),
      map (\<lambda>m. rejected StatusCompileError (singleReason (chk [m])) m) (filter culprit (drop (length ms div 2) ms)))"
    using split.prems sub by (intro split(4)) blast
  have b: "bisectMutants chk ms = (filter (\<lambda>m. \<not> culprit m) ms,
      map (\<lambda>m. rejected StatusCompileError (singleReason (chk [m])) m) (filter culprit ms))"
    unfolding bisect_long [OF split(1,2)] l r fst_conv snd_conv filter_append [symmetric] map_append [symmetric]
      append_take_drop_id ..
  show ?case
  proof (cases "fails chk ms")
    case True
    then show ?thesis by (simp add: half_def b)
  next
    case False
    then have "\<forall>m \<in> set ms. \<not> culprit m" using split.prems [of ms] by simp
    with False show ?thesis by (simp add: half_def filter_id_conv filter_empty_conv)
  qed
qed

text \<open>
  C13. The type check rejects exactly the guilty mutants: where a set of mutants of a file
  fails the check exactly if one of them is a culprit, every culprit is rejected with its
  own reason and the other mutants are kept in their order, however the culprits are spread.
\<close>

theorem preflight_rejects_culprits:
  assumes "tRead (ptTools T) f = Some src" "importerFor T cache (Dir f) = (imp, cache1)"
    "\<And>xs. set xs \<subseteq> set ms \<Longrightarrow> fails (fileCheck T f src imp) xs \<longleftrightarrow> (\<exists>m \<in> set xs. culprit m)"
  shows "fst (typeCheckFileGroup T f ms cache) =
     (filter (\<lambda>m. \<not> culprit m) ms,
      map (\<lambda>m. rejected StatusCompileError (singleReason (fileCheck T f src imp [m])) m) (filter culprit ms))"
proof -
  have "fst (typeCheckFileGroup T f ms cache) = half (fileCheck T f src imp) ms"
    using assms(1,2) by (simp add: typeCheckFileGroup_def half_def Let_def)
  then show ?thesis by (simp only: bisect_separable [OF assms(3)])
qed

definition culpritKey :: posKey where
  "culpritKey = mutantPosKey (newMutant 2 (siteIn ''/p/a.go'' 7) ArithmeticFlip)"

definition strictTools :: "string PreTools" where
  "strictTools = quietTools\<lparr>ptCheck := (\<lambda>f s tab sib h d imp.
     (if tab culpritKey = None then [] else [''a.go:7:1: mismatched types''], False))\<rparr>"

lemma strict_simps:
  "ptParseError strictTools f src = None"
  "tRead (ptTools strictTools) f = Some ''package a''"
  "checkErrors strictTools s f src xs =
     (if \<exists>m \<in> set xs. mutantPosKey m = culpritKey then [''a.go:7:1: mismatched types''] else [], False)"
  by (auto simp: strictTools_def quietTools_def checkErrors_def build_lookup Let_def filter_empty_conv)

lemma strict_check:
  "fileCheck strictTools f src imp xs =
     (if \<exists>m \<in> set xs. mutantPosKey m = culpritKey then [''a.go:7:1: mismatched types''] else [], False)"
  by (simp add: fileCheck_def Let_def runTypeCheck_def computeBaselineErrors_def strict_simps)

theorem preflight_rejects_culprits_witness:
  "map prID (snd (fst (typeCheckFileGroup strictTools ''/p/a.go''
      [newMutant 1 (siteIn ''/p/a.go'' 1) ArithmeticFlip, newMutant 2 (siteIn ''/p/a.go'' 7) ArithmeticFlip] Map.empty)))
   = [2]"
proof -
  obtain imp c1 where i: "importerFor strictTools Map.empty (Dir ''/p/a.go'') = (imp, c1)" by fastforce
  have "fails (fileCheck strictTools ''/p/a.go'' ''package a'' imp) xs \<longleftrightarrow> (\<exists>m \<in> set xs. mutantPosKey m = culpritKey)" for xs
    by (simp add: fails_def strict_check)
  from preflight_rejects_culprits [OF strict_simps(2) i this, of
      "[newMutant 1 (siteIn ''/p/a.go'' 1) ArithmeticFlip, newMutant 2 (siteIn ''/p/a.go'' 7) ArithmeticFlip]"]
  show ?thesis
    by (simp add: culpritKey_def mutantPosKey_def newMutant_def siteIn_def rejected_def)
qed

subsection \<open>Errors of the unmodified package\<close>

lemma beyondBudget_count:
  "count_list (map typeErrorMessage (beyondBudget budget errs)) msg
     = count_list (map typeErrorMessage errs) msg - budget msg"
proof (induction errs arbitrary: budget)
  case (Cons e es)
  then show ?case by (cases "0 < budget (typeErrorMessage e)") (auto simp: Let_def)
qed simp

lemma no_messages: "xs = [] \<longleftrightarrow> (\<forall>msg. count_list (map f xs) msg = 0)"
  by (cases xs) (auto simp: count_list_0_iff)

text \<open>
  A package that was broken before does not condemn its mutants: a mutant passes the type
  check exactly if the checker does not panic and reports no message more often than it
  already does on the unmodified package.
\<close>

theorem preflight_subtracts_baseline:
  assumes "ptParseError T f src = None"
  shows "fails (fileCheck T f src imp) ms \<longleftrightarrow>
    (let s = \<lparr>suSiblings = loadSiblingFiles T (Dir f) f, suHelper = schemataHelper (parsePackageName T src f),
             suDir = Dir f, suImporter = imp\<rparr>
     in snd (checkErrors T s f src ms) \<or>
        (\<exists>msg. count_list (map typeErrorMessage (fst (checkErrors T s f src []))) msg
             < count_list (map typeErrorMessage (fst (checkErrors T s f src ms))) msg))"
proof -
  let ?s = "\<lparr>suSiblings = loadSiblingFiles T (Dir f) f, suHelper = schemataHelper (parsePackageName T src f),
             suDir = Dir f, suImporter = imp\<rparr>"
  have "beyondBudget b errs \<noteq> [] \<longleftrightarrow> (\<exists>msg. b msg < count_list (map typeErrorMessage errs) msg)" for b errs
    unfolding no_messages [of "beyondBudget b errs" typeErrorMessage] by (simp add: beyondBudget_count not_le)
  then show ?thesis
    using assms
    by (auto simp: fails_def fileCheck_def runTypeCheck_def computeBaselineErrors_def Let_def split: prod.split)
qed

theorem preflight_subtracts_baseline_witness:
  "fails (fileCheck strictTools ''/p/a.go'' ''package a'' (\<lambda>p. None))
     [newMutant 2 (siteIn ''/p/a.go'' 7) ArithmeticFlip]"
proof -
  have k: "mutantPosKey (newMutant 2 (siteIn ''/p/a.go'' 7) ArithmeticFlip) = culpritKey"
    by (simp add: culpritKey_def)
  have "count_list (map typeErrorMessage []) (typeErrorMessage ''a.go:7:1: mismatched types'')
      < count_list (map typeErrorMessage [''a.go:7:1: mismatched types'']) (typeErrorMessage ''a.go:7:1: mismatched types'')"
    by simp
  with k show ?thesis
    unfolding preflight_subtracts_baseline [OF strict_simps(1)] Let_def
    by (simp only: strict_simps) auto
qed

subsection \<open>The cache of imports\<close>

definition cacheSound :: "'p PreTools \<Rightarrow> 'p pkgImportCache \<Rightarrow> bool" where
  "cacheSound T c \<longleftrightarrow> (\<forall>d deps. c d = Some deps \<longrightarrow> deps = loadPackageDeps T d)"

lemma importer_sound:
  assumes "cacheSound T c"
  shows "fst (importerFor T c d) = fst (importerFor T Map.empty d)" "cacheSound T (snd (importerFor T c d))"
  using assms by (auto simp: importerFor_def cacheSound_def Let_def split: option.splits)

lemma fileGroup_sound:
  assumes "cacheSound T c"
  shows "fst (typeCheckFileGroup T f ms c) = fst (typeCheckFileGroup T f ms Map.empty)"
    "cacheSound T (snd (typeCheckFileGroup T f ms c))"
  using importer_sound [OF assms, of "Dir f"] assms
  by (auto simp: typeCheckFileGroup_def Let_def split: option.split prod.splits)

text \<open>
  The cache of imports is only an optimisation: the type check of all files with the
  shared cache gives what checking each file with an empty one gives, so each directory is
  judged by its own imports.
\<close>

theorem import_cache_transparent:
  "level3TypeCheckPreflight T ord ms =
     (let out = map (\<lambda>f. fst (typeCheckFileGroup T f (groupOf ms f) Map.empty)) (ord (fileKeys ms))
      in (concat (map fst out), concat (map snd out)))"
proof -
  have "cacheSound T c \<Longrightarrow> level3Loop T ms fs c =
     (let out = map (\<lambda>f. fst (typeCheckFileGroup T f (groupOf ms f) Map.empty)) fs
      in (concat (map fst out), concat (map snd out)))" for fs c
  proof (induction fs arbitrary: c)
    case (Cons f fs)
    obtain v bad c1 where r: "typeCheckFileGroup T f (groupOf ms f) c = ((v, bad), c1)"
      by (metis prod.exhaust)
    then have "cacheSound T c1" "fst (typeCheckFileGroup T f (groupOf ms f) Map.empty) = (v, bad)"
      using fileGroup_sound [OF Cons.prems, of f "groupOf ms f"] by simp_all
    with Cons.IH [of c1] r show ?case by (simp add: Let_def)
  qed simp
  moreover have "cacheSound T Map.empty" by (simp add: cacheSound_def)
  ultimately show ?thesis by (simp only: level3TypeCheckPreflight_def)
qed

subsection \<open>The combined check\<close>

text \<open>
  The check of all mutants of a file together does not look at them: it writes the
  transformed file to a temporary directory but builds the directory of the original, so it
  rejects all mutants of the file or none, by whether the unmodified package builds.
\<close>

theorem combined_check_builds_original:
  assumes "tRead (ptTools T) f = Some src" "1 < length (passing T f src ms)"
    "ptParseError T f src = None" "ptCombinedTemp T = Some tmp" "tWritable (ptTools T) tmp"
    "ptCombinedDir T" "distinct (map mID ms)"
  shows "checkFileWithSchemata T f ms =
    (case ptBuildDir T (Dir f) of
       None \<Rightarrow> (passing T f src ms, failing T f src ms)
     | Some out \<Rightarrow>
         ([], failing T f src ms @
            map (rejected StatusCompileError (''combined schemata conflict: '' @ out)) (passing T f src ms)))"
proof -
  let ?v = "passing T f src ms"
  have ms: "ms \<noteq> []" using assms(2) by (auto simp: passing_def map_filter_simps)
  have "\<not> length ?v < 2" using assms(2) by simp
  then have b: "checkCombinedFileWithSchemata T f src ?v
      = (case ptBuildDir T (Dir f) of None \<Rightarrow> ([], '''') | Some out \<Rightarrow> (map mID ?v, out))"
    using assms(3-6)
    by (auto simp: checkCombinedFileWithSchemata_def applyInTemp_def Let_def split: option.split)
  have d: "distinct (map mID ([] @ ?v))"
    using census_distinct [OF checkOne_split assms(7), of T f src] by simp
  have r: "rejectLoop out (map mID ?v) ?v i
      = (map marked ?v, i @ map (rejected StatusCompileError (''combined schemata conflict: '' @ out)) ?v)" for out i
    using rejectLoop_all [OF d, of out i] by simp
  have e: "filter (\<lambda>m. mStatus m \<noteq> StatusCompileError) (map marked ?v) = []"
    by (simp add: filter_empty_conv marked_def)
  show ?thesis
    using assms(2) by (simp add: checkFile_run [OF assms(1) ms] Let_def b r e split: option.split)
qed

definition brokenTools :: "string PreTools" where
  "brokenTools = quietTools\<lparr>ptBuildDir := (\<lambda>d. Some ''no Go files'')\<rparr>"

theorem combined_check_builds_original_witness:
  "fst (checkFileWithSchemata brokenTools ''/p/a.go''
     [newMutant 1 (siteIn ''/p/a.go'' 1) ArithmeticFlip, newMutant 2 (siteIn ''/p/a.go'' 7) ArithmeticFlip]) = []"
proof -
  let ?ms = "[newMutant 1 (siteIn ''/p/a.go'' 1) ArithmeticFlip, newMutant 2 (siteIn ''/p/a.go'' 7) ArithmeticFlip]"
  have "1 < length (passing brokenTools ''/p/a.go'' ''package a'' ?ms)"
    by (simp add: passing_def map_filter_simps checkOne_def applyInTemp_def brokenTools_def quietTools_def)
  from combined_check_builds_original [OF _ this, of "''/tmp/y.go''"] show ?thesis
    by (simp add: brokenTools_def quietTools_def newMutant_def)
qed

text \<open>The operator that declares itself invalid everywhere never passes level 1.\<close>

lemma swap_case_bodies_never_passes:
  "mOperator m = SwapCaseBodies \<Longrightarrow> m \<notin> set (fst (quickStaticFilter ms))"
  by (simp add: quickStaticFilter_def staticReason_def isObviouslyUnsafeMutation_def SwapCaseBodies_def
      contextualOperator_def)


text \<open>The preflight's view of \<open>ApplySchemataToAST\<close> agrees with that of the disk model.\<close>

lemma applyInTemp_agrees:
  "map_option fst (ApplySchemataToAST (ptTools T) f tmp src ms d) =
     (case applyInTemp T f tmp src ms of
        ApplyFailed err \<Rightarrow> None | Unformattable \<Rightarrow> Some Map.empty | Applied posMap \<Rightarrow> Some posMap)"
  by (simp add: ApplySchemataToAST_def applyInTemp_def writeFile_def Let_def)


subsection \<open>The status of the rejected\<close>

definition rejection :: "PreflightResult \<Rightarrow> bool" where
  "rejection r \<longleftrightarrow> prStatus r \<in> {StatusInvalid, StatusCompileError}"

lemma rejected_rejection [simp]: "s \<in> {StatusInvalid, StatusCompileError} \<Longrightarrow> rejection (rejected s why m)"
  by (auto simp: rejection_def rejected_def)

lemma rejectLoop_rejections:
  "\<forall>r \<in> set invalid. rejection r \<Longrightarrow> \<forall>r \<in> set (snd (rejectLoop why bs valid invalid)). rejection r"
  by (induction why bs valid invalid rule: rejectLoop.induct) (simp_all add: Let_def)

lemma failing_rejections: "\<forall>r \<in> set (failing T f src ms). rejection r"
  by (auto simp: failing_def checkOne_def map_filter_def split: option.splits applied.splits)

lemma checkFile_rejections: "\<forall>r \<in> set (snd (checkFileWithSchemata T f ms)). rejection r"
proof (cases "ms = [] \<or> tRead (ptTools T) f = None")
  case True
  then show ?thesis by (auto simp: checkFileWithSchemata_def makeAllInvalid_def)
next
  case False
  then obtain src where src: "tRead (ptTools T) f = Some src" "ms \<noteq> []" by auto
  show ?thesis
    unfolding checkFile_run [OF src] Let_def
    using rejectLoop_rejections [OF failing_rejections [of T f src ms]] failing_rejections [of T f src ms] by simp
qed

lemma bisect_rejections: "\<forall>r \<in> set (snd (bisectMutants chk ms)). rejection r"
  by (auto dest: bisect_sound)

lemma level3_rejections: "\<forall>r \<in> set (snd (level3Loop T ms fs c)). rejection r"
proof (induction fs arbitrary: c)
  case (Cons f fs)
  obtain v bad c1 where r: "typeCheckFileGroup T f (groupOf ms f) c = ((v, bad), c1)"
    by (metis prod.exhaust)
  have "\<forall>r \<in> set bad. rejection r"
    using fileGroup_shape [of T f "groupOf ms f" c] bisect_rejections [of _ "groupOf ms f"] r
    by (metis empty_iff fst_conv list.set(1) snd_conv)
  with Cons.IH [of c1] r show ?case by (auto split: prod.split)
qed simp

lemma preflight_rejections: "\<forall>r \<in> set (snd (RunPreflight T ord ms)). rejection r"
proof -
  have 1: "\<forall>r \<in> set (snd (quickStaticFilter ms)). rejection r"
    by (auto simp: quickStaticFilter_def map_filter_def)
  have 2: "\<forall>r \<in> set (snd (level2PackagePreflight T ord v)). rejection r" for v
    using checkFile_rejections [of T] by (auto simp: level2PackagePreflight_def Let_def)
  have 3: "\<forall>r \<in> set (snd (level3TypeCheckPreflight T ord v)). rejection r" for v
    by (simp add: level3TypeCheckPreflight_def level3_rejections)
  obtain v1 i1 where q: "quickStaticFilter ms = (v1, i1)" by fastforce
  obtain v2 i2 where l2: "level2PackagePreflight T ord v1 = (v2, i2)" by fastforce
  obtain v3 i3 where l3: "level3TypeCheckPreflight T ord v2 = (v3, i3)" by fastforce
  have "\<forall>r \<in> set i1 \<union> set i2 \<union> set i3. rejection r"
    using 1 2 [of v1] 3 [of v2] unfolding q l2 l3 by auto
  then show ?thesis by (auto simp: RunPreflight_def q l2 l3)
qed

end
