(* ===== verification/Verify.thy ===== *)
theory Verify
  imports Disk "HOL-Library.Sublist"
begin

text \<open>
  \<open>verifyAndCleanSchemata\<close> with \<open>bisectFileMutants\<close> and the partitions
  (\<open>internal/core/schemata.go\<close>): the loop that builds the copy and removes the mutants that
  do not compile. Mutants behind pointers are indices into the list; copies of mutants are
  values. A range over a map visits its keys in the order \<open>ord\<close> gives.
\<close>

subsection \<open>Bisection\<close>

definition compilerMark :: "string \<Rightarrow> Mutant \<Rightarrow> Mutant" where
  "compilerMark text m =
     m\<lparr>mStatus := StatusError, mKilledBy := ''(compiler)'', mKillOutput := text\<rparr>"

definition buildText :: "Tools \<Rightarrow> disk \<Rightarrow> string" where
  "buildText T d = or_else '''' (tBuild T d)"

function bisectFileMutants ::
  "Tools \<Rightarrow> ModuleWorkspace \<Rightarrow> string \<Rightarrow> nat list \<Rightarrow> disk \<Rightarrow> Mutant list \<Rightarrow>
   nat list \<times> nat list \<times> disk \<times> Mutant list" where
  "bisectFileMutants T w srcFile cs d ms =
     (if cs = [] then ([], [], d, ms)
      else case applySingleFile T w srcFile cs d ms of
        (Some err, d1, ms1) \<Rightarrow>
          ([], cs, d1, updateAt (compilerMark (''bisect: re-apply failed: '' @ err)) cs ms1)
      | (None, d1, ms1) \<Rightarrow>
          if \<not> fileHasCompileErrors (buildText T d1) w srcFile then (cs, [], d1, ms1)
          else if length cs = 1 then
            ([], cs, d1, updateAt (compilerMark ''bisect: identified as compile-failing mutant'') cs ms1)
          else
            (let mid = length cs div 2 in
             case bisectFileMutants T w srcFile (take mid cs) d1 ms1 of
               (lg, lb, d2, ms2) \<Rightarrow>
                 (case bisectFileMutants T w srcFile (drop mid cs) d2 ms2 of
                    (rg, rb, d3, ms3) \<Rightarrow> (lg @ rg, lb @ rb, d3, ms3))))"
  by pat_completeness auto
termination
proof (relation "measure (\<lambda>(T, w, f, cs, d, ms). length cs)", goal_cases)
  case 1
  show ?case by simp
next
  case (2 T w srcFile cs d ms)
  then show ?case using halves_shorter(1) [of cs] by simp
next
  case (3 T w srcFile cs d ms)
  show ?case unfolding in_measure prod.case 3(7) by (rule halves_shorter(2) [OF 3(1,6)])
qed

declare bisectFileMutants.simps [simp del]

subsection \<open>Partitions\<close>

definition partitionMutantsByIDs :: "Mutant list \<Rightarrow> int set \<Rightarrow> int \<Rightarrow> Mutant list \<times> Mutant list" where
  "partitionMutantsByIDs ms bad rnd =
     (filter (\<lambda>m. mID m \<notin> bad) ms,
      map (compilerMark (''build verification: removed in round '' @ Itoa rnd))
        (filter (\<lambda>m. mID m \<in> bad) ms))"

definition inFailingPackage :: "ModuleWorkspace \<Rightarrow> string set \<Rightarrow> Mutant \<Rightarrow> bool" where
  "inFailingPackage w pkgs m \<longleftrightarrow> hasFile m \<and> packageOf w (or_else '''' (relOf w (mutantFile m))) \<in> pkgs"

definition partitionMutantsByPackages ::
  "ModuleWorkspace \<Rightarrow> Mutant list \<Rightarrow> string set \<Rightarrow> int \<Rightarrow> Mutant list \<times> Mutant list" where
  "partitionMutantsByPackages w ms pkgs rnd =
     (filter (\<lambda>m. \<not> inFailingPackage w pkgs m) ms,
      map (compilerMark (''build verification round '' @ Itoa rnd @ '': unable to identify specific mutant''))
        (filter (inFailingPackage w pkgs) ms))"

subsection \<open>The verification loop\<close>

text \<open>The source file of each tracked temporary path; the code looks the source path up among the
  temporary ones before it adds an entry.\<close>

definition tempToSrc :: "ModuleWorkspace \<Rightarrow> Mutant list \<Rightarrow> (string \<rightharpoonup> string)" where
  "tempToSrc w ms = foldl (\<lambda>f m.
     if \<not> hasFile m \<or> f (mutantFile m) \<noteq> None then f
     else case relOf w (mutantFile m) of None \<Rightarrow> f
       | Some rel \<Rightarrow> f(Clean (tempPath w rel) \<mapsto> mutantFile m)) Map.empty ms"

definition failingFiles ::
  "(string list \<Rightarrow> string list) \<Rightarrow> ModuleWorkspace \<Rightarrow> Mutant list \<Rightarrow> string \<Rightarrow> string list" where
  "failingFiles ord w ms buildOut = ord (remdups (List.map_filter
     (\<lambda>ce. tempToSrc w ms (Clean (errorPath w ce))) (ParseCompilerErrors buildOut)))"

fun bisectAll ::
  "Tools \<Rightarrow> ModuleWorkspace \<Rightarrow> string list \<Rightarrow> int set \<Rightarrow> disk \<Rightarrow> Mutant list \<Rightarrow> int set \<times> disk \<times> Mutant list" where
  "bisectAll T w [] badSet d ms = (badSet, d, ms)"
| "bisectAll T w (f # fs) badSet d ms =
     (case bisectFileMutants T w f (indicesOf f ms) d ms of
        (_, bad, d1, ms1) \<Rightarrow> bisectAll T w fs (badSet \<union> (\<lambda>i. mID (ms1 ! i)) ` set bad) d1 ms1)"

definition untestedMark :: "Mutant \<Rightarrow> Mutant" where
  "untestedMark m = (if mStatus m = '''' then m\<lparr>mStatus := StatusUntested\<rparr> else m)"

definition untestedBy :: "string \<Rightarrow> Mutant \<Rightarrow> Mutant" where
  "untestedBy text m = (if mStatus m = '''' then
     m\<lparr>mStatus := StatusUntested, mKilledBy := ''(compiler)'', mKillOutput := text\<rparr> else m)"

record verified =
  vKept :: "Mutant list"
  vRemoved :: "Mutant list"
  vErr :: "string option"
  vDisk :: disk

definition roundPrefix :: "int \<Rightarrow> string" where
  "roundPrefix rnd = ''build verification (round '' @ Itoa rnd @ ''): ''"

text \<open>After the last round: quarantine of what still fails.\<close>

definition verifyLast ::
  "Tools \<Rightarrow> ModuleWorkspace \<Rightarrow> Mutant list \<Rightarrow> Mutant list \<Rightarrow> disk \<Rightarrow> verified" where
  "verifyLast T w ms removed d = (case tBuild T d of
     None \<Rightarrow> \<lparr>vKept = ms, vRemoved = removed, vErr = None, vDisk = d\<rparr>
   | Some finalOut \<Rightarrow>
       (let pkgs = identifyFailingPackages w finalOut in
        if pkgs = {} then \<lparr>vKept = ms, vRemoved = removed, vErr = None, vDisk = d\<rparr>
        else case partitionMutantsByPackages w ms pkgs 5 of (kept, failed) \<Rightarrow>
          (case resetMutatedFilesInPkgs T w ms pkgs d of
             (Some err, d1) \<Rightarrow>
               \<lparr>vKept = map (\<lambda>m. if inFailingPackage w pkgs m
                   then compilerMark (''build verification round '' @ Itoa 5 @ '': unable to identify specific mutant'') m
                   else m) ms,
                vRemoved = removed, vErr = Some (''reset failing packages after max rounds: '' @ err), vDisk = d1\<rparr>
           | (None, d1) \<Rightarrow>
               \<lparr>vKept = kept, vRemoved = removed @ failed, vErr = None, vDisk = d1\<rparr>)))"

text \<open>The rounds, given by their numbers from one. \<open>None\<close> is the panic of the ID scan.\<close>

fun verifyRounds ::
  "Tools \<Rightarrow> ModuleWorkspace \<Rightarrow> (string list \<Rightarrow> string list) \<Rightarrow> int list \<Rightarrow> Mutant list \<Rightarrow> Mutant list \<Rightarrow>
   disk \<Rightarrow> verified option" where
  "verifyRounds T w ord [] ms removed d = Some (verifyLast T w ms removed d)"
| "verifyRounds T w ord (rnd # rounds) ms removed d = (case tBuild T d of
     None \<Rightarrow> Some \<lparr>vKept = ms, vRemoved = removed, vErr = None, vDisk = d\<rparr>
   | Some buildOut \<Rightarrow>
       (case extractMutantIDsFromBuildErrors T w d buildOut of
          None \<Rightarrow> None
        | Some badIDs \<Rightarrow>
            if badIDs = [] then
              (let files = failingFiles ord w ms buildOut in
               if files = [] then Some \<lparr>vKept = ms, vRemoved = removed, vErr = None, vDisk = d\<rparr>
               else case bisectAll T w files {} d ms of (badSet, d1, ms1) \<Rightarrow>
                 if badSet = {} then
                   (let pkgs = identifyFailingPackages w buildOut in
                    if pkgs = {} then Some \<lparr>vKept = ms1, vRemoved = removed, vErr = None, vDisk = d1\<rparr>
                    else case partitionMutantsByPackages w ms1 pkgs rnd of (kept, failed) \<Rightarrow>
                      (let d2 = snd (resetMutatedFilesInPkgs T w ms1 pkgs d1) in
                       if kept = [] then
                         Some \<lparr>vKept = [], vRemoved = removed @ failed, vErr = None, vDisk = d2\<rparr>
                       else verifyRounds T w ord rounds kept (removed @ failed) d2))
                 else
                   (let kept = filter (\<lambda>m. mID m \<notin> badSet) ms1; failed = filter (\<lambda>m. mID m \<in> badSet) ms1 in
                    case reapplyAffectedFiles T w ord badSet ms1 kept d1 of
                      (Some err, d2, kept1) \<Rightarrow>
                        Some \<lparr>vKept = map untestedMark kept1, vRemoved = removed @ failed,
                          vErr = Some (''re-apply after per-file bisection in round '' @ Itoa rnd @ '': '' @ err),
                          vDisk = d2\<rparr>
                    | (None, d2, kept1) \<Rightarrow> verifyRounds T w ord rounds kept1 (removed @ failed) d2))
            else case partitionMutantsByIDs ms (set badIDs) rnd of (kept, failed) \<Rightarrow>
              if length kept = length ms then
                (let kept1 = map (untestedBy (roundPrefix rnd @ ''bad IDs identified but none matched'')) kept in
                 Some \<lparr>vKept = kept1, vRemoved = removed @ failed @ kept1,
                   vErr = Some ''build verification: bad mutants identified but none removed, aborting'', vDisk = d\<rparr>)
              else (case reapplyAffectedFiles T w ord (set badIDs) ms kept d of
                      (Some err, d2, kept1) \<Rightarrow>
                        (let kept2 = map (untestedBy (roundPrefix rnd @ ''re-apply failed'')) kept1 in
                         Some \<lparr>vKept = kept2, vRemoved = removed @ failed @ kept2,
                           vErr = Some (''re-apply after round '' @ Itoa rnd @ '': '' @ err), vDisk = d2\<rparr>)
                    | (None, d2, kept1) \<Rightarrow> verifyRounds T w ord rounds kept1 (removed @ failed) d2)))"

definition verifyAndCleanSchemata ::
  "Tools \<Rightarrow> ModuleWorkspace \<Rightarrow> (string list \<Rightarrow> string list) \<Rightarrow> Mutant list \<Rightarrow> disk \<Rightarrow> verified option" where
  "verifyAndCleanSchemata T w ord ms d = verifyRounds T w ord [1, 2, 3, 4, 5] ms [] d"

subsection \<open>What identifies a mutant\<close>

definition identity :: "Mutant \<Rightarrow> int \<times> Site \<times> operator" where
  "identity m = (mID m, mSite m, mOperator m)"

lemma identity_parts: "identity a = identity b \<longleftrightarrow> mID a = mID b \<and> mSite a = mSite b \<and> mOperator a = mOperator b"
  by (auto simp: identity_def)

text \<open>The updates of this component change the status or the position, never the mutant.\<close>

locale mutant_update =
  fixes f :: "Mutant \<Rightarrow> Mutant"
  assumes keeps: "identity (f m) = identity m"
begin

lemma map_keeps: "map identity (map f ms) = map identity ms"
  by (simp add: keeps)

lemma map_some_keeps: "map identity (map (\<lambda>m. if P m then f m else m) ms) = map identity ms"
  by (simp add: keeps)

lemma updateAt_keeps: "map identity (updateAt f is ms) = map identity ms"
proof (induction "is" arbitrary: ms)
  case (Cons i "is")
  have "map identity (ms[i := f (ms ! i)]) = map identity ms"
    by (cases "i < length ms") (simp_all add: map_update keeps list_update_same_conv list_update_beyond)
  with Cons.IH [of "ms[i := f (ms ! i)]"] show ?case by (simp add: updateAt_def)
qed (simp add: updateAt_def)

lemma updateAt_length: "length (updateAt f is ms) = length ms"
  using arg_cong [OF updateAt_keeps, of length "is" ms] by simp

lemma updateAt_nth:
  "\<lbrakk>distinct is; set is \<subseteq> {..<length ms}; i < length ms\<rbrakk> \<Longrightarrow>
     updateAt f is ms ! i = (if i \<in> set is then f (ms ! i) else ms ! i)"
proof (induction "is" arbitrary: ms)
  case (Cons j js)
  have "updateAt f (j # js) ms = updateAt f js (ms[j := f (ms ! j)])" by (simp add: updateAt_def)
  with Cons.IH [of "ms[j := f (ms ! j)]"] Cons.prems show ?case by (auto simp: nth_list_update)
qed (simp add: updateAt_def)

end

interpretation temp: mutant_update "setTemp posMap" for posMap
  by unfold_locales (simp add: setTemp_def identity_def split: option.split)

interpretation mark: mutant_update "compilerMark t" for t
  by unfold_locales (simp add: compilerMark_def identity_def)

interpretation untested: mutant_update untestedMark
  by unfold_locales (simp add: untestedMark_def identity_def)

interpretation untested_by: mutant_update "untestedBy t" for t
  by unfold_locales (simp add: untestedBy_def identity_def)

lemma setTemp_status [simp]: "mStatus (setTemp p m) = mStatus m" "mKilledBy (setTemp p m) = mKilledBy m"
  by (simp_all add: setTemp_def split: option.split)

definition compileError :: "Mutant \<Rightarrow> bool" where
  "compileError m \<longleftrightarrow> mStatus m = StatusError \<and> mKilledBy m = ''(compiler)''"

lemma compilerMark_error [simp]: "compileError (compilerMark text m)"
  by (simp add: compileError_def compilerMark_def)

subsection \<open>Laws of the bisection\<close>

lemma applySingleFile_keeps:
  assumes "applySingleFile T w f is d ms = (e, d1, ms1)" "distinct is" "set is \<subseteq> {..<length ms}"
  shows "map identity ms1 = map identity ms"
    and "i < length ms \<Longrightarrow> mStatus (ms1 ! i) = mStatus (ms ! i) \<and> mKilledBy (ms1 ! i) = mKilledBy (ms ! i)"
proof -
  have "ms1 = ms \<or> (\<exists>p. ms1 = updateAt (setTemp p) is ms)"
    using assms(1) by (auto simp: applySingleFile_def Let_def split: option.splits if_splits)
  then show "map identity ms1 = map identity ms"
    and "i < length ms \<Longrightarrow> mStatus (ms1 ! i) = mStatus (ms ! i) \<and> mKilledBy (ms1 ! i) = mKilledBy (ms ! i)"
    using assms(2,3) by (auto simp: temp.updateAt_keeps temp.updateAt_nth)
qed

lemma identity_length: "map identity a = map identity b \<Longrightarrow> length a = length b"
  by (rule map_eq_imp_length_eq)

definition bisectOK :: "nat list \<Rightarrow> Mutant list \<Rightarrow> nat list \<times> nat list \<times> disk \<times> Mutant list \<Rightarrow> bool" where
  "bisectOK cs ms r = (case r of (g, b, d', ms') \<Rightarrow>
     mset g + mset b = mset cs \<and> map identity ms' = map identity ms \<and>
     (\<forall>i < length ms. if i \<in> set b then compileError (ms' ! i)
        else mStatus (ms' ! i) = mStatus (ms ! i) \<and> mKilledBy (ms' ! i) = mKilledBy (ms ! i)))"

lemma bisect_simps:
  "bisectFileMutants T w f [] d ms = ([], [], d, ms)"
  "\<lbrakk>cs \<noteq> []; applySingleFile T w f cs d ms = (Some err, d1, ms1)\<rbrakk> \<Longrightarrow>
     bisectFileMutants T w f cs d ms =
       ([], cs, d1, updateAt (compilerMark (''bisect: re-apply failed: '' @ err)) cs ms1)"
  "\<lbrakk>cs \<noteq> []; applySingleFile T w f cs d ms = (None, d1, ms1);
     \<not> fileHasCompileErrors (buildText T d1) w f\<rbrakk> \<Longrightarrow>
     bisectFileMutants T w f cs d ms = (cs, [], d1, ms1)"
  "\<lbrakk>length cs = 1; applySingleFile T w f cs d ms = (None, d1, ms1);
     fileHasCompileErrors (buildText T d1) w f\<rbrakk> \<Longrightarrow>
     bisectFileMutants T w f cs d ms =
       ([], cs, d1, updateAt (compilerMark ''bisect: identified as compile-failing mutant'') cs ms1)"
  "\<lbrakk>cs \<noteq> []; length cs \<noteq> 1; applySingleFile T w f cs d ms = (None, d1, ms1);
     fileHasCompileErrors (buildText T d1) w f;
     bisectFileMutants T w f (take (length cs div 2) cs) d1 ms1 = (lg, lb, d2, ms2);
     bisectFileMutants T w f (drop (length cs div 2) cs) d2 ms2 = (rg, rb, d3, ms3)\<rbrakk> \<Longrightarrow>
     bisectFileMutants T w f cs d ms = (lg @ rg, lb @ rb, d3, ms3)"
  by (subst bisectFileMutants.simps, force)+

lemma bisectOK_join:
  assumes "bisectOK (take k cs) ms (lg, lb, d2, ms2)" "bisectOK (drop k cs) ms2 (rg, rb, d3, ms3)"
    and "distinct cs" "map identity ms = map identity ms0"
    and "\<And>i. i < length ms0 \<Longrightarrow> mStatus (ms ! i) = mStatus (ms0 ! i) \<and> mKilledBy (ms ! i) = mKilledBy (ms0 ! i)"
  shows "bisectOK cs ms0 (lg @ rg, lb @ rb, d3, ms3)"
proof -
  have l: "mset lg + mset lb = mset (take k cs)" "map identity ms2 = map identity ms"
    "\<forall>i < length ms. if i \<in> set lb then compileError (ms2 ! i)
        else mStatus (ms2 ! i) = mStatus (ms ! i) \<and> mKilledBy (ms2 ! i) = mKilledBy (ms ! i)"
    using assms(1) by (simp_all add: bisectOK_def)
  have r: "mset rg + mset rb = mset (drop k cs)" "map identity ms3 = map identity ms2"
    "\<forall>i < length ms2. if i \<in> set rb then compileError (ms3 ! i)
        else mStatus (ms3 ! i) = mStatus (ms2 ! i) \<and> mKilledBy (ms3 ! i) = mKilledBy (ms2 ! i)"
    using assms(2) by (simp_all add: bisectOK_def)
  have len: "length ms2 = length ms" "length ms = length ms0"
    using identity_length [OF l(2)] identity_length [OF assms(4)] by auto
  have "mset (lg @ rg) + mset (lb @ rb) = (mset lg + mset lb) + (mset rg + mset rb)" by simp
  also have "\<dots> = mset cs" unfolding l(1) r(1) by (rule mset_halves)
  finally have "mset (lg @ rg) + mset (lb @ rb) = mset cs" .
  moreover have "\<forall>i < length ms0. if i \<in> set (lb @ rb) then compileError (ms3 ! i)
      else mStatus (ms3 ! i) = mStatus (ms0 ! i) \<and> mKilledBy (ms3 ! i) = mKilledBy (ms0 ! i)"
  proof (intro allI impI)
    fix i assume i: "i < length ms0"
    with l(3) r(3) len assms(5) [OF i]
    show "if i \<in> set (lb @ rb) then compileError (ms3 ! i)
        else mStatus (ms3 ! i) = mStatus (ms0 ! i) \<and> mKilledBy (ms3 ! i) = mKilledBy (ms0 ! i)"
      by (cases "i \<in> set lb"; cases "i \<in> set rb") (auto simp: compileError_def)
  qed
  ultimately show ?thesis
    using l(2) r(2) assms(4) by (simp add: bisectOK_def)
qed

lemma bisect_OK:
  "\<lbrakk>distinct cs; set cs \<subseteq> {..<length ms}\<rbrakk> \<Longrightarrow> bisectOK cs ms (bisectFileMutants T w f cs d ms)"
proof (induction "length cs" arbitrary: cs d ms rule: less_induct)
  case less
  obtain e d1 ms1 where ap: "applySingleFile T w f cs d ms = (e, d1, ms1)" by (metis prod_cases3)
  note k = applySingleFile_keeps [OF ap less.prems]
  have len: "length ms1 = length ms" using k(1) by (rule identity_length)
  have marked: "bisectOK cs ms ([], cs, d1, updateAt (compilerMark t) cs ms1)" for t
    using less.prems k len by (auto simp: bisectOK_def mark.updateAt_keeps mark.updateAt_nth)
  consider "cs = []" | err where "cs \<noteq> []" "e = Some err"
    | "cs \<noteq> []" "e = None" "\<not> fileHasCompileErrors (buildText T d1) w f"
    | "length cs = 1" "e = None" "fileHasCompileErrors (buildText T d1) w f"
    | "cs \<noteq> []" "length cs \<noteq> 1" "e = None" "fileHasCompileErrors (buildText T d1) w f"
    by (cases e) auto
  then show ?case
  proof cases
    case 1
    then show ?thesis by (simp add: bisect_simps(1) bisectOK_def)
  next
    case 2
    then show ?thesis using ap marked by (simp add: bisect_simps(2))
  next
    case 3
    then have "bisectFileMutants T w f cs d ms = (cs, [], d1, ms1)" using ap by (intro bisect_simps(3)) simp_all
    then show ?thesis using k by (simp add: bisectOK_def)
  next
    case 4
    then show ?thesis using ap marked by (simp add: bisect_simps(4))
  next
    case 5
    let ?k = "length cs div 2"
    obtain lg lb d2 ms2 where L: "bisectFileMutants T w f (take ?k cs) d1 ms1 = (lg, lb, d2, ms2)"
      by (metis prod_cases4)
    obtain rg rb d3 ms3 where R: "bisectFileMutants T w f (drop ?k cs) d2 ms2 = (rg, rb, d3, ms3)"
      by (metis prod_cases4)
    have sub: "set (take ?k cs) \<subseteq> {..<length ms}" "set (drop ?k cs) \<subseteq> {..<length ms}"
      using less.prems(2) by (auto dest: in_set_takeD in_set_dropD)
    have l: "bisectOK (take ?k cs) ms1 (lg, lb, d2, ms2)"
      using less.hyps [OF halves_shorter(1) [OF 5(1,2)], of ms1 d1] less.prems(1) sub(1) L len by simp
    then have "map identity ms2 = map identity ms1" by (simp add: bisectOK_def)
    then have "length ms2 = length ms1" by (rule identity_length)
    then have r: "bisectOK (drop ?k cs) ms2 (rg, rb, d3, ms3)"
      using less.hyps [OF halves_shorter(2) [OF 5(1,2)], of ms2 d2] less.prems(1) sub(2) R len by simp
    have "bisectFileMutants T w f cs d ms = (lg @ rg, lb @ rb, d3, ms3)"
      using 5 ap L R by (intro bisect_simps(5)) simp_all
    with bisectOK_join [OF l r less.prems(1) k] show ?thesis by simp
  qed
qed

subsection \<open>The bisection is exact\<close>

text \<open>The text a file gets for a list of mutants, and the disk with it.\<close>

definition trialText :: "Tools \<Rightarrow> string \<Rightarrow> string \<Rightarrow> Mutant list \<Rightarrow> string" where
  "trialText T f src ms =
     (let text = or_else '''' (tRender T f src (buildPositionToMutantsMap ms))
      in if text = '''' then src else text)"

definition trialDisk ::
  "Tools \<Rightarrow> ModuleWorkspace \<Rightarrow> string \<Rightarrow> nat list \<Rightarrow> disk \<Rightarrow> Mutant list \<Rightarrow> disk" where
  "trialDisk T w f is d ms =
     d(tempPath w (or_else '''' (relOf w f)) \<mapsto> trialText T f (or_else '''' (tRead T f)) (map ((!) ms) is))"

text \<open>The file can be read, written and parsed.\<close>

definition applicable :: "Tools \<Rightarrow> ModuleWorkspace \<Rightarrow> string \<Rightarrow> bool" where
  "applicable T w f \<longleftrightarrow> (case relOf w f of None \<Rightarrow> False
     | Some rel \<Rightarrow> tWritable T (tempPath w rel) \<and>
         (case tRead T f of None \<Rightarrow> False | Some src \<Rightarrow> tParses T f src))"

lemma foldl_cong_map:
  "\<lbrakk>map h xs = map h ys; \<And>a x y. h x = h y \<Longrightarrow> g a x = g a y\<rbrakk> \<Longrightarrow> foldl g a xs = foldl g a ys"
proof (induction xs arbitrary: ys a)
  case (Cons x xs)
  from Cons.prems(1) obtain y ys' where ys: "ys = y # ys'" "h x = h y" "map h xs = map h ys'"
    by (cases ys) auto
  have "g a x = g a y" by (rule Cons.prems(2) [OF ys(2)])
  moreover have "foldl g (g a y) xs = foldl g (g a y) ys'"
    by (rule Cons.IH [OF ys(3)]) (rule Cons.prems(2))
  ultimately show ?case by (simp only: ys(1) foldl_Cons)
qed simp

lemma table_identity: "map identity a = map identity b \<Longrightarrow> buildPositionToMutantsMap a = buildPositionToMutantsMap b"
  unfolding buildPositionToMutantsMap_def
  by (erule foldl_cong_map) (simp add: identity_parts mutantPosKey_def forSite_def)

lemma trial_cong:
  assumes "map identity ms = map identity ms0" "\<And>x. d(p \<mapsto> x) = d0(p \<mapsto> x)" "set is \<subseteq> {..<length ms}"
    and "p = tempPath w (or_else '''' (relOf w f))"
  shows "trialDisk T w f is d ms = trialDisk T w f is d0 ms0"
proof -
  have len: "length ms = length ms0" by (rule identity_length [OF assms(1)])
  have "identity (ms ! i) = identity (ms0 ! i)" if "i \<in> set is" for i
    using that assms(3) len nth_map [of i ms identity] nth_map [of i ms0 identity] assms(1) by auto
  then have "map identity (map ((!) ms) is) = map identity (map ((!) ms0) is)" by simp
  from table_identity [OF this]
  have same: "trialText T f src (map ((!) ms) is) = trialText T f src (map ((!) ms0) is)" for src
    by (simp only: trialText_def)
  show ?thesis unfolding trialDisk_def assms(4) [symmetric] same by (rule assms(2))
qed

lemma applySingleFile_applicable:
  assumes "applicable T w f" "is \<noteq> []"
  shows "\<exists>ms1. applySingleFile T w f is d ms = (None, trialDisk T w f is d ms, ms1)"
proof -
  obtain rel src where r: "relOf w f = Some rel" "tWritable T (tempPath w rel)" "tRead T f = Some src" "tParses T f src"
    using assms(1) by (auto simp: applicable_def split: option.splits)
  let ?text = "or_else '''' (tRender T f src (buildPositionToMutantsMap (map ((!) ms) is)))"
  show ?thesis
  proof (cases "?text = ''''")
    case True
    then show ?thesis using r assms(2)
      by (auto simp: applySingleFile_def ApplySchemataToAST_def writeFile_def trialDisk_def trialText_def Let_def)
  next
    case False
    then show ?thesis using r assms(2)
      by (auto simp: applySingleFile_def ApplySchemataToAST_def writeFile_def trialDisk_def trialText_def Let_def)
  qed
qed

lemma bisect_exact_aux:
  assumes app: "applicable T w f" and cs0: "set cs0 \<subseteq> {..<length ms0}" "distinct cs0"
    and decides: "\<And>S. sublist S cs0 \<Longrightarrow> S \<noteq> [] \<Longrightarrow>
      fileHasCompileErrors (buildText T (trialDisk T w f S d0 ms0)) w f \<longleftrightarrow> (\<exists>i \<in> set S. culprit i)"
    and p: "p = tempPath w (or_else '''' (relOf w f))"
  shows "\<lbrakk>sublist cs cs0; map identity ms = map identity ms0; \<And>x. d(p \<mapsto> x) = d0(p \<mapsto> x)\<rbrakk> \<Longrightarrow>
    case bisectFileMutants T w f cs d ms of (g, b, d', ms') \<Rightarrow>
      g = filter (\<lambda>i. \<not> culprit i) cs \<and> b = filter culprit cs \<and> (\<forall>x. d'(p \<mapsto> x) = d0(p \<mapsto> x))"
proof (induction "length cs" arbitrary: cs d ms rule: less_induct)
  case less
  note len = identity_length [OF less.prems(2)]
  obtain u v where "cs0 = u @ cs @ v" using less.prems(1) by (auto simp: sublist_def)
  with cs0 len have range: "set cs \<subseteq> {..<length ms}" "distinct cs" by auto
  show ?case
  proof (cases "cs = []")
    case True
    then show ?thesis using less.prems(3) by (simp add: bisect_simps(1))
  next
    case ne: False
    obtain ms1 where ap: "applySingleFile T w f cs d ms = (None, trialDisk T w f cs d ms, ms1)"
      using applySingleFile_applicable [OF app ne] by blast
    define d1 where "d1 = trialDisk T w f cs d ms"
    have d1: "d1 = trialDisk T w f cs d0 ms0"
      unfolding d1_def by (rule trial_cong [OF less.prems(2) less.prems(3) range(1) p])
    have upd: "d1(p \<mapsto> x) = d0(p \<mapsto> x)" for x
      unfolding d1 trialDisk_def p [symmetric] by simp
    have errs: "fileHasCompileErrors (buildText T d1) w f \<longleftrightarrow> (\<exists>i \<in> set cs. culprit i)"
      unfolding d1 by (rule decides [OF less.prems(1) ne])
    have k: "map identity ms1 = map identity ms0"
      using applySingleFile_keeps(1) [OF ap range(2,1)] less.prems(2) by simp
    show ?thesis
    proof (cases "\<exists>i \<in> set cs. culprit i")
      case False
      then have "bisectFileMutants T w f cs d ms = (cs, [], d1, ms1)"
        using errs ap ne unfolding d1_def by (intro bisect_simps(3)) simp_all
      then show ?thesis using False upd by (simp add: filter_id_conv filter_empty_conv)
    next
      case bad: True
      show ?thesis
      proof (cases "length cs = 1")
        case True
        then obtain c where c: "cs = [c]" by (auto simp: length_Suc_conv)
        have "bisectFileMutants T w f cs d ms =
            ([], cs, d1, updateAt (compilerMark ''bisect: identified as compile-failing mutant'') cs ms1)"
          using True errs bad ap unfolding d1_def by (intro bisect_simps(4)) simp_all
        then show ?thesis using bad upd by (simp add: c)
      next
        case many: False
        let ?k = "length cs div 2"
        obtain lg lb d2 ms2 where L: "bisectFileMutants T w f (take ?k cs) d1 ms1 = (lg, lb, d2, ms2)"
          by (metis prod_cases4)
        obtain rg rb d3 ms3 where R: "bisectFileMutants T w f (drop ?k cs) d2 ms2 = (rg, rb, d3, ms3)"
          by (metis prod_cases4)
        have sub: "sublist (take ?k cs) cs0" "sublist (drop ?k cs) cs0"
          using less.prems(1) sublist_order.order.trans sublist_take sublist_drop by blast+
        have l: "lg = filter (\<lambda>i. \<not> culprit i) (take ?k cs) \<and> lb = filter culprit (take ?k cs) \<and>
            (\<forall>x. d2(p \<mapsto> x) = d0(p \<mapsto> x))"
          using less.hyps [OF halves_shorter(1) [OF ne many] sub(1) k upd] L by simp
        have "set (take ?k cs) \<subseteq> {..<length ms1}" "distinct (take ?k cs)"
          using range identity_length [OF k] len by (auto dest: in_set_takeD)
        from bisect_OK [OF this(2,1), of T w f d1] L k have k2: "map identity ms2 = map identity ms0"
          by (simp add: bisectOK_def)
        have r: "rg = filter (\<lambda>i. \<not> culprit i) (drop ?k cs) \<and> rb = filter culprit (drop ?k cs) \<and>
            (\<forall>x. d3(p \<mapsto> x) = d0(p \<mapsto> x))"
          using less.hyps [OF halves_shorter(2) [OF ne many] sub(2) k2, of d2] l R by simp
        have "bisectFileMutants T w f cs d ms = (lg @ rg, lb @ rb, d3, ms3)"
          using errs bad ap ne many L R unfolding d1_def by (intro bisect_simps(5)) simp_all
        moreover have "filter P (take ?k cs) @ filter P (drop ?k cs) = filter P cs" for P
          by (metis append_take_drop_id filter_append)
        ultimately show ?thesis using l r by simp
      qed
    qed
  qed
qed

text \<open>
  C10. The bisection finds the culprits: when a selection of the mutants of a file fails to
  compile exactly if it holds a mutant from a set of culprits, the bisection, which always
  ends, returns exactly the culprits as bad and the others as good, both in order, and marks
  the culprits and no other mutant as compile errors.
\<close>

theorem bisection_finds_culprits:
  assumes "applicable T w f" and "distinct cs" and "set cs \<subseteq> {..<length ms}"
    and "\<forall>S \<in> set (sublists cs). S \<noteq> [] \<longrightarrow>
      (fileHasCompileErrors (buildText T (trialDisk T w f S d ms)) w f \<longleftrightarrow> (\<exists>i \<in> set S. culprit i))"
  shows "case bisectFileMutants T w f cs d ms of (good, bad, d', ms') \<Rightarrow>
    good = filter (\<lambda>i. \<not> culprit i) cs \<and> bad = filter culprit cs \<and>
    map identity ms' = map identity ms \<and>
    (\<forall>i < length ms. if i \<in> set cs \<and> culprit i then compileError (ms' ! i)
       else mStatus (ms' ! i) = mStatus (ms ! i))"
proof -
  obtain g b d' ms' where r: "bisectFileMutants T w f cs d ms = (g, b, d', ms')" by (metis prod_cases4)
  have "g = filter (\<lambda>i. \<not> culprit i) cs \<and> b = filter culprit cs"
    using bisect_exact_aux [OF assms(1,3,2) _ refl, of d culprit cs ms d] assms(4) r by simp
  with bisect_OK [OF assms(2,3), of T w f d] r show ?thesis by (simp add: bisectOK_def)
qed

text \<open>A small world: a file of three mutants, of which the one with id two breaks the build.\<close>

definition sampleTools :: Tools where
  "sampleTools = \<lparr>tRead = (\<lambda>f. Some ''package a''), tWritable = (\<lambda>p. True), tParses = (\<lambda>f src. True),
     tRender = (\<lambda>f src tab. Some (case tab (1, 2, 4) of
        Some l \<Rightarrow> if list_ex (\<lambda>m. msID m = 2) l then ''bad'' else ''good'' | None \<Rightarrow> ''good'')),
     tPosition = (\<lambda>f p. (1, p)),
     tBuild = (\<lambda>d. if d ''/tmp/g/a/x.go'' = Some ''bad'' then Some ''a/x.go:1:1: broken'' else None)\<rparr>"

definition sampleMutants :: "Mutant list" where
  "sampleMutants = map (\<lambda>i. sampleMutant i ''/p/a/x.go'' '''') [1, 2, 3]"

lemma sample_table:
  "list_ex (\<lambda>m. mID m = 2) ms \<longleftrightarrow>
     (case buildPositionToMutantsMap ms (1, 2, 4) of
        Some l \<Rightarrow> list_ex (\<lambda>m. msID m = 2) l | None \<Rightarrow> False)"
  if "\<forall>m \<in> set ms. mutantPosKey m = (1, 2, 4)"
  using that
proof (induction ms rule: rev_induct)
  case (snoc m ms)
  then show ?case
    by (auto simp: buildPositionToMutantsMap_def forSite_def split: option.splits)
qed (simp add: buildPositionToMutantsMap_def)

lemma sample_temp: "tempPath sampleWorkspace ''a/x.go'' = ''/tmp/g/a/x.go''"
proof -
  have "PathJoin [''/tmp/g'', ''a/x.go''] = ''/tmp/g/a/x.go''" by code_simp
  then show ?thesis by (simp add: tempPath_def)
qed

lemma sample_errors:
  "fileHasCompileErrors ''a/x.go:1:1: broken'' sampleWorkspace ''/p/a/x.go''"
  "\<not> fileHasCompileErrors '''' sampleWorkspace ''/p/a/x.go''"
proof -
  have p: "ParseCompilerErrors ''a/x.go:1:1: broken'' =
      [\<lparr>ceFile = ''a/x.go'', ceLine = 1, ceCol = 1, ceMessage = ''broken''\<rparr>]"
    "ParseCompilerErrors '''' = []"
    "Clean ''/tmp/g/a/x.go'' = ''/tmp/g/a/x.go''" "\<not> IsAbs ''a/x.go''"
    "PathJoin [''/tmp/g'', ''a/x.go''] = ''/tmp/g/a/x.go''" by code_simp+
  show "fileHasCompileErrors ''a/x.go:1:1: broken'' sampleWorkspace ''/p/a/x.go''"
    "\<not> fileHasCompileErrors '''' sampleWorkspace ''/p/a/x.go''"
    by (simp_all add: fileHasCompileErrors_def p errorPath_def sample_temp)
qed

lemma sample_trial:
  assumes "set S \<subseteq> {..<3}"
  shows "fileHasCompileErrors (buildText sampleTools
      (trialDisk sampleTools sampleWorkspace ''/p/a/x.go'' S Map.empty sampleMutants)) sampleWorkspace ''/p/a/x.go''
    \<longleftrightarrow> (\<exists>i \<in> set S. i = 1)"
proof -
  let ?ms = "map ((!) sampleMutants) S"
  have at: "sampleMutants ! i = sampleMutant (int i + 1) ''/p/a/x.go'' ''''" if "i < 3" for i
    using that by (auto simp: sampleMutants_def less_Suc_eq numeral_3_eq_3)
  have key: "\<forall>m \<in> set ?ms. mutantPosKey m = (1, 2, 4)"
  proof
    fix m assume "m \<in> set ?ms"
    then obtain i where "i < 3" "m = sampleMutants ! i" using assms by auto
    then show "mutantPosKey m = (1, 2, 4)"
      by (simp add: at mutantPosKey_def sampleMutant_def newMutant_def NodeTypeToUint8_def
            NodeTypeOf_def nodeTypeIndex_def)
  qed
  have ex: "list_ex (\<lambda>m. mID m = 2) ?ms \<longleftrightarrow> (\<exists>i \<in> set S. i = 1)"
    using assms by (force simp: list_ex_iff at)
  have r: "tRender sampleTools f src (buildPositionToMutantsMap ?ms) =
      Some (if list_ex (\<lambda>m. mID m = 2) ?ms then ''bad'' else ''good'')" for f src
    unfolding sample_table [OF key] by (simp add: sampleTools_def split: option.split)
  have d: "trialDisk sampleTools sampleWorkspace ''/p/a/x.go'' S Map.empty sampleMutants ''/tmp/g/a/x.go'' =
      Some (if list_ex (\<lambda>m. mID m = 2) ?ms then ''bad'' else ''good'')"
    by (simp add: trialDisk_def trialText_def r sample_temp Let_def)
  show ?thesis
    by (simp add: buildText_def sampleTools_def [THEN arg_cong, of tBuild] d ex sample_errors)
qed

theorem bisection_finds_culprits_witness:
  "case bisectFileMutants sampleTools sampleWorkspace ''/p/a/x.go'' [0, 1, 2] Map.empty sampleMutants of
     (good, bad, d', ms') \<Rightarrow> good = [0, 2] \<and> bad = [1] \<and> compileError (ms' ! 1)"
proof -
  have app: "applicable sampleTools sampleWorkspace ''/p/a/x.go''"
    by (simp add: applicable_def sampleTools_def)
  have "\<forall>S \<in> set (sublists [0, 1, 2]). S \<noteq> [] \<longrightarrow>
      (fileHasCompileErrors (buildText sampleTools
         (trialDisk sampleTools sampleWorkspace ''/p/a/x.go'' S Map.empty sampleMutants)) sampleWorkspace ''/p/a/x.go''
       \<longleftrightarrow> (\<exists>i \<in> set S. i = 1))"
  proof (intro ballI impI)
    fix S :: "nat list" assume "S \<in> set (sublists [0, 1, 2])"
    then have "set S \<subseteq> {..<3}" by auto
    from sample_trial [OF this] show "fileHasCompileErrors (buildText sampleTools
         (trialDisk sampleTools sampleWorkspace ''/p/a/x.go'' S Map.empty sampleMutants)) sampleWorkspace ''/p/a/x.go''
       \<longleftrightarrow> (\<exists>i \<in> set S. i = 1)" .
  qed
  from bisection_finds_culprits [OF app _ _ this] show ?thesis
    by (auto simp: sampleMutants_def split: prod.splits)
qed

subsection \<open>Conservation\<close>

definition census :: "Mutant list \<Rightarrow> (int \<times> Site \<times> operator) multiset" where
  "census ms = mset (map identity ms)"

lemma census_simps [simp]: "census [] = {#}" "census (xs @ ys) = census xs + census ys"
  by (simp_all add: census_def)

lemma census_cong: "map identity a = map identity b \<Longrightarrow> census a = census b"
  by (simp only: census_def)

lemma census_filter_split [conserve]: "census (filter P ms) + census (filter (\<lambda>m. \<not> P m) ms) = census ms"
  by (induction ms) (auto simp: census_def)

context mutant_update
begin

lemma ids_map: "census (map f ms) = census ms"
  by (rule census_cong) (rule map_keeps)

lemma ids_map_some: "census (map (\<lambda>m. if P m then f m else m) ms) = census ms"
  by (rule census_cong) (rule map_some_keeps)

end

lemma partitionIDs_conserve:
  "partitionMutantsByIDs ms bad rnd = (kept, failed) \<Longrightarrow>
     census kept + census failed = census ms \<and> (\<forall>m \<in> set failed. compileError m)"
  using census_filter_split [of "\<lambda>m. mID m \<notin> bad" ms]
  by (auto simp: partitionMutantsByIDs_def mark.ids_map)

lemma partitionPackages_conserve:
  "partitionMutantsByPackages w ms pkgs rnd = (kept, failed) \<Longrightarrow>
     census kept + census failed = census ms \<and> (\<forall>m \<in> set failed. compileError m)"
  using census_filter_split [of "\<lambda>m. \<not> inFailingPackage w pkgs m" ms]
  by (auto simp: partitionMutantsByPackages_def mark.ids_map)

lemma indicesOf_range: "set (indicesOf f ms) \<subseteq> {..<length ms}" "distinct (indicesOf f ms)"
  by (auto simp: indicesOf_def)

lemma bisectAll_keeps:
  "bisectAll T w fs bad d ms = (bad', d', ms') \<Longrightarrow> map identity ms' = map identity ms"
proof (induction fs arbitrary: bad d ms)
  case (Cons f fs)
  obtain g b d1 ms1 where B: "bisectFileMutants T w f (indicesOf f ms) d ms = (g, b, d1, ms1)"
    by (metis prod_cases4)
  have "bisectOK (indicesOf f ms) ms (bisectFileMutants T w f (indicesOf f ms) d ms)"
    by (rule bisect_OK [OF indicesOf_range(2,1)])
  with B have "map identity ms1 = map identity ms" by (simp add: bisectOK_def)
  with Cons.IH Cons.prems B show ?case by simp
qed simp

lemma reapplyLoop_keeps:
  "reapplyLoop T w fs d kept = (e, d', kept') \<Longrightarrow> map identity kept' = map identity kept \<and>
     length kept' = length kept"
proof (induction T w fs d kept rule: reapplyLoop.induct)
  case (2 T w f fs d kept)
  then show ?case
    by (auto simp: Let_def temp.updateAt_keeps temp.updateAt_length split: option.splits if_splits)
qed simp

lemma reapply_keeps:
  "reapplyAffectedFiles T w ord bad ms kept d = (e, d', kept') \<Longrightarrow>
     map identity kept' = map identity kept \<and> length kept' = length kept"
  by (auto simp: reapplyAffectedFiles_def Let_def dest: reapplyLoop_keeps split: prod.splits option.splits)

text \<open>
  The two errors of a round that removes mutants by the numbers in the build output: no number
  belongs to a mutant, or the kept mutants cannot be put back.
\<close>

definition abortedInRound :: "verified \<Rightarrow> bool" where
  "abortedInRound v \<longleftrightarrow> (case vErr v of None \<Rightarrow> False
     | Some e \<Rightarrow> HasPrefix e ''build verification: '' \<or> HasPrefix e ''re-apply after round '')"

definition accounted :: "Mutant list \<Rightarrow> Mutant list \<Rightarrow> verified \<Rightarrow> bool" where
  "accounted ms removed v \<longleftrightarrow> \<not> abortedInRound v \<and> census (vKept v) + census (vRemoved v) = census ms + census removed"

definition doubled :: "Mutant list \<Rightarrow> Mutant list \<Rightarrow> verified \<Rightarrow> bool" where
  "doubled ms removed v \<longleftrightarrow> abortedInRound v \<and> census (vRemoved v) = census ms + census removed \<and>
     mset (vKept v) \<subseteq># mset (vRemoved v)"

lemma verifyLast_accounted: "accounted ms removed (verifyLast T w ms removed d)"
proof (cases "tBuild T d")
  case (Some out)
  let ?pkgs = "identifyFailingPackages w out"
  obtain kept failed where P: "partitionMutantsByPackages w ms ?pkgs 5 = (kept, failed)" by fastforce
  obtain e d1 where R: "resetMutatedFilesInPkgs T w ms ?pkgs d = (e, d1)" by fastforce
  note c = partitionPackages_conserve [OF P]
  show ?thesis
  proof (cases "?pkgs = {}")
    case True
    then show ?thesis using Some by (simp add: verifyLast_def accounted_def abortedInRound_def HasPrefix_def)
  next
    case False
    then show ?thesis using Some P R c
      by (cases e) (simp_all add: verifyLast_def accounted_def abortedInRound_def HasPrefix_def mark.ids_map_some ac_simps)
  qed
qed (simp add: verifyLast_def accounted_def abortedInRound_def HasPrefix_def)

lemma accounted_mono: "accounted kept (removed @ failed) v \<or> doubled kept (removed @ failed) v \<Longrightarrow>
   census kept + census failed = census ms \<Longrightarrow> accounted ms removed v \<or> doubled ms removed v"
  by (auto simp: accounted_def doubled_def ac_simps)

lemma verifyRounds_conserve:
  "verifyRounds T w ord rounds ms removed d = Some v \<Longrightarrow> accounted ms removed v \<or> doubled ms removed v"
proof (induction rounds arbitrary: ms removed d)
  case Nil
  then show ?case using verifyLast_accounted by auto
next
  case (Cons rnd rounds)
  show ?case
  proof (cases "tBuild T d")
    case None
    then show ?thesis using Cons.prems by (auto simp: accounted_def abortedInRound_def HasPrefix_def)
  next
    case out: (Some out)
    obtain bad where bad: "extractMutantIDsFromBuildErrors T w d out = Some bad"
      using Cons.prems out by (auto split: option.splits)
    show ?thesis
    proof (cases "bad = []")
      case scan: False
      obtain kept failed where P: "partitionMutantsByIDs ms (set bad) rnd = (kept, failed)" by fastforce
      obtain e d2 kept1 where R: "reapplyAffectedFiles T w ord (set bad) ms kept d = (e, d2, kept1)"
        by (metis prod_cases3)
      from reapply_keeps [OF R] have k1: "census kept1 = census kept" by (auto intro: census_cong)
      note c = partitionIDs_conserve [OF P]
      consider "length kept = length ms" | err where "length kept \<noteq> length ms" "e = Some err"
        | "length kept \<noteq> length ms" "e = None" by (cases e) auto
      then show ?thesis
      proof cases
        case 1
        then show ?thesis using Cons.prems out bad scan P c
          by (auto simp: doubled_def abortedInRound_def HasPrefix_def untested_by.ids_map Let_def ac_simps
              intro: subset_mset.add_increasing2)
      next
        case 2
        then show ?thesis using Cons.prems out bad scan P R c k1
          by (auto simp: doubled_def abortedInRound_def HasPrefix_def untested_by.ids_map Let_def ac_simps
              intro: subset_mset.add_increasing2)
      next
        case 3
        then have "verifyRounds T w ord rounds kept1 (removed @ failed) d2 = Some v"
          using Cons.prems out bad scan P R by simp
        from accounted_mono [OF Cons.IH [OF this]] k1 c show ?thesis by simp
      qed
    next
      case bisect: True
      let ?files = "failingFiles ord w ms out" and ?pkgs = "identifyFailingPackages w out"
      obtain badSet d1 ms1 where B: "bisectAll T w ?files {} d ms = (badSet, d1, ms1)" by (metis prod_cases3)
      from bisectAll_keeps [OF B] have m1: "census ms1 = census ms" by (rule census_cong)
      obtain keptP failedP where P: "partitionMutantsByPackages w ms1 ?pkgs rnd = (keptP, failedP)" by fastforce
      note cP = partitionPackages_conserve [OF P]
      let ?kept = "filter (\<lambda>m. mID m \<notin> badSet) ms1" and ?failed = "filter (\<lambda>m. mID m \<in> badSet) ms1"
      have cB: "census ?kept + census ?failed = census ms"
        using census_filter_split [of "\<lambda>m. mID m \<notin> badSet" ms1] m1 by simp
      obtain e d2 kept1 where R: "reapplyAffectedFiles T w ord badSet ms1 ?kept d1 = (e, d2, kept1)"
        by (metis prod_cases3)
      from reapply_keeps [OF R] have k1: "census kept1 = census ?kept" by (auto intro: census_cong)
      consider "?files = []" | "?files \<noteq> []" "badSet = {}" "?pkgs = {}"
        | "?files \<noteq> []" "badSet = {}" "?pkgs \<noteq> {}" "keptP = []"
        | "?files \<noteq> []" "badSet = {}" "?pkgs \<noteq> {}" "keptP \<noteq> []"
        | err where "?files \<noteq> []" "badSet \<noteq> {}" "e = Some err"
        | "?files \<noteq> []" "badSet \<noteq> {}" "e = None" by (cases e) auto
      then show ?thesis
      proof cases
        case 1
        then show ?thesis using Cons.prems out bad bisect by (auto simp: accounted_def abortedInRound_def HasPrefix_def)
      next
        case 2
        then show ?thesis using Cons.prems out bad bisect B m1 by (auto simp: accounted_def abortedInRound_def HasPrefix_def)
      next
        case 3
        then show ?thesis using Cons.prems out bad bisect B P cP m1
          by (auto simp: accounted_def abortedInRound_def HasPrefix_def Let_def ac_simps)
      next
        case 4
        then have "verifyRounds T w ord rounds keptP (removed @ failedP)
            (snd (resetMutatedFilesInPkgs T w ms1 ?pkgs d1)) = Some v"
          using Cons.prems out bad bisect B P by (simp add: Let_def)
        from accounted_mono [OF Cons.IH [OF this]] cP m1 show ?thesis by simp
      next
        case 5
        then have "v = \<lparr>vKept = map untestedMark kept1, vRemoved = removed @ ?failed,
            vErr = Some (''re-apply after per-file bisection in round '' @ Itoa rnd @ '': '' @ err), vDisk = d2\<rparr>"
          using Cons.prems out bad bisect B R by (simp add: Let_def)
        then have "accounted ms removed v"
          using k1 cB by (simp add: accounted_def abortedInRound_def HasPrefix_def untested.ids_map ac_simps)
        then show ?thesis ..
      next
        case 6
        then have "verifyRounds T w ord rounds kept1 (removed @ ?failed) d2 = Some v"
          using Cons.prems out bad bisect B R by (simp add: Let_def)
        from accounted_mono [OF Cons.IH [OF this]] k1 cB show ?thesis by simp
      qed
    qed
  qed
qed

text \<open>
  C11. The verification loses and invents no mutant: the kept and the removed mutants together
  are the ones it was given, each once, with or without an error. The only exception are the
  two errors of a round that goes by the numbers in the build output (no number matches, or
  the kept mutants cannot be put back): there the removed mutants alone are all the given ones,
  and every kept one is among them, so that the caller, which puts both lists into its result,
  has it twice.
\<close>

theorem verification_conserves_mutants:
  "case verifyAndCleanSchemata T w ord ms d of
     None \<Rightarrow> True
   | Some v \<Rightarrow>
       if abortedInRound v then census (vRemoved v) = census ms \<and> mset (vKept v) \<subseteq># mset (vRemoved v)
       else census (vKept v) + census (vRemoved v) = census ms"
  using verifyRounds_conserve [of T w ord "[1, 2, 3, 4, 5]" ms "[]" d]
  by (auto simp: verifyAndCleanSchemata_def accounted_def doubled_def split: option.split)

subsection \<open>What is removed\<close>

definition markedIDs :: "int set \<Rightarrow> Mutant list \<Rightarrow> bool" where
  "markedIDs bad ms \<longleftrightarrow> (\<forall>m \<in> set ms. mID m \<in> bad \<longrightarrow> compileError m)"

lemma identity_ids: "map identity a = map identity b \<Longrightarrow> map mID a = map mID b"
  by (auto simp: identity_def list_eq_iff_nth_eq)

lemma bisect_marks:
  assumes "bisectFileMutants T w f cs d ms = (g, b, d1, ms1)" "distinct cs" "set cs \<subseteq> {..<length ms}"
    and "markedIDs bad ms" "distinct (map mID ms)"
  shows "markedIDs (bad \<union> (\<lambda>i. mID (ms1 ! i)) ` set b) ms1"
  unfolding markedIDs_def
proof (intro ballI impI)
  fix m assume m: "m \<in> set ms1" "mID m \<in> bad \<union> (\<lambda>i. mID (ms1 ! i)) ` set b"
  have ok: "mset g + mset b = mset cs" "map identity ms1 = map identity ms"
    "\<forall>i < length ms. if i \<in> set b then compileError (ms1 ! i)
        else mStatus (ms1 ! i) = mStatus (ms ! i) \<and> mKilledBy (ms1 ! i) = mKilledBy (ms ! i)"
    using bisect_OK [OF assms(2,3), of T w f d] assms(1) by (simp_all add: bisectOK_def)
  have len: "length ms1 = length ms" by (rule identity_length [OF ok(2)])
  have idm: "map mID ms1 = map mID ms" by (rule identity_ids [OF ok(2)])
  then have dist: "distinct (map mID ms1)" using assms(5) by simp
  have "set b \<subseteq> set cs" using ok(1) by (metis mset_subset_eq_add_right set_mset_mono set_mset_mset)
  then have b: "set b \<subseteq> {..<length ms1}" using assms(3) len by auto
  obtain i where i: "i < length ms1" "m = ms1 ! i" using m(1) by (auto simp: in_set_conv_nth)
  show "compileError m"
  proof (cases "i \<in> set b")
    case True
    then show ?thesis using ok(3) i len by auto
  next
    case False
    have "mID m \<in> bad"
    proof (rule ccontr)
      assume "mID m \<notin> bad"
      with m(2) obtain j where j: "j \<in> set b" "mID (ms1 ! i) = mID (ms1 ! j)" using i by auto
      with b dist i have "i = j" by (auto simp: distinct_conv_nth)
      with j False show False by simp
    qed
    moreover have "mID m = mID (ms ! i)" using idm i len by (metis nth_map)
    ultimately have "compileError (ms ! i)" using assms(4) i len by (auto simp: markedIDs_def)
    with ok(3) i len False show ?thesis by (auto simp: compileError_def)
  qed
qed

lemma bisectAll_marks:
  "\<lbrakk>bisectAll T w fs bad d ms = (bad', d', ms'); markedIDs bad ms; distinct (map mID ms)\<rbrakk> \<Longrightarrow>
     markedIDs bad' ms'"
proof (induction fs arbitrary: bad d ms)
  case (Cons f fs)
  obtain g b d1 ms1 where B: "bisectFileMutants T w f (indicesOf f ms) d ms = (g, b, d1, ms1)"
    by (metis prod_cases4)
  have "bisectOK (indicesOf f ms) ms (g, b, d1, ms1)"
    using bisect_OK [OF indicesOf_range(2,1)] unfolding B [symmetric] .
  then have "map identity ms1 = map identity ms" by (simp add: bisectOK_def)
  from identity_ids [OF this] Cons.prems(3) have "distinct (map mID ms1)" by simp
  moreover have "markedIDs (bad \<union> (\<lambda>i. mID (ms1 ! i)) ` set b) ms1"
    by (rule bisect_marks [OF B indicesOf_range(2,1) Cons.prems(2,3)])
  ultimately show ?case using Cons.IH Cons.prems(1) B by simp
qed simp

lemma markedIDs_empty: "markedIDs {} ms"
  by (simp add: markedIDs_def)

lemma distinct_filter_ids: "distinct (map mID ms) \<Longrightarrow> distinct (map mID (filter P ms))"
  by (rule distinct_map_filter)

definition removedWhy :: "verified \<Rightarrow> Mutant \<Rightarrow> bool" where
  "removedWhy v m \<longleftrightarrow> compileError m \<or> vErr v \<noteq> None \<and> mStatus m \<noteq> ''''"

lemma untestedBy_status [simp]: "mStatus (untestedBy t m) \<noteq> ''''"
  by (simp add: untestedBy_def StatusUntested_def)

lemma verifyRounds_why:
  "\<lbrakk>verifyRounds T w ord rounds ms removed d = Some v; distinct (map mID ms);
     \<forall>m \<in> set removed. compileError m\<rbrakk> \<Longrightarrow> \<forall>m \<in> set (vRemoved v). removedWhy v m"
proof (induction rounds arbitrary: ms removed d)
  case Nil
  show ?case
  proof (cases "tBuild T d")
    case None
    then show ?thesis using Nil by (auto simp: verifyLast_def removedWhy_def)
  next
    case (Some out)
    obtain kept failed where P: "partitionMutantsByPackages w ms (identifyFailingPackages w out) 5 = (kept, failed)"
      by fastforce
    from partitionPackages_conserve [OF P] Nil Some P show ?thesis
      by (auto simp: verifyLast_def Let_def removedWhy_def split: option.splits prod.splits if_splits)
  qed
next
  case (Cons rnd rounds)
  show ?case
  proof (cases "tBuild T d")
    case None
    then show ?thesis using Cons.prems by (auto simp: removedWhy_def)
  next
    case out: (Some out)
    obtain bad where bad: "extractMutantIDsFromBuildErrors T w d out = Some bad"
      using Cons.prems out by (auto split: option.splits)
    show ?thesis
    proof (cases "bad = []")
      case scan: False
      obtain kept failed where P: "partitionMutantsByIDs ms (set bad) rnd = (kept, failed)" by fastforce
      obtain e d2 kept1 where R: "reapplyAffectedFiles T w ord (set bad) ms kept d = (e, d2, kept1)"
        by (metis prod_cases3)
      have kept: "kept = filter (\<lambda>m. mID m \<notin> set bad) ms" using P by (simp add: partitionMutantsByIDs_def)
      have "map mID kept1 = map mID kept" using reapply_keeps [OF R] identity_ids by blast
      then have dist: "distinct (map mID kept1)"
        using distinct_filter_ids [OF Cons.prems(2)] kept by metis
      show ?thesis
      proof (cases "length kept = length ms \<or> e \<noteq> None")
        case True
        then show ?thesis
          using Cons.prems(1,3) out bad scan P R partitionIDs_conserve [OF P]
          by (auto simp: Let_def removedWhy_def split: if_splits)
      next
        case False
        then have "verifyRounds T w ord rounds kept1 (removed @ failed) d2 = Some v"
          using Cons.prems(1) out bad scan P R by simp
        from Cons.IH [OF this dist] Cons.prems(3) partitionIDs_conserve [OF P]
        show ?thesis by auto
      qed
    next
      case bisect: True
      let ?files = "failingFiles ord w ms out" and ?pkgs = "identifyFailingPackages w out"
      obtain badSet d1 ms1 where B: "bisectAll T w ?files {} d ms = (badSet, d1, ms1)" by (metis prod_cases3)
      have dist1: "distinct (map mID ms1)"
        using identity_ids [OF bisectAll_keeps [OF B]] Cons.prems(2) by simp
      have marked: "\<forall>m \<in> set (filter (\<lambda>m. mID m \<in> badSet) ms1). compileError m"
        using bisectAll_marks [OF B markedIDs_empty Cons.prems(2)] by (auto simp: markedIDs_def)
      obtain keptP failedP where P: "partitionMutantsByPackages w ms1 ?pkgs rnd = (keptP, failedP)" by fastforce
      have keptP: "keptP = filter (\<lambda>m. \<not> inFailingPackage w ?pkgs m) ms1"
        using P by (simp add: partitionMutantsByPackages_def)
      let ?kept = "filter (\<lambda>m. mID m \<notin> badSet) ms1" and ?failed = "filter (\<lambda>m. mID m \<in> badSet) ms1"
      obtain e d2 kept1 where R: "reapplyAffectedFiles T w ord badSet ms1 ?kept d1 = (e, d2, kept1)"
        by (metis prod_cases3)
      have "map mID kept1 = map mID ?kept" using reapply_keeps [OF R] identity_ids by blast
      then have dist: "distinct (map mID kept1)" using distinct_filter_ids [OF dist1] by metis
      consider "?files = []" | "?files \<noteq> []" "badSet = {}" "?pkgs = {}"
        | "?files \<noteq> []" "badSet = {}" "?pkgs \<noteq> {}" "keptP = []"
        | "?files \<noteq> []" "badSet = {}" "?pkgs \<noteq> {}" "keptP \<noteq> []"
        | "?files \<noteq> []" "badSet \<noteq> {}" by blast
      then show ?thesis
      proof cases
        case 1
        then show ?thesis using Cons.prems out bad bisect by (auto simp: removedWhy_def)
      next
        case 2
        then show ?thesis using Cons.prems out bad bisect B by (auto simp: removedWhy_def)
      next
        case 3
        then show ?thesis using Cons.prems out bad bisect B P partitionPackages_conserve [OF P]
          by (auto simp: Let_def removedWhy_def)
      next
        case 4
        then have "verifyRounds T w ord rounds keptP (removed @ failedP)
            (snd (resetMutatedFilesInPkgs T w ms1 ?pkgs d1)) = Some v"
          using Cons.prems out bad bisect B P by (simp add: Let_def)
        from Cons.IH [OF this] distinct_filter_ids [OF dist1] keptP Cons.prems(3)
          partitionPackages_conserve [OF P]
        show ?thesis by auto
      next
        case 5
        show ?thesis
        proof (cases e)
          case None
          with 5 have "verifyRounds T w ord rounds kept1 (removed @ ?failed) d2 = Some v"
            using Cons.prems out bad bisect B R by (simp add: Let_def)
          from Cons.IH [OF this dist] Cons.prems(3) marked show ?thesis by auto
        next
          case (Some err)
          with 5 have "vRemoved v = removed @ ?failed"
            using Cons.prems(1) out bad bisect B R by (auto simp: Let_def)
          with marked Cons.prems(3) show ?thesis by (auto simp: removedWhy_def)
        qed
      qed
    qed
  qed
qed

lemma verifyRounds_removed:
  "\<lbrakk>verifyRounds T w ord rounds ms removed d = Some v; vErr v = None; distinct (map mID ms);
     \<forall>m \<in> set removed. compileError m\<rbrakk> \<Longrightarrow> \<forall>m \<in> set (vRemoved v). compileError m"
  using verifyRounds_why [of T w ord rounds ms removed d v] by (simp add: removedWhy_def)

text \<open>
  Whatever the verification removes carries its reason: when it returns without an
  error, every removed mutant, found by the scan, by bisection or put in quarantine with its
  package, has the status of an error attributed to the compiler.
\<close>

theorem removed_are_compile_errors:
  assumes "verifyAndCleanSchemata T w ord ms d = Some v" "vErr v = None" "distinct (map mID ms)"
  shows "\<forall>m \<in> set (vRemoved v). mStatus m = StatusError \<and> mKilledBy m = ''(compiler)''"
  using verifyRounds_removed [OF assms(1) [unfolded verifyAndCleanSchemata_def] assms(2,3)]
  by (simp add: compileError_def)

definition markedDisk :: disk where
  "markedDisk = [''/tmp/g/a/x.go'' \<mapsto> ''if activeMutantID == 2 {'']"

definition scanTools :: Tools where
  "scanTools = sampleTools\<lparr>tBuild := (\<lambda>d. if d ''/tmp/g/a/x.go'' = Some ''if activeMutantID == 2 {''
     then Some ''a/x.go:1:1: broken'' else None)\<rparr>"

definition sampleRun :: "verified option" where
  "sampleRun = verifyAndCleanSchemata scanTools sampleWorkspace (\<lambda>fs. fs) sampleMutants markedDisk"

lemma sampleRun_summary:
  "map_option (\<lambda>v. (map mID (vKept v), map mID (vRemoved v), vErr v)) sampleRun = Some ([1, 3], [2], None)"
  by code_simp

lemma sampleMutants_ids: "distinct (map mID sampleMutants)"
  by (simp add: sampleMutants_def)

theorem removed_are_compile_errors_witness:
  "case sampleRun of None \<Rightarrow> False
   | Some v \<Rightarrow> map mID (vRemoved v) = [2] \<and> list_all (\<lambda>m. mStatus m = StatusError) (vRemoved v)"
proof -
  from sampleRun_summary obtain v where v: "sampleRun = Some v" "map mID (vRemoved v) = [2]" "vErr v = None"
    by (cases sampleRun) auto
  from removed_are_compile_errors [OF v(1) [unfolded sampleRun_def] v(3) sampleMutants_ids] v(2) show ?thesis
    unfolding v(1) option.case list_all_iff by blast
qed

subsection \<open>The scan of the compiler output\<close>

lemma collectIDs_spec:
  "distinct ids \<Longrightarrow> distinct (collectIDs ls ids) \<and>
     set (collectIDs ls ids) = set ids \<union> {i. \<exists>l \<in> set ls. \<exists>c. lineMarker l = Some (i, c)}"
proof (induction ls ids rule: collectIDs.induct)
  case (2 l ls ids)
  define ids' where "ids' = (case lineMarker l of
       Some (i, _) \<Rightarrow> if i \<in> set ids then ids else ids @ [i] | None \<Rightarrow> ids)"
  have "distinct ids'" "set ids' = set ids \<union> {i. \<exists>c. lineMarker l = Some (i, c)}"
    using 2(2) by (auto simp: ids'_def split: option.splits)
  with 2(1) show ?case by (auto simp: ids'_def [symmetric])
qed simp

text \<open>Line numbers in a window, from zero.\<close>

definition inWindow :: "int \<Rightarrow> nat \<Rightarrow> bool" where
  "inWindow line k \<longleftrightarrow> line - 5 \<le> int k \<and> int k < line + 5"

lemma take_drop_upt: "b \<le> length xs \<Longrightarrow> a \<le> b \<Longrightarrow> take (b - a) (drop a xs) = map ((!) xs) [a..<b]"
  by (rule nth_equalityI) auto

lemma errorWindow_set:
  "errorWindow ls line = Some xs \<Longrightarrow> set xs = {ls ! k | k. k < length ls \<and> inWindow line k}"
proof -
  assume a: "errorWindow ls line = Some xs"
  let ?lo = "max 0 (line - 5)" and ?hi = "min (line + 5) (int (length ls))"
  from a have le: "?lo \<le> ?hi" and xs: "xs = take (nat ?hi - nat ?lo) (drop (nat ?lo) ls)"
    by (auto simp: errorWindow_def Let_def split: if_splits)
  have len: "nat ?hi \<le> length ls" "nat ?lo \<le> nat ?hi" using le by auto
  have "xs = map ((!) ls) [nat ?lo..<nat ?hi]"
    unfolding xs by (rule take_drop_upt [OF len])
  then have "set xs = (\<lambda>k. ls ! k) ` {nat ?lo..<nat ?hi}" by simp
  moreover have "{nat ?lo..<nat ?hi} = {k. k < length ls \<and> inWindow line k}"
    using le by (auto simp: inWindow_def)
  ultimately show ?thesis by auto
qed

lemma extractLoop_spec:
  "\<lbrakk>extractLoop T w d ces ids = Some ids'; distinct ids\<rbrakk> \<Longrightarrow> distinct ids' \<and>
     set ids' = set ids \<union> {i. \<exists>ce \<in> set ces. \<exists>content. readDisk T d (errorPath w ce) = Some content \<and>
       (\<exists>k c. k < length (splitLines content) \<and> inWindow (ceLine ce) k \<and>
          lineMarker (splitLines content ! k) = Some (i, c))}"
proof (induction T w d ces ids rule: extractLoop.induct)
  case (2 T w d ce ces ids)
  show ?case
  proof (cases "readDisk T d (errorPath w ce)")
    case None
    with 2 show ?thesis by auto
  next
    case (Some content)
    then obtain ls where ls: "errorWindow (splitLines content) (ceLine ce) = Some ls"
      using 2(3) by (auto split: option.splits)
    note c = collectIDs_spec [OF 2(4), of ls]
    have "extractLoop T w d ces (collectIDs ls ids) = Some ids'" using 2(3) Some ls by simp
    from 2(2) [OF Some ls this] c errorWindow_set [OF ls] Some show ?thesis by auto
  qed
qed simp

text \<open>
  The scan reports the mutants near the errors: without repetition, the ids of the
  markers in the four lines before, the line itself and the five lines after each error, in
  the file the error names.
\<close>

theorem scan_reports_nearby_mutants:
  assumes "extractMutantIDsFromBuildErrors T w d out = Some ids"
  shows "distinct ids \<and> set ids =
    {i. \<exists>ce \<in> set (ParseCompilerErrors out). \<exists>content. readDisk T d (errorPath w ce) = Some content \<and>
       (\<exists>k c. k < length (splitLines content) \<and> - 4 \<le> (int k + 1) - ceLine ce \<and> (int k + 1) - ceLine ce \<le> 5 \<and>
          lineMarker (splitLines content ! k) = Some (i, c))}"
  using extractLoop_spec [OF assms [unfolded extractMutantIDsFromBuildErrors_def]]
  by (auto simp: inWindow_def) (smt (verit))+

theorem scan_reports_nearby_mutants_witness:
  "extractMutantIDsFromBuildErrors scanTools sampleWorkspace markedDisk ''a/x.go:1:1: broken'' = Some [2] \<and>
   (\<exists>k c. lineMarker (splitLines ''if activeMutantID == 2 {'' ! k) = Some (2, c))"
proof -
  have e: "extractMutantIDsFromBuildErrors scanTools sampleWorkspace markedDisk ''a/x.go:1:1: broken'' = Some [2]"
    by code_simp
  have p: "ParseCompilerErrors ''a/x.go:1:1: broken'' =
      [\<lparr>ceFile = ''a/x.go'', ceLine = 1, ceCol = 1, ceMessage = ''broken''\<rparr>]"
    "readDisk scanTools markedDisk (errorPath sampleWorkspace
      \<lparr>ceFile = ''a/x.go'', ceLine = 1, ceCol = 1, ceMessage = ''broken''\<rparr>) = Some ''if activeMutantID == 2 {''"
    by code_simp+
  have "(2 :: int) \<in> set [2]" by simp
  then have "\<exists>ce \<in> set (ParseCompilerErrors ''a/x.go:1:1: broken'').
      \<exists>content. readDisk scanTools markedDisk (errorPath sampleWorkspace ce) = Some content \<and>
       (\<exists>k c. lineMarker (splitLines content ! k) = Some (2, c))"
    using conjunct2 [OF scan_reports_nearby_mutants [OF e]] by blast
  with e p(2) show ?thesis unfolding p(1) by auto
qed

text \<open>An error past the end of the file makes the slice expression panic.\<close>

lemma scan_panics: "line - 5 > int (length ls) \<Longrightarrow> errorWindow ls line = None"
  by (simp add: errorWindow_def Let_def)

end
