(* ===== verification/Executor.thy ===== *)
theory Executor
  imports Work GoFmt "HOL-Library.List_Lexorder" "HOL-Library.Char_ord"
begin

text \<open>
  \<open>internal/core/executor.go\<close>: progress lines, attribution of compile errors to mutants,
  time limits, the run of one package's mutants and of all packages, and the names of the
  external suites. Durations are integers of nanoseconds. Compiling, running a binary,
  listing packages and parsing a file are outside and come in as arguments; the mutants of a
  package run concurrently there and one after the other here, and the code sorts the
  results by id.
\<close>

subsection \<open>Progress\<close>

record ProgressTracker =
  ptTotal :: int
  ptLastPrinted :: int
  ptDone :: int

definition NewProgressTracker :: "int \<Rightarrow> ProgressTracker" where
  "NewProgressTracker n = \<lparr>ptTotal = n, ptLastPrinted = 0, ptDone = 0\<rparr>"

text \<open>The loop that prints every second percent up to \<open>pct\<close>, with the percents printed.\<close>

function printUpTo :: "int \<Rightarrow> int \<Rightarrow> int list \<times> int" where
  "printUpTo pct lastPrinted =
     (if lastPrinted < pct \<and> 0 < pct then
        (case printUpTo pct (lastPrinted + 2) of (ps, l) \<Rightarrow> ((lastPrinted + 2) # ps, l))
      else ([], lastPrinted))"
  by pat_completeness auto
termination
  by (relation "measure (\<lambda>(pct, l). nat (pct - l))") auto

declare printUpTo.simps [simp del]

text \<open>\<open>None\<close> is the division by a total of zero.\<close>

definition RecordDone :: "ProgressTracker \<Rightarrow> (ProgressTracker \<times> int list) option" where
  "RecordDone p =
     (let d = ptDone p + 1 in
      if ptTotal p = 0 then None
      else case printUpTo ((d * 100) div ptTotal p) (ptLastPrinted p) of
        (ps, l) \<Rightarrow> Some (p\<lparr>ptDone := d, ptLastPrinted := l\<rparr>, ps))"

definition Finish :: "ProgressTracker \<Rightarrow> ProgressTracker \<times> int list" where
  "Finish p =
     (if ptDone p < ptTotal p then
        (let pct = (ptDone p * 100) div ptTotal p
         in (if ptLastPrinted p < pct then p\<lparr>ptLastPrinted := pct\<rparr> else p, [pct]))
      else (p, []))"

fun recordMany :: "nat \<Rightarrow> ProgressTracker \<Rightarrow> (ProgressTracker \<times> int list) option" where
  "recordMany 0 p = Some (p, [])"
| "recordMany (Suc n) p = (case recordMany n p of
     None \<Rightarrow> None
   | Some (q, ps) \<Rightarrow> (case RecordDone q of None \<Rightarrow> None | Some (r, qs) \<Rightarrow> Some (r, ps @ qs)))"

subsection \<open>Attribution of compile errors\<close>

record MutantSite =
  msFile :: string
  msLine :: int
  msCol :: int

definition rebuildMutantSites :: "Mutant list \<Rightarrow> (int \<rightharpoonup> MutantSite)" where
  "rebuildMutantSites ms = foldl (\<lambda>f m. f(mID m \<mapsto>
     \<lparr>msFile = sFile (mSite m), msLine = sLine (mSite m), msCol = sColumn (mSite m)\<rparr>)) Map.empty ms"

datatype compileErr = CompileFailed string | MutationCompileError "string list"

definition errText :: "compileErr \<Rightarrow> string" where
  "errText e = (case e of
     CompileFailed s \<Rightarrow> s
   | MutationCompileError ls \<Rightarrow> ''compilation failed (mutation detected):'' @ newline # Join ls [newline])"

record compileResult =
  compilerOutput :: string
  perMutant :: "int \<rightharpoonup> compileErr"
  attributed :: "int set"
  compileFailed :: bool

record schemataSpan =
  spStart :: int
  spEnd :: int
  spMutant :: int

text \<open>The spans of a parsed file: every \<open>if activeMutantID == N\<close>, the last of equal numbers.\<close>

definition guardID :: "node \<Rightarrow> int option" where
  "guardID n = (case n of
     IfStmt _ _ (BinaryExpr (Ident _ name) _ op (BasicLit _ kind value)) _ _ \<Rightarrow>
       if op = T_EQL \<and> name = ''activeMutantID'' \<and> kind = T_INT then Atoi value else None
   | _ \<Rightarrow> None)"

definition bodyEnd :: "node \<Rightarrow> int" where
  "bodyEnd n = (case n of IfStmt _ _ _ body _ \<Rightarrow> EndPos body | _ \<Rightarrow> 0)"

definition findSchemataSpans :: "(int \<Rightarrow> int) \<Rightarrow> node option \<Rightarrow> (int \<rightharpoonup> schemataSpan)" where
  "findSchemataSpans lineOf fl = (case fl of
     None \<Rightarrow> Map.empty
   | Some tree \<Rightarrow> foldl (\<lambda>f n. case guardID n of
         None \<Rightarrow> f
       | Some i \<Rightarrow> f(i \<mapsto> \<lparr>spStart = lineOf (Pos n), spEnd = lineOf (bodyEnd n), spMutant = i\<rparr>))
       Map.empty (nodes tree))"

text \<open>The innermost span around a line: the loop keeps the one with the greatest start.\<close>

fun innermostSpan :: "int \<Rightarrow> schemataSpan list \<Rightarrow> int \<Rightarrow> int \<Rightarrow> int" where
  "innermostSpan line [] bestID bestStart = bestID"
| "innermostSpan line (sp # sps) bestID bestStart =
     (if spStart sp \<le> line \<and> line \<le> spEnd sp \<and> bestStart < spStart sp
      then innermostSpan line sps (spMutant sp) (spStart sp)
      else innermostSpan line sps bestID bestStart)"

definition errorFile :: "string \<Rightarrow> CompilerError \<Rightarrow> string" where
  "errorFile tempDir ce =
     (let f = Clean (ceFile ce) in if IsAbs f then f else Clean (PathJoin [tempDir, f]))"

definition siteTempFile :: "string \<Rightarrow> string \<Rightarrow> MutantSite \<Rightarrow> string" where
  "siteTempFile tempDir projRoot site =
     Clean (PathJoin [tempDir, or_else '''' (Rel projRoot (msFile site))])"

text \<open>The files whose spans are known: those of the sites, when they hold a span at all.\<close>

definition knownSpans ::
  "string \<Rightarrow> string \<Rightarrow> int list \<Rightarrow> (int \<rightharpoonup> MutantSite) \<Rightarrow> (string \<Rightarrow> schemataSpan list) \<Rightarrow>
   string \<Rightarrow> schemataSpan list option" where
  "knownSpans tempDir projRoot ids sites spansOf f =
     (if spansOf f \<noteq> [] \<and> list_ex (\<lambda>i. case sites i of None \<Rightarrow> False
           | Some s \<Rightarrow> siteTempFile tempDir projRoot s = f) ids
      then Some (spansOf f) else None)"

text \<open>The mutant an error is pinned to, if any.\<close>

definition errorOwner :: "string \<Rightarrow> (string \<Rightarrow> schemataSpan list option) \<Rightarrow> CompilerError \<Rightarrow> int option" where
  "errorOwner tempDir known ce = (case known (errorFile tempDir ce) of
     None \<Rightarrow> None
   | Some sps \<Rightarrow>
       (let i = innermostSpan (ceLine ce) sps (-1) (-1) in if 0 \<le> i then Some i else None))"

definition attributeCompileErrors ::
  "string \<Rightarrow> string \<Rightarrow> int list \<Rightarrow> (int \<rightharpoonup> MutantSite) \<Rightarrow> (string \<Rightarrow> schemataSpan list) \<Rightarrow> string \<Rightarrow>
   compileResult" where
  "attributeCompileErrors tempDir projRoot ids sites spansOf out =
     (let parsed = ParseCompilerErrors out in
      if parsed = [] then
        \<lparr>compilerOutput = out,
         perMutant = (\<lambda>i. if i \<in> set ids then Some (CompileFailed (''compilation failed: '' @ out)) else None),
         attributed = {}, compileFailed = True\<rparr>
      else
        let owner = errorOwner tempDir (knownSpans tempDir projRoot ids sites spansOf);
            linesOf = (\<lambda>i. map formatError (filter (\<lambda>ce. owner ce = Some i) parsed));
            unattributed = map formatError (filter (\<lambda>ce. owner ce = None) parsed);
            generic = CompileFailed (''compilation failed (unattributed):'' @ newline # Join unattributed [newline])
        in \<lparr>compilerOutput = out,
            perMutant = (\<lambda>i. if linesOf i \<noteq> [] then Some (MutationCompileError (linesOf i))
                else if unattributed \<noteq> [] \<and> i \<in> set ids then Some generic else None),
            attributed = set (List.map_filter owner parsed), compileFailed = (unattributed \<noteq> [])\<rparr>)"

text \<open>What \<open>compileWithAttribution\<close> makes of the compiler: its output, when it failed.\<close>

definition compileWithAttribution ::
  "string \<Rightarrow> string \<Rightarrow> int list \<Rightarrow> (int \<rightharpoonup> MutantSite) \<Rightarrow> (string \<Rightarrow> schemataSpan list) \<Rightarrow>
   string option \<Rightarrow> compileResult" where
  "compileWithAttribution tempDir projRoot ids sites spansOf failure = (case failure of
     None \<Rightarrow> \<lparr>compilerOutput = '''', perMutant = Map.empty, attributed = {}, compileFailed = False\<rparr>
   | Some out \<Rightarrow> attributeCompileErrors tempDir projRoot ids sites spansOf out)"

subsection \<open>Time limits\<close>

definition millisecond :: int where "millisecond = 1000000"
definition second :: int where "second = 1000000000"
definition maxBaselineCap :: int where "maxBaselineCap = 5 * second"
definition minMutantTimeout :: int where "minMutantTimeout = 500 * millisecond"
definition defaultMutantTimeout :: int where "defaultMutantTimeout = 10 * second"

text \<open>The median of the accepted runs, at least 100 ms; no run gives the default.\<close>

definition measureBaseline :: "int list \<Rightarrow> int \<times> bool" where
  "measureBaseline durations =
     (if durations = [] then (defaultMutantTimeout, False)
      else (max (sort durations ! (length durations div 2)) (100 * millisecond), True))"

definition secondsText :: "int \<Rightarrow> string" where
  "secondsText d = fmtFixed 0 (of_int d / of_int second) @ ''s''"

definition timeoutFor :: "int \<Rightarrow> string \<times> int" where
  "timeoutFor baseline =
     (let b = (if baseline > maxBaselineCap then maxBaselineCap else baseline);
          t = b * 3;
          t1 = (if t > 30 * second then 30 * second else t);
          t2 = (if t1 < minMutantTimeout then minMutantTimeout else t1)
      in (secondsText t2, t2))"

definition testArgs :: "string \<Rightarrow> string list \<Rightarrow> string list" where
  "testArgs timeout tests =
     (let t = (if timeout = ''0s'' \<or> timeout = '''' then ''5s'' else timeout)
      in (''-test.timeout='' @ t) # (if tests \<noteq> [] then [''-test.run='' @ Join tests ''|''] else []))"

text \<open>The arguments \<open>runTestBinary\<close> gives to the binary.\<close>

definition runArgs :: "string \<Rightarrow> string \<Rightarrow> string list" where
  "runArgs testFilter testTimeout =
     [''-test.v''] @ (if testTimeout \<noteq> '''' then [''-test.timeout='' @ testTimeout] else [])
     @ (if testFilter \<noteq> '''' then [''-test.run='' @ testFilter] else [])"

definition mutantArgs :: "string list \<Rightarrow> int \<Rightarrow> string list" where
  "mutantArgs tests timeout =
     runArgs (if tests \<noteq> [] then Join tests ''|'' else '''') (secondsText timeout)"

subsection \<open>Running the mutants of a package\<close>

text \<open>
  \<open>run i\<close> is the run of the package's binary on mutant \<open>i\<close>: its output, the text of its error
  if any, whether the deadline passed, and the time it took.
\<close>

type_synonym packageRun = "int \<Rightarrow> string \<times> string option \<times> bool \<times> int"

definition runMutant :: "packageRun \<Rightarrow> int \<Rightarrow> mutantResult" where
  "runMutant run i = (case run i of (raw, err, deadline, duration) \<Rightarrow>
     (let r = classifyVerboseRun raw (err \<noteq> None) deadline in
      \<lparr>rID = i, rStatus = rrStatus r, rErr = err, rKilledBy = rrKilledBy r,
       rKillDuration = duration, rKillOutput = rrKillOutput r\<rparr>))"

definition executorRelPath :: "string \<Rightarrow> string \<Rightarrow> string" where
  "executorRelPath tempDir pkgDir =
     (let rel = or_else '''' (Rel tempDir pkgDir) in if rel = ''.'' then ''.'' else ''./'' @ rel)"

definition plainResult :: "int \<Rightarrow> string \<Rightarrow> mutantResult" where
  "plainResult i status = \<lparr>rID = i, rStatus = status, rErr = None, rKilledBy = '''',
     rKillDuration = 0, rKillOutput = ''''\<rparr>"

definition compileErrorResult :: "compileResult \<Rightarrow> int \<Rightarrow> compileErr \<Rightarrow> mutantResult" where
  "compileErrorResult res i e = \<lparr>rID = i, rStatus = ''error'', rErr = Some (errText e),
     rKilledBy = (if i \<in> attributed res then ''(compiler)'' else ''compilation error''),
     rKillDuration = 0, rKillOutput = errText e\<rparr>"

definition noBinaryResult :: "compileResult \<Rightarrow> int \<Rightarrow> mutantResult" where
  "noBinaryResult res i = \<lparr>rID = i, rStatus = ''error'', rErr = None, rKilledBy = ''(compiler)'',
     rKillDuration = 0, rKillOutput = compilerOutput res\<rparr>"

definition keptResult :: "Mutant \<Rightarrow> mutantResult" where
  "keptResult m = \<lparr>rID = mID m, rStatus = mStatus m, rErr = mError m, rKilledBy = mKilledBy m,
     rKillDuration = mKillDuration m, rKillOutput = mKillOutput m\<rparr>"

definition ranResult :: "Mutant list \<Rightarrow> packageRun \<Rightarrow> int \<Rightarrow> mutantResult" where
  "ranResult pkgMuts run i = (case find (\<lambda>m. mID m = i) pkgMuts of
      Some m \<Rightarrow> if mStatus m = ''untested'' \<or> mStatus m = ''error'' then keptResult m else runMutant run i
    | None \<Rightarrow> runMutant run i)"

text \<open>
  One package: \<open>hasTests\<close> is the answer of \<open>go list\<close> (\<open>None\<close> on an error), \<open>res\<close> the compile
  result, \<open>binary\<close> whether the test binary exists.
\<close>

definition runPackage ::
  "Mutant list \<Rightarrow> int list \<Rightarrow> bool option \<Rightarrow> compileResult \<Rightarrow> bool \<Rightarrow> packageRun \<Rightarrow> mutantResult list" where
  "runPackage pkgMuts ids hasTests res binary run =
     (if hasTests = Some False then map (\<lambda>i. plainResult i ''untested'') ids
      else
        List.map_filter (\<lambda>i. map_option (compileErrorResult res i) (perMutant res i)) ids
        @ (let rest = filter (\<lambda>i. perMutant res i = None) ids in
           if \<not> binary then map (noBinaryResult res) rest
           else map (ranResult pkgMuts run) rest))"

text \<open>
  All packages: \<open>pkgResult\<close> gives the results of a package for its sorted ids. The keys of
  the package map are sorted, and so are the results by id.
\<close>

definition compileAndRunPackages ::
  "string list \<Rightarrow> (string \<Rightarrow> int list) \<Rightarrow> (string \<Rightarrow> int list \<Rightarrow> mutantResult list) \<Rightarrow> mutantResult list" where
  "compileAndRunPackages pkgs idsOf pkgResult =
     sort_key rID (concat (map (\<lambda>p. pkgResult p (sort (idsOf p))) (sort pkgs)))"

text \<open>The tests of a package: those listed for the directory of its first mutant that has any.\<close>

fun packageTests :: "string \<Rightarrow> (string \<rightharpoonup> string list) \<Rightarrow> Mutant list \<Rightarrow> string list" where
  "packageTests cwd testsByPkg [] = []"
| "packageTests cwd testsByPkg (m # ms) =
     (if hasFile m then
        (case testsByPkg (Abs cwd (Dir (sFile (mSite m)))) of
           Some tests \<Rightarrow> tests | None \<Rightarrow> packageTests cwd testsByPkg ms)
      else packageTests cwd testsByPkg ms)"

definition sumMutantIDs :: "string list \<Rightarrow> (string \<Rightarrow> int list) \<Rightarrow> nat" where
  "sumMutantIDs pkgs idsOf = sum_list (map (length \<circ> idsOf) pkgs)"

subsection \<open>Stand-alone packages\<close>

text \<open>The directory that is copied: the nearest parent with a \<open>go.mod\<close>, or the topmost.\<close>

function standaloneRoot :: "(string \<Rightarrow> bool) \<Rightarrow> string \<Rightarrow> string" where
  "standaloneRoot exists d =
     (if Dir d = d then d
      else if exists (PathJoin [Dir d, ''go.mod'']) then Dir d
      else standaloneRoot exists (Dir d))"
  by pat_completeness auto
termination
  by (relation "measure (climb_measure \<circ> snd)") (auto dest: Dir_shrinks)

declare standaloneRoot.simps [simp del]

definition compileMark :: "compileResult \<Rightarrow> string \<Rightarrow> Mutant \<Rightarrow> Mutant" where
  "compileMark res tempDir m = (case perMutant res (mID m) of
     None \<Rightarrow> m
   | Some e \<Rightarrow>
       (let m1 = m\<lparr>mStatus := ''error'', mError := Some (errText e), mTempDir := tempDir\<rparr>
        in if mID m \<in> attributed res
           then m1\<lparr>mKilledBy := ''(compiler)'', mKillOutput := ''compilation failed: '' @ errText e\<rparr>
           else m1))"

definition testable :: "Mutant \<Rightarrow> bool" where
  "testable m \<longleftrightarrow> mStatus m = '''' \<or> mStatus m = ''untested''"

definition runStandalonePackage ::
  "Mutant list \<Rightarrow> bool option \<Rightarrow> compileResult \<Rightarrow> bool \<Rightarrow> packageRun \<Rightarrow> string \<Rightarrow> Mutant list" where
  "runStandalonePackage ms hasTests res binary run tempDir =
     (if hasTests = Some False then
        map (\<lambda>m. if mStatus m = '''' then m\<lparr>mStatus := ''untested''\<rparr> else m) ms
      else let ms1 = map (compileMark res tempDir) ms in
        if filter testable ms1 = [] then ms1
        else if \<not> binary then
          map (\<lambda>m. if mStatus m = '''' then m\<lparr>mStatus := ''error'', mKilledBy := ''(compiler)'',
                 mKillOutput := ''test binary not created despite test files present''\<rparr> else m) ms1
        else map (\<lambda>m. if testable m then recordResult tempDir (runMutant run (mID m)) m else m) ms1)"

subsection \<open>External suites\<close>

definition listArg :: "string \<Rightarrow> string" where
  "listArg p =
     (if \<not> HasPrefix p ''./'' \<and> \<not> HasPrefix p ''/'' \<and> \<not> HasPrefix p ''../'' \<and> p \<noteq> ''.''
      then ''./'' @ p else p)"

text \<open>The packages of a suite: \<open>goList\<close> is the output of \<open>go list\<close>, \<open>None\<close> on an error.\<close>

definition resolveSuitePaths :: "(string \<Rightarrow> string option) \<Rightarrow> string \<Rightarrow> ExternalSuite \<Rightarrow> string list" where
  "resolveSuitePaths goList workspaceDir suite = concat (map (\<lambda>p. case goList (listArg p) of
       None \<Rightarrow> []
     | Some out \<Rightarrow> List.map_filter (\<lambda>line. if line = '''' then None
           else map_option (\<lambda>rel. ''./'' @ rel) (Rel workspaceDir line)) (splitLines (TrimSpace out)))
     (SuitePaths suite))"

definition safeName :: "string \<Rightarrow> string" where
  "safeName relPkg = map (\<lambda>c. if c = CHR ''/'' \<or> c = CHR ''.'' then CHR ''_'' else c) relPkg"

text \<open>The binaries built: \<open>builds\<close> tells which packages compile to a binary.\<close>

definition buildExternalSuiteBinaries ::
  "(string \<Rightarrow> bool) \<Rightarrow> string \<Rightarrow> string list \<Rightarrow> (string \<rightharpoonup> string)" where
  "buildExternalSuiteBinaries builds binDir paths = foldl (\<lambda>f p.
     if builds p then f(p \<mapsto> PathJoin [binDir, safeName p @ ''.test'']) else f) Map.empty paths"

subsection \<open>Progress lines\<close>

lemma printUpTo_spec:
  "\<lbrakk>0 \<le> l; even l\<rbrakk> \<Longrightarrow> printUpTo pct l =
     (map (\<lambda>k. l + 2 * (int k + 1)) [0..<nat ((pct - l + 1) div 2)],
      if l < pct then l + 2 * ((pct - l + 1) div 2) else l)"
proof (induction pct l rule: printUpTo.induct)
  case (1 pct l)
  show ?case
  proof (cases "l < pct \<and> 0 < pct")
    case False
    with 1(2) have "pct \<le> l" by auto
    then have "nat ((pct - l + 1) div 2) = 0" by simp
    with False \<open>pct \<le> l\<close> show ?thesis by (simp add: printUpTo.simps [of pct l])
  next
    case True
    have n: "nat ((pct - l + 1) div 2) = Suc (nat ((pct - (l + 2) + 1) div 2))"
      using True by (simp add: nat_eq_iff Suc_nat_eq_nat_zadd1)
    have ih: "printUpTo pct (l + 2) =
        (map (\<lambda>k. l + 2 + 2 * (int k + 1)) [0..<nat ((pct - (l + 2) + 1) div 2)],
         if l + 2 < pct then l + 2 + 2 * ((pct - (l + 2) + 1) div 2) else l + 2)"
      using 1 True by simp
    have up: "[0..<Suc m] = 0 # map Suc [0..<m]" for m by (simp add: upt_conv_Cons map_Suc_upt del: upt_Suc)
    have last: "(if l + 2 < pct then l + 2 + 2 * ((pct - (l + 2) + 1) div 2) else l + 2) =
        l + 2 * ((pct - l + 1) div 2)"
      using True by presburger
    show ?thesis
      unfolding printUpTo.simps [of pct l] n up using True
      by (simp add: ih last del: upt_Suc)
  qed
qed

definition percentDone :: "int \<Rightarrow> nat \<Rightarrow> int" where
  "percentDone whole n = (int n * 100) div whole"

definition evenUp :: "int \<Rightarrow> int" where
  "evenUp p = 2 * ((p + 1) div 2)"

lemma recordMany_spec:
  assumes "0 < whole"
  shows "recordMany n (NewProgressTracker whole) =
     Some (\<lparr>ptTotal = whole, ptLastPrinted = evenUp (percentDone whole n), ptDone = int n\<rparr>,
           map (\<lambda>k. 2 * (int k + 1)) [0..<nat (evenUp (percentDone whole n) div 2)])"
proof (induction n)
  case 0
  then show ?case by (simp add: NewProgressTracker_def percentDone_def evenUp_def)
next
  case (Suc n)
  let ?p = "percentDone whole n" and ?q = "percentDone whole (Suc n)"
  let ?l = "evenUp ?p"
  have mono: "?p \<le> ?q" unfolding percentDone_def using assms by (intro zdiv_mono1) auto
  have p0: "0 \<le> ?p" using assms by (simp add: percentDone_def pos_imp_zdiv_nonneg_iff)
  have ev: "0 \<le> ?l" "even ?l" using p0 by (auto simp: evenUp_def)
  have q: "((int n + 1) * 100) div whole = ?q" by (simp add: percentDone_def algebra_simps)
  have halves: "nat ((?q - ?l + 1) div 2) = nat (evenUp ?q div 2) - nat (?l div 2)"
    "nat (?l div 2) \<le> nat (evenUp ?q div 2)"
    using mono p0 unfolding evenUp_def by auto
  have lastq: "(if ?l < ?q then ?l + 2 * ((?q - ?l + 1) div 2) else ?l) = evenUp ?q"
    using mono unfolding evenUp_def by presburger
  define a b where "a = nat (?l div 2)" and "b = nat (evenUp ?q div 2)"
  have l2: "?l = 2 * int a" using ev by (simp add: a_def)
  have "map (\<lambda>k. 2 * (int k + 1)) [0..<a] @ map (\<lambda>k. ?l + 2 * (int k + 1)) [0..<b - a] =
      map (\<lambda>k. 2 * (int k + 1)) [0..<b]"
  proof -
    have "[0..<b] = [0..<a] @ map (\<lambda>k. k + a) [0..<b - a]"
      using halves(2) upt_add_eq_append [of 0 a "b - a"] by (simp add: a_def b_def map_add_upt)
    then show ?thesis by (simp add: l2 algebra_simps)
  qed
  moreover have "RecordDone \<lparr>ptTotal = whole, ptLastPrinted = ?l, ptDone = int n\<rparr> =
      Some (\<lparr>ptTotal = whole, ptLastPrinted = evenUp ?q, ptDone = int n + 1\<rparr>,
            map (\<lambda>k. ?l + 2 * (int k + 1)) [0..<b - a])"
  proof -
    have "printUpTo (((int n + 1) * 100) div whole) ?l =
        (map (\<lambda>k. ?l + 2 * (int k + 1)) [0..<b - a], evenUp ?q)"
      unfolding q printUpTo_spec [OF ev] lastq halves(1) a_def b_def ..
    then show ?thesis using assms by (simp only: RecordDone_def Let_def ProgressTracker.simps) simp
  qed
  ultimately show ?case using Suc by (simp add: a_def [symmetric] b_def [symmetric] algebra_simps)
qed

text \<open>
  Progress is reported once per step: after any number of finished mutants the printed
  percents are exactly 2, 4, 6 and so on up to the share done rounded up to an even number,
  each once and in order; nothing fails as long as there is a mutant to wait for.
\<close>

theorem progress_lines_exact:
  assumes "0 < whole"
  shows "map_option snd (recordMany n (NewProgressTracker whole)) =
    Some (map (\<lambda>k. 2 * (int k + 1)) [0..<nat (((int n * 100) div whole + 1) div 2)])"
  by (simp add: recordMany_spec [OF assms] evenUp_def percentDone_def)

theorem progress_lines_exact_witness:
  "map_option snd (recordMany 3 (NewProgressTracker 40)) = Some [2, 4, 6, 8]"
  using progress_lines_exact [of 40 3] by (simp add: upt_rec)

subsection \<open>Laws of the time limits\<close>

lemma round_even_zero:
  assumes "0 \<le> r"
  shows "round_even r = 0 \<longleftrightarrow> r \<le> 1 / 2"
proof (cases "r < 1")
  case True
  with assms have "\<lfloor>r\<rfloor> = 0" by linarith
  then show ?thesis by (simp add: round_even_def Let_def)
next
  case False
  then have "1 \<le> \<lfloor>r\<rfloor>" by linarith
  then have "1 \<le> round_even r" by (simp add: round_even_def Let_def)
  with False show ?thesis by simp
qed

lemma timeoutFor_value: "snd (timeoutFor b) = max minMutantTimeout (3 * min b maxBaselineCap)"
  by (auto simp: timeoutFor_def Let_def minMutantTimeout_def maxBaselineCap_def second_def millisecond_def)

lemma Itoa_zero: "Itoa n = ''0'' \<longleftrightarrow> n = 0"
proof -
  have "Itoa 0 = ''0''" by code_simp
  then show ?thesis using Itoa_inj [of n 0] by simp
qed

lemma secondsText_zero: "0 \<le> d \<Longrightarrow> secondsText d = ''0s'' \<longleftrightarrow> d \<le> minMutantTimeout"
proof -
  assume d: "0 \<le> d"
  have "secondsText d = Itoa (round_even (of_int d / of_int second)) @ ''s''"
    using d by (simp add: secondsText_def fmtFixed_def second_def Let_def)
  then have "secondsText d = ''0s'' \<longleftrightarrow> round_even (of_int d / of_int second) = 0"
    using Itoa_zero by (metis append_eq_append_conv append_Cons append_Nil)
  also have "\<dots> \<longleftrightarrow> rat_of_int d / of_int second \<le> 1 / 2"
    using d by (intro round_even_zero) (simp add: second_def)
  also have "\<dots> \<longleftrightarrow> d \<le> minMutantTimeout"
    by (simp add: second_def minMutantTimeout_def millisecond_def divide_le_eq)
  finally show ?thesis .
qed

text \<open>
  Time limits are bounded: the limit of a mutant is three times the measured baseline,
  never below half a second and never above fifteen seconds, so the cap of thirty seconds is
  never reached; the argument printed for the binary is \<open>0s\<close>, which turns its own time limit
  off, exactly for the smallest limit.
\<close>

theorem mutant_timeout_bounds:
  assumes "durations \<noteq> []"
  shows "let (baseline, ok) = measureBaseline durations; (arg, limit) = timeoutFor baseline
     in ok \<and> 100 * millisecond \<le> baseline \<and>
        500 * millisecond \<le> limit \<and> limit \<le> 15 * second \<and>
        limit = max (500 * millisecond) (3 * min baseline (5 * second)) \<and>
        (arg = ''0s'' \<longleftrightarrow> limit = 500 * millisecond)"
proof -
  obtain b where b: "measureBaseline durations = (b, True)" "100 * millisecond \<le> b"
    using assms by (simp add: measureBaseline_def)
  obtain arg t where t: "timeoutFor b = (arg, t)" by fastforce
  have "fst (timeoutFor b) = secondsText (snd (timeoutFor b))"
    by (simp only: timeoutFor_def Let_def fst_conv snd_conv)
  with t have arg: "arg = secondsText t" by simp
  have val: "t = max (500 * millisecond) (3 * min b (5 * second))"
    using timeoutFor_value [of b] t by (simp add: minMutantTimeout_def maxBaselineCap_def)
  have t0: "0 \<le> t" "500 * millisecond \<le> t" using val by (auto simp: millisecond_def)
  have "arg = ''0s'' \<longleftrightarrow> t = 500 * millisecond"
    using secondsText_zero [OF t0(1)] t0(2) by (auto simp: arg minMutantTimeout_def)
  moreover have "t \<le> 15 * second" using val by (auto simp: second_def millisecond_def)
  ultimately show ?thesis using b t t0 val by (simp add: Let_def)
qed

theorem mutant_timeout_bounds_witness:
  "timeoutFor (fst (measureBaseline [90000000, 120000000])) = (''0s'', 500000000)"
proof -
  have "measureBaseline [90000000, 120000000] = (120000000, True)" by code_simp
  with mutant_timeout_bounds [of "[90000000, 120000000]"] show ?thesis
    by (cases "timeoutFor 120000000") (auto simp: Let_def millisecond_def second_def)
qed

end
