(* ===== verification/ExecProps.thy ===== *)
theory ExecProps
  imports Executor
begin

text \<open>
  What the executor promises: a compile error goes to the mutant whose schemata block is the
  innermost around it, every mutant of a package gets exactly one result, and what the
  workspace call of the attribution loses.
\<close>

subsection \<open>Attribution\<close>

definition covers :: "schemataSpan \<Rightarrow> int \<Rightarrow> bool" where
  "covers sp line \<longleftrightarrow> spStart sp \<le> line \<and> line \<le> spEnd sp"

lemma innermostSpan_none:
  "\<forall>sp \<in> set sps. covers sp line \<longrightarrow> spStart sp \<le> st \<Longrightarrow> innermostSpan line sps b st = b"
  by (induction sps) (auto simp: covers_def)

lemma innermostSpan_some:
  assumes "sp \<in> set sps" "covers sp line" "st < spStart sp"
    "\<forall>q \<in> set sps. covers q line \<longrightarrow> q = sp \<or> spStart q < spStart sp"
  shows "innermostSpan line sps b st = spMutant sp"
  using assms
proof (induction sps arbitrary: b st)
  case (Cons q qs)
  show ?case
  proof (cases "q = sp")
    case True
    have "\<forall>r \<in> set qs. covers r line \<longrightarrow> spStart r \<le> spStart sp" using Cons.prems(4) by force
    with True Cons.prems show ?thesis by (auto simp: covers_def innermostSpan_none)
  next
    case False
    with Cons.prems have m: "sp \<in> set qs" "\<forall>r \<in> set qs. covers r line \<longrightarrow> r = sp \<or> spStart r < spStart sp"
      by auto
    show ?thesis
    proof (cases "covers q line \<and> st < spStart q")
      case True
      then have "spStart q < spStart sp" using False Cons.prems(4) by auto
      from Cons.IH [OF m(1) Cons.prems(2) this m(2)] True show ?thesis by (simp add: covers_def)
    next
      case False
      from Cons.IH [OF m(1) Cons.prems(2,3) m(2)] False show ?thesis by (auto simp: covers_def)
    qed
  qed
qed simp

lemma innermostSpan_out:
  "innermostSpan line sps b st = b \<or>
   (\<exists>sp \<in> set sps. covers sp line \<and> innermostSpan line sps b st = spMutant sp)"
proof (induction sps arbitrary: b st)
  case (Cons q qs)
  show ?case
  proof (cases "covers q line \<and> st < spStart q")
    case True
    then have "innermostSpan line (q # qs) b st = innermostSpan line qs (spMutant q) (spStart q)"
      by (simp add: covers_def)
    with Cons.IH [of "spMutant q" "spStart q"] True show ?thesis by auto
  next
    case False
    then have "innermostSpan line (q # qs) b st = innermostSpan line qs b st"
      by (auto simp: covers_def)
    with Cons.IH [of b st] show ?thesis by auto
  qed
qed simp

lemma attribute_lines:
  fixes tempDir projRoot ids sites spansOf out
  defines "owner \<equiv> errorOwner tempDir (knownSpans tempDir projRoot ids sites spansOf)"
    and "res \<equiv> attributeCompileErrors tempDir projRoot ids sites spansOf out"
  assumes "ce \<in> set (ParseCompilerErrors out)" "owner ce = Some i"
  shows "i \<in> attributed res"
    "\<exists>ls. perMutant res i = Some (MutationCompileError ls) \<and> formatError ce \<in> set ls"
  using assms by (force simp: attributeCompileErrors_def Let_def filter_empty_conv map_filter_def)+

text \<open>
  C17. A compile error goes to the mutant that caused it: when the compiler reports an error in
  a file that is the transformed copy of the file of one of the mutants being run
  (\<open>siteTempFile\<close>, from the executor's project root to its temporary directory), the error is
  charged to the mutant of the innermost schemata block around its line, with its text among
  that mutant's errors. So it is for a stand-alone package. In a workspace the executor is given
  the temporary directory as its project root, the copies are not found, and no error is charged
  to any mutant (\<open>workspace_attribution_lost\<close> below).
\<close>

theorem compile_error_to_innermost:
  assumes "ce \<in> set (ParseCompilerErrors out)"
    "i \<in> set ids" "sites i = Some s" "siteTempFile tempDir projRoot s = errorFile tempDir ce"
    "sp \<in> set (spansOf (errorFile tempDir ce))" "covers sp (ceLine ce)" "0 \<le> spStart sp" "0 \<le> spMutant sp"
    "\<forall>q \<in> set (spansOf (errorFile tempDir ce)). covers q (ceLine ce) \<longrightarrow> q = sp \<or> spStart q < spStart sp"
  shows "let res = attributeCompileErrors tempDir projRoot ids sites spansOf out
    in errorOwner tempDir (knownSpans tempDir projRoot ids sites spansOf) ce = Some (spMutant sp) \<and>
       spMutant sp \<in> attributed res \<and>
       (\<exists>ls. perMutant res (spMutant sp) = Some (MutationCompileError ls) \<and> formatError ce \<in> set ls)"
proof -
  have "innermostSpan (ceLine ce) (spansOf (errorFile tempDir ce)) (-1) (-1) = spMutant sp"
    using assms(5-7,9) by (intro innermostSpan_some) auto
  moreover have "knownSpans tempDir projRoot ids sites spansOf (errorFile tempDir ce) = Some (spansOf (errorFile tempDir ce))"
    using assms(2-5) by (auto simp: knownSpans_def list_ex_iff intro!: bexI [of _ i])
  ultimately have o: "errorOwner tempDir (knownSpans tempDir projRoot ids sites spansOf) ce = Some (spMutant sp)"
    using assms(8) by (simp add: errorOwner_def)
  from attribute_lines [OF assms(1) o] o show ?thesis by (simp add: Let_def)
qed

definition nestedSpans :: "schemataSpan list" where
  "nestedSpans = [\<lparr>spStart = 3, spEnd = 20, spMutant = 1\<rparr>, \<lparr>spStart = 8, spEnd = 12, spMutant = 2\<rparr>]"

definition nestedSites :: "int \<rightharpoonup> MutantSite" where
  "nestedSites = [1 \<mapsto> \<lparr>msFile = ''/p/a.go'', msLine = 1, msCol = 1\<rparr>,
                  2 \<mapsto> \<lparr>msFile = ''/p/a.go'', msLine = 2, msCol = 1\<rparr>]"

theorem compile_error_to_innermost_witness:
  "errorOwner ''/t'' (knownSpans ''/t'' ''/p'' [1, 2] nestedSites
      (\<lambda>f. if f = ''/t/a.go'' then nestedSpans else []))
    \<lparr>ceFile = ''./a.go'', ceLine = 9, ceCol = 2, ceMessage = ''declared and not used: x''\<rparr> = Some 2"
proof -
  let ?ce = "\<lparr>ceFile = ''./a.go'', ceLine = 9, ceCol = 2, ceMessage = ''declared and not used: x''\<rparr>"
  have "ParseCompilerErrors ''./a.go:9:2: declared and not used: x'' = [?ce]" by code_simp
  then have p: "?ce \<in> set (ParseCompilerErrors ''./a.go:9:2: declared and not used: x'')" by simp
  have f: "errorFile ''/t'' ?ce = ''/t/a.go''" by code_simp
  have k: "siteTempFile ''/t'' ''/p'' \<lparr>msFile = ''/p/a.go'', msLine = 2, msCol = 1\<rparr> = errorFile ''/t'' ?ce"
    by code_simp
  have i: "2 \<in> set [1, 2 :: int]" "nestedSites 2 = Some \<lparr>msFile = ''/p/a.go'', msLine = 2, msCol = 1\<rparr>"
    by (simp_all add: nestedSites_def)
  show ?thesis
    using compile_error_to_innermost [where spansOf = "\<lambda>f. if f = ''/t/a.go'' then nestedSpans else []"
      and sp = "\<lparr>spStart = 8, spEnd = 12, spMutant = 2\<rparr>" and i = "2" and ids = "[1, 2]"
      and sites = nestedSites and s = "\<lparr>msFile = ''/p/a.go'', msLine = 2, msCol = 1\<rparr>"
      and tempDir = "''/t''" and projRoot = "''/p''" and ce = ?ce
      and out = "''./a.go:9:2: declared and not used: x''", OF p i(1) i(2) k]
    by (simp add: f nestedSpans_def covers_def Let_def)
qed

subsection \<open>Attribution in a workspace\<close>

lemma parts_Clean: "IsAbs p \<Longrightarrow> parts (Clean p) = parts p"
proof -
  assume p: "IsAbs p"
  have np: "\<forall>c \<in> set (parts p). proper c" by (rule parts_proper)
  then have s: "\<forall>c \<in> set (parts p). sep \<notin> set c" by (auto simp: proper_def)
  show ?thesis
  proof (cases "parts p = []")
    case True
    with p show ?thesis by (simp add: Clean_abs parts_def [of "[sep]"] clean_comps_def)
  next
    case False
    then have "Split (Clean p) sep = [] # parts p"
      using s p by (simp add: Clean_abs Split_Join_sep)
    then have "parts (Clean p) = rev (foldl (clean_step True) [] (parts p))"
      by (simp add: parts_def [of "Clean p"] clean_comps_def)
    with np show ?thesis by (simp add: clean_push)
  qed
qed

lemma Clean_idem_abs: "IsAbs p \<Longrightarrow> Clean (Clean p) = Clean p"
  by (metis Clean_abs IsAbs_Clean parts_Clean)

text \<open>The workspace run gives its own temporary directory as the project root.\<close>

lemma siteTempFile_workspace:
  assumes "IsAbs tempDir" "IsAbs (msFile s)"
  shows "siteTempFile tempDir tempDir s = Clean (msFile s)"
proof -
  obtain r where r: "Rel tempDir (msFile s) = Some r" using Rel_abs [OF assms] by auto
  have "PathJoin [tempDir, r] = Clean (msFile s)" by (rule Join_Rel [OF assms r])
  with r assms show ?thesis by (simp add: siteTempFile_def Clean_idem_abs)
qed

lemma attribute_unknown:
  assumes "knownSpans tempDir projRoot ids sites spansOf = Map.empty" "ParseCompilerErrors out \<noteq> []"
  shows "attributed (attributeCompileErrors tempDir projRoot ids sites spansOf out) = {}"
    and "\<exists>t. perMutant (attributeCompileErrors tempDir projRoot ids sites spansOf out)
            = (\<lambda>i. if i \<in> set ids then Some (CompileFailed t) else None)"
proof -
  have o: "errorOwner tempDir Map.empty = (\<lambda>ce. None)"
    by (rule ext) (simp add: errorOwner_def)
  show "attributed (attributeCompileErrors tempDir projRoot ids sites spansOf out) = {}"
    using assms by (simp add: attributeCompileErrors_def Let_def o)
  show "\<exists>t. perMutant (attributeCompileErrors tempDir projRoot ids sites spansOf out)
            = (\<lambda>i. if i \<in> set ids then Some (CompileFailed t) else None)"
    using assms by (auto simp: attributeCompileErrors_def Let_def o)
qed

lemma map_filter_total: "List.map_filter (\<lambda>x. Some (f x)) xs = map f xs"
  by (induction xs) (auto simp: map_filter_simps)

lemma map_filter_cong: "(\<And>x. x \<in> set xs \<Longrightarrow> f x = g x) \<Longrightarrow> List.map_filter f xs = List.map_filter g xs"
  by (induction xs) (auto simp: map_filter_simps split: option.split)

text \<open>
  In a workspace one mutant that does not compile takes its whole package down: the call
  passes the temporary directory as the project root, so the files searched for schemata
  blocks are the untouched originals, no error is attributed, and every mutant of the
  package is reported as a compile error.
\<close>

theorem workspace_attribution_lost:
  assumes "IsAbs tempDir" "ParseCompilerErrors out \<noteq> []"
    "\<forall>i s. sites i = Some s \<longrightarrow> IsAbs (msFile s) \<and> spansOf (Clean (msFile s)) = []"
  shows "let res = compileWithAttribution tempDir tempDir ids sites spansOf (Some out)
    in attributed res = {} \<and>
       (\<forall>pkgMuts binary run. map rID (runPackage pkgMuts ids (Some True) res binary run) = ids \<and>
          (\<forall>r \<in> set (runPackage pkgMuts ids (Some True) res binary run).
             rStatus r = ''error'' \<and> rKilledBy r = ''compilation error''))"
proof -
  let ?res = "attributeCompileErrors tempDir tempDir ids sites spansOf out"
  have k: "knownSpans tempDir tempDir ids sites spansOf = Map.empty"
  proof
    fix f
    show "knownSpans tempDir tempDir ids sites spansOf f = None"
      using assms(1,3) by (auto simp: knownSpans_def list_ex_iff siteTempFile_workspace split: option.splits)
  qed
  obtain t where t: "perMutant ?res = (\<lambda>i. if i \<in> set ids then Some (CompileFailed t) else None)"
    using attribute_unknown(2) [OF k assms(2)] by blast
  have a: "attributed ?res = {}" by (rule attribute_unknown(1) [OF k assms(2)])
  have run: "runPackage pkgMuts ids (Some True) ?res binary run
      = map (\<lambda>i. compileErrorResult ?res i (CompileFailed t)) ids" for pkgMuts binary run
  proof -
    have "List.map_filter (\<lambda>i. map_option (compileErrorResult ?res i) (perMutant ?res i)) ids
       = List.map_filter (\<lambda>i. Some (compileErrorResult ?res i (CompileFailed t))) ids"
      by (rule map_filter_cong) (simp add: t)
    moreover have "filter (\<lambda>i. perMutant ?res i = None) ids = []" by (simp add: t)
    ultimately show ?thesis by (simp add: runPackage_def map_filter_total)
  qed
  show ?thesis
    by (simp add: compileWithAttribution_def Let_def run a compileErrorResult_def comp_def)
qed

theorem workspace_attribution_lost_witness:
  "attributed (compileWithAttribution ''/t'' ''/t'' [1, 2] nestedSites
     (\<lambda>f. if f = ''/t/a.go'' then nestedSpans else []) (Some ''./a.go:9:2: declared and not used: x'')) = {}"
proof -
  have "ParseCompilerErrors ''./a.go:9:2: declared and not used: x'' \<noteq> []" by code_simp
  moreover have "\<forall>i s. nestedSites i = Some s \<longrightarrow> IsAbs (msFile s) \<and>
      (\<lambda>f. if f = ''/t/a.go'' then nestedSpans else []) (Clean (msFile s)) = []"
  proof -
    have "Clean ''/p/a.go'' = ''/p/a.go''" "IsAbs ''/p/a.go''" by code_simp+
    then show ?thesis by (auto simp: nestedSites_def split: if_splits)
  qed
  moreover have "IsAbs ''/t''" by code_simp
  ultimately show ?thesis
    using workspace_attribution_lost [of "''/t''" "''./a.go:9:2: declared and not used: x''" nestedSites
      "\<lambda>f. if f = ''/t/a.go'' then nestedSpans else []" "[1, 2]"]
    by (simp add: Let_def)
qed

subsection \<open>One result per mutant\<close>

lemma compile_failures_ids:
  "map rID (List.map_filter (\<lambda>i. map_option (compileErrorResult res i) (per i)) ids)
     = filter (\<lambda>i. per i \<noteq> None) ids"
  by (induction ids) (auto simp: map_filter_simps compileErrorResult_def split: option.split)

lemma runMutant_id [simp]: "rID (runMutant run i) = i"
  by (simp add: runMutant_def Let_def split: prod.split)

lemma runMutant_status:
  "rStatus (runMutant run i) \<in> {''timeout'', ''killed'', ''survived'', ''error'', ''untested''}"
proof (cases "run i")
  case (fields raw err deadline duration)
  have "rStatus (runMutant run i) = rrStatus (classifyVerboseRun raw (err \<noteq> None) deadline)"
    by (simp add: runMutant_def fields Let_def)
  then show ?thesis by (simp only: classify_statuses)
qed

lemma ranResult_id [simp]: "rID (ranResult pkgMuts run i) = i"
  by (auto simp: ranResult_def keptResult_def find_Some_iff split: option.split)

lemma ranResult_status:
  "rStatus (ranResult pkgMuts run i) \<in> {''timeout'', ''killed'', ''survived'', ''error'', ''untested''}"
  using runMutant_status [of run i] by (auto simp: ranResult_def keptResult_def split: option.split)

lemma map_same: "(\<And>i. rID (f i) = i) \<Longrightarrow> map (rID \<circ> f) xs = xs"
  by (simp add: map_idI)

lemma runPackage_ids: "mset (map rID (runPackage pkgMuts ids hasTests res binary run)) = mset ids"
proof -
  have "map (rID \<circ> noBinaryResult res) xs = xs" "map (rID \<circ> ranResult pkgMuts run) xs = xs"
    "map (rID \<circ> (\<lambda>i. plainResult i s)) xs = xs" for xs s
    by (rule map_same; simp add: noBinaryResult_def plainResult_def)+
  then have "map rID (runPackage pkgMuts ids hasTests res binary run)
     = (if hasTests = Some False then ids
        else filter (\<lambda>i. perMutant res i \<noteq> None) ids @ filter (\<lambda>i. perMutant res i = None) ids)"
    by (simp add: runPackage_def compile_failures_ids Let_def)
  then show ?thesis
    using mset_filter_split [of "\<lambda>i. perMutant res i \<noteq> None" ids] by (simp del: mset_map)
qed

lemma runPackage_statuses:
  "rStatus ` set (runPackage pkgMuts ids hasTests res binary run)
     \<subseteq> {''timeout'', ''killed'', ''survived'', ''error'', ''untested''}"
  using ranResult_status [of pkgMuts run]
  by (auto simp: runPackage_def Let_def plainResult_def noBinaryResult_def compileErrorResult_def
      map_filter_def)

text \<open>
  C16. Every mutant handed to the packages comes back with exactly one verdict: the results
  are ordered by id, their ids are those of the packages with their multiplicities, as many
  as the progress counts, and each status is one of the five of a run.
\<close>

theorem package_results_complete:
  "let results = compileAndRunPackages pkgs idsOf
         (\<lambda>p ids. runPackage (muts p) ids (tests p) (res p) (binary p) (run p))
   in sorted (map rID results) \<and>
      mset (map rID results) = (\<Sum>p \<in># mset pkgs. mset (idsOf p)) \<and>
      length results = sumMutantIDs pkgs idsOf \<and>
      rStatus ` set results \<subseteq> {''timeout'', ''killed'', ''survived'', ''error'', ''untested''}"
proof -
  let ?one = "\<lambda>p. runPackage (muts p) (sort (idsOf p)) (tests p) (res p) (binary p) (run p)"
  let ?results = "compileAndRunPackages pkgs idsOf
         (\<lambda>p ids. runPackage (muts p) ids (tests p) (res p) (binary p) (run p))"
  have m: "mset (map rID (concat (map ?one ps))) = (\<Sum>p \<in># mset ps. mset (idsOf p))" for ps
    by (induction ps) (simp_all add: runPackage_ids del: mset_map)
  have r: "mset (map rID ?results) = (\<Sum>p \<in># mset pkgs. mset (idsOf p))"
    using m [of "sort pkgs"] unfolding compileAndRunPackages_def by (simp only: mset_map mset_sort)
  have "length ?results = size (\<Sum>p \<in># mset pkgs. mset (idsOf p))"
    by (subst r [symmetric]) (simp only: size_mset length_map)
  also have "\<dots> = sumMutantIDs pkgs idsOf"
    unfolding sumMutantIDs_def by (induction pkgs) simp_all
  finally have l: "length ?results = sumMutantIDs pkgs idsOf" .
  have s: "rStatus ` set ?results \<subseteq> {''timeout'', ''killed'', ''survived'', ''error'', ''untested''}"
  proof -
    have "set ?results = (\<Union>p \<in> set pkgs. set (?one p))" by (simp add: compileAndRunPackages_def)
    then show ?thesis
      by (simp only: image_UN) (rule UN_least, rule runPackage_statuses)
  qed
  have "sorted (map rID ?results)" by (simp add: compileAndRunPackages_def)
  with r l s show ?thesis by (simp only: Let_def simp_thms)
qed

lemma standalone_verdicts:
  "map mID (runStandalonePackage ms hasTests res binary run tempDir) = map mID ms"
  "list_all (\<lambda>m. mStatus m \<noteq> '''') (runStandalonePackage ms hasTests res binary run tempDir)"
proof -
  have id: "mID (compileMark res tempDir m) = mID m" for m
    by (auto simp: compileMark_def Let_def split: option.split)
  show "map mID (runStandalonePackage ms hasTests res binary run tempDir) = map mID ms"
    by (auto simp: runStandalonePackage_def Let_def id recordResult_def comp_def)
  have run: "mStatus (recordResult tempDir (runMutant run i) m) \<noteq> ''''" for i m
    using runMutant_status [of run i] by (auto simp: recordResult_def)
  show "list_all (\<lambda>m. mStatus m \<noteq> '''') (runStandalonePackage ms hasTests res binary run tempDir)"
    by (auto simp: runStandalonePackage_def Let_def list_all_iff run testable_def filter_empty_conv)
qed

subsection \<open>Paths\<close>

text \<open>
  The search for the module of a stand-alone package starts above the package, so a package
  that is its own module climbs on, here to the top directory, which is then copied.
\<close>

lemma standaloneRoot_own_module:
  "standaloneRoot (\<lambda>f. f = ''/home/me/app/go.mod'') ''/home/me/app'' = ''/''"
  by code_simp

text \<open>Two packages whose names differ in a separator share the binary.\<close>

lemma safeName_collides:
  "buildExternalSuiteBinaries (\<lambda>p. True) ''/bins'' [''./it/a'', ''./it_a''] ''./it/a''
     = buildExternalSuiteBinaries (\<lambda>p. True) ''/bins'' [''./it/a'', ''./it_a''] ''./it_a''"
  by code_simp

end
