(* ===== verification/Pipeline.thy ===== *)
theory Pipeline
  imports PreflightProps Verify ExecProps
begin

text \<open>
  \<open>GenerateAndRunSchemata\<close> and \<open>runStandalone\<close> (\<open>internal/core/schemata.go\<close>) with
  \<open>applySchemata\<close> (\<open>workspace.go\<close>): how the components are put together. The record
  \<open>World\<close> holds what is outside: the file system, temporary directories, the copy made by
  \<open>Setup\<close>, the tools of the preflight and of the build, and for each package the answers of
  \<open>go list\<close>, of the compiler and of the test binary. The result \<open>None\<close> is the panic of the
  scan of the build output. Sites of one file share its syntax tree; the files of
  \<open>applySchemata\<close> are written one after the other, all of them also when one fails.
  \<open>outWarning\<close> is the logged error of a verification that failed in part. Cancellation is left
  out, and with it the errors of the worker groups.
\<close>

record packageAnswers =
  paHasTests :: "bool option"
  paCompile :: "string option"
  paBinary :: bool
  paRun :: packageRun

record 'p World =
  wCwd :: string
  wExists :: "string \<Rightarrow> bool"
  wReadFile :: "string \<Rightarrow> string option"
  wTree :: "string \<Rightarrow> fsnode"
  wHash :: "string \<Rightarrow> string option"
  wSha :: "string \<Rightarrow> string"
  wPre :: "'p PreTools"
  wOrd :: "string list \<Rightarrow> string list"
  wTemp :: "string option"
  wCopy :: "ModuleWorkspace \<Rightarrow> string list \<Rightarrow> disk option"
  wCopySuites :: "ModuleWorkspace \<Rightarrow> string list \<Rightarrow> disk \<Rightarrow> disk option"
  wGoVersion :: string
  wPackage :: "disk \<Rightarrow> string \<Rightarrow> string list \<Rightarrow> packageAnswers"
  wSpans :: "disk \<Rightarrow> string \<Rightarrow> schemataSpan list"
  wGoList :: "string \<Rightarrow> string option"
  wSuiteBuilds :: "ExternalSuite \<Rightarrow> string \<Rightarrow> bool"
  wBinDir :: "ExternalSuite \<Rightarrow> string"
  wExec :: execution
  wStandalone :: "string \<Rightarrow> Mutant list \<Rightarrow> (bool option \<times> compileResult \<times> bool \<times> packageRun \<times> string) option"

record Options =
  oBaseDir :: string
  oProjectRoot :: string
  oTestPaths :: "string list"
  oTestsByPkg :: "string \<rightharpoonup> string list"
  oUnitTests :: bool
  oExternal :: ExternalSuitesConfig
  oCache :: "Cache option"

record Outcome =
  outWarning :: "string option"
  outTotal :: nat
  outMutants :: "Mutant list"
  outErr :: "string option"
  outCache :: "Cache option"

subsection \<open>Preparation\<close>

definition filterUntested :: "'p World \<Rightarrow> Options \<Rightarrow> Mutant list \<Rightarrow> Mutant list" where
  "filterUntested W A ms =
     (if oTestPaths A \<noteq> [] then filterMutantsByTestPackages (wCwd W) ms (oTestPaths A)
      else if oUnitTests A then filterMutantsWithoutTests (wCwd W) (wTree W) ms (oProjectRoot A)
      else ms)"

definition markInvalid :: "PreflightResult \<Rightarrow> Mutant \<Rightarrow> Mutant" where
  "markInvalid r m =
     (let m1 = m\<lparr>mStatus := prStatus r, mError := prError r, mKillOutput := prReason r\<rparr>
      in if prStatus r = StatusCompileError then m1\<lparr>mKilledBy := ''(compiler)''\<rparr> else m1)"

fun collectInvalid :: "PreflightResult list \<Rightarrow> Mutant list \<Rightarrow> Mutant list" where
  "collectInvalid [] ms = []"
| "collectInvalid (r # rs) ms =
     (let i = length (takeWhile (\<lambda>m. mID m \<noteq> prID r) ms) in
      if i < length ms
      then markInvalid r (ms ! i) # collectInvalid rs (ms[i := markInvalid r (ms ! i)])
      else collectInvalid rs ms)"

text \<open>\<open>ResolveCache\<close> answers \<open>nil\<close> when every mutant has an entry.\<close>

definition allCached :: "'p World \<Rightarrow> Cache option \<Rightarrow> Mutant list \<Rightarrow> bool" where
  "allCached W co ms = (case co of
     None \<Rightarrow> False
   | Some c \<Rightarrow>
       (let h = collectHashes (wHash W) (map (sFile \<circ> mSite) ms) Map.empty
        in length (filter (\<lambda>m. cachedEntry (wSha W) c h m \<noteq> None) ms) = length ms))"

subsection \<open>Writing the mutants into the copy\<close>

definition fileImports :: "node \<Rightarrow> string list" where
  "fileImports tree = List.map_filter (\<lambda>n. case n of
     ImportSpec _ _ (BasicLit _ _ value) _ \<Rightarrow> Some (trimQuotes value) | _ \<Rightarrow> None) (nodes tree)"

definition importsNonStdlib :: "Mutant list \<Rightarrow> bool" where
  "importsNonStdlib ms = list_ex (\<lambda>m. case sFileAST (mSite m) of
     None \<Rightarrow> False | Some tree \<Rightarrow> list_ex (\<lambda>p. \<not> isStdlib p) (fileImports tree)) ms"

definition astIndices :: "string \<Rightarrow> Mutant list \<Rightarrow> nat list" where
  "astIndices f ms = filter (\<lambda>i. hasAST (ms ! i)) (indicesOf f ms)"

fun applyLoop ::
  "Tools \<Rightarrow> ModuleWorkspace \<Rightarrow> string list \<Rightarrow> disk \<Rightarrow> Mutant list \<Rightarrow> string option \<times> disk \<times> Mutant list" where
  "applyLoop T w [] d ms = (None, d, ms)"
| "applyLoop T w (f # fs) d ms =
     (let failed = (\<lambda>err. case applyLoop T w fs d ms of (_, d1, ms1) \<Rightarrow> (Some err, d1, ms1)) in
      if f = '''' then applyLoop T w fs d ms
      else case tRead T f of
        None \<Rightarrow> failed (''failed to read '' @ f)
      | Some src \<Rightarrow>
          (case relOf w f of
             None \<Rightarrow> failed ''failed to compute rel path''
           | Some rel \<Rightarrow>
               (case ApplySchemataToAST T f (tempPath w rel) src (map ((!) ms) (astIndices f ms)) d of
                  None \<Rightarrow> failed (''schemata failed on '' @ tempPath w rel)
                | Some (posMap, d1) \<Rightarrow>
                    applyLoop T w fs d1 (updateAt (setTemp posMap) (astIndices f ms) ms))))"

definition tempGroups :: "ModuleWorkspace \<Rightarrow> Mutant list \<Rightarrow> (string \<times> Mutant list) list" where
  "tempGroups w ms =
     (let place = (\<lambda>m. tempPath w (or_else '''' (relOf w (mutantFile m)))); sorted = sort_key mID ms
      in map (\<lambda>f. (f, filter (\<lambda>m. place m = f) sorted)) (remdups (map place sorted)))"

definition applySchemata ::
  "Tools \<Rightarrow> ModuleWorkspace \<Rightarrow> Mutant list \<Rightarrow> disk \<Rightarrow> string option \<times> bool \<times> disk \<times> Mutant list" where
  "applySchemata T w ms d =
     (case applyLoop T w (sort (remdups (map mutantFile (filter hasAST ms)))) d ms of
        (Some err, d1, ms1) \<Rightarrow> (Some err, False, d1, ms1)
      | (None, d1, ms1) \<Rightarrow>
          if list_ex (\<lambda>m. relOf w (mutantFile m) = None) ms1
          then (Some ''failed to compute rel path'', False, d1, ms1)
          else (case InjectSchemataHelpers T (tempGroups w ms1) d1 of
                  (Some err, d2) \<Rightarrow> (Some err, False, d2, ms1)
                | (None, d2) \<Rightarrow> (None, importsNonStdlib ms1, d2, ms1)))"

subsection \<open>Stand-alone packages\<close>

definition writeBack :: "nat list \<Rightarrow> Mutant list \<Rightarrow> Mutant list \<Rightarrow> Mutant list" where
  "writeBack is new ms = foldl (\<lambda>ms (i, m). ms[i := m]) ms (zip is new)"

fun standaloneLoop ::
  "'p World \<Rightarrow> nat list \<Rightarrow> string list \<Rightarrow> Mutant list \<Rightarrow> string option \<times> Mutant list" where
  "standaloneLoop W toRun [] ms = (None, ms)"
| "standaloneLoop W toRun (p # ps) ms =
     (let is = filter (\<lambda>i. Dir (mutantFile (ms ! i)) = p) toRun in
      case wStandalone W p (map ((!) ms) is) of
        None \<Rightarrow> (Some ''stand-alone package failed'', ms)
      | Some (hasTests, res, binary, run, tempDir) \<Rightarrow>
          standaloneLoop W toRun ps
            (writeBack is (runStandalonePackage (map ((!) ms) is) hasTests res binary run tempDir) ms))"

definition runStandalone ::
  "'p World \<Rightarrow> Options \<Rightarrow> nat \<Rightarrow> Mutant list \<Rightarrow> nat list \<Rightarrow> (string \<rightharpoonup> string) option \<Rightarrow> Outcome" where
  "runStandalone W A tot ms toRun hashes =
     (let pkgs = sort (remdups (map (\<lambda>i. Dir (mutantFile (ms ! i))) toRun)) in
      if wTemp W = None
      then \<lparr>outWarning = None, outTotal = tot, outMutants = [], outErr = Some ''failed to create parent temp dir'', outCache = oCache A\<rparr>
      else case standaloneLoop W toRun pkgs ms of
        (Some err, ms1) \<Rightarrow>
          \<lparr>outWarning = None, outTotal = tot, outMutants = finalizeMutants ms1, outErr = Some err, outCache = oCache A\<rparr>
      | (None, ms1) \<Rightarrow>
          \<lparr>outWarning = None, outTotal = tot, outMutants = finalizeMutants ms1, outErr = None,
           outCache = SaveCache (wSha W) (wHash W) (finalizeMutants ms1) (oCache A) hashes\<rparr>)"

subsection \<open>The workspace\<close>

definition goModFile :: "ModuleWorkspace \<Rightarrow> string" where
  "goModFile w = PathJoin [TempDir w, ''go.mod'']"

definition Setup :: "'p World \<Rightarrow> string \<Rightarrow> (ModuleWorkspace \<times> disk) option" where
  "Setup W baseDir = (case wTemp W of
     None \<Rightarrow> None
   | Some tempDir \<Rightarrow>
       (case SetupRoots (wCwd W) (wExists W) (wReadFile W) baseDir (NewModuleWorkspace tempDir) of
          None \<Rightarrow> None
        | Some (w, moduleRoots) \<Rightarrow>
            map_option (\<lambda>d. (w, d(goModFile w \<mapsto> MakeSelfContained (wGoVersion W) (d (goModFile w)))))
              (wCopy W w moduleRoots)))"

definition suiteBinaries :: "'p World \<Rightarrow> ModuleWorkspace \<Rightarrow> ExternalSuite \<Rightarrow> string list option" where
  "suiteBinaries W w s =
     (let paths = resolveSuitePaths (wGoList W) (absModule w) s in
      if paths = [] then None
      else let built = buildExternalSuiteBinaries (wSuiteBuilds W s) (wBinDir W s) paths
           in Some (List.map_filter built (wOrd W (remdups paths))))"

definition buildAllExternalSuiteBinaries ::
  "'p World \<Rightarrow> ModuleWorkspace \<Rightarrow> ExternalSuitesConfig \<Rightarrow> (string \<rightharpoonup> string list)" where
  "buildAllExternalSuiteBinaries W w cfg = foldl (\<lambda>f s. case suiteBinaries W w s of
      None \<Rightarrow> f | Some bs \<Rightarrow> if bs = [] then f else f(SuiteName s \<mapsto> bs)) Map.empty (Suites cfg)"

text \<open>The sites the executor gets: the place in the copy where it is known.\<close>

definition tempSites :: "Mutant list \<Rightarrow> (int \<rightharpoonup> MutantSite)" where
  "tempSites ms = foldl (\<lambda>f m. if \<not> hasFile m then f else f(mID m \<mapsto>
     \<lparr>msFile = mutantFile m,
      msLine = (if mTempLine m = 0 then sLine (mSite m) else mTempLine m),
      msCol = (if mTempCol m = 0 then sColumn (mSite m) else mTempCol m)\<rparr>)) Map.empty ms"

definition packageMutants :: "ModuleWorkspace \<Rightarrow> Mutant list \<Rightarrow> string \<Rightarrow> Mutant list" where
  "packageMutants w ms p = filter (\<lambda>m. hasFile m \<and>
     (case relOf w (mutantFile m) of None \<Rightarrow> False | Some rel \<Rightarrow> packageOf w rel = p)) ms"

definition packageResults ::
  "'p World \<Rightarrow> Options \<Rightarrow> ModuleWorkspace \<Rightarrow> disk \<Rightarrow> Mutant list \<Rightarrow> string \<Rightarrow> int list \<Rightarrow> mutantResult list" where
  "packageResults W A w d ms p ids =
     (let pkgMuts = packageMutants w ms p;
          answers = wPackage W d p (packageTests (wCwd W) (oTestsByPkg A) pkgMuts);
          res = compileWithAttribution (TempDir w) (TempDir w) ids (tempSites ms) (wSpans W d) (paCompile answers)
      in runPackage pkgMuts ids (paHasTests answers) res (paBinary answers) (paRun answers))"

definition packageKeys :: "ModuleWorkspace \<Rightarrow> Mutant list \<Rightarrow> (string \<rightharpoonup> int list) \<Rightarrow> string list" where
  "packageKeys w ms pkgToIDs = filter (\<lambda>p. pkgToIDs p \<noteq> None)
     (remdups (map (\<lambda>m. packageOf w (or_else '''' (relOf w (mutantFile m)))) ms))"

definition runUnit ::
  "'p World \<Rightarrow> Options \<Rightarrow> ModuleWorkspace \<Rightarrow> disk \<Rightarrow> (string \<rightharpoonup> int list) \<Rightarrow> (int \<rightharpoonup> nat) \<Rightarrow> Mutant list \<Rightarrow> Mutant list" where
  "runUnit W A w d pkgToIDs idx ms =
     collectResults ms (compileAndRunPackages (packageKeys w ms pkgToIDs) (\<lambda>p. or_else [] (pkgToIDs p))
       (packageResults W A w d ms)) idx (TempDir w)"

text \<open>The phases in the order of the configuration. Only suites of the configuration have binaries.\<close>

definition hasBinaries :: "ExternalSuitesConfig \<Rightarrow> (string \<rightharpoonup> string list) \<Rightarrow> bool" where
  "hasBinaries cfg binaries \<longleftrightarrow> list_ex (\<lambda>s. binaries (SuiteName s) \<noteq> None) (Suites cfg)"

definition runPhases ::
  "'p World \<Rightarrow> Options \<Rightarrow> ModuleWorkspace \<Rightarrow> disk \<Rightarrow> (string \<rightharpoonup> string list) \<Rightarrow> (string \<rightharpoonup> int list) \<Rightarrow>
   (int \<rightharpoonup> nat) \<Rightarrow> Mutant list \<Rightarrow> Mutant list" where
  "runPhases W A w d binaries pkgToIDs idx ms =
     (let cfg = oExternal A;
          early = (ExtEnabled cfg \<and> RunMode cfg = ''before_unit'' \<and> hasBinaries cfg binaries);
          ms1 = (if early then runExternalPhaseWithBinaries (wExec W) ms cfg binaries else ms);
          ids1 = (if early then filterKilledFromPkgMap pkgToIDs ms1 idx else pkgToIDs);
          ms2 = (if oUnitTests A then runUnit W A w d ids1 idx ms1 else ms1)
      in if \<not> early \<and> ExtEnabled cfg \<and> Suites cfg \<noteq> [] \<and> hasBinaries cfg binaries
         then runExternalPhaseWithBinaries (wExec W) ms2 cfg binaries else ms2)"

definition failAll ::
  "Options \<Rightarrow> nat \<Rightarrow> Mutant list \<Rightarrow> Mutant list \<Rightarrow> string \<Rightarrow> Outcome" where
  "failAll A tot ms invalid err =
     \<lparr>outWarning = None, outTotal = tot, outMutants = finalizeMutants (setMutantErrors ms err) @ invalid,
      outErr = Some err, outCache = oCache A\<rparr>"

definition simplifyDisk :: "'p World \<Rightarrow> Options \<Rightarrow> ModuleWorkspace \<Rightarrow> bool \<Rightarrow> disk \<Rightarrow> disk" where
  "simplifyDisk W A w hasNonStdlib d =
     (case simplifyGoMod w (wGoVersion W) (hasNonStdlib \<or> ExtEnabled (oExternal A)) (d (goModFile w)) of
        None \<Rightarrow> d
      | Some text \<Rightarrow> (d(goModFile w \<mapsto> text))(PathJoin [TempDir w, ''go.sum''] := None))"

definition externalBinaries ::
  "'p World \<Rightarrow> Options \<Rightarrow> ModuleWorkspace \<Rightarrow> disk \<Rightarrow> (string \<rightharpoonup> string list) \<times> disk" where
  "externalBinaries W A w d =
     (let cfg = oExternal A in
      if ExtEnabled cfg \<and> Suites cfg \<noteq> [] then
        (case wCopySuites W w (collectAllSuitePaths (Suites cfg)) d of
           None \<Rightarrow> (Map.empty, d)
         | Some d1 \<Rightarrow> (buildAllExternalSuiteBinaries W w cfg, d1))
      else (Map.empty, d))"

definition runVerified ::
  "'p World \<Rightarrow> Options \<Rightarrow> nat \<Rightarrow> ModuleWorkspace \<Rightarrow> bool \<Rightarrow> (string \<rightharpoonup> string) option \<Rightarrow> disk \<Rightarrow>
   Mutant list \<Rightarrow> Mutant list \<Rightarrow> Outcome" where
  "runVerified W A tot w hasNonStdlib hashes d ms invalid =
     (case externalBinaries W A w (simplifyDisk W A w hasNonStdlib d) of (binaries, d1) \<Rightarrow>
        (case buildPkgMap w ms 0 (Map.empty, Map.empty) of
           (None, w1) \<Rightarrow> failAll A tot ms invalid ''build package map failed''
         | (Some (pkgToIDs, idx), w1) \<Rightarrow>
             (let done = finalizeMutants (runPhases W A w1 d1 binaries pkgToIDs idx ms)
              in \<lparr>outWarning = None, outTotal = tot, outMutants = done @ invalid, outErr = None,
                  outCache = SaveCache (wSha W) (wHash W) done (oCache A) hashes\<rparr>)))"

definition runWorkspace ::
  "'p World \<Rightarrow> Options \<Rightarrow> nat \<Rightarrow> (string \<rightharpoonup> string) option \<Rightarrow> Mutant list \<Rightarrow> Mutant list \<Rightarrow> Outcome option" where
  "runWorkspace W A tot hashes ms invalid =
     (let T = ptTools (wPre W) in
      case Setup W (oProjectRoot A) of
        None \<Rightarrow> Some (failAll A tot ms invalid ''workspace setup failed'')
      | Some (w, d) \<Rightarrow>
          (case applySchemata T w ms d of
             (Some err, _, _, ms1) \<Rightarrow> Some (failAll A tot ms1 invalid (''schemata application failed: '' @ err))
           | (None, hasNonStdlib, d1, ms1) \<Rightarrow>
               (case verifyAndCleanSchemata T w (wOrd W) ms1 d1 of
                  None \<Rightarrow> None
                | Some v \<Rightarrow>
                    if vErr v \<noteq> None \<and> vKept v = [] then
                      Some \<lparr>outWarning = None, outTotal = tot, outMutants = invalid @ vRemoved v, outErr = vErr v, outCache = oCache A\<rparr>
                    else Some ((runVerified W A tot w hasNonStdlib hashes (vDisk v) (vKept v) (invalid @ vRemoved v))\<lparr>outWarning := vErr v\<rparr>))))"

text \<open>All mutants have a cached status: only the external suites are left.\<close>

definition runExternalOnly ::
  "'p World \<Rightarrow> Options \<Rightarrow> nat \<Rightarrow> Mutant list \<Rightarrow> Mutant list \<Rightarrow> Outcome" where
  "runExternalOnly W A tot ms invalid =
     (let end = (\<lambda>ms err. \<lparr>outWarning = None, outTotal = tot, outMutants = finalizeMutants ms @ invalid, outErr = err, outCache = oCache A\<rparr>) in
      if FindGoModDir (wCwd W) (wExists W) (Abs (wCwd W) (oBaseDir A)) = '''' then end ms None
      else case Setup W (oBaseDir A) of
        None \<Rightarrow> end ms (Some ''workspace setup failed'')
      | Some (w, d) \<Rightarrow>
          (case applySchemata (ptTools (wPre W)) w ms d of
             (Some err, _, _, ms1) \<Rightarrow> end ms1 (Some (''schemata application failed: '' @ err))
           | (None, _, d1, ms1) \<Rightarrow>
               if Suites (oExternal A) = [] then end ms1 None
               else (case wCopySuites W w (collectAllSuitePaths (Suites (oExternal A))) d1 of
                       None \<Rightarrow> end ms1 None
                     | Some d2 \<Rightarrow>
                         end (runExternalPhase (wExec W) ms1 (oExternal A) (suiteBinaries W w)) None)))"

subsection \<open>The run\<close>

definition hasModule :: "'p World \<Rightarrow> Options \<Rightarrow> bool" where
  "hasModule W A =
     (let rt = Abs (wCwd W) (oProjectRoot A)
      in wExists W (PathJoin [rt, ''go.work'']) \<or> wExists W (PathJoin [rt, ''go.mod'']))"

definition runSchemata :: "'p World \<Rightarrow> Options \<Rightarrow> Mutant list \<Rightarrow> Outcome option" where
  "runSchemata W A ms0 =
     (if ms0 = [] then Some \<lparr>outWarning = None, outTotal = 0, outMutants = [], outErr = None, outCache = oCache A\<rparr>
      else let ms1 = filterUntested W A ms0 in
      case RunPreflight (wPre W) (wOrd W) ms1 of (valid, bad) \<Rightarrow>
        (let invalid = collectInvalid bad ms1; tot = length ms1 in
         if valid = [] then Some \<lparr>outWarning = None, outTotal = tot, outMutants = invalid, outErr = None, outCache = oCache A\<rparr>
         else case ResolveCache (wSha W) (wHash W) valid (oCache A) of (ms, toRun, hashes) \<Rightarrow>
           if allCached W (oCache A) valid then
             (if \<not> ExtEnabled (oExternal A)
              then Some \<lparr>outWarning = None, outTotal = tot, outMutants = finalizeMutants ms @ invalid, outErr = None, outCache = oCache A\<rparr>
              else Some (runExternalOnly W A tot ms invalid))
           else if \<not> hasModule W A then Some (runStandalone W A tot ms toRun hashes)
           else runWorkspace W A tot hashes ms invalid))"

definition GenerateAndRunSchemata ::
  "'p World \<Rightarrow> Options \<Rightarrow> Site list \<Rightarrow> operator list \<Rightarrow> operator list \<Rightarrow> DirOperatorRule list \<Rightarrow>
   Resolver option \<Rightarrow> Outcome option" where
  "GenerateAndRunSchemata W A sites ops allOps dirRules resolver =
     runSchemata W A (GenerateMutants (wCwd W) sites ops allOps (oProjectRoot A) dirRules resolver)"

end
