(* ===== verification/PipelineProps.thy ===== *)
theory PipelineProps
  imports Pipeline
begin

text \<open>
  The run as a whole: every mutant that goes in comes out once, with a status. What each part
  keeps of the numbers of the mutants is a lemma; the theorems put them together.
\<close>

subsection \<open>Numbers are kept\<close>

named_theorems ids \<open>a part keeps the numbers of the mutants\<close>

definition idsOf :: "Mutant list \<Rightarrow> int list" where
  "idsOf ms = map mID ms"

lemma idsOf_map [ids]: "(\<And>m. mID (f m) = mID m) \<Longrightarrow> idsOf (map f ms) = idsOf ms"
  unfolding idsOf_def map_map comp_def by (rule map_cong [OF refl])

lemma idsOf_identity: "map identity a = map identity b \<Longrightarrow> idsOf a = idsOf b"
  unfolding idsOf_def by (rule identity_ids)

lemma idsOf_update:
  assumes "mID x = mID (ms ! i)"
  shows "idsOf (ms[i := x]) = idsOf ms"
proof (cases "i < length ms")
  case True
  then have "mID x = map mID ms ! i" using assms by simp
  then show ?thesis unfolding idsOf_def map_update by simp
qed (simp add: list_update_beyond)

lemma collectOne_id [simp]: "mID (collectOne td m r) = mID m"
  by (simp add: collectOne_def recordResult_def)

lemma finalize_ids [ids]: "idsOf (finalizeMutants ms) = idsOf ms"
  by (simp add: finalizeMutants_def idsOf_def)

lemma errors_ids [ids]: "idsOf (setMutantErrors ms err) = idsOf ms"
  by (simp add: setMutantErrors_def idsOf_def)

lemma filter_ids [ids]: "idsOf (filterUntested W A ms) = idsOf ms"
  by (simp add: filterUntested_def filterMutantsByTestPackages_def filterMutantsWithoutTests_def
        markUntested_def Let_def idsOf_def)

lemma resolveOne_id [simp]: "mID (resolveOne sha c h m) = mID m"
  by (simp add: resolveOne_def split: option.split)

lemma ResolveCache_ids: "ResolveCache sha hashFile ms co = (ms', toRun, h) \<Longrightarrow> idsOf ms' = idsOf ms"
  by (auto simp: ResolveCache_def Let_def idsOf_def split: option.splits if_splits)

lemma collect_ids [ids]: "idsOf (collectResults ms results idx td) = idsOf ms"
proof -
  have "idsOf (case idx (rID r) of None \<Rightarrow> ms | Some i \<Rightarrow> ms[i := collectOne td (ms ! i) r]) = idsOf ms" for ms r
    by (cases "idx (rID r)") (simp_all add: idsOf_update)
  then show ?thesis unfolding collectResults_def updateByID_def
    by (induction results arbitrary: ms) simp_all
qed

lemma external_ids: "distinct (idsOf ms) \<Longrightarrow> idsOf (runExternalPhaseWithBinaries exec ms cfg bs) = idsOf ms"
  unfolding idsOf_def by (rule allAdvance_ids) (rule runStep_advances [OF _ runStep.external [of False]])

lemma phases_ids:
  "distinct (idsOf ms) \<Longrightarrow> idsOf (runPhases W A w d bs pk idx ms) = idsOf ms"
  by (simp add: runPhases_def runUnit_def Let_def external_ids ids)

lemma applyLoop_ids: "idsOf (snd (snd (applyLoop T w fs d ms))) = idsOf ms"
proof (induction fs arbitrary: d ms)
  case (Cons f fs)
  have temp: "idsOf (updateAt (setTemp p) is ms) = idsOf ms" for p "is"
    by (rule idsOf_identity) (rule temp.updateAt_keeps)
  show ?case by (auto simp: Let_def temp Cons.IH case_prod_beta split: option.splits)
qed simp

lemma applySchemata_ids: "applySchemata T w ms d = (e, b, d1, ms1) \<Longrightarrow> idsOf ms1 = idsOf ms"
  using applyLoop_ids [of T w "sort (remdups (map mutantFile (filter hasAST ms)))" d ms]
  by (auto simp: applySchemata_def split: option.splits prod.splits if_splits)

subsection \<open>Statuses\<close>

definition named :: "Mutant list \<Rightarrow> bool" where
  "named ms \<longleftrightarrow> list_all (\<lambda>m. mStatus m \<noteq> '''') ms"

lemma named_append [simp]: "named (xs @ ys) \<longleftrightarrow> named xs \<and> named ys" "named []"
  by (simp_all add: named_def)

lemma finalize_named [simp]: "named (finalizeMutants ms)"
  by (auto simp: named_def finalizeMutants_def list_all_iff StatusUntested_def)

lemma markInvalid_id [simp]: "mID (markInvalid r m) = mID m"
  by (simp add: markInvalid_def Let_def)

lemma markInvalid_status [simp]: "mStatus (markInvalid r m) = prStatus r"
  by (simp add: markInvalid_def Let_def)

text \<open>Every rejection finds its mutant and takes it over with the status of the rejection.\<close>

lemma collectInvalid_spec:
  assumes "set (map prID rs) \<subseteq> set (idsOf ms)"
  shows "idsOf (collectInvalid rs ms) = map prID rs \<and> map mStatus (collectInvalid rs ms) = map prStatus rs"
  using assms
proof (induction rs arbitrary: ms)
  case (Cons r rs)
  let ?i = "length (takeWhile (\<lambda>m. mID m \<noteq> prID r) ms)"
  have "\<exists>m \<in> set ms. \<not> mID m \<noteq> prID r" using Cons.prems by (auto simp: idsOf_def)
  then have i: "?i < length ms" by (induction ms) auto
  then have hit: "mID (ms ! ?i) = prID r" using nth_length_takeWhile by blast
  have "idsOf (ms[?i := markInvalid r (ms ! ?i)]) = idsOf ms" by (rule idsOf_update) simp
  with Cons.prems have "set (map prID rs) \<subseteq> set (idsOf (ms[?i := markInvalid r (ms ! ?i)]))" by simp
  from Cons.IH [OF this] i hit show ?case by (simp add: Let_def idsOf_def)
qed (simp add: idsOf_def)

lemma collectInvalid_named:
  assumes "\<forall>r \<in> set rs. rejection r" "set (map prID rs) \<subseteq> set (idsOf ms)"
  shows "named (collectInvalid rs ms)"
proof -
  have "\<forall>s \<in> set (map mStatus (collectInvalid rs ms)). s \<noteq> ''''"
    using assms(1) collectInvalid_spec [OF assms(2)]
    by (auto simp: StatusInvalid_def StatusCompileError_def rejection_def)
  then show ?thesis by (simp add: named_def list_all_iff)
qed

subsection \<open>Every mutant is accounted for\<close>

text \<open>
  The result holds every mutant, each once, or, after a verification that ended with an error,
  some of them a second time.
\<close>

definition accountsFor :: "nat \<Rightarrow> int list \<Rightarrow> Outcome \<Rightarrow> bool" where
  "accountsFor tot ids out \<longleftrightarrow> outTotal out = tot \<and> named (outMutants out) \<and>
     mset ids \<subseteq># mset (idsOf (outMutants out)) \<and> mset (idsOf (outMutants out)) \<subseteq># mset ids + mset ids \<and>
     (outWarning out = None \<longrightarrow> mset (idsOf (outMutants out)) = mset ids)"

definition settled :: "nat \<Rightarrow> int list \<Rightarrow> Outcome \<Rightarrow> bool" where
  "settled tot ids out \<longleftrightarrow> outTotal out = tot \<and> mset (idsOf (outMutants out)) = mset ids \<and> named (outMutants out)"

lemma settled_accounts: "settled tot ids out \<Longrightarrow> accountsFor tot ids out"
  by (simp add: settled_def accountsFor_def)

lemma accountsFor_range: "accountsFor tot ids out \<Longrightarrow> set (idsOf (outMutants out)) = set ids"
  using set_mset_mono [of "mset ids" "mset (idsOf (outMutants out))"]
    set_mset_mono [of "mset (idsOf (outMutants out))" "mset ids + mset ids"] by (auto simp: accountsFor_def)

lemma idsOf_append [simp]: "idsOf (xs @ ys) = idsOf xs @ idsOf ys" "idsOf [] = []"
  by (simp_all add: idsOf_def)

lemma failAll_settled:
  "named invalid \<Longrightarrow> settled tot (idsOf ms @ idsOf invalid) (failAll A tot ms invalid err)"
  by (simp add: failAll_def settled_def ids)

lemma runVerified_settled:
  assumes "named invalid" "distinct (idsOf ms)"
  shows "settled tot (idsOf ms @ idsOf invalid) (runVerified W A tot w b h d ms invalid)"
proof -
  obtain bs d1 where e: "externalBinaries W A w (simplifyDisk W A w b d) = (bs, d1)" by fastforce
  obtain r w1 where m: "buildPkgMap w ms 0 (Map.empty, Map.empty) = (r, w1)" by fastforce
  show ?thesis
  proof (cases r)
    case None
    then show ?thesis using e m assms(1) by (simp add: runVerified_def failAll_settled)
  next
    case (Some p)
    then show ?thesis using e m assms
      by (cases p) (simp add: runVerified_def settled_def Let_def finalize_ids phases_ids)
  qed
qed

lemma census_ids: "census a = census b \<Longrightarrow> mset (idsOf a) = mset (idsOf b)"
proof -
  have "mset (idsOf ms) = image_mset fst (census ms)" for ms
    by (simp add: census_def idsOf_def identity_def image_mset.compositionality comp_def)
  then show "census a = census b \<Longrightarrow> ?thesis" by simp
qed

lemma subset_ids: "mset xs \<subseteq># mset ys \<Longrightarrow> mset (idsOf xs) \<subseteq># mset (idsOf ys)"
  by (simp add: idsOf_def image_mset_subseteq_mono)

lemma distinct_part: "mset xs \<subseteq># mset ys \<Longrightarrow> distinct ys \<Longrightarrow> distinct xs"
  by (metis distinct_append ex_mset mset_append mset_eq_imp_distinct_iff subset_mset.le_iff_add)

lemma verified_ids:
  assumes "verifyAndCleanSchemata T w ord ms d = Some v" "distinct (idsOf ms)"
  shows "named (vRemoved v)" "distinct (idsOf (vKept v))"
    and "if abortedInRound v then mset (idsOf (vRemoved v)) = mset (idsOf ms) \<and> mset (idsOf (vKept v)) \<subseteq># mset (idsOf ms)
      else mset (idsOf (vKept v @ vRemoved v)) = mset (idsOf ms)"
proof -
  note run = assms(1) [unfolded verifyAndCleanSchemata_def]
  show "named (vRemoved v)"
    using verifyRounds_why [OF run] assms(2)
    by (auto simp: named_def list_all_iff removedWhy_def compileError_def StatusError_def idsOf_def)
  have "census (vKept v @ vRemoved v) = census ms" if "\<not> abortedInRound v"
    using verifyRounds_conserve [OF run] that by (auto simp: accounted_def doubled_def)
  moreover have "census (vRemoved v) = census ms \<and> mset (vKept v) \<subseteq># mset (vRemoved v)" if "abortedInRound v"
    using verifyRounds_conserve [OF run] that by (auto simp: accounted_def doubled_def)
  ultimately show *: "if abortedInRound v then mset (idsOf (vRemoved v)) = mset (idsOf ms) \<and> mset (idsOf (vKept v)) \<subseteq># mset (idsOf ms)
      else mset (idsOf (vKept v @ vRemoved v)) = mset (idsOf ms)"
    using census_ids subset_ids by metis
  then have "mset (idsOf (vKept v)) \<subseteq># mset (idsOf ms)"
    by (cases "abortedInRound v") (auto simp: subset_mset.le_iff_add dest!: sym [of _ "mset (idsOf ms)"])
  then show "distinct (idsOf (vKept v))" using assms(2) by (rule distinct_part)
qed

lemma runWorkspace_settled:
  assumes "runWorkspace W A tot h ms invalid = Some out"
    and "named invalid" "distinct (idsOf ms)"
  shows "accountsFor tot (idsOf ms @ idsOf invalid) out"
proof (cases "Setup W (oProjectRoot A)")
  case None
  then show ?thesis using assms by (auto simp: runWorkspace_def failAll_settled intro!: settled_accounts)
next
  case (Some wd)
  obtain w d where wd: "wd = (w, d)" by fastforce
  obtain e b d1 ms1 where ap: "applySchemata (ptTools (wPre W)) w ms d = (e, b, d1, ms1)"
    by (metis prod_cases4)
  note ids1 = applySchemata_ids [OF ap]
  show ?thesis
  proof (cases e)
    case (Some err)
    have "settled tot (idsOf ms1 @ idsOf invalid)
        (failAll A tot ms1 invalid (''schemata application failed: '' @ err))"
      by (rule failAll_settled [OF assms(2)])
    moreover have "out = failAll A tot ms1 invalid (''schemata application failed: '' @ err)"
      using assms(1) \<open>Setup W (oProjectRoot A) = Some wd\<close> wd ap Some by (simp add: runWorkspace_def)
    ultimately show ?thesis by (simp add: ids1 settled_accounts)
  next
    case None
    obtain v where v: "verifyAndCleanSchemata (ptTools (wPre W)) w (wOrd W) ms1 d1 = Some v"
      using assms(1) \<open>Setup W (oProjectRoot A) = Some wd\<close> wd ap None
      by (auto simp: runWorkspace_def split: option.splits)
    have out: "out = (if vErr v \<noteq> None \<and> vKept v = [] then
        \<lparr>outWarning = None, outTotal = tot, outMutants = invalid @ vRemoved v, outErr = vErr v, outCache = oCache A\<rparr>
      else (runVerified W A tot w b h (vDisk v) (vKept v) (invalid @ vRemoved v))\<lparr>outWarning := vErr v\<rparr>)"
      using assms(1) \<open>Setup W (oProjectRoot A) = Some wd\<close> wd ap None v
      by (auto simp: runWorkspace_def split: if_splits)
    have dist: "distinct (idsOf ms1)" using assms(3) ids1 by simp
    note vs = verified_ids [OF v dist]
    define X where "X = mset (idsOf (vKept v) @ idsOf (invalid @ vRemoved v))"
    have X: "if abortedInRound v then mset (idsOf ms @ idsOf invalid) \<subseteq># X \<and> X \<subseteq># mset (idsOf ms @ idsOf invalid) + mset (idsOf ms @ idsOf invalid)
        else X = mset (idsOf ms @ idsOf invalid)"
      using vs(3) by (auto simp: X_def ids1 ac_simps subset_mset.add_increasing subset_mset.add_mono)
    have quiet: "vErr v = None \<Longrightarrow> \<not> abortedInRound v" by (simp add: abortedInRound_def)
    show ?thesis
    proof (cases "vErr v \<noteq> None \<and> vKept v = []")
      case True
      then have "X = mset (idsOf invalid @ idsOf (vRemoved v))" by (simp add: X_def)
      moreover have "X = mset (idsOf ms @ idsOf invalid)"
        using vs(3) True by (auto simp: X_def ids1 split: if_splits)
      ultimately show ?thesis using out True vs(1) assms(2)
        by (intro settled_accounts) (simp add: settled_def)
    next
      case False
      have "settled tot (idsOf (vKept v) @ idsOf (invalid @ vRemoved v))
          (runVerified W A tot w b h (vDisk v) (vKept v) (invalid @ vRemoved v))"
        by (rule runVerified_settled) (simp_all add: assms(2) vs(1,2))
      then have "outTotal out = tot" "named (outMutants out)" "mset (idsOf (outMutants out)) = X" "outWarning out = vErr v"
        unfolding out if_not_P [OF False] by (simp_all add: settled_def X_def)
      then show ?thesis using X quiet by (auto simp: accountsFor_def split: if_splits)
    qed
  qed
qed

lemma externalOnly_ids: "distinct (idsOf ms) \<Longrightarrow> idsOf (runExternalPhase exec ms cfg bs) = idsOf ms"
  unfolding idsOf_def runExternalPhase_def by (rule kills.phase_nth(1))

lemma runExternalOnly_settled:
  assumes "named invalid" "distinct (idsOf ms)"
  shows "settled tot (idsOf ms @ idsOf invalid) (runExternalOnly W A tot ms invalid)"
  using assms applySchemata_ids [of "ptTools (wPre W)" _ ms]
  by (auto simp: runExternalOnly_def settled_def Let_def ids externalOnly_ids split: option.split prod.split)

lemma one_to_n: "set (map (\<lambda>i. 1 + int i) [0..<n]) = {1..int n}"
proof -
  have "k \<in> (\<lambda>i. 1 + int i) ` {0..<n}" if "1 \<le> k" "k \<le> int n" for k
    using that by (intro image_eqI [of _ _ "nat (k - 1)"]) auto
  then show ?thesis by auto
qed

lemma runSchemata_settled:
  assumes run: "runSchemata W A ms = Some out" and dist: "distinct (idsOf ms)"
    and ord: "\<And>fs. mset (wOrd W fs) = mset fs" and modu: "hasModule W A"
  shows "accountsFor (length ms) (idsOf ms) out"
proof (cases "ms = []")
  case True
  then show ?thesis using run by (auto simp: runSchemata_def accountsFor_def idsOf_def named_def)
next
  case False
  let ?ms = "filterUntested W A ms"
  obtain valid bad where p: "RunPreflight (wPre W) (wOrd W) ?ms = (valid, bad)" by fastforce
  obtain ms1 toRun h where c: "ResolveCache (wSha W) (wHash W) valid (oCache A) = (ms1, toRun, h)"
    by (metis prod_cases3)
  let ?invalid = "collectInvalid bad ?ms"
  have len: "length ?ms = length ms" using arg_cong [OF filter_ids, of length W A ms] by (simp add: idsOf_def)
  have "distinct (map mID ?ms)" using dist filter_ids [of W A ms] by (simp add: idsOf_def)
  note census = preflight_census [OF this ord, of "wPre W"]
  have all: "mset (idsOf valid) + mset (map prID bad) = mset (idsOf ms)"
    using census filter_ids [of W A ms] unfolding p census_of_def idsOf_def by simp
  have sub: "set (map prID bad) \<subseteq> set (idsOf ?ms)"
    unfolding filter_ids using arg_cong [OF all, of set_mset] by auto
  have invalid: "idsOf ?invalid = map prID bad" "named ?invalid"
    using collectInvalid_spec [OF sub] collectInvalid_named [OF _ sub] preflight_rejections [of "wPre W" "wOrd W" ?ms] p
    by simp_all
  have ids1: "idsOf ms1 = idsOf valid" by (rule ResolveCache_ids [OF c])
  have dist1: "distinct (idsOf ms1)"
    using dist all unfolding ids1 by (metis distinct_append mset_append mset_eq_imp_distinct_iff)
  have whole: "mset (idsOf ms1 @ idsOf ?invalid) = mset (idsOf ms)" using all ids1 invalid by simp
  have fin: "accountsFor (length ms) (idsOf ms) out" if "accountsFor (length ms) (idsOf ms1 @ idsOf ?invalid) out"
    using that whole by (simp add: accountsFor_def)
  note shape = run [unfolded runSchemata_def if_not_P [OF False] Let_def p prod.case c len]
  consider "valid = []" | "valid \<noteq> []" "allCached W (oCache A) valid" "\<not> ExtEnabled (oExternal A)"
    | "valid \<noteq> []" "allCached W (oCache A) valid" "ExtEnabled (oExternal A)"
    | "valid \<noteq> []" "\<not> allCached W (oCache A) valid" by blast
  then show ?thesis
  proof cases
    case 1
    then show ?thesis using shape invalid all by (intro settled_accounts) (auto simp: settled_def)
  next
    case 2
    then show ?thesis using shape invalid(2) by (intro fin settled_accounts) (auto simp: settled_def finalize_ids)
  next
    case 3
    then show ?thesis using shape runExternalOnly_settled [OF invalid(2) dist1] by (intro fin settled_accounts) auto
  next
    case 4
    then have "runWorkspace W A (length ms) h ms1 ?invalid = Some out" using shape modu by simp
    from runWorkspace_settled [OF this invalid(2) dist1] show ?thesis by (rule fin)
  qed
qed

text \<open>
  C1. A run in a module accounts for every mutant: when it generates n mutants it reports the
  total n, and the mutants it returns have a status each and bear exactly the numbers 1 to n,
  whether they were rejected by the preflight, removed by the verification, taken from the
  cache, run, or stopped by a failing step. Unless the verification ended with an error that
  the run goes on after (\<open>outWarning\<close>), each number occurs once; after such an error a number
  may occur a second time, and never more often.
\<close>

theorem run_accounts_for_all:
  assumes "GenerateAndRunSchemata W A sites ops allOps dirRules resolver = Some out"
    and "\<And>fs. mset (wOrd W fs) = mset fs" "hasModule W A"
  shows "let n = length (GenerateMutants (wCwd W) sites ops allOps (oProjectRoot A) dirRules resolver);
             numbers = map mID (outMutants out)
    in outTotal out = n \<and> list_all (\<lambda>m. mStatus m \<noteq> '''') (outMutants out) \<and>
       set numbers = {1..int n} \<and> (\<forall>i. count (mset numbers) i \<le> 2) \<and>
       (outWarning out = None \<longrightarrow> sort numbers = map (\<lambda>i. 1 + int i) [0..<n])"
proof -
  let ?ms = "GenerateMutants (wCwd W) sites ops allOps (oProjectRoot A) dirRules resolver"
  let ?out = "mset (idsOf (outMutants out))"
  have numbers: "idsOf ?ms = map (\<lambda>i. 1 + int i) [0..<length ?ms]"
    unfolding idsOf_def generated_number number_ids by simp
  have dist: "distinct (idsOf ?ms)" unfolding numbers by (simp add: distinct_map inj_on_def)
  note all = runSchemata_settled [OF assms(1) [unfolded GenerateAndRunSchemata_def] this assms(2,3)]
  then have out: "outTotal out = length ?ms" "named (outMutants out)"  "?out \<subseteq># mset (idsOf ?ms) + mset (idsOf ?ms)" "outWarning out = None \<Longrightarrow> ?out = mset (idsOf ?ms)"
    by (simp_all add: accountsFor_def)
  have "set (idsOf (outMutants out)) = set (idsOf ?ms)" by (rule accountsFor_range [OF all])
  also have "\<dots> = {1..int (length ?ms)}" unfolding numbers by (rule one_to_n)
  finally have range: "set (idsOf (outMutants out)) = {1..int (length ?ms)}" .
  have "count ?out i \<le> 2" for i
  proof -
    have "count ?out i \<le> count (mset (idsOf ?ms)) i + count (mset (idsOf ?ms)) i"
      using mset_subset_eq_count [OF out(3), of i] by simp
    moreover have "count (mset (idsOf ?ms)) i \<le> 1" using dist by (simp add: distinct_count_atmost_1)
    ultimately show ?thesis by linarith
  qed
  moreover have "sort (idsOf (outMutants out)) = idsOf ?ms" if "outWarning out = None"
  proof (rule properties_for_sort)
    show "mset (idsOf ?ms) = ?out" using out(4) [OF that] by simp
    show "sorted (idsOf ?ms)" unfolding numbers by (simp add: sorted_map sorted_wrt_upt)
  qed
  ultimately show ?thesis using out(1,2) range by (simp add: numbers idsOf_def [symmetric] named_def Let_def)
qed

subsection \<open>Stand-alone packages\<close>

lemma runMutant_number [simp]: "mID (recordResult td r m) = mID m"
  by (simp add: recordResult_def)

lemma compileMark_id [simp]: "mID (compileMark res td m) = mID m"
  by (simp add: compileMark_def Let_def split: option.split)

lemma standalonePackage_ids [ids]: "idsOf (runStandalonePackage ms hasTests res binary run td) = idsOf ms"
  by (simp add: runStandalonePackage_def Let_def idsOf_def comp_def if_distrib [of mID] cong: if_cong)

lemma writeBack_ids:
  "idsOf new = map (\<lambda>i. mID (ms ! i)) is \<Longrightarrow> idsOf (writeBack is new ms) = idsOf ms"
proof (induction "is" arbitrary: new ms)
  case (Cons i "is")
  then obtain m new' where new: "new = m # new'" "mID m = mID (ms ! i)" "idsOf new' = map (\<lambda>i. mID (ms ! i)) is"
    by (auto simp: idsOf_def Cons_eq_map_conv)
  have "mID (ms[i := m] ! j) = mID (ms ! j)" for j
    using new(2) by (cases "j = i \<and> i < length ms") (auto simp: nth_list_update list_update_beyond)
  with Cons.IH [of new' "ms[i := m]"] new show ?case by (simp add: writeBack_def idsOf_update)
qed (simp add: writeBack_def)

lemma standaloneLoop_ids: "idsOf (snd (standaloneLoop W toRun ps ms)) = idsOf ms"
proof (induction ps arbitrary: ms)
  case (Cons p ps)
  let ?is = "filter (\<lambda>i. Dir (mutantFile (ms ! i)) = p) toRun"
  have "idsOf (writeBack ?is (runStandalonePackage (map ((!) ms) ?is) t res b r td) ms) = idsOf ms" for t res b r td
    by (rule writeBack_ids) (unfold standalonePackage_ids, simp add: idsOf_def comp_def)
  with Cons.IH show ?case by (simp add: Let_def split: option.split)
qed simp

text \<open>
  The stand-alone mode leaves rejected mutants out: outside a module the total counts
  every mutant, but the result holds only those that the preflight accepted, so the report's
  numbers add up exactly when the preflight rejects none.
\<close>

theorem standalone_leaves_out_rejected:
  assumes "runSchemata W A ms = Some out" "distinct (map mID ms)" "\<And>fs. mset (wOrd W fs) = mset fs"
    and "\<not> hasModule W A" "wTemp W \<noteq> None" "oCache A = None"
    and "RunPreflight (wPre W) (wOrd W) (filterUntested W A ms) = (valid, rejections)" "valid \<noteq> []"
  shows "outTotal out = length ms \<and>
     mset (map mID (outMutants out)) = mset (map mID valid) \<and>
     length (outMutants out) + length rejections = outTotal out"
proof -
  let ?ms = "filterUntested W A ms"
  have ids0: "map mID ?ms = map mID ms" using filter_ids [of W A ms] by (simp only: idsOf_def)
  have "length ?ms = length ms" using arg_cong [OF ids0, of length] by simp
  moreover have "ms \<noteq> []"
  proof
    assume "ms = []"
    then have "mset (map mID valid) = {#}"
      using preflight_census [OF _ assms(3), of ?ms "wPre W"] unfolding assms(7) ids0
      by (simp add: census_of_def)
    with assms(8) show False by simp
  qed
  ultimately have out: "out = runStandalone W A (length ms) valid (pending valid) None"
    using assms(1,4,6-8) by (auto simp: runSchemata_def ResolveCache_def allCached_def Let_def)
  obtain e ms1 where l: "standaloneLoop W (pending valid)
      (sort (remdups (map (\<lambda>i. Dir (mutantFile (valid ! i))) (pending valid)))) valid = (e, ms1)" by fastforce
  then have ids1: "idsOf ms1 = idsOf valid" by (metis snd_conv standaloneLoop_ids)
  have o: "outTotal out = length ms" "outMutants out = finalizeMutants ms1"
    unfolding out runStandalone_def Let_def if_not_P [OF assms(5)] l prod.case
    by (cases e, simp, simp)+
  have kept: "map mID (outMutants out) = map mID valid"
    using ids1 unfolding o(2) idsOf_def [symmetric] finalize_ids .
  have "mset (map mID valid) + mset (map prID rejections) = mset (map mID ms)"
    using preflight_census [OF assms(2) [folded ids0] assms(3), of "wPre W", unfolded assms(7) ids0]
    by (simp only: census_of_def fst_conv snd_conv)
  from arg_cong [OF this, of size] have "length valid + length rejections = length ms" by simp
  moreover have "length (outMutants out) = length valid" using arg_cong [OF kept, of length] by simp
  ultimately show ?thesis using o(1) kept by (simp only: conj_assoc)
qed

subsection \<open>A run\<close>

definition sumSite :: "string \<Rightarrow> int \<Rightarrow> Site" where
  "sumSite f l = \<lparr>sFile = f, sFileAST = Some (Ident 1 ''x''), sLine = l, sColumn = 9,
     sNode = BinaryExpr (Ident 8 ''a'') 9 T_ADD (Ident 10 ''b''),
     sReturnType = ''int'', sFunctionName = ''sum'', sEnclosingFunc = None\<rparr>"

definition sumSites :: "Site list" where
  "sumSites = [sumSite ''/p/a.go'' 3, sumSite ''/p/a.go'' 7, sumSite '''' 7]"

definition sumWorld :: "string \<Rightarrow> string option \<Rightarrow> string World" where
  "sumWorld goMod temp = \<lparr>wCwd = ''/'', wExists = (\<lambda>p. p = goMod), wReadFile = (\<lambda>p. None),
     wTree = (\<lambda>p. Folder p [Leaf ''a.go'', Leaf ''a_test.go'']), wHash = (\<lambda>f. Some ''h''), wSha = (\<lambda>s. s),
     wPre = quietTools, wOrd = rev, wTemp = temp,
     wCopy = (\<lambda>w r. Some Map.empty), wCopySuites = (\<lambda>w p d. Some d), wGoVersion = ''1.22'',
     wPackage = (\<lambda>d p ts. \<lparr>paHasTests = Some True, paCompile = None, paBinary = True,
       paRun = (\<lambda>i. (''--- FAIL: TestSum (0.00s)'', Some ''exit status 1'', False, 5))\<rparr>),
     wSpans = (\<lambda>d p. []), wGoList = (\<lambda>p. None), wSuiteBuilds = (\<lambda>s p. True), wBinDir = (\<lambda>s. ''/tmp/b''),
     wExec = (\<lambda>b i. ([], False, False)), wStandalone = (\<lambda>p ms. None)\<rparr>"

definition sumOptions :: Options where
  "sumOptions = \<lparr>oBaseDir = ''/p'', oProjectRoot = ''/p'', oTestPaths = [], oTestsByPkg = Map.empty,
     oUnitTests = False, oExternal = \<lparr>ExtEnabled = False, RunMode = '''', Suites = []\<rparr>, oCache = None\<rparr>"

lemma sum_generated: "map mID (GenerateMutants ''/'' sumSites [ArithmeticFlip] [ArithmeticFlip] ''/p'' [] None) = [1, 2, 3]"
  by code_simp

lemma sum_module: "hasModule (sumWorld ''/p/go.mod'' t) sumOptions" "\<not> hasModule (sumWorld '''' t) sumOptions"
  by code_simp+

lemma sum_preflight: "map mID (fst (RunPreflight quietTools rev (newMutant 1 (sumSite ''/p/a.go'' 3) ArithmeticFlip # [newMutant 2 (sumSite '''' 7) ArithmeticFlip]))) = [1]"
  by code_simp

lemma sum_ends: "\<exists>out. GenerateAndRunSchemata (sumWorld ''/p/go.mod'' None) sumOptions sumSites [ArithmeticFlip]
    [ArithmeticFlip] [] None = Some out \<and> outWarning out = None"
proof -
  have "Setup (sumWorld ''/p/go.mod'' None) p = None" for p by (simp add: Setup_def sumWorld_def)
  then show ?thesis
    using sum_module(1) [of None]
    by (auto simp: GenerateAndRunSchemata_def runSchemata_def runWorkspace_def failAll_def
          allCached_def sumOptions_def Let_def split: prod.split)
qed

theorem run_accounts_for_all_witness:
  "\<exists>out. GenerateAndRunSchemata (sumWorld ''/p/go.mod'' None) sumOptions sumSites [ArithmeticFlip] [ArithmeticFlip] [] None
       = Some out \<and> outTotal out = 3 \<and> sort (map mID (outMutants out)) = [1, 2, 3]"
proof -
  obtain out where out: "GenerateAndRunSchemata (sumWorld ''/p/go.mod'' None) sumOptions sumSites [ArithmeticFlip]
      [ArithmeticFlip] [] None = Some out" "outWarning out = None"
    using sum_ends by blast
  have ord: "mset (wOrd (sumWorld ''/p/go.mod'' None) fs) = mset fs" for fs by (simp add: sumWorld_def)
  have s: "wCwd (sumWorld ''/p/go.mod'' None) = ''/''" "oProjectRoot sumOptions = ''/p''"
    by (simp_all add: sumWorld_def sumOptions_def)
  have n: "length (GenerateMutants ''/'' sumSites [ArithmeticFlip] [ArithmeticFlip] ''/p'' [] None) = 3"
    using arg_cong [OF sum_generated, of length] by simp
  have "outTotal out = 3 \<and> sort (map mID (outMutants out)) = map (\<lambda>i. 1 + int i) [0..<3]"
    using run_accounts_for_all [OF out(1) ord sum_module(1)] out(2) unfolding s n Let_def by blast
  with out(1) show ?thesis by (auto simp: upt_rec)
qed

definition sumMutants :: "Mutant list" where
  "sumMutants = [newMutant 1 (sumSite ''/p/a.go'' 3) ArithmeticFlip, newMutant 2 (sumSite '''' 7) ArithmeticFlip]"

theorem standalone_leaves_out_rejected_witness:
  "\<exists>out. runSchemata (sumWorld '''' (Some ''/tmp/g'')) sumOptions sumMutants = Some out \<and>
     outTotal out = 2 \<and> mset (map mID (outMutants out)) = {#1#}"
proof -
  let ?W = "sumWorld '''' (Some ''/tmp/g'')"
  have f: "filterUntested ?W sumOptions sumMutants = sumMutants"
    by (simp add: filterUntested_def sumOptions_def)
  obtain valid bad where p: "RunPreflight quietTools rev sumMutants = (valid, bad)" by fastforce
  have v: "map mID valid = [1]" using sum_preflight p by (simp add: sumMutants_def)
  have w: "wPre ?W = quietTools" "wOrd ?W = rev" "wTemp ?W \<noteq> None" "oCache sumOptions = None"
    by (simp_all add: sumWorld_def sumOptions_def)
  have p': "RunPreflight (wPre ?W) (wOrd ?W) (filterUntested ?W sumOptions sumMutants) = (valid, bad)"
    by (simp add: f w p)
  have ord: "mset (wOrd ?W fs) = mset fs" for fs by (simp add: w)
  have "valid \<noteq> []" using v by auto
  moreover have "distinct (map mID sumMutants)" by (simp add: sumMutants_def newMutant_def)
  moreover obtain out where "runSchemata ?W sumOptions sumMutants = Some out"
    using p f w sum_module(2) [of "Some ''/tmp/g''"] \<open>valid \<noteq> []\<close>
    by (auto simp: runSchemata_def sumMutants_def allCached_def Let_def ResolveCache_def)
  ultimately show ?thesis
    using standalone_leaves_out_rejected [OF _ _ ord sum_module(2) w(3,4) p'] v by (auto simp: sumMutants_def)
qed

end
