(* ===== verification/GoGlob.thy ===== *)
theory GoGlob
  imports GoPath "HOL-Library.Char_ord"
begin

text \<open>
  \<open>filepath.Match\<close> of Go's standard library on a Unix system: a pattern is cut into chunks at
  its stars, and a chunk is matched character by character. A character is a byte here, so
  file names and patterns beyond ASCII are outside the model. The callers drop the error of a
  malformed pattern and take it as no match; \<open>None\<close> is that error in the parts.
\<close>

text \<open>\<open>scanChunk\<close> after the leading stars: the chunk up to the next star outside a class.\<close>

fun scanChunk :: "bool \<Rightarrow> string \<Rightarrow> string \<times> string" where
  "scanChunk inrange [] = ([], [])"
| "scanChunk inrange (c # cs) =
     (if c = CHR 0x5C then
        (case cs of [] \<Rightarrow> ([c], [])
         | d # ds \<Rightarrow> (case scanChunk inrange ds of (chunk, rest) \<Rightarrow> (c # d # chunk, rest)))
      else if c = CHR ''*'' \<and> \<not> inrange then ([], c # cs)
      else (case scanChunk (if c = CHR ''['' then True else if c = CHR '']'' then False else inrange) cs of
        (chunk, rest) \<Rightarrow> (c # chunk, rest)))"

definition getEsc :: "string \<Rightarrow> (char \<times> string) option" where
  "getEsc chunk = (case chunk of
     [] \<Rightarrow> None
   | c # cs \<Rightarrow>
       if c = CHR ''-'' \<or> c = CHR '']'' then None
       else (case (if c = CHR 0x5C then cs else chunk) of
          d # ds \<Rightarrow> if ds = [] then None else Some (d, ds)
        | [] \<Rightarrow> None))"

lemma getEsc_shorter: "getEsc chunk = Some (c, rest) \<Longrightarrow> length rest < length chunk"
  by (auto simp: getEsc_def split: list.splits if_splits)

text \<open>The ranges of a class, up to its closing bracket: whether \<open>r\<close> lies in one of them.\<close>

definition oneRange :: "char \<Rightarrow> string \<Rightarrow> (bool \<times> string) option" where
  "oneRange r chunk = (case getEsc chunk of
     None \<Rightarrow> None
   | Some (lo, rest) \<Rightarrow>
       (case rest of
          CHR ''-'' # more \<Rightarrow> map_option (\<lambda>(hi, rest'). (lo \<le> r \<and> r \<le> hi, rest')) (getEsc more)
        | _ \<Rightarrow> Some (lo = r, rest)))"

lemma oneRange_shorter: "oneRange r chunk = Some (b, rest) \<Longrightarrow> length rest < length chunk"
  by (auto simp: oneRange_def split: option.splits list.splits char.splits bool.splits dest!: getEsc_shorter)

function classRanges :: "char \<Rightarrow> bool \<Rightarrow> nat \<Rightarrow> string \<Rightarrow> (bool \<times> string) option" where
  "classRanges r matched nrange chunk =
     (case chunk of
        c # cs \<Rightarrow>
          if c = CHR '']'' \<and> 0 < nrange then Some (matched, cs)
          else (case oneRange r chunk of
            None \<Rightarrow> None
          | Some (b, rest) \<Rightarrow> classRanges r (matched \<or> b) (Suc nrange) rest)
      | [] \<Rightarrow> None)"
  by pat_completeness auto
termination
  by (relation "measure (\<lambda>(r, m, n, chunk). length chunk)") (auto dest: oneRange_shorter)

declare classRanges.simps [simp del]

text \<open>
  One step of \<open>matchChunk\<close>: what is left of chunk and name, \<open>Some None\<close> for a mismatch. After
  a mismatch the source only checks the rest of the chunk for errors, which no caller tells
  from a mismatch.
\<close>

definition classStep :: "string \<Rightarrow> char \<Rightarrow> (string \<times> bool) option" where
  "classStep chunk r =
     (let negated = HasPrefix chunk ''^''; body = (if negated then drop 1 chunk else chunk)
      in map_option (\<lambda>(matched, rest). (rest, matched \<noteq> negated)) (classRanges r False 0 body))"

lemma classRanges_shorter: "classRanges r m n chunk = Some (b, rest) \<Longrightarrow> length rest < length chunk"
proof (induction r m n chunk rule: classRanges.induct)
  case (1 r m n chunk)
  from "1.prems" obtain c cs where c: "chunk = c # cs" by (subst (asm) classRanges.simps) (auto split: list.splits)
  show ?case
  proof (cases "c = CHR '']'' \<and> 0 < n")
    case True
    with "1.prems" c show ?thesis by (subst (asm) classRanges.simps) simp
  next
    case False
    with "1.prems" c obtain b' rest' where o: "oneRange r chunk = Some (b', rest')"
      and m: "classRanges r (m \<or> b') (Suc n) rest' = Some (b, rest)"
      by (subst (asm) classRanges.simps) (auto split: option.splits)
    have "length rest < length rest'" by (rule "1.IH" [OF c False o refl m])
    with oneRange_shorter [OF o] show ?thesis by simp
  qed
qed

lemma classStep_shorter: "classStep chunk r = Some (rest, ok) \<Longrightarrow> length rest < length chunk"
  by (auto simp: classStep_def Let_def dest!: classRanges_shorter split: if_splits)

function matchChunk :: "string \<Rightarrow> string \<Rightarrow> string option" where
  "matchChunk [] s = Some s"
| "matchChunk (c # cs) [] = None"
| "matchChunk (c # cs) (x # s) =
     (if c = CHR ''['' then
        (case classStep cs x of
           Some (rest, True) \<Rightarrow> matchChunk rest s
         | _ \<Rightarrow> None)
      else if c = CHR ''?'' then (if x = sep then None else matchChunk cs s)
      else if c = CHR 0x5C then
        (case cs of d # ds \<Rightarrow> if d = x then matchChunk ds s else None | [] \<Rightarrow> None)
      else if c = x then matchChunk cs s else None)"
  by pat_completeness auto
termination
  by (relation "measure (length \<circ> fst)") (auto dest: classStep_shorter)

text \<open>The places a starred chunk is tried at: the name, then its tails, up to a separator.\<close>

fun starTails :: "string \<Rightarrow> string list" where
  "starTails [] = [[]]"
| "starTails (x # s) = (x # s) # (if x = sep then [] else starTails s)"

fun firstFit :: "bool \<Rightarrow> string \<Rightarrow> string list \<Rightarrow> string option" where
  "firstFit lastChunk chunk [] = None"
| "firstFit lastChunk chunk (t # ts) = (case matchChunk chunk t of
     Some r \<Rightarrow> if r = [] \<or> \<not> lastChunk then Some r else firstFit lastChunk chunk ts
   | None \<Rightarrow> firstFit lastChunk chunk ts)"

lemma scanChunk_append: "fst (scanChunk b p) @ snd (scanChunk b p) = p"
proof (induction b p rule: scanChunk.induct)
  case (2 inrange c cs)
  show ?case
  proof (cases "c = CHR 0x5C")
    case True
    with 2(1) [OF True] show ?thesis by (cases cs) (simp_all add: case_prod_beta)
  next
    case False
    with 2(2) show ?thesis by (simp add: case_prod_beta del: split_paired_All)
  qed
qed simp

lemma chunk_shortens:
  assumes "scanChunk False (dropWhile P p) = (chunk, rest)" "chunk \<noteq> []"
  shows "length rest < length p"
proof -
  have "chunk @ rest = dropWhile P p" using scanChunk_append [of False "dropWhile P p"] assms(1) by simp
  then have "length chunk + length rest \<le> length p"
    using length_dropWhile_le [of P p] by (metis length_append)
  with assms(2) show ?thesis by (cases chunk) auto
qed

function globMatch :: "string \<Rightarrow> string \<Rightarrow> bool" where
  "globMatch p name = (if p = [] then name = [] else
     (let body = dropWhile (\<lambda>c. c = CHR ''*'') p; star = (hd p = CHR ''*'') in
      case scanChunk False body of (chunk, rest) \<Rightarrow>
        if star \<and> chunk = [] then sep \<notin> set name
        else if chunk = [] then False
        else (case firstFit (rest = []) chunk (if star then starTails name else [name]) of
           Some t \<Rightarrow> globMatch rest t
         | None \<Rightarrow> False)))"
  by pat_completeness auto
termination
  by (relation "measure (length \<circ> fst)") (auto dest: chunk_shortens [OF sym])

declare globMatch.simps [simp del]

subsection \<open>Literal patterns and suffix patterns\<close>

definition literal :: "string \<Rightarrow> bool" where
  "literal p \<longleftrightarrow> set p \<inter> {CHR ''*'', CHR ''?'', CHR ''['', CHR 0x5C} = {}"

lemma scanChunk_literal: "literal p \<Longrightarrow> scanChunk False p = (p, [])"
  by (induction p) (auto simp: literal_def)

lemma matchChunk_literal: "literal p \<Longrightarrow> matchChunk p s = (if HasPrefix s p then Some (drop (length p) s) else None)"
proof (induction p arbitrary: s)
  case (Cons c cs)
  then have c: "c \<noteq> CHR ''*''" "c \<noteq> CHR ''?''" "c \<noteq> CHR ''[''" "c \<noteq> CHR 0x5C" and "literal cs"
    by (auto simp: literal_def)
  with Cons.IH show ?case by (cases s) (auto simp: HasPrefix_def)
qed (simp add: HasPrefix_def)

lemma dropWhile_literal: "literal p \<Longrightarrow> dropWhile (\<lambda>c. c = CHR ''*'') p = p"
  by (cases p) (auto simp: literal_def)

lemma globMatch_Nil [simp]: "globMatch [] name \<longleftrightarrow> name = []"
  by (simp add: globMatch.simps)

text \<open>A pattern without special characters matches itself and nothing else.\<close>

lemma globMatch_literal: "literal p \<Longrightarrow> globMatch p name \<longleftrightarrow> name = p"
proof (cases "p = []")
  case False
  assume p: "literal p"
  with False have "hd p \<noteq> CHR ''*''" by (auto simp: literal_def dest!: hd_in_set)
  with False p show ?thesis
    by (subst globMatch.simps) (auto simp: Let_def dropWhile_literal scanChunk_literal matchChunk_literal HasPrefix_iff)
qed simp

lemma starTails_iff: "t \<in> set (starTails s) \<longleftrightarrow> (\<exists>x. s = x @ t \<and> sep \<notin> set x)"
proof (induction s)
  case (Cons c s)
  show ?case
  proof
    assume "t \<in> set (starTails (c # s))"
    then show "\<exists>x. c # s = x @ t \<and> sep \<notin> set x"
      using Cons.IH by (auto split: if_splits; metis append_Cons append_Nil set_ConsD empty_iff list.set(1))
  next
    assume "\<exists>x. c # s = x @ t \<and> sep \<notin> set x"
    then obtain x where x: "c # s = x @ t" "sep \<notin> set x" by blast
    with Cons.IH show "t \<in> set (starTails (c # s))" by (cases x) auto
  qed
qed auto

lemma firstFit_last: "firstFit True chunk ts = Some r \<Longrightarrow> r = []"
  by (induction ts) (auto split: option.splits if_splits)

lemma firstFit_literal:
  "literal p \<Longrightarrow> firstFit True p ts \<noteq> None \<longleftrightarrow> p \<in> set ts"
  by (induction ts) (auto simp: matchChunk_literal HasPrefix_iff split: option.splits)

text \<open>A star before literal text matches the names that end in the text, within one directory.\<close>

lemma globMatch_star:
  assumes "literal p" "p \<noteq> []"
  shows "globMatch (CHR ''*'' # p) name \<longleftrightarrow> (\<exists>x. name = x @ p \<and> sep \<notin> set x)"
proof -
  have "globMatch (CHR ''*'' # p) name \<longleftrightarrow> firstFit True p (starTails name) \<noteq> None"
    using assms firstFit_last [of p "starTails name"]
    by (subst globMatch.simps) (auto simp: dropWhile_literal scanChunk_literal split: option.splits)
  then show ?thesis using firstFit_literal [OF assms(1), of "starTails name"] starTails_iff by blast
qed

end
