(* ===== verification/Diff.thy ===== *)
theory Diff
  imports GoWork PathLaws
begin

text \<open>
  \<open>internal/diff/diff.go\<close>: which lines of which files a unified diff adds. A patch is the text
  of a file or the output of \<open>git diff\<close>; \<open>None\<close> is an error of the reader. A file's set of
  lines is a set, the table of files a map.
\<close>

type_synonym FileLines = "string \<rightharpoonup> int set"

text \<open>\<open>strconv.Atoi\<close> with its error dropped: 0 on a syntax error, the nearest bound when out of range.\<close>

definition clamp64 :: "int \<Rightarrow> int" where
  "clamp64 n = max (- (2 ^ 63)) (min (2 ^ 63 - 1) n)"

definition AtoiValue :: "string \<Rightarrow> int" where
  "AtoiValue s = (case s of
     [] \<Rightarrow> 0
   | c # cs \<Rightarrow>
       if c = CHR ''-'' then (case parseNat cs of None \<Rightarrow> 0 | Some n \<Rightarrow> clamp64 (- int n))
       else if c = CHR ''+'' then (case parseNat cs of None \<Rightarrow> 0 | Some n \<Rightarrow> clamp64 (int n))
       else (case parseNat s of None \<Rightarrow> 0 | Some n \<Rightarrow> clamp64 (int n)))"

definition parseHunkHeader :: "string \<Rightarrow> int \<times> int" where
  "parseHunkHeader line = (case IndexByte (drop 3 line) (CHR ''+'') of
     None \<Rightarrow> (0, 0)
   | Some plusIdx \<Rightarrow>
       (let rest = drop (3 + plusIdx + 1) line;
            chunk = (case IndexByte rest (CHR '' '') of Some i \<Rightarrow> take i rest | None \<Rightarrow> rest);
            parts = SplitN2 chunk (CHR '','')
        in (AtoiValue (hd parts), case tl parts of [d] \<Rightarrow> AtoiValue d | _ \<Rightarrow> 1)))"

record DiffState =
  dResult :: FileLines
  dFile :: string
  dLine :: int

definition openFile :: "string \<Rightarrow> DiffState \<Rightarrow> DiffState" where
  "openFile path st = st\<lparr>dFile := path, dResult := (case dResult st path of
     None \<Rightarrow> (dResult st)(path \<mapsto> {}) | Some _ \<Rightarrow> dResult st)\<rparr>"

definition recordLine :: "DiffState \<Rightarrow> DiffState" where
  "recordLine st = (if dFile st = '''' then st
     else st\<lparr>dResult := (dResult st)(dFile st \<mapsto> insert (dLine st) (or_else {} (dResult st (dFile st))))\<rparr>)"

definition diffLine :: "string \<Rightarrow> string \<Rightarrow> DiffState \<Rightarrow> DiffState" where
  "diffLine cwd line st =
     (if HasPrefix line ''+++ '' then
        (let path = TrimPrefix (TrimPrefix line ''+++ '') ''b/'' in
         if path = ''/dev/null'' then st\<lparr>dFile := ''''\<rparr> else openFile (Abs cwd path) st)
      else if HasPrefix line ''@@ '' then st\<lparr>dLine := fst (parseHunkHeader line)\<rparr>
      else if HasPrefix line ''+'' \<and> \<not> HasPrefix line ''+++'' then
        (let st = recordLine st in st\<lparr>dLine := dLine st + 1\<rparr>)
      else if HasPrefix line ''-'' \<and> \<not> HasPrefix line ''---'' then st
      else if dFile st \<noteq> '''' \<and> \<not> HasPrefix line [CHR 0x5C] then st\<lparr>dLine := dLine st + 1\<rparr>
      else st)"

definition parseDiffLines :: "string \<Rightarrow> string list \<Rightarrow> FileLines" where
  "parseDiffLines cwd lines =
     dResult (foldl (\<lambda>st l. diffLine cwd l st) \<lparr>dResult = Map.empty, dFile = '''', dLine = 0\<rparr> lines)"

definition parseDiff :: "string \<Rightarrow> string \<Rightarrow> FileLines option" where
  "parseDiff cwd text = map_option (parseDiffLines cwd) (ScanLines text)"

text \<open>\<open>git ref\<close> is the output of the command with its error text, empty for success or mere differences.\<close>

definition fromGit :: "(string \<Rightarrow> string \<times> string) \<Rightarrow> string \<Rightarrow> string \<Rightarrow> FileLines option" where
  "fromGit git cwd ref = (case git ref of (out, stderr) \<Rightarrow> if stderr \<noteq> '''' then None else parseDiff cwd out)"

definition ResolveDiff ::
  "(string \<Rightarrow> bool) \<Rightarrow> (string \<Rightarrow> string option) \<Rightarrow> (string \<Rightarrow> string \<times> string) \<Rightarrow> string \<Rightarrow> string \<Rightarrow>
   FileLines option option" where
  "ResolveDiff exists readFile git cwd ref =
     (if ref = '''' then Some None
      else if exists ref then map_option Some (Option.bind (readFile ref) (parseDiff cwd))
      else map_option Some (fromGit git cwd ref))"

subsection \<open>Unified diffs\<close>

text \<open>A diff as data, and the lines that \<open>diff -u\<close> and \<open>git diff\<close> print for it.\<close>

datatype hunkLine = Added string | Removed string | Kept string | NoNewline

record hunk =
  hunkOld :: "int \<times> int"
  hunkStart :: int
  hunkCount :: int
  hunkSection :: string
  hunkLines :: "hunkLine list"

record fileDiff =
  fdHeader :: "string list"
  fdPath :: "string option"
  fdHunks :: "hunk list"

fun printHunkLine :: "hunkLine \<Rightarrow> string" where
  "printHunkLine (Added t) = CHR ''+'' # t"
| "printHunkLine (Removed t) = CHR ''-'' # t"
| "printHunkLine (Kept t) = CHR '' '' # t"
| "printHunkLine NoNewline = CHR 0x5C # '' No newline at end of file''"

definition hunkHeader :: "hunk \<Rightarrow> string" where
  "hunkHeader h = ''@@ -'' @ Itoa (fst (hunkOld h)) @ '','' @ Itoa (snd (hunkOld h)) @ '' +'' @ Itoa (hunkStart h) @
     '','' @ Itoa (hunkCount h) @ '' @@'' @ hunkSection h"

definition printHunk :: "hunk \<Rightarrow> string list" where
  "printHunk h = hunkHeader h # map printHunkLine (hunkLines h)"

definition printFileDiff :: "fileDiff \<Rightarrow> string list" where
  "printFileDiff d = fdHeader d @
     (''+++ '' @ (case fdPath d of None \<Rightarrow> ''/dev/null'' | Some p \<Rightarrow> ''b/'' @ p)) # concat (map printHunk (fdHunks d))"

definition printDiff :: "fileDiff list \<Rightarrow> string list" where
  "printDiff ds = concat (map printFileDiff ds)"

text \<open>The numbers of the lines that a hunk adds, in the new file.\<close>

fun addedFrom :: "int \<Rightarrow> hunkLine list \<Rightarrow> int set" where
  "addedFrom n [] = {}"
| "addedFrom n (Added t # ls) = insert n (addedFrom (n + 1) ls)"
| "addedFrom n (Kept t # ls) = addedFrom (n + 1) ls"
| "addedFrom n (_ # ls) = addedFrom n ls"

definition addedIn :: "fileDiff \<Rightarrow> int set" where
  "addedIn d = (\<Union>h \<in> set (fdHunks d). addedFrom (hunkStart h) (hunkLines h))"

definition changedLines :: "string \<Rightarrow> fileDiff list \<Rightarrow> FileLines" where
  "changedLines cwd ds f =
     (let here = filter (\<lambda>d. map_option (Abs cwd) (fdPath d) = Some f) ds
      in if here = [] then None else Some (\<Union> (addedIn ` set here)))"

text \<open>
  What the reader takes for something else: an added text that begins with two plus signs and
  a removed one that begins with two minus signs.
\<close>

fun plainLine :: "hunkLine \<Rightarrow> bool" where
  "plainLine (Added t) = (\<not> HasPrefix t ''++'')"
| "plainLine (Removed t) = (\<not> HasPrefix t ''--'')"
| "plainLine _ = True"

definition headerLine :: "string \<Rightarrow> bool" where
  "headerLine l \<longleftrightarrow> \<not> HasPrefix l ''+'' \<and> \<not> HasPrefix l ''@@ ''"

definition plainDiff :: "fileDiff \<Rightarrow> bool" where
  "plainDiff d \<longleftrightarrow> list_all headerLine (fdHeader d) \<and> fdPath d \<noteq> Some ''/dev/null'' \<and>
     list_all (\<lambda>h. list_all plainLine (hunkLines h) \<and> \<bar>hunkStart h\<bar> < 2 ^ 63) (fdHunks d)"

subsection \<open>Reading a printed diff back\<close>

definition readLines :: "string \<Rightarrow> string list \<Rightarrow> DiffState \<Rightarrow> DiffState" where
  "readLines cwd ls st = foldl (\<lambda>st l. diffLine cwd l st) st ls"

lemma readLines_simps [simp]:
  "readLines cwd [] st = st" "readLines cwd (l # ls) st = readLines cwd ls (diffLine cwd l st)"
  "readLines cwd (xs @ ys) st = readLines cwd ys (readLines cwd xs st)"
  by (simp_all add: readLines_def)

lemma HasPrefix_cons: "HasPrefix (c # s) (d # p) \<longleftrightarrow> c = d \<and> HasPrefix s p"
  by (simp add: HasPrefix_def)

lemma HasPrefix_nonempty: "\<not> HasPrefix [] (d # p)"
  by (simp add: HasPrefix_def)

lemma HasPrefix_longer: "HasPrefix s (p @ q) \<Longrightarrow> HasPrefix s p"
  by (auto simp: HasPrefix_iff)

text \<open>What the lines of one hunk add to the table, and to no other file.\<close>

definition adding :: "string \<Rightarrow> int set \<Rightarrow> FileLines \<Rightarrow> FileLines" where
  "adding f S r = (if f = '''' then r else r(f \<mapsto> or_else {} (r f) \<union> S))"

lemma adding_simps [simp]:
  "r f \<noteq> None \<Longrightarrow> adding f {} r = r" "adding f T (adding f S r) = adding f (S \<union> T) r" "adding [] S r = r"
  by (auto simp: adding_def Un_assoc)

lemma diffLine_hunkLine:
  assumes "plainLine l" "dFile st \<noteq> '''' \<Longrightarrow> dResult st (dFile st) \<noteq> None"
  shows "dFile (diffLine cwd (printHunkLine l) st) = dFile st"
    and "dResult (diffLine cwd (printHunkLine l) st) = adding (dFile st) (addedFrom (dLine st) [l]) (dResult st)"
    and "dFile st \<noteq> '''' \<Longrightarrow> dLine (diffLine cwd (printHunkLine l) st) = dLine st + (case l of Added _ \<Rightarrow> 1 | Kept _ \<Rightarrow> 1 | _ \<Rightarrow> 0)"
  using assms
  by (cases l; auto simp: diffLine_def HasPrefix_cons recordLine_def adding_def Let_def dest: HasPrefix_longer [of _ "''++''" "'' ''", simplified])+

lemma readLines_hunk:
  "\<lbrakk>list_all plainLine ls; dFile st \<noteq> '''' \<longrightarrow> dResult st (dFile st) \<noteq> None\<rbrakk> \<Longrightarrow>
     dFile (readLines cwd (map printHunkLine ls) st) = dFile st \<and>
     dResult (readLines cwd (map printHunkLine ls) st) = adding (dFile st) (addedFrom (dLine st) ls) (dResult st)"
proof (induction ls arbitrary: st)
  case Nil
  then show ?case by (cases "dFile st = ''''") auto
next
  case (Cons l ls)
  let ?st = "diffLine cwd (printHunkLine l) st"
  have l: "plainLine l" "list_all plainLine ls" using Cons.prems by simp_all
  note step = diffLine_hunkLine [OF l(1), of st cwd]
  have "dFile ?st \<noteq> '''' \<longrightarrow> dResult ?st (dFile ?st) \<noteq> None"
    using step Cons.prems(2) by (auto simp: adding_def)
  from Cons.IH [OF l(2) this] step Cons.prems(2) show ?case
    by (cases "dFile st = ''''") (auto split: hunkLine.splits intro!: arg_cong [where f = "\<lambda>S. adding _ S _"])
qed

lemma IndexByte_skip: "b \<notin> set xs \<Longrightarrow> IndexByte (xs @ b # ys) b = Some (length xs)"
  by (induction xs) auto

lemma AtoiValue_Atoi: "Atoi s = Some n \<Longrightarrow> AtoiValue s = n"
  by (auto simp: Atoi_def AtoiValue_def int64_def clamp64_def Option.bind_eq_Some_conv split: list.splits if_splits option.splits)

lemma Itoa_absent: "c \<notin> set (Itoa n)" if "c \<in> {CHR ''+'', CHR '' '', CHR '',''}"
  using that by (auto simp: Itoa_def dest!: natDigits_digits simp: isDigit_def)

lemma hunkHeader_start:
  assumes "\<bar>hunkStart h\<bar> < 2 ^ 63"
  shows "fst (parseHunkHeader (hunkHeader h)) = hunkStart h"
proof -
  define old where "old = ''-'' @ Itoa (fst (hunkOld h)) @ '','' @ Itoa (snd (hunkOld h)) @ '' ''"
  define start where "start = Itoa (hunkStart h)"
  define tail where "tail = Itoa (hunkCount h) @ '' @@'' @ hunkSection h"
  have line: "hunkHeader h = ''@@ '' @ old @ CHR ''+'' # start @ CHR '','' # tail"
    by (simp add: hunkHeader_def old_def start_def tail_def)
  have "CHR ''+'' \<notin> set old" by (simp add: old_def Itoa_absent)
  then have plus: "IndexByte (drop 3 (hunkHeader h)) (CHR ''+'') = Some (length old)"
    by (simp add: line IndexByte_skip)
  have rest: "drop (3 + length old + 1) (hunkHeader h) = start @ CHR '','' # tail"
    by (simp add: line numeral_eq_Suc)
  have space: "IndexByte (start @ CHR '','' # tail) (CHR '' '') = Some (length (start @ CHR '','' # Itoa (hunkCount h)))"
    using IndexByte_skip [of "CHR '' ''" "start @ CHR '','' # Itoa (hunkCount h)" "''@@'' @ hunkSection h"]
    by (simp add: tail_def start_def Itoa_absent)
  have chunk: "take (length (start @ CHR '','' # Itoa (hunkCount h))) (start @ CHR '','' # tail) = start @ CHR '','' # Itoa (hunkCount h)"
    by (simp add: tail_def)
  have "SplitN2 (start @ CHR '','' # Itoa (hunkCount h)) (CHR '','') = [start, Itoa (hunkCount h)]"
    by (simp add: SplitN2_def IndexByte_skip start_def Itoa_absent)
  moreover have "AtoiValue start = hunkStart h"
    unfolding start_def by (rule AtoiValue_Atoi, rule Atoi_Itoa) (use assms in auto)
  ultimately show ?thesis
    unfolding parseHunkHeader_def plus option.case Let_def rest space chunk by simp
qed

lemma diffLine_header:
  "headerLine l \<Longrightarrow> dResult (diffLine cwd l st) = dResult st"
  using HasPrefix_longer [of l "''+''" "''++ ''"] HasPrefix_longer [of l "''+''" "''''"]
  by (auto simp: diffLine_def headerLine_def)

lemma readLines_header:
  "list_all headerLine ls \<Longrightarrow> dResult (readLines cwd ls st) = dResult st"
  by (induction ls arbitrary: st) (auto simp: diffLine_header)

lemma diffLine_hunkHeader:
  "diffLine cwd (hunkHeader h) st = st\<lparr>dLine := fst (parseHunkHeader (hunkHeader h))\<rparr>"
  by (simp add: diffLine_def hunkHeader_def HasPrefix_cons)

lemma readLines_hunks:
  "\<lbrakk>list_all (\<lambda>h. list_all plainLine (hunkLines h) \<and> \<bar>hunkStart h\<bar> < 2 ^ 63) hs;
    dFile st \<noteq> '''' \<longrightarrow> dResult st (dFile st) \<noteq> None\<rbrakk> \<Longrightarrow>
   dFile (readLines cwd (concat (map printHunk hs)) st) = dFile st \<and>
   dResult (readLines cwd (concat (map printHunk hs)) st) =
     adding (dFile st) (\<Union>h \<in> set hs. addedFrom (hunkStart h) (hunkLines h)) (dResult st)"
proof (induction hs arbitrary: st)
  case Nil
  then show ?case by (cases "dFile st = ''''") auto
next
  case (Cons h hs)
  let ?st = "readLines cwd (printHunk h) st"
  have h: "list_all plainLine (hunkLines h)" "\<bar>hunkStart h\<bar> < 2 ^ 63" using Cons.prems by simp_all
  have st: "dFile ?st = dFile st" "dResult ?st = adding (dFile st) (addedFrom (hunkStart h) (hunkLines h)) (dResult st)"
    using readLines_hunk [OF h(1), of "st\<lparr>dLine := hunkStart h\<rparr>" cwd] Cons.prems(2)
    by (simp_all add: printHunk_def diffLine_hunkHeader hunkHeader_start [OF h(2)])
  then have "dFile ?st \<noteq> '''' \<longrightarrow> dResult ?st (dFile ?st) \<noteq> None" using Cons.prems(2) by (auto simp: adding_def)
  with Cons.IH [of ?st] Cons.prems(1) st show ?case by simp
qed

lemma Clean_nonempty: "IsAbs p \<Longrightarrow> Clean p \<noteq> []"
  by (simp add: Clean_def Let_def)

lemma Abs_nonempty: "IsAbs cwd \<Longrightarrow> Abs cwd p \<noteq> []"
  by (cases "p = []") (auto simp: Abs_def PathJoin_def IsAbs_append IsAbs_nonempty intro!: Clean_nonempty)

lemma readLines_file:
  assumes "plainDiff d" "IsAbs cwd"
  shows "dResult (readLines cwd (printFileDiff d) st) = (case fdPath d of None \<Rightarrow> dResult st
     | Some p \<Rightarrow> adding (Abs cwd p) (addedIn d) (dResult st))"
proof -
  let ?st = "readLines cwd (fdHeader d) st"
  have r: "dResult ?st = dResult st" using assms by (simp add: readLines_header plainDiff_def)
  note hunks = readLines_hunks [of "fdHunks d"]
  show ?thesis
  proof (cases "fdPath d")
    case None
    have "diffLine cwd (''+++ '' @ ''/dev/null'') ?st = ?st\<lparr>dFile := ''''\<rparr>"
      by (simp add: diffLine_def HasPrefix_cons TrimPrefix_def)
    with hunks [of "?st\<lparr>dFile := ''''\<rparr>" cwd] assms None r show ?thesis
      by (simp add: printFileDiff_def plainDiff_def)
  next
    case (Some p)
    let ?st1 = "openFile (Abs cwd p) ?st"
    have "diffLine cwd (''+++ '' @ ''b/'' @ p) ?st = ?st1"
      using assms Some by (simp add: diffLine_def HasPrefix_cons TrimPrefix_def plainDiff_def)
    with hunks [of ?st1 cwd] assms Some r show ?thesis
      by (auto simp: printFileDiff_def plainDiff_def openFile_def adding_def addedIn_def Abs_nonempty split: option.split)
  qed
qed

lemma readLines_diff:
  "\<lbrakk>list_all plainDiff ds; IsAbs cwd\<rbrakk> \<Longrightarrow> dResult (readLines cwd (printDiff ds) st) f =
     (let here = filter (\<lambda>d. map_option (Abs cwd) (fdPath d) = Some f) ds
      in if here = [] then dResult st f else Some (or_else {} (dResult st f) \<union> \<Union> (addedIn ` set here)))"
proof (induction ds arbitrary: st)
  case (Cons d ds)
  have d: "dResult (readLines cwd (printFileDiff d) st) = (case fdPath d of None \<Rightarrow> dResult st
     | Some p \<Rightarrow> adding (Abs cwd p) (addedIn d) (dResult st))"
    using Cons.prems by (simp add: readLines_file)
  with Cons.IH [of "readLines cwd (printFileDiff d) st"] Cons.prems show ?case
    by (cases "fdPath d") (auto simp: printDiff_def adding_def Let_def Abs_nonempty)
qed (simp add: printDiff_def)

text \<open>A line that the scanner returns as it is.\<close>

definition scannable :: "string \<Rightarrow> bool" where
  "scannable l \<longleftrightarrow> CHR 0x0A \<notin> set l \<and> \<not> HasSuffix l [CHR 0x0D] \<and> length l < 65536"

definition linesText :: "string list \<Rightarrow> string" where
  "linesText ls = concat (map (\<lambda>l. l @ [CHR 0x0A]) ls)"

lemma Split_linesText: "\<forall>l \<in> set ls. CHR 0x0A \<notin> set l \<Longrightarrow> Split (linesText ls) (CHR 0x0A) = ls @ [[]]"
  by (induction ls) (simp_all add: linesText_def Split_append_at Split_nosep)

lemma ScanLines_linesText: "\<forall>l \<in> set ls. scannable l \<Longrightarrow> ScanLines (linesText ls) = Some ls"
proof -
  assume ls: "\<forall>l \<in> set ls. scannable l"
  then have "rawLines (linesText ls) = ls"
    by (simp add: rawLines_def Split_linesText scannable_def)
  moreover have "map dropCR ls = ls"
    by (rule map_idI) (use ls in \<open>auto simp: scannable_def dropCR_def TrimSuffix_def\<close>)
  ultimately show ?thesis using ls by (auto simp: ScanLines_def scannable_def list_ex_iff)
qed

lemma parse_printed:
  assumes "list_all plainDiff ds" "IsAbs cwd" "\<forall>l \<in> set (printDiff ds). scannable l"
  shows "parseDiff cwd (linesText (printDiff ds)) = Some (changedLines cwd ds)"
proof -
  have "parseDiffLines cwd (printDiff ds) f = changedLines cwd ds f" for f
    using readLines_diff [OF assms(1,2), where st = "\<lparr>dResult = Map.empty, dFile = '''', dLine = 0\<rparr>" and f = f]
    by (auto simp: parseDiffLines_def readLines_def changedLines_def Let_def)
  then show ?thesis by (simp add: parseDiff_def ScanLines_linesText [OF assms(3)] fun_eq_iff)
qed

text \<open>
  C34. Reading a plain diff is the inverse of printing it: for every list of file diffs, with any
  number of hunks, context lines, deleted files and markers of a missing newline, the reader
  returns exactly the numbers of the added lines of each file. A diff is plain (\<open>plainDiff\<close>) when
  no added text begins with two plus signs and no removed text with two minus signs, which the
  reader takes for headers (\<open>sql_comment_shifts_lines\<close> shows the wrong numbers then), no line of
  a file's header begins like the line of its name or a hunk, and line numbers are machine integers. Every
  line has to be one that the scanner returns whole: less than 64 KiB and no carriage return at its end.
\<close>

theorem diff_read_back:
  assumes "list_all plainDiff ds" "IsAbs cwd" "\<forall>l \<in> set (printDiff ds). scannable l"
  shows "parseDiff cwd (linesText (printDiff ds)) = Some (changedLines cwd ds)"
  using assms by (rule parse_printed)

lemma scannable_short:
  "list_all (\<lambda>l. CHR 0x0A \<notin> set l \<and> \<not> HasSuffix l [CHR 0x0D] \<and> length l \<le> 40) ls \<Longrightarrow> \<forall>l \<in> set ls. scannable l"
  by (auto simp: list_all_iff scannable_def)

definition demoDiff :: "fileDiff list" where
  "demoDiff = [\<lparr>fdHeader = [''diff --git a/a.go b/a.go'', ''--- a/a.go''], fdPath = Some ''a.go'',
     fdHunks = [\<lparr>hunkOld = (3, 2), hunkStart = 3, hunkCount = 3, hunkSection = '' func f()'',
       hunkLines = [Kept ''x'', Removed ''y'', Added ''z'', Added ''w'']\<rparr>,
       \<lparr>hunkOld = (9, 0), hunkStart = 11, hunkCount = 1, hunkSection = '''', hunkLines = [Added ''v'', NoNewline]\<rparr>]\<rparr>,
     \<lparr>fdHeader = [''--- a/b.go''], fdPath = None,
      fdHunks = [\<lparr>hunkOld = (1, 1), hunkStart = 0, hunkCount = 0, hunkSection = '''', hunkLines = [Removed ''q'']\<rparr>]\<rparr>]"

theorem diff_read_back_witness:
  "map_option (\<lambda>r. r ''/p/a.go'') (parseDiff ''/p'' (linesText (printDiff demoDiff))) = Some (Some {4, 5, 11})"
proof -
  have plain: "list_all plainDiff demoDiff" by code_simp
  have scan: "\<forall>l \<in> set (printDiff demoDiff). scannable l"
    by (rule scannable_short) code_simp
  have "changedLines ''/p'' demoDiff ''/p/a.go'' = Some {4, 5, 11}"
    by code_simp
  with diff_read_back [OF plain _ scan, of "''/p''"] show ?thesis by (simp add: IsAbs_def sep_def HasPrefix_def)
qed

text \<open>A removed line that begins with two more minus signs is counted as a line of the new file.\<close>

lemma removed_dashes_counted:
  assumes "HasPrefix t ''--''"
  shows "diffLine cwd (printHunkLine (Removed t)) st = diffLine cwd (printHunkLine (Kept t)) st"
  using assms by (simp add: diffLine_def HasPrefix_cons)

lemma sql_comment_shifts_lines:
  "map_option (\<lambda>r. r ''/p/a.go'') (parseDiff ''/p'' (linesText
     [''+++ b/a.go'', ''@@ -1,1 +1,1 @@'', ''--- old'', ''+new''])) = Some (Some {2})"
proof -
  let ?ls = "[''+++ b/a.go'', ''@@ -1,1 +1,1 @@'', ''--- old'', ''+new'']"
  have "\<forall>l \<in> set ?ls. scannable l" by (rule scannable_short) code_simp
  moreover have "parseDiffLines ''/p'' ?ls ''/p/a.go'' = Some {2}" by code_simp
  ultimately show ?thesis by (simp add: parseDiff_def ScanLines_linesText)
qed

end
