(* ===== verification/EngineTypes.thy ===== *)
theory EngineTypes
  imports AstOps "HOL-Library.Monad_Syntax"
begin

text \<open>
  The text of a type (\<open>typeToString\<close>, \<open>resolveTypeName\<close> and the table of declared types in
  \<open>internal/engine/engine.go\<close>). Names of types declared in the file are followed, also through
  themselves, so the functions need not return: \<open>None\<close> is the recursion without end, which the
  program leaves by dying of an exhausted stack. The printer
  of Go is the argument \<open>fmt\<close>, \<open>None\<close> where it fails.
\<close>

subsection \<open>The cases of the type switch\<close>

text \<open>
  A type is a name, has a fixed text, has a text before the text of another type, or is a map
  type.
\<close>

datatype (plugins only: size code) typeShape = TName string | TText string | TPrefix string node | TMap node node

definition exprToString :: "(node \<Rightarrow> string option) \<Rightarrow> node \<Rightarrow> string" where
  "exprToString fmt e = or_else ''?'' (fmt e)"

definition selectorText :: "node \<Rightarrow> node \<Rightarrow> string" where
  "selectorText x sel = (case (as_Ident x, as_Ident sel) of
     (Some (_, pkg), Some (_, nm)) \<Rightarrow> pkg @ ''.'' @ nm | (None, Some (_, nm)) \<Rightarrow> nm | _ \<Rightarrow> '''')"

definition typeShape :: "(node \<Rightarrow> string option) \<Rightarrow> node \<Rightarrow> typeShape" where
  "typeShape fmt t = (case t of
     Ident _ nm \<Rightarrow> TName nm
   | StarExpr _ x \<Rightarrow> TPrefix ''*'' x
   | ArrayType _ None e \<Rightarrow> TPrefix ''[]'' e
   | ArrayType _ (Some n) e \<Rightarrow> TPrefix (''['' @ exprToString fmt n @ '']'') e
   | MapType _ k v \<Rightarrow> TMap k v
   | ChanType _ _ v \<Rightarrow> TPrefix ''chan '' v
   | InterfaceType _ _ \<Rightarrow> TText ''interface{}''
   | FuncType _ _ _ _ \<Rightarrow> TText ''func''
   | SelectorExpr x sel \<Rightarrow> TText (selectorText x sel)
   | ParenExpr _ x _ \<Rightarrow> TPrefix '''' x
   | Ellipsis _ None \<Rightarrow> TText ''...''
   | Ellipsis _ (Some e) \<Rightarrow> TPrefix ''...'' e
   | _ \<Rightarrow> TText '''')"

definition shapeParts :: "typeShape \<Rightarrow> node list" where
  "shapeParts s = (case s of TPrefix _ x \<Rightarrow> [x] | TMap k v \<Rightarrow> [k, v] | _ \<Rightarrow> [])"

lemma shapeParts_size: "x \<in> set (shapeParts (typeShape fmt t)) \<Longrightarrow> size x < size t"
  by (cases t) (auto simp: typeShape_def shapeParts_def split: option.splits)

subsection \<open>Resolution\<close>

definition typeSpecs :: "node list \<Rightarrow> (string \<times> node) list" where
  "typeSpecs decls = concat (map (\<lambda>d. case as_GenDecl d of
     Some (_, _, tok, _, specs, _) \<Rightarrow>
       if tok = T_TYPE then List.map_filter (\<lambda>s. case as_TypeSpec s of
         Some (_, nm, _, _, t, _) \<Rightarrow> map_option (\<lambda>(_, n). (n, t)) (as_Ident nm)
       | None \<Rightarrow> None) specs
       else []
   | None \<Rightarrow> []) decls)"

type_synonym typeCache = "string \<rightharpoonup> string"

partial_function (option) engineTypeToString ::
  "(node \<Rightarrow> string option) \<Rightarrow> node list \<Rightarrow> node \<Rightarrow> typeCache \<Rightarrow> (string \<times> typeCache) option" where
  "engineTypeToString fmt decls t c = (case typeShape fmt t of
     TName nm \<Rightarrow> (case c nm of
         Some r \<Rightarrow> Some (r, c)
       | None \<Rightarrow> (case map_of (typeSpecs decls) nm of
           None \<Rightarrow> Some (nm, c)
         | Some u \<Rightarrow> do { (r, c1) \<leftarrow> engineTypeToString fmt decls u c; Some (r, c1(nm \<mapsto> r)) }))
   | TText s \<Rightarrow> Some (s, c)
   | TPrefix s x \<Rightarrow> do { (r, c1) \<leftarrow> engineTypeToString fmt decls x c; Some (s @ r, c1) }
   | TMap k v \<Rightarrow> do { (r1, c1) \<leftarrow> engineTypeToString fmt decls k c; (r2, c2) \<leftarrow> engineTypeToString fmt decls v c1;
       Some (''map['' @ r1 @ '']'' @ r2, c2) })"

fun buildTypes ::
  "(node \<Rightarrow> string option) \<Rightarrow> node list \<Rightarrow> (string \<times> node) list \<Rightarrow> typeCache \<Rightarrow> typeCache option" where
  "buildTypes fmt decls [] c = Some c"
| "buildTypes fmt decls ((nm, t) # specs) c =
     (if c nm \<noteq> None then buildTypes fmt decls specs c
      else do { (r, c1) \<leftarrow> engineTypeToString fmt decls t c; buildTypes fmt decls specs (c1(nm \<mapsto> r)) })"

definition buildOnce :: "(node \<Rightarrow> string option) \<Rightarrow> node list \<Rightarrow> typeCache option" where
  "buildOnce fmt decls = buildTypes fmt decls (typeSpecs decls) Map.empty"

subsection \<open>When resolution ends\<close>

text \<open>The names that the text of a type needs.\<close>

function typeNames :: "(node \<Rightarrow> string option) \<Rightarrow> node \<Rightarrow> string list" where
  "typeNames fmt t = (case typeShape fmt t of TName nm \<Rightarrow> [nm]
     | _ \<Rightarrow> concat (map (typeNames fmt) (shapeParts (typeShape fmt t))))"
  by pat_completeness auto
termination
  by (relation "measure (size \<circ> snd)") (simp, (metis comp_apply in_measure shapeParts_size snd_conv)+)

declare typeNames.simps [simp del]

lemma typeShape_Ident [simp]: "typeShape fmt (Ident p nm) = TName nm"
  by (simp add: typeShape_def)

lemma typeNames_cases:
  "typeNames fmt t = (case typeShape fmt t of TName nm \<Rightarrow> [nm] | TText s \<Rightarrow> [] | TPrefix s x \<Rightarrow> typeNames fmt x
     | TMap k v \<Rightarrow> typeNames fmt k @ typeNames fmt v)"
  by (subst typeNames.simps) (simp add: shapeParts_def split: typeShape.split)

text \<open>
  \<open>b\<close> is needed for \<open>a\<close>. The names accessible in this relation are those from which no
  endless descent starts: no declared type is reached from itself.
\<close>

definition needs :: "(node \<Rightarrow> string option) \<Rightarrow> node list \<Rightarrow> (string \<times> string) set" where
  "needs fmt decls = {(b, a). \<exists>t. map_of (typeSpecs decls) a = Some t \<and> b \<in> set (typeNames fmt t)}"

definition finite_names :: "(node \<Rightarrow> string option) \<Rightarrow> node list \<Rightarrow> string set" where
  "finite_names fmt decls = Wellfounded.acc (needs fmt decls)"

lemma finite_names_iff:
  "nm \<in> finite_names fmt decls \<longleftrightarrow>
     (\<forall>t. map_of (typeSpecs decls) nm = Some t \<longrightarrow> set (typeNames fmt t) \<subseteq> finite_names fmt decls)"
proof
  assume "nm \<in> finite_names fmt decls"
  then show "\<forall>t. map_of (typeSpecs decls) nm = Some t \<longrightarrow> set (typeNames fmt t) \<subseteq> finite_names fmt decls"
    unfolding finite_names_def by (auto simp: needs_def dest: acc_downward)
qed (auto simp: finite_names_def needs_def intro: accI)

text \<open>Resolution of a type ends when all the names it needs are finite.\<close>

lemma resolves_names:
  assumes "\<And>nm p c. nm \<in> set (typeNames fmt t) \<Longrightarrow> \<exists>y. engineTypeToString fmt decls (Ident p nm) c = Some y"
  shows "\<exists>y. engineTypeToString fmt decls t c = Some y"
  using assms
proof (induction fmt t arbitrary: c rule: typeNames.induct)
  case (1 fmt t)
  show ?case
  proof (cases "typeShape fmt t")
    case (TName nm)
    have "engineTypeToString fmt decls t c = engineTypeToString fmt decls (Ident 0 nm) c"
      unfolding engineTypeToString.simps [of fmt decls t c] engineTypeToString.simps [of fmt decls "Ident 0 nm" c]
      by (simp add: TName)
    then show ?thesis using "1.prems" [of nm 0 c] TName by (simp add: typeNames_cases)
  next
    case (TText s)
    then show ?thesis by (subst engineTypeToString.simps) simp
  next
    case (TPrefix s x)
    have "\<exists>y. engineTypeToString fmt decls x c = Some y"
      by (rule "1.IH"(2) [OF TPrefix]) (use TPrefix "1.prems" in \<open>simp_all add: shapeParts_def typeNames_cases [of fmt t]\<close>)
    then show ?thesis by (subst engineTypeToString.simps) (auto simp: TPrefix)
  next
    case (TMap k v)
    have kv: "\<exists>y. engineTypeToString fmt decls x c = Some y" if "x \<in> {k, v}" for x c
      by (rule "1.IH"(3) [OF TMap]) (use TMap "1.prems" that in \<open>auto simp: shapeParts_def typeNames_cases [of fmt t]\<close>)
    obtain r1 c1 where "engineTypeToString fmt decls k c = Some (r1, c1)" using kv [of k c] by auto
    moreover obtain r2 c2 where "engineTypeToString fmt decls v c1 = Some (r2, c2)" using kv [of v c1] by auto
    ultimately show ?thesis by (subst engineTypeToString.simps) (auto simp: TMap)
  qed
qed

lemma resolves_finite: "nm \<in> finite_names fmt decls \<Longrightarrow> \<exists>y. engineTypeToString fmt decls (Ident p nm) c = Some y"
  unfolding finite_names_def
proof (induction nm arbitrary: p c rule: acc.induct)
  case (accI nm)
  show ?case
  proof (cases "c nm = None \<and> map_of (typeSpecs decls) nm \<noteq> None")
    case True
    then obtain t where t: "map_of (typeSpecs decls) nm = Some t" by auto
    have "\<exists>y. engineTypeToString fmt decls t c = Some y"
      by (rule resolves_names) (use accI t in \<open>auto simp: needs_def\<close>)
    with t True show ?thesis by (subst engineTypeToString.simps) (auto simp: typeShape_def)
  next
    case False
    then show ?thesis by (subst engineTypeToString.simps) (auto simp: typeShape_def split: option.split)
  qed
qed

text \<open>And it ends only then: what is resolved, and what is remembered on the way, is finite.\<close>

lemma resolved_finite:
  assumes "engineTypeToString fmt decls t c = Some (r, c')" "dom c \<subseteq> finite_names fmt decls"
  shows "set (typeNames fmt t) \<subseteq> finite_names fmt decls \<and> dom c' \<subseteq> finite_names fmt decls"
proof -
  have "dom c \<subseteq> finite_names fmt decls \<longrightarrow>
     set (typeNames fmt t) \<subseteq> finite_names fmt decls \<and> dom (snd y) \<subseteq> finite_names fmt decls"
    if "engineTypeToString fmt decls t c = Some y" for y
  proof (rule engineTypeToString.raw_induct [OF _ that, where P = "\<lambda>fmt decls t c y. dom c \<subseteq> finite_names fmt decls \<longrightarrow>
     set (typeNames fmt t) \<subseteq> finite_names fmt decls \<and> dom (snd y) \<subseteq> finite_names fmt decls"], goal_cases)
    case (1 tts fmt decls t c y)
    note IH = 1(1) and run = 1(2)
    show ?case
    proof (cases "typeShape fmt t")
      case (TName nm)
      show ?thesis
      proof (cases "c nm = None \<and> map_of (typeSpecs decls) nm \<noteq> None")
        case True
        then obtain u where u: "map_of (typeSpecs decls) nm = Some u" by auto
        obtain r c1 where t: "tts fmt decls u c = Some (r, c1)" "y = (r, c1(nm \<mapsto> r))"
          using run True u by (auto simp: TName Option.bind_eq_Some_conv)
        from IH [OF t(1)] t(2) u show ?thesis
          by (auto simp: TName typeNames_cases [of fmt t] finite_names_iff [of nm fmt decls])
      next
        case False
        then have y: "snd y = c" using run by (auto simp: TName split: option.splits)
        show ?thesis
        proof (cases "c nm")
          case None
          with False have "nm \<in> finite_names fmt decls" by (simp add: finite_names_iff [of nm])
          with y show ?thesis by (simp add: TName typeNames_cases [of fmt t])
        next
          case (Some r)
          then have "nm \<in> dom c" by (rule domI)
          with y show ?thesis by (auto simp: TName typeNames_cases [of fmt t])
        qed
      qed
    next
      case (TText s)
      then show ?thesis using run by (auto simp: typeNames_cases [of fmt t])
    next
      case (TPrefix s x)
      then show ?thesis using run by (auto simp: typeNames_cases [of fmt t] Option.bind_eq_Some_conv dest!: IH)
    next
      case (TMap k v)
      then obtain r1 c1 r2 c2 where "tts fmt decls k c = Some (r1, c1)" "tts fmt decls v c1 = Some (r2, c2)" "snd y = c2"
        using run by (auto simp: Option.bind_eq_Some_conv)
      with IH [of fmt decls k c "(r1, c1)"] IH [of fmt decls v c1 "(r2, c2)"] TMap show ?thesis
        by (auto simp: typeNames_cases [of fmt t])
    qed
  qed
  from this [OF assms(1)] assms(2) show ?thesis by simp
qed

lemma engineTypeToString_grows: "engineTypeToString fmt decls t c = Some (r, c') \<Longrightarrow> dom c \<subseteq> dom c'"
proof -
  have "dom c \<subseteq> dom (snd y)" if "engineTypeToString fmt decls t c = Some y" for y
  proof (rule engineTypeToString.raw_induct [OF _ that, where P = "\<lambda>fmt decls t c y. dom c \<subseteq> dom (snd y)"], goal_cases)
    case (1 tts fmt decls t c y)
    from 1(2) show ?case
      by (cases "typeShape fmt t") (fastforce simp: Option.bind_eq_Some_conv dest: 1(1) split: option.splits)+
  qed
  then show "engineTypeToString fmt decls t c = Some (r, c') \<Longrightarrow> ?thesis" by fastforce
qed

lemma first_declared:
  "\<lbrakk>typeSpecs decls = pre @ (nm, t) # suf; fst ` set pre \<subseteq> dom c; c nm = None\<rbrakk> \<Longrightarrow>
     map_of (typeSpecs decls) nm = Some t"
  by (subgoal_tac "nm \<notin> fst ` set pre") (auto simp: map_add_def map_of_eq_None_iff [THEN iffD2])

lemma buildTypes_finite:
  "\<lbrakk>buildTypes fmt decls suf c = Some c'; typeSpecs decls = pre @ suf; fst ` set pre \<subseteq> dom c;
     dom c \<subseteq> finite_names fmt decls\<rbrakk> \<Longrightarrow> fst ` set (typeSpecs decls) \<subseteq> finite_names fmt decls"
proof (induction suf arbitrary: c pre)
  case (Cons x suf)
  obtain nm t where x: "x = (nm, t)" by fastforce
  show ?case
  proof (cases "c nm")
    case None
    then obtain r c1 where t: "engineTypeToString fmt decls t c = Some (r, c1)" "buildTypes fmt decls suf (c1(nm \<mapsto> r)) = Some c'"
      using Cons.prems(1) by (auto simp: x Option.bind_eq_Some_conv)
    have "map_of (typeSpecs decls) nm = Some t"
      using first_declared [of decls pre nm t suf c] Cons.prems(2,3) None by (simp add: x)
    moreover note fin = resolved_finite [OF t(1) Cons.prems(4)]
    ultimately have "nm \<in> finite_names fmt decls" by (simp add: finite_names_iff [of nm])
    then have d: "dom (c1(nm \<mapsto> r)) \<subseteq> finite_names fmt decls" using fin by simp
    have "fst ` set (pre @ [x]) \<subseteq> dom (c1(nm \<mapsto> r))"
      using order_trans [OF Cons.prems(3) engineTypeToString_grows [OF t(1)]] by (simp add: x subset_insertI2)
    then show ?thesis by (rule Cons.IH [OF t(2) _ _ d, rotated]) (simp add: Cons.prems(2))
  next
    case (Some r)
    then show ?thesis using Cons.IH [of c "pre @ [x]"] Cons.prems by (auto simp: x)
  qed
qed auto

lemma buildTypes_returns:
  "\<lbrakk>fst ` set (typeSpecs decls) \<subseteq> finite_names fmt decls; typeSpecs decls = pre @ suf; fst ` set pre \<subseteq> dom c\<rbrakk> \<Longrightarrow>
   \<exists>c'. buildTypes fmt decls suf c = Some c'"
proof (induction suf arbitrary: c pre)
  case (Cons x suf)
  obtain nm t where x: "x = (nm, t)" by fastforce
  show ?case
  proof (cases "c nm")
    case None
    have "map_of (typeSpecs decls) nm = Some t"
      using first_declared [of decls pre nm t suf c] Cons.prems(2,3) None by (simp add: x)
    moreover have "nm \<in> finite_names fmt decls" using Cons.prems(1,2) by (auto simp: x)
    ultimately have names: "set (typeNames fmt t) \<subseteq> finite_names fmt decls" by (simp add: finite_names_iff [of nm])
    have "\<exists>y. engineTypeToString fmt decls t c = Some y"
      by (rule resolves_names, rule resolves_finite, erule subsetD [OF names])
    then obtain r c1 where t: "engineTypeToString fmt decls t c = Some (r, c1)" by auto
    have "fst ` set (pre @ [x]) \<subseteq> dom (c1(nm \<mapsto> r))"
      using order_trans [OF Cons.prems(3) engineTypeToString_grows [OF t]] by (simp add: x subset_insertI2)
    then have "\<exists>c'. buildTypes fmt decls suf (c1(nm \<mapsto> r)) = Some c'"
      by (rule Cons.IH [OF Cons.prems(1), rotated]) (simp add: Cons.prems(2))
    then show ?thesis using None t by (simp add: x)
  next
    case (Some r)
    then show ?thesis using Cons.IH [of "pre @ [x]" c] Cons.prems by (auto simp: x)
  qed
qed simp

lemma needs_finite: "finite (needs fmt decls)"
proof -
  have "needs fmt decls \<subseteq> (\<Union>(a, t) \<in> set (typeSpecs decls). (\<lambda>b. (b, a)) ` set (typeNames fmt t))"
    by (auto simp: needs_def dest: map_of_SomeD)
  then show ?thesis by (rule finite_subset) auto
qed

lemma acc_no_cycle: "a \<in> Wellfounded.acc R \<Longrightarrow> (a, a) \<notin> R\<^sup>+"
proof (induction rule: acc.induct)
  case (accI a)
  show ?case
  proof
    assume "(a, a) \<in> R\<^sup>+"
    then obtain y where "(a, y) \<in> R\<^sup>*" "(y, a) \<in> R" by (metis tranclD2)
    then have "(y, y) \<in> R\<^sup>+" by (rule rtrancl_into_trancl2 [rotated])
    with accI \<open>(y, a) \<in> R\<close> show False by blast
  qed
qed

text \<open>
  C31. The table of the types that one file declares is built exactly when none of them contains
  itself through pointers, slices, arrays, maps and channels alone: the recursion ends if and
  only if the relation between a declared name and the names its text needs has no cycle. With a
  declaration such as \<open>type Tree map[string]Tree\<close>, which is correct Go, it does not, and the
  program dies of an exhausted stack. The scan builds the table from the first file of a package
  only; the types of its other files are followed one by one where the text of a result needs
  them.
\<close>

theorem type_table_built_iff_acyclic:
  "(\<exists>c. buildOnce fmt decls = Some c) \<longleftrightarrow> acyclic (needs fmt decls)"
proof
  assume "\<exists>c. buildOnce fmt decls = Some c"
  then have fin: "fst ` set (typeSpecs decls) \<subseteq> finite_names fmt decls"
    using buildTypes_finite [of fmt decls "typeSpecs decls" Map.empty _ "[]"] by (auto simp: buildOnce_def)
  have "(a, a) \<notin> (needs fmt decls)\<^sup>+" for a
  proof
    assume cycle: "(a, a) \<in> (needs fmt decls)\<^sup>+"
    then obtain y where "(y, a) \<in> needs fmt decls" by (auto elim: tranclE)
    then have "a \<in> fst ` set (typeSpecs decls)" by (force simp: needs_def dest: map_of_SomeD)
    with fin have "a \<in> Wellfounded.acc (needs fmt decls)" by (auto simp: finite_names_def)
    from acc_no_cycle [OF this] cycle show False by simp
  qed
  then show "acyclic (needs fmt decls)" by (simp add: acyclic_def)
next
  assume "acyclic (needs fmt decls)"
  then have "wf (needs fmt decls)" by (rule finite_acyclic_wf [OF needs_finite])
  then have "finite_names fmt decls = UNIV" unfolding finite_names_def by (auto dest: acc_wfD)
  then show "\<exists>c. buildOnce fmt decls = Some c"
    unfolding buildOnce_def by (intro buildTypes_returns [of _ _ "[]"]) auto
qed

lemma recursive_map_type_diverges:
  "buildOnce fmt [GenDecl None 1 T_TYPE 0 [TypeSpec None (Ident 6 ''Tree'') None 0
     (MapType 11 (Ident 15 ''string'') (Ident 22 ''Tree'')) None] 0] = None"
proof -
  let ?decls = "[GenDecl None 1 T_TYPE 0 [TypeSpec None (Ident 6 ''Tree'') None 0
     (MapType 11 (Ident 15 ''string'') (Ident 22 ''Tree'')) None] 0]"
  have s: "typeSpecs ?decls = [(''Tree'', MapType 11 (Ident 15 ''string'') (Ident 22 ''Tree''))]"
    by (simp add: typeSpecs_def map_filter_simps)
  have n: "typeNames fmt (MapType 11 (Ident 15 ''string'') (Ident 22 ''Tree'')) = [''string'', ''Tree'']"
    by (simp add: typeNames_cases typeShape_def)
  have "(''Tree'', ''Tree'') \<in> needs fmt ?decls" unfolding needs_def s by (simp add: n)
  then have "\<not> acyclic (needs fmt ?decls)" by (auto simp: acyclic_def)
  then show ?thesis using type_table_built_iff_acyclic [of fmt ?decls] by (cases "buildOnce fmt ?decls") auto
qed

end
