(* ===== verification/Directives.thy ===== *)
theory Directives
  imports GoPath GoAst Config "HOL-Library.AList"
begin

text \<open>
  Ignore directives (\<open>internal/engine/engine.go\<close>): the comments \<open>gorgon:ignore\<close> of a file,
  the entries of the configuration, and the test whether a node is ignored. The nested Go
  maps are association lists, in the order in which the keys were added; a range over such a
  map visits the keys in some order, and this list order stands for it. The inner map of
  columns holds \<open>true\<close> only, so it is the list of its columns.
\<close>

type_synonym columnSet = "int list"
type_synonym operatorMap = "(string \<times> columnSet) list"
type_synonym lineMap = "(int \<times> operatorMap) list"
type_synonym directives = "(string \<times> lineMap) list"

subsection \<open>Nested maps\<close>

text \<open>Write below a key; a missing inner map is made first.\<close>

definition below :: "'k \<Rightarrow> ('v list \<Rightarrow> 'v list) \<Rightarrow> ('k \<times> 'v list) list \<Rightarrow> ('k \<times> 'v list) list" where
  "below k f m = AList.update k (f (or_else [] (map_of m k))) m"

definition insertColumn :: "int \<Rightarrow> columnSet \<Rightarrow> columnSet" where
  "insertColumn c cs = (if c \<in> set cs then cs else cs @ [c])"

definition addDirective :: "int \<Rightarrow> string \<Rightarrow> int \<Rightarrow> lineMap \<Rightarrow> lineMap" where
  "addDirective line op col = below line (below op (insertColumn col))"

definition columnsAt :: "lineMap \<Rightarrow> int \<Rightarrow> string \<Rightarrow> columnSet" where
  "columnsAt d line op = or_else [] (map_of (or_else [] (map_of d line)) op)"

definition isIgnored :: "lineMap \<Rightarrow> int \<Rightarrow> string \<Rightarrow> int \<Rightarrow> bool" where
  "isIgnored d line op col = (case map_of d line of
     None \<Rightarrow> False
   | Some ops \<Rightarrow>
       if 0 \<in> set (or_else [] (map_of ops '''')) then True
       else 0 \<in> set (or_else [] (map_of ops op)) \<or> col \<in> set (or_else [] (map_of ops op)))"

lemma map_of_below [simp]:
  "map_of (below k f m) j = (if j = k then Some (f (or_else [] (map_of m k))) else map_of m j)"
  by (simp add: below_def update_conv')

lemma set_insertColumn [simp]: "set (insertColumn c cs) = insert c (set cs)"
  by (auto simp: insertColumn_def)

lemma columnsAt_add:
  "set (columnsAt (addDirective line op col d) l p) =
     (if l = line \<and> p = op then insert col (set (columnsAt d l p)) else set (columnsAt d l p))"
  by (simp add: columnsAt_def addDirective_def)

lemma isIgnored_columns:
  "isIgnored d line op col \<longleftrightarrow> 0 \<in> set (columnsAt d line '''') \<or>
     0 \<in> set (columnsAt d line op) \<or> col \<in> set (columnsAt d line op)"
  by (auto simp: isIgnored_def columnsAt_def split: option.split)

subsection \<open>Comments\<close>

text \<open>
  One comment: the line it speaks about, with the operator (empty for all) and the column (0
  for every column); \<open>None\<close> in the second place is a directive without an operator name,
  which only makes the line known.
\<close>

definition ignoreMark :: string where "ignoreMark = ''gorgon:ignore''"

definition parseDirective :: "string \<Rightarrow> (string \<times> int) option option" where
  "parseDirective commentText =
     (let text = TrimSpace (TrimPrefix commentText ''//'') in
      if \<not> HasPrefix text ignoreMark then None
      else let rest = TrimSpace (TrimPrefix text ignoreMark) in
        if rest = '''' then Some (Some ('''', 0))
        else let parts = SplitN2 rest (CHR '':''); op = TrimSpace (hd parts) in
          if op = '''' then Some None
          else case tl parts of
            [c] \<Rightarrow> (case Atoi (TrimSpace c) of Some col \<Rightarrow> Some (Some (op, col)) | None \<Rightarrow> Some (Some (op, 0)))
          | _ \<Rightarrow> Some (Some (op, 0)))"

fun parseComments :: "(int \<Rightarrow> int \<times> int) \<Rightarrow> node list \<Rightarrow> lineMap \<Rightarrow> lineMap" where
  "parseComments position [] d = d"
| "parseComments position (Comment p text # cs) d =
     (let target = fst (position p) + 1 in
      parseComments position cs (case parseDirective text of
        None \<Rightarrow> d
      | Some None \<Rightarrow> below target id d
      | Some (Some (op, col)) \<Rightarrow>
          if op = '''' then below target (AList.update '''' [0]) d
          else addDirective target op col d))"
| "parseComments position (_ # cs) d = parseComments position cs d"

definition parseIgnoreComments :: "node \<Rightarrow> (int \<Rightarrow> int \<times> int) \<Rightarrow> lineMap" where
  "parseIgnoreComments f position = (case f of
     File _ _ _ _ groups \<Rightarrow>
       parseComments position (concat (map (\<lambda>g. case g of CommentGroup cs \<Rightarrow> cs | _ \<Rightarrow> []) groups)) []
   | _ \<Rightarrow> [])"

subsection \<open>Merging and the configuration's entries\<close>

definition mergeColumns :: "columnSet \<Rightarrow> columnSet \<Rightarrow> columnSet" where
  "mergeColumns new cs = foldl (\<lambda>cs c. insertColumn c cs) cs new"

definition mergeOperators :: "operatorMap \<Rightarrow> operatorMap \<Rightarrow> operatorMap" where
  "mergeOperators new ops = foldl (\<lambda>ops (op, cs). below op (mergeColumns cs) ops) ops new"

definition mergeLines :: "lineMap \<Rightarrow> lineMap \<Rightarrow> lineMap" where
  "mergeLines new d = foldl (\<lambda>d (line, ops). below line (mergeOperators ops) d) d new"

definition mergeIgnoreDirectives :: "string \<Rightarrow> lineMap \<Rightarrow> directives \<Rightarrow> directives" where
  "mergeIgnoreDirectives absPath new = below absPath (mergeLines new)"

text \<open>One operator of an entry: a name, or a name and a column.\<close>

definition entryOperator :: "string \<Rightarrow> (string \<times> int) option" where
  "entryOperator raw =
     (let op = TrimSpace raw; parts = SplitN2 op (CHR '':'') in
      if op = '''' then None
      else Some (hd parts, case tl parts of [c] \<Rightarrow> or_else 0 (Atoi c) | _ \<Rightarrow> 0))"

definition entryLocation :: "string \<Rightarrow> string \<Rightarrow> SuppressEntry \<Rightarrow> (string \<times> int) option" where
  "entryLocation cwd rt e =
     (let loc = TrimSpace (Location e) in
      if loc = '''' then None
      else case LastIndexByte loc (CHR '':'') of
        None \<Rightarrow> None
      | Some i \<Rightarrow> map_option (\<lambda>line.
            (let path = take i loc in if IsAbs path then path else Abs cwd (PathJoin [rt, path]), line))
          (Atoi (drop (Suc i) loc)))"

definition setSuppressEntry :: "string \<Rightarrow> string \<Rightarrow> directives \<Rightarrow> SuppressEntry \<Rightarrow> directives" where
  "setSuppressEntry cwd rt d e = (case entryLocation cwd rt e of
     None \<Rightarrow> d
   | Some (path, line) \<Rightarrow> below path (below line (\<lambda>ops.
       if SuppressOps e = [] then below '''' (insertColumn 0) ops
       else foldl (\<lambda>ops raw. case entryOperator raw of
           None \<Rightarrow> ops | Some (op, col) \<Rightarrow> below op (insertColumn col) ops) ops (SuppressOps e))) d)"

definition SetSuppressEntries :: "string \<Rightarrow> string \<Rightarrow> SuppressEntry list \<Rightarrow> directives \<Rightarrow> directives" where
  "SetSuppressEntries cwd projRoot entries d =
     foldl (setSuppressEntry cwd (if projRoot = '''' then cwd else projRoot)) d entries"

lemma mergeColumns_set [simp]: "set (mergeColumns new cs) = set new \<union> set cs"
  unfolding mergeColumns_def by (induction new arbitrary: cs) auto

lemma mergeOperators_set:
  "set (or_else [] (map_of (mergeOperators new ops) op)) =
     set (or_else [] (map_of ops op)) \<union> \<Union> (set ` snd ` {p \<in> set new. fst p = op})"
  unfolding mergeOperators_def
  by (induction new arbitrary: ops) (auto split: prod.splits)

lemma mergeLines_set:
  "set (columnsAt (mergeLines new d) l op) = set (columnsAt d l op) \<union>
     {c. \<exists>ops cs. (l, ops) \<in> set new \<and> (op, cs) \<in> set ops \<and> c \<in> set cs}"
proof (induction new arbitrary: d)
  case (Cons x new)
  obtain l' ops where x: "x = (l', ops)" by fastforce
  have "set (columnsAt (below l' (mergeOperators ops) d) l op) =
      set (columnsAt d l op) \<union> (if l = l' then \<Union> (set ` snd ` {p \<in> set ops. fst p = op}) else {})"
    by (simp add: columnsAt_def mergeOperators_set)
  moreover have "\<Union> (set ` snd ` {p \<in> set ops. fst p = op}) = {c. \<exists>cs. (op, cs) \<in> set ops \<and> c \<in> set cs}"
    by force
  ultimately have "set (columnsAt (below l' (mergeOperators ops) d) l op) = set (columnsAt d l op) \<union>
      {c. l = l' \<and> (\<exists>cs. (op, cs) \<in> set ops \<and> c \<in> set cs)}" by simp
  with Cons.IH [of "below l' (mergeOperators ops) d"] show ?case
    by (simp only: mergeLines_def x foldl_Cons prod.case) auto
qed (simp add: mergeLines_def)

text \<open>Every directive found in a file is in the merged table, and nothing else is added to it.\<close>

lemma merged_directives:
  assumes "distinct (map fst new)" "\<forall>(l, ops) \<in> set new. distinct (map fst ops)"
  shows "set (columnsAt (or_else [] (map_of (mergeIgnoreDirectives p new d) p)) l op) =
     set (columnsAt (or_else [] (map_of d p)) l op) \<union> set (columnsAt new l op)"
proof -
  have lines: "(l, ops) \<in> set new \<longleftrightarrow> map_of new l = Some ops" for ops
    by (rule map_of_eq_Some_iff [OF assms(1), symmetric])
  have cols: "(op, cs) \<in> set ops \<longleftrightarrow> map_of ops op = Some cs" if "(l, ops) \<in> set new" for ops cs
    using assms(2) that by (intro map_of_eq_Some_iff [symmetric]) auto
  have "{c. \<exists>ops cs. (l, ops) \<in> set new \<and> (op, cs) \<in> set ops \<and> c \<in> set cs} = set (columnsAt new l op)"
  proof (cases "map_of new l")
    case None
    then show ?thesis by (simp add: columnsAt_def lines)
  next
    case (Some ops)
    then have "(l, ops) \<in> set new" by (simp add: lines)
    from cols [OF this] Some show ?thesis by (cases "map_of ops op") (auto simp: columnsAt_def lines)
  qed
  then show ?thesis by (simp add: mergeIgnoreDirectives_def mergeLines_set)
qed

end
