(* ===== verification/Engine.thy ===== *)
theory Engine
  imports EngineTypes Directives Mutants "HOL-Library.Product_Lexorder" "HOL-Library.List_Lexorder" "HOL-Library.Char_ord"
begin

text \<open>
  Finding the sites (\<open>internal/engine/engine.go\<close>). The record \<open>Loader\<close> holds what is outside:
  the file system, the parser, the positions of a file, the printer and the package loader.
  Packages are scanned one after the other. Every node of a file is visited once, so the memo
  of contexts, which is keyed by nodes, is never hit and is left out; the map from nodes to
  their parents is the list of the ancestors that comes with each visited node. \<open>None\<close> is an
  error or a scan that does not return.
\<close>

record Loader =
  ldCwd :: string
  ldIsDir :: "string \<Rightarrow> bool option"
  ldTree :: "string \<Rightarrow> fsnode"
  ldParse :: "string \<Rightarrow> node option"
  ldPosition :: "string \<Rightarrow> int \<Rightarrow> Position"
  ldFormat :: "node \<Rightarrow> string option"
  ldPackages :: "string \<Rightarrow> (string \<times> node) list list option"

record Engine =
  eOperators :: "operator list"
  eProjectRoot :: string
  eDirectives :: directives
  eSites :: "Site list"
  eTotalFiles :: nat
  eFilesProcessed :: nat

definition NewEngine :: Engine where
  "NewEngine = \<lparr>eOperators = [], eProjectRoot = '''', eDirectives = [], eSites = [],
     eTotalFiles = 0, eFilesProcessed = 0\<rparr>"

definition SetOperators :: "operator list \<Rightarrow> Engine \<Rightarrow> Engine" where
  "SetOperators ops e = e\<lparr>eOperators := ops\<rparr>"

definition SetProjectRoot :: "string \<Rightarrow> string \<Rightarrow> Engine \<Rightarrow> Engine" where
  "SetProjectRoot cwd rt e = (if rt \<noteq> '''' then e\<lparr>eProjectRoot := Abs cwd rt\<rparr> else e)"

definition engineSetSuppress :: "string \<Rightarrow> SuppressEntry list \<Rightarrow> Engine \<Rightarrow> Engine" where
  "engineSetSuppress cwd ents e =
     e\<lparr>eDirectives := SetSuppressEntries cwd (eProjectRoot e) ents (eDirectives e)\<rparr>"

subsection \<open>Nodes with their ancestors\<close>

text \<open>\<open>trail f up n\<close> lists the nodes that \<open>ast.Inspect\<close> visits, each with its ancestors, the parent first.\<close>

function trail :: "(node \<Rightarrow> bool) \<Rightarrow> node list \<Rightarrow> node \<Rightarrow> (node \<times> node list) list" where
  "trail f up n = (n, up) # (if f n then concat (map (trail f (n # up)) (kids n)) else [])"
  by pat_completeness auto
termination
  by (relation "measure (\<lambda>(f, up, n). size n)") (auto simp: kids_size)

declare trail.simps [simp del]

lemma trail_nodes: "map fst (trail f up n) = walk f n"
proof (induction f up n rule: trail.induct)
  case (1 f up n)
  have "map (map fst \<circ> trail f (n # up)) (kids n) = map (walk f) (kids n)" if "f n"
    using 1 that by simp
  then show ?case
    by (subst trail.simps, subst walk.simps) (simp add: map_concat del: map_map flip: map_map)
qed

fun findEnclosingFuncFast :: "node list \<Rightarrow> node option" where
  "findEnclosingFuncFast [] = None"
| "findEnclosingFuncFast (p # ps) = (if as_FuncDecl p \<noteq> None then Some p else findEnclosingFuncFast ps)"

definition funcResults :: "node \<Rightarrow> node option" where
  "funcResults t = (case as_FuncType t of None \<Rightarrow> None | Some (_, _, _, results) \<Rightarrow> results)"

fun findInnermostFuncResults :: "node list \<Rightarrow> node option" where
  "findInnermostFuncResults [] = None"
| "findInnermostFuncResults (p # ps) = (case as_FuncLit p of
     Some (t, _) \<Rightarrow> funcResults t
   | None \<Rightarrow> (case as_FuncDecl p of
       Some (_, _, _, t, _) \<Rightarrow> funcResults t
     | None \<Rightarrow> findInnermostFuncResults ps))"

definition getPackageName :: "node \<Rightarrow> string" where
  "getPackageName f = (case f of File _ _ (Ident _ nm) _ _ \<Rightarrow> nm | _ \<Rightarrow> '''')"

definition fileDecls :: "node \<Rightarrow> node list" where
  "fileDecls f = (case as_File f of None \<Rightarrow> [] | Some (_, _, _, ds, _) \<Rightarrow> ds)"

subsection \<open>Contexts\<close>

fun resultTypes ::
  "(node \<Rightarrow> string option) \<Rightarrow> node list \<Rightarrow> node list \<Rightarrow> typeCache \<Rightarrow> (string list \<times> typeCache) option" where
  "resultTypes fmt decls [] c = Some ([], c)"
| "resultTypes fmt decls (field # fs) c = (case as_Field field of
     Some (_, names, Some t, _, _) \<Rightarrow> do {
       (r, c1) \<leftarrow> engineTypeToString fmt decls t c;
       (rs, c2) \<leftarrow> resultTypes fmt decls fs c1;
       Some (replicate (if 1 < length names then length names else 1) r @ rs, c2) }
   | _ \<Rightarrow> resultTypes fmt decls fs c)"

definition returnTypeOf ::
  "(node \<Rightarrow> string option) \<Rightarrow> node list \<Rightarrow> node list \<Rightarrow> typeCache \<Rightarrow> (string \<times> typeCache) option" where
  "returnTypeOf fmt decls up c = (case findInnermostFuncResults up of
     None \<Rightarrow> Some ('''', c)
   | Some results \<Rightarrow> (case as_FieldList results of
       None \<Rightarrow> Some ('''', c)
     | Some (_, flds, _) \<Rightarrow> do { (ts, c1) \<leftarrow> resultTypes fmt decls flds c; Some (Join ts '','', c1) }))"

definition functionName :: "node \<Rightarrow> string" where
  "functionName fn = (case as_FuncDecl fn of
     Some (_, _, Ident _ nm, _, _) \<Rightarrow> nm | _ \<Rightarrow> '''')"

definition buildContextLazy ::
  "Loader \<Rightarrow> string \<Rightarrow> node \<Rightarrow> node \<times> node list \<Rightarrow> typeCache \<Rightarrow> (Context \<times> typeCache) option" where
  "buildContextLazy L f tree = (\<lambda>(n, up) c. do {
     (rt, c1) \<leftarrow> returnTypeOf (ldFormat L) (fileDecls tree) up c;
     let fn = findEnclosingFuncFast up;
     Some (\<lparr>ReturnType = rt, FunctionName = (case fn of None \<Rightarrow> '''' | Some d \<Rightarrow> functionName d),
       PackageName = getPackageName tree, FileName = f, CtxPosition = GetNodePosition n (ldPosition L f),
       EnclosingFunc = fn, CtxFile = Some tree, Parent = (case up of [] \<Rightarrow> None | p # _ \<Rightarrow> Some p)\<rparr>, c1) })"

subsection \<open>Sites of a file\<close>

definition appliesIn :: "operator \<Rightarrow> node \<Rightarrow> Context \<Rightarrow> bool" where
  "appliesIn op n ctx = (case Contextual op of Some (cac, _) \<Rightarrow> cac n ctx | None \<Rightarrow> CanApply op n)"

definition siteFor :: "string \<Rightarrow> node \<Rightarrow> Position \<Rightarrow> node \<Rightarrow> Context \<Rightarrow> Site" where
  "siteFor f tree pos n ctx = \<lparr>sFile = f, sFileAST = Some tree, sLine = PLine pos, sColumn = PColumn pos, sNode = n,
     sReturnType = ReturnType ctx, sFunctionName = FunctionName ctx, sEnclosingFunc = EnclosingFunc ctx\<rparr>"

definition nodeSites ::
  "operator list \<Rightarrow> lineMap \<Rightarrow> string \<Rightarrow> node \<Rightarrow> Position \<Rightarrow> node \<Rightarrow> Context \<Rightarrow> Site list" where
  "nodeSites ops ignore f tree pos n ctx =
     map (\<lambda>op. siteFor f tree pos n ctx)
       (filter (\<lambda>op. appliesIn op n ctx \<and> \<not> isIgnored ignore (PLine pos) (OpName op) (PColumn pos)) ops)"

fun scanNodes ::
  "Loader \<Rightarrow> operator list \<Rightarrow> lineMap \<Rightarrow> string \<Rightarrow> node \<Rightarrow> (node \<times> node list) list \<Rightarrow> typeCache \<Rightarrow>
   (Site list \<times> typeCache) option" where
  "scanNodes L ops ignore f tree [] c = Some ([], c)"
| "scanNodes L ops ignore f tree (nu # rest) c = do {
     (ctx, c1) \<leftarrow> buildContextLazy L f tree nu c;
     (ss, c2) \<leftarrow> scanNodes L ops ignore f tree rest c1;
     Some (nodeSites ops ignore f tree (GetNodePosition (fst nu) (ldPosition L f)) (fst nu) ctx @ ss, c2) }"

text \<open>One file: \<open>cache\<close> is \<open>None\<close> until the table of types is built from the first file.\<close>

definition processFile ::
  "Loader \<Rightarrow> (node \<Rightarrow> bool) \<Rightarrow> string \<times> node \<Rightarrow> Engine \<Rightarrow> typeCache option \<Rightarrow> (Engine \<times> typeCache option) option" where
  "processFile L visitor = (\<lambda>(f, tree) e cache. do {
     let ignore = parseIgnoreComments tree (\<lambda>p. (PLine (ldPosition L f p), PColumn (ldPosition L f p)));
     c \<leftarrow> (case cache of Some c \<Rightarrow> Some c | None \<Rightarrow> buildOnce (ldFormat L) (fileDecls tree));
     (ss, c1) \<leftarrow> scanNodes L (eOperators e) ignore f tree (trail visitor [] tree) c;
     Some (e\<lparr>eDirectives := mergeIgnoreDirectives (Abs (ldCwd L) f) ignore (eDirectives e),
             eSites := eSites e @ ss, eFilesProcessed := Suc (eFilesProcessed e)\<rparr>, Some c1) })"

fun processFilesFrom ::
  "Loader \<Rightarrow> (node \<Rightarrow> bool) \<Rightarrow> (string \<times> node) list \<Rightarrow> Engine \<Rightarrow> typeCache option \<Rightarrow> Engine option" where
  "processFilesFrom L visitor [] e cache = Some e"
| "processFilesFrom L visitor (f # fs) e cache = do {
     (e1, cache1) \<leftarrow> processFile L visitor f e cache;
     processFilesFrom L visitor fs e1 cache1 }"

definition processFiles :: "Loader \<Rightarrow> (node \<Rightarrow> bool) \<Rightarrow> (string \<times> node) list \<Rightarrow> Engine \<Rightarrow> Engine option" where
  "processFiles L visitor files e = processFilesFrom L visitor files e None"

subsection \<open>Traversal\<close>

fun allFiles :: "string \<Rightarrow> fsnode \<Rightarrow> string list" where
  "allFiles path (Leaf nm) = [path]"
| "allFiles path (Folder nm cs) = concat (map (\<lambda>c. allFiles (PathJoin [path, case c of Leaf n \<Rightarrow> n | Folder n _ \<Rightarrow> n]) c) cs)"

definition findGoModFiles :: "Loader \<Rightarrow> string \<Rightarrow> string list" where
  "findGoModFiles L rt = filter (\<lambda>p. Base p = ''go.mod'') (allFiles rt (ldTree L rt))"

definition isGoLeaf :: "fsnode \<Rightarrow> bool" where
  "isGoLeaf c = (case c of Leaf n \<Rightarrow> HasSuffix n ''.go'' | Folder _ _ \<Rightarrow> False)"

fun goPackages :: "string \<Rightarrow> fsnode \<Rightarrow> string list" where
  "goPackages path (Leaf nm) = []"
| "goPackages path (Folder nm cs) =
     (if HasPrefix nm ''.'' \<or> nm = ''vendor'' then []
      else if list_ex isGoLeaf cs then [path]
      else concat (map (\<lambda>c. goPackages (PathJoin [path, case c of Leaf n \<Rightarrow> n | Folder n _ \<Rightarrow> n]) c) cs))"

definition findGoPackages :: "Loader \<Rightarrow> string \<Rightarrow> string list" where
  "findGoPackages L rt = goPackages rt (ldTree L rt)"

definition goSources :: "string \<Rightarrow> fsnode \<Rightarrow> string list" where
  "goSources absDir d = (case d of
     Leaf _ \<Rightarrow> []
   | Folder _ cs \<Rightarrow> List.map_filter (\<lambda>c. case c of
       Leaf n \<Rightarrow> if HasSuffix n ''.go'' \<and> \<not> HasSuffix n ''_test.go'' then Some (PathJoin [absDir, n]) else None
     | Folder _ _ \<Rightarrow> None) cs)"

definition traverseSinglePkgDir :: "Loader \<Rightarrow> (node \<Rightarrow> bool) \<Rightarrow> string \<Rightarrow> Engine \<Rightarrow> Engine option" where
  "traverseSinglePkgDir L visitor d e =
     (let absDir = Abs (ldCwd L) d;
          files = List.map_filter (\<lambda>p. map_option (Pair p) (ldParse L p)) (goSources absDir (ldTree L absDir))
      in if files = [] then Some e
         else processFiles L visitor files (e\<lparr>eTotalFiles := eTotalFiles e + length files\<rparr>))"

fun eachStep :: "('a \<Rightarrow> Engine \<Rightarrow> Engine option) \<Rightarrow> 'a list \<Rightarrow> Engine \<Rightarrow> Engine option" where
  "eachStep step [] e = Some e"
| "eachStep step (x # xs) e = do { e1 \<leftarrow> step x e; eachStep step xs e1 }"

definition traverseModule :: "Loader \<Rightarrow> (node \<Rightarrow> bool) \<Rightarrow> string \<Rightarrow> Engine \<Rightarrow> Engine option" where
  "traverseModule L visitor path e = do {
     pkgs \<leftarrow> ldPackages L path;
     eachStep (processFiles L visitor) pkgs (e\<lparr>eTotalFiles := eTotalFiles e + length (concat pkgs)\<rparr>) }"

definition traverseSingleFile :: "Loader \<Rightarrow> (node \<Rightarrow> bool) \<Rightarrow> string \<Rightarrow> Engine \<Rightarrow> Engine option" where
  "traverseSingleFile L visitor path e = do {
     tree \<leftarrow> ldParse L path;
     processFiles L visitor [(path, tree)] (e\<lparr>eTotalFiles := 1\<rparr>) }"

definition Traverse :: "Loader \<Rightarrow> (node \<Rightarrow> bool) \<Rightarrow> string \<Rightarrow> Engine \<Rightarrow> Engine option" where
  "Traverse L visitor path e = do {
     isDir \<leftarrow> ldIsDir L path;
     if \<not> isDir then (if HasSuffix path ''.go'' then traverseSingleFile L visitor path e else Some e)
     else let modFiles = findGoModFiles L path in
       if 1 < length modFiles then eachStep (\<lambda>m. traverseModule L visitor (Dir m)) modFiles e
       else if modFiles = [] then eachStep (traverseSinglePkgDir L visitor) (findGoPackages L path) e
       else traverseModule L visitor path e }"

text \<open>
  \<open>sort.Slice\<close> promises no order of equal sites; the sort here keeps the order in which they
  were found.
\<close>

definition Sites :: "Engine \<Rightarrow> Site list" where
  "Sites e = sort_key (\<lambda>s. (sFile s, sLine s, sColumn s, NodeTypeToUint8 (sNode s))) (eSites e)"

subsection \<open>What the directives do\<close>

text \<open>Two engines that differ in their table of directives only.\<close>

definition sameBut :: "Engine \<Rightarrow> Engine \<Rightarrow> bool" where
  "sameBut e e' \<longleftrightarrow> e\<lparr>eDirectives := []\<rparr> = e'\<lparr>eDirectives := []\<rparr>"

lemma sameBut_fields: "sameBut e e' \<longleftrightarrow> eOperators e = eOperators e' \<and> eProjectRoot e = eProjectRoot e' \<and>
    eSites e = eSites e' \<and> eTotalFiles e = eTotalFiles e' \<and> eFilesProcessed e = eFilesProcessed e'"
  by (cases e; cases e') (auto simp: sameBut_def)

lemma bind_rel:
  "\<lbrakk>rel_option R x y; \<And>a b. R a b \<Longrightarrow> rel_option S (f a) (g b)\<rbrakk> \<Longrightarrow> rel_option S (x \<bind> f) (y \<bind> g)"
  by (cases x; cases y) auto

lemma processFile_same:
  "sameBut e e' \<Longrightarrow> rel_option (\<lambda>x y. sameBut (fst x) (fst y) \<and> snd x = snd y)
     (processFile L v f e cache) (processFile L v f e' cache)"
  unfolding processFile_def Let_def
  by (cases f, simp) (intro bind_rel [where R = "(=)"]; auto simp: sameBut_fields option.rel_refl)

lemma processFilesFrom_same:
  "sameBut e e' \<Longrightarrow> rel_option sameBut (processFilesFrom L v fs e cache) (processFilesFrom L v fs e' cache)"
proof (induction fs arbitrary: e e' cache)
  case (Cons f fs)
  show ?case unfolding processFilesFrom.simps
    by (rule bind_rel [OF processFile_same [OF Cons.prems]]) (auto intro: Cons.IH split: prod.split)
qed simp

lemma processFiles_same: "sameBut e e' \<Longrightarrow> rel_option sameBut (processFiles L v fs e) (processFiles L v fs e')"
  unfolding processFiles_def by (rule processFilesFrom_same)

lemma eachStep_same:
  "\<lbrakk>sameBut e e'; \<And>x e e'. sameBut e e' \<Longrightarrow> rel_option sameBut (step x e) (step x e')\<rbrakk> \<Longrightarrow>
     rel_option sameBut (eachStep step xs e) (eachStep step xs e')"
  by (induction xs arbitrary: e e') (simp, simp, rule bind_rel, blast, blast)

lemma traverseModule_same: "sameBut e e' \<Longrightarrow> rel_option sameBut (traverseModule L v p e) (traverseModule L v p e')"
  unfolding traverseModule_def
  by (rule bind_rel [where R = "(=)"], simp add: option.rel_refl, simp, rule eachStep_same)
     (auto intro: processFiles_same simp: sameBut_fields)

lemma Traverse_same:
  assumes "sameBut e e'"
  shows "rel_option sameBut (Traverse L v p e) (Traverse L v p e')"
proof -
  have single: "rel_option sameBut (traverseSingleFile L v p e) (traverseSingleFile L v p e')"
    unfolding traverseSingleFile_def using assms
    by (intro bind_rel [where R = "(=)"]) (auto intro: processFiles_same simp: sameBut_fields option.rel_refl)
  have pkg: "rel_option sameBut (traverseSinglePkgDir L v d e) (traverseSinglePkgDir L v d e')" if "sameBut e e'" for d e e'
    unfolding traverseSinglePkgDir_def Let_def using that
    by (auto intro!: processFiles_same simp: sameBut_fields)
  show ?thesis
    unfolding Traverse_def Let_def
    by (rule bind_rel [where R = "(=)"], simp add: option.rel_refl)
       (use assms single in \<open>auto intro!: eachStep_same pkg traverseModule_same\<close>)
qed

text \<open>
  The entries of the configuration suppress nothing: whatever entries are set before, a
  traversal finds the same sites.
\<close>

theorem suppressions_do_not_filter:
  "map_option Sites (Traverse L visitor path (engineSetSuppress cwd es e)) = map_option Sites (Traverse L visitor path e)"
proof -
  have "sameBut (engineSetSuppress cwd es e) e" by (simp add: engineSetSuppress_def sameBut_fields)
  from Traverse_same [OF this, of L visitor path] show ?thesis
    by (cases "Traverse L visitor path e"; cases "Traverse L visitor path (engineSetSuppress cwd es e)")
       (auto simp: sameBut_fields Sites_def)
qed

lemma nodeSites_not_ignored:
  "s \<in> set (nodeSites ops ignore f tree pos n ctx) \<Longrightarrow> 0 \<notin> set (columnsAt ignore (sLine s) '''') \<and> sFile s = f"
  by (auto simp: nodeSites_def siteFor_def isIgnored_columns)

lemma scanNodes_not_ignored:
  "scanNodes L ops ignore f tree nus c = Some (ss, c') \<Longrightarrow>
     \<forall>s \<in> set ss. 0 \<notin> set (columnsAt ignore (sLine s) '''') \<and> sFile s = f"
  by (induction nus arbitrary: ss c c')
     (auto simp: Option.bind_eq_Some_conv dest: nodeSites_not_ignored)

text \<open>The directives that the comments of a file give.\<close>

definition fileDirectives :: "Loader \<Rightarrow> string \<Rightarrow> node \<Rightarrow> lineMap" where
  "fileDirectives L f tree = parseIgnoreComments tree (\<lambda>p. (PLine (ldPosition L f p), PColumn (ldPosition L f p)))"

lemma processFile_sites:
  "processFile L v (f, tree) e cache = Some (e1, cache1) \<Longrightarrow>
     \<exists>ss. eSites e1 = eSites e @ ss \<and>
       (\<forall>s \<in> set ss. 0 \<notin> set (columnsAt (fileDirectives L f tree) (sLine s) '''') \<and> sFile s = f)"
  by (auto simp: processFile_def Let_def Option.bind_eq_Some_conv fileDirectives_def dest!: scanNodes_not_ignored)

lemma generated_sites: "mSite ` set (GenerateMutants cwd ss ops allOps projRoot dirRules resolver) \<subseteq> set ss"
proof -
  have "(\<lambda>m. (mSite m, mOperator m)) ` set (GenerateMutants cwd ss ops allOps projRoot dirRules resolver) \<subseteq> set ss \<times> UNIV"
    using keepFirst_subset
    unfolding set_map [symmetric] generated_pairs by (fastforce simp: sitePairs_def)
  then show ?thesis by (force simp: image_subset_iff)
qed

text \<open>
  C32. An ignored line is left alone: a comment \<open>gorgon:ignore\<close> without an operator keeps every
  operator away from the next line, up to the mutants that are generated from the sites.
\<close>

theorem ignored_line_not_mutated:
  assumes "traverseSingleFile L visitor f e = Some e1" "ldParse L f = Some tree" "eSites e = []"
    and "0 \<in> set (columnsAt (fileDirectives L f tree) line '''')"
    and "m \<in> set (GenerateMutants cwd (Sites e1) ops allOps projRoot dirRules resolver)"
  shows "sLine (mSite m) \<noteq> line"
proof -
  have "\<exists>cache1. processFile L visitor (f, tree) (e\<lparr>eTotalFiles := 1\<rparr>) None = Some (e1, cache1)"
    using assms(1,2) by (auto simp: traverseSingleFile_def processFiles_def Option.bind_eq_Some_conv)
  then have "\<forall>s \<in> set (eSites e1). 0 \<notin> set (columnsAt (fileDirectives L f tree) (sLine s) '''')"
    using assms(3) by (auto dest!: processFile_sites)
  moreover have "mSite m \<in> set (eSites e1)"
    using generated_sites [of cwd "Sites e1" ops allOps projRoot dirRules resolver] assms(5) by (auto simp: Sites_def)
  ultimately show ?thesis using assms(4) by blast
qed

text \<open>
  A directive that names an operator does not hold: as soon as some other operator keeps
  the site of the node, generation tries all operators in force on it, the ignored one too.
\<close>

theorem operator_ignore_lost:
  fixes ops ignore f tree pos n ctx
  defines "ss \<equiv> nodeSites ops ignore f tree pos n ctx"
  defines "site \<equiv> siteFor f tree pos n ctx"
  assumes "op \<in> set ops" "appliesIn op n ctx" "\<not> isIgnored ignore (PLine pos) (OpName op) (PColumn pos)"
    and "op' \<in> set (opsAt cwd base allOps projRoot dirRules resolver site)" "canApply op' site"
  shows "\<exists>m \<in> set (GenerateMutants cwd ss base allOps projRoot dirRules resolver). mSite m = site \<and> mOperator m = op'"
proof -
  have all: "\<forall>s \<in> set ss. s = site" by (auto simp: ss_def site_def nodeSites_def)
  have "site \<in> set ss" using assms(3-5) by (auto simp: ss_def site_def nodeSites_def)
  moreover have ne: "opsAt cwd base allOps projRoot dirRules resolver site \<noteq> []" using assms(6) by auto
  ultimately have "site \<in> set (filter (\<lambda>s. opsAt cwd base allOps projRoot dirRules resolver s \<noteq> []) ss)" by simp
  then obtain t where "t \<in> set (keepFirst keyOfSite [] (filter (\<lambda>s. opsAt cwd base allOps projRoot dirRules resolver s \<noteq> []) ss))"
    using keepFirst_keys [of keyOfSite "[]" "filter (\<lambda>s. opsAt cwd base allOps projRoot dirRules resolver s \<noteq> []) ss"]
    by (metis (no_types, lifting) Diff_empty empty_set image_eqI image_iff set_map)
  moreover have "t = site" using calculation keepFirst_subset all by fastforce
  ultimately have "(site, op') \<in> (\<lambda>m. (mSite m, mOperator m)) ` set (GenerateMutants cwd ss base allOps projRoot dirRules resolver)"
    using assms(6,7) unfolding set_map [symmetric] generated_pairs by (force simp: sitePairs_def)
  then show ?thesis by auto
qed

subsection \<open>A file with a directive\<close>

text \<open>
  A function of two statements; the comment on line 3 speaks about line 4. A position is ten
  times the line plus the column.
\<close>

definition demoReturn :: "int \<Rightarrow> node" where
  "demoReturn p = ReturnStmt p [BinaryExpr (Ident (p + 3) ''x'') (p + 5) T_ADD (BasicLit (p + 7) T_INT ''1'')]"

definition demoTree :: "string \<Rightarrow> node" where
  "demoTree comment = File None 11 (Ident 13 ''p'')
     [FuncDecl None None (Ident 22 ''f'') (FuncType 21 None (Some (FieldList 23 [] 24)) None)
       (Some (BlockStmt 25 [demoReturn 41, demoReturn 51] 61))]
     [CommentGroup [Comment 31 comment]]"

definition demoLoader :: "string \<Rightarrow> Loader" where
  "demoLoader comment = \<lparr>ldCwd = ''/p'', ldIsDir = (\<lambda>p. Some False), ldTree = (\<lambda>p. Leaf ''a.go''),
     ldParse = (\<lambda>p. Some (demoTree comment)),
     ldPosition = (\<lambda>f p. \<lparr>PFilename = f, POffset = p, PLine = p div 10, PColumn = p mod 10\<rparr>),
     ldFormat = (\<lambda>n. None), ldPackages = (\<lambda>p. None)\<rparr>"

definition demoEngine :: "operator list \<Rightarrow> Engine" where
  "demoEngine ops = SetOperators ops NewEngine"

definition demoScan :: "string \<Rightarrow> operator list \<Rightarrow> Engine option" where
  "demoScan comment ops = traverseSingleFile (demoLoader comment) (\<lambda>n. True) ''/p/a.go'' (demoEngine ops)"

lemma demo_sites: "map_option (\<lambda>e. map sLine (Sites e)) (demoScan ''//gorgon:ignore'' [ArithmeticFlip]) = Some [5]"
  by code_simp

lemma demo_mutants: "map_option (\<lambda>e. map (sLine \<circ> mSite) (GenerateMutants ''/p'' (Sites e) [ArithmeticFlip]
    [ArithmeticFlip] ''/p'' [] None)) (demoScan ''//gorgon:ignore'' [ArithmeticFlip]) = Some [5]"
  by code_simp

theorem ignored_line_not_mutated_witness:
  "\<exists>e1 m. demoScan ''//gorgon:ignore'' [ArithmeticFlip] = Some e1 \<and>
     m \<in> set (GenerateMutants ''/p'' (Sites e1) [ArithmeticFlip] [ArithmeticFlip] ''/p'' [] None) \<and> sLine (mSite m) \<noteq> 4"
proof -
  obtain e1 where e1: "demoScan ''//gorgon:ignore'' [ArithmeticFlip] = Some e1"
    using demo_sites by (cases "demoScan ''//gorgon:ignore'' [ArithmeticFlip]") auto
  with demo_mutants obtain m ms where
    m: "GenerateMutants ''/p'' (Sites e1) [ArithmeticFlip] [ArithmeticFlip] ''/p'' [] None = m # ms" by auto
  have "0 \<in> set (columnsAt (fileDirectives (demoLoader ''//gorgon:ignore'') ''/p/a.go'' (demoTree ''//gorgon:ignore'')) 4 '''')"
    by code_simp
  with e1 m have "sLine (mSite m) \<noteq> 4"
    by (intro ignored_line_not_mutated [where L = "demoLoader ''//gorgon:ignore''" and cwd = "''/p''" and
          projRoot = "''/p''" and dirRules = "[]" and resolver = None and
          ops = "[ArithmeticFlip]" and allOps = "[ArithmeticFlip]"])
       (auto simp: demoScan_def demoLoader_def demoEngine_def NewEngine_def SetOperators_def)
  with e1 m show ?thesis by auto
qed

definition demoCompare :: node where
  "demoCompare = BinaryExpr (Ident 44 ''x'') 46 T_LSS (BasicLit 48 T_INT ''1'')"

theorem operator_ignore_lost_witness:
  "let ignore = fileDirectives (demoLoader ''//gorgon:ignore boundary_value'') ''/p/a.go''
         (demoTree ''//gorgon:ignore boundary_value'');
       pos = \<lparr>PFilename = ''/p/a.go'', POffset = 44, PLine = 4, PColumn = 4\<rparr>;
       site = siteFor ''/p/a.go'' (demoTree ''//gorgon:ignore boundary_value'') pos demoCompare emptyContext
   in isIgnored ignore 4 ''boundary_value'' 4 \<and>
      (\<exists>m \<in> set (GenerateMutants ''/p'' (nodeSites [BoundaryValue, ConditionNegation] ignore ''/p/a.go''
            (demoTree ''//gorgon:ignore boundary_value'') pos demoCompare emptyContext)
            [BoundaryValue, ConditionNegation] [BoundaryValue, ConditionNegation] ''/p'' [] None).
         mSite m = site \<and> mOperator m = BoundaryValue)"
  unfolding Let_def
proof (intro conjI operator_ignore_lost [where op = ConditionNegation])
  show "isIgnored (fileDirectives (demoLoader ''//gorgon:ignore boundary_value'') ''/p/a.go''
     (demoTree ''//gorgon:ignore boundary_value'')) 4 ''boundary_value'' 4" by code_simp
  show "ConditionNegation \<in> set [BoundaryValue, ConditionNegation]" by simp
  show "appliesIn ConditionNegation demoCompare emptyContext" by code_simp
  show "BoundaryValue \<in> set (opsAt ''/p'' [BoundaryValue, ConditionNegation] [BoundaryValue, ConditionNegation] ''/p'' [] None
     (siteFor ''/p/a.go'' (demoTree ''//gorgon:ignore boundary_value'')
       \<lparr>PFilename = ''/p/a.go'', POffset = 44, PLine = 4, PColumn = 4\<rparr> demoCompare emptyContext))"
    by (simp add: opsAt_def effectiveOperators_def)
qed code_simp+

end
