(* ===== verification/Suppressions.thy ===== *)
theory Suppressions
  imports Directives
begin

text \<open>
  Writing the ignore comments back to the configuration (\<open>internal/suppressions/sync.go\<close>): a
  table from locations to operators is built from the entries of the configuration, the
  directives found in the files are merged into it, and the table becomes the new entries.
  The tables are association lists as in \<open>Directives\<close>.
\<close>

type_synonym suppressMap = "(string \<times> string list) list"

definition insertName :: "string \<Rightarrow> string list \<Rightarrow> string list" where
  "insertName op ops = (if op \<in> set ops then ops else ops @ [op])"

lemma set_insertName [simp]: "set (insertName op ops) = insert op (set ops)"
  by (auto simp: insertName_def)

definition insertNames :: "string list \<Rightarrow> string list \<Rightarrow> string list" where
  "insertNames new ops = foldl (\<lambda>ops op. insertName op ops) ops new"

lemma set_insertNames [simp]: "set (insertNames new ops) = set new \<union> set ops"
  unfolding insertNames_def by (induction new arbitrary: ops) auto

definition buildSuppressMap :: "SuppressEntry list \<Rightarrow> suppressMap" where
  "buildSuppressMap entries = foldl (\<lambda>m e. below (Location e) (insertNames (SuppressOps e)) m) [] entries"

definition columnName :: "string \<Rightarrow> int \<Rightarrow> string" where
  "columnName op col = (if op = '''' then '''' else if col = 0 then op else op @ '':'' @ Itoa col)"

definition directiveNames :: "operatorMap \<Rightarrow> string list" where
  "directiveNames ops = concat (map (\<lambda>(op, cols). if op = '''' then [''''] else map (columnName op) cols) ops)"

definition directiveLocation :: "string \<Rightarrow> string \<Rightarrow> int \<Rightarrow> string" where
  "directiveLocation projRoot absPath line = or_else absPath (Rel projRoot absPath) @ '':'' @ Itoa line"

definition mergeInlineLine :: "string \<Rightarrow> string \<Rightarrow> suppressMap \<Rightarrow> int \<times> operatorMap \<Rightarrow> suppressMap" where
  "mergeInlineLine projRoot absPath m = (\<lambda>(line, ops).
     below (directiveLocation projRoot absPath line) (insertNames (directiveNames ops)) m)"

definition mergeInlineDirectives :: "suppressMap \<Rightarrow> directives \<Rightarrow> string \<Rightarrow> suppressMap" where
  "mergeInlineDirectives existing d projRoot =
     foldl (\<lambda>m (absPath, lines). foldl (mergeInlineLine projRoot absPath) m lines) existing d"

definition suppressEntry :: "string \<times> string list \<Rightarrow> SuppressEntry" where
  "suppressEntry = (\<lambda>(location, ops). \<lparr>Location = location,
     SuppressOps = (if '''' \<in> set ops then [] else filter (\<lambda>op. op \<noteq> '''') ops)\<rparr>)"

definition buildSuppressEntries :: "suppressMap \<Rightarrow> SuppressEntry list" where
  "buildSuppressEntries m = map suppressEntry m"

text \<open>
  \<open>load\<close> reads the configuration file, \<open>exists\<close> says whether it is there. The result is the
  configuration that is written, \<open>None\<close> when nothing is.
\<close>

definition SyncSuppressions ::
  "string \<Rightarrow> bool \<Rightarrow> Config option \<Rightarrow> string \<Rightarrow> directives \<Rightarrow> string \<Rightarrow> Config option" where
  "SyncSuppressions configPath exists load cwd d projRoot =
     (if d = [] \<or> configPath = '''' then None
      else case (if exists then load else Some DefaultConfig) of
        None \<Rightarrow> None
      | Some cfg \<Rightarrow>
          (let rt = (if projRoot = '''' then cwd else projRoot)
           in Some (cfg\<lparr>cSuppress := buildSuppressEntries
                (mergeInlineDirectives (buildSuppressMap (cSuppress cfg)) d rt)\<rparr>)))"

subsection \<open>What is recorded\<close>

definition namesAt :: "suppressMap \<Rightarrow> string \<Rightarrow> string set" where
  "namesAt m loc = set (or_else [] (map_of m loc))"

lemma namesAt_below [simp]:
  "namesAt (below k (insertNames new) m) loc = namesAt m loc \<union> (if loc = k then set new else {})"
  by (auto simp: namesAt_def)

lemma built_names: "namesAt (buildSuppressMap es) loc = \<Union> (set ` SuppressOps ` {e \<in> set es. Location e = loc})"
proof -
  have "namesAt (foldl (\<lambda>m e. below (Location e) (insertNames (SuppressOps e)) m) m es) loc =
      namesAt m loc \<union> \<Union> (set ` SuppressOps ` {e \<in> set es. Location e = loc})" for m
    by (induction es arbitrary: m) auto
  from this [of "[]"] show ?thesis by (simp add: buildSuppressMap_def namesAt_def)
qed

lemma inlineLines_names:
  "namesAt (foldl (mergeInlineLine r p) m lines) loc = namesAt m loc \<union>
     {n. \<exists>line ops. (line, ops) \<in> set lines \<and> loc = directiveLocation r p line \<and> n \<in> set (directiveNames ops)}"
proof (induction lines arbitrary: m)
  case (Cons x lines)
  obtain line ops where x: "x = (line, ops)" by fastforce
  have "namesAt (mergeInlineLine r p m x) loc = namesAt m loc \<union>
      {n. loc = directiveLocation r p line \<and> n \<in> set (directiveNames ops)}"
    by (auto simp: x mergeInlineLine_def)
  then show ?case unfolding foldl_Cons Cons.IH x by auto
qed simp

lemma inline_names:
  "namesAt (mergeInlineDirectives m d r) loc = namesAt m loc \<union>
     {n. \<exists>p lines line ops. (p, lines) \<in> set d \<and> (line, ops) \<in> set lines \<and>
        loc = directiveLocation r p line \<and> n \<in> set (directiveNames ops)}"
  unfolding mergeInlineDirectives_def
proof (induction d arbitrary: m)
  case (Cons x d)
  obtain p lines where x: "x = (p, lines)" by fastforce
  show ?case by (simp add: Cons.IH x inlineLines_names) blast
qed simp

lemma below_keys [simp]: "fst ` set (below k f m) = insert k (fst ` set m)"
  by (simp add: below_def dom_update)

lemma below_distinct [simp]: "distinct (map fst m) \<Longrightarrow> distinct (map fst (below k f m))"
  by (simp add: below_def distinct_update)

lemma built_keys: "distinct (map fst (buildSuppressMap es))" "fst ` set (buildSuppressMap es) = Location ` set es"
proof -
  have "distinct (map fst m) \<Longrightarrow> distinct (map fst (foldl (\<lambda>m e. below (Location e) (insertNames (SuppressOps e)) m) m es)) \<and>
      fst ` set (foldl (\<lambda>m e. below (Location e) (insertNames (SuppressOps e)) m) m es) = fst ` set m \<union> Location ` set es" for m
    by (induction es arbitrary: m) auto
  from this [of "[]"] show "distinct (map fst (buildSuppressMap es))"
    "fst ` set (buildSuppressMap es) = Location ` set es" by (simp_all add: buildSuppressMap_def)
qed

lemma inlineLines_keys:
  "distinct (map fst m) \<Longrightarrow> distinct (map fst (foldl (mergeInlineLine r p) m lines)) \<and>
     fst ` set (foldl (mergeInlineLine r p) m lines) = fst ` set m \<union> directiveLocation r p ` fst ` set lines"
proof (induction lines arbitrary: m)
  case (Cons x lines)
  obtain line ops where x: "x = (line, ops)" by fastforce
  have "distinct (map fst (mergeInlineLine r p m x))"
    "fst ` set (mergeInlineLine r p m x) = insert (directiveLocation r p line) (fst ` set m)"
    using Cons.prems by (simp_all add: x mergeInlineLine_def)
  with Cons.IH [of "mergeInlineLine r p m x"] show ?case by (simp add: x)
qed simp

lemma inline_keys:
  "distinct (map fst m) \<Longrightarrow> distinct (map fst (mergeInlineDirectives m d r)) \<and>
     fst ` set (mergeInlineDirectives m d r) = fst ` set m \<union> (\<Union>(p, lines) \<in> set d. directiveLocation r p ` fst ` set lines)"
  unfolding mergeInlineDirectives_def
proof (induction d arbitrary: m)
  case (Cons x d)
  obtain p lines where x: "x = (p, lines)" by fastforce
  show ?case using Cons.IH [of "foldl (mergeInlineLine r p) m lines"] inlineLines_keys [OF Cons.prems, of r p lines]
    by (simp add: x) blast
qed simp

text \<open>The operators in force at a location: those of the entries and those of the comments.\<close>

definition namesFor :: "SuppressEntry list \<Rightarrow> directives \<Rightarrow> string \<Rightarrow> string \<Rightarrow> string set" where
  "namesFor es d r loc = {n. (\<exists>e \<in> set es. Location e = loc \<and> n \<in> set (SuppressOps e)) \<or>
     (\<exists>(p, lines) \<in> set d. \<exists>(line, ops) \<in> set lines. loc = directiveLocation r p line \<and> n \<in> set (directiveNames ops))}"

definition locationsFor :: "SuppressEntry list \<Rightarrow> directives \<Rightarrow> string \<Rightarrow> string set" where
  "locationsFor es d r = Location ` set es \<union> (\<Union>(p, lines) \<in> set d. directiveLocation r p ` fst ` set lines)"

lemma suppressEntry_simps [simp]: "Location (suppressEntry (loc, ops)) = loc"
  "SuppressOps (suppressEntry (loc, ops)) = (if '''' \<in> set ops then [] else ops)"
  by (auto simp: suppressEntry_def filter_id_conv)

lemma sync_written:
  assumes "SyncSuppressions configPath exists load cwd d projRoot = Some cfg'"
    and "(if exists then load else Some DefaultConfig) = Some cfg" "projRoot \<noteq> ''''"
  shows "distinct (map Location (cSuppress cfg')) \<and>
     Location ` set (cSuppress cfg') = locationsFor (cSuppress cfg) d projRoot \<and>
     (\<forall>e \<in> set (cSuppress cfg'). set (SuppressOps e) =
        (let names = namesFor (cSuppress cfg) d projRoot (Location e) in if '''' \<in> names then {} else names))"
proof -
  define m where "m = mergeInlineDirectives (buildSuppressMap (cSuppress cfg)) d projRoot"
  have out: "cSuppress cfg' = map suppressEntry m"
    using assms by (auto simp: SyncSuppressions_def buildSuppressEntries_def m_def Let_def split: if_splits)
  have keys: "distinct (map fst m)" "fst ` set m = locationsFor (cSuppress cfg) d projRoot"
    using inline_keys [OF built_keys(1), of "cSuppress cfg" d projRoot]
    by (simp_all add: m_def built_keys(2) locationsFor_def)
  have locs: "map Location (map suppressEntry m) = map fst m" by (induction m) auto
  have names: "set ops = namesFor (cSuppress cfg) d projRoot loc" if "(loc, ops) \<in> set m" for loc ops
  proof -
    have "set ops = namesAt m loc" using that keys(1) by (simp add: namesAt_def)
    then show ?thesis unfolding m_def inline_names built_names namesFor_def by (auto split: prod.splits) blast+
  qed
  have "set (SuppressOps e) = (let names = namesFor (cSuppress cfg) d projRoot (Location e)
      in if '''' \<in> names then {} else names)" if "e \<in> set (map suppressEntry m)" for e
  proof -
    from that have "e \<in> suppressEntry ` set m" by (simp only: set_map)
    then obtain p where p: "e = suppressEntry p" "p \<in> set m" by blast
    obtain loc ops where "p = (loc, ops)" by fastforce
    with p have "e = suppressEntry (loc, ops)" "(loc, ops) \<in> set m" by simp_all
    then show ?thesis using names [of loc ops] by (simp add: Let_def)
  qed
  then show ?thesis
    unfolding out locs using keys arg_cong [OF locs, of set] by (simp only: set_map) blast
qed


text \<open>
  C33. What a synchronisation writes: there is exactly one entry for each location that an entry
  or a comment names. It lists exactly the operators that the entries and comments of the
  location name; where the empty name is among them, as a comment that names no operator
  records it, the entry lists none and so stands for all. An entry of the configuration that
  lists no operator adds no name: alone at its location it stays as it is, next to a comment
  that names an operator it is narrowed to that one (\<open>all_operators_entry_narrowed\<close> below),
  against the README, by which existing suppressions are preserved.
\<close>

theorem sync_entries_exact:
  assumes "SyncSuppressions configPath exists load cwd d projRoot = Some cfg'"
    and "(if exists then load else Some DefaultConfig) = Some cfg" "projRoot \<noteq> ''''"
  shows "distinct (map Location (cSuppress cfg')) \<and>
     Location ` set (cSuppress cfg') = locationsFor (cSuppress cfg) d projRoot \<and>
     (\<forall>e \<in> set (cSuppress cfg'). set (SuppressOps e) =
        (let names = namesFor (cSuppress cfg) d projRoot (Location e) in if '''' \<in> names then {} else names))"
  by (rule sync_written [OF assms])

text \<open>
  The README promises that the existing suppressions are preserved. Those that name their
  operators are: each is still suppressed at its location, by name or by an entry for all.
\<close>

lemma named_suppression_kept:
  assumes "SyncSuppressions configPath exists load cwd d projRoot = Some cfg'"
    and "(if exists then load else Some DefaultConfig) = Some cfg" "projRoot \<noteq> ''''"
    and "e \<in> set (cSuppress cfg)" "op \<in> set (SuppressOps e)"
  shows "\<exists>e' \<in> set (cSuppress cfg'). Location e' = Location e \<and> (SuppressOps e' = [] \<or> op \<in> set (SuppressOps e'))"
proof -
  note out = sync_written [OF assms(1-3)]
  have "Location e \<in> Location ` set (cSuppress cfg')" using out assms(4) by (auto simp: locationsFor_def)
  then obtain e' where e': "e' \<in> set (cSuppress cfg')" "Location e' = Location e" by force
  have "op \<in> namesFor (cSuppress cfg) d projRoot (Location e)" using assms(4,5) by (auto simp: namesFor_def)
  with out e' have "set (SuppressOps e') = {} \<or> op \<in> set (SuppressOps e')"
    by (auto simp: Let_def split: if_splits)
  with e' show ?thesis by auto
qed

text \<open>
  An entry that lists no operator stands for all of them; a comment that names one at the same
  location leaves only that one, every other operator is no longer suppressed there.
\<close>

lemma all_operators_entry_narrowed:
  assumes "load = Some (DefaultConfig\<lparr>cSuppress := [\<lparr>Location = ''a.go:8'', SuppressOps = []\<rparr>]\<rparr>)"
  shows "SyncSuppressions ''/p/gorgon.yml'' True load ''/'' [(''/p/a.go'', [(8, [(''sign_toggle'', [0])])])] ''/p''
    = Some (DefaultConfig\<lparr>cSuppress := [\<lparr>Location = ''a.go:8'', SuppressOps = [''sign_toggle'']\<rparr>]\<rparr>)"
proof -
  have loc: "directiveLocation ''/p'' ''/p/a.go'' 8 = ''a.go:8''" by code_simp
  have n: "directiveNames [(''sign_toggle'', [0])] = [''sign_toggle'']" by code_simp
  show ?thesis
    unfolding assms by (simp add: SyncSuppressions_def buildSuppressMap_def mergeInlineDirectives_def mergeInlineLine_def
        insertNames_def insertName_def buildSuppressEntries_def suppressEntry_def below_def loc n)
qed

text \<open>
  A comment with a colon but no operator, \<open>gorgon:ignore :5\<close>, ignores nothing while the file
  is scanned, and is written to the configuration as an entry that suppresses everything on
  the line.
\<close>

lemma sync_widens_column_only:
  assumes "position p = (7, 1)"
  shows "\<not> isIgnored (parseIgnoreComments (File None 1 (Ident 9 ''a'') [] [CommentGroup [Comment p ''//gorgon:ignore :5'']]) position) 8 op col"
    and "SyncSuppressions ''/p/gorgon.yml'' False None ''/'' [(''/p/a.go'',
        parseIgnoreComments (File None 1 (Ident 9 ''a'') [] [CommentGroup [Comment p ''//gorgon:ignore :5'']]) position)] ''/p''
      = Some (DefaultConfig\<lparr>cSuppress := [\<lparr>Location = ''a.go:8'', SuppressOps = []\<rparr>]\<rparr>)"
proof -
  have d: "parseDirective ''//gorgon:ignore :5'' = Some None" by code_simp
  have f: "parseIgnoreComments (File None 1 (Ident 9 ''a'') [] [CommentGroup [Comment p ''//gorgon:ignore :5'']]) position = [(8, [])]"
    using assms by (simp add: parseIgnoreComments_def d below_def)
  show "\<not> isIgnored (parseIgnoreComments (File None 1 (Ident 9 ''a'') [] [CommentGroup [Comment p ''//gorgon:ignore :5'']]) position) 8 op col"
    unfolding f by (simp add: isIgnored_def)
  have "cSuppress DefaultConfig = []" by (simp add: DefaultConfig_def)
  moreover have "directiveLocation ''/p'' ''/p/a.go'' 8 = ''a.go:8''" by code_simp
  ultimately show "SyncSuppressions ''/p/gorgon.yml'' False None ''/'' [(''/p/a.go'',
        parseIgnoreComments (File None 1 (Ident 9 ''a'') [] [CommentGroup [Comment p ''//gorgon:ignore :5'']]) position)] ''/p''
      = Some (DefaultConfig\<lparr>cSuppress := [\<lparr>Location = ''a.go:8'', SuppressOps = []\<rparr>]\<rparr>)"
    unfolding f by (simp add: SyncSuppressions_def buildSuppressMap_def mergeInlineDirectives_def mergeInlineLine_def
        directiveNames_def insertNames_def buildSuppressEntries_def suppressEntry_def below_def)
qed

theorem sync_entries_exact_witness:
  "case SyncSuppressions ''/p/gorgon.yml'' False None ''/''
      [(''/p/a.go'', [(8, [(''sign_toggle'', [0, 4])])])] ''/p'' of
     None \<Rightarrow> False
   | Some cfg \<Rightarrow> Location ` set (cSuppress cfg) = {''a.go:8''} \<and>
       list_all (\<lambda>e. set (SuppressOps e) = {''sign_toggle'', ''sign_toggle:4''}) (cSuppress cfg)"
proof -
  let ?d = "[(''/p/a.go'', [(8, [(''sign_toggle'', [0, 4])])])] :: directives"
  obtain cfg where out: "SyncSuppressions ''/p/gorgon.yml'' False None ''/'' ?d ''/p'' = Some cfg"
    by (simp add: SyncSuppressions_def)
  have loc: "directiveLocation ''/p'' ''/p/a.go'' 8 = ''a.go:8''" by code_simp
  have n: "directiveNames [(''sign_toggle'', [0, 4])] = [''sign_toggle'', ''sign_toggle:4'']"
    by code_simp
  have c: "cSuppress DefaultConfig = []" by (simp add: DefaultConfig_def)
  have names: "namesFor (cSuppress DefaultConfig) ?d ''/p'' ''a.go:8'' = {''sign_toggle'', ''sign_toggle:4''}"
    unfolding c by (auto simp: namesFor_def loc n)
  have locs: "locationsFor (cSuppress DefaultConfig) ?d ''/p'' = {''a.go:8''}"
    unfolding c by (simp add: locationsFor_def loc)
  have "(if False then None else Some DefaultConfig) = Some DefaultConfig" "''/p'' \<noteq> ''''" by simp_all
  note exact = sync_entries_exact [OF out this]
  then have l: "Location ` set (cSuppress cfg) = {''a.go:8''}" unfolding locs by blast
  then have "Location e = ''a.go:8''" if "e \<in> set (cSuppress cfg)" for e using that by blast
  with exact names l show ?thesis unfolding out by (simp add: list_all_iff Let_def)
qed

end
