(* ===== verification/Filters.thy ===== *)
theory Filters
  imports GoGlob Diff Engine Suppressions Classify
begin

text \<open>
  The first half of \<open>internal/runner/runner.go\<close>: which sites are kept (path filters, function
  filters, the diff), which tests are selected, where the project and the organisation's
  policy are found, and the build tags of the tests. The file system and the environment are
  arguments. A Go map to booleans is a set.
\<close>

subsection \<open>Stale directories\<close>

definition cleanStaleTempDirs :: "string \<Rightarrow> fsnode \<Rightarrow> string list" where
  "cleanStaleTempDirs tempDir tree = (case tree of
     Leaf _ \<Rightarrow> []
   | Folder _ cs \<Rightarrow> List.map_filter (\<lambda>c. case c of
       Folder n _ \<Rightarrow> if HasPrefix n ''gorgon-schemata-'' then Some (PathJoin [tempDir, n]) else None
     | Leaf _ \<Rightarrow> None) cs)"

subsection \<open>Path filters\<close>

lemma Dir_fixed: "Dir d = d \<Longrightarrow> d = ''.'' \<or> d = ''/''"
proof (cases "LastIndexByte d sep")
  case None
  assume "Dir d = d"
  with None show ?thesis by (simp add: Dir_def Clean_Nil)
next
  case (Some i)
  assume d: "Dir d = d"
  define q where "q = take (Suc i) d"
  have i: "i < length d" "d ! i = sep" using LastIndexByte_Some [OF Some] by auto
  have q: "q \<noteq> []" "last q = sep" "length q \<le> length d"
    using i by (auto simp: q_def take_Suc_conv_app_nth)
  have "Clean q = d" using d by (simp add: Dir_def Some q_def)
  with Clean_length(2) [OF q(1,2)] q(3) have "q = [sep]" by fastforce
  with \<open>Clean q = d\<close> have "d = [sep]" by (simp add: Clean_sep)
  then show ?thesis by (simp add: sep_def)
qed

function matchParentDirs :: "string \<Rightarrow> string \<Rightarrow> bool" where
  "matchParentDirs path pattern =
     (if path = ''.'' \<or> path = ''/'' then False
      else if path = pattern then True
      else matchParentDirs (Dir path) pattern)"
  by pat_completeness auto
termination
  by (relation "measure (climb_measure \<circ> fst)") (simp, auto intro!: Dir_shrinks dest: Dir_fixed)

declare matchParentDirs.simps [simp del]

definition shouldSkip :: "string \<Rightarrow> string \<Rightarrow> string list \<Rightarrow> bool" where
  "shouldSkip relPath cwdRel skipPatterns = list_ex (\<lambda>s.
     relPath = s \<or> cwdRel = s \<or> globMatch s relPath \<or> globMatch s cwdRel \<or>
     matchParentDirs relPath s \<or> matchParentDirs cwdRel s) skipPatterns"

definition addSkipFunc :: "(string \<rightharpoonup> string set) \<Rightarrow> string \<Rightarrow> (string \<rightharpoonup> string set)" where
  "addSkipFunc m sf = (case SplitN2 sf (CHR '':'') of
     [f, name] \<Rightarrow> m(name \<mapsto> insert f (or_else {} (m name)))
   | _ \<Rightarrow> m)"

definition skipFuncMap :: "string list \<Rightarrow> (string \<rightharpoonup> string set)" where
  "skipFuncMap skipFunc = foldl addSkipFunc Map.empty skipFunc"

definition shouldSkipFunc :: "string \<Rightarrow> string \<Rightarrow> string \<Rightarrow> (string \<rightharpoonup> string set) \<Rightarrow> bool" where
  "shouldSkipFunc funcName relPath cwdRel m =
     (if funcName = '''' then False
      else case m funcName of
        None \<Rightarrow> False
      | Some files \<Rightarrow> '''' \<in> files \<or> relPath \<in> files \<or> cwdRel \<in> files \<or> Base relPath \<in> files)"

definition matchesAny :: "string \<Rightarrow> string list \<Rightarrow> bool" where
  "matchesAny path patterns = list_ex (\<lambda>p. globMatch p (Base path) \<or> globMatch p path) patterns"

text \<open>The path relative to the first target for which there is one.\<close>

definition targetRel :: "string \<Rightarrow> string list \<Rightarrow> string \<Rightarrow> string" where
  "targetRel cwd targets f = or_else f (firstSome (\<lambda>t. Rel (Abs cwd t) f) targets)"

definition keepSite :: "string \<Rightarrow> string list \<Rightarrow> Config \<Rightarrow> Resolver option \<Rightarrow> Site \<Rightarrow> bool" where
  "keepSite cwd targets cfg resolver site =
     (let f = sFile site;
          (exclude, include, skip, skipFunc) =
            (case resolver of
               Some r \<Rightarrow> if HasAnyOverrides r then EffectiveFilters cwd r f cfg
                         else (cExclude cfg, cInclude cfg, cSkip cfg, cSkipFunc cfg)
             | None \<Rightarrow> (cExclude cfg, cInclude cfg, cSkip cfg, cSkipFunc cfg))
      in if exclude = [] \<and> include = [] \<and> skip = [] \<and> skipFunc = [] then True
         else let relPath = targetRel cwd targets f; cwdRel = or_else f (Rel cwd f) in
           if shouldSkip relPath cwdRel skip then False
           else if shouldSkipFunc (sFunctionName site) relPath cwdRel (skipFuncMap skipFunc) then False
           else if include \<noteq> [] \<and> \<not> matchesAny relPath include then False
           else \<not> matchesAny relPath exclude)"

definition FilterSites ::
  "string \<Rightarrow> Site list \<Rightarrow> string list \<Rightarrow> Config \<Rightarrow> Resolver option \<Rightarrow> Site list" where
  "FilterSites cwd sites targets cfg resolver = filter (keepSite cwd targets cfg resolver) sites"

definition FilterSitesByDiff :: "string \<Rightarrow> Site list \<Rightarrow> FileLines option \<Rightarrow> Site list" where
  "FilterSitesByDiff cwd sites changed = (case changed of
     None \<Rightarrow> sites
   | Some m \<Rightarrow> filter (\<lambda>s. case m (Abs cwd (sFile s)) of None \<Rightarrow> False | Some lines \<Rightarrow> sLine s \<in> lines) sites)"

subsection \<open>Selected tests\<close>

record Files =
  fsCwd :: string
  fsExists :: "string \<Rightarrow> bool"
  fsIsDir :: "string \<Rightarrow> bool option"
  fsDir :: "string \<Rightarrow> fsnode list option"
  fsTree :: "string \<Rightarrow> fsnode"
  fsParse :: "string \<Rightarrow> node option"
  fsRead :: "string \<Rightarrow> string option"

datatype (plugins only: size code) testError = StatFailed string | ReadDirFailed string

definition testName :: "node \<Rightarrow> string option" where
  "testName d = (case as_FuncDecl d of
     Some (_, _, Ident _ nm, _, _) \<Rightarrow> if HasPrefix nm ''Test'' then Some nm else None
   | _ \<Rightarrow> None)"

definition parseTestNamesFromFile :: "Files \<Rightarrow> string \<Rightarrow> string list" where
  "parseTestNamesFromFile W f = (case fsParse W f of
     None \<Rightarrow> [] | Some tree \<Rightarrow> List.map_filter testName (fileDecls tree))"

definition testFiles :: "string \<Rightarrow> fsnode list \<Rightarrow> string list" where
  "testFiles absDir cs = List.map_filter (\<lambda>c. case c of
     Leaf n \<Rightarrow> if HasSuffix n ''_test.go'' then Some (PathJoin [absDir, n]) else None
   | Folder _ _ \<Rightarrow> None) cs"

definition addNames :: "Files \<Rightarrow> string \<Rightarrow> string list \<Rightarrow> (string \<rightharpoonup> string list) \<Rightarrow> (string \<rightharpoonup> string list)" where
  "addNames W pkgDir files byPkg =
     foldl (\<lambda>m f. m(pkgDir \<mapsto> or_else [] (m pkgDir) @ parseTestNamesFromFile W f)) byPkg files"

fun extractTestsFrom ::
  "Files \<Rightarrow> string list \<Rightarrow> (string \<rightharpoonup> string list) \<Rightarrow> string list \<Rightarrow>
   testError + (string \<rightharpoonup> string list) \<times> string list" where
  "extractTestsFrom W [] byPkg paths = Inr (byPkg, paths)"
| "extractTestsFrom W (p' # ps) byPkg paths =
     (let p = TrimSpace p'; absPath = Abs (fsCwd W) p in
      if p = '''' then extractTestsFrom W ps byPkg paths
      else case fsIsDir W absPath of
        None \<Rightarrow> Inl (StatFailed p)
      | Some True \<Rightarrow> (case fsDir W absPath of
            None \<Rightarrow> Inl (ReadDirFailed absPath)
          | Some cs \<Rightarrow> extractTestsFrom W ps (addNames W absPath (testFiles absPath cs) byPkg) (paths @ [p]))
      | Some False \<Rightarrow> extractTestsFrom W ps (addNames W (Dir absPath) [absPath] byPkg) (paths @ [p]))"

definition extractTests :: "Files \<Rightarrow> string list \<Rightarrow> testError + (string \<rightharpoonup> string list) \<times> string list" where
  "extractTests W testPaths = extractTestsFrom W testPaths Map.empty []"

subsection \<open>Project root and policy\<close>

definition findProjectRoot :: "Files \<Rightarrow> string \<Rightarrow> string \<Rightarrow> string" where
  "findProjectRoot W target configBase =
     (if configBase \<noteq> '''' then Abs (fsCwd W) configBase
      else case FindWork (fsCwd W) (fsExists W) (fsRead W) target of
        Some w \<Rightarrow> Root w
      | None \<Rightarrow>
          (let d = FindGoModDir (fsCwd W) (fsExists W) target; startPath = Abs (fsCwd W) target in
           if d \<noteq> '''' then d
           else case fsIsDir W startPath of
             None \<Rightarrow> target
           | Some True \<Rightarrow> startPath
           | Some False \<Rightarrow> Dir startPath))"

definition OrgPolicyFilename :: string where "OrgPolicyFilename = ''gorgon-org.yml''"

definition zeroPolicy :: OrgPolicy where
  "zeroPolicy = \<lparr>ThresholdFloor = 0, RequiredOperators = [], ForbiddenOperators = [], LockedSettings = [],
     ForcedSkipPaths = [], ForcedExcludePatterns = [], MinConcurrent = 0, RequireCache = None\<rparr>"

definition findAndLoadOrgPolicy ::
  "Files \<Rightarrow> (string \<Rightarrow> string) \<Rightarrow> (string \<Rightarrow> OrgPolicy option) \<Rightarrow> string \<Rightarrow> OrgPolicy option" where
  "findAndLoadOrgPolicy W env load projRoot =
     (if env ''GORGON_ORG_POLICY'' \<noteq> '''' then load (env ''GORGON_ORG_POLICY'')
      else case findUp (\<lambda>d. fsExists W (PathJoin [d, OrgPolicyFilename])) projRoot of
        Some d \<Rightarrow> load (PathJoin [d, OrgPolicyFilename])
      | None \<Rightarrow>
          (let xdg = env ''XDG_CONFIG_HOME''; candidate = PathJoin [xdg, ''gorgon'', OrgPolicyFilename] in
           if xdg \<noteq> '''' \<and> fsExists W candidate then load candidate else Some zeroPolicy))"

subsection \<open>Build tags\<close>

definition excludedPath :: "string \<Rightarrow> string \<Rightarrow> string option" where
  "excludedPath projRoot p0 =
     (let p = TrimSuffix (TrimSuffix p0 ''/...'') ''/'' in
      if p = '''' then None else Some (if IsAbs p then p else PathJoin [projRoot, p]))"

fun walkTagFiles :: "string list \<Rightarrow> string \<Rightarrow> fsnode \<Rightarrow> string list" where
  "walkTagFiles excludes path (Leaf nm) = [path]"
| "walkTagFiles excludes path (Folder nm cs) =
     (if nm = ''vendor'' \<or> nm = ''.git'' \<or> HasPrefix nm ''.'' \<and> 1 < length nm then []
      else if list_ex (\<lambda>ex. under ex path) excludes then []
      else concat (map (\<lambda>c. walkTagFiles excludes (PathJoin [path, case c of Leaf n \<Rightarrow> n | Folder n _ \<Rightarrow> n]) c) cs))"

definition isIdentChar :: "char \<Rightarrow> bool" where
  "isIdentChar c \<longleftrightarrow> c = CHR ''_'' \<or> (CHR ''a'' \<le> c \<and> c \<le> CHR ''z'') \<or> (CHR ''A'' \<le> c \<and> c \<le> CHR ''Z'') \<or>
     (CHR ''0'' \<le> c \<and> c \<le> CHR ''9'')"

definition isSimpleIdent :: "string \<Rightarrow> bool" where
  "isSimpleIdent s \<longleftrightarrow> s \<noteq> '''' \<and> list_all isIdentChar s"

fun headerTags :: "string list \<Rightarrow> string list \<Rightarrow> string list" where
  "headerTags [] seen = seen"
| "headerTags (l # ls) seen =
     (let line = TrimSpace l in
      if line = '''' \<or> HasPrefix line ''package '' then seen
      else if HasPrefix line ''//go:build '' then
        (let expr = TrimSpace (TrimPrefix line ''//go:build'') in
         headerTags ls (if isSimpleIdent expr then insertName expr seen else seen))
      else if HasPrefix line ''// +build '' then
        (let expr = TrimSpace (TrimPrefix line ''// +build'') in
         headerTags ls (if isSimpleIdent expr then insertName expr seen else seen))
      else headerTags ls seen)"

definition fileTags :: "Files \<Rightarrow> string \<Rightarrow> string list \<Rightarrow> string list" where
  "fileTags W path seen = (case fsRead W path of
     None \<Rightarrow> seen | Some content \<Rightarrow> headerTags (Split (take 2048 content) (CHR 0x0A)) seen)"

definition detectTestBuildTags :: "Files \<Rightarrow> string \<Rightarrow> string list \<Rightarrow> string list" where
  "detectTestBuildTags W projRoot excludePaths =
     (let excludes = List.map_filter (excludedPath projRoot) excludePaths;
          visited = walkTagFiles excludes projRoot (fsTree W projRoot);
          srcDirs = Dir ` set (filter (\<lambda>p. HasSuffix p ''.go'' \<and> \<not> HasSuffix p ''_test.go'') visited)
      in foldl (\<lambda>seen p. fileTags W p seen) []
           (filter (\<lambda>p. HasSuffix p ''_test.go'' \<and> Dir p \<in> srcDirs) visited))"

subsection \<open>Skipped directories\<close>

lemma strip_common_prefix: "strip_common xs (xs @ ys) = ([], ys)"
  by (induction xs) (cases ys, simp_all)

lemma Rel_below:
  assumes "IsAbs b" "IsAbs f" "parts f = parts b @ ts" "ts \<noteq> []"
  shows "Rel b f = Some (Join ts [sep])"
proof -
  have ne: "Clean f \<noteq> Clean b"
    using comps_Clean [OF assms(1)] comps_Clean [OF assms(2)] assms(3,4) by auto
  have dot: "Clean b \<noteq> ''.''" using IsAbs_Clean [OF assms(1)] by (auto simp: IsAbs_def HasPrefix_def sep_def)
  show ?thesis
    using ne dot assms by (simp add: Rel_def Let_def comps_Clean strip_common_prefix)
qed

lemma Join_Cons: "Join (c # cs) s = c @ (if cs = [] then [] else s @ Join cs s)"
  by (cases cs) simp_all

lemma Join_not_abs: "\<forall>c \<in> set cs. proper c \<Longrightarrow> \<not> IsAbs (Join cs [sep])"
proof (cases cs)
  case (Cons c ds)
  assume "\<forall>c \<in> set cs. proper c"
  with Cons obtain x xs where "c = x # xs" "x \<noteq> sep" by (cases c) (auto simp: proper_def)
  with Cons show ?thesis by (simp add: Join_Cons IsAbs_def HasPrefix_def)
qed (simp add: IsAbs_def HasPrefix_def)

lemma Join_proper_special:
  assumes "\<forall>c \<in> set cs. proper c" "cs \<noteq> []"
  shows "Join cs [sep] \<noteq> ''.''" "Join cs [sep] \<noteq> ''/''"
proof -
  have s: "Split (Join cs [sep]) sep = cs"
    by (rule Split_Join_sep) (use assms in \<open>auto simp: proper_def\<close>)
  show "Join cs [sep] \<noteq> ''.''"
  proof
    assume "Join cs [sep] = ''.''"
    with s have "cs = [''.'']" by (simp add: sep_def)
    with assms show False by (simp add: proper_def)
  qed
  show "Join cs [sep] \<noteq> ''/''"
  proof
    assume "Join cs [sep] = ''/''"
    with s have "[] \<in> set cs" by (simp add: sep_def) (metis list.set_intros(1))
    with assms(1) show False unfolding proper_def by blast
  qed
qed

lemma Join_snoc: "cs \<noteq> [] \<Longrightarrow> Join (cs @ [c]) s = Join cs s @ s @ c"
  by (induction cs s rule: Join.induct) auto

lemma LastIndexByte_last: "b \<notin> set c \<Longrightarrow> LastIndexByte (p @ b # c) b = Some (length p)"
  by (induction p) (simp_all add: LastIndexByte_None [THEN iffD2])

lemma Dir_Join:
  assumes "\<forall>c \<in> set (cs @ [c]). proper c"
  shows "Dir (Join (cs @ [c]) [sep]) = (if cs = [] then ''.'' else Join cs [sep])"
proof (cases "cs = []")
  case True
  with assms have "LastIndexByte c sep = None" by (simp add: LastIndexByte_None proper_def)
  with True show ?thesis by (simp add: Dir_def Clean_Nil)
next
  case False
  let ?p = "Join cs [sep]"
  have c: "sep \<notin> set c" "\<forall>c \<in> set cs. proper c" using assms by (auto simp: proper_def)
  have "Dir (Join (cs @ [c]) [sep]) = Clean (?p @ [sep])"
    using LastIndexByte_last [OF c(1), of ?p] False by (simp add: Dir_def Join_snoc)
  also have "\<dots> = ?p"
  proof -
    have "Split (?p @ [sep]) sep = cs @ [[]]"
      using Split_append_at [of ?p sep "[]"] Split_Join_sep [of cs sep] c(2) False by (auto simp: proper_def)
    moreover have "\<not> IsAbs (?p @ [sep])"
      using Join_not_abs [OF c(2)] Join_nonempty [of cs "[sep]"] c(2) False
      by (cases ?p) (auto simp: IsAbs_def HasPrefix_def proper_def)
    ultimately show ?thesis using c(2) False by (simp add: Clean_def clean_comps_def clean_push)
  qed
  finally show ?thesis using False by simp
qed

text \<open>The climb finds exactly the directories on the way to a relative path, and the path.\<close>

lemma matchParentDirs_iff:
  assumes "\<forall>c \<in> set cs. proper c" "\<forall>d \<in> set ds. proper d" "cs \<noteq> []" "ds \<noteq> []"
  shows "matchParentDirs (Join cs [sep]) (Join ds [sep]) \<longleftrightarrow> (\<exists>es. cs = ds @ es)"
  using assms
proof (induction cs rule: rev_induct)
  case (snoc c cs)
  have eq: "Join (cs @ [c]) [sep] = Join ds [sep] \<longleftrightarrow> cs @ [c] = ds"
    using Join_parts_inj [OF _ snoc.prems(1,2)] by blast
  have "matchParentDirs (Join (cs @ [c]) [sep]) (Join ds [sep]) \<longleftrightarrow>
      cs @ [c] = ds \<or> matchParentDirs (if cs = [] then ''.'' else Join cs [sep]) (Join ds [sep])"
    using Join_proper_special [OF snoc.prems(1)] snoc.prems
    by (subst matchParentDirs.simps) (simp add: eq Dir_Join)
  moreover have "\<not> matchParentDirs ''.'' p" for p by (subst matchParentDirs.simps) simp
  ultimately show ?case
    using snoc by (cases "cs = []") (auto simp: append_eq_append_conv2 append_eq_Cons_conv Cons_eq_append_conv)
qed simp

text \<open>
  The place of a file in or below a directory of the working directory, the directory given
  in any spelling: its parts are what remains of \<open>gen\<close>, \<open>./gen\<close> or \<open>gen/\<close>.
\<close>

definition belowDir :: "string \<Rightarrow> string \<Rightarrow> string \<Rightarrow> bool" where
  "belowDir cwd d f \<longleftrightarrow> IsAbs cwd \<and> IsAbs f \<and> parts d \<noteq> [] \<and>
     take (length (parts cwd @ parts d)) (parts f) = parts cwd @ parts d"

text \<open>The spelling that the filter understands: no slash at the end, no dots, no doubled slash.\<close>

definition plainPath :: "string \<Rightarrow> bool" where
  "plainPath d \<longleftrightarrow> d = Join (parts d) [sep]"

lemma below_skipped:
  assumes "belowDir cwd d f" "plainPath d" "d \<in> set skip"
  shows "shouldSkip rel (or_else f (Rel cwd f)) skip"
proof -
  let ?ds = "parts d"
  define es where "es = drop (length (parts cwd @ ?ds)) (parts f)"
  have b: "take (length (parts cwd @ ?ds)) (parts f) = parts cwd @ ?ds" "IsAbs cwd" "IsAbs f" "?ds \<noteq> []"
    using assms(1) by (simp_all add: belowDir_def)
  have "parts f = (parts cwd @ ?ds) @ es"
    using append_take_drop_id [of "length (parts cwd @ ?ds)" "parts f"] unfolding b(1) es_def by (rule sym)
  then have f: "parts f = parts cwd @ ?ds @ es" "IsAbs cwd" "IsAbs f" "?ds \<noteq> []" using b by simp_all
  then have "Rel cwd f = Some (Join (?ds @ es) [sep])" by (intro Rel_below) auto
  moreover have "\<forall>c \<in> set (?ds @ es). proper c" using parts_proper [of f] f(1) by auto
  then have "matchParentDirs (Join (?ds @ es) [sep]) (Join ?ds [sep])"
    using f(4) by (subst matchParentDirs_iff) auto
  ultimately show ?thesis using assms(2,3) by (auto simp: shouldSkip_def list_ex_iff plainPath_def)
qed

lemma keepSite_skip:
  assumes "d \<in> set (cSkip cfg)"
    and "belowDir cwd d (sFile s) \<and> plainPath d \<or> globMatch d (or_else (sFile s) (Rel cwd (sFile s)))"
  shows "\<not> keepSite cwd targets cfg resolver s"
proof -
  define fs where "fs = (case resolver of
      Some r \<Rightarrow> if HasAnyOverrides r then EffectiveFilters cwd r (sFile s) cfg
                else (cExclude cfg, cInclude cfg, cSkip cfg, cSkipFunc cfg)
    | None \<Rightarrow> (cExclude cfg, cInclude cfg, cSkip cfg, cSkipFunc cfg))"
  obtain e i sk sf where f: "fs = (e, i, sk, sf)" by (cases fs)
  have d: "d \<in> set sk"
    using assms(1) f by (auto simp: fs_def EffectiveFilters_def Let_def split: option.splits if_splits)
  then have "shouldSkip rel (or_else (sFile s) (Rel cwd (sFile s))) sk" "sk \<noteq> []" for rel
    using below_skipped [of cwd d "sFile s" sk] assms(2) by (auto simp: shouldSkip_def list_ex_iff)
  then show ?thesis by (simp add: keepSite_def Let_def fs_def [symmetric] f)
qed

text \<open>
  A directory that the organisation's policy forces to be skipped is never mutated, if the
  policy spells it plainly: once the policy is applied to any configuration, no site in or below
  the directory passes the filter, whatever targets, sub-configurations and other filters there
  are.
\<close>

theorem forced_skip_paths_hold:
  assumes "\<not> IsZero p" "d \<in> set (ForcedSkipPaths p)" "plainPath d" "belowDir cwd d (sFile s)"
  shows "s \<notin> set (FilterSites cwd sites targets (fst (ApplyPolicy cfg (Some p) ops ncpu)) resolver)"
proof -
  have "d \<in> set (cSkip (fst (ApplyPolicy cfg (Some p) ops ncpu)))"
    using ApplyPolicy_paths(1) [OF assms(1)] assms(2) by blast
  with keepSite_skip [OF this] assms(3,4) show ?thesis by (simp add: FilterSites_def)
qed

text \<open>
  The other spellings are not understood. A path with a slash at its end, as \<open>vendor/\<close> in the
  README and \<open>generated/\<close> in the tests of the repository, skips nothing, and a pattern for file
  names covers only the files of one directory.
\<close>

definition endsInSlash :: "string \<Rightarrow> bool" where
  "endsInSlash p \<longleftrightarrow> p \<noteq> [] \<and> last p = sep"

lemma clean_foldl_nonempty:
  "\<lbrakk>\<forall>x \<in> set st. x \<noteq> [] \<and> sep \<notin> set x; \<forall>c \<in> set cs. sep \<notin> set c\<rbrakk> \<Longrightarrow>
     \<forall>x \<in> set (foldl (clean_step r) st cs). x \<noteq> [] \<and> sep \<notin> set x"
proof (induction cs arbitrary: st)
  case (Cons c cs)
  have "\<forall>x \<in> set (clean_step r st c). x \<noteq> [] \<and> sep \<notin> set x"
    using Cons.prems by (cases st) (auto simp: sep_def)
  from Cons.IH [OF this] Cons.prems show ?case by (simp del: clean_step.simps)
qed simp

lemma Join_last_char: "\<forall>c \<in> set cs. c \<noteq> [] \<and> sep \<notin> set c \<Longrightarrow> \<not> endsInSlash (Join cs [sep])"
proof (induction cs rule: rev_induct)
  case (snoc c cs)
  then have c: "c \<noteq> []" "sep \<notin> set c" by simp_all
  then have "last c \<noteq> sep" using last_in_set by metis
  with c have "c \<noteq> []" "last c \<noteq> sep" by simp_all
  then show ?case by (cases "cs = []") (simp_all add: endsInSlash_def Join_snoc)
qed (simp add: endsInSlash_def)

lemma Clean_slash: "endsInSlash (Clean p) \<Longrightarrow> Clean p = ''/''"
proof -
  assume e: "endsInSlash (Clean p)"
  have c: "\<forall>c \<in> set (clean_comps x (Split p sep)). c \<noteq> [] \<and> sep \<notin> set c" for x
    using clean_foldl_nonempty [of "[]" "Split p sep" x] Split_no_sep [of _ p sep] by (simp add: clean_comps_def)
  have j: "\<not> endsInSlash (Join (clean_comps x (Split p sep)) [sep])" for x by (rule Join_last_char [OF c])
  show ?thesis
  proof (cases "IsAbs p")
    case True
    then show ?thesis using e j [of True]
      by (cases "Join (clean_comps True (Split p sep)) [sep] = []") (auto simp: Clean_def Let_def sep_def endsInSlash_def)
  next
    case False
    then show ?thesis using e j [of False] by (auto simp: Clean_def Let_def sep_def endsInSlash_def split: if_splits)
  qed
qed

lemma matchParentDirs_slash: "endsInSlash pattern \<Longrightarrow> \<not> endsInSlash path \<Longrightarrow> \<not> matchParentDirs path pattern"
proof (induction path pattern rule: matchParentDirs.induct)
  case (1 path pattern)
  have "matchParentDirs ''/'' q = False" for q by (simp add: matchParentDirs.simps)
  then show ?case using 1 Clean_slash unfolding Dir_def by (subst matchParentDirs.simps) (metis Dir_def)
qed

lemma trailing_slash_skips_nothing:
  assumes "literal d" "\<not> endsInSlash rel" "\<not> endsInSlash cwdRel"
  shows "\<not> shouldSkip rel cwdRel [d @ ''/'']"
proof -
  have s: "endsInSlash (d @ ''/'')" by (simp add: endsInSlash_def sep_def)
  have "literal (d @ ''/'')" using assms(1) by (simp add: literal_def)
  moreover have "rel \<noteq> d @ ''/''" "cwdRel \<noteq> d @ ''/''" using s assms(2,3) by auto
  ultimately show ?thesis
    using matchParentDirs_slash [OF s] assms(2,3) by (simp add: shouldSkip_def globMatch_literal)
qed

lemma nested_pattern_skips_nothing: "\<not> shouldSkip ''gen/x.pb.go'' ''gen/x.pb.go'' [''*.pb.go'']"
  by code_simp

definition demoSite :: "string \<Rightarrow> int \<Rightarrow> Site" where
  "demoSite f l = \<lparr>sFile = f, sFileAST = Some (Ident 1 ''x''), sLine = l, sColumn = 4, sNode = demoCompare,
     sReturnType = ''int'', sFunctionName = ''f'', sEnclosingFunc = None\<rparr>"

theorem forced_skip_paths_hold_witness:
  "demoSite ''/p/gen/a.go'' 4 \<notin> set (FilterSites ''/p'' [demoSite ''/p/gen/a.go'' 4, demoSite ''/p/b.go'' 4] [''.'']
     (fst (ApplyPolicy DefaultConfig (Some samplePolicy) allOperators 2)) None)"
proof (rule forced_skip_paths_hold [OF samplePolicy_nonzero, where d = "''gen''"])
  show "''gen'' \<in> set (ForcedSkipPaths samplePolicy)" by (simp add: samplePolicy_def)
  show "plainPath ''gen''" by code_simp
  show "belowDir ''/p'' ''gen'' (sFile (demoSite ''/p/gen/a.go'' 4))" by code_simp
qed

subsection \<open>Mutants of a diff\<close>

text \<open>
  C35. With a plain diff only added lines are mutated: if the diff is the printed form of \<open>ds\<close>,
  every mutant generated from the sites that remain lies on a line that some file diff of \<open>ds\<close>
  adds to the file of the site. Plain (\<open>plainDiff\<close>) means, as in the theorem on reading diffs,
  that no added text begins with two plus signs and no removed text with two minus signs; with
  such a line the numbers of the lines behind it are wrong and lines that are not added can be
  mutated (\<open>sql_comment_shifts_lines\<close>). The lines are shorter than 64 KiB and do not end in a
  carriage return.
\<close>

theorem diff_limits_mutants:
  assumes "list_all plainDiff ds" "IsAbs cwd" "\<forall>l \<in> set (printDiff ds). scannable l"
    and "m \<in> set (GenerateMutants cwd (FilterSitesByDiff cwd sites (parseDiff cwd (linesText (printDiff ds))))
           ops allOps projRoot dirRules resolver)"
  shows "\<exists>d \<in> set ds. map_option (Abs cwd) (fdPath d) = Some (Abs cwd (sFile (mSite m))) \<and> sLine (mSite m) \<in> addedIn d"
proof -
  have "mSite m \<in> set (FilterSitesByDiff cwd sites (Some (changedLines cwd ds)))"
    using generated_sites assms(4) parse_printed [OF assms(1-3)] by fastforce
  then obtain ls where "changedLines cwd ds (Abs cwd (sFile (mSite m))) = Some ls" "sLine (mSite m) \<in> ls"
    by (auto simp: FilterSitesByDiff_def split: option.splits)
  then show ?thesis by (auto simp: changedLines_def Let_def split: if_splits)
qed

lemma demo_diff_mutants:
  "map (sLine \<circ> mSite) (GenerateMutants ''/p'' (FilterSitesByDiff ''/p'' [demoSite ''/p/a.go'' 3, demoSite ''/p/a.go'' 4]
     (Some (parseDiffLines ''/p'' (printDiff demoDiff)))) [ConditionNegation] [ConditionNegation] ''/p'' [] None) = [4]"
  by code_simp

theorem diff_limits_mutants_witness:
  "\<exists>m. m \<in> set (GenerateMutants ''/p'' (FilterSitesByDiff ''/p'' [demoSite ''/p/a.go'' 3, demoSite ''/p/a.go'' 4]
        (parseDiff ''/p'' (linesText (printDiff demoDiff)))) [ConditionNegation] [ConditionNegation] ''/p'' [] None) \<and>
     (\<exists>d \<in> set demoDiff. map_option (Abs ''/p'') (fdPath d) = Some (Abs ''/p'' (sFile (mSite m))) \<and> sLine (mSite m) \<in> addedIn d)"
proof -
  have plain: "list_all plainDiff demoDiff" by code_simp
  have scan: "\<forall>l \<in> set (printDiff demoDiff). scannable l" by (rule scannable_short) code_simp
  have parse: "parseDiff ''/p'' (linesText (printDiff demoDiff)) = Some (parseDiffLines ''/p'' (printDiff demoDiff))"
    by (simp add: parseDiff_def ScanLines_linesText [OF scan])
  obtain m where "m \<in> set (GenerateMutants ''/p'' (FilterSitesByDiff ''/p'' [demoSite ''/p/a.go'' 3, demoSite ''/p/a.go'' 4]
        (parseDiff ''/p'' (linesText (printDiff demoDiff)))) [ConditionNegation] [ConditionNegation] ''/p'' [] None)"
    using demo_diff_mutants unfolding parse by (auto simp: map_eq_Cons_conv)
  moreover have "IsAbs ''/p''" by (simp add: IsAbs_def HasPrefix_def sep_def)
  ultimately show ?thesis using diff_limits_mutants [OF plain _ scan] by blast
qed

end
