(* ===== verification/Float64.thy ===== *)
theory Float64
  imports GoFmt
begin

text \<open>
  The rounding of \<open>float64\<close>, which every arithmetic operation of Go ends with: \<open>f64 x\<close> is the
  \<open>float64\<close> nearest to the rational \<open>x\<close>, ties to the even significand, with 53 significant bits
  and \<open>2 powi -1074\<close> as smallest unit. Values from \<open>2 ^ 1024\<close> on, which Go turns into
  infinity, are left finite here; the counts and percentages of the program never come near. The
  lemmas bound the error, and show that rounding is monotone and leaves what is already a
  \<open>float64\<close> as it is.
\<close>

fun bitLength :: "nat \<Rightarrow> nat" where
  "bitLength n = (if n = 0 then 0 else Suc (bitLength (n div 2)))"

declare bitLength.simps [simp del]

text \<open>The binary exponent of a positive number: \<open>2 powi e \<le> x < 2 powi (e + 1)\<close>.\<close>

definition exponent :: "rat \<Rightarrow> int" where
  "exponent x =
     (case quotient_of x of (p, q) \<Rightarrow>
        let k = int (bitLength (nat p)) - int (bitLength (nat q)) in if 2 powi k \<le> x then k else k - 1)"

text \<open>The distance of the \<open>float64\<close>s around a number, as exponent of two.\<close>

definition unitOf :: "rat \<Rightarrow> int" where
  "unitOf x = max (exponent \<bar>x\<bar> - 52) (-1074)"

definition roundTo :: "int \<Rightarrow> rat \<Rightarrow> rat" where
  "roundTo u x = of_int (round_even (x / 2 powi u)) * 2 powi u"

definition f64 :: "rat \<Rightarrow> rat" where
  "f64 x = (if x = 0 then 0 else roundTo (unitOf x) x)"

subsection \<open>Exponents\<close>

lemma bitLength_upper: "n < 2 ^ bitLength n"
proof (induction n rule: less_induct)
  case (less n)
  show ?case
  proof (cases "n = 0")
    case False
    then have "n div 2 < 2 ^ bitLength (n div 2)" using less by simp
    then have "n < 2 * 2 ^ bitLength (n div 2)" by linarith
    then show ?thesis using False by (subst bitLength.simps) simp
  qed (simp add: bitLength.simps)
qed

lemma bitLength_lower: "n \<noteq> 0 \<Longrightarrow> 2 ^ bitLength n \<le> 2 * n"
proof (induction n rule: less_induct)
  case (less n)
  show ?case
  proof (cases "n div 2 = 0")
    case True
    then have "n = 1" using less.prems by linarith
    then show ?thesis by (simp add: bitLength.simps)
  next
    case False
    then have "2 ^ bitLength (n div 2) \<le> 2 * (n div 2)" using less by simp
    then show ?thesis using less.prems by (subst bitLength.simps) simp
  qed
qed

lemma two_powi_pos [simp]: "0 < (2::rat) powi k"
  by (simp add: zero_less_power_int)

lemma two_powi_mono: "j \<le> k \<Longrightarrow> (2::rat) powi j \<le> 2 powi k"
  by (simp add: power_int_increasing)

lemma two_powi_Suc: "(2::rat) powi (k + 1) = 2 * 2 powi k"
  by (simp add: power_int_add_1')

lemma two_powi_minus: "(2::rat) powi (k - 1) = 2 powi k / 2"
  by (simp add: power_int_diff)

lemma nat_quotient:
  assumes "0 < x" "quotient_of x = (p, q)"
  shows "x = of_nat (nat p) / of_nat (nat q)" "nat p \<noteq> 0" "nat q \<noteq> 0"
proof -
  have "0 < q" by (rule quotient_of_denom_pos [OF assms(2)])
  moreover have x: "x = of_int p / of_int q" by (rule quotient_of_div [OF assms(2)])
  moreover have "0 < p" using assms(1) x \<open>0 < q\<close> by (simp add: zero_less_divide_iff)
  ultimately show "x = of_nat (nat p) / of_nat (nat q)" "nat p \<noteq> 0" "nat q \<noteq> 0" by simp_all
qed

lemma exponent_bounds:
  assumes "0 < x"
  shows "2 powi exponent x \<le> x \<and> x < 2 powi (exponent x + 1)"
proof -
  obtain p q where pq: "quotient_of x = (p, q)" by fastforce
  define P Q a b where "P = nat p" and "Q = nat q" and "a = bitLength P" and "b = bitLength Q"
  define k where "k = int a - int b"
  note x = nat_quotient [OF assms pq, folded P_def Q_def]
  have P: "P < 2 ^ a" "2 ^ a \<le> 2 * P" and Q: "Q < 2 ^ b" "2 ^ b \<le> 2 * Q"
    using bitLength_upper bitLength_lower x(2,3) by (auto simp: a_def b_def)
  have P': "rat_of_nat P < 2 ^ a" "2 ^ a \<le> 2 * rat_of_nat P"
    and Q': "rat_of_nat Q < 2 ^ b" "2 ^ b \<le> 2 * rat_of_nat Q"
    using P Q by (metis of_nat_less_iff of_nat_numeral of_nat_power, metis of_nat_le_iff of_nat_mult of_nat_numeral of_nat_power)+
  have k: "(2::rat) powi k = 2 ^ a / 2 ^ b" by (simp add: k_def power_int_diff)
  have pos: "0 < rat_of_nat Q" using x(3) by simp
  have "x < 2 powi (k + 1)"
  proof -
    have "rat_of_nat P * 2 ^ b < 2 ^ a * 2 ^ b" using P'(1) by simp
    also have "\<dots> \<le> 2 ^ a * (2 * rat_of_nat Q)" using Q'(2) by simp
    finally show ?thesis unfolding two_powi_Suc k x(1) using pos by (simp add: field_simps)
  qed
  moreover have "2 powi (k - 1) \<le> x"
  proof -
    have "2 ^ a * rat_of_nat Q \<le> 2 ^ a * 2 ^ b" using Q'(1) by simp
    also have "\<dots> \<le> 2 * rat_of_nat P * 2 ^ b" using P'(2) by simp
    finally show ?thesis unfolding two_powi_minus k x(1) using pos by (simp add: field_simps)
  qed
  moreover have "exponent x = (if 2 powi k \<le> x then k else k - 1)"
    by (simp add: exponent_def pq k_def a_def b_def P_def Q_def Let_def)
  ultimately show ?thesis by auto
qed

lemma exponent_less:
  assumes "0 < x" "x < 2 powi (k + 1)"
  shows "exponent x \<le> k"
proof (rule ccontr)
  assume "\<not> exponent x \<le> k"
  then have "(2::rat) powi (k + 1) \<le> 2 powi exponent x" by (intro two_powi_mono) simp
  then show False using exponent_bounds [OF assms(1)] assms(2) by simp
qed

lemma exponent_mono: "0 < x \<Longrightarrow> x \<le> y \<Longrightarrow> exponent x \<le> exponent y"
  by (rule exponent_less) (use exponent_bounds [of y] in auto)

subsection \<open>Rounding to a unit\<close>

lemma round_even_mono:
  assumes "x \<le> y"
  shows "round_even x \<le> round_even y"
proof (cases "\<lfloor>x\<rfloor> = \<lfloor>y\<rfloor>")
  case True
  then show ?thesis using assms by (auto simp: round_even_def Let_def)
next
  case False
  then have "\<lfloor>x\<rfloor> + 1 \<le> \<lfloor>y\<rfloor>" using floor_mono [OF assms] by linarith
  then show ?thesis by (auto simp: round_even_def Let_def)
qed

lemma roundTo_mono: "x \<le> y \<Longrightarrow> roundTo u x \<le> roundTo u y"
  by (simp add: roundTo_def round_even_mono divide_right_mono)

lemma roundTo_multiple: "roundTo u (of_int n * 2 powi u) = of_int n * 2 powi u"
  by (simp add: roundTo_def)

lemma roundTo_power: "u \<le> k \<Longrightarrow> roundTo u (2 powi k) = 2 powi k"
proof -
  assume "u \<le> k"
  then have "(2::rat) powi k = of_int (2 ^ nat (k - u)) * 2 powi u"
    by (simp add: power_int_add [symmetric] flip: power_int_of_nat)
  then show ?thesis by (metis roundTo_multiple)
qed

lemma round_even_eqI:
  assumes "of_int n - 1 / 2 < r" "r < of_int n + 1 / 2"
  shows "round_even r = n"
proof -
  have "\<lfloor>r\<rfloor> = n \<or> \<lfloor>r\<rfloor> = n - 1" using assms by linarith
  then show ?thesis using assms by (auto simp: round_even_def Let_def)
qed

lemma roundTo_eqI:
  assumes "(of_int n - 1 / 2) * 2 powi u < x" "x < (of_int n + 1 / 2) * 2 powi u"
  shows "roundTo u x = of_int n * 2 powi u"
proof -
  have "round_even (x / 2 powi u) = n"
    using assms by (intro round_even_eqI) (simp_all add: pos_less_divide_eq pos_divide_less_eq)
  then show ?thesis by (simp add: roundTo_def)
qed

lemma roundTo_error: "\<bar>roundTo u x - x\<bar> \<le> 2 powi u / 2"
proof -
  define r where "r = x / 2 powi u"
  have x: "x = r * 2 powi u" by (simp add: r_def)
  have "\<bar>of_int (round_even r) - r\<bar> \<le> 1 / 2" using round_even_bounds [of r] by linarith
  then have "\<bar>of_int (round_even r) - r\<bar> * 2 powi u \<le> 1 / 2 * 2 powi u" by (rule mult_right_mono) simp
  moreover have "roundTo u x - x = (of_int (round_even r) - r) * 2 powi u"
    using x by (simp add: roundTo_def r_def [symmetric] left_diff_distrib)
  ultimately show ?thesis by (simp add: abs_mult)
qed

subsection \<open>Rounding to a \<open>float64\<close>\<close>

lemma f64_0 [simp]: "f64 0 = 0"
  by (simp add: f64_def)

lemma f64_pos: "0 < x \<Longrightarrow> f64 x = roundTo (unitOf x) x"
  by (simp add: f64_def)

lemma unitOf_mono: "0 < x \<Longrightarrow> x \<le> y \<Longrightarrow> unitOf x \<le> unitOf y"
  using exponent_mono [of x y] by (simp add: unitOf_def)

lemma f64_nonneg:
  assumes "0 \<le> x"
  shows "0 \<le> f64 x"
proof (cases "x = 0")
  case False
  have "roundTo (unitOf x) 0 \<le> roundTo (unitOf x) x" using assms by (rule roundTo_mono)
  then show ?thesis using False roundTo_multiple [of "unitOf x" 0] by (simp add: f64_def)
qed simp

text \<open>Within one binade rounding is monotone; between two, the power of two between them separates.\<close>

theorem f64_mono:
  assumes "0 \<le> x" "x \<le> y"
  shows "f64 x \<le> f64 y"
proof (cases "x = 0")
  case True
  then show ?thesis using f64_nonneg [of y] assms by simp
next
  case False
  then have pos: "0 < x" "0 < y" using assms by simp_all
  show ?thesis
  proof (cases "unitOf x = unitOf y")
    case True
    then show ?thesis using pos roundTo_mono [OF assms(2)] by (simp add: f64_pos)
  next
    case False
    let ?k = "exponent y"
    have less: "exponent x + 1 \<le> ?k" "unitOf y = ?k - 52" "unitOf x \<le> ?k"
      using exponent_mono [OF pos(1) assms(2)] False pos by (auto simp: unitOf_def max_def split: if_splits)
    have "x \<le> 2 powi ?k"
      using exponent_bounds [OF pos(1)] two_powi_mono [OF less(1)] by simp
    then have "roundTo (unitOf x) x \<le> 2 powi ?k"
      using roundTo_mono [of x "2 powi ?k" "unitOf x"] roundTo_power [OF less(3)] by simp
    also have "2 powi ?k \<le> roundTo (unitOf y) y"
      using roundTo_mono [of "2 powi ?k" y "unitOf y"] roundTo_power [of "unitOf y" ?k] exponent_bounds [OF pos(2)] less(2)
      by simp
    finally show ?thesis using pos by (simp add: f64_pos)
  qed
qed

theorem f64_error:
  assumes "0 \<le> x" "x < 2 powi (k + 1)" "-1022 \<le> k"
  shows "\<bar>f64 x - x\<bar> \<le> 2 powi (k - 53)"
proof (cases "x = 0")
  case False
  then have pos: "0 < x" using assms by simp
  have "unitOf x \<le> k - 52" using exponent_less [OF pos assms(2)] assms(3) pos by (simp add: unitOf_def)
  then have "(2::rat) powi unitOf x \<le> 2 powi (k - 52)" by (rule two_powi_mono)
  also have "\<dots> = 2 * 2 powi (k - 53)" using two_powi_Suc [of "k - 53"] by simp
  finally show ?thesis using roundTo_error [of "unitOf x" x] pos by (simp add: f64_pos)
qed simp

lemma exponent_eq:
  assumes "2 powi k \<le> x" "x < 2 powi (k + 1)"
  shows "exponent x = k"
proof -
  have x: "0 < x" using assms(1) two_powi_pos [of k] by (rule less_le_trans [rotated])
  have "k \<le> exponent x"
  proof (rule ccontr)
    assume "\<not> k \<le> exponent x"
    then have "(2::rat) powi (exponent x + 1) \<le> 2 powi k" by (intro two_powi_mono) simp
    then show False using exponent_bounds [OF x] assms(1) by simp
  qed
  then show ?thesis using exponent_less [OF x assms(2)] by simp
qed

lemma f64_binade:
  assumes "2 powi k \<le> x" "x < 2 powi (k + 1)" "-1022 \<le> k"
  shows "f64 x = roundTo (k - 52) x"
proof -
  have "0 < x" using assms(1) two_powi_pos [of k] by (rule less_le_trans [rotated])
  then show ?thesis using assms exponent_eq [OF assms(1,2)] by (simp add: f64_pos unitOf_def)
qed

lemma f64_two_powi:
  assumes "-1022 \<le> k"
  shows "f64 (2 powi k) = 2 powi k"
proof -
  have "f64 (2 powi k) = roundTo (k - 52) (2 powi k)"
    using assms by (intro f64_binade) (simp_all only: two_powi_Suc, simp_all)
  then show ?thesis by (simp add: roundTo_power)
qed

lemma f64_multiple:
  assumes "x = of_int n * 2 powi (k - 52)" "0 \<le> x" "x < 2 powi (k + 1)" "-1022 \<le> k"
  shows "f64 x = x"
proof (cases "x = 0")
  case False
  then have pos: "0 < x" using assms(2) by (simp add: less_le)
  define u where "u = unitOf x"
  have u: "u \<le> k - 52" using exponent_less [OF pos assms(3)] assms(4) pos by (simp add: u_def unitOf_def)
  then have "(2::rat) powi (k - 52) = of_int (2 ^ nat (k - 52 - u)) * 2 powi u"
    by (simp add: power_int_add [symmetric] flip: power_int_of_nat)
  then have "x = of_int (n * 2 ^ nat (k - 52 - u)) * 2 powi u" by (simp add: assms(1))
  then show ?thesis using pos roundTo_multiple u_def by (metis f64_pos)
qed simp

lemma f64_nat:
  assumes "n \<le> 2 ^ 53"
  shows "f64 (of_nat n) = of_nat n"
proof (cases "n = 2 ^ 53")
  case True
  then show ?thesis by (intro f64_multiple [of _ "2 ^ 52" 53]) simp_all
next
  case False
  then have "n < 2 ^ 53" using assms by simp
  then have "rat_of_nat n < 2 ^ 53" by (metis of_nat_less_iff of_nat_numeral of_nat_power)
  then show ?thesis by (intro f64_multiple [of _ "int n" 52]) simp_all
qed

text \<open>What comes out of a rounding is a \<open>float64\<close>.\<close>

lemma f64_idem:
  assumes "0 \<le> x"
  shows "f64 (f64 x) = f64 x"
proof (cases "x = 0")
  case False
  then have pos: "0 < x" using assms by simp
  define k where "k = max (exponent x) (-1022)"
  have u: "unitOf x = k - 52" using pos by (simp add: unitOf_def k_def)
  then obtain n where n: "f64 x = of_int n * 2 powi (k - 52)" using pos by (simp add: f64_pos roundTo_def)
  have "x \<le> 2 powi (k + 1)"
    using exponent_bounds [OF pos] two_powi_mono [of "exponent x + 1" "k + 1"] by (simp add: k_def)
  then have "f64 x \<le> 2 powi (k + 1)"
    using roundTo_mono [of x "2 powi (k + 1)" "k - 52"] roundTo_power [of "k - 52" "k + 1"] pos u by (simp add: f64_pos)
  then consider "f64 x < 2 powi (k + 1)" | "f64 x = 2 powi (k + 1)" by linarith
  then show ?thesis
  proof cases
    case 1
    then show ?thesis using n f64_nonneg [OF assms] by (intro f64_multiple [of _ n k]) (simp_all add: k_def)
  next
    case 2
    have "f64 (2 powi (k + 1)) = 2 powi (k + 1)" by (rule f64_two_powi) (simp add: k_def)
    then show ?thesis using 2 by simp
  qed
qed simp

lemma f64_at_least: "f64 b = b \<Longrightarrow> 0 \<le> b \<Longrightarrow> b \<le> x \<Longrightarrow> b \<le> f64 x"
  using f64_mono [of b x] by simp

subsection \<open>Percentages\<close>

lemmas powi_numerals = power_int_def power_one_over

text \<open>The percentage \<open>float64(k) / float64(n) * 100\<close>.\<close>

definition percent :: "nat \<Rightarrow> nat \<Rightarrow> rat" where
  "percent k n = f64 (f64 (f64 (of_nat k) / f64 (of_nat n)) * 100)"

lemma f64_ge_1: "0 < n \<Longrightarrow> 1 \<le> f64 (of_nat n)"
  using f64_mono [of 1 "of_nat n"] f64_nat [of 1] by simp

lemma f64_1_100: "f64 1 = 1" "f64 100 = 100"
  using f64_nat [of 1] f64_nat [of 100] by simp_all

lemma ratio_bounds:
  assumes "k \<le> n" "0 < n"
  shows "0 \<le> f64 (of_nat k) / f64 (of_nat n)" "f64 (of_nat k) / f64 (of_nat n) \<le> 1"
proof -
  have "f64 (of_nat k) \<le> f64 (of_nat n)" using assms by (intro f64_mono) simp_all
  then show "f64 (of_nat k) / f64 (of_nat n) \<le> 1" using f64_ge_1 [OF assms(2)] by simp
  show "0 \<le> f64 (of_nat k) / f64 (of_nat n)" using f64_ge_1 [OF assms(2)] by (simp add: f64_nonneg)
qed

lemma percent_bounds:
  assumes "k \<le> n"
  shows "0 \<le> percent k n \<and> percent k n \<le> 100"
proof (cases "n = 0")
  case False
  note r = ratio_bounds [OF assms, of] False
  have "f64 (f64 (of_nat k) / f64 (of_nat n)) \<le> 1"
    using f64_mono [OF ratio_bounds [OF assms]] False by (simp add: f64_1_100)
  then have "percent k n \<le> f64 100"
    unfolding percent_def using ratio_bounds [OF assms] False by (intro f64_mono) (simp_all add: f64_nonneg)
  then show ?thesis using ratio_bounds [OF assms] False by (simp add: f64_1_100 percent_def f64_nonneg)
qed (simp add: percent_def)

lemma f64_percent [simp]: "f64 (percent k n) = percent k n"
  by (cases "n = 0") (simp_all add: percent_def f64_idem f64_nonneg f64_ge_1 divide_nonneg_nonneg)

lemma percent_self [simp]: "0 < n \<Longrightarrow> percent n n = 100"
  using f64_ge_1 [of n] by (simp add: percent_def f64_1_100)

lemma percent_0 [simp]: "percent 0 n = 0"
  by (simp add: percent_def)

lemma percent_mono: "j \<le> k \<Longrightarrow> percent j n \<le> percent k n"
  by (cases "n = 0")
    (auto simp: percent_def f64_nonneg intro!: f64_mono divide_right_mono mult_right_mono divide_nonneg_nonneg mult_nonneg_nonneg)

text \<open>A share below one stays below \<open>100\<close> as long as the counts are exact: the next \<open>float64\<close> below is reached.\<close>

lemma below_one: "f64 (1 - 1 / 2 ^ 53) = 1 - 1 / 2 ^ 53"
  by (rule f64_multiple [of _ "2 ^ 53 - 1" "-1"]) (simp_all add: powi_numerals)

lemma below_hundred: "f64 ((1 - 1 / 2 ^ 53) * 100) < 100"
proof -
  have "f64 ((1 - 1 / 2 ^ 53) * 100) = roundTo (6 - 52) ((1 - 1 / 2 ^ 53) * 100)"
    by (rule f64_binade) (simp_all add: powi_numerals)
  also have "\<dots> = of_int (100 * 2 ^ 46 - 1) * 2 powi (6 - 52)"
    by (rule roundTo_eqI) (simp_all add: powi_numerals)
  finally show ?thesis by (simp add: powi_numerals)
qed

lemma percent_below:
  assumes "k < n" "n \<le> 2 ^ 53"
  shows "percent k n < 100"
proof -
  have n: "rat_of_nat n \<le> 2 ^ 53" using assms(2) by (metis of_nat_le_iff of_nat_numeral of_nat_power)
  have "rat_of_nat k \<le> of_nat n - 1" using assms(1) by (metis Suc_leI le_diff_eq of_nat_Suc of_nat_le_iff add.commute)
  then have "rat_of_nat k / of_nat n \<le> (of_nat n - 1) / of_nat n" by (simp add: divide_right_mono)
  also have "\<dots> \<le> 1 - 1 / 2 ^ 53"
  proof -
    have "1 / (2 ^ 53 :: rat) \<le> 1 / of_nat n" using n assms(1) by (intro divide_left_mono) simp_all
    then show ?thesis using assms(1) by (simp add: diff_divide_distrib)
  qed
  finally have "f64 (of_nat k) / f64 (of_nat n) \<le> 1 - 1 / 2 ^ 53" using assms by (simp add: f64_nat)
  then have "f64 (f64 (of_nat k) / f64 (of_nat n)) \<le> 1 - 1 / 2 ^ 53"
    using f64_mono [OF ratio_bounds(1)] assms below_one by (metis less_imp_le_nat not_less_zero bot_nat_0.not_eq_extremum)
  then have "percent k n \<le> f64 ((1 - 1 / 2 ^ 53) * 100)"
    unfolding percent_def using ratio_bounds(1) [of k n] assms by (intro f64_mono mult_right_mono) (simp_all add: f64_nonneg)
  then show ?thesis using below_hundred by simp
qed

lemma percent_100_iff: "k \<le> n \<Longrightarrow> 0 < n \<Longrightarrow> n \<le> 2 ^ 53 \<Longrightarrow> percent k n = 100 \<longleftrightarrow> k = n"
  using percent_below [of k n] by (cases "k = n") auto

text \<open>The percentage is that of the exact quotient but for the two roundings.\<close>

lemma percent_error:
  assumes "k \<le> n" "0 < n" "n \<le> 2 ^ 53"
  shows "\<bar>percent k n - of_nat k / of_nat n * 100\<bar> \<le> 1 / 2 ^ 45"
proof -
  define q where "q = rat_of_nat k / of_nat n"
  have q: "0 \<le> q" "q \<le> 1" using assms by (simp_all add: q_def)
  have fq: "0 \<le> f64 q" "f64 q \<le> 1" using f64_nonneg q(1) f64_mono [OF q] by (simp_all add: f64_1_100)
  have p: "percent k n = f64 (f64 q * 100)" using assms by (simp add: percent_def f64_nat q_def)
  have "\<bar>f64 q - q\<bar> \<le> 2 powi (0 - 53)" using q by (intro f64_error) simp_all
  moreover have "\<bar>f64 (f64 q * 100) - f64 q * 100\<bar> \<le> 2 powi (6 - 53)" using fq by (intro f64_error) simp_all
  ultimately have "\<bar>f64 (f64 q * 100) - q * 100\<bar> \<le> 2 powi (6 - 53) + 100 * 2 powi (0 - 53)" by linarith
  also have "\<dots> \<le> (1 / 2 ^ 45 :: rat)" by (simp add: powi_numerals)
  finally show ?thesis by (simp add: p q_def)
qed

text \<open>29 of 50 are 58 percent, but not in \<open>float64\<close>: the program computes \<open>57.99999999999999\<close>.\<close>

lemma percent_29_50: "percent 29 50 = 58 - 1 / 2 ^ 47"
proof -
  let ?q = "5224175567749775 / 2 ^ 53 :: rat"
  have "f64 (29 / 50) = roundTo (-1 - 52) (29 / 50)" by (rule f64_binade) (simp_all add: powi_numerals)
  also have "\<dots> = of_int 5224175567749775 * 2 powi (-1 - 52)" by (rule roundTo_eqI) (simp_all add: powi_numerals)
  finally have q: "f64 (29 / 50) = ?q" by (simp add: powi_numerals)
  have "f64 (?q * 100) = roundTo (5 - 52) (?q * 100)" by (rule f64_binade) (simp_all add: powi_numerals)
  also have "\<dots> = of_int (58 * 2 ^ 47 - 1) * 2 powi (5 - 52)" by (rule roundTo_eqI) (simp_all add: powi_numerals)
  finally have v: "f64 (?q * 100) = of_int (58 * 2 ^ 47 - 1) * 2 powi (5 - 52)" .
  have n: "f64 (of_nat 29) = 29" "f64 (of_nat 50) = 50" using f64_nat [of 29] f64_nat [of 50] by simp_all
  show ?thesis unfolding percent_def n q v by (simp add: powi_numerals)
qed

end
