(* ===== verification/Stats.thy ===== *)
theory Stats
  imports Mutants Classify Float64 "HOL-Library.List_Lexorder" "HOL-Library.Char_ord" "HOL-Library.AList"
begin

text \<open>
  Counts, scores and thresholds of the report (\<open>internal/reporter/reporter.go\<close>) and the stored
  baseline (\<open>internal/baseline/baseline.go\<close>). Counters are natural numbers; scores are rationals
  that are computed as the program computes them, with the rounding of \<open>float64\<close> after every
  operation. Every site of the model has a file, so the tests for a missing file are left out.
\<close>

record ReportStats =
  rsKilled :: nat
  rsSurvived :: nat
  rsUntested :: nat
  rsTimeout :: nat
  rsCompileErrors :: nat
  rsRuntimeErrors :: nat
  rsTotalErrors :: nat
  rsInvalid :: nat
  rsTotal :: nat
  rsScore :: rat

definition CalculateScore :: "nat \<Rightarrow> nat \<Rightarrow> nat \<Rightarrow> nat \<Rightarrow> rat" where
  "CalculateScore killed survived untested timeout =
     (let denom = killed + survived + untested + timeout in
      if denom = 0 then 0 else f64 (f64 (f64 (of_nat killed) / f64 (of_nat denom)) * 100))"

definition ScoreClass :: "rat \<Rightarrow> rat \<Rightarrow> string" where
  "ScoreClass score threshold =
     (if threshold > 0 \<and> score < threshold then ''bad'' else if score < 80 then ''amber'' else ''good'')"

definition zeroStats :: ReportStats where
  "zeroStats = \<lparr>rsKilled = 0, rsSurvived = 0, rsUntested = 0, rsTimeout = 0, rsCompileErrors = 0,
     rsRuntimeErrors = 0, rsTotalErrors = 0, rsInvalid = 0, rsTotal = 0, rsScore = 0\<rparr>"

definition countMutant :: "ReportStats \<Rightarrow> Mutant \<Rightarrow> ReportStats" where
  "countMutant s m =
     (if mStatus m = StatusKilled then s\<lparr>rsKilled := Suc (rsKilled s)\<rparr>
      else if mStatus m = StatusSurvived then s\<lparr>rsSurvived := Suc (rsSurvived s)\<rparr>
      else if mStatus m = StatusUntested then s\<lparr>rsUntested := Suc (rsUntested s)\<rparr>
      else if mStatus m = StatusTimeout then s\<lparr>rsTimeout := Suc (rsTimeout s)\<rparr>
      else if mStatus m = StatusInvalid then s\<lparr>rsInvalid := Suc (rsInvalid s)\<rparr>
      else if mStatus m = StatusError then
        (if mKilledBy m = ''(compiler)'' then s\<lparr>rsCompileErrors := Suc (rsCompileErrors s)\<rparr>
         else s\<lparr>rsRuntimeErrors := Suc (rsRuntimeErrors s)\<rparr>)
      else s)"

definition finishStats :: "ReportStats \<Rightarrow> ReportStats" where
  "finishStats s = s\<lparr>rsTotalErrors := rsCompileErrors s + rsRuntimeErrors s,
     rsScore := CalculateScore (rsKilled s) (rsSurvived s) (rsUntested s) (rsTimeout s)\<rparr>"

definition StatsForFile :: "Mutant list \<Rightarrow> ReportStats" where
  "StatsForFile ms = finishStats (foldl countMutant zeroStats ms)"

definition computeStats :: "Mutant list \<Rightarrow> nat \<Rightarrow> ReportStats" where
  "computeStats ms totalMutants = finishStats (foldl countMutant (zeroStats\<lparr>rsTotal := totalMutants\<rparr>) ms)"

definition scored :: "ReportStats \<Rightarrow> nat" where
  "scored s = rsKilled s + rsSurvived s + rsUntested s + rsTimeout s"

subsection \<open>Thresholds of packages\<close>

record pkgCount =
  pcKilled :: nat
  pcSurvived :: nat
  pcUntested :: nat
  pcTimeout :: nat
  pcSample :: string

definition countPkg :: "pkgCount \<Rightarrow> Mutant \<Rightarrow> pkgCount" where
  "countPkg p m =
     (if mStatus m = StatusKilled then p\<lparr>pcKilled := Suc (pcKilled p)\<rparr>
      else if mStatus m = StatusSurvived then p\<lparr>pcSurvived := Suc (pcSurvived p)\<rparr>
      else if mStatus m = StatusUntested then p\<lparr>pcUntested := Suc (pcUntested p)\<rparr>
      else if mStatus m = StatusTimeout then p\<lparr>pcTimeout := Suc (pcTimeout p)\<rparr>
      else p)"

text \<open>The table of packages, in the order in which their directories are first met.\<close>

definition countInto :: "(string \<times> pkgCount) list \<Rightarrow> Mutant \<Rightarrow> (string \<times> pkgCount) list" where
  "countInto pkgs m =
     (let f = sFile (mSite m); d = Dir f;
          p = or_else \<lparr>pcKilled = 0, pcSurvived = 0, pcUntested = 0, pcTimeout = 0, pcSample = f\<rparr> (map_of pkgs d)
      in AList.update d (countPkg p m) pkgs)"

definition packageCounts :: "Mutant list \<Rightarrow> (string \<times> pkgCount) list" where
  "packageCounts ms = foldl countInto [] ms"

definition pkgFailure :: "string \<Rightarrow> rat \<Rightarrow> Resolver \<Rightarrow> string \<times> pkgCount \<Rightarrow> string option" where
  "pkgFailure cwd rootThreshold r = (\<lambda>(d, p).
     let denom = pcKilled p + pcSurvived p + pcUntested p + pcTimeout p in
     if denom = 0 then None
     else let score = f64 (f64 (f64 (of_nat (pcKilled p)) / f64 (of_nat denom)) * 100);
              threshold = EffectiveThreshold cwd r (pcSample p) rootThreshold in
       if threshold > 0 \<and> score < threshold then
         Some ('' '' @ d @ '': '' @ fmtFixed 2 score @ ''% (threshold '' @ fmtFixed 2 threshold @ ''%)'')
       else None)"

definition packageFailures :: "string \<Rightarrow> Mutant list \<Rightarrow> rat \<Rightarrow> Resolver \<Rightarrow> string list" where
  "packageFailures cwd ms rootThreshold r = List.map_filter (pkgFailure cwd rootThreshold r) (packageCounts ms)"

datatype (plugins only: size code) reportError = BaselineSaveFailed | BaselineLoadFailed | AutoSaveFailed
  | Regression rat rat rat | WriteFailed string | BelowThreshold rat rat | PackagesBelow nat

text \<open>The printed lines with the error.\<close>

definition checkPerPackageThresholds ::
  "string \<Rightarrow> Mutant list \<Rightarrow> rat \<Rightarrow> Resolver \<Rightarrow> string list \<times> reportError option" where
  "checkPerPackageThresholds cwd ms rootThreshold r =
     (let failures = packageFailures cwd ms rootThreshold r in
      if failures \<noteq> [] then ([newline # ''Packages below threshold:''] @ sort failures, Some (PackagesBelow (length failures)))
      else ([], None))"

definition thresholdStage ::
  "string \<Rightarrow> Mutant list \<Rightarrow> ReportStats \<Rightarrow> rat \<Rightarrow> Resolver option \<Rightarrow> string list \<times> reportError option" where
  "thresholdStage cwd ms stats threshold resolver =
     (if threshold > 0 \<and> scored stats > 0 \<and> rsScore stats < threshold then
        (case resolver of
           Some r \<Rightarrow> if HasAnyOverrides r then checkPerPackageThresholds cwd ms threshold r
                     else ([], Some (BelowThreshold (rsScore stats) threshold))
         | None \<Rightarrow> ([], Some (BelowThreshold (rsScore stats) threshold)))
      else ([], None))"

subsection \<open>The stored baseline\<close>

record BaselineData =
  blScore :: rat
  blKilled :: nat
  blSurvived :: nat
  blUntested :: nat
  blTotal :: nat
  blTimestamp :: string

definition DefaultBaselineFile :: string where "DefaultBaselineFile = ''.gorgon-baseline.json''"

definition resolvePath :: "string \<Rightarrow> string \<Rightarrow> string" where
  "resolvePath d f =
     (if f \<noteq> '''' then (if IsAbs f then f else PathJoin [d, f]) else PathJoin [d, DefaultBaselineFile])"

text \<open>
  The files that hold baselines; \<open>Some None\<close> is a file that cannot be read as one. \<open>BaselineIO\<close>
  says which directories can be made, which files written and which renamed, and the time.
\<close>

type_synonym baselines = "string \<rightharpoonup> BaselineData option"

record BaselineIO =
  bioMkdir :: "string \<Rightarrow> bool"
  bioWrite :: "string \<Rightarrow> bool"
  bioRename :: "string \<Rightarrow> bool"
  bioNow :: string

definition LoadBaseline :: "baselines \<Rightarrow> string \<Rightarrow> string \<Rightarrow> BaselineData option option" where
  "LoadBaseline files d f = files (resolvePath d f)"

text \<open>
  The states of the files while a baseline is saved, the first to the last; the error flag
  belongs to the last. A write goes through a state in which the file is not complete.
\<close>

definition saveStates ::
  "BaselineIO \<Rightarrow> string \<Rightarrow> string \<Rightarrow> BaselineData \<Rightarrow> baselines \<Rightarrow> baselines list \<times> bool" where
  "saveStates io d f b files =
     (let b = (if blTimestamp b = '''' then b\<lparr>blTimestamp := bioNow io\<rparr> else b);
          path = resolvePath d f; tmp = path @ ''.tmp''
      in if \<not> bioMkdir io (Dir path) then ([files], False)
         else if \<not> bioWrite io tmp then ([files, files(tmp \<mapsto> None)], False)
         else let written = files(tmp \<mapsto> Some b) in
           if \<not> bioRename io path then ([files, files(tmp \<mapsto> None), written], False)
           else ([files, files(tmp \<mapsto> None), written, (written(path \<mapsto> Some b))(tmp := None)], True))"

definition SaveBaseline ::
  "BaselineIO \<Rightarrow> string \<Rightarrow> string \<Rightarrow> BaselineData \<Rightarrow> baselines \<Rightarrow> baselines \<times> bool" where
  "SaveBaseline io d f b files = (case saveStates io d f b files of (sts, ok) \<Rightarrow> (last sts, ok))"

definition CheckRegression :: "BaselineData \<Rightarrow> BaselineData \<Rightarrow> rat \<Rightarrow> reportError option" where
  "CheckRegression current base tolerance =
     (if f64 (blScore current + tolerance) < blScore base
      then Some (Regression (blScore current) (blScore base) tolerance) else None)"

record BaselineOptions =
  boSave :: bool
  boNoRegression :: bool
  boTolerance :: rat
  boDir :: string
  boFile :: string
  boMultiOutputs :: "string list"

definition baselineOf :: "ReportStats \<Rightarrow> nat \<Rightarrow> BaselineData" where
  "baselineOf s totalMutants = \<lparr>blScore = rsScore s, blKilled = rsKilled s, blSurvived = rsSurvived s,
     blUntested = rsUntested s, blTotal = totalMutants, blTimestamp = ''''\<rparr>"

definition regressionStage ::
  "BaselineIO \<Rightarrow> BaselineOptions \<Rightarrow> BaselineData \<Rightarrow> baselines \<Rightarrow> baselines \<times> reportError option" where
  "regressionStage io opts current files =
     (if \<not> boNoRegression opts then (files, None)
      else case LoadBaseline files (boDir opts) (boFile opts) of
        None \<Rightarrow> (case SaveBaseline io (boDir opts) (boFile opts) current files of
            (files', ok) \<Rightarrow> (files', if ok then None else Some AutoSaveFailed))
      | Some None \<Rightarrow> (files, Some BaselineLoadFailed)
      | Some (Some stored) \<Rightarrow> (files, CheckRegression current stored (boTolerance opts)))"

definition baselineStage ::
  "BaselineIO \<Rightarrow> BaselineOptions \<Rightarrow> BaselineData \<Rightarrow> baselines \<Rightarrow> baselines \<times> reportError option" where
  "baselineStage io opts current files =
     (if boSave opts then
        (case SaveBaseline io (boDir opts) (boFile opts) current files of
           (files', ok) \<Rightarrow> if ok then regressionStage io opts current files' else (files', Some BaselineSaveFailed))
      else regressionStage io opts current files)"

subsection \<open>Counts\<close>

lemmas status_names = StatusKilled_def StatusSurvived_def StatusUntested_def StatusInvalid_def
  StatusTimeout_def StatusError_def

definition known :: "Mutant \<Rightarrow> bool" where
  "known m \<longleftrightarrow> mStatus m \<in> {StatusKilled, StatusSurvived, StatusUntested, StatusTimeout, StatusInvalid, StatusError}"

definition withStatus :: "string \<Rightarrow> Mutant list \<Rightarrow> nat" where
  "withStatus s ms = length (filter (\<lambda>m. mStatus m = s) ms)"

definition scoredOf :: "Mutant list \<Rightarrow> nat" where
  "scoredOf ms = withStatus StatusKilled ms + withStatus StatusSurvived ms + withStatus StatusUntested ms +
     withStatus StatusTimeout ms"

definition counts :: "ReportStats \<Rightarrow> nat" where
  "counts s = scored s + rsInvalid s + rsCompileErrors s + rsRuntimeErrors s"

lemma counted_statuses:
  "rsKilled (foldl countMutant s ms) = rsKilled s + withStatus StatusKilled ms"
  "rsSurvived (foldl countMutant s ms) = rsSurvived s + withStatus StatusSurvived ms"
  "rsUntested (foldl countMutant s ms) = rsUntested s + withStatus StatusUntested ms"
  "rsTimeout (foldl countMutant s ms) = rsTimeout s + withStatus StatusTimeout ms"
  "rsInvalid (foldl countMutant s ms) = rsInvalid s + withStatus StatusInvalid ms"
  "rsTotal (foldl countMutant s ms) = rsTotal s"
  by (induction ms arbitrary: s) (auto simp: countMutant_def withStatus_def status_names)

lemma counted_errors:
  "rsCompileErrors (foldl countMutant s ms) + rsRuntimeErrors (foldl countMutant s ms) =
     rsCompileErrors s + rsRuntimeErrors s + withStatus StatusError ms"
  by (induction ms arbitrary: s) (auto simp: countMutant_def withStatus_def status_names)

lemma withStatus_Cons: "withStatus s (m # ms) = (if mStatus m = s then 1 else 0) + withStatus s ms"
  by (simp add: withStatus_def)

lemma known_counted:
  "list_all known ms \<Longrightarrow> length ms = withStatus StatusKilled ms + withStatus StatusSurvived ms + withStatus StatusUntested ms +
     withStatus StatusTimeout ms + withStatus StatusInvalid ms + withStatus StatusError ms"
proof (induction ms)
  case (Cons m ms)
  then have "known m" by simp
  then have "(if mStatus m = StatusKilled then 1 else 0) + (if mStatus m = StatusSurvived then 1 else 0) +
      (if mStatus m = StatusUntested then 1 else 0) + (if mStatus m = StatusTimeout then 1 else 0) +
      (if mStatus m = StatusInvalid then 1 else 0) + (if mStatus m = StatusError then 1 else (0::nat)) = 1"
    by (auto simp: known_def status_names)
  with Cons show ?case by (simp add: withStatus_Cons)
qed (simp add: withStatus_def)

lemma CalculateScore_percent: "CalculateScore k s u t = percent k (k + s + u + t)"
  by (simp add: CalculateScore_def percent_def Let_def)

text \<open>
  C38. The report's counts add up: every mutant with one of the six statuses is counted once
  and the total is the one given. The score lies between 0 and 100 and is 0 when there is nothing
  to score. When killed, survived, untested or timed out mutants are there, and at most
  \<open>2 ^ 53\<close> mutants in all, the score differs from the share of the killed among them by no more
  than the rounding of \<open>float64\<close>, here \<open>2 ^ -45\<close>, and it is 100 exactly when none of them
  survived, was left untested or timed out.
\<close>

theorem report_counts_add_up:
  fixes ms t
  defines "s \<equiv> computeStats ms t"
  assumes "list_all known ms" "length ms \<le> 2 ^ 53"
  shows "scored s + rsInvalid s + rsTotalErrors s = length ms \<and> rsTotal s = t \<and>
     scored s = scoredOf ms \<and> 0 \<le> rsScore s \<and> rsScore s \<le> 100 \<and> (scored s = 0 \<longrightarrow> rsScore s = 0) \<and>
     (scored s > 0 \<longrightarrow>
        \<bar>rsScore s - of_nat (withStatus StatusKilled ms) / of_nat (scored s) * 100\<bar> \<le> 1 / 2 ^ 45 \<and>
        (rsScore s = 100 \<longleftrightarrow> rsSurvived s = 0 \<and> rsUntested s = 0 \<and> rsTimeout s = 0))"
proof -
  define c where "c = foldl countMutant (zeroStats\<lparr>rsTotal := t\<rparr>) ms"
  have s: "s = finishStats c" by (simp add: s_def computeStats_def c_def)
  have f: "scored s = scored c" "rsInvalid s = rsInvalid c" "rsTotalErrors s = rsCompileErrors c + rsRuntimeErrors c"
    "rsTotal s = t" "rsKilled s = withStatus StatusKilled ms" "scored s = scoredOf ms"
    by (simp_all add: s scored_def scoredOf_def finishStats_def c_def counted_statuses zeroStats_def)
  have len: "scored s + rsInvalid s + rsTotalErrors s = length ms"
    using known_counted [OF assms(2)] counted_errors [of "zeroStats\<lparr>rsTotal := t\<rparr>" ms]
    by (simp add: f(1-5), simp add: scored_def c_def counted_statuses zeroStats_def)
  have score: "rsScore s = percent (rsKilled s) (scored s)"
    by (simp add: s finishStats_def CalculateScore_percent scored_def)
  have le: "rsKilled s \<le> scored s" "scored s \<le> 2 ^ 53"
    using len assms(3) by (simp_all add: scored_def)
  have full: "rsKilled s = scored s \<longleftrightarrow> rsSurvived s = 0 \<and> rsUntested s = 0 \<and> rsTimeout s = 0"
    by (auto simp: scored_def)
  have none: "scored s = 0 \<Longrightarrow> rsScore s = 0" using le(1) by (simp add: score)
  show ?thesis
    using len f(4) f(6) percent_bounds [OF le(1)] none percent_error [OF le(1)] percent_100_iff [OF le(1)] le(2) full
    by (simp add: score f(5))
qed

text \<open>
  A score that is at the threshold as a share can be below it as \<open>float64\<close>: 29 killed of 50 fail
  a threshold of 58 percent, with the message that \<open>58.00\<close> is below \<open>58.00\<close>.
\<close>

lemma fifty_eight_percent_missed:
  assumes "withStatus StatusKilled ms = 29" "withStatus StatusSurvived ms = 21"
    "withStatus StatusUntested ms = 0" "withStatus StatusTimeout ms = 0"
  shows "thresholdStage cwd ms (computeStats ms t) 58 None = ([], Some (BelowThreshold (58 - 1 / 2 ^ 47) 58))"
proof -
  have "scored (computeStats ms t) = 50" "rsScore (computeStats ms t) = percent 29 50"
    by (simp_all add: computeStats_def finishStats_def scored_def counted_statuses zeroStats_def assms CalculateScore_percent)
  then show ?thesis by (simp add: thresholdStage_def percent_29_50)
qed

lemma fifty_eight_printed: "fmtFixed 2 (58 - 1 / 2 ^ 47) = ''58.00''"
proof -
  have "round_even ((58 - 1 / 2 ^ 47) * 10 ^ 2) = 5800" by (rule round_even_eqI) simp_all
  moreover have "Itoa 58 = ''58''" "Itoa 0 = ''0''" by code_simp+
  ultimately show ?thesis by (simp add: fmtFixed_def Let_def padZeros_def)
qed

subsection \<open>Packages below their threshold\<close>

definition inDir :: "string \<Rightarrow> Mutant list \<Rightarrow> Mutant list" where
  "inDir d ms = filter (\<lambda>m. Dir (sFile (mSite m)) = d) ms"

definition countsOf :: "string \<Rightarrow> Mutant list \<Rightarrow> pkgCount" where
  "countsOf sample ms = \<lparr>pcKilled = withStatus StatusKilled ms, pcSurvived = withStatus StatusSurvived ms,
     pcUntested = withStatus StatusUntested ms, pcTimeout = withStatus StatusTimeout ms, pcSample = sample\<rparr>"

lemma countPkg_snoc: "countPkg (countsOf s ms) m = countsOf s (ms @ [m])"
  by (simp add: countPkg_def countsOf_def withStatus_def status_names)

lemma inDir_snoc: "inDir d (ms @ [m]) = (if Dir (sFile (mSite m)) = d then inDir d ms @ [m] else inDir d ms)"
  by (simp add: inDir_def)

text \<open>The table of packages is the grouping by directory, with the first file as sample.\<close>

lemma packageCounts_exact:
  "map_of (packageCounts ms) d =
     (if inDir d ms = [] then None else Some (countsOf (sFile (mSite (hd (inDir d ms)))) (inDir d ms)))"
proof (induction ms arbitrary: d rule: rev_induct)
  case Nil
  then show ?case by (simp add: packageCounts_def inDir_def)
next
  case (snoc m ms)
  have step: "packageCounts (ms @ [m]) = countInto (packageCounts ms) m" by (simp add: packageCounts_def)
  have new: "\<lparr>pcKilled = 0, pcSurvived = 0, pcUntested = 0, pcTimeout = 0, pcSample = f\<rparr> = countsOf f []" for f
    by (simp add: countsOf_def withStatus_def)
  show ?case
    unfolding step countInto_def Let_def inDir_snoc new
    by (cases "inDir (Dir (sFile (mSite m))) ms = []") (auto simp: update_conv' snoc.IH countPkg_snoc [of _ "[]", simplified] countPkg_snoc)
qed

lemma packageCounts_dirs:
  "distinct (map fst (packageCounts ms)) \<and> fst ` set (packageCounts ms) = (\<lambda>m. Dir (sFile (mSite m))) ` set ms"
proof (induction ms rule: rev_induct)
  case (snoc m ms)
  have step: "packageCounts (ms @ [m]) = countInto (packageCounts ms) m" by (simp add: packageCounts_def)
  from snoc.IH show ?case
    unfolding step countInto_def Let_def by (simp add: distinct_update dom_update)
qed (simp add: packageCounts_def)

text \<open>A package passes when it has nothing to score, no threshold, or a score at its threshold.\<close>

definition scoreOf :: "Mutant list \<Rightarrow> rat" where
  "scoreOf ms = CalculateScore (withStatus StatusKilled ms) (withStatus StatusSurvived ms)
     (withStatus StatusUntested ms) (withStatus StatusTimeout ms)"

definition fallsShort :: "string \<Rightarrow> Mutant list \<Rightarrow> rat \<Rightarrow> Resolver \<Rightarrow> string \<Rightarrow> bool" where
  "fallsShort cwd ms rootThreshold r d \<longleftrightarrow>
     (let here = inDir d ms; t = EffectiveThreshold cwd r (sFile (mSite (hd here))) rootThreshold
      in scoredOf here > 0 \<and> t > 0 \<and> scoreOf here < t)"

lemma pkgFailure_iff:
  assumes "d \<in> (\<lambda>m. Dir (sFile (mSite m))) ` set ms"
  shows "pkgFailure cwd rt r (d, the (map_of (packageCounts ms) d)) \<noteq> None \<longleftrightarrow> fallsShort cwd ms rt r d"
proof -
  have "inDir d ms \<noteq> []" using assms by (auto simp: inDir_def filter_empty_conv)
  then show ?thesis
    by (simp add: packageCounts_exact pkgFailure_def fallsShort_def Let_def countsOf_def scoreOf_def scoredOf_def
          CalculateScore_def)
qed

lemma length_map_filter: "length (List.map_filter f xs) = length (filter (\<lambda>x. f x \<noteq> None) xs)"
  by (induction xs) (auto simp: List.map_filter_simps split: option.split)

lemma failing_count:
  "length (packageFailures cwd ms rt r) =
     card {d \<in> (\<lambda>m. Dir (sFile (mSite m))) ` set ms. fallsShort cwd ms rt r d}"
proof -
  let ?P = "packageCounts ms" and ?f = "\<lambda>x. pkgFailure cwd rt r x \<noteq> None"
  have dist: "distinct (map fst ?P)" and dirs: "fst ` set ?P = (\<lambda>m. Dir (sFile (mSite m))) ` set ms"
    using packageCounts_dirs by auto
  have val: "the (map_of ?P (fst x)) = snd x" if "x \<in> set ?P" for x
    using map_of_is_SomeI [OF dist, of "fst x" "snd x"] that by simp
  have "fst ` set (filter ?f ?P) = {d \<in> fst ` set ?P. fallsShort cwd ms rt r d}"
  proof (intro set_eqI iffI)
    fix d assume "d \<in> fst ` set (filter ?f ?P)"
    then obtain x where x: "x \<in> set ?P" "?f x" "d = fst x" by auto
    then have "d \<in> (\<lambda>m. Dir (sFile (mSite m))) ` set ms" using dirs by blast
    with x val [OF x(1)] pkgFailure_iff [of d ms cwd rt r] show "d \<in> {d \<in> fst ` set ?P. fallsShort cwd ms rt r d}" by auto
  next
    fix d assume d: "d \<in> {d \<in> fst ` set ?P. fallsShort cwd ms rt r d}"
    then obtain x where x: "x \<in> set ?P" "d = fst x" by auto
    have "d \<in> (\<lambda>m. Dir (sFile (mSite m))) ` set ms" using d dirs by blast
    with x d val [OF x(1)] pkgFailure_iff [of d ms cwd rt r] have "?f x" by auto
    with x show "d \<in> fst ` set (filter ?f ?P)" by auto
  qed
  moreover have "distinct ?P" "inj_on fst (set ?P)" using dist by (simp_all add: distinct_map)
  then have "length (filter ?f ?P) = card (fst ` set (filter ?f ?P))"
    by (metis card_image distinct_card distinct_filter filter_is_subset inj_on_subset)
  ultimately show ?thesis using dirs by (simp add: packageFailures_def length_map_filter)
qed

text \<open>
  C37. The check of the package thresholds is exact: it fails with the number of the
  directories whose mutants score below the threshold in force there, and passes when there is
  none; the directories and their counts are those of the mutants. The scores are those of
  \<open>float64\<close>, so a package may fail by the rounding alone (\<open>fifty_eight_percent_missed\<close>).
\<close>

theorem package_thresholds_exact:
  "snd (checkPerPackageThresholds cwd ms rootThreshold r) =
     (let bad = {d \<in> (\<lambda>m. Dir (sFile (mSite m))) ` set ms. fallsShort cwd ms rootThreshold r d}
      in if bad = {} then None else Some (PackagesBelow (card bad)))"
proof -
  let ?bad = "{d \<in> (\<lambda>m. Dir (sFile (mSite m))) ` set ms. fallsShort cwd ms rootThreshold r d}"
  have "finite ?bad" by simp
  then have "packageFailures cwd ms rootThreshold r = [] \<longleftrightarrow> ?bad = {}"
    using failing_count [of cwd ms rootThreshold r] by (metis (no_types, lifting) card_0_eq length_0_conv)
  then show ?thesis using failing_count [of cwd ms rootThreshold r]
    by (simp add: checkPerPackageThresholds_def Let_def)
qed

subsection \<open>Properties of the baseline\<close>

lemma tmp_differs [simp]: "p @ ''.tmp'' \<noteq> p" "p \<noteq> p @ ''.tmp''"
  by simp_all

definition stamped :: "BaselineIO \<Rightarrow> BaselineData \<Rightarrow> BaselineData" where
  "stamped io b = (if blTimestamp b = '''' then b\<lparr>blTimestamp := bioNow io\<rparr> else b)"

text \<open>
  Saving a baseline is atomic: in every state on the way, so after an interruption at any
  point and after every error, the file of the baseline holds the old content or the complete
  new one; it is the new one at the end exactly if no error is reported.
\<close>

theorem baseline_save_atomic:
  fixes io d f b files
  defines "path \<equiv> resolvePath d f"
  shows "case saveStates io d f b files of (sts, ok) \<Rightarrow>
     sts \<noteq> [] \<and> list_all (\<lambda>st. st path = files path \<or> st path = Some (Some (stamped io b))) sts \<and>
     last sts path = (if ok then Some (Some (stamped io b)) else files path)"
  by (simp add: saveStates_def Let_def path_def stamped_def)

lemma SaveBaseline_path:
  "SaveBaseline io d f b files = (files', ok) \<Longrightarrow>
     files' (resolvePath d f) = (if ok then Some (Some (stamped io b)) else files (resolvePath d f))"
  by (auto simp: SaveBaseline_def saveStates_def Let_def stamped_def split: if_splits)

text \<open>A sequence of reports on the same options, with their data and whether they pass.\<close>

inductive reports ::
  "BaselineIO \<Rightarrow> BaselineOptions \<Rightarrow> baselines \<Rightarrow> (BaselineData \<times> bool) list \<Rightarrow> baselines \<Rightarrow> bool" for io opts files where
  reports_none: "reports io opts files [] files"
| reports_next: "\<lbrakk>reports io opts files rs files1; baselineStage io opts current files1 = (files2, err)\<rbrakk> \<Longrightarrow>
     reports io opts files (rs @ [(current, err = None)]) files2"

text \<open>
  C39. The regression check holds the first baseline: along any sequence of reports that check
  against a stored baseline and do not save one, the stored files never change, also after
  better scores, and a report passes exactly if its score is within the tolerance of the
  baseline, their sum taken in \<open>float64\<close>.
\<close>

theorem baseline_is_kept:
  assumes "reports io opts files rs files'" "\<not> boSave opts" "boNoRegression opts"
    and "files (resolvePath (boDir opts) (boFile opts)) = Some (Some base)"
  shows "files' = files \<and> list_all (\<lambda>(current, ok). ok \<longleftrightarrow> blScore base \<le> f64 (blScore current + boTolerance opts)) rs"
  using assms(1)
proof induction
  case (reports_next rs files1 current files2 err)
  then show ?case
    using assms(2-4) by (auto simp: baselineStage_def regressionStage_def LoadBaseline_def CheckRegression_def split: if_splits)
qed simp

text \<open>Rounding never turns a score within the tolerance into a regression.\<close>

lemma within_tolerance_passes:
  assumes "f64 (blScore base) = blScore base" "0 \<le> blScore base" "blScore base \<le> blScore current + tolerance"
  shows "CheckRegression current base tolerance = None"
  using f64_at_least [OF assms] by (simp add: CheckRegression_def)

lemma score_is_float64: "f64 (rsScore (computeStats ms t)) = rsScore (computeStats ms t)"
  by (simp add: computeStats_def finishStats_def CalculateScore_percent)

text \<open>
  Saving and checking in one run never finds a regression: the baseline is overwritten
  before the score is compared with it.
\<close>

theorem save_defeats_regression_check:
  assumes "boSave opts" "0 \<le> boTolerance opts" "f64 (blScore current) = blScore current" "0 \<le> blScore current"
  shows "snd (baselineStage io opts current files) \<in> {None, Some BaselineSaveFailed}"
proof -
  obtain files' ok where s: "SaveBaseline io (boDir opts) (boFile opts) current files = (files', ok)" by fastforce
  have "blScore (stamped io current) = blScore current" by (simp add: stamped_def)
  moreover have "CheckRegression current (stamped io current) (boTolerance opts) = None"
    using assms calculation by (intro within_tolerance_passes) simp_all
  ultimately show ?thesis
    using assms(1) SaveBaseline_path [OF s] s
    by (auto simp: baselineStage_def regressionStage_def LoadBaseline_def)
qed

definition demoIO :: BaselineIO where
  "demoIO = \<lparr>bioMkdir = (\<lambda>p. True), bioWrite = (\<lambda>p. True), bioRename = (\<lambda>p. True), bioNow = ''now''\<rparr>"

definition demoData :: "rat \<Rightarrow> BaselineData" where
  "demoData s = \<lparr>blScore = s, blKilled = 0, blSurvived = 0, blUntested = 0, blTotal = 0, blTimestamp = ''t''\<rparr>"

definition demoOptions :: "bool \<Rightarrow> BaselineOptions" where
  "demoOptions save = \<lparr>boSave = save, boNoRegression = True, boTolerance = 1, boDir = ''/p'', boFile = ''b.json'', boMultiOutputs = []\<rparr>"

lemma demo_path: "resolvePath ''/p'' ''b.json'' = ''/p/b.json''"
  by code_simp

theorem baseline_is_kept_witness:
  "\<exists>files'. reports demoIO (demoOptions False) [''/p/b.json'' \<mapsto> Some (demoData 80)]
       [(demoData 95, True), (demoData 78, False)] files' \<and> files' = [''/p/b.json'' \<mapsto> Some (demoData 80)]"
proof -
  let ?files = "[''/p/b.json'' \<mapsto> Some (demoData 80)]"
  have step: "baselineStage demoIO (demoOptions False) (demoData 95) ?files = (?files, None)"
    "baselineStage demoIO (demoOptions False) (demoData 78) ?files = (?files, Some (Regression 78 80 1))"
    using f64_nat [of 96] f64_nat [of 79]
    by (simp_all add: baselineStage_def regressionStage_def demoOptions_def LoadBaseline_def demo_path CheckRegression_def demoData_def)
  have r: "reports demoIO (demoOptions False) ?files [(demoData 95, True), (demoData 78, False)] ?files"
    using reports_next [OF reports_next [OF reports_none step(1)] step(2)] by simp
  from baseline_is_kept [OF r, of "demoData 80"] r show ?thesis
    by (auto simp: demoOptions_def demo_path)
qed

theorem save_defeats_regression_check_witness:
  "snd (baselineStage demoIO (demoOptions True) (demoData 10) [''/p/b.json'' \<mapsto> Some (demoData 80)]) \<in> {None, Some BaselineSaveFailed}"
  using f64_nat [of 10] by (intro save_defeats_regression_check) (simp_all add: demoOptions_def demoData_def)

theorem report_counts_add_up_witness:
  "let s = computeStats [sampleMutant 1 ''a.go'' ''killed''] 1 in scored s + rsInvalid s + rsTotalErrors s = 1"
  using report_counts_add_up [of "[sampleMutant 1 ''a.go'' ''killed'']" 1]
  by (simp add: known_def StatusKilled_def Let_def)

text \<open>The packages are looked at only when the total score is below the threshold of the root.\<close>

lemma passing_total_hides_packages:
  "threshold \<le> 0 \<or> threshold \<le> rsScore stats \<Longrightarrow> thresholdStage cwd ms stats threshold resolver = ([], None)"
  by (auto simp: thresholdStage_def)

end
