(* ===== verification/ReportText.thy ===== *)
theory ReportText
  imports Stats
begin

text \<open>
  The text report: \<open>textfile.go\<close> and the formatting functions of \<open>reporter.go\<close> under
  \<open>internal/reporter\<close>. A table of counts that the source keeps in a Go map and ranges over is
  a list in the order in which its keys were met; characters are bytes, so widths are counted
  in bytes. The table is laid out as \<open>text/tabwriter\<close> does for lines with equally many cells.
\<close>

subsection \<open>Tables of counts\<close>

definition bump :: "('a \<Rightarrow> bool) \<Rightarrow> ('a \<Rightarrow> string) \<Rightarrow> (string \<times> nat) list \<Rightarrow> 'a \<Rightarrow> (string \<times> nat) list" where
  "bump P key t x = (if P x then AList.update (key x) (Suc (or_else 0 (map_of t (key x)))) t else t)"

definition tally :: "('a \<Rightarrow> bool) \<Rightarrow> ('a \<Rightarrow> string) \<Rightarrow> 'a list \<Rightarrow> (string \<times> nat) list" where
  "tally P key xs = foldl (bump P key) [] xs"

definition padRight :: "nat \<Rightarrow> string \<Rightarrow> string" where
  "padRight k s = s @ replicate (k - length s) (CHR '' '')"

definition natText :: "nat \<Rightarrow> string" where
  "natText n = Itoa (int n)"

definition killing :: "Mutant \<Rightarrow> bool" where
  "killing m \<longleftrightarrow> mStatus m = StatusKilled \<and> mKilledBy m \<noteq> ''''"

definition topKills :: "Mutant list \<Rightarrow> (string \<times> nat) list" where
  "topKills ms = sort_key (\<lambda>(_, c). - int c) (tally killing mKilledBy ms)"

definition FormatTopKillingTests :: "Mutant list \<Rightarrow> nat \<Rightarrow> string" where
  "FormatTopKillingTests ms maxShow =
     (if topKills ms = [] then ''''
      else ''Top Killing Tests:'' @ [newline] @ concat (map (\<lambda>(name, c).
        ''  '' @ padRight 50 name @ '' '' @ natText c @ '' kills'' @ [newline]) (take maxShow (topKills ms))))"

subsection \<open>Compiler errors\<close>

definition compilePrefix :: string where "compilePrefix = ''compilation failed: ''"

definition uniqueMessages :: "Mutant \<Rightarrow> string list" where
  "uniqueMessages m = (case mError m of
     None \<Rightarrow> []
   | Some err \<Rightarrow>
       if mStatus m = StatusError then
         UniqueErrorLines (if length compilePrefix < length err \<and> HasPrefix err compilePrefix
           then drop (length compilePrefix) err else err) ''# ''
       else [])"

definition extractUniqueCompilerErrors :: "Mutant list \<Rightarrow> string list" where
  "extractUniqueCompilerErrors ms =
     foldl (\<lambda>unique msg. if msg \<in> set unique then unique else unique @ [msg]) [] (concat (map uniqueMessages ms))"

fun afterPrefix :: "string list \<Rightarrow> string \<Rightarrow> string" where
  "afterPrefix [] s = s"
| "afterPrefix (p # ps) s = (if HasPrefix s p then drop (length p) s else afterPrefix ps s)"

definition extractCompilerOutput :: "string \<Rightarrow> string" where
  "extractCompilerOutput errMsg = afterPrefix
     [''compilation failed (mutation detected):'' @ [newline],
      ''compilation failed in package:'' @ [newline],
      ''compilation failed (unparseable errors):'' @ [newline],
      ''compilation failed in package (see compiler output)'' @ [newline],
      compilePrefix] errMsg"

definition errorLines :: "Mutant \<Rightarrow> string list" where
  "errorLines m = (case mError m of
     None \<Rightarrow> []
   | Some err \<Rightarrow>
       if mStatus m \<noteq> StatusError then []
       else let out = extractCompilerOutput err; ces = ParseCompilerErrors out in
         if ces \<noteq> [] then map (\<lambda>ce. Base (ceFile ce) @ '':'' @ Itoa (ceLine ce) @ '':'' @ Itoa (ceCol ce) @ '': '' @ ceMessage ce) ces
         else filter (\<lambda>l. \<not> (l = '''' \<or> HasPrefix l ''# '' \<or> HasPrefix l ''compilation failed''))
                (map TrimSpace (Split out newline)))"

text \<open>The loop that prints every line once and stops after \<open>maxLines\<close> of them; 0 is no bound.\<close>

fun showLines :: "nat \<Rightarrow> (string \<times> string) list \<Rightarrow> string list \<Rightarrow> nat \<Rightarrow> string \<Rightarrow> string \<times> nat" where
  "showLines maxLines [] seen shown out = (out, shown)"
| "showLines maxLines ((op, l) # ls) seen shown out =
     (if l \<in> set seen then showLines maxLines ls seen shown out
      else if 0 < maxLines \<and> maxLines < Suc shown then (out, Suc shown)
      else showLines maxLines ls (l # seen) (Suc shown) (out @ ''  ('' @ op @ '') '' @ l @ [newline]))"

definition writePerMutantErrors :: "Mutant list \<Rightarrow> nat \<Rightarrow> string \<times> nat" where
  "writePerMutantErrors ms maxLines =
     showLines maxLines (concat (map (\<lambda>m. map (Pair (OpName (mOperator m))) (errorLines m)) ms)) [] 0 ''''"

subsection \<open>Debug information\<close>

definition bullet :: string where "bullet = [CHR 0xE2, CHR 0x80, CHR 0xA2]"

definition textLine :: "string \<Rightarrow> string" where
  "textLine s = s @ [newline]"

definition topErrorTypes :: "Mutant list \<Rightarrow> string" where
  "topErrorTypes ms =
     (let unique = extractUniqueCompilerErrors ms; n = length unique in
      if unique = [] then ''''
      else [newline] @ textLine (''Top Compilation Error Types (showing up to 20 of '' @ natText n @ '' unique error messages):'') @
        concat (map (\<lambda>msg. textLine (''  '' @ bullet @ '' '' @ msg)) (take 20 unique)) @
        (if 20 < n then textLine (''  ... and '' @ natText (n - 20) @ '' more unique error types'') else ''''))"

definition operatorOf :: "Mutant \<Rightarrow> string" where
  "operatorOf m = OpName (mOperator m)"

definition shareLines :: "string \<Rightarrow> (string \<times> nat) list \<Rightarrow> (string \<times> nat) list \<Rightarrow> string" where
  "shareLines what part totals = concat (map (\<lambda>(op, n).
     let t = or_else 0 (map_of totals op) in
     textLine (''  '' @ padRight 35 op @ '' '' @ natText n @ ''/'' @ natText t @ '' '' @ what @ '' ('' @
       fmtFixed 1 (f64 (f64 (f64 (of_nat n) / f64 (of_nat (if t = 0 then 1 else t))) * 100)) @ ''%)'')) part)"

definition FormatDebugErrors :: "Mutant list \<Rightarrow> ReportStats \<Rightarrow> string" where
  "FormatDebugErrors ms stats =
     (let opTotal = tally (\<lambda>m. True) operatorOf ms;
          opErrors = tally (\<lambda>m. mStatus m = StatusError) operatorOf ms;
          opUntested = tally (\<lambda>m. mStatus m = StatusUntested) operatorOf ms
      in (if 0 < rsTotalErrors stats then
            [newline] @ textLine ''Error Summary by Operator:'' @ shareLines ''errors'' opErrors opTotal @
            topErrorTypes ms @ [newline] @ textLine ''Error Count by Operator:'' @
            concat (map (\<lambda>(op, n). textLine (''  '' @ op @ '': '' @ natText n @ '' errors'')) opErrors) @ [newline]
          else '''') @
         (if 0 < rsUntested stats then
            [newline] @ textLine ''Untested by Operator (binary missing - package failed to compile):'' @
            shareLines ''untested'' opUntested opTotal @ [newline]
          else ''''))"

text \<open>What is appended to the debug file.\<close>

definition writeDebugInfo :: "Mutant list \<Rightarrow> ReportStats \<Rightarrow> string" where
  "writeDebugInfo ms stats =
     textLine (''Mutation Score: '' @ fmtFixed 2 (rsScore stats) @ ''%'') @
     textLine (''Killed: '' @ natText (rsKilled stats)) @ textLine (''Survived: '' @ natText (rsSurvived stats)) @
     textLine (''Compile Errors: '' @ natText (rsCompileErrors stats)) @
     textLine (''Runtime Errors: '' @ natText (rsRuntimeErrors stats)) @ textLine (''Timeouts: '' @ natText (rsTimeout stats)) @
     textLine (''Untested: '' @ natText (rsUntested stats)) @ textLine (''Invalid: '' @ natText (rsInvalid stats)) @
     textLine (''Total: '' @ natText (rsTotal stats)) @ [newline] @
     (if 0 < rsTotalErrors stats \<or> 0 < rsUntested stats then
        (case writePerMutantErrors ms 0 of (txt, shown) \<Rightarrow>
           FormatDebugErrors ms stats @ topErrorTypes ms @
           [newline] @ textLine ''Per-Mutant Compilation Errors (unlimited):'' @ txt @
           (if 0 < shown then textLine (''  (total: '' @ natText shown @ '' error lines)'')
            else textLine ''  (no detailed errors available)'') @ [newline])
      else '''') @
     (if 0 < rsKilled stats then textLine (FormatTopKillingTests ms 10) else '''')"

subsection \<open>Columns\<close>

definition tabWidth :: nat where "tabWidth = 4"

text \<open>The text from the start of a line; the whole text when there is no such line.\<close>

fun findLine :: "string \<Rightarrow> int \<Rightarrow> int \<Rightarrow> string option" where
  "findLine [] lno current = None"
| "findLine (b # bs) lno current =
     (if current = lno then Some (b # bs) else findLine bs lno (if b = newline then current + 1 else current))"

fun visualLoop :: "nat \<Rightarrow> string \<Rightarrow> nat \<Rightarrow> nat" where
  "visualLoop 0 s v = v"
| "visualLoop (Suc n) [] v = v"
| "visualLoop (Suc n) (b # bs) v =
     visualLoop n bs (if b = CHR 0x09 then v + (tabWidth - (v - 1) mod tabWidth) else v + 1)"

definition calculateVisualColumn :: "string \<Rightarrow> int \<Rightarrow> int \<Rightarrow> nat" where
  "calculateVisualColumn content lno col = visualLoop (nat (col - 1)) (or_else content (findLine content lno 1)) 1"

definition getVisualColumn :: "(string \<Rightarrow> string option) \<Rightarrow> string \<Rightarrow> int \<Rightarrow> int \<Rightarrow> int" where
  "getVisualColumn readFile fileName lno col = (case readFile fileName of
     None \<Rightarrow> col | Some content \<Rightarrow> int (calculateVisualColumn content lno col))"

subsection \<open>The text report\<close>

text \<open>\<open>tabwriter\<close> with padding 2: every cell but the last of a line fills its column.\<close>

definition columnWidth :: "string list list \<Rightarrow> nat \<Rightarrow> nat" where
  "columnWidth rows i = Max (set (map (\<lambda>r. length (r ! i)) rows)) + 2"

definition tableRow :: "string list list \<Rightarrow> string list \<Rightarrow> string" where
  "tableRow rows r = concat (map (\<lambda>i. padRight (columnWidth rows i) (r ! i)) [0..<length r - 1]) @ textLine (last r)"

definition table :: "string list list \<Rightarrow> string" where
  "table rows = concat (map (tableRow rows) rows)"

text \<open>A duration in nanoseconds, rounded to milliseconds (half away from zero) and printed.\<close>

definition roundMs :: "int \<Rightarrow> int" where
  "roundMs ns = (ns + 500000) div 1000000"

definition fraction :: "int \<Rightarrow> string" where
  "fraction ms = (if ms = 0 then '''' else CHR ''.'' # rev (dropWhile (\<lambda>c. c = CHR ''0'') (rev (padZeros 3 (Itoa ms)))))"

definition durationText :: "int \<Rightarrow> string" where
  "durationText ns =
     (let ms = roundMs ns; secs = ms div 1000; mins = secs div 60 in
      if ms = 0 then ''0s''
      else if ms < 1000 then Itoa ms @ ''ms''
      else (if 60 \<le> mins then Itoa (mins div 60) @ ''h'' else '''') @
           (if 1 \<le> mins then Itoa (mins mod 60) @ ''m'' else '''') @
           Itoa (secs mod 60) @ fraction (ms mod 1000) @ ''s'')"

definition killedLine :: "(string \<Rightarrow> string option) \<Rightarrow> Mutant \<Rightarrow> string" where
  "killedLine readFile m =
     (let s = mSite m; col = getVisualColumn readFile (sFile s) (sLine s) (sColumn s) in
      textLine (''- #'' @ Itoa (mID m) @ '' '' @ sFile s @ '':'' @ Itoa (sLine s) @ '':'' @ Itoa col @ '' ('' @
        operatorOf m @ '') killed by '' @ (if mKilledBy m = '''' then ''(unknown)'' else mKilledBy m) @ '' ('' @
        (if 0 < mKillDuration m then durationText (mKillDuration m) else '''') @ '')''))"

definition survivedLine :: "(string \<Rightarrow> string option) \<Rightarrow> Mutant \<Rightarrow> string" where
  "survivedLine readFile m =
     (let s = mSite m; col = getVisualColumn readFile (sFile s) (sLine s) (sColumn s) in
      textLine (''- '' @ mStatus m @ '' in '' @ sFile s @ '':'' @ Itoa (sLine s) @ '':'' @ Itoa col @ '' (Operator: '' @
        operatorOf m @ '')''))"

definition debugPart :: "Mutant list \<Rightarrow> ReportStats \<Rightarrow> string" where
  "debugPart ms stats =
     textLine ''=== Debug Information ==='' @
     (if 0 < rsTotalErrors stats \<or> 0 < rsUntested stats then
        (case writePerMutantErrors ms 200 of (txt, shown) \<Rightarrow>
           FormatDebugErrors ms stats @ [newline] @ textLine ''Per-Mutant Compilation Errors:'' @ txt @
           (if 200 < shown then textLine (''  ... and '' @ natText (shown - 200) @ '' more unique error lines (total: '' @ natText shown @ '')'')
            else if shown = 0 then textLine ''  (no detailed errors available)'' else ''''))
      else '''') @
     [newline] @ textLine ''=== End Debug Information ===''"

definition scoreTable :: "ReportStats \<Rightarrow> string" where
  "scoreTable s = table
     [[''Mutation Score'', ''Killed'', ''Survived'', ''Compile Errors'', ''Runtime Errors'', ''Timeout'', ''Untested'', ''Invalid'', ''Total''],
      [fmtFixed 2 (rsScore s) @ ''%'', natText (rsKilled s), natText (rsSurvived s), natText (rsCompileErrors s),
       natText (rsRuntimeErrors s), natText (rsTimeout s), natText (rsUntested s), natText (rsInvalid s), natText (rsTotal s)]]"

definition textReport ::
  "(string \<Rightarrow> string option) \<Rightarrow> Mutant list \<Rightarrow> ReportStats \<Rightarrow> bool \<Rightarrow> bool \<Rightarrow> bool \<Rightarrow> string" where
  "textReport readFile ms stats debug showKilled showSurvived =
     (let survivors = filter (\<lambda>m. mStatus m = StatusSurvived) ms in
      (if debug then debugPart ms stats else '''') @ scoreTable stats @
      (if 0 < rsKilled stats then [newline] @ FormatTopKillingTests ms 10 else '''') @
      (if 0 < rsKilled stats \<and> showKilled then
         [newline] @ textLine ''Killed Mutants:'' @
         concat (map (killedLine readFile) (filter (\<lambda>m. mStatus m = StatusKilled) ms))
       else '''') @
      (if showSurvived then
         [newline] @ textLine ''Survived Mutants:'' @ concat (map (survivedLine readFile) survivors) @
         (if survivors = [] then textLine ''  (none)'' else '''')
       else ''''))"

subsection \<open>Laws\<close>

definition howMany :: "('a \<Rightarrow> bool) \<Rightarrow> 'a list \<Rightarrow> nat" where
  "howMany P xs = length (filter P xs)"

lemma tally_snoc: "tally P key (xs @ [x]) = bump P key (tally P key xs) x"
  by (simp add: tally_def)

lemma tally_exact:
  "map_of (tally P key xs) k = (let n = howMany (\<lambda>x. P x \<and> key x = k) xs in if n = 0 then None else Some n)"
proof (induction xs rule: rev_induct)
  case (snoc x xs)
  then show ?case
    by (cases "P x \<and> key x = k") (auto simp: tally_snoc bump_def update_conv' howMany_def Let_def split: if_splits)
qed (simp add: tally_def howMany_def)

lemma tally_distinct: "distinct (map fst (tally P key xs))"
  by (induction xs rule: rev_induct) (simp_all add: tally_snoc bump_def distinct_update, simp add: tally_def)

lemma tally_entries: "(k, n) \<in> set (tally P key xs) \<longleftrightarrow> n = howMany (\<lambda>x. P x \<and> key x = k) xs \<and> 0 < n"
proof -
  have "(k, n) \<in> set (tally P key xs) \<longleftrightarrow> map_of (tally P key xs) k = Some n"
    using map_of_eq_Some_iff [OF tally_distinct [of P key xs]] by blast
  then show ?thesis by (auto simp: tally_exact Let_def)
qed

definition killsBy :: "string \<Rightarrow> Mutant list \<Rightarrow> nat" where
  "killsBy t ms = howMany (\<lambda>m. mStatus m = StatusKilled \<and> mKilledBy m = t) ms"

lemma topKills_entries: "(t, n) \<in> set (topKills ms) \<longleftrightarrow> t \<noteq> '''' \<and> n = killsBy t ms \<and> 0 < n"
proof -
  have "howMany (\<lambda>m. killing m \<and> mKilledBy m = t) ms = (if t = '''' then 0 else killsBy t ms)"
  proof (cases "t = ''''")
    case False
    then have "filter (\<lambda>m. killing m \<and> mKilledBy m = t) ms =
        filter (\<lambda>m. mStatus m = StatusKilled \<and> mKilledBy m = t) ms" by (intro filter_cong) (auto simp: killing_def)
    with False show ?thesis by (simp only: howMany_def killsBy_def if_False)
  qed (simp add: howMany_def killing_def)
  then have "(t, n) \<in> set (topKills ms) \<longleftrightarrow> n = (if t = '''' then 0 else killsBy t ms) \<and> 0 < n"
    by (simp only: topKills_def set_sort tally_entries)
  then show ?thesis by (cases "t = ''''") auto
qed

lemma topKills_distinct: "distinct (map fst (topKills ms))"
  using tally_distinct [of killing mKilledBy ms] by (simp add: topKills_def distinct_map)

lemma topKills_sorted: "i \<le> j \<Longrightarrow> j < length (topKills ms) \<Longrightarrow> snd (topKills ms ! j) \<le> snd (topKills ms ! i)"
proof -
  assume ij: "i \<le> j" "j < length (topKills ms)"
  let ?key = "\<lambda>(_ :: string, c). - int c"
  have "sorted (map ?key (topKills ms))" by (simp add: topKills_def)
  from sorted_nth_mono [OF this ij(1)] ij have "?key (topKills ms ! i) \<le> ?key (topKills ms ! j)" by simp
  then show ?thesis by (simp add: case_prod_beta)
qed

text \<open>
  The tests listed as killing most do kill most: each listed test is shown with its own
  number of kills, no test is listed twice, and when the list is full no test outside it kills
  more mutants than one inside.
\<close>

theorem top_tests_exact:
  "let shown = take k (topKills ms) in
     distinct (map fst shown) \<and>
     (\<forall>(t, n) \<in> set shown. n = killsBy t ms \<and> 0 < n \<and>
        (\<forall>t'. t' \<noteq> '''' \<and> t' \<notin> fst ` set shown \<longrightarrow> killsBy t' ms \<le> n))"
proof -
  let ?top = "topKills ms"
  note dist = topKills_distinct [of ms]
  have less: "killsBy t' ms \<le> n" if tn: "(t, n) \<in> set (take k ?top)" and t': "t' \<noteq> ''''" "t' \<notin> fst ` set (take k ?top)" for t n t'
  proof (cases "killsBy t' ms = 0")
    case False
    with t' have "(t', killsBy t' ms) \<in> set ?top" by (simp add: topKills_entries)
    then obtain j where j: "j < length ?top" "?top ! j = (t', killsBy t' ms)" by (auto simp: in_set_conv_nth)
    have "k \<le> j"
    proof (rule ccontr)
      assume "\<not> k \<le> j"
      with j have "(t', killsBy t' ms) \<in> set (take k ?top)" by (auto simp: in_set_conv_nth intro!: exI [of _ j])
      with t'(2) show False by force
    qed
    moreover obtain i where i: "i < k" "i < length ?top" "?top ! i = (t, n)"
      using tn by (auto simp: in_set_conv_nth)
    ultimately show ?thesis using topKills_sorted [of i j ms] j by simp
  qed simp
  have "n = killsBy t ms \<and> 0 < n" if "(t, n) \<in> set (take k ?top)" for t n
    using topKills_entries in_set_takeD [OF that] by blast
  then show ?thesis using dist less by (auto simp: Let_def take_map [symmetric] distinct_take)
qed

lemma showLines_count:
  "set seen = s \<Longrightarrow> card s = shown \<Longrightarrow> (0 < maxLines \<longrightarrow> shown \<le> maxLines) \<Longrightarrow>
     snd (showLines maxLines ls seen shown out) =
       (let n = card (s \<union> snd ` set ls) in if maxLines = 0 then n else min n (Suc maxLines))"
proof (induction maxLines ls seen shown out arbitrary: s rule: showLines.induct)
  case (1 maxLines seen shown out)
  then show ?case by (auto simp: Let_def)
next
  case (2 maxLines op l ls seen shown out)
  have fin: "finite s" using "2.prems"(1) by auto
  show ?case
  proof (cases "l \<in> set seen")
    case True
    with 2 show ?thesis by (simp add: insert_absorb Un_insert_right)
  next
    case new: False
    show ?thesis
    proof (cases "0 < maxLines \<and> maxLines < Suc shown")
      case True
      then have eq: "shown = maxLines" using "2.prems"(3) by simp
      have "Suc (card s) \<le> card (s \<union> snd ` set ((op, l) # ls))"
        using new fin "2.prems"(1) by (metis (no_types, lifting) List.finite_set UnI2 Un_upper1 card_mono card_seteq
            finite_UnI finite_imageI image_eqI list.set_intros(1) not_less_eq_eq snd_conv)
      with True new eq "2.prems"(2) show ?thesis by (simp add: Let_def)
    next
      case False
      have "snd (showLines maxLines ls (l # seen) (Suc shown) (out @ ''  ('' @ op @ '') '' @ l @ [newline])) =
        (let n = card (insert l s \<union> snd ` set ls) in if maxLines = 0 then n else min n (Suc maxLines))"
        by (rule "2.IH"(2)) (use new False "2.prems" fin in auto)
      with new False show ?thesis by auto
    qed
  qed
qed

text \<open>
  The count of error lines stops one past the bound: the report counts the different error
  lines exactly up to 200, and for any larger number it says that there is one more.
\<close>

theorem error_lines_counted:
  "snd (writePerMutantErrors ms maxLines) =
     (let n = card (\<Union>m \<in> set ms. set (errorLines m)) in if maxLines = 0 then n else min n (Suc maxLines))"
proof -
  have "snd ` set (concat (map (\<lambda>m. map (Pair (OpName (mOperator m))) (errorLines m)) ms)) = (\<Union>m \<in> set ms. set (errorLines m))"
    by force
  then show ?thesis
    using showLines_count [of "[]" "{}" 0 maxLines] unfolding writePerMutantErrors_def by simp
qed

definition demoKills :: "Mutant list" where
  "demoKills = map (\<lambda>t. (sampleMutant 1 ''a.go'' ''killed'')\<lparr>mKilledBy := t\<rparr>) [''TestB'', ''TestA'', ''TestA'']"

lemma demo_top: "take 1 (topKills demoKills) = [(''TestA'', 2)]"
  by code_simp

theorem top_tests_exact_witness:
  "2 = killsBy ''TestA'' demoKills \<and> killsBy ''TestB'' demoKills \<le> 2"
  using top_tests_exact [of 1 demoKills] unfolding demo_top by simp

text \<open>A report with more than 200 different error lines names one more, however many there are.\<close>

lemma error_excess_is_one:
  assumes "200 < snd (writePerMutantErrors ms 200)"
  shows "snd (writePerMutantErrors ms 200) - 200 = 1"
proof -
  have "snd (writePerMutantErrors ms n) \<le> Suc n" if "0 < n" for n
    using showLines_count [of "[]" "{}" 0 n] that unfolding writePerMutantErrors_def by simp
  from this [of 200] assms show ?thesis by simp
qed

end
