(* ===== verification/GoJson.thy ===== *)
theory GoJson
  imports GoStrings
begin

text \<open>
  What the reports use of \<open>encoding/json\<close>: values, the quoting of strings and \<open>MarshalIndent\<close>
  with two blanks, and a reader of such texts. Strings are valid UTF-8. A number is its text.
  The reader is the inverse that the round trips are stated with.
\<close>

subsection \<open>Strings\<close>

definition hexDigit :: "nat \<Rightarrow> char" where
  "hexDigit n = ''0123456789abcdef'' ! n"

definition hexValue :: "char \<Rightarrow> nat option" where
  "hexValue c = find (\<lambda>n. hexDigit n = c) [0..<16]"

definition shortEscape :: "char \<Rightarrow> char option" where
  "shortEscape c = map_of [(CHR 0x22, CHR 0x22), (CHR 0x5C, CHR 0x5C), (CHR 0x08, CHR ''b''), (CHR 0x0C, CHR ''f''),
     (CHR 0x0A, CHR ''n''), (CHR 0x0D, CHR ''r''), (CHR 0x09, CHR ''t'')] c"

definition longEscape :: "char \<Rightarrow> bool" where
  "longEscape c \<longleftrightarrow> of_char c < (32::nat) \<or> c \<in> {CHR ''<'', CHR ''>'', CHR ''&''}"

definition jsonChar :: "char \<Rightarrow> string" where
  "jsonChar c = (case shortEscape c of
     Some e \<Rightarrow> [CHR 0x5C, e]
   | None \<Rightarrow> if longEscape c
       then [CHR 0x5C, CHR ''u'', CHR ''0'', CHR ''0'', hexDigit (of_char c div 16), hexDigit (of_char c mod 16)] else [c])"

text \<open>The separators U+2028 and U+2029 are escaped too, they are three bytes each.\<close>

definition lineSeparator :: "string \<Rightarrow> char option" where
  "lineSeparator s = (case s of a # b # c # _ \<Rightarrow>
       if a = CHR 0xE2 \<and> b = CHR 0x80 then (if c = CHR 0xA8 then Some (CHR ''8'') else if c = CHR 0xA9 then Some (CHR ''9'') else None)
       else None
   | _ \<Rightarrow> None)"

function jsonBody :: "string \<Rightarrow> string" where
  "jsonBody s = (case s of [] \<Rightarrow> []
   | c # cs \<Rightarrow> (case lineSeparator s of
        Some d \<Rightarrow> [CHR 0x5C, CHR ''u'', CHR ''2'', CHR ''0'', CHR ''2'', d] @ jsonBody (drop 3 s)
      | None \<Rightarrow> jsonChar c @ jsonBody cs))"
  by auto
termination by (relation "measure length") (auto simp: lineSeparator_def split: list.splits if_splits)

declare jsonBody.simps [simp del]

definition jsonQuote :: "string \<Rightarrow> string" where
  "jsonQuote s = [CHR 0x22] @ jsonBody s @ [CHR 0x22]"

definition unescape :: "char \<Rightarrow> char option" where
  "unescape e = map_of [(CHR 0x22, CHR 0x22), (CHR 0x5C, CHR 0x5C), (CHR ''b'', CHR 0x08), (CHR ''f'', CHR 0x0C),
     (CHR ''n'', CHR 0x0A), (CHR ''r'', CHR 0x0D), (CHR ''t'', CHR 0x09)] e"

text \<open>The codes that the writer uses: below 256, and the two separators.\<close>

definition codeBytes :: "nat \<Rightarrow> nat \<Rightarrow> nat \<Rightarrow> nat \<Rightarrow> string option" where
  "codeBytes a b c d =
     (if a = 0 \<and> b = 0 then Some [char_of (16 * c + d)]
      else if a = 2 \<and> b = 0 \<and> c = 2 \<and> d = 8 then Some [CHR 0xE2, CHR 0x80, CHR 0xA8]
      else if a = 2 \<and> b = 0 \<and> c = 2 \<and> d = 9 then Some [CHR 0xE2, CHR 0x80, CHR 0xA9]
      else None)"

fun readString :: "string \<Rightarrow> (string \<times> string) option" where
  "readString [] = None"
| "readString (c # cs) =
     (if c = CHR 0x22 then Some ([], cs)
      else if c \<noteq> CHR 0x5C then map_option (apfst (Cons c)) (readString cs)
      else case cs of
        [] \<Rightarrow> None
      | e # r \<Rightarrow> (case unescape e of
            Some b \<Rightarrow> map_option (apfst (Cons b)) (readString r)
          | None \<Rightarrow> (case r of
                w # x # y # z # r' \<Rightarrow> (case (hexValue w, hexValue x, hexValue y, hexValue z) of
                    (Some w', Some x', Some y', Some z') \<Rightarrow> (case codeBytes w' x' y' z' of
                        Some bs \<Rightarrow> map_option (apfst (append bs)) (readString r')
                      | None \<Rightarrow> None)
                  | _ \<Rightarrow> None)
              | _ \<Rightarrow> None)))"

lemma hexValue_hexDigit [simp]: "n < 16 \<Longrightarrow> hexValue (hexDigit n) = Some n"
proof -
  have "list_all (\<lambda>n. hexValue (hexDigit n) = Some n) [0..<16]"
    by (simp add: hexValue_def hexDigit_def upt_rec)
  then show "n < 16 \<Longrightarrow> hexValue (hexDigit n) = Some n" by (simp add: list_all_iff)
qed

lemma unescape_shortEscape: "shortEscape c = Some e \<Longrightarrow> unescape e = Some c"
  by (auto simp: shortEscape_def unescape_def split: if_splits)

lemma readString_jsonChar: "readString (jsonChar c @ rest) = map_option (apfst (Cons c)) (readString rest)"
proof (cases "shortEscape c")
  case (Some e)
  then show ?thesis by (simp add: jsonChar_def unescape_shortEscape)
next
  case None
  have less: "of_char c < (256::nat)" by (rule nat_of_char_less_256)
  have plain: "c \<noteq> CHR 0x22" "c \<noteq> CHR 0x5C" using None by (auto simp: shortEscape_def)
  have "16 * (of_char c div 16) + of_char c mod 16 = (of_char c :: nat)" by simp
  moreover have "unescape (CHR ''u'') = None" by (simp add: unescape_def)
  moreover have "hexValue (CHR ''0'') = Some 0" using hexValue_hexDigit[of 0] by (simp add: hexDigit_def)
  moreover have "of_char c div 16 < (16::nat)" using less by (simp add: less_mult_imp_div_less)
  moreover have "(@) [c] = (#) c" by (rule ext) simp
  ultimately show ?thesis using None plain by (simp add: jsonChar_def codeBytes_def)
qed

lemma readString_jsonQuote: "readString (jsonBody s @ CHR 0x22 # rest) = Some (s, rest)"
proof (induction s rule: jsonBody.induct)
  case (1 s)
  show ?case
  proof (cases s)
    case Nil
    then show ?thesis by (simp add: jsonBody.simps)
  next
    case (Cons c cs)
    show ?thesis
    proof (cases "lineSeparator s")
      case None
      then show ?thesis using 1(1) [OF Cons None] Cons
        by (subst jsonBody.simps) (simp add: readString_jsonChar)
    next
      case (Some d)
      have "drop 3 s = drop 3 (c # cs)" using Cons by simp
      have hex: "hexValue (CHR ''2'') = Some 2" "hexValue (CHR ''0'') = Some 0" "hexValue (CHR ''8'') = Some 8" "hexValue (CHR ''9'') = Some 9"
        using hexValue_hexDigit[of 2] hexValue_hexDigit[of 0] hexValue_hexDigit[of 8] hexValue_hexDigit[of 9] by (simp_all add: hexDigit_def)
      have sep: "d = CHR ''8'' \<and> s = [CHR 0xE2, CHR 0x80, CHR 0xA8] @ drop 3 s \<or> d = CHR ''9'' \<and> s = [CHR 0xE2, CHR 0x80, CHR 0xA9] @ drop 3 s"
        using Some by (auto simp: lineSeparator_def split: list.splits if_splits)
      have body: "jsonBody s = [CHR 0x5C, CHR ''u'', CHR ''2'', CHR ''0'', CHR ''2'', d] @ jsonBody (drop 3 s)"
        using Some Cons by (subst jsonBody.simps) simp
      have ih: "readString (jsonBody (drop 3 s) @ CHR 0x22 # rest) = Some (drop 3 s, rest)"
        by (rule 1(2) [OF Cons Some])
      have u: "unescape (CHR ''u'') = None" by (simp add: unescape_def)
      from sep show ?thesis
      proof
        assume *: "d = CHR ''8'' \<and> s = [CHR 0xE2, CHR 0x80, CHR 0xA8] @ drop 3 s"
        then show ?thesis by (subst body) (use ih in \<open>simp add: u hex codeBytes_def\<close>)
      next
        assume *: "d = CHR ''9'' \<and> s = [CHR 0xE2, CHR 0x80, CHR 0xA9] @ drop 3 s"
        then show ?thesis by (subst body) (use ih in \<open>simp add: u hex codeBytes_def\<close>)
      qed
    qed
  qed
qed

subsection \<open>Values\<close>

datatype json = JNull | JNum string | JStr string | JArr "json list" | JObj "(string \<times> json) list"

definition jsonBreak :: "nat \<Rightarrow> string" where
  "jsonBreak d = CHR 0x0A # replicate (2 * d) (CHR '' '')"

text \<open>\<open>d\<close> is the depth; an empty array or object stays on its line.\<close>

fun marshalIndent :: "nat \<Rightarrow> json \<Rightarrow> string" where
  "marshalIndent d JNull = ''null''"
| "marshalIndent d (JNum t) = t"
| "marshalIndent d (JStr s) = jsonQuote s"
| "marshalIndent d (JArr vs) = (if vs = [] then ''[]''
     else ''['' @ Join (map (\<lambda>v. jsonBreak (Suc d) @ marshalIndent (Suc d) v) vs) '','' @ jsonBreak d @ '']'')"
| "marshalIndent d (JObj ms) = (if ms = [] then ''{}''
     else ''{'' @ Join (map (\<lambda>(k, v). jsonBreak (Suc d) @ jsonQuote k @ '': '' @ marshalIndent (Suc d) v) ms) '','' @ jsonBreak d @ ''}'')"

definition MarshalIndent :: "json \<Rightarrow> string" where
  "MarshalIndent v = marshalIndent 0 v"

subsection \<open>The reader\<close>

definition skipSpace :: "string \<Rightarrow> string" where
  "skipSpace s = dropWhile (\<lambda>c. c \<in> {CHR '' '', CHR 0x0A, CHR 0x0D, CHR 0x09}) s"

definition numeric :: "char \<Rightarrow> bool" where
  "numeric c \<longleftrightarrow> c \<in> set ''0123456789+-.eE''"

definition closes :: "char \<Rightarrow> string \<Rightarrow> string option" where
  "closes c s = (case s of [] \<Rightarrow> None | d # r \<Rightarrow> if d = c then Some r else None)"

definition readAtom :: "string \<Rightarrow> (json \<times> string) option" where
  "readAtom s = (if HasPrefix s ''null'' then Some (JNull, drop 4 s)
     else if takeWhile numeric s = [] then None else Some (JNum (takeWhile numeric s), dropWhile numeric s))"

text \<open>The reader descends with a bound on the number of values.\<close>

fun readValue :: "nat \<Rightarrow> string \<Rightarrow> (json \<times> string) option"
and readElements :: "nat \<Rightarrow> string \<Rightarrow> (json list \<times> string) option"
and readMembers :: "nat \<Rightarrow> string \<Rightarrow> ((string \<times> json) list \<times> string) option" where
  "readValue 0 s = None"
| "readValue (Suc n) s = (case skipSpace s of [] \<Rightarrow> None
     | c # r \<Rightarrow> if c = CHR 0x22 then map_option (apfst JStr) (readString r)
        else if c = CHR ''['' then (case closes (CHR '']'') (skipSpace r) of
            Some r' \<Rightarrow> Some (JArr [], r') | None \<Rightarrow> map_option (apfst JArr) (readElements n r))
        else if c = CHR ''{'' then (case closes (CHR ''}'') (skipSpace r) of
            Some r' \<Rightarrow> Some (JObj [], r') | None \<Rightarrow> map_option (apfst JObj) (readMembers n r))
        else readAtom (c # r))"
| "readElements 0 s = None"
| "readElements (Suc n) s = (case readValue n s of None \<Rightarrow> None
     | Some (v, r) \<Rightarrow> (case closes (CHR '']'') (skipSpace r) of
         Some r' \<Rightarrow> Some ([v], r')
       | None \<Rightarrow> (case closes (CHR '','') (skipSpace r) of
           Some r' \<Rightarrow> map_option (apfst (Cons v)) (readElements n r')
         | None \<Rightarrow> None)))"
| "readMembers 0 s = None"
| "readMembers (Suc n) s = (case closes (CHR 0x22) (skipSpace s) of None \<Rightarrow> None
     | Some q \<Rightarrow> (case readString q of None \<Rightarrow> None
     | Some (k, r) \<Rightarrow> (case closes (CHR '':'') (skipSpace r) of None \<Rightarrow> None
     | Some r1 \<Rightarrow> (case readValue n r1 of None \<Rightarrow> None
     | Some (v, r2) \<Rightarrow> (case closes (CHR ''}'') (skipSpace r2) of
         Some r' \<Rightarrow> Some ([(k, v)], r')
       | None \<Rightarrow> (case closes (CHR '','') (skipSpace r2) of
           Some r' \<Rightarrow> map_option (apfst (Cons (k, v))) (readMembers n r')
         | None \<Rightarrow> None))))))"

definition readJson :: "nat \<Rightarrow> string \<Rightarrow> json option" where
  "readJson n s = (case readValue n s of Some (v, r) \<Rightarrow> if skipSpace r = [] then Some v else None | None \<Rightarrow> None)"

subsection \<open>Reading back\<close>

fun wellNumbered :: "json \<Rightarrow> bool" where
  "wellNumbered (JNum t) \<longleftrightarrow> t \<noteq> [] \<and> list_all numeric t"
| "wellNumbered (JArr vs) \<longleftrightarrow> (\<forall>v \<in> set vs. wellNumbered v)"
| "wellNumbered (JObj ms) \<longleftrightarrow> (\<forall>m \<in> set ms. wellNumbered (snd m))"
| "wellNumbered _ \<longleftrightarrow> True"

text \<open>A bound that is enough for a value.\<close>

fun depth :: "json \<Rightarrow> nat" where
  "depth (JArr vs) = Suc (sum_list (map (\<lambda>v. Suc (depth v)) vs))"
| "depth (JObj ms) = Suc (sum_list (map (\<lambda>m. Suc (depth (snd m))) ms))"
| "depth _ = 1"

definition delimited :: "string \<Rightarrow> bool" where
  "delimited rest \<longleftrightarrow> (case rest of [] \<Rightarrow> True | c # _ \<Rightarrow> \<not> numeric c)"

lemma skipSpace_jsonBreak [simp]: "skipSpace (jsonBreak d @ s) = skipSpace s"
  by (induction d) (auto simp: jsonBreak_def skipSpace_def)

lemma skipSpace_char [simp]: "c \<notin> {CHR '' '', CHR 0x0A, CHR 0x0D, CHR 0x09} \<Longrightarrow> skipSpace (c # s) = c # s"
  by (simp add: skipSpace_def)

lemma skipSpace_blank [simp]: "skipSpace (CHR '' '' # s) = skipSpace s"
  by (simp add: skipSpace_def)

lemma closes_simps [simp]: "closes c (d # s) = (if d = c then Some s else None)" "closes c [] = None"
  by (simp_all add: closes_def)

lemma delimited_simps [simp]: "delimited (CHR '','' # s)" "delimited (jsonBreak d @ s)" "delimited []"
  by (simp_all add: delimited_def jsonBreak_def numeric_def)

lemma readAtom_number:
  "t \<noteq> [] \<Longrightarrow> list_all numeric t \<Longrightarrow> delimited rest \<Longrightarrow> readAtom (t @ rest) = Some (JNum t, rest)"
proof -
  assume t: "t \<noteq> []" "list_all numeric t" "delimited rest"
  then obtain c r where c: "t = c # r" "numeric c" by (cases t) auto
  then have "\<not> HasPrefix (t @ rest) ''null''" by (auto simp: HasPrefix_def numeric_def)
  moreover have "takeWhile numeric (t @ rest) = t" "dropWhile numeric (t @ rest) = rest"
    using t by (auto simp: list_all_iff takeWhile_append2 dropWhile_append2 delimited_def takeWhile_eq_Nil_iff dropWhile_eq_self_iff split: list.splits)
  ultimately show ?thesis using t(1) by (simp add: readAtom_def)
qed

lemma readValue_skips [simp]:
  "readValue n (jsonBreak d @ s) = readValue n s" "readValue n (CHR '' '' # s) = readValue n s"
  by (cases n; simp)+

lemma marshalIndent_first:
  "wellNumbered v \<Longrightarrow> \<exists>c r. marshalIndent d v = c # r \<and> c \<notin> {CHR '' '', CHR 0x0A, CHR 0x0D, CHR 0x09, CHR '']''}"
proof (cases v)
  case (JNum t)
  assume "wellNumbered v"
  then show ?thesis using JNum by (cases t) (auto simp: numeric_def)
qed (auto simp: jsonQuote_def)

lemma not_closed: "wellNumbered v \<Longrightarrow> closes (CHR '']'') (skipSpace (marshalIndent d v @ s)) = None"
  using marshalIndent_first [of v d] by auto

lemma Join_step: "xs \<noteq> [] \<Longrightarrow> Join (x # xs) sep = x @ sep @ Join xs sep"
  by (cases xs) auto

lemma readElements_back:
  assumes "\<And>v n rest. v \<in> set vs \<Longrightarrow> depth v \<le> n \<Longrightarrow> delimited rest \<Longrightarrow> readValue n (marshalIndent e v @ rest) = Some (v, rest)"
    and "vs \<noteq> []" and "sum_list (map (\<lambda>v. Suc (depth v)) vs) \<le> n"
  shows "readElements n (Join (map (\<lambda>v. jsonBreak e @ marshalIndent e v) vs) '','' @ jsonBreak d @ CHR '']'' # rest) = Some (vs, rest)"
  using assms
proof (induction vs arbitrary: n)
  case (Cons v vs)
  then obtain n' where n: "n = Suc n'" by (cases n) auto
  have val: "delimited r \<Longrightarrow> readValue n' (marshalIndent e v @ r) = Some (v, r)" for r
    using Cons.prems(1) [of v n' r] Cons.prems(3) n by simp
  show ?case
  proof (cases "vs = []")
    case True
    then show ?thesis by (simp add: n val)
  next
    case False
    have "readElements n' (Join (map (\<lambda>v. jsonBreak e @ marshalIndent e v) vs) '','' @ jsonBreak d @ CHR '']'' # rest) = Some (vs, rest)"
      by (rule Cons.IH) (use Cons.prems False n in auto)
    then show ?thesis using False by (simp add: n Join_step val)
  qed
qed simp

lemma readMembers_back:
  assumes "\<And>m n rest. m \<in> set ms \<Longrightarrow> depth (snd m) \<le> n \<Longrightarrow> delimited rest \<Longrightarrow> readValue n (marshalIndent e (snd m) @ rest) = Some (snd m, rest)"
    and "ms \<noteq> []" and "sum_list (map (\<lambda>m. Suc (depth (snd m))) ms) \<le> n"
  shows "readMembers n (Join (map (\<lambda>(k, v). jsonBreak e @ jsonQuote k @ '': '' @ marshalIndent e v) ms) '','' @ jsonBreak d @ CHR ''}'' # rest) = Some (ms, rest)"
  using assms
proof (induction ms arbitrary: n)
  case (Cons m ms)
  obtain k v where m: "m = (k, v)" by (cases m)
  from Cons obtain n' where n: "n = Suc n'" by (cases n) auto
  have val: "delimited r \<Longrightarrow> readValue n' (marshalIndent e v @ r) = Some (v, r)" for r
    using Cons.prems(1) [of m n' r] Cons.prems(3) n m by simp
  show ?case
  proof (cases "ms = []")
    case True
    then show ?thesis by (simp add: n m val jsonQuote_def readString_jsonQuote)
  next
    case False
    have "readMembers n' (Join (map (\<lambda>(k, v). jsonBreak e @ jsonQuote k @ '': '' @ marshalIndent e v) ms) '','' @ jsonBreak d @ CHR ''}'' # rest) = Some (ms, rest)"
      by (rule Cons.IH) (use Cons.prems False n in auto)
    then show ?thesis using False by (simp add: n m Join_step val jsonQuote_def readString_jsonQuote)
  qed
qed simp

lemma readValue_back:
  "wellNumbered v \<Longrightarrow> depth v \<le> n \<Longrightarrow> delimited rest \<Longrightarrow> readValue n (marshalIndent d v @ rest) = Some (v, rest)"
proof (induction v arbitrary: n rest d)
  case JNull
  then show ?case by (cases n) (simp_all add: readAtom_def HasPrefix_def)
next
  case (JNum t)
  then obtain n' c r where "n = Suc n'" "t = c # r" "numeric c" by (cases n; cases t) auto
  then show ?case using JNum readAtom_number [of t rest] by (auto simp: numeric_def)
next
  case (JStr s)
  then show ?case by (cases n) (simp_all add: jsonQuote_def readString_jsonQuote)
next
  case (JArr vs)
  then obtain n' where n: "n = Suc n'" by (cases n) auto
  show ?case
  proof (cases vs)
    case (Cons w ws)
    have "readElements n' (Join (map (\<lambda>v. jsonBreak (Suc d) @ marshalIndent (Suc d) v) vs) '','' @ jsonBreak d @ CHR '']'' # rest) = Some (vs, rest)"
      by (rule readElements_back) (use JArr Cons n in auto)
    moreover have "closes (CHR '']'') (skipSpace (Join (map (\<lambda>v. jsonBreak (Suc d) @ marshalIndent (Suc d) v) vs) '','' @ s)) = None" for s
      using JArr.prems(1) Cons by (cases ws) (simp_all add: not_closed)
    ultimately show ?thesis using Cons by (simp add: n)
  qed (simp add: n)
next
  case (JObj ms)
  then obtain n' where n: "n = Suc n'" by (cases n) auto
  have ih: "m \<in> set ms \<Longrightarrow> depth (snd m) \<le> k \<Longrightarrow> delimited r \<Longrightarrow>
      readValue k (marshalIndent (Suc d) (snd m) @ r) = Some (snd m, r)" for m k r
    by (rule JObj.IH [of m "snd m"]) (use JObj.prems in \<open>auto simp: snds.simps\<close>)
  show ?case
  proof (cases ms)
    case (Cons w ws)
    have "readMembers n' (Join (map (\<lambda>(k, v). jsonBreak (Suc d) @ jsonQuote k @ '': '' @ marshalIndent (Suc d) v) ms) '','' @ jsonBreak d @ CHR ''}'' # rest) = Some (ms, rest)"
      by (rule readMembers_back [OF ih]) (use JObj.prems Cons n in auto)
    moreover have "closes (CHR ''}'') (skipSpace (Join (map (\<lambda>(k, v). jsonBreak (Suc d) @ jsonQuote k @ '': '' @ marshalIndent (Suc d) v) ms) '','' @ s)) = None" for s
      using Cons by (cases ws; cases w) (simp_all add: jsonQuote_def)
    ultimately show ?thesis using Cons by (simp add: n)
  qed (simp add: n)
qed

text \<open>Every value reads back from its text.\<close>

lemma readJson_back: "wellNumbered v \<Longrightarrow> depth v \<le> n \<Longrightarrow> readJson n (MarshalIndent v) = Some v"
  using readValue_back [of v n "[]" 0] by (simp add: readJson_def MarshalIndent_def skipSpace_def)

lemma MarshalIndent_inj: "wellNumbered v \<Longrightarrow> wellNumbered w \<Longrightarrow> MarshalIndent v = MarshalIndent w \<longleftrightarrow> v = w"
  by (metis readJson_back le_add1 le_add2 option.inject)

end
