(* ===== verification/ReportFiles.thy ===== *)
theory ReportFiles
  imports ReportText GoJson
begin

text \<open>
  The machine readable reports: \<open>json.go\<close>, \<open>sarif.go\<close> and \<open>junit.go\<close> of
  \<open>internal/reporter\<close>. \<open>fl\<close> is the text of a floating point number.
\<close>

subsection \<open>JSON\<close>

definition jsonNat :: "nat \<Rightarrow> json" where
  "jsonNat n = JNum (natText n)"

definition jsonInt :: "int \<Rightarrow> json" where
  "jsonInt i = JNum (Itoa i)"

definition statsJson :: "(rat \<Rightarrow> string) \<Rightarrow> ReportStats \<Rightarrow> json" where
  "statsJson fl s = JObj [(''killed'', jsonNat (rsKilled s)), (''survived'', jsonNat (rsSurvived s)),
     (''untested'', jsonNat (rsUntested s)), (''timeout'', jsonNat (rsTimeout s)),
     (''compile_errors'', jsonNat (rsCompileErrors s)), (''runtime_errors'', jsonNat (rsRuntimeErrors s)),
     (''total_errors'', jsonNat (rsTotalErrors s)), (''invalid'', jsonNat (rsInvalid s)),
     (''total'', jsonNat (rsTotal s)), (''score'', JNum (fl (rsScore s)))]"

record jsonMutant =
  jmID :: int
  jmStatus :: string
  jmOperator :: string
  jmFile :: string
  jmLine :: int
  jmColumn :: int
  jmKilledBy :: string
  jmError :: string

definition jsonMutantOf :: "Mutant \<Rightarrow> jsonMutant" where
  "jsonMutantOf m = \<lparr>jmID = mID m, jmStatus = mStatus m, jmOperator = OpName (mOperator m),
     jmFile = sFile (mSite m), jmLine = sLine (mSite m), jmColumn = sColumn (mSite m),
     jmKilledBy = mKilledBy m, jmError = or_else '''' (mError m)\<rparr>"

text \<open>The last two fields are left out when they are empty.\<close>

definition omitEmpty :: "string \<Rightarrow> string \<Rightarrow> (string \<times> json) list" where
  "omitEmpty k s = (if s = '''' then [] else [(k, JStr s)])"

definition jsonMutantJson :: "jsonMutant \<Rightarrow> json" where
  "jsonMutantJson j = JObj ([(''id'', jsonInt (jmID j)), (''status'', JStr (jmStatus j)),
     (''operator'', JStr (jmOperator j)), (''file'', JStr (jmFile j)),
     (''line'', jsonInt (jmLine j)), (''column'', jsonInt (jmColumn j))] @
     omitEmpty ''killed_by'' (jmKilledBy j) @ omitEmpty ''error'' (jmError j))"

definition jsonReport :: "(rat \<Rightarrow> string) \<Rightarrow> Mutant list \<Rightarrow> ReportStats \<Rightarrow> json" where
  "jsonReport fl ms stats = JObj [(''summary'', statsJson fl stats),
     (''mutants'', JArr (map (\<lambda>m. jsonMutantJson (jsonMutantOf m)) ms))]"

definition writeJSONReport :: "(rat \<Rightarrow> string) \<Rightarrow> Mutant list \<Rightarrow> ReportStats \<Rightarrow> string" where
  "writeJSONReport fl ms stats = MarshalIndent (jsonReport fl ms stats)"

subsection \<open>SARIF\<close>

record sarifRule =
  srID :: string
  srText :: string

record sarifResult =
  saRuleID :: string
  saMessage :: string
  saURI :: string
  saLine :: int
  saColumn :: int

text \<open>The loop over the mutants: the rules seen, in their order, and a result per survivor.\<close>

definition sarifStep :: "sarifRule list \<times> sarifResult list \<Rightarrow> Mutant \<Rightarrow> sarifRule list \<times> sarifResult list" where
  "sarifStep = (\<lambda>(rules, results) m.
     if mStatus m = StatusSurvived then
       (let ruleID = OpName (mOperator m) in
        (if ruleID \<in> set (map srID rules) then rules
         else rules @ [\<lparr>srID = ruleID, srText = ''Mutation operator: '' @ ruleID\<rparr>],
         results @ [\<lparr>saRuleID = ruleID, saMessage = ''Mutant survived: '' @ ruleID @ '' at line '' @ Itoa (sLine (mSite m)),
           saURI = sFile (mSite m), saLine = sLine (mSite m), saColumn = sColumn (mSite m)\<rparr>]))
     else (rules, results))"

definition sarifLoop :: "Mutant list \<Rightarrow> sarifRule list \<times> sarifResult list" where
  "sarifLoop ms = foldl sarifStep ([], []) ms"

definition ruleJson :: "sarifRule \<Rightarrow> json" where
  "ruleJson r = JObj [(''id'', JStr (srID r)), (''name'', JStr (srID r)),
     (''shortDescription'', JObj [(''text'', JStr (srText r))])]"

definition resultJson :: "sarifResult \<Rightarrow> json" where
  "resultJson r = JObj [(''ruleId'', JStr (saRuleID r)), (''message'', JObj [(''text'', JStr (saMessage r))]),
     (''locations'', JArr [JObj [(''physicalLocation'', JObj [
        (''artifactLocation'', JObj [(''uri'', JStr (saURI r))]),
        (''region'', JObj [(''startLine'', jsonInt (saLine r)), (''startColumn'', jsonInt (saColumn r))])])]]),
     (''level'', JStr ''warning'')]"

text \<open>A slice that was never appended to is nil, which is written \<open>null\<close>.\<close>

definition sliceJson :: "('a \<Rightarrow> json) \<Rightarrow> 'a list \<Rightarrow> json" where
  "sliceJson f xs = (if xs = [] then JNull else JArr (map f xs))"

definition sarifLog :: "(rat \<Rightarrow> string) \<Rightarrow> Mutant list \<Rightarrow> ReportStats \<Rightarrow> json" where
  "sarifLog fl ms stats = (case sarifLoop ms of (rules, results) \<Rightarrow>
     JObj [(''version'', JStr ''2.1.0''), (''runs'', JArr [JObj [
       (''tool'', JObj [(''driver'', JObj [(''name'', JStr ''Gorgon''), (''rules'', sliceJson ruleJson rules)])]),
       (''results'', sliceJson resultJson results), (''properties'', statsJson fl stats)]])])"

definition writeSARIFReport :: "(rat \<Rightarrow> string) \<Rightarrow> Mutant list \<Rightarrow> ReportStats \<Rightarrow> string" where
  "writeSARIFReport fl ms stats = MarshalIndent (sarifLog fl ms stats)"

subsection \<open>JUnit\<close>

text \<open>An element has attributes, character data and child elements.\<close>

datatype xml = Elem string "(string \<times> string) list" string "xml list"

definition xmlChar :: "char \<Rightarrow> string" where
  "xmlChar c =
     (if c = CHR 0x22 then ''&#34;'' else if c = CHR 0x27 then ''&#39;'' else if c = CHR ''&'' then ''&amp;''
      else if c = CHR ''<'' then ''&lt;'' else if c = CHR ''>'' then ''&gt;''
      else if c = CHR 0x09 then ''&#x9;'' else if c = CHR 0x0A then ''&#xA;'' else if c = CHR 0x0D then ''&#xD;''
      else if of_char c < (32::nat) then [CHR 0xEF, CHR 0xBF, CHR 0xBD] else [c])"

definition xmlEscape :: "string \<Rightarrow> string" where
  "xmlEscape s = concat (map xmlChar s)"

definition xmlAttrs :: "(string \<times> string) list \<Rightarrow> string" where
  "xmlAttrs as = concat (map (\<lambda>(k, v). CHR '' '' # k @ ''='' @ [CHR 0x22] @ xmlEscape v @ [CHR 0x22]) as)"

fun xmlIndent :: "nat \<Rightarrow> xml \<Rightarrow> string" where
  "xmlIndent d (Elem n as txt cs) =
     replicate (2 * d) (CHR '' '') @ ''<'' @ n @ xmlAttrs as @ ''>'' @ xmlEscape txt @
     concat (map (\<lambda>c. newline # xmlIndent (Suc d) c) cs) @
     (if cs = [] then '''' else newline # replicate (2 * d) (CHR '' '')) @ ''</'' @ n @ ''>''"

datatype (plugins only: size code) junitOutcome = Passed | Failure string string | Skipped string

record junitTestCase =
  jcName :: string
  jcClassname :: string
  jcTime :: rat
  jcOutcome :: junitOutcome

definition formatMutantInfo :: "Mutant \<Rightarrow> string" where
  "formatMutantInfo m = ''Operator: '' @ OpName (mOperator m) @ [newline] @ ''File: '' @ sFile (mSite m) @ '':'' @
     Itoa (sLine (mSite m)) @ [newline] @ ''Mutant ID: '' @ Itoa (mID m)"

definition junitCase :: "Mutant \<Rightarrow> junitTestCase" where
  "junitCase m =
     (let c = \<lparr>jcName = Base (sFile (mSite m)) @ '':'' @ Itoa (sLine (mSite m)) @ '':'' @ Itoa (sColumn (mSite m)),
            jcClassname = OpName (mOperator m), jcTime = 0, jcOutcome = Passed\<rparr> in
      if mStatus m = StatusKilled then c\<lparr>jcTime := of_int (mKillDuration m) / 1000000000\<rparr>
      else if mStatus m = StatusSurvived then c\<lparr>jcOutcome := Failure ''Mutant survived'' (formatMutantInfo m)\<rparr>
      else if mStatus m = StatusTimeout then c\<lparr>jcOutcome := Failure ''Mutant timeout'' (formatMutantInfo m)\<rparr>
      else if mStatus m = StatusError then c\<lparr>jcOutcome := Failure ''Execution error'' (or_else '''' (mError m))\<rparr>
      else if mStatus m = StatusUntested then c\<lparr>jcOutcome := Skipped ''Package failed to compile or has no tests''\<rparr>
      else if mStatus m = StatusInvalid then c\<lparr>jcOutcome := Skipped ''Mutant marked invalid''\<rparr>
      else c)"

definition outcomeXml :: "junitOutcome \<Rightarrow> xml list" where
  "outcomeXml out = (case out of Passed \<Rightarrow> []
     | Failure msg txt \<Rightarrow> [Elem ''failure'' [(''message'', msg)] txt []]
     | Skipped msg \<Rightarrow> [Elem ''skipped'' [(''message'', msg)] '''' []])"

definition caseXml :: "(rat \<Rightarrow> string) \<Rightarrow> junitTestCase \<Rightarrow> xml" where
  "caseXml fl c = Elem ''testcase'' [(''name'', jcName c), (''classname'', jcClassname c), (''time'', fl (jcTime c))]
     '''' (outcomeXml (jcOutcome c))"

definition junitSuite :: "(rat \<Rightarrow> string) \<Rightarrow> Mutant list \<Rightarrow> ReportStats \<Rightarrow> xml" where
  "junitSuite fl ms s = Elem ''testsuite'' [(''name'', ''Mutation Testing''), (''killed'', natText (rsKilled s)),
     (''survived'', natText (rsSurvived s)), (''untested'', natText (rsUntested s)), (''timeout'', natText (rsTimeout s)),
     (''compile_errors'', natText (rsCompileErrors s)), (''runtime_errors'', natText (rsRuntimeErrors s)),
     (''total_errors'', natText (rsTotalErrors s)), (''invalid'', natText (rsInvalid s)), (''total'', natText (rsTotal s)),
     (''score'', fl (rsScore s)), (''time'', fl 0)] '''' (map (\<lambda>m. caseXml fl (junitCase m)) ms)"

definition xmlHeader :: string where
  "xmlHeader = ''<?xml version='' @ [CHR 0x22] @ ''1.0'' @ [CHR 0x22] @ '' encoding='' @ [CHR 0x22] @ ''UTF-8'' @ [CHR 0x22] @ ''?>'' @ [newline]"

definition writeJUnitReport :: "(rat \<Rightarrow> string) \<Rightarrow> Mutant list \<Rightarrow> ReportStats \<Rightarrow> string" where
  "writeJUnitReport fl ms stats = xmlHeader @ xmlIndent 0 (junitSuite fl ms stats)"

subsection \<open>Reading the JSON report back\<close>

definition stringField :: "string \<Rightarrow> (string \<times> json) list \<Rightarrow> string" where
  "stringField k fs = (case map_of fs k of Some (JStr s) \<Rightarrow> s | _ \<Rightarrow> '''')"

definition intField :: "string \<Rightarrow> (string \<times> json) list \<Rightarrow> int" where
  "intField k fs = (case map_of fs k of Some (JNum t) \<Rightarrow> or_else 0 (Atoi t) | _ \<Rightarrow> 0)"

definition members :: "json \<Rightarrow> (string \<times> json) list" where
  "members v = (case v of JObj fs \<Rightarrow> fs | _ \<Rightarrow> [])"

definition readMutant :: "json \<Rightarrow> jsonMutant" where
  "readMutant v = (let fs = members v in
     \<lparr>jmID = intField ''id'' fs, jmStatus = stringField ''status'' fs, jmOperator = stringField ''operator'' fs,
      jmFile = stringField ''file'' fs, jmLine = intField ''line'' fs, jmColumn = intField ''column'' fs,
      jmKilledBy = stringField ''killed_by'' fs, jmError = stringField ''error'' fs\<rparr>)"

definition readMutants :: "nat \<Rightarrow> string \<Rightarrow> jsonMutant list option" where
  "readMutants n txt = (case readJson n txt of None \<Rightarrow> None
     | Some v \<Rightarrow> (case map_of (members v) ''mutants'' of Some (JArr vs) \<Rightarrow> Some (map readMutant vs) | _ \<Rightarrow> None))"

definition int64_range :: "int \<Rightarrow> bool" where
  "int64_range i \<longleftrightarrow> - (2 ^ 63) \<le> i \<and> i < 2 ^ 63"

definition machineMutant :: "Mutant \<Rightarrow> bool" where
  "machineMutant m \<longleftrightarrow> int64_range (mID m) \<and> int64_range (sLine (mSite m)) \<and> int64_range (sColumn (mSite m))"

lemma numeric_isDigit: "isDigit c \<Longrightarrow> numeric c"
proof -
  have "list_all (\<lambda>n. numeric (char_of (n::nat))) [48..<58]" by code_simp
  moreover assume "isDigit c"
  then have "of_char c \<in> set [48..<(58::nat)]" unfolding set_upt atLeastLessThan_iff by (simp add: isDigit_def)
  ultimately have "numeric (char_of (of_char c :: nat))" unfolding list_all_iff by (rule bspec)
  then show "numeric c" by simp
qed

lemma numeric_Itoa [simp]: "Itoa i \<noteq> [] \<and> list_all numeric (Itoa i)"
proof -
  have "numeric (CHR ''-'')" by (simp add: numeric_def)
  then show ?thesis by (auto simp: Itoa_def list_all_iff intro: numeric_isDigit natDigits_digits)
qed

lemma wellNumbered_parts [simp]:
  "wellNumbered (jsonNat n)" "wellNumbered (jsonInt i)" "wellNumbered (jsonMutantJson j)"
  "(\<And>r. fl r \<noteq> [] \<and> list_all numeric (fl r)) \<Longrightarrow> wellNumbered (statsJson fl s)"
  by (auto simp: jsonNat_def jsonInt_def natText_def jsonMutantJson_def omitEmpty_def statsJson_def)

lemma stringField_omitEmpty:
  "stringField ''killed_by'' (omitEmpty ''killed_by'' s @ omitEmpty ''error'' t) = s"
  "stringField ''error'' (omitEmpty ''killed_by'' s @ omitEmpty ''error'' t) = t"
  by (simp_all add: stringField_def omitEmpty_def)

lemma readMutant_back: "machineMutant m \<Longrightarrow> readMutant (jsonMutantJson (jsonMutantOf m)) = jsonMutantOf m"
  using stringField_omitEmpty [of "mKilledBy m" "or_else '''' (mError m)"]
  by (simp add: readMutant_def members_def jsonMutantJson_def jsonMutantOf_def machineMutant_def int64_range_def
      intField_def stringField_def jsonInt_def Let_def)

text \<open>
  C40. The JSON report reads back: its text determines, for every mutant and in the same order, the
  identifier, status, operator, file, line, column, killing test and error message. Floating point
  numbers may have any text made of digits, signs, a point and an exponent.
\<close>

theorem json_report_read_back:
  assumes "\<And>r. fl r \<noteq> [] \<and> list_all numeric (fl r)" and "list_all machineMutant ms"
    and "depth (jsonReport fl ms stats) \<le> n"
  shows "readMutants n (writeJSONReport fl ms stats) = Some (map jsonMutantOf ms)"
proof -
  have "wellNumbered (jsonReport fl ms stats)" using assms(1) by (simp add: jsonReport_def)
  then have "readJson n (writeJSONReport fl ms stats) = Some (jsonReport fl ms stats)"
    unfolding writeJSONReport_def by (rule readJson_back [OF _ assms(3)])
  then show ?thesis using assms(2)
    by (simp add: readMutants_def jsonReport_def members_def list_all_iff readMutant_back)
qed

subsection \<open>The other reports\<close>

definition survivor :: "Mutant \<Rightarrow> bool" where
  "survivor m \<longleftrightarrow> mStatus m = StatusSurvived"

lemma sarifLoop_facts:
  "map saRuleID (snd (sarifLoop ms)) = map operatorOf (filter survivor ms) \<and>
   distinct (map srID (fst (sarifLoop ms))) \<and>
   set (map srID (fst (sarifLoop ms))) = set (map saRuleID (snd (sarifLoop ms)))"
proof (induction ms rule: rev_induct)
  case Nil
  then show ?case by (simp add: sarifLoop_def)
next
  case (snoc m ms)
  have step: "sarifLoop (ms @ [m]) = sarifStep (sarifLoop ms) m" by (simp add: sarifLoop_def)
  obtain rules results where l: "sarifLoop ms = (rules, results)" by (cases "sarifLoop ms")
  show ?case using snoc.IH unfolding step l
    by (auto simp: sarifStep_def survivor_def operatorOf_def Let_def)
qed

text \<open>
  The SARIF log has a result for every survivor, in the order of the mutants and under its
  operator's rule, and one rule for each operator of a survivor. Without a survivor the results are
  \<open>null\<close>, which the format reserves for a run that produced no results because it failed.
\<close>

theorem sarif_results_exact:
  "map saRuleID (snd (sarifLoop ms)) = map operatorOf (filter survivor ms) \<and>
   distinct (map srID (fst (sarifLoop ms))) \<and>
   set (map srID (fst (sarifLoop ms))) = operatorOf ` set (filter survivor ms) \<and>
   (sliceJson resultJson (snd (sarifLoop ms)) = JNull \<longleftrightarrow> filter survivor ms = [])"
proof -
  note facts = sarifLoop_facts [of ms]
  have "snd (sarifLoop ms) = [] \<longleftrightarrow> filter survivor ms = []"
    using arg_cong [OF conjunct1 [OF facts], of length] by (metis length_0_conv length_map)
  moreover have "set (map saRuleID (snd (sarifLoop ms))) = operatorOf ` set (filter survivor ms)"
    by (simp only: conjunct1 [OF facts] list.set_map)
  then have "set (map srID (fst (sarifLoop ms))) = operatorOf ` set (filter survivor ms)"
    using conjunct2 [OF conjunct2 [OF facts]] by (rule trans [rotated])
  ultimately show ?thesis using conjunct1 [OF facts] conjunct1 [OF conjunct2 [OF facts]]
    by (simp add: sliceJson_def del: list.set_map set_filter)
qed

definition failed :: "junitOutcome \<Rightarrow> bool" where
  "failed out = (case out of Failure _ _ \<Rightarrow> True | _ \<Rightarrow> False)"

definition skipped :: "junitOutcome \<Rightarrow> bool" where
  "skipped out = (case out of Skipped _ \<Rightarrow> True | _ \<Rightarrow> False)"

lemma junit_outcomes:
  "length (filter (\<lambda>m. failed (jcOutcome (junitCase m))) ms) =
     withStatus StatusSurvived ms + withStatus StatusTimeout ms + withStatus StatusError ms"
  "length (filter (\<lambda>m. skipped (jcOutcome (junitCase m))) ms) = withStatus StatusUntested ms + withStatus StatusInvalid ms"
  by (induction ms) (auto simp: junitCase_def Let_def withStatus_def failed_def skipped_def status_names)

text \<open>
  The JUnit report agrees with the counts: the failed cases are the survivors, the timeouts and
  the errors, the skipped ones the untested and the invalid mutants.
\<close>

theorem junit_agrees_with_stats:
  fixes ms t
  defines "s \<equiv> computeStats ms t" and "cases \<equiv> map (jcOutcome \<circ> junitCase) ms"
  shows "length (filter failed cases) = rsSurvived s + rsTimeout s + rsTotalErrors s \<and>
     length (filter skipped cases) = rsUntested s + rsInvalid s"
  using counted_errors [of "zeroStats\<lparr>rsTotal := t\<rparr>" ms]
  by (simp add: s_def cases_def computeStats_def finishStats_def counted_statuses zeroStats_def filter_map o_def junit_outcomes)

theorem json_report_read_back_witness:
  "readMutants 100 (writeJSONReport (\<lambda>r. ''0'') demoKills zeroStats) = Some (map jsonMutantOf demoKills)"
proof (rule json_report_read_back)
  show "''0'' \<noteq> [] \<and> list_all numeric ''0''" by (simp add: numeric_def)
  show "list_all machineMutant demoKills" by (simp add: demoKills_def machineMutant_def int64_range_def sampleMutant_def newMutant_def)
  show "depth (jsonReport (\<lambda>r. ''0'') demoKills zeroStats) \<le> 100"
    by (simp add: demoKills_def jsonReport_def statsJson_def jsonMutantJson_def jsonMutantOf_def omitEmpty_def
        jsonNat_def jsonInt_def sampleMutant_def newMutant_def zeroStats_def)
qed

end
