(* ===== verification/ReportTree.thy ===== *)
theory ReportTree
  imports ReportText "HOL-Library.Product_Lexorder"
begin

text \<open>
  The data of the HTML report (\<open>internal/reporter/html.go\<close>): mutants by file and line, the status
  of a line, the score of a file and the tree of files. Maps that the source ranges over are
  lists; the last section shows that their order does not matter for what the page shows. The
  page itself is made by \<open>html/template\<close> from this data.
\<close>

subsection \<open>Mutants by file and line\<close>

type_synonym lineMutants = "(int \<times> Mutant list) list"

definition addToLine :: "Mutant \<Rightarrow> lineMutants \<Rightarrow> lineMutants" where
  "addToLine m ls = (let ln = sLine (mSite m) in AList.update ln (or_else [] (map_of ls ln) @ [m]) ls)"

definition addToFile :: "(string \<times> lineMutants) list \<Rightarrow> Mutant \<Rightarrow> (string \<times> lineMutants) list" where
  "addToFile byFile m = (let f = sFile (mSite m) in AList.update f (addToLine m (or_else [] (map_of byFile f))) byFile)"

definition GroupMutantsByFile :: "Mutant list \<Rightarrow> (string \<times> lineMutants) list" where
  "GroupMutantsByFile ms = foldl addToFile [] ms"

subsection \<open>Lines\<close>

record MutantInfo =
  miID :: int
  miOperator :: string
  miStatus :: string
  miKilledBy :: string

record LineCoverage =
  lcNumber :: int
  lcContent :: string
  lcStatus :: string
  lcMutants :: "MutantInfo list"

record lineFlags =
  lfAllKilled :: bool
  lfSurvived :: bool
  lfError :: bool
  lfUntested :: bool
  lfTimeout :: bool

definition flagStep :: "lineFlags \<Rightarrow> Mutant \<Rightarrow> lineFlags" where
  "flagStep fl m =
     (if mStatus m = StatusSurvived then fl\<lparr>lfSurvived := True, lfAllKilled := False\<rparr>
      else if mStatus m = StatusUntested then fl\<lparr>lfUntested := True, lfAllKilled := False\<rparr>
      else if mStatus m = StatusTimeout then fl\<lparr>lfTimeout := True, lfAllKilled := False\<rparr>
      else if mStatus m = StatusError then fl\<lparr>lfError := True, lfAllKilled := False\<rparr>
      else if mStatus m = StatusKilled then fl
      else fl\<lparr>lfAllKilled := False\<rparr>)"

definition flagStatus :: "lineFlags \<Rightarrow> string" where
  "flagStatus fl = (if lfSurvived fl then StatusSurvived else if lfTimeout fl then StatusTimeout
     else if lfUntested fl then StatusUntested else if lfError fl then StatusError
     else if lfAllKilled fl then StatusKilled else ''none'')"

definition lineStatus :: "Mutant list \<Rightarrow> string" where
  "lineStatus ms = flagStatus (foldl flagStep
     \<lparr>lfAllKilled = True, lfSurvived = False, lfError = False, lfUntested = False, lfTimeout = False\<rparr> ms)"

definition mutantInfo :: "Mutant \<Rightarrow> MutantInfo" where
  "mutantInfo m = \<lparr>miID = mID m, miOperator = OpName (mOperator m), miStatus = mStatus m, miKilledBy = mKilledBy m\<rparr>"

definition coverLine :: "lineMutants \<Rightarrow> int \<Rightarrow> string \<Rightarrow> LineCoverage" where
  "coverLine ls n content = (case map_of ls n of
     None \<Rightarrow> \<lparr>lcNumber = n, lcContent = content, lcStatus = ''none'', lcMutants = []\<rparr>
   | Some ms \<Rightarrow> \<lparr>lcNumber = n, lcContent = content, lcStatus = lineStatus ms, lcMutants = map mutantInfo ms\<rparr>)"

fun coverLines :: "lineMutants \<Rightarrow> int \<Rightarrow> string list \<Rightarrow> LineCoverage list" where
  "coverLines ls n [] = []"
| "coverLines ls n (c # cs) = coverLine ls n c # coverLines ls (n + 1) cs"

subsection \<open>Files\<close>

record FileData =
  fiPath :: string
  fiRelPath :: string
  fiLines :: "LineCoverage list"
  fiScore :: rat
  fiScoreClass :: string

definition fileScore :: "lineMutants \<Rightarrow> rat" where
  "fileScore ls = (let ms = concat (map snd ls) in
     CalculateScore (length (filter (\<lambda>m. mStatus m = StatusKilled) ms))
       (length (filter (\<lambda>m. mStatus m = StatusSurvived) ms))
       (length (filter (\<lambda>m. mStatus m = StatusUntested) ms))
       (length (filter (\<lambda>m. mStatus m = StatusTimeout) ms)))"

definition fileData ::
  "(string \<Rightarrow> string option) \<Rightarrow> string \<Rightarrow> rat \<Rightarrow> Resolver option \<Rightarrow> string \<times> lineMutants \<Rightarrow> FileData option" where
  "fileData readFile cwd threshold resolver = (\<lambda>(f, ls). case readFile f of
     None \<Rightarrow> None
   | Some content \<Rightarrow>
     (let score = fileScore ls;
          fileThreshold = (case resolver of Some r \<Rightarrow> EffectiveThreshold cwd r f threshold | None \<Rightarrow> threshold)
      in Some \<lparr>fiPath = f,
           fiRelPath = (if cwd \<noteq> '''' then or_else f (Rel cwd f) else f),
           fiLines = coverLines ls 1 (Split content newline),
           fiScore = score, fiScoreClass = ScoreClass score fileThreshold\<rparr>))"

definition filesData ::
  "(string \<Rightarrow> string option) \<Rightarrow> string \<Rightarrow> rat \<Rightarrow> Resolver option \<Rightarrow> Mutant list \<Rightarrow> FileData list" where
  "filesData readFile cwd threshold resolver ms =
     List.map_filter (fileData readFile cwd threshold resolver) (GroupMutantsByFile ms)"

subsection \<open>The tree of files\<close>

datatype (plugins only: size code) treeNode =
  TreeNode (tnName: string) (tnPath: string) (tnIsDir: bool) (tnChildren: "treeNode list") (tnScore: rat) (tnClass: string)

fun childNamed :: "string \<Rightarrow> treeNode list \<Rightarrow> treeNode option" where
  "childNamed p [] = None"
| "childNamed p (c # cs) = (if tnName c = p then Some c else childNamed p cs)"

fun replaceChild :: "string \<Rightarrow> treeNode list \<Rightarrow> treeNode list \<Rightarrow> treeNode list" where
  "replaceChild p ks [] = []"
| "replaceChild p ks (c # cs) =
     (if tnName c = p then TreeNode (tnName c) (tnPath c) (tnIsDir c) ks (tnScore c) (tnClass c) # cs
      else c # replaceChild p ks cs)"

text \<open>
  The loop over the parts of a path: \<open>cs\<close> are the children of the current node, the result are
  its children after the loop.
\<close>

fun insertParts :: "FileData \<Rightarrow> string list \<Rightarrow> treeNode list \<Rightarrow> treeNode list" where
  "insertParts fd [] cs = cs"
| "insertParts fd (p # ps) cs = (case childNamed p cs of
     Some c \<Rightarrow> replaceChild p (insertParts fd ps (tnChildren c)) cs
   | None \<Rightarrow> cs @ [TreeNode p (fiPath fd) (ps \<noteq> []) (insertParts fd ps [])
        (if ps = [] then fiScore fd else 0) (if ps = [] then fiScoreClass fd else '''')])"

definition insertFile :: "treeNode list \<Rightarrow> FileData \<Rightarrow> treeNode list" where
  "insertFile cs fd = insertParts fd (Split (fiRelPath fd) (CHR ''/'')) cs"

definition treeOrder :: "treeNode \<Rightarrow> bool \<times> string" where
  "treeOrder c = (\<not> tnIsDir c, tnName c)"

fun sortTree :: "treeNode \<Rightarrow> treeNode" where
  "sortTree (TreeNode n p d cs s k) =
     TreeNode n p d (map (\<lambda>c. if tnIsDir c then sortTree c else c) (sort_key treeOrder cs)) s k"

definition buildTree :: "FileData list \<Rightarrow> treeNode" where
  "buildTree fds = sortTree (TreeNode ''root'' '''' True (foldl insertFile [] fds) 0 '''')"

record ReportData =
  rdStats :: ReportStats
  rdScoreClass :: string
  rdTree :: treeNode
  rdFiles :: "FileData list"

definition htmlData ::
  "(string \<Rightarrow> string option) \<Rightarrow> string \<Rightarrow> Mutant list \<Rightarrow> ReportStats \<Rightarrow> rat \<Rightarrow> Resolver option \<Rightarrow> ReportData" where
  "htmlData readFile cwd ms stats threshold resolver =
     (let fds = filesData readFile cwd threshold resolver ms in
      \<lparr>rdStats = stats, rdScoreClass = ScoreClass (rsScore stats) threshold, rdTree = buildTree fds, rdFiles = fds\<rparr>)"

subsection \<open>What a line shows\<close>

definition onLine :: "string \<Rightarrow> int \<Rightarrow> Mutant list \<Rightarrow> Mutant list" where
  "onLine f n ms = filter (\<lambda>m. sFile (mSite m) = f \<and> sLine (mSite m) = n) ms"

lemma GroupMutantsByFile_exact:
  "map_of (or_else [] (map_of (GroupMutantsByFile ms) f)) n = (if onLine f n ms = [] then None else Some (onLine f n ms))"
proof (induction ms rule: rev_induct)
  case Nil
  then show ?case by (simp add: GroupMutantsByFile_def onLine_def)
next
  case (snoc m ms)
  have step: "GroupMutantsByFile (ms @ [m]) = addToFile (GroupMutantsByFile ms) m" by (simp add: GroupMutantsByFile_def)
  have here: "onLine f n (ms @ [m]) = onLine f n ms @ (if sFile (mSite m) = f \<and> sLine (mSite m) = n then [m] else [])"
    by (simp add: onLine_def)
  show ?case using snoc.IH unfolding step here addToFile_def addToLine_def Let_def
    by (auto simp: update_conv')
qed

lemma flags_exact:
  "foldl flagStep fl ms = \<lparr>lfAllKilled = lfAllKilled fl \<and> list_all (\<lambda>m. mStatus m = StatusKilled) ms,
     lfSurvived = lfSurvived fl \<or> list_ex (\<lambda>m. mStatus m = StatusSurvived) ms,
     lfError = lfError fl \<or> list_ex (\<lambda>m. mStatus m = StatusError) ms,
     lfUntested = lfUntested fl \<or> list_ex (\<lambda>m. mStatus m = StatusUntested) ms,
     lfTimeout = lfTimeout fl \<or> list_ex (\<lambda>m. mStatus m = StatusTimeout) ms\<rparr>"
  by (induction ms arbitrary: fl) (auto simp: flagStep_def status_names)

text \<open>The first status, in the order of severity, that a mutant of the line has.\<close>

definition worstStatus :: "Mutant list \<Rightarrow> string" where
  "worstStatus ms = (case find (\<lambda>s. s \<in> set (map mStatus ms)) [StatusSurvived, StatusTimeout, StatusUntested, StatusError] of
     Some s \<Rightarrow> s | None \<Rightarrow> if list_all (\<lambda>m. mStatus m = StatusKilled) ms then StatusKilled else ''none'')"

lemma lineStatus_worst: "lineStatus ms = worstStatus ms"
  unfolding lineStatus_def flags_exact
  by (auto simp: worstStatus_def flagStatus_def list_ex_iff image_iff split: option.splits)

lemma coverLines_nth: "i < length cs \<Longrightarrow> coverLines ls n cs ! i = coverLine ls (n + int i) (cs ! i)"
  by (induction cs arbitrary: n i) (auto simp: nth_Cons algebra_simps split: nat.splits)

lemma length_coverLines: "length (coverLines ls n cs) = length cs"
  by (induction cs arbitrary: n) auto

text \<open>
  A line of the HTML report shows its text, exactly the mutants generated on it, in order, and the
  worst of their statuses: survived before timeout before untested before error before killed.
\<close>

theorem html_lines_exact:
  fixes ms f
  defines "ls \<equiv> or_else [] (map_of (GroupMutantsByFile ms) f)"
  shows "length (coverLines ls 1 texts) = length texts \<and>
    (\<forall>i < length texts. coverLines ls 1 texts ! i =
       \<lparr>lcNumber = int i + 1, lcContent = texts ! i,
        lcStatus = (if onLine f (int i + 1) ms = [] then ''none'' else worstStatus (onLine f (int i + 1) ms)),
        lcMutants = map mutantInfo (onLine f (int i + 1) ms)\<rparr>)"
  by (simp add: ls_def length_coverLines coverLines_nth coverLine_def GroupMutantsByFile_exact lineStatus_worst add.commute)

subsection \<open>The tree does not depend on the order of the files\<close>

type_synonym nodeInfo = "bool \<times> (string \<times> rat \<times> string) option"

definition nodeInfo :: "treeNode \<Rightarrow> nodeInfo" where
  "nodeInfo c = (tnIsDir c, if tnIsDir c then None else Some (tnPath c, tnScore c, tnClass c))"

fun nodeAt :: "treeNode list \<Rightarrow> string list \<Rightarrow> nodeInfo option" where
  "nodeAt cs [] = None"
| "nodeAt cs (p # ps) = (case childNamed p cs of None \<Rightarrow> None
     | Some c \<Rightarrow> if ps = [] then Some (nodeInfo c) else nodeAt (tnChildren c) ps)"

definition newInfo :: "FileData \<Rightarrow> string list \<Rightarrow> string list \<Rightarrow> nodeInfo" where
  "newInfo fd ps q = (if q = ps then (False, Some (fiPath fd, fiScore fd, fiScoreClass fd)) else (True, None))"

definition begins :: "string list \<Rightarrow> string list \<Rightarrow> bool" where
  "begins q ps \<longleftrightarrow> take (length q) ps = q"

lemma begins_simps [simp]:
  "begins [] ps" "begins (a # q) (b # ps) \<longleftrightarrow> a = b \<and> begins q ps" "\<not> begins (a # q) []"
  by (auto simp: begins_def)

lemma childNamed_append: "childNamed p (as @ bs) = (case childNamed p as of None \<Rightarrow> childNamed p bs | Some c \<Rightarrow> Some c)"
  by (induction as) auto

lemma childNamed_name: "childNamed p cs = Some c \<Longrightarrow> tnName c = p \<and> c \<in> set cs"
  by (induction cs) (auto split: if_splits)

definition withKids :: "treeNode list \<Rightarrow> treeNode \<Rightarrow> treeNode" where
  "withKids ks c = TreeNode (tnName c) (tnPath c) (tnIsDir c) ks (tnScore c) (tnClass c)"

lemma childNamed_replaceChild:
  "childNamed q (replaceChild p ks cs) = (if q = p then map_option (withKids ks) (childNamed p cs) else childNamed q cs)"
  by (induction cs) (auto simp: withKids_def [abs_def])

lemma newInfo_Cons: "newInfo fd (p # ps) (p # q) = newInfo fd ps q"
  by (simp add: newInfo_def)

lemma nodeAt_insertParts:
  "nodeAt (insertParts fd ps cs) q =
     (case nodeAt cs q of Some i \<Rightarrow> Some i | None \<Rightarrow> if q \<noteq> [] \<and> begins q ps then Some (newInfo fd ps q) else None)"
proof (induction fd ps cs arbitrary: q rule: insertParts.induct)
  case (1 fd cs)
  then show ?case by (cases q) (auto split: option.splits)
next
  case (2 fd p ps cs)
  show ?case
  proof (cases q)
    case (Cons a q')
    show ?thesis
    proof (cases "childNamed p cs")
      case None
      then show ?thesis using Cons 2(1) [OF None, of q']
        by (cases q') (auto simp: childNamed_append newInfo_def nodeInfo_def split: option.splits)
    next
      case (Some c)
      then show ?thesis using Cons 2(2) [OF Some, of q']
        by (cases q') (auto simp: childNamed_replaceChild withKids_def nodeInfo_def newInfo_Cons split: option.splits)
    qed
  qed simp
qed

definition partsOf :: "FileData \<Rightarrow> string list" where
  "partsOf fd = Split (fiRelPath fd) (CHR ''/'')"

lemma nodeAt_foldl:
  "nodeAt (foldl insertFile [] fds) q =
     (if q = [] then None else map_option (\<lambda>fd. newInfo fd (partsOf fd) q) (find (\<lambda>fd. begins q (partsOf fd)) fds))"
proof (induction fds rule: rev_induct)
  case (snoc fd fds)
  have "find P (fds @ [fd]) = (case find P fds of None \<Rightarrow> if P fd then Some fd else None | Some x \<Rightarrow> Some x)" for P
    by (induction fds) auto
  then show ?case using snoc by (auto simp: insertFile_def partsOf_def [symmetric] nodeAt_insertParts split: option.splits)
qed (cases q; simp)

lemma children_smaller [termination_simp]: "c \<in> set cs \<Longrightarrow> size_list size (tnChildren c) < size_list size cs"
  using size_list_estimation' [of c cs "size c" size] by (cases c) auto

text \<open>Among the children of a node every name occurs once.\<close>

fun uniqueNames :: "treeNode list \<Rightarrow> bool" where
  "uniqueNames cs \<longleftrightarrow> distinct (map tnName cs) \<and> (\<forall>c \<in> set cs. uniqueNames (tnChildren c))"

declare uniqueNames.simps [simp del]

lemma replaceChild_names: "map tnName (replaceChild p ks cs) = map tnName cs"
  by (induction cs) auto

lemma replaceChild_mem: "c \<in> set (replaceChild p ks cs) \<Longrightarrow> c \<in> set cs \<or> tnChildren c = ks"
  by (induction cs) (auto split: if_splits)

lemma childNamed_None: "childNamed p cs = None \<longleftrightarrow> p \<notin> tnName ` set cs"
  by (induction cs) auto

lemma uniqueNames_insertParts: "uniqueNames cs \<Longrightarrow> uniqueNames (insertParts fd ps cs)"
proof (induction fd ps cs rule: insertParts.induct)
  case (2 fd p ps cs)
  have nil: "uniqueNames []" by (simp add: uniqueNames.simps [of "[]"])
  note u = 2(3) [unfolded uniqueNames.simps [of cs]]
  show ?case
  proof (cases "childNamed p cs")
    case None
    then have "p \<notin> tnName ` set cs" by (simp add: childNamed_None)
    then show ?thesis using 2(1) [OF None nil] u by (subst uniqueNames.simps) (auto simp: None)
  next
    case (Some c)
    then have "uniqueNames (insertParts fd ps (tnChildren c))" using 2(2) [OF Some] u childNamed_name [OF Some] by blast
    then show ?thesis using Some u
      by (subst uniqueNames.simps) (auto simp: replaceChild_names dest!: replaceChild_mem)
  qed
qed simp

lemma uniqueNames_foldl: "uniqueNames cs \<Longrightarrow> uniqueNames (foldl insertFile cs fds)"
  by (induction fds arbitrary: cs) (auto simp: insertFile_def uniqueNames_insertParts)

text \<open>What the page shows of a node: nothing of the path of a directory, no children of a file.\<close>

fun shown :: "treeNode \<Rightarrow> treeNode" where
  "shown (TreeNode n p d cs s k) = (if d then TreeNode n '''' True (map shown cs) 0 '''' else TreeNode n p False [] s k)"

definition sortBelow :: "treeNode \<Rightarrow> treeNode" where
  "sortBelow c = (if tnIsDir c then sortTree c else c)"

definition page :: "treeNode list \<Rightarrow> treeNode list" where
  "page cs = map (shown \<circ> sortBelow) (sort_key treeOrder cs)"

lemma shown_sortBelow:
  "shown (sortBelow c) = (if tnIsDir c then TreeNode (tnName c) '''' True (page (tnChildren c)) 0 ''''
     else TreeNode (tnName c) (tnPath c) False [] (tnScore c) (tnClass c))"
  by (cases c) (auto simp: sortBelow_def page_def)

lemma childNamed_unique: "distinct (map tnName cs) \<Longrightarrow> c \<in> set cs \<Longrightarrow> childNamed (tnName c) cs = Some c"
  by (induction cs) (auto simp: rev_image_eqI)

lemma keys_of_nodeAt:
  "distinct (map tnName cs) \<Longrightarrow> treeOrder ` set cs = {(b, p). \<exists>x. nodeAt cs [p] = Some (\<not> b, x)}"
proof (intro set_eqI iffI)
  fix y assume d: "distinct (map tnName cs)" and "y \<in> treeOrder ` set cs"
  then obtain c where "c \<in> set cs" "y = treeOrder c" by auto
  then show "y \<in> {(b, p). \<exists>x. nodeAt cs [p] = Some (\<not> b, x)}"
    by (simp add: treeOrder_def childNamed_unique [OF d] nodeInfo_def)
next
  fix y assume "y \<in> {(b, p). \<exists>x. nodeAt cs [p] = Some (\<not> b, x)}"
  then obtain c where "childNamed (snd y) cs = Some c" "fst y = (\<not> tnIsDir c)"
    by (auto simp: nodeInfo_def split: option.splits)
  then show "y \<in> treeOrder ` set cs"
    using childNamed_name [of "snd y" cs c] by (auto simp: treeOrder_def image_iff intro!: bexI [of _ c] prod_eqI)
qed

lemma page_by_keys:
  assumes "distinct (map tnName cs)"
  shows "page cs = map (\<lambda>k. shown (sortBelow (the (childNamed (snd k) cs)))) (sorted_list_of_set (treeOrder ` set cs))"
proof -
  have "inj_on treeOrder (set cs)" using assms by (auto simp: inj_on_def treeOrder_def distinct_map)
  then have d: "distinct (map treeOrder (sort_key treeOrder cs))" using assms by (simp add: distinct_map)
  have "map treeOrder (sort_key treeOrder cs) = sorted_list_of_set (treeOrder ` set cs)"
    by (rule sorted_distinct_set_unique) (use d in simp_all)
  moreover have "page cs = map (\<lambda>k. shown (sortBelow (the (childNamed (snd k) cs)))) (map treeOrder (sort_key treeOrder cs))"
    using assms by (auto simp: page_def treeOrder_def childNamed_unique)
  ultimately show ?thesis by simp
qed

lemma page_extensional:
  "uniqueNames cs \<Longrightarrow> uniqueNames cs' \<Longrightarrow> (\<And>q. nodeAt cs q = nodeAt cs' q) \<Longrightarrow> page cs = page cs'"
proof (induction "size_list size cs" arbitrary: cs cs' rule: less_induct)
  case less
  note u = less.prems(1) [unfolded uniqueNames.simps [of cs]] and u' = less.prems(2) [unfolded uniqueNames.simps [of cs']]
  have keys: "treeOrder ` set cs = treeOrder ` set cs'"
    using u u' by (simp only: keys_of_nodeAt less.prems(3))
  have "shown (sortBelow (the (childNamed p cs))) = shown (sortBelow (the (childNamed p cs')))"
    if "p \<in> tnName ` set cs" for p
  proof -
    note named = that
    obtain c where c: "childNamed p cs = Some c" using named childNamed_None [of p cs] by (cases "childNamed p cs") auto
    with less.prems(3) [of "[p]"] obtain c' where c': "childNamed p cs' = Some c'" by (auto split: option.splits)
    have info: "nodeInfo c = nodeInfo c'" using less.prems(3) [of "[p]"] c c' by simp
    have mem: "c \<in> set cs" "c' \<in> set cs'" "tnName c = p" "tnName c' = p"
      using childNamed_name [OF c] childNamed_name [OF c'] by auto
    have "nodeAt (tnChildren c) q = nodeAt (tnChildren c') q" for q
      using less.prems(3) [of "p # q"] c c' by (cases q) auto
    moreover have "size_list size (tnChildren c) < size_list size cs"
      by (rule children_smaller [OF mem(1)])
    ultimately have "page (tnChildren c) = page (tnChildren c')" using less.hyps u u' mem by blast
    then show ?thesis using c c' info mem by (auto simp: shown_sortBelow nodeInfo_def split: if_splits)
  qed
  then have "shown (sortBelow (the (childNamed (snd k) cs))) = shown (sortBelow (the (childNamed (snd k) cs')))"
    if "k \<in> set (sorted_list_of_set (treeOrder ` set cs))" for k
    using that by (auto simp: treeOrder_def)
  then show ?case
    unfolding page_by_keys [OF conjunct1 [OF u]] page_by_keys [OF conjunct1 [OF u']] keys [symmetric]
    by (rule map_cong [OF refl])
qed

text \<open>No file's path lies below another file's.\<close>

definition separate :: "FileData list \<Rightarrow> bool" where
  "separate fds \<longleftrightarrow> (\<forall>fd \<in> set fds. \<forall>fd' \<in> set fds. begins (partsOf fd) (partsOf fd') \<longrightarrow> fd = fd')"

lemma newInfo_unique:
  assumes "separate fds" "fd \<in> set fds" "fd' \<in> set fds" "begins q (partsOf fd)" "begins q (partsOf fd')"
  shows "newInfo fd (partsOf fd) q = newInfo fd' (partsOf fd') q"
  using assms unfolding separate_def newInfo_def by (cases "q = partsOf fd \<or> q = partsOf fd'") auto

lemma nodeAt_found:
  assumes "separate fds" "fd \<in> set fds" "begins q (partsOf fd)" "q \<noteq> []"
  shows "nodeAt (foldl insertFile [] fds) q = Some (newInfo fd (partsOf fd) q)"
proof -
  have "find (\<lambda>fd. begins q (partsOf fd)) fds \<noteq> None" using assms by (auto simp: find_None_iff)
  then obtain fd' where f: "find (\<lambda>fd. begins q (partsOf fd)) fds = Some fd'" by auto
  then have "fd' \<in> set fds" "begins q (partsOf fd')" by (auto simp: find_Some_iff)
  then show ?thesis using newInfo_unique [OF assms(1,2) _ assms(3)] assms(4) by (simp add: nodeAt_foldl f)
qed

lemma nodeAt_missing: "q = [] \<or> (\<forall>fd \<in> set fds. \<not> begins q (partsOf fd)) \<Longrightarrow> nodeAt (foldl insertFile [] fds) q = None"
  by (auto simp: nodeAt_foldl find_None_iff)

lemma page_of_buildTree: "shown (buildTree fds) = TreeNode ''root'' '''' True (page (foldl insertFile [] fds)) 0 ''''"
  by (simp add: buildTree_def page_def sortBelow_def comp_def)

text \<open>
  The tree of the HTML report does not depend on the order in which the map of files is iterated:
  for files that do not lie below one another every order gives the same displayed tree, and
  every file is a leaf at its relative path with its own score and colour.
\<close>

theorem html_tree_order_independent:
  assumes "set fds = set fds'" and "separate fds"
  shows "shown (buildTree fds) = shown (buildTree fds') \<and>
    (\<forall>fd \<in> set fds. nodeAt (foldl insertFile [] fds) (partsOf fd) = Some (False, Some (fiPath fd, fiScore fd, fiScoreClass fd)))"
proof -
  have sep': "separate fds'" using assms by (simp add: separate_def)
  have unique: "uniqueNames (foldl insertFile [] xs)" for xs
    by (rule uniqueNames_foldl) (simp add: uniqueNames.simps [of "[]"])
  have "nodeAt (foldl insertFile [] fds) q = nodeAt (foldl insertFile [] fds') q" for q
  proof (cases "q \<noteq> [] \<and> (\<exists>fd \<in> set fds. begins q (partsOf fd))")
    case True
    then obtain fd where fd: "fd \<in> set fds" "begins q (partsOf fd)" "q \<noteq> []" by blast
    then show ?thesis
      using nodeAt_found [OF assms(2) fd] nodeAt_found [OF sep' _ fd(2,3)] assms(1) by simp
  next
    case False
    then show ?thesis using assms(1) nodeAt_missing [of q fds] nodeAt_missing [of q fds'] by auto
  qed
  then have "page (foldl insertFile [] fds) = page (foldl insertFile [] fds')"
    by (intro page_extensional unique)
  moreover have "partsOf fd \<noteq> []" for fd by (simp add: partsOf_def)
  then have "\<forall>fd \<in> set fds. nodeAt (foldl insertFile [] fds) (partsOf fd) = Some (False, Some (fiPath fd, fiScore fd, fiScoreClass fd))"
    by (auto simp: nodeAt_found [OF assms(2)] newInfo_def begins_def)
  ultimately show ?thesis by (simp add: page_of_buildTree)
qed

definition demoFiles :: "FileData list" where
  "demoFiles = map (\<lambda>f. \<lparr>fiPath = ''/p/'' @ f, fiRelPath = f, fiLines = [], fiScore = 50, fiScoreClass = ''amber''\<rparr>)
     [''b/x.go'', ''a.go'', ''b/c/y.go'']"

theorem html_tree_order_independent_witness:
  "shown (buildTree demoFiles) = shown (buildTree (rev demoFiles))"
proof -
  have "separate demoFiles" unfolding separate_def demoFiles_def partsOf_def begins_def by simp
  then show ?thesis using html_tree_order_independent [of demoFiles "rev demoFiles"] by simp
qed

definition demoLines :: "LineCoverage list" where
  "demoLines = coverLines (or_else [] (map_of (GroupMutantsByFile demoKills) ''a.go'')) 1 [''x'', ''y'']"

theorem html_lines_exact_witness:
  "lcStatus (demoLines ! 0) = ''killed'' \<and> length (lcMutants (demoLines ! 0)) = 3 \<and> lcStatus (demoLines ! 1) = ''none''"
proof -
  have lines: "onLine ''a.go'' 1 demoKills = demoKills" "onLine ''a.go'' 2 demoKills = []"
    by (simp_all add: onLine_def demoKills_def sampleMutant_def newMutant_def)
  have worst: "worstStatus demoKills = ''killed''" by (simp add: worstStatus_def demoKills_def status_names)
  have three: "length demoKills = 3" by (simp add: demoKills_def)
  then have "demoKills \<noteq> []" by auto
  with html_lines_exact [where texts = "[''x'', ''y'']" and ms = demoKills and f = "''a.go''"] three worst lines
  show ?thesis unfolding demoLines_def by (simp add: numeral_2_eq_2 All_less_Suc)
qed

end
