(* ===== verification/ReportRun.thy ===== *)
theory ReportRun
  imports ReportFiles ReportTree
begin

text \<open>
  One report: \<open>Report\<close> of \<open>internal/reporter/reporter.go\<close>. The stages are run in the source's
  order: baseline, debug file, the first output, the terminal, the further outputs, thresholds.
  What is written is a list of events; \<open>rioWrite\<close> says which files can be written.
\<close>

datatype reportContents = TextBody string | PageBody ReportData

datatype reportEvent = Terminal string | DebugAppended string string | Written string string reportContents
  | Warned string string | Printed string

record ReportIO =
  rioRead :: "string \<Rightarrow> string option"
  rioWrite :: "string \<Rightarrow> string \<Rightarrow> bool"
  rioDebug :: "string \<Rightarrow> bool"
  rioCwd :: string
  rioJsonFloat :: "rat \<Rightarrow> string"
  rioXmlFloat :: "rat \<Rightarrow> string"
  rioBaseline :: BaselineIO

record ReportArgs =
  raThreshold :: rat
  raResolver :: "Resolver option"
  raDebug :: bool
  raShowKilled :: bool
  raShowSurvived :: bool
  raOutputFile :: string
  raDebugFile :: string
  raFormat :: string
  raOptions :: BaselineOptions

definition reportFormats :: "string list" where
  "reportFormats = [''textfile'', ''html'', ''junit'', ''sarif'', ''json'']"

definition reportBody :: "ReportIO \<Rightarrow> ReportArgs \<Rightarrow> Mutant list \<Rightarrow> ReportStats \<Rightarrow> string \<Rightarrow> reportContents" where
  "reportBody io a ms stats format =
     (if format = ''textfile'' then TextBody (textReport (rioRead io) ms stats (raDebug a) (raShowKilled a) (raShowSurvived a))
      else if format = ''html'' then PageBody (htmlData (rioRead io) (rioCwd io) ms stats (raThreshold a) (raResolver a))
      else if format = ''junit'' then TextBody (writeJUnitReport (rioXmlFloat io) ms stats)
      else if format = ''sarif'' then TextBody (writeSARIFReport (rioJsonFloat io) ms stats)
      else TextBody (writeJSONReport (rioJsonFloat io) ms stats))"

definition terminalReport :: "ReportIO \<Rightarrow> ReportArgs \<Rightarrow> Mutant list \<Rightarrow> ReportStats \<Rightarrow> reportEvent" where
  "terminalReport io a ms stats =
     Terminal (textReport (rioRead io) ms stats (raDebug a) (raShowKilled a) (raShowSurvived a))"

text \<open>The first output: an unknown format writes nothing, and a failure ends the report.\<close>

definition firstOutput ::
  "ReportIO \<Rightarrow> ReportArgs \<Rightarrow> Mutant list \<Rightarrow> ReportStats \<Rightarrow> reportEvent list \<times> reportError option" where
  "firstOutput io a ms stats =
     (if (raOutputFile a \<noteq> '''' \<or> raFormat a = ''textfile'') \<and> raFormat a \<in> set reportFormats then
        (if raOutputFile a = '''' then ([terminalReport io a ms stats], None)
         else if rioWrite io (raFormat a) (raOutputFile a) then
           ([Written (raFormat a) (raOutputFile a) (reportBody io a ms stats (raFormat a))], None)
         else ([], Some (WriteFailed (raFormat a))))
      else ([], None))"

definition terminalOutput :: "ReportIO \<Rightarrow> ReportArgs \<Rightarrow> Mutant list \<Rightarrow> ReportStats \<Rightarrow> reportEvent list" where
  "terminalOutput io a ms stats =
     (if raOutputFile a \<noteq> '''' \<or> raFormat a \<noteq> ''textfile'' then [terminalReport io a ms stats] else [])"

text \<open>A pair of format and file, if the entry names both.\<close>

definition outputSpec :: "string \<Rightarrow> (string \<times> string) option" where
  "outputSpec spec = (case SplitN2 spec (CHR '':'') of
     [a, b] \<Rightarrow> if TrimSpace b = '''' then None else Some (TrimSpace a, TrimSpace b)
   | _ \<Rightarrow> None)"

definition furtherOutput ::
  "ReportIO \<Rightarrow> ReportArgs \<Rightarrow> Mutant list \<Rightarrow> ReportStats \<Rightarrow> string \<Rightarrow> reportEvent list" where
  "furtherOutput io a ms stats spec = (case outputSpec spec of
     None \<Rightarrow> []
   | Some (format, f) \<Rightarrow>
       if format = raFormat a \<and> f = raOutputFile a then []
       else if format \<in> set reportFormats then
         (if rioWrite io format f then [Written format f (reportBody io a ms stats format)] else [Warned format f])
       else [])"

definition debugOutput :: "ReportIO \<Rightarrow> ReportArgs \<Rightarrow> Mutant list \<Rightarrow> ReportStats \<Rightarrow> reportEvent list" where
  "debugOutput io a ms stats =
     (if raDebugFile a = '''' then []
      else if rioDebug io (raDebugFile a) then [DebugAppended (raDebugFile a) (writeDebugInfo ms stats)]
      else [Warned ''debug'' (raDebugFile a)])"

text \<open>The outputs after the baseline; the thresholds are checked last.\<close>

definition reportOutputs ::
  "ReportIO \<Rightarrow> ReportArgs \<Rightarrow> Mutant list \<Rightarrow> ReportStats \<Rightarrow> reportEvent list \<times> reportError option" where
  "reportOutputs io a ms stats =
     (case firstOutput io a ms stats of
        (evs, Some e) \<Rightarrow> (debugOutput io a ms stats @ evs, Some e)
      | (evs, None) \<Rightarrow>
          (case thresholdStage (rioCwd io) ms stats (raThreshold a) (raResolver a) of
             (printed, e) \<Rightarrow>
               (debugOutput io a ms stats @ evs @ terminalOutput io a ms stats @
                (if ms = [] then [] else concat (map (furtherOutput io a ms stats) (boMultiOutputs (raOptions a)))) @
                map Printed printed, e)))"

record ReportResult =
  rrStats :: ReportStats
  rrEvents :: "reportEvent list"
  rrBaselines :: baselines
  rrError :: "reportError option"

definition Report :: "ReportIO \<Rightarrow> Mutant list \<Rightarrow> nat \<Rightarrow> ReportArgs \<Rightarrow> baselines \<Rightarrow> ReportResult" where
  "Report io ms totalMutants a files =
     (let stats = computeStats ms totalMutants in
      case baselineStage (rioBaseline io) (raOptions a) (baselineOf stats totalMutants) files of
        (files', Some e) \<Rightarrow> \<lparr>rrStats = stats, rrEvents = [], rrBaselines = files', rrError = Some e\<rparr>
      | (files', None) \<Rightarrow> (case reportOutputs io a ms stats of
          (evs, e) \<Rightarrow> \<lparr>rrStats = stats, rrEvents = evs, rrBaselines = files', rrError = e\<rparr>))"

subsection \<open>What a report delivers\<close>

definition isTerminal :: "reportEvent \<Rightarrow> bool" where
  "isTerminal e = (case e of Terminal _ \<Rightarrow> True | _ \<Rightarrow> False)"

lemma outputSpec_file: "outputSpec spec = Some (format, f) \<Longrightarrow> f \<noteq> ''''"
  by (auto simp: outputSpec_def split: list.splits if_splits)

lemma furtherOutput_quiet: "filter isTerminal (furtherOutput io a ms stats spec) = []"
  by (auto simp: furtherOutput_def isTerminal_def split: option.splits)

lemma one_terminal_report:
  assumes "firstOutput io a ms stats = (evs, None)"
  shows "filter isTerminal (evs @ terminalOutput io a ms stats) = [terminalReport io a ms stats]"
  using assms by (auto simp: firstOutput_def terminalOutput_def terminalReport_def isTerminal_def reportFormats_def split: if_splits)

lemma reportOutputs_terminal:
  assumes "snd (firstOutput io a ms stats) = None"
  shows "filter isTerminal (fst (reportOutputs io a ms stats)) = [terminalReport io a ms stats]"
proof -
  obtain evs where f: "firstOutput io a ms stats = (evs, None)" using assms by (cases "firstOutput io a ms stats") auto
  have quiet: "filter isTerminal (debugOutput io a xs stats) = []" "filter isTerminal (map Printed ps) = []"
    "filter isTerminal (concat (map (furtherOutput io a ms stats) specs)) = []" for ps specs xs
    by (auto simp: debugOutput_def isTerminal_def filter_concat furtherOutput_quiet comp_def)
  show ?thesis using one_terminal_report [OF f]
    by (auto simp: reportOutputs_def f quiet split: prod.split)
qed

lemma reportOutputs_written:
  assumes "snd (firstOutput io a ms stats) = None" "ms \<noteq> []" "spec \<in> set (boMultiOutputs (raOptions a))"
    and "outputSpec spec = Some (format, f)" "format \<in> set reportFormats" "rioWrite io format f"
  shows "Written format f (reportBody io a ms stats format) \<in> set (fst (reportOutputs io a ms stats))"
proof -
  obtain evs where fo: "firstOutput io a ms stats = (evs, None)" using assms(1) by (cases "firstOutput io a ms stats") auto
  have "Written format f (reportBody io a ms stats format) \<in> set evs \<union> set (furtherOutput io a ms stats spec)"
    using fo assms(4-6) outputSpec_file [OF assms(4)] by (auto simp: firstOutput_def furtherOutput_def split: if_splits)
  then show ?thesis using assms(2,3) by (auto simp: reportOutputs_def fo split: prod.split)
qed

text \<open>
  A report delivers what was asked for: once the baseline stage and the first output succeed,
  the text report is on the terminal exactly once, every entry of the outputs that names a known
  format and a file that can be written has its file with the body of that format, and the
  report's error is that of the threshold check.
\<close>

theorem report_delivers:
  fixes io a ms t files
  defines "stats \<equiv> computeStats ms t" and "r \<equiv> Report io ms t a files"
  assumes "snd (baselineStage (rioBaseline io) (raOptions a) (baselineOf stats t) files) = None"
    and "snd (firstOutput io a ms stats) = None" and "ms \<noteq> []"
  shows "filter isTerminal (rrEvents r) = [terminalReport io a ms stats] \<and>
    (\<forall>spec \<in> set (boMultiOutputs (raOptions a)). \<forall>format f. outputSpec spec = Some (format, f) \<longrightarrow>
       format \<in> set reportFormats \<longrightarrow> rioWrite io format f \<longrightarrow>
       Written format f (reportBody io a ms stats format) \<in> set (rrEvents r)) \<and>
    rrError r = snd (thresholdStage (rioCwd io) ms stats (raThreshold a) (raResolver a))"
proof -
  obtain files' where b: "baselineStage (rioBaseline io) (raOptions a) (baselineOf stats t) files = (files', None)"
    using assms(3) by (cases "baselineStage (rioBaseline io) (raOptions a) (baselineOf stats t) files") auto
  have r: "rrEvents r = fst (reportOutputs io a ms stats)" "rrError r = snd (reportOutputs io a ms stats)"
    unfolding r_def Report_def Let_def stats_def [symmetric] b by (simp_all split: prod.split)
  have "rrError r = snd (thresholdStage (rioCwd io) ms stats (raThreshold a) (raResolver a))"
    using assms(4) by (auto simp: r reportOutputs_def split: prod.splits option.splits)
  then show ?thesis
    using reportOutputs_terminal [OF assms(4)] reportOutputs_written [OF assms(4,5)] by (simp add: r)
qed

text \<open>With an error of the baseline stage nothing is written at all, the text report included.\<close>

lemma regression_hides_report:
  "snd (baselineStage (rioBaseline io) (raOptions a) (baselineOf (computeStats ms t) t) files) = Some e \<Longrightarrow>
   rrEvents (Report io ms t a files) = [] \<and> rrError (Report io ms t a files) = Some e"
  by (cases "baselineStage (rioBaseline io) (raOptions a) (baselineOf (computeStats ms t) t) files") (simp add: Report_def)

definition demoReportIO :: ReportIO where
  "demoReportIO = \<lparr>rioRead = \<lambda>_. None, rioWrite = \<lambda>_ _. True, rioDebug = \<lambda>_. True, rioCwd = ''/'',
     rioJsonFloat = fmtFixed 2, rioXmlFloat = fmtFixed 2,
     rioBaseline = \<lparr>bioMkdir = \<lambda>_. True, bioWrite = \<lambda>_. True, bioRename = \<lambda>_. True, bioNow = ''now''\<rparr>\<rparr>"

definition demoReportArgs :: ReportArgs where
  "demoReportArgs = \<lparr>raThreshold = 80, raResolver = None, raDebug = False, raShowKilled = False, raShowSurvived = False,
     raOutputFile = ''r.txt'', raDebugFile = '''', raFormat = ''textfile'',
     raOptions = \<lparr>boSave = False, boNoRegression = False, boTolerance = 0, boDir = '''', boFile = '''',
       boMultiOutputs = [''textfile:r.txt'', ''json:r.json'']\<rparr>\<rparr>"

theorem report_delivers_witness:
  "\<exists>body. Written ''json'' ''r.json'' body \<in> set (rrEvents (Report demoReportIO demoKills 3 demoReportArgs Map.empty))"
proof -
  have b: "snd (baselineStage (rioBaseline demoReportIO) (raOptions demoReportArgs) c Map.empty) = None" for c
    by (simp add: demoReportArgs_def baselineStage_def regressionStage_def)
  have f: "snd (firstOutput demoReportIO demoReportArgs ms s) = None" for ms s
    by (simp add: demoReportArgs_def demoReportIO_def firstOutput_def reportFormats_def)
  have spec: "outputSpec ''json:r.json'' = Some (''json'', ''r.json'')" by code_simp
  have ne: "demoKills \<noteq> []" by (simp add: demoKills_def)
  have mem: "''json:r.json'' \<in> set (boMultiOutputs (raOptions demoReportArgs))" by (simp add: demoReportArgs_def)
  have w: "rioWrite demoReportIO ''json'' ''r.json''" by (simp add: demoReportIO_def)
  have k: "''json'' \<in> set reportFormats" by (simp add: reportFormats_def)
  show ?thesis
    using conjunct1 [OF conjunct2 [OF report_delivers [OF b f ne]], rule_format, OF mem spec k w] by blast
qed

end
