(* ===== verification/Cli.thy ===== *)
theory Cli
  imports Registry OrgPolicy GoJson
begin

text \<open>
  The command line (\<open>internal/cli/cli.go\<close>): the flags and their parsing by Go's package
  \<open>flag\<close>, the check that a configuration file excludes them, the configuration they give, and
  the operators and the concurrency that a configuration names. \<open>pf\<close> is \<open>strconv.ParseFloat\<close>
  and \<open>load\<close> is \<open>config.Load\<close>. The badge (\<open>internal/badge/badge.go\<close>) is here too.
\<close>

subsection \<open>Flags\<close>

record Flags =
  fConfigFile :: string
  fPrintAST :: bool
  fPkgPath :: string
  fOperators :: string
  fConcurrent :: string
  fThreshold :: rat
  fMemProfile :: string
  fUseCache :: bool
  fDryRun :: bool
  fDebug :: bool
  fProgBar :: bool
  fShowKilled :: bool
  fShowSurvived :: bool
  fDiff :: string
  fTargets :: "string list"

definition defaultFlags :: Flags where
  "defaultFlags = \<lparr>fConfigFile = '''', fPrintAST = False, fPkgPath = ''.'', fOperators = ''all'', fConcurrent = ''all'',
     fThreshold = 0, fMemProfile = '''', fUseCache = False, fDryRun = False, fDebug = False, fProgBar = False,
     fShowKilled = False, fShowSurvived = False, fDiff = '''', fTargets = []\<rparr>"

definition ParseBool :: "string \<Rightarrow> bool option" where
  "ParseBool s = (if s \<in> set [''1'', ''t'', ''T'', ''true'', ''TRUE'', ''True''] then Some True
     else if s \<in> set [''0'', ''f'', ''F'', ''false'', ''FALSE'', ''False''] then Some False else None)"

definition boolFlags :: "(string \<times> (bool \<Rightarrow> Flags \<Rightarrow> Flags)) list" where
  "boolFlags = [(''print-ast'', \<lambda>b f. f\<lparr>fPrintAST := b\<rparr>), (''cache'', \<lambda>b f. f\<lparr>fUseCache := b\<rparr>),
     (''dry-run'', \<lambda>b f. f\<lparr>fDryRun := b\<rparr>), (''debug'', \<lambda>b f. f\<lparr>fDebug := b\<rparr>), (''progbar'', \<lambda>b f. f\<lparr>fProgBar := b\<rparr>),
     (''show-killed'', \<lambda>b f. f\<lparr>fShowKilled := b\<rparr>), (''show-survived'', \<lambda>b f. f\<lparr>fShowSurvived := b\<rparr>)]"

definition stringFlags :: "(string \<times> (string \<Rightarrow> Flags \<Rightarrow> Flags)) list" where
  "stringFlags = [(''config'', \<lambda>s f. f\<lparr>fConfigFile := s\<rparr>), (''pkg'', \<lambda>s f. f\<lparr>fPkgPath := s\<rparr>),
     (''operators'', \<lambda>s f. f\<lparr>fOperators := s\<rparr>), (''concurrent'', \<lambda>s f. f\<lparr>fConcurrent := s\<rparr>),
     (''diff'', \<lambda>s f. f\<lparr>fDiff := s\<rparr>), (''mem-profile'', \<lambda>s f. f\<lparr>fMemProfile := s\<rparr>)]"

datatype (plugins only: size code) flagError = BadSyntax string | HelpWanted | Undefined string
  | NeedsArgument string | InvalidValue string string

text \<open>Setting a flag to a text; \<open>threshold\<close> is the only number.\<close>

definition setFlag :: "(string \<Rightarrow> rat option) \<Rightarrow> string \<Rightarrow> string \<Rightarrow> Flags \<Rightarrow> flagError + Flags" where
  "setFlag pf name v f = (case map_of boolFlags name of
     Some upd \<Rightarrow> (case ParseBool v of Some b \<Rightarrow> Inr (upd b f) | None \<Rightarrow> Inl (InvalidValue name v))
   | None \<Rightarrow> (case map_of stringFlags name of
       Some upd \<Rightarrow> Inr (upd v f)
     | None \<Rightarrow> if name = ''threshold'' then
           (case pf v of Some t \<Rightarrow> Inr (f\<lparr>fThreshold := t\<rparr>) | None \<Rightarrow> Inl (InvalidValue name v))
         else Inl (if name \<in> {''help'', ''h''} then HelpWanted else Undefined name)))"

datatype (plugins only: size code) argument = Target | Terminator | BadArgument | FlagArg string "string option"

definition splitFlag :: "string \<Rightarrow> argument" where
  "splitFlag s =
     (case s of a # b # _ \<Rightarrow>
        if a \<noteq> CHR ''-'' then Target
        else if s = ''--'' then Terminator
        else (let name = (if b = CHR ''-'' then drop 2 s else drop 1 s) in
          if name = '''' \<or> hd name = CHR ''-'' \<or> hd name = CHR ''='' then BadArgument
          else if CHR ''='' \<in> set name
            then FlagArg (takeWhile (\<lambda>c. c \<noteq> CHR ''='') name) (Some (drop 1 (dropWhile (\<lambda>c. c \<noteq> CHR ''='') name)))
            else FlagArg name None)
      | _ \<Rightarrow> Target)"

fun parseArgs :: "(string \<Rightarrow> rat option) \<Rightarrow> string list \<Rightarrow> Flags \<Rightarrow> flagError + Flags" where
  "parseArgs pf [] f = Inr (f\<lparr>fTargets := []\<rparr>)"
| "parseArgs pf (s # rest) f = (case splitFlag s of
     Target \<Rightarrow> Inr (f\<lparr>fTargets := s # rest\<rparr>)
   | Terminator \<Rightarrow> Inr (f\<lparr>fTargets := rest\<rparr>)
   | BadArgument \<Rightarrow> Inl (BadSyntax s)
   | FlagArg name (Some v) \<Rightarrow> (case setFlag pf name v f of Inl e \<Rightarrow> Inl e | Inr f' \<Rightarrow> parseArgs pf rest f')
   | FlagArg name None \<Rightarrow>
       if map_of boolFlags name \<noteq> None then
         (case setFlag pf name ''true'' f of Inl e \<Rightarrow> Inl e | Inr f' \<Rightarrow> parseArgs pf rest f')
       else if map_of stringFlags name = None \<and> name \<noteq> ''threshold'' then
         Inl (if name \<in> {''help'', ''h''} then HelpWanted else Undefined name)
       else (case rest of [] \<Rightarrow> Inl (NeedsArgument name)
         | v # rest' \<Rightarrow> (case setFlag pf name v f of Inl e \<Rightarrow> Inl e | Inr f' \<Rightarrow> parseArgs pf rest' f')))"

definition ParseFlags :: "(string \<Rightarrow> rat option) \<Rightarrow> string list \<Rightarrow> flagError + Flags" where
  "ParseFlags pf args = parseArgs pf args defaultFlags"

definition ValidateChecks :: "Flags \<Rightarrow> bool" where
  "ValidateChecks f \<longleftrightarrow> \<not> (fConfigFile f \<noteq> '''' \<and> (fPrintAST f \<or> fPkgPath f \<noteq> ''.'' \<or> fOperators f \<noteq> ''all'' \<or>
     fConcurrent f \<noteq> ''all'' \<or> fThreshold f \<noteq> 0 \<or> fUseCache f \<or> fDryRun f \<or>
     fProgBar f \<or> fDiff f \<noteq> '''' \<or> fDebug f \<or> fShowKilled f \<or> fShowSurvived f))"

text \<open>The configuration; \<open>None\<close> is a file that cannot be loaded.\<close>

definition LoadConfig :: "(string \<Rightarrow> Config option) \<Rightarrow> Flags \<Rightarrow> Config option" where
  "LoadConfig load f =
     (if fConfigFile f \<noteq> '''' then map_option Validate (load (fConfigFile f))
      else (let c = DefaultConfig;
                c = (if fOperators f \<noteq> ''all'' then c\<lparr>cOperators := Split (fOperators f) (CHR '','')\<rparr> else c);
                c = (if fConcurrent f \<noteq> ''all'' then c\<lparr>cConcurrent := fConcurrent f\<rparr> else c)
            in Some (c\<lparr>cThreshold := fThreshold f, cMemProfile := fMemProfile f, cCache := fUseCache f,
                 cDryRun := fDryRun f, cDiff := fDiff f, cDebug := fDebug f, cProgBar := fProgBar f,
                 cShowKilled := fShowKilled f, cShowSurvived := fShowSurvived f\<rparr>)))"

subsection \<open>Operators and concurrency\<close>

text \<open>The registry is returned too: a lookup may put an operator into it.\<close>

fun operatorsNamed :: "OperatorRegistry \<Rightarrow> string list \<Rightarrow> operator list option \<times> OperatorRegistry" where
  "operatorsNamed r [] = (Some [], r)"
| "operatorsNamed r (n # ns) =
     (let name = TrimSpace n in
      case GetCategory r name of
        (Some ops, r') \<Rightarrow> (case operatorsNamed r' ns of (rest, r'') \<Rightarrow> (map_option (append ops) rest, r''))
      | (None, r') \<Rightarrow> (case Get r' name of
          (None, r'') \<Rightarrow> (None, r'')
        | (Some op, r'') \<Rightarrow> (case operatorsNamed r'' ns of (rest, r3) \<Rightarrow> (map_option (Cons op) rest, r3))))"

definition ParseOperators :: "OperatorRegistry \<Rightarrow> Config \<Rightarrow> operator list option \<times> OperatorRegistry" where
  "ParseOperators r c =
     (if cOperators c = [] \<or> cOperators c = [''all''] then (Some (ListOps r), r) else operatorsNamed r (cOperators c))"

definition ParseConcurrent :: "int \<Rightarrow> string \<Rightarrow> int" where
  "ParseConcurrent numCPU val =
     (if val = ''all'' then numCPU
      else if val = ''half'' then (if numCPU div 2 < 1 then 1 else numCPU div 2)
      else case Atoi val of None \<Rightarrow> numCPU | Some n \<Rightarrow> if n < 1 then numCPU else n)"

definition splitAndTrim :: "string \<Rightarrow> string list" where
  "splitAndTrim s = filter (\<lambda>p. p \<noteq> '''') (map TrimSpace (Split s (CHR '','')))"

subsection \<open>The badge\<close>

definition getColor :: "rat \<Rightarrow> string" where
  "getColor score = (if score \<ge> 80 then ''#4c1'' else if score \<ge> 60 then ''#97ca00''
     else if score \<ge> 40 then ''#dfb317'' else if score \<ge> 20 then ''#fe7d37'' else ''#e05d44'')"

definition GenerateJSON :: "rat \<Rightarrow> string" where
  "GenerateJSON score = MarshalIndent (JObj [(''schemaVersion'', JNum ''1''), (''label'', JStr ''mutation''),
     (''message'', JStr (fmtFixed 1 score @ ''%'')), (''color'', JStr (getColor score))])"

text \<open>In the text of the image a backquote stands for a double quote.\<close>

definition svgLines :: "string \<Rightarrow> string \<Rightarrow> string list" where
  "svgLines color message =
    [''<svg xmlns=`http://www.w3.org/2000/svg` width=`120` height=`20`>'',
     ''  <linearGradient id=`b` x2=`0` y2=`100%`>'',
     ''    <stop offset=`0` stop-color=`#bbb` stop-opacity=`.1`/>'',
     ''    <stop offset=`1` stop-opacity=`.1`/>'',
     ''  </linearGradient>'',
     ''  <mask id=`a`>'',
     ''    <rect width=`120` height=`20` rx=`3` fill=`#fff`/>'',
     ''  </mask>'',
     ''  <g mask=`url(#a)`>'',
     ''    <path fill=`#555` d=`M0 0h63v20H0z`/>'',
     ''    <path fill=`'' @ color @ ''` d=`M63 0h57v20H63z`/>'',
     ''    <path fill=`url(#b)` d=`M0 0h120v20H0z`/>'',
     ''  </g>'',
     ''  <g fill=`#fff` text-anchor=`middle` font-family=`DejaVu Sans,Verdana,Geneva,sans-serif` font-size=`11`>'',
     ''    <text x=`31.5` y=`15` fill=`#010101` fill-opacity=`.3`>mutation</text>'',
     ''    <text x=`31.5` y=`14`>mutation</text>'',
     ''    <text x=`90.5` y=`15` fill=`#010101` fill-opacity=`.3`>'' @ message @ ''</text>'',
     ''    <text x=`90.5` y=`14`>'' @ message @ ''</text>'',
     ''  </g>'',
     ''</svg>'']"

definition GenerateSVG :: "rat \<Rightarrow> string" where
  "GenerateSVG score = map (\<lambda>c. if c = CHR ''`'' then CHR 0x22 else c)
     (Join (svgLines (getColor score) (fmtFixed 1 score @ ''%'')) [CHR 0x0A])"

subsection \<open>Flags read back\<close>

definition boolText :: "bool \<Rightarrow> string" where
  "boolText b = (if b then ''true'' else ''false'')"

definition flagTexts :: "(rat \<Rightarrow> string) \<Rightarrow> Flags \<Rightarrow> (string \<times> string) list" where
  "flagTexts ft f = [(''config'', fConfigFile f), (''print-ast'', boolText (fPrintAST f)), (''pkg'', fPkgPath f),
     (''operators'', fOperators f), (''concurrent'', fConcurrent f), (''threshold'', ft (fThreshold f)),
     (''cache'', boolText (fUseCache f)), (''dry-run'', boolText (fDryRun f)), (''diff'', fDiff f),
     (''debug'', boolText (fDebug f)), (''progbar'', boolText (fProgBar f)), (''show-killed'', boolText (fShowKilled f)),
     (''show-survived'', boolText (fShowSurvived f)), (''mem-profile'', fMemProfile f)]"

text \<open>One or two dashes, and the targets behind a terminator.\<close>

definition flagArg :: "string \<Rightarrow> string \<times> string \<Rightarrow> string" where
  "flagArg dash = (\<lambda>(n, v). dash @ n @ ''='' @ v)"

definition flagArgs :: "(rat \<Rightarrow> string) \<Rightarrow> string \<Rightarrow> Flags \<Rightarrow> string list" where
  "flagArgs ft dash f = map (flagArg dash) (flagTexts ft f) @ ''--'' # fTargets f"

definition flagName :: "string \<Rightarrow> bool" where
  "flagName n \<longleftrightarrow> n \<noteq> '''' \<and> hd n \<noteq> CHR ''-'' \<and> CHR ''='' \<notin> set n"

lemma splitFlag_value:
  assumes "dash \<in> {''-'', ''--''}" "flagName n"
  shows "splitFlag (flagArg dash (n, v)) = FlagArg n (Some v)"
proof -
  have eq: "CHR ''='' \<notin> set m \<Longrightarrow> takeWhile (\<lambda>x. x \<noteq> CHR ''='') (m @ CHR ''='' # v) = m"
    "CHR ''='' \<notin> set m \<Longrightarrow> dropWhile (\<lambda>x. x \<noteq> CHR ''='') (m @ CHR ''='' # v) = CHR ''='' # v" for m
    by (induction m) auto
  obtain c cs where n: "n = c # cs" using assms(2) by (cases n) (auto simp: flagName_def)
  then show ?thesis using assms eq [of cs]
    by (auto simp: flagArg_def flagName_def splitFlag_def Let_def)
qed

lemma ParseBool_boolText [simp]: "ParseBool (boolText b) = Some b"
  by (simp add: ParseBool_def boolText_def)

fun setFlags :: "(string \<Rightarrow> rat option) \<Rightarrow> (string \<times> string) list \<Rightarrow> Flags \<Rightarrow> flagError + Flags" where
  "setFlags pf [] f = Inr f"
| "setFlags pf ((n, v) # kvs) f = (case setFlag pf n v f of Inl e \<Rightarrow> Inl e | Inr f' \<Rightarrow> setFlags pf kvs f')"

lemma parseArgs_values:
  assumes "dash \<in> {''-'', ''--''}" and "list_all (flagName \<circ> fst) kvs"
  shows "parseArgs pf (map (flagArg dash) kvs @ rest) f =
    (case setFlags pf kvs f of Inl e \<Rightarrow> Inl e | Inr f' \<Rightarrow> parseArgs pf rest f')"
  using assms(2)
proof (induction kvs arbitrary: f)
  case (Cons nv kvs)
  obtain n v where nv: "nv = (n, v)" by (cases nv)
  with Cons splitFlag_value [OF assms(1), of n v] show ?case
    by (simp add: comp_def split: sum.split)
qed simp

lemma flagTexts_names: "list_all (flagName \<circ> fst) (flagTexts ft f)"
  by (simp add: flagTexts_def flagName_def)

lemma setFlags_flagTexts:
  "pf (ft (fThreshold f)) = Some (fThreshold f) \<Longrightarrow> setFlags pf (flagTexts ft f) defaultFlags = Inr (f\<lparr>fTargets := []\<rparr>)"
  by (simp add: flagTexts_def setFlag_def boolFlags_def stringFlags_def defaultFlags_def)

text \<open>
  Command lines read back: for every setting of the flags and every list of targets, the arguments
  \<open>-name=value\<close> (with one dash or two), \<open>--\<close> and the targets are parsed to exactly that setting.
\<close>

theorem flags_read_back:
  assumes "dash \<in> {''-'', ''--''}" and "pf (ft (fThreshold f)) = Some (fThreshold f)"
  shows "ParseFlags pf (flagArgs ft dash f) = Inr f"
proof -
  have "parseArgs pf (''--'' # ts) g = Inr (g\<lparr>fTargets := ts\<rparr>)" for ts g
    by (simp add: splitFlag_def)
  then show ?thesis
    unfolding ParseFlags_def flagArgs_def parseArgs_values [OF assms(1) flagTexts_names] setFlags_flagTexts [of pf ft f, OF assms(2)]
    by simp
qed

theorem flags_read_back_witness:
  "ParseFlags (\<lambda>s. if s = ''80'' then Some 80 else None)
     (flagArgs (\<lambda>r. ''80'') ''--'' (defaultFlags\<lparr>fThreshold := 80, fDryRun := True, fTargets := [''-x'', ''cmd'']\<rparr>))
   = Inr (defaultFlags\<lparr>fThreshold := 80, fDryRun := True, fTargets := [''-x'', ''cmd'']\<rparr>)"
  by (rule flags_read_back) simp_all

text \<open>The check that a configuration file excludes the other flags lets one of them through.\<close>

lemma mem_profile_not_excluded:
  "ValidateChecks (f\<lparr>fMemProfile := d\<rparr>) = ValidateChecks f"
  "fConfigFile f \<noteq> '''' \<Longrightarrow> LoadConfig load (f\<lparr>fMemProfile := d\<rparr>) = LoadConfig load f"
  by (simp_all add: ValidateChecks_def LoadConfig_def)

subsection \<open>The operators named\<close>

definition opsNamed :: "OperatorRegistry \<Rightarrow> string \<Rightarrow> operator list option" where
  "opsNamed r n = (case map_of categoryMap n of
     Some ns \<Rightarrow> Some (concat (map (option_list \<circ> map_of (operators r)) ns))
   | None \<Rightarrow> map_option (\<lambda>op. [op]) (map_of (operators r) n))"

lemma Get_plain: "initializers r = [] \<Longrightarrow> Get r n = (map_of (operators r) n, r)"
  by (simp add: Get_def split: option.split)

lemma getAll_plain: "initializers r = [] \<Longrightarrow> getAll r ns = (concat (map (option_list \<circ> map_of (operators r)) ns), r)"
  by (induction ns) (simp_all add: Get_plain)

lemma operatorsNamed_plain:
  assumes "initializers r = []"
  shows "operatorsNamed r ns =
    (if list_all (\<lambda>n. opsNamed r (TrimSpace n) \<noteq> None) ns then Some (concat (map (the \<circ> opsNamed r \<circ> TrimSpace) ns)) else None, r)"
proof (induction ns)
  case (Cons n ns)
  then show ?case
    by (auto simp: GetCategory_def getAll_plain [OF assms] Get_plain [OF assms] opsNamed_def [of r "TrimSpace n"]
        comp_def Let_def split: option.splits)
qed simp

text \<open>
  The operators of a configuration are all of them for an empty list or the single name
  \<open>all\<close>, otherwise exactly those of the named categories and operators, in the order of the names;
  one unknown name, \<open>all\<close> beside others included, and there is no list.
\<close>

theorem operators_parsed_exact:
  assumes "initializers r = []"
  shows "fst (ParseOperators r c) =
    (if cOperators c \<in> {[], [''all'']} then Some (ListOps r)
     else if list_all (\<lambda>n. opsNamed r (TrimSpace n) \<noteq> None) (cOperators c)
       then Some (concat (map (the \<circ> opsNamed r \<circ> TrimSpace) (cOperators c))) else None)"
  by (simp add: ParseOperators_def operatorsNamed_plain [OF assms])

lemma globalRegistry_plain: "initializers globalRegistry = []"
proof -
  have "initializers (foldl Register r ops) = initializers r" for r ops
    by (induction ops arbitrary: r) (auto simp: Register_def)
  then show ?thesis by (simp add: globalRegistry_def NewOperatorRegistry_def)
qed

theorem operators_parsed_exact_witness:
  "fst (ParseOperators globalRegistry (DefaultConfig\<lparr>cOperators := []\<rparr>)) = Some (ListOps globalRegistry)"
  using operators_parsed_exact [OF globalRegistry_plain, of "DefaultConfig\<lparr>cOperators := []\<rparr>"] by simp

lemma ParseConcurrent_policy: "ParseConcurrent n v = parseConcurrent n v"
  by (simp add: ParseConcurrent_def parseConcurrent_def Let_def split: option.split)

lemma ParseConcurrent_positive: "0 < numCPU \<Longrightarrow> 0 < ParseConcurrent numCPU val"
  by (auto simp: ParseConcurrent_def split: option.split)

end
