(* ===== verification/Runner.thy ===== *)
theory Runner
  imports PipelineProps Filters Suppressions ReportRun Cli
begin

text \<open>
  A run of the program: \<open>Run\<close> of \<open>internal/runner/runner.go\<close> and the part of \<open>main\<close> that calls
  it. The run is split as the source's early returns split it: the start (operators, policy,
  sub-configurations, scan), the plan (filters, cache, tests, diff) and the execution. \<open>RunWorld\<close>
  holds what is outside: files, the scan's loader, the world of the pipeline, the environment, the
  readers of policies and configurations, the cache file, \<open>git\<close> and what a report may write.
\<close>

record 'p RunWorld =
  rwFiles :: Files
  rwLoader :: Loader
  rwRun :: "'p World"
  rwEnv :: "string \<Rightarrow> string"
  rwPolicy :: "string \<Rightarrow> OrgPolicy option"
  rwSubConfig :: "string \<Rightarrow> SubConfig option"
  rwWorkspace :: "string list option"
  rwCPUs :: int
  rwCache :: "string \<Rightarrow> Cache option"
  rwGit :: "string \<Rightarrow> string \<times> string"
  rwReport :: ReportIO
  rwBadge :: "string \<Rightarrow> bool"
  rwConfig :: "string \<Rightarrow> Config option"

datatype (plugins only: size code) runError = UnknownOperator | PolicyFailed | SubConfigsFailed | ScanFailed
  | CacheFailed | TestsFailed testError | DiffFailed | PipelineFailed string | ReportFailed reportError

text \<open>An error that ends the run, or the value the run goes on with.\<close>

definition need :: "'e \<Rightarrow> 'a option \<Rightarrow> ('a \<Rightarrow> 'e + 'b) \<Rightarrow> 'e + 'b" where
  "need e x k = (case x of None \<Rightarrow> Inl e | Some a \<Rightarrow> k a)"

lemma need_simps [simp]: "need e None k = Inl e" "need e (Some a) k = k a"
  by (simp_all add: need_def)

lemma need_Inr: "need e x k = Inr y \<longleftrightarrow> (\<exists>a. x = Some a \<and> k a = Inr y)"
  by (cases x) simp_all

subsection \<open>The start\<close>

record RunStart =
  stOperators :: "operator list"
  stConcurrent :: int
  stRoot :: string
  stConfig :: Config
  stViolations :: "Violation list"
  stResolver :: Resolver
  stEngine :: Engine

definition discovered :: "'p RunWorld \<Rightarrow> string \<Rightarrow> string \<Rightarrow> OrgPolicy \<Rightarrow> Resolver option" where
  "discovered W rt configPath p =
     (let F = rwFiles W in
      if \<not> IsZero p
      then DiscoverWithPolicy (fsCwd F) (fsTree F) (rwSubConfig W) (rwWorkspace W) rt configPath (Some p)
      else Discover (fsCwd F) (fsTree F) (rwSubConfig W) (rwWorkspace W) rt configPath)"

definition newEngineFor :: "string \<Rightarrow> operator list \<Rightarrow> string \<Rightarrow> SuppressEntry list \<Rightarrow> Engine" where
  "newEngineFor cwd ops rt suppress = engineSetSuppress cwd suppress (SetProjectRoot cwd rt (SetOperators ops NewEngine))"

definition startRun :: "'p RunWorld \<Rightarrow> Config \<Rightarrow> string list \<Rightarrow> string \<Rightarrow> runError + RunStart" where
  "startRun W cfg targets configPath =
     need UnknownOperator (fst (ParseOperators globalRegistry cfg)) (\<lambda>ops.
     let concurrent = ParseConcurrent (rwCPUs W) (cConcurrent cfg);
         rt = findProjectRoot (rwFiles W) (hd targets) (cBase cfg);
         eng = newEngineFor (fsCwd (rwFiles W)) ops rt (cSuppress cfg) in
     need PolicyFailed (findAndLoadOrgPolicy (rwFiles W) (rwEnv W) (rwPolicy W) rt) (\<lambda>p.
     need SubConfigsFailed (discovered W rt configPath p) (\<lambda>r.
     let (cfg', violations) = (if \<not> IsZero p then ApplyPolicy cfg (Some p) (ListAll globalRegistry) (rwCPUs W) else (cfg, [])) in
     need ScanFailed (eachStep (Traverse (rwLoader W) (\<lambda>n. True)) targets eng) (\<lambda>eng'.
     Inr \<lparr>stOperators = ops, stConcurrent = concurrent, stRoot = rt, stConfig = cfg', stViolations = violations,
       stResolver = SetMode (cSubConfigMode cfg) r, stEngine = eng'\<rparr>))))"

text \<open>The printed violations; the mode \<open>fail\<close> prints them like any other mode but \<open>silent\<close>.\<close>

definition violationLines :: "Config \<Rightarrow> Violation list \<Rightarrow> string list" where
  "violationLines cfg vs =
     (if vs \<noteq> [] \<and> cViolationMode cfg \<noteq> ''silent'' then
        (''Org policy applied '' @ Itoa (int (length vs)) @ '' constraint(s):'') # map (\<lambda>v. ''  '' @ ViolationError v) vs
      else [])"

subsection \<open>The plan\<close>

definition FileExt :: "string \<Rightarrow> string" where
  "FileExt p = (let base = rev (takeWhile (\<lambda>c. c \<noteq> CHR ''/'') (rev p)) in
     if CHR ''.'' \<in> set base then CHR ''.'' # rev (takeWhile (\<lambda>c. c \<noteq> CHR ''.'') (rev base)) else '''')"

text \<open>Format and file of the first output.\<close>

definition firstSpec :: "Config \<Rightarrow> string \<times> string" where
  "firstSpec cfg = (case cOutputs cfg of [] \<Rightarrow> (''textfile'', '''')
     | spec # _ \<Rightarrow> (case SplitN2 spec (CHR '':'') of [a, b] \<Rightarrow> (TrimSpace a, TrimSpace b) | _ \<Rightarrow> (''textfile'', '''')))"

definition debugFilePath :: "Config \<Rightarrow> string" where
  "debugFilePath cfg =
     (if \<not> cDebug cfg then ''''
      else let output = snd (firstSpec cfg); ext = FileExt output in
        if output \<noteq> '''' then TrimSuffix output ext @ ''.debug'' @ ext else ''gorgon-debug.txt'')"

definition baseDirOf :: "Files \<Rightarrow> string \<Rightarrow> string" where
  "baseDirOf F target = (if fsIsDir F target = Some False then Dir target else target)"

record RunPlan =
  plSites :: "Site list"
  plBaseDir :: string
  plCache :: "Cache option"
  plDebugFile :: string
  plTestsByPkg :: "string \<rightharpoonup> string list"
  plTestPaths :: "string list"

definition filteredSites :: "'p RunWorld \<Rightarrow> RunStart \<Rightarrow> string list \<Rightarrow> Site list" where
  "filteredSites W st targets =
     FilterSites (fsCwd (rwFiles W)) (Sites (stEngine st)) targets (stConfig st) (Some (stResolver st))"

definition diffSites :: "'p RunWorld \<Rightarrow> RunStart \<Rightarrow> Site list \<Rightarrow> Site list option" where
  "diffSites W st sites =
     (let F = rwFiles W; ref = cDiff (stConfig st) in
      if ref = '''' then Some sites
      else map_option (FilterSitesByDiff (fsCwd F) sites) (ResolveDiff (fsExists F) (fsRead F) (rwGit W) (fsCwd F) ref))"

definition planRun :: "'p RunWorld \<Rightarrow> RunStart \<Rightarrow> string list \<Rightarrow> runError + RunPlan" where
  "planRun W st targets =
     (let sites = filteredSites W st targets; cfg = stConfig st;
          base = baseDirOf (rwFiles W) (hd targets) in
      need CacheFailed (if cCache cfg then map_option Some (rwCache W base) else Some None) (\<lambda>cache.
      case extractTests (rwFiles W) (cTests cfg) of
        Inl e \<Rightarrow> Inl (TestsFailed e)
      | Inr (byPkg, paths) \<Rightarrow>
          need DiffFailed (diffSites W st sites) (\<lambda>sites'.
          Inr \<lparr>plSites = sites', plBaseDir = base, plCache = cache, plDebugFile = debugFilePath cfg,
            plTestsByPkg = byPkg, plTestPaths = paths\<rparr>)))"

definition plannedMutants :: "'p RunWorld \<Rightarrow> RunStart \<Rightarrow> RunPlan \<Rightarrow> Mutant list" where
  "plannedMutants W st pl = GenerateMutants (wCwd (rwRun W)) (plSites pl) (stOperators st) (ListAll globalRegistry)
     (stRoot st) (cDirRules (stConfig st)) (Some (stResolver st))"

definition previewLine :: "Mutant \<Rightarrow> string" where
  "previewLine m = ''#'' @ Itoa (mID m) @ '' '' @ sFile (mSite m) @ '':'' @ Itoa (sLine (mSite m)) @ '':'' @
     Itoa (sColumn (mSite m)) @ '' ('' @ OpName (mOperator m) @ '')''"

definition dryRun :: "Mutant list \<Rightarrow> string list" where
  "dryRun ms = (''Total mutants: '' @ Itoa (int (length ms))) # '''' # map previewLine ms"

subsection \<open>The execution\<close>

definition resolveSuites :: "string \<Rightarrow> ExternalSuitesConfig \<Rightarrow> ExternalSuitesConfig" where
  "resolveSuites configPath ext =
     (if ExtEnabled ext \<and> configPath \<noteq> '''' then
        ext\<lparr>Suites := map (\<lambda>s. s\<lparr>SuitePaths := map (\<lambda>p. if IsAbs p then p else PathJoin [Dir configPath, p]) (SuitePaths s)\<rparr>)
          (Suites ext)\<rparr>
      else ext)"

definition suitePaths :: "ExternalSuitesConfig \<Rightarrow> string list" where
  "suitePaths ext = (if ExtEnabled ext then concat (map SuitePaths (Suites ext)) else [])"

definition mergeTags :: "string list \<Rightarrow> string list \<Rightarrow> string list" where
  "mergeTags tags auto = foldl (\<lambda>ts t. if t \<in> set ts then ts else ts @ [t]) tags auto"

definition optionsOf :: "RunStart \<Rightarrow> RunPlan \<Rightarrow> ExternalSuitesConfig \<Rightarrow> Options" where
  "optionsOf st pl ext = \<lparr>oBaseDir = plBaseDir pl, oProjectRoot = stRoot st, oTestPaths = plTestPaths pl,
     oTestsByPkg = plTestsByPkg pl, oUnitTests = cUnitTestsEnabled (stConfig st), oExternal = ext, oCache = plCache pl\<rparr>"

definition reportArgs :: "RunStart \<Rightarrow> RunPlan \<Rightarrow> ReportArgs" where
  "reportArgs st pl = (let cfg = stConfig st; b = cBaseline cfg in
     \<lparr>raThreshold = cThreshold cfg, raResolver = Some (stResolver st), raDebug = cDebug cfg,
      raShowKilled = cShowKilled cfg, raShowSurvived = cShowSurvived cfg, raOutputFile = snd (firstSpec cfg),
      raDebugFile = plDebugFile pl, raFormat = fst (firstSpec cfg),
      raOptions = \<lparr>boSave = BaselineSave b, boNoRegression = NoRegression b, boTolerance = Tolerance b,
        boDir = plBaseDir pl, boFile = BaselineFile b, boMultiOutputs = cOutputs cfg\<rparr>\<rparr>)"

text \<open>The path and the text of the badge, if the format is known.\<close>

definition generateBadge :: "string \<Rightarrow> string \<Rightarrow> rat \<Rightarrow> (string \<times> string) option" where
  "generateBadge format base score =
     (if format = ''json'' then Some (PathJoin [base, ''mutation-badge.json''], GenerateJSON score)
      else if format = ''svg'' then Some (PathJoin [base, ''mutation-badge.svg''], GenerateSVG score)
      else None)"

definition badgeStage :: "'p RunWorld \<Rightarrow> Config \<Rightarrow> string \<Rightarrow> rat \<Rightarrow> (string \<times> string) option" where
  "badgeStage W cfg base score =
     (if cBadge cfg = '''' then None
      else case generateBadge (cBadge cfg) base score of
        None \<Rightarrow> None | Some (path, txt) \<Rightarrow> if rwBadge W path then Some (path, txt) else None)"

text \<open>The score of the stored baseline, from the default file only.\<close>

definition GetLastMutationScore :: "baselines \<Rightarrow> string \<Rightarrow> rat option" where
  "GetLastMutationScore files base = Option.bind (files (PathJoin [base, DefaultBaselineFile])) (map_option blScore)"

record RunResult =
  rnError :: "runError option"
  rnPrinted :: "string list"
  rnMutants :: "Mutant list"
  rnReport :: "ReportResult option"
  rnBadge :: "(string \<times> string) option"
  rnConfig :: "Config option"
  rnTags :: "string list"
  rnPolicyLines :: "string list"
  rnWarning :: "string option"

definition ended :: "runError option \<Rightarrow> string list \<Rightarrow> string list \<Rightarrow> RunResult" where
  "ended e printed policyLines = \<lparr>rnError = e, rnPrinted = printed, rnMutants = [], rnReport = None, rnBadge = None,
     rnConfig = None, rnTags = [], rnPolicyLines = policyLines, rnWarning = None\<rparr>"

definition policyLinesOf :: "RunStart \<Rightarrow> string list" where
  "policyLinesOf st = violationLines (stConfig st) (stViolations st)"

definition synced :: "'p RunWorld \<Rightarrow> RunStart \<Rightarrow> string \<Rightarrow> Config option" where
  "synced W st configPath = SyncSuppressions configPath (fsExists (rwFiles W) configPath) (rwConfig W configPath)
     (fsCwd (rwFiles W)) (eDirectives (stEngine st)) (eProjectRoot (stEngine st))"

text \<open>What follows the pipeline: the report and the badge, and without an error the configuration.\<close>

definition finishRun ::
  "'p RunWorld \<Rightarrow> RunStart \<Rightarrow> RunPlan \<Rightarrow> string \<Rightarrow> baselines \<Rightarrow> string list \<Rightarrow> Outcome \<Rightarrow> RunResult" where
  "finishRun W st pl configPath files tags out =
     (let ms = outMutants out;
          report = (if ms = [] then None else Some (Report (rwReport W) ms (outTotal out) (reportArgs st pl) files));
          badge = (case report of None \<Rightarrow> None | Some r \<Rightarrow> badgeStage W (stConfig st) (plBaseDir pl) (rsScore (rrStats r)));
          failure = (case report of
              Some r \<Rightarrow> (case rrError r of Some e \<Rightarrow> Some (ReportFailed e) | None \<Rightarrow> map_option PipelineFailed (outErr out))
            | None \<Rightarrow> map_option PipelineFailed (outErr out))
      in \<lparr>rnError = failure, rnPrinted = [], rnMutants = ms, rnReport = report, rnBadge = badge,
          rnConfig = (if failure = None then synced W st configPath else None), rnTags = tags, rnPolicyLines = policyLinesOf st,
          rnWarning = outWarning out\<rparr>)"

text \<open>
  The Go version of the configuration as given replaces the detected one. \<open>None\<close> is the panic of
  the pipeline.
\<close>

definition executeRun ::
  "'p RunWorld \<Rightarrow> Config \<Rightarrow> RunStart \<Rightarrow> RunPlan \<Rightarrow> string \<Rightarrow> baselines \<Rightarrow> RunResult option" where
  "executeRun W cfg0 st pl configPath files =
     (let cfg = stConfig st; ext = resolveSuites configPath (cExternalSuites cfg);
          tags = mergeTags (cBuildTags cfg) (detectTestBuildTags (rwFiles W) (stRoot st) (suitePaths ext));
          V = (if cGoVersion cfg0 \<noteq> '''' then (rwRun W)\<lparr>wGoVersion := cGoVersion cfg0\<rparr> else rwRun W)
      in map_option (finishRun W st pl configPath files tags)
           (GenerateAndRunSchemata V (optionsOf st pl ext) (plSites pl) (stOperators st) (ListAll globalRegistry)
              (cDirRules cfg) (Some (stResolver st))))"

definition Run ::
  "'p RunWorld \<Rightarrow> bool \<Rightarrow> Config \<Rightarrow> string list \<Rightarrow> string \<Rightarrow> baselines \<Rightarrow> RunResult option" where
  "Run W printAST cfg targets configPath files =
     (case startRun W cfg targets configPath of
        Inl e \<Rightarrow> Some (ended (Some e) [] [])
      | Inr st \<Rightarrow>
          if printAST then Some (ended None [] (policyLinesOf st))
          else (case planRun W st targets of
            Inl e \<Rightarrow> Some (ended (Some e) [] (policyLinesOf st))
          | Inr pl \<Rightarrow>
              if cDryRun (stConfig st) then Some (ended None (dryRun (plannedMutants W st pl)) (policyLinesOf st))
              else executeRun W cfg st pl configPath files))"

subsection \<open>The program\<close>

datatype (plugins only: size code) refusal = FlagRejected flagError | ConfigWithFlags | Usage | ConfigUnreadable

text \<open>
  \<open>main\<close>: what is rejected is reported and ends with code 1; the error of a run is not printed by
  \<open>main\<close>, only its code tells of it. Profiling is left out.
\<close>

definition mainTargets :: "Flags \<Rightarrow> string list" where
  "mainTargets f = (if fTargets f = [] then [fPkgPath f] else fTargets f)"

definition mainConfig ::
  "(string \<Rightarrow> rat option) \<Rightarrow> (string \<Rightarrow> Config option) \<Rightarrow> string list \<Rightarrow> refusal + Flags \<times> Config" where
  "mainConfig pf load args = (case ParseFlags pf args of
     Inl e \<Rightarrow> Inl (FlagRejected e)
   | Inr f \<Rightarrow>
       if \<not> ValidateChecks f then Inl ConfigWithFlags
       else if fTargets f = [] \<and> fConfigFile f = '''' \<and> fPkgPath f = ''.'' then Inl Usage
       else need ConfigUnreadable (LoadConfig load f) (\<lambda>cfg. Inr (f, cfg)))"

definition exitCode :: "RunResult \<Rightarrow> nat" where
  "exitCode res = (if rnError res = None then 0 else 1)"

definition mainProgram ::
  "(string \<Rightarrow> rat option) \<Rightarrow> (string \<Rightarrow> Config option) \<Rightarrow> 'p RunWorld \<Rightarrow> string list \<Rightarrow> baselines \<Rightarrow>
   nat \<times> RunResult option" where
  "mainProgram pf load W args files = (case mainConfig pf load args of
     Inl e \<Rightarrow> (1, None)
   | Inr (f, cfg) \<Rightarrow> (case Run W (fPrintAST f) cfg (mainTargets f) (fConfigFile f) files of
       None \<Rightarrow> (2, None)
     | Some res \<Rightarrow> (exitCode res, Some res)))"

subsection \<open>Parts of a run\<close>

lemma startRun_parts:
  assumes "startRun W cfg targets configPath = Inr st"
  obtains p r where "findAndLoadOrgPolicy (rwFiles W) (rwEnv W) (rwPolicy W) (stRoot st) = Some p"
    and "discovered W (stRoot st) configPath p = Some r" and "stResolver st = SetMode (cSubConfigMode cfg) r"
    and "stConfig st = (if IsZero p then cfg else fst (ApplyPolicy cfg (Some p) (ListAll globalRegistry) (rwCPUs W)))"
    and "fst (ParseOperators globalRegistry cfg) = Some (stOperators st)"
    and "stConcurrent st = ParseConcurrent (rwCPUs W) (cConcurrent cfg)"
proof -
  from assms show thesis
    unfolding startRun_def Let_def need_Inr prod.case_distrib
    by (elim exE conjE) (rule that, auto split: prod.splits if_splits simp: need_Inr)
qed

lemma FilterSitesByDiff_subset: "set (FilterSitesByDiff cwd ss changed) \<subseteq> set ss"
  by (auto simp: FilterSitesByDiff_def split: option.splits)

lemma planRun_sites:
  assumes "planRun W st targets = Inr pl"
  shows "set (plSites pl) \<subseteq> set (filteredSites W st targets)"
proof -
  from assms have d: "diffSites W st (filteredSites W st targets) = Some (plSites pl)"
    by (cases "extractTests (rwFiles W) (cTests (stConfig st))") (auto simp: planRun_def Let_def need_Inr)
  show ?thesis
  proof (cases "cDiff (stConfig st) = []")
    case True
    then show ?thesis using d by (simp add: diffSites_def)
  next
    case False
    then obtain changed where "FilterSitesByDiff (fsCwd (rwFiles W)) (filteredSites W st targets) changed = plSites pl"
      using d by (auto simp: diffSites_def Let_def)
    then show ?thesis using FilterSitesByDiff_subset by metis
  qed
qed

lemma executeRun_pipeline:
  assumes "executeRun W cfg0 st pl configPath files = Some res"
  obtains V out tags ext where "res = finishRun W st pl configPath files tags out"
    and "runSchemata V (optionsOf st pl ext) (plannedMutants W st pl) = Some out"
    and "V = rwRun W \<or> V = (rwRun W)\<lparr>wGoVersion := cGoVersion cfg0\<rparr>"
proof -
  let ?V = "if cGoVersion cfg0 \<noteq> '''' then (rwRun W)\<lparr>wGoVersion := cGoVersion cfg0\<rparr> else rwRun W"
  let ?ext = "resolveSuites configPath (cExternalSuites (stConfig st))"
  obtain out tags where "res = finishRun W st pl configPath files tags out"
    "GenerateAndRunSchemata ?V (optionsOf st pl ?ext) (plSites pl) (stOperators st) (ListAll globalRegistry)
       (cDirRules (stConfig st)) (Some (stResolver st)) = Some out"
    using assms by (auto simp: executeRun_def Let_def)
  then show thesis
    by (intro that [of tags out ?V ?ext]) (auto simp: GenerateAndRunSchemata_def plannedMutants_def optionsOf_def split: if_splits)
qed


text \<open>
  The operators and the number of workers of a run are those of the configuration as it was given:
  they are read before the policy is applied, so what the policy changes in the configuration's
  operators and concurrency has no effect on the run.
\<close>

theorem policy_after_operators:
  assumes "startRun W cfg targets configPath = Inr st"
  shows "fst (ParseOperators globalRegistry cfg) = Some (stOperators st) \<and>
    stConcurrent st = ParseConcurrent (rwCPUs W) (cConcurrent cfg)"
  using assms by (elim startRun_parts) blast

text \<open>
  C2. The preview and the run agree: a run in a module returns mutants with exactly the numbers
  that a dry run of the same plan lists, each with a status; unless the verification ended with
  an error that the run goes on after (\<open>rnWarning\<close>), each once, so that their number is the
  total that the dry run prints.
\<close>

theorem preview_matches_run:
  assumes "executeRun W cfg0 st pl configPath files = Some res"
    and "\<And>fs. mset (wOrd (rwRun W) fs) = mset fs" and "hasModule (rwRun W) (optionsOf st pl ext)"
  shows "set (map mID (rnMutants res)) = set (map mID (plannedMutants W st pl)) \<and>
    list_all (\<lambda>m. mStatus m \<noteq> '''') (rnMutants res) \<and>
    (rnWarning res = None \<longrightarrow>
      hd (dryRun (plannedMutants W st pl)) = ''Total mutants: '' @ Itoa (int (length (rnMutants res))) \<and>
      sort (map mID (rnMutants res)) = map mID (plannedMutants W st pl))"
proof -
  obtain V out tags ext' where e: "res = finishRun W st pl configPath files tags out"
    "runSchemata V (optionsOf st pl ext') (plannedMutants W st pl) = Some out"
    "V = rwRun W \<or> V = (rwRun W)\<lparr>wGoVersion := cGoVersion cfg0\<rparr>"
    using assms(1) by (rule executeRun_pipeline)
  let ?ms = "plannedMutants W st pl"
  have ids: "idsOf ?ms = map (\<lambda>i. 1 + int i) [0..<length ?ms]"
    unfolding idsOf_def plannedMutants_def generated_number number_ids by simp
  then have dist: "distinct (idsOf ?ms)" by (simp add: distinct_map inj_on_def)
  have "hasModule V (optionsOf st pl ext')" using assms(3) e(3) by (auto simp: hasModule_def optionsOf_def)
  moreover have "mset (wOrd V fs) = mset fs" for fs using assms(2) e(3) by auto
  ultimately have s: "accountsFor (length ?ms) (idsOf ?ms) out"
    using runSchemata_settled [OF e(2) dist] by blast
  have ms: "rnMutants res = outMutants out" "rnWarning res = outWarning out"
    by (simp_all add: e(1) finishRun_def Let_def)
  have "set (idsOf (outMutants out)) = set (idsOf ?ms)" by (rule accountsFor_range [OF s])
  moreover have "sort (idsOf (outMutants out)) = idsOf ?ms" if "outWarning out = None"
  proof (rule properties_for_sort)
    show "mset (idsOf ?ms) = mset (idsOf (outMutants out))" using s that by (simp add: accountsFor_def)
    show "sorted (idsOf ?ms)" unfolding ids by (simp add: sorted_map sorted_wrt_upt)
  qed
  moreover from this have "length (outMutants out) = length ?ms" if "outWarning out = None"
    using that by (metis idsOf_def length_map length_sort)
  ultimately show ?thesis using s by (simp add: ms dryRun_def idsOf_def accountsFor_def named_def)
qed

subsection \<open>Success\<close>

lemma thresholdStage_passed:
  assumes "snd (thresholdStage cwd ms stats t (Some r)) = None" "0 < t" "0 < scored stats" "rsScore stats < t"
  shows "HasAnyOverrides r \<and> list_all (\<lambda>m. \<not> fallsShort cwd ms t r (Dir (sFile (mSite m)))) ms"
proof -
  from assms have o: "HasAnyOverrides r" "snd (checkPerPackageThresholds cwd ms t r) = None"
    by (auto simp: thresholdStage_def split: if_splits)
  then have "length (packageFailures cwd ms t r) = 0"
    by (auto simp: checkPerPackageThresholds_def Let_def split: if_splits)
  then have "card {d \<in> (\<lambda>m. Dir (sFile (mSite m))) ` set ms. fallsShort cwd ms t r d} = 0" by (simp only: failing_count)
  then have "{d \<in> (\<lambda>m. Dir (sFile (mSite m))) ` set ms. fallsShort cwd ms t r d} = {}" by (subst (asm) card_0_eq) simp_all
  with o(1) show ?thesis by (auto simp: list_all_iff)
qed

lemma Report_ok:
  assumes "rrError (Report io ms t a files) = None"
  shows "snd (thresholdStage (rioCwd io) ms (computeStats ms t) (raThreshold a) (raResolver a)) = None"
  using assms by (auto simp: Report_def reportOutputs_def Let_def split: prod.splits option.splits)

lemma reportArgs_fields:
  "raThreshold (reportArgs st pl) = cThreshold (stConfig st)" "raResolver (reportArgs st pl) = Some (stResolver st)"
  by (simp_all add: reportArgs_def Let_def)

lemma score_nonneg: "0 \<le> rsScore (computeStats ms t)"
  by (simp add: computeStats_def finishStats_def CalculateScore_percent percent_bounds)

lemma ApplyPolicy_floor:
  "\<not> IsZero p \<Longrightarrow> 0 < ThresholdFloor p \<Longrightarrow> ThresholdFloor p \<le> cThreshold (fst (ApplyPolicy cfg (Some p) ops ncpu))"
  by (simp add: ApplyPolicy_def applyThreshold_def)

text \<open>
  C3. What a successful run says about the organisation's floor: when the run ends without an
  error and reports, either it has no mutant that counts, or its score is not below the policy's
  threshold floor, whatever threshold the configuration has, or there are sub-configurations
  that change settings. In the last case the total may be below the floor: then no package is
  below the threshold that its sub-configurations give it, which may itself be below the floor.
\<close>

theorem successful_run_meets_floor:
  assumes "startRun W cfg targets configPath = Inr st"
    and "executeRun W cfg st pl configPath files = Some res" and "rnError res = None" and "rnReport res = Some r"
    and "findAndLoadOrgPolicy (rwFiles W) (rwEnv W) (rwPolicy W) (stRoot st) = Some p" and "\<not> IsZero p"
  shows "scored (rrStats r) = 0 \<or> ThresholdFloor p \<le> rsScore (rrStats r) \<or>
    HasAnyOverrides (stResolver st) \<and>
    list_all (\<lambda>m. \<not> fallsShort (rioCwd (rwReport W)) (rnMutants res) (cThreshold (stConfig st)) (stResolver st)
      (Dir (sFile (mSite m)))) (rnMutants res)"
proof -
  obtain out tags where res: "res = finishRun W st pl configPath files tags out"
    using assms(2) by (rule executeRun_pipeline)
  let ?r = "Report (rwReport W) (outMutants out) (outTotal out) (reportArgs st pl) files"
  have r: "r = ?r" "rrError ?r = None"
    using assms(3,4) by (auto simp: res finishRun_def Let_def split: if_splits option.splits)
  have stats: "rrStats ?r = computeStats (outMutants out) (outTotal out)"
    by (simp add: Report_def Let_def split: prod.split option.split)
  have ms: "rnMutants res = outMutants out" by (simp add: res finishRun_def Let_def)
  have passed: "snd (thresholdStage (rioCwd (rwReport W)) (outMutants out) (rrStats r) (cThreshold (stConfig st)) (Some (stResolver st))) = None"
    using Report_ok [OF r(2)] by (simp add: r(1) stats reportArgs_fields)
  show ?thesis
  proof (cases "0 < ThresholdFloor p")
    case True
    have "stConfig st = fst (ApplyPolicy cfg (Some p) (ListAll globalRegistry) (rwCPUs W))"
      using assms(1,5,6) by (elim startRun_parts) auto
    then have floor: "ThresholdFloor p \<le> cThreshold (stConfig st)"
      using ApplyPolicy_floor [OF assms(6) True] by simp
    show ?thesis
      using thresholdStage_passed [OF passed] floor True by (simp add: ms) fastforce
  next
    case False
    then show ?thesis using score_nonneg [of "outMutants out" "outTotal out"] by (simp add: r(1) stats)
  qed
qed

subsection \<open>A run in a package of its own\<close>

text \<open>The working directory is a package without a module; every mutant is killed by the same test.\<close>

definition demoWorld :: "string World" where
  "demoWorld = (sumWorld '''' (Some ''/tmp/g''))\<lparr>wCwd := ''/p'',
     wStandalone := \<lambda>p ms. Some (Some True, \<lparr>compilerOutput = [], perMutant = Map.empty, attributed = {}, compileFailed = False\<rparr>, True,
       \<lambda>i. (''--- FAIL: TestSum (0.00s)'', Some ''exit status 1'', False, 5), ''/tmp/g/p'')\<rparr>"

definition demoDirectory :: Files where
  "demoDirectory = \<lparr>fsCwd = ''/p'', fsExists = (\<lambda>p. False), fsIsDir = (\<lambda>p. Some False), fsDir = (\<lambda>p. None),
     fsTree = (\<lambda>p. Folder ''p'' [Leaf ''a.go'', Leaf ''a_test.go'']), fsParse = (\<lambda>p. None), fsRead = (\<lambda>p. None)\<rparr>"

definition demoPolicy :: OrgPolicy where
  "demoPolicy = zeroPolicy\<lparr>ThresholdFloor := 50, ForcedSkipPaths := [''gen'']\<rparr>"

definition demoRun :: "string RunWorld" where
  "demoRun = \<lparr>rwFiles = demoDirectory, rwLoader = demoLoader '''', rwRun = demoWorld,
     rwEnv = (\<lambda>v. if v = ''GORGON_ORG_POLICY'' then ''/org.yml'' else ''''), rwPolicy = (\<lambda>p. Some demoPolicy),
     rwSubConfig = (\<lambda>p. None), rwWorkspace = None, rwCPUs = 2, rwCache = (\<lambda>d. Some NewCache),
     rwGit = (\<lambda>r. ('''', '''')), rwReport = demoReportIO, rwBadge = (\<lambda>p. True), rwConfig = (\<lambda>p. None)\<rparr>"

definition demoConfig :: Config where
  "demoConfig = DefaultConfig\<lparr>cOperators := [''arithmetic_flip''], cBase := ''/p'', cThreshold := 10\<rparr>"

definition demoResolver :: Resolver where
  "demoResolver = \<lparr>projectRoot = ''/p'', entries = [], policy = Some demoPolicy, mode = ''''\<rparr>"

lemma demo_operators: "fst (ParseOperators globalRegistry demoConfig) = Some [ArithmeticFlip]"
proof -
  have "map_of (operators globalRegistry) ''arithmetic_flip'' = Some ArithmeticFlip"
    by (simp add: globalRegistry_operators allOperators_def operator_defs)
  moreover have "TrimSpace ''arithmetic_flip'' = ''arithmetic_flip''" by code_simp
  ultimately show ?thesis
    by (simp add: ParseOperators_def operatorsNamed_plain [OF globalRegistry_plain] opsNamed_def demoConfig_def categoryMap_def
        del: operatorsNamed.simps)
qed

lemma demo_policy: "findAndLoadOrgPolicy demoDirectory (rwEnv demoRun) (rwPolicy demoRun) rt = Some demoPolicy" "\<not> IsZero demoPolicy"
  by (simp_all add: findAndLoadOrgPolicy_def demoRun_def demoPolicy_def IsZero_def)

lemma demo_root: "findProjectRoot demoDirectory ''/p/a.go'' ''/p'' = ''/p''"
  by code_simp

lemma demo_resolver: "discovered demoRun ''/p'' '''' demoPolicy = Some demoResolver"
proof -
  have "Discover ''/p'' (fsTree demoDirectory) (\<lambda>p. None) None ''/p'' '''' = Some \<lparr>projectRoot = ''/p'', entries = [], policy = None, mode = ''''\<rparr>"
    by code_simp
  then show ?thesis
    by (simp add: discovered_def demo_policy(2) demoResolver_def DiscoverWithPolicy_def demoRun_def)
      (simp add: demoDirectory_def)
qed

lemma demo_scanned:
  "map_option (\<lambda>e. map (\<lambda>s. (sFile s, sLine s)) (Sites e))
     (eachStep (Traverse (demoLoader '''') (\<lambda>n. True)) [''/p/a.go''] (newEngineFor ''/p'' [ArithmeticFlip] ''/p'' [])) =
   Some [(''/p/a.go'', 4), (''/p/a.go'', 5)]"
  by code_simp

lemma demo_policy_config:
  "ApplyPolicy demoConfig (Some demoPolicy) ops n = (demoConfig\<lparr>cThreshold := 50, cSkip := [''gen'']\<rparr>, snd (ApplyPolicy demoConfig (Some demoPolicy) ops n))"
  by (simp add: ApplyPolicy_def IsZero_def demoConfig_def DefaultConfig_def demoPolicy_def zeroPolicy_def
      applyThreshold_def applyRequired_def applyForbidden_def applyPaths_def applyCache_def applyConcurrent_def
      enforceMinConcurrent_def Let_def)

definition demoScanned :: Engine where
  "demoScanned = the (eachStep (Traverse (demoLoader '''') (\<lambda>n. True)) [''/p/a.go''] (newEngineFor ''/p'' [ArithmeticFlip] ''/p'' []))"

definition demoPoliced :: Config where
  "demoPoliced = demoConfig\<lparr>cThreshold := 50, cSkip := [''gen'']\<rparr>"

definition demoStart :: RunStart where
  "demoStart = \<lparr>stOperators = [ArithmeticFlip], stConcurrent = 2, stRoot = ''/p'', stConfig = demoPoliced,
     stViolations = snd (ApplyPolicy demoConfig (Some demoPolicy) (ListAll globalRegistry) 2),
     stResolver = demoResolver, stEngine = demoScanned\<rparr>"

lemma demo_started:
  assumes "rwFiles W = demoDirectory" "rwLoader W = rwLoader demoRun" "rwEnv W = rwEnv demoRun" "rwPolicy W = rwPolicy demoRun"
    "rwSubConfig W = rwSubConfig demoRun" "rwWorkspace W = rwWorkspace demoRun" "rwCPUs W = 2"
  shows "startRun W demoConfig [''/p/a.go''] '''' = Inr demoStart"
proof -
  have "discovered W ''/p'' '''' demoPolicy = discovered demoRun ''/p'' '''' demoPolicy"
    unfolding discovered_def assms by (simp add: demoRun_def)
  then have "discovered W ''/p'' '''' demoPolicy = Some demoResolver" by (simp only: demo_resolver)
  moreover have "eachStep (Traverse (demoLoader '''') (\<lambda>n. True)) [''/p/a.go''] (newEngineFor ''/p'' [ArithmeticFlip] ''/p'' []) = Some demoScanned"
    using demo_scanned by (auto simp: demoScanned_def)
  moreover have "cConcurrent demoConfig = ''all''" "cBase demoConfig = ''/p''" "cSuppress demoConfig = []" "cSubConfigMode demoConfig = ''''"
    by (simp_all add: demoConfig_def DefaultConfig_def)
  moreover have "fsCwd demoDirectory = ''/p''" "rwLoader demoRun = demoLoader ''''" by (simp_all add: demoDirectory_def demoRun_def)
  moreover have "SetMode '''' demoResolver = demoResolver" by (simp add: SetMode_def demoResolver_def)
  moreover obtain vs where "ApplyPolicy demoConfig (Some demoPolicy) (ListAll globalRegistry) 2 = (demoPoliced, vs)"
    using demo_policy_config unfolding demoPoliced_def by blast
  ultimately show ?thesis
    by (simp add: startRun_def assms demo_operators demo_root demo_policy ParseConcurrent_def demoStart_def Let_def
        del: eachStep.simps)
qed

definition demoPlan :: RunPlan where
  "demoPlan = \<lparr>plSites = filteredSites demoRun demoStart [''/p/a.go''], plBaseDir = ''/p'', plCache = None,
     plDebugFile = '''', plTestsByPkg = Map.empty, plTestPaths = []\<rparr>"

lemma demo_planned: "rwFiles W = demoDirectory \<Longrightarrow> planRun W demoStart [''/p/a.go''] = Inr demoPlan"
proof -
  assume W: "rwFiles W = demoDirectory"
  have "extractTests demoDirectory [] = Inr (Map.empty, [])" by (simp add: extractTests_def)
  moreover have "baseDirOf demoDirectory ''/p/a.go'' = ''/p''" by code_simp
  moreover have "cTests demoPoliced = []" "\<not> cCache demoPoliced" "cDiff demoPoliced = ''''" "\<not> cDebug demoPoliced"
    by (simp_all add: demoPoliced_def demoConfig_def DefaultConfig_def)
  moreover have "stConfig demoStart = demoPoliced" by (simp add: demoStart_def)
  ultimately show ?thesis
    by (simp add: planRun_def W diffSites_def debugFilePath_def demoPlan_def filteredSites_def demoRun_def Let_def)
qed

lemma GenerateMutants_plain:
  "\<not> HasAnyOverrides r \<Longrightarrow> GenerateMutants cwd ss ops allOps rt rules (Some r) = GenerateMutants cwd ss ops allOps' rt rules None"
  by (simp add: GenerateMutants_def opsAt_def [abs_def])

definition demoPlanned :: "Mutant list" where
  "demoPlanned = GenerateMutants ''/p'' (FilterSites ''/p'' (Sites demoScanned) [''/p/a.go''] demoPoliced (Some demoResolver))
     [ArithmeticFlip] [] ''/p'' [] None"

lemma demo_mutants_planned: "wCwd (rwRun W) = ''/p'' \<Longrightarrow> plannedMutants W demoStart demoPlan = demoPlanned"
proof -
  assume "wCwd (rwRun W) = ''/p''"
  moreover have "\<not> HasAnyOverrides demoResolver" by (simp add: HasAnyOverrides_def demoResolver_def)
  ultimately show ?thesis
    by (simp add: plannedMutants_def demoPlanned_def demoStart_def demoPlan_def filteredSites_def demoRun_def demoDirectory_def
        GenerateMutants_plain [where allOps' = "[]"] demoPoliced_def demoConfig_def DefaultConfig_def)
qed

definition demoOptions :: Options where
  "demoOptions = \<lparr>oBaseDir = ''/p'', oProjectRoot = ''/p'', oTestPaths = [], oTestsByPkg = Map.empty,
     oUnitTests = True, oExternal = \<lparr>ExtEnabled = False, RunMode = '''', Suites = []\<rparr>, oCache = None\<rparr>"

lemma demo_executed:
  assumes "wCwd (rwRun W) = ''/p''"
  shows "executeRun W demoConfig demoStart demoPlan '''' files = map_option
    (finishRun W demoStart demoPlan '''' files (mergeTags [] (detectTestBuildTags (rwFiles W) ''/p'' [])))
    (runSchemata (rwRun W) demoOptions demoPlanned)"
proof -
  have "cGoVersion demoConfig = ''''" "cExternalSuites demoPoliced = \<lparr>ExtEnabled = False, RunMode = '''', Suites = []\<rparr>"
    "cBuildTags demoPoliced = []" "cUnitTestsEnabled demoPoliced" "cDirRules demoPoliced = []"
    by (simp_all add: demoPoliced_def demoConfig_def DefaultConfig_def)
  moreover have "GenerateMutants ''/p'' (plSites demoPlan) [ArithmeticFlip] (ListAll globalRegistry) ''/p'' [] (Some demoResolver) = demoPlanned"
    using demo_mutants_planned [OF assms] by (simp add: plannedMutants_def assms demoStart_def calculation)
  ultimately show ?thesis
    by (simp add: executeRun_def GenerateAndRunSchemata_def resolveSuites_def suitePaths_def optionsOf_def demoOptions_def
        assms demoStart_def demoPlan_def Let_def)
qed

lemma demo_ids: "map mID demoPlanned = [1, 2]"
  by code_simp

lemma demo_outcome:
  "map_option (\<lambda>out. (outErr out, outTotal out, rsScore (computeStats (outMutants out) 2), scored (computeStats (outMutants out) 2)))
     (runSchemata demoWorld demoOptions demoPlanned) = Some (None, 2, 100, 2)"
  by code_simp


theorem policy_after_operators_witness:
  "fst (ParseOperators globalRegistry demoConfig) = Some [ArithmeticFlip] \<and> stConcurrent demoStart = 2"
proof -
  have s: "startRun demoRun demoConfig [''/p/a.go''] '''' = Inr demoStart" by (rule demo_started) (simp_all add: demoRun_def)
  show ?thesis using policy_after_operators [OF s] by (simp add: demoStart_def demoRun_def demoConfig_def DefaultConfig_def ParseConcurrent_def)
qed

theorem successful_run_meets_floor_witness:
  "\<exists>res r. executeRun demoRun demoConfig demoStart demoPlan '''' Map.empty = Some res \<and> rnReport res = Some r \<and> 50 \<le> rsScore (rrStats r)"
proof -
  have s: "startRun demoRun demoConfig [''/p/a.go''] '''' = Inr demoStart" by (rule demo_started) (simp_all add: demoRun_def)
  have pol: "findAndLoadOrgPolicy (rwFiles demoRun) (rwEnv demoRun) (rwPolicy demoRun) (stRoot demoStart) = Some demoPolicy"
    using demo_policy(1) by (simp add: demoRun_def)
  obtain out where out: "runSchemata demoWorld demoOptions demoPlanned = Some out" "outErr out = None" "outTotal out = 2"
    "rsScore (computeStats (outMutants out) 2) = 100" "scored (computeStats (outMutants out) 2) = 2"
    using demo_outcome by auto
  have ne: "outMutants out \<noteq> []" using out(5) by (auto simp: computeStats_def finishStats_def scored_def zeroStats_def)
  let ?r = "Report demoReportIO (outMutants out) 2 (reportArgs demoStart demoPlan) Map.empty"
  have cfg: "stConfig demoStart = demoPoliced" "stResolver demoStart = demoResolver" by (simp_all add: demoStart_def)
  have c: "cBaseline demoPoliced = \<lparr>NoRegression = False, BaselineFile = '''', Tolerance = 0, BaselineSave = False\<rparr>"
    "cOutputs demoPoliced = []" "cThreshold demoPoliced = 50"
    by (simp_all add: demoPoliced_def demoConfig_def DefaultConfig_def)
  have ok: "rrError ?r = None" "rrStats ?r = computeStats (outMutants out) 2"
    by (simp_all add: Report_def reportArgs_def cfg c firstSpec_def baselineStage_def regressionStage_def reportOutputs_def
        firstOutput_def reportFormats_def thresholdStage_def out Let_def)
  obtain res where res: "executeRun demoRun demoConfig demoStart demoPlan '''' Map.empty = Some res" "rnError res = None" "rnReport res = Some ?r"
    using out ne ok(1) demo_executed [of demoRun Map.empty]
    by (auto simp: demoRun_def finishRun_def Let_def demoWorld_def)
  have "\<not> HasAnyOverrides (stResolver demoStart)" by (simp add: cfg HasAnyOverrides_def demoResolver_def)
  moreover have "0 < scored (rrStats ?r)" by (simp add: ok(2) out(5))
  ultimately have "ThresholdFloor demoPolicy \<le> rsScore (rrStats ?r)"
    using successful_run_meets_floor [OF s res pol demo_policy(2)] by simp
  with res show ?thesis by (auto simp: demoPolicy_def)
qed

text \<open>The same run in a module whose copy cannot be set up: every mutant ends with an error.\<close>

definition demoModuleRun :: "string RunWorld" where
  "demoModuleRun = demoRun\<lparr>rwRun := (sumWorld ''/p/go.mod'' None)\<lparr>wCwd := ''/p''\<rparr>\<rparr>"

lemma demo_module_outcome:
  "map_option (\<lambda>out. (outWarning out, length (outMutants out)))
     (runSchemata ((sumWorld ''/p/go.mod'' None)\<lparr>wCwd := ''/p''\<rparr>) demoOptions demoPlanned) = Some (None, 2)"
  by code_simp

theorem preview_matches_run_witness:
  "\<exists>res. executeRun demoModuleRun demoConfig demoStart demoPlan '''' Map.empty = Some res \<and>
     sort (map mID (rnMutants res)) = [1, 2] \<and> hd (dryRun demoPlanned) = ''Total mutants: 2''"
proof -
  have w: "rwRun demoModuleRun = (sumWorld ''/p/go.mod'' None)\<lparr>wCwd := ''/p''\<rparr>" by (simp add: demoModuleRun_def)
  then have cwd: "wCwd (rwRun demoModuleRun) = ''/p''" by simp
  obtain out where out: "runSchemata (rwRun demoModuleRun) demoOptions demoPlanned = Some out" "outWarning out = None" "length (outMutants out) = 2"
    using demo_module_outcome w by auto
  obtain res where res: "executeRun demoModuleRun demoConfig demoStart demoPlan '''' Map.empty = Some res"
    "rnWarning res = None" "rnMutants res = outMutants out"
    unfolding demo_executed [OF cwd] out(1) by (auto simp: finishRun_def Let_def out(2))
  have ord: "mset (wOrd (rwRun demoModuleRun) fs) = mset fs" for fs by (simp add: w sumWorld_def)
  have "optionsOf demoStart demoPlan ext = demoOptions\<lparr>oExternal := ext\<rparr>" for ext
    by (simp add: optionsOf_def demoStart_def demoPlan_def demoOptions_def demoPoliced_def demoConfig_def DefaultConfig_def)
  moreover have "Abs ''/p'' ''/p'' = Abs ''/'' ''/p''" by code_simp
  ultimately have "hasModule (rwRun demoModuleRun) (optionsOf demoStart demoPlan ext)" for ext
    using sum_module(1) [of None] by (simp add: hasModule_def w demoOptions_def sumOptions_def sumWorld_def)
  from preview_matches_run [OF res(1) ord this] res(2,3) out(3)
  have "sort (map mID (rnMutants res)) = map mID demoPlanned" "hd (dryRun demoPlanned) = ''Total mutants: '' @ Itoa 2"
    unfolding demo_mutants_planned [OF cwd] by simp_all
  moreover have "Itoa 2 = ''2''" by code_simp
  ultimately show ?thesis using res(1) by (simp add: demo_ids)
qed

end
