(* ===== verification/Tree.thy ===== *)
theory Tree
  imports AstOps
begin

text \<open>
  The printer of syntax trees (\<open>internal/engine/tree.go\<close>). The three tables that the source
  fills by \<open>registerNode\<close> are one partial function from nodes to kind, description and
  children, in the groups of the source. The printer keeps a stack of nodes; the reference is
  the recursive rendering. \<open>fmtV\<close> is \<open>fmt.Sprintf("%v")\<close> of a node that is no identifier.
\<close>

type_synonym nodeEntry = "string \<times> string \<times> node list"

definition nodeName :: "node \<Rightarrow> string" where
  "nodeName n = (case n of Ident _ s \<Rightarrow> s | _ \<Rightarrow> '''')"

definition listOf :: "node \<Rightarrow> node list" where
  "listOf n = (case n of FieldList _ fs _ \<Rightarrow> fs | _ \<Rightarrow> [])"

text \<open>\<open>FieldList.NumFields\<close>: a field without names counts once.\<close>

definition NumFields :: "node list \<Rightarrow> nat" where
  "NumFields fs = sum_list (map (\<lambda>f. case f of
     Field _ ns _ _ _ \<Rightarrow> if ns = [] then 1 else length ns | _ \<Rightarrow> 1) fs)"

definition number :: "nat \<Rightarrow> string" where
  "number n = Itoa (int n)"

subsection \<open>The tables\<close>

definition registerFileAndFuncNodes :: "node \<Rightarrow> nodeEntry option" where
  "registerFileAndFuncNodes n = (case n of
     File _ _ nm ds cs \<Rightarrow> Some (''File'', '''', cs @ [nm] @ ds)
   | FuncDecl _ _ nm t b \<Rightarrow> Some (''FuncDecl'', ''Function/Method: '' @ nodeName nm, [nm, t] @ option_list b)
   | FuncType _ tps ps rs \<Rightarrow> Some (''FuncType'', '''', option_list tps @ option_list ps @ option_list rs)
   | Field _ ns t tg _ \<Rightarrow> Some (''Field'', '''', ns @ option_list t @ option_list tg)
   | _ \<Rightarrow> None)"

definition registerDeclAndSpecNodes :: "node \<Rightarrow> nodeEntry option" where
  "registerDeclAndSpecNodes n = (case n of
     GenDecl _ _ tok _ specs _ \<Rightarrow> Some (''GenDecl'', ''Decl Type: '' @ tokenString tok, specs)
   | ValueSpec _ ns t vs _ \<Rightarrow> Some (''ValueSpec'', concat (map (\<lambda>x. ''Var/Const: '' @ nodeName x @ '' '') ns),
       ns @ option_list t @ vs)
   | TypeSpec _ nm _ _ t _ \<Rightarrow> Some (''TypeSpec'', ''Type Name: '' @ nodeName nm, [nm, t])
   | _ \<Rightarrow> None)"

text \<open>The statements, in two halves: those that control the flow, and the others.\<close>

definition registerControlNodes :: "node \<Rightarrow> nodeEntry option" where
  "registerControlNodes n = (case n of
     BlockStmt _ ss _ \<Rightarrow> Some (''BlockStmt'', '''', ss)
   | IfStmt _ i c b e \<Rightarrow> Some (''IfStmt'', '''', option_list i @ [c, b] @ option_list e)
   | ForStmt _ i c p b \<Rightarrow> Some (''ForStmt'', '''', option_list i @ option_list c @ option_list p @ [b])
   | RangeStmt _ k v _ tok _ x b \<Rightarrow> Some (''RangeStmt'', ''Range Op: '' @ tokenString tok, option_list k @ option_list v @ [x, b])
   | SwitchStmt _ i t b \<Rightarrow> Some (''SwitchStmt'', '''', option_list i @ option_list t @ [b])
   | TypeSwitchStmt _ i a b \<Rightarrow> Some (''TypeSwitchStmt'', '''', option_list i @ [a, b])
   | _ \<Rightarrow> None)"

definition registerStmtNodes :: "node \<Rightarrow> nodeEntry option" where
  "registerStmtNodes n = (case n of
     SelectStmt _ b \<Rightarrow> Some (''SelectStmt'', '''', [b])
   | CaseClause _ es _ b \<Rightarrow> Some (''CaseClause'', '''', or_else [] es @ b)
   | CommClause _ c _ b \<Rightarrow> Some (''CommClause'', '''', option_list c @ b)
   | ReturnStmt _ rs \<Rightarrow> Some (''ReturnStmt'', '''', rs)
   | AssignStmt ls _ tok rs \<Rightarrow> Some (''AssignStmt'', ''Assign Op: '' @ tokenString tok, ls @ rs)
   | DeclStmt d \<Rightarrow> Some (''DeclStmt'', '''', [d])
   | ExprStmt x \<Rightarrow> Some (''ExprStmt'', '''', [x])
   | IncDecStmt x _ tok \<Rightarrow> Some (''IncDecStmt'', ''Op: '' @ tokenString tok, [x])
   | SendStmt c _ v \<Rightarrow> Some (''SendStmt'', ''Chan Send'', [c, v])
   | GoStmt _ c \<Rightarrow> Some (''GoStmt'', ''Go Routine'', [c])
   | DeferStmt _ c \<Rightarrow> Some (''DeferStmt'', ''Defer'', [c])
   | BranchStmt _ tok l \<Rightarrow> Some (''BranchStmt'', ''Branch: '' @ tokenString tok, option_list l)
   | LabeledStmt l _ s \<Rightarrow> Some (''LabeledStmt'', ''Label: '' @ nodeName l, [l, s])
   | _ \<Rightarrow> None)"

definition callText :: "(node \<Rightarrow> string) \<Rightarrow> node \<Rightarrow> string" where
  "callText fmtV f = (case f of
     Ident _ s \<Rightarrow> ''Call: '' @ s
   | SelectorExpr x sel \<Rightarrow> ''Method/Call: '' @ (case x of Ident _ s \<Rightarrow> s | _ \<Rightarrow> fmtV x) @ ''.'' @ nodeName sel
   | _ \<Rightarrow> '''')"

definition registerExprNodes :: "(node \<Rightarrow> string) \<Rightarrow> node \<Rightarrow> nodeEntry option" where
  "registerExprNodes fmtV n = (case n of
     BinaryExpr x _ op y \<Rightarrow> Some (''BinaryExpr'', ''Op: '' @ tokenString op, [x, y])
   | UnaryExpr _ op x \<Rightarrow> Some (''UnaryExpr'', ''Op: '' @ tokenString op, [x])
   | CallExpr f _ as _ _ \<Rightarrow> Some (''CallExpr'', callText fmtV f, f # as)
   | SelectorExpr x s \<Rightarrow> Some (''SelectorExpr'', ''Selector: '' @ nodeName s, [x, s])
   | IndexExpr x _ i _ \<Rightarrow> Some (''IndexExpr'', ''Index'', [x, i])
   | CompositeLit t _ es _ \<Rightarrow> Some (''CompositeLit'', ''Literal (Elements: '' @ number (length es) @ '')'', option_list t @ es)
   | KeyValueExpr k _ v \<Rightarrow> Some (''KeyValueExpr'', '''', [k, v])
   | FuncLit t b \<Rightarrow> Some (''FuncLit'', ''Anonymous Func'', [t, b])
   | ParenExpr _ x _ \<Rightarrow> Some (''ParenExpr'', '''', [x])
   | StarExpr _ x \<Rightarrow> Some (''StarExpr'', '''', [x])
   | SliceExpr x _ lo hi mx three _ \<Rightarrow> Some (''SliceExpr'', if three then ''Slice [low:high:max]'' else ''Slice [low:high]'',
       x # option_list lo @ option_list hi @ option_list mx)
   | IndexListExpr x _ is _ \<Rightarrow> Some (''IndexListExpr'', ''Generic Instantiation'', x # is)
   | TypeAssertExpr x _ t _ \<Rightarrow> Some (''TypeAssertExpr'', ''Type Assertion'', x # option_list t)
   | Ellipsis _ e \<Rightarrow> Some (''Ellipsis'', ''Variadic ...'', option_list e)
   | _ \<Rightarrow> None)"

definition registerTypeNodes :: "node \<Rightarrow> nodeEntry option" where
  "registerTypeNodes n = (case n of
     InterfaceType _ ms \<Rightarrow> Some (''InterfaceType'', ''Interface (Methods: '' @ number (length (listOf ms)) @ '')'', [ms])
   | StructType _ fs \<Rightarrow> Some (''StructType'', ''Struct (Fields: '' @ number (length (listOf fs)) @ '')'', [fs])
   | ArrayType _ l e \<Rightarrow> Some (''ArrayType'', ''Array/Slice'', option_list l @ [e])
   | MapType _ k v \<Rightarrow> Some (''MapType'', ''Map'', [k, v])
   | ChanType _ d v \<Rightarrow> Some (''ChanType'', ''Chan (Dir: '' @ number d @ '')'', [v])
   | FieldList _ fs _ \<Rightarrow> Some (''FieldList'', ''Fields: '' @ number (NumFields fs), fs)
   | _ \<Rightarrow> None)"

text \<open>\<open>quote\<close> is the verb \<open>%q\<close>.\<close>

definition registerMiscNodes :: "(string \<Rightarrow> string) \<Rightarrow> node \<Rightarrow> nodeEntry option" where
  "registerMiscNodes quote n = (case n of
     CommentGroup cs \<Rightarrow> Some (''CommentGroup'', ''CommentGroup ('' @ number (length cs) @ '' lines)'', cs)
   | Ident _ s \<Rightarrow> Some (''Ident'', ''Name: '' @ s, [])
   | BasicLit _ k v \<Rightarrow> Some (''BasicLit'', ''Value: '' @ v @ '' (Kind: '' @ tokenString k @ '')'', [])
   | ImportSpec _ _ path _ \<Rightarrow> Some (''ImportSpec'', ''Import: '' @ quote (case path of BasicLit _ _ v \<Rightarrow> v | _ \<Rightarrow> ''''), [path])
   | Comment _ t \<Rightarrow> Some (''Comment'', ''Single Comment: '' @ (if 20 < length t then take 20 t @ ''...'' else t), [])
   | _ \<Rightarrow> None)"

text \<open>The type name that \<open>%T\<close> gives for a node without an entry.\<close>

definition unregisteredKind :: "node \<Rightarrow> string" where
  "unregisteredKind n = (case n of BadExpr _ _ \<Rightarrow> ''BadExpr'' | BadStmt _ _ \<Rightarrow> ''BadStmt''
     | EmptyStmt _ _ \<Rightarrow> ''EmptyStmt'' | BadDecl _ _ \<Rightarrow> ''BadDecl'' | _ \<Rightarrow> '''')"

record Printer =
  prQuote :: "string \<Rightarrow> string"
  prFmtV :: "node \<Rightarrow> string"
  prPosition :: "int \<Rightarrow> int \<times> int"
  prEnabled :: bool

fun firstEntry :: "nodeEntry option list \<Rightarrow> nodeEntry option" where
  "firstEntry [] = None"
| "firstEntry (e # es) = (case e of Some x \<Rightarrow> Some x | None \<Rightarrow> firstEntry es)"

definition entryOf :: "Printer \<Rightarrow> node \<Rightarrow> nodeEntry" where
  "entryOf P n = or_else (unregisteredKind n, '''', [])
     (firstEntry [registerFileAndFuncNodes n, registerDeclAndSpecNodes n, registerControlNodes n, registerStmtNodes n,
        registerExprNodes (prFmtV P) n, registerTypeNodes n, registerMiscNodes (prQuote P) n])"

definition treeChildren :: "Printer \<Rightarrow> node \<Rightarrow> node list" where
  "treeChildren P n = snd (snd (entryOf P n))"

subsection \<open>The printer\<close>

definition boxCorner :: string where
  "boxCorner = [CHR 0xE2, CHR 0x94, CHR 0x94, CHR 0xE2, CHR 0x94, CHR 0x80, CHR 0xE2, CHR 0x94, CHR 0x80, CHR 0x20]"

definition boxTee :: string where
  "boxTee = [CHR 0xE2, CHR 0x94, CHR 0x9C, CHR 0xE2, CHR 0x94, CHR 0x80, CHR 0xE2, CHR 0x94, CHR 0x80, CHR 0x20]"

definition boxBar :: string where
  "boxBar = [CHR 0xE2, CHR 0x94, CHR 0x82] @ ''   ''"

definition processNode :: "Printer \<Rightarrow> node \<Rightarrow> string \<Rightarrow> string \<Rightarrow> string" where
  "processNode P n pre connector =
     (let (ln, col) = prPosition P (Pos n); (kind, desc, _) = entryOf P n in
      pre @ connector @ kind @ '' ['' @ Itoa ln @ '':'' @ Itoa col @ '']'' @ [CHR 0x0A] @
      (if desc = '''' then '''' else pre @ ''    '' @ boxCorner @ desc @ [CHR 0x0A]))"

type_synonym stackEntry = "node \<times> string \<times> bool"

text \<open>The push loop runs from the last child to the first, so the first child is on top.\<close>

fun pushChildren :: "string \<Rightarrow> nat \<Rightarrow> node list \<Rightarrow> stackEntry list \<Rightarrow> stackEntry list" where
  "pushChildren pre i [] stack = stack"
| "pushChildren pre i (k # ks) stack = (k, pre, i = 0) # pushChildren pre (Suc i) ks stack"

definition connectorOf :: "bool \<Rightarrow> string" where
  "connectorOf isLast = (if isLast then boxCorner else boxTee)"

definition nextPrefix :: "string \<Rightarrow> bool \<Rightarrow> string" where
  "nextPrefix pre isLast = (if isLast then pre @ ''    '' else pre @ boxBar)"

definition weight :: "node list \<Rightarrow> nat" where
  "weight ns = sum_list (map (\<lambda>n. Suc (2 * size n)) ns)"

lemma treeWeight_simps [simp]:
  "weight [] = 0" "weight (n # ns) = Suc (2 * size n) + weight ns" "weight (a @ b) = weight a + weight b"
  by (simp_all add: weight_def)

lemma weight_list: "2 * size_list size ns = weight ns + length ns"
  by (induction ns) auto

lemma weight_option: "2 * size_option size x = weight (option_list x) + (if x = None then 2 else 1)"
  by (cases x) auto

lemma firstEntry_cases: "firstEntry es = Some e \<Longrightarrow> Some e \<in> set es"
  by (induction es) (auto split: option.splits)

lemma weight_pushChildren: "weight (map fst (pushChildren pre i ks stack)) = weight ks + weight (map fst stack)"
  by (induction ks arbitrary: i) auto

lemmas tables = registerFileAndFuncNodes_def registerDeclAndSpecNodes_def registerControlNodes_def
  registerStmtNodes_def registerExprNodes_def registerTypeNodes_def registerMiscNodes_def

lemma weight_or_else: "weight (or_else [] es) + (case es of None \<Rightarrow> 2 | Some xs \<Rightarrow> length xs + 2) = 2 * size_option (size_list size) es"
  by (cases es) (auto simp: weight_list)

lemma weight_treeChildren: "weight (treeChildren P n) \<le> 2 * size n"
  by (cases n) (auto simp: treeChildren_def entryOf_def tables weight_list weight_option weight_or_else[symmetric])

lemma size_treeChildren: "k \<in> set (treeChildren P n) \<Longrightarrow> size k < size n"
proof -
  assume "k \<in> set (treeChildren P n)"
  then have "Suc (2 * size k) \<le> weight (treeChildren P n)"
    unfolding weight_def by (intro member_le_sum_list) auto
  then show "size k < size n" using weight_treeChildren[of P n] by linarith
qed

function printLoop :: "Printer \<Rightarrow> string \<Rightarrow> stackEntry list \<Rightarrow> string" where
  "printLoop P sb [] = sb"
| "printLoop P sb ((n, pre, isLast) # stack) =
     printLoop P (sb @ processNode P n pre (connectorOf isLast))
       (pushChildren (nextPrefix pre isLast) 0 (treeChildren P n) stack)"
  by pat_completeness auto
termination
  by (relation "measure (\<lambda>(P, sb, stack). weight (map fst stack))")
     (auto simp: weight_pushChildren le_imp_less_Suc[OF weight_treeChildren])

definition PrintTree :: "Printer \<Rightarrow> node option \<Rightarrow> string" where
  "PrintTree P node = (case node of None \<Rightarrow> '''' | Some n \<Rightarrow>
     if prEnabled P then printLoop P '''' [(n, '''', True)] else '''')"

subsection \<open>The recursive rendering\<close>

function renderTree :: "Printer \<Rightarrow> string \<Rightarrow> bool \<Rightarrow> node \<Rightarrow> string" where
  "renderTree P pre isLast n = processNode P n pre (connectorOf isLast) @
     concat (map (\<lambda>(i, k). renderTree P (nextPrefix pre isLast) (i = 0) k) (enumerate 0 (treeChildren P n)))"
  by auto
termination
  by (relation "measure (\<lambda>(P, pre, isLast, n). size n)")
     (auto simp: in_set_enumerate_eq intro!: size_treeChildren[OF nth_mem])

declare renderTree.simps [simp del]

lemma printLoop_renders:
  "printLoop P sb stack = sb @ concat (map (\<lambda>(n, pre, isLast). renderTree P pre isLast n) stack)"
proof (induction P sb stack rule: printLoop.induct)
  case (2 P sb n pre isLast stack)
  have push: "concat (map (\<lambda>(n, pre, isLast). renderTree P pre isLast n) (pushChildren q i ks stack)) =
      concat (map (\<lambda>(i, k). renderTree P q (i = 0) k) (enumerate i ks)) @
      concat (map (\<lambda>(n, pre, isLast). renderTree P pre isLast n) stack)" for q i ks
    by (induction ks arbitrary: i) auto
  show ?case by (simp add: 2 push) (simp add: renderTree.simps)
qed simp

text \<open>The children of a file include its comment groups, which \<open>ast.Inspect\<close> does not visit.\<close>

definition fileComments :: "node \<Rightarrow> node list" where
  "fileComments n = (case n of File _ _ _ _ cs \<Rightarrow> cs | _ \<Rightarrow> [])"

lemma treeChildren_kids: "set (treeChildren P n) \<subseteq> set (kids n) \<union> set (fileComments n)"
proof -
  have opt: "x \<in> set (or_else [] es) \<longleftrightarrow> (\<exists>xs. es = Some xs \<and> x \<in> set xs)" for x es
    by (cases es) auto
  show ?thesis
    by (cases n) (auto simp: treeChildren_def entryOf_def tables fileComments_def opt split: option.splits)
qed

text \<open>C0. The printer's stack loop is the recursive rendering of the tree in pre-order: with printing
  enabled it returns, for every tree, the line of the node followed by the renderings of its children,
  and the marker of the last child goes to the first one. Only syntactic children and the comment groups of the file are visited.\<close>

theorem tree_printer_renders:
  "PrintTree P (Some n) = (if prEnabled P then renderTree P '''' True n else '''') \<and>
   set (treeChildren P n) \<subseteq> set (kids n) \<union> set (fileComments n)"
  by (simp add: PrintTree_def printLoop_renders treeChildren_kids)

end
