(* ===== verification/CacheFile.thy ===== *)
theory CacheFile
  imports Cache GoPath GoJson "HOL-Library.List_Lexorder" "HOL-Library.Char_ord"
begin

text \<open>
  The file of the cache, \<open>cachePath\<close>, \<open>Load\<close> and \<open>Save\<close> of \<open>internal/cache/cache.go\<close>. The
  disk is a map from paths to texts. The home directory, the working directory and whether a
  directory can be made or a path read or written are the record \<open>CacheEnv\<close>. Go writes the
  keys of a map in order, so the order \<open>ord\<close> in which the table is walked does not matter.
  A Go map may be nil, it is \<open>None\<close> here. Texts with booleans are not read.
\<close>

record CacheEnv =
  ceHome :: "string option"
  ceCwd :: string
  ceMkdir :: "string \<Rightarrow> bool"
  ceReadable :: "string \<Rightarrow> bool"
  ceWritable :: "string \<Rightarrow> bool"

definition cacheDir :: "CacheEnv \<Rightarrow> string option" where
  "cacheDir env = map_option (\<lambda>home. PathJoin [home, ''.cache'', ''gorgon'']) (ceHome env)"

definition cachePath :: "CacheEnv \<Rightarrow> string \<Rightarrow> string option" where
  "cachePath env projectDir = (case cacheDir env of None \<Rightarrow> None
     | Some dir \<Rightarrow> Some (PathJoin [dir, Base (Abs (ceCwd env) projectDir) @ ''_cache_gorgon.json'']))"

subsection \<open>The text\<close>

definition entryJson :: "Entry \<Rightarrow> json" where
  "entryJson e = JObj [(''status'', JStr (eStatus e))]"

definition cacheJson :: "string list \<Rightarrow> (string \<rightharpoonup> Entry) option \<Rightarrow> json" where
  "cacheJson ord table = JObj [(''entries'', case table of None \<Rightarrow> JNull
     | Some m \<Rightarrow> JObj (map (\<lambda>k. (k, entryJson (the (m k)))) (sort ord)))]"

text \<open>
  Reading fills the fields of a struct in the order of the text. A field's name is compared
  without regard to case, an unknown field is passed over, \<open>null\<close> leaves a struct or string
  as it is and makes a map nil, and a value of another kind is an error.
\<close>

definition readStatusField :: "string \<times> json \<Rightarrow> Entry \<Rightarrow> Entry option" where
  "readStatusField f e = (if ToLower (fst f) \<noteq> ''status'' then Some e
     else case snd f of JStr s \<Rightarrow> Some (e\<lparr>eStatus := s\<rparr>) | JNull \<Rightarrow> Some e | _ \<Rightarrow> None)"

fun readFields :: "('f \<Rightarrow> 'a \<Rightarrow> 'a option) \<Rightarrow> 'f list \<Rightarrow> 'a \<Rightarrow> 'a option" where
  "readFields rd [] a = Some a"
| "readFields rd (f # fs) a = (case rd f a of None \<Rightarrow> None | Some b \<Rightarrow> readFields rd fs b)"

definition readStruct :: "(string \<times> json \<Rightarrow> 'a \<Rightarrow> 'a option) \<Rightarrow> 'a \<Rightarrow> json \<Rightarrow> 'a option" where
  "readStruct rd a v = (case v of JObj fs \<Rightarrow> readFields rd fs a | JNull \<Rightarrow> Some a | _ \<Rightarrow> None)"

definition readEntry :: "string \<times> json \<Rightarrow> (string \<rightharpoonup> Entry) \<Rightarrow> (string \<rightharpoonup> Entry) option" where
  "readEntry f m = map_option (\<lambda>e. m(fst f \<mapsto> e)) (readStruct readStatusField \<lparr>eStatus = ''''\<rparr> (snd f))"

definition readEntriesField ::
  "string \<times> json \<Rightarrow> (string \<rightharpoonup> Entry) option \<Rightarrow> (string \<rightharpoonup> Entry) option option" where
  "readEntriesField f table = (if ToLower (fst f) \<noteq> ''entries'' then Some table
     else case snd f of
       JObj es \<Rightarrow> map_option Some (readFields readEntry es (case table of None \<Rightarrow> Map.empty | Some m \<Rightarrow> m))
     | JNull \<Rightarrow> Some None
     | _ \<Rightarrow> None)"

definition unmarshalCache :: "string \<Rightarrow> (string \<rightharpoonup> Entry) option option" where
  "unmarshalCache text = (case readJson (length text) text of None \<Rightarrow> None
     | Some v \<Rightarrow> readStruct readEntriesField None v)"

subsection \<open>Loading and saving\<close>

definition Load :: "CacheEnv \<Rightarrow> (string \<rightharpoonup> string) \<Rightarrow> string \<Rightarrow> string + (string \<rightharpoonup> Entry) option" where
  "Load env disk projectDir = (case cachePath env projectDir of
     None \<Rightarrow> Inl ''failed to get home dir''
   | Some path \<Rightarrow>
       (case disk path of
          None \<Rightarrow> Inr (Some (Entries NewCache))
        | Some text \<Rightarrow>
            if \<not> ceReadable env path then Inl ''failed to read cache''
            else (case unmarshalCache text of
                    None \<Rightarrow> Inl ''failed to parse cache''
                  | Some table \<Rightarrow> Inr table)))"

definition Save ::
  "CacheEnv \<Rightarrow> string list \<Rightarrow> (string \<rightharpoonup> Entry) option \<Rightarrow> string \<Rightarrow> (string \<rightharpoonup> string) \<Rightarrow>
   string option \<times> (string \<rightharpoonup> string)" where
  "Save env ord table projectDir disk = (case cacheDir env of
     None \<Rightarrow> (Some ''failed to get home dir'', disk)
   | Some dir \<Rightarrow>
       if \<not> ceMkdir env dir then (Some ''failed to create cache dir'', disk)
       else (case cachePath env projectDir of
          None \<Rightarrow> (Some ''failed to get home dir'', disk)
        | Some path \<Rightarrow>
            if \<not> ceWritable env path then (Some ''failed to write cache'', disk)
            else (None, disk(path \<mapsto> MarshalIndent (cacheJson ord table)))))"

text \<open>The text is long enough to be its own bound for the reader.\<close>

lemma length_marshalIndent: "wellNumbered v \<Longrightarrow> depth v \<le> length (marshalIndent d v)"
proof (induction v arbitrary: d)
  case (JNum t)
  then show ?case by (cases t) auto
next
  case (JArr vs)
  have "\<forall>v \<in> set vs. depth v \<le> length (marshalIndent (Suc d) v)" using JArr by auto
  then have "sum_list (map (\<lambda>v. Suc (depth v)) vs) \<le>
      length (Join (map (\<lambda>v. jsonBreak (Suc d) @ marshalIndent (Suc d) v) vs) '','')"
  proof (induction vs)
    case (Cons v vs)
    then show ?case by (cases vs) (auto simp: jsonBreak_def)
  qed simp
  then show ?case by simp
next
  case (JObj ms)
  have "\<forall>m \<in> set ms. depth (snd m) \<le> length (marshalIndent (Suc d) (snd m))"
    using JObj by (auto simp: snds.simps)
  then have "sum_list (map (\<lambda>m. Suc (depth (snd m))) ms) \<le>
      length (Join (map (\<lambda>(k, v). jsonBreak (Suc d) @ jsonQuote k @ '': '' @ marshalIndent (Suc d) v) ms) '','')"
  proof (induction ms)
    case (Cons m ms)
    then show ?case by (cases ms) (auto simp: jsonBreak_def split: prod.splits)
  qed simp
  then show ?case by simp
qed (auto simp: jsonQuote_def)

lemma readJson_text: "wellNumbered v \<Longrightarrow> readJson (length (MarshalIndent v)) (MarshalIndent v) = Some v"
  by (rule readJson_back) (simp_all add: MarshalIndent_def length_marshalIndent)

lemma readStatus_entryJson: "readStruct readStatusField \<lparr>eStatus = s\<rparr> (entryJson e) = Some e"
proof -
  have "ToLower ''status'' = ''status''" by code_simp
  then show ?thesis by (simp add: readStruct_def entryJson_def readStatusField_def)
qed

lemma readFields_entries:
  "set ks \<subseteq> dom m \<Longrightarrow>
   readFields readEntry (map (\<lambda>k. (k, entryJson (the (m k)))) ks) acc = Some (\<lambda>k. if k \<in> set ks then m k else acc k)"
proof (induction ks arbitrary: acc)
  case (Cons k ks)
  then obtain e where e: "m k = Some e" by auto
  have "readEntry (k, entryJson (the (m k))) acc = Some (acc(k \<mapsto> e))"
    by (simp add: readEntry_def readStatus_entryJson e)
  then show ?case using Cons by (auto simp: e fun_eq_iff)
qed simp

lemma unmarshal_cacheJson:
  assumes "set ord = dom m"
  shows "unmarshalCache (MarshalIndent (cacheJson ord (Some m))) = Some (Some m)"
proof -
  have n: "ToLower ''entries'' = ''entries''" by code_simp
  have "(\<lambda>k. if k \<in> dom m then m k else None) = m" by (auto simp: fun_eq_iff domIff)
  then have f: "readFields readEntry (map (\<lambda>k. (k, entryJson (the (m k)))) (sort ord)) Map.empty = Some m"
    using readFields_entries [of "sort ord" m Map.empty] assms by simp
  have "wellNumbered (cacheJson ord (Some m))" by (auto simp: cacheJson_def entryJson_def)
  from readJson_text [OF this] show ?thesis
    by (simp only: unmarshalCache_def option.case)
      (simp add: cacheJson_def readStruct_def readEntriesField_def n f)
qed

text \<open>
  C20. The cache survives the disk: after a successful save, loading the project's cache gives
  the same table, entry for entry. Only the cache's own file changes, and what is written does
  not depend on the order in which the table is walked.
\<close>

theorem cache_survives_disk:
  assumes "Save env ord (Some m) project disk = (None, disk')"
    and "set ord = dom m" and "distinct ord" and "set ord' = set ord" and "distinct ord'"
    and "cachePath env project = Some path" and "ceReadable env path"
  shows "Load env disk' project = Inr (Some m) \<and>
     disk' = disk(path := disk' path) \<and>
     Save env ord' (Some m) project disk = (None, disk')"
proof -
  obtain dir where dir: "cacheDir env = Some dir" using assms(6) by (auto simp: cachePath_def split: option.splits)
  have d: "disk' = disk(path \<mapsto> MarshalIndent (cacheJson ord (Some m)))" "ceMkdir env dir" "ceWritable env path"
    using assms(1,6) dir by (auto simp: Save_def split: if_splits)
  have "sort ord' = sort ord"
    by (rule properties_for_sort) (use assms(3-5) in \<open>auto simp: set_eq_iff_mset_eq_distinct\<close>)
  then have "cacheJson ord' (Some m) = cacheJson ord (Some m)" by (simp add: cacheJson_def)
  then show ?thesis
    using d assms(6,7) dir by (simp add: Load_def Save_def unmarshal_cacheJson [OF assms(2)])
qed

definition demoCacheEnv :: CacheEnv where
  "demoCacheEnv = \<lparr>ceHome = Some ''/h'', ceCwd = ''/w'', ceMkdir = (\<lambda>_. True), ceReadable = (\<lambda>_. True),
     ceWritable = (\<lambda>_. True)\<rparr>"

lemma demoCachePath: "cachePath demoCacheEnv ''p'' = Some ''/h/.cache/gorgon/p_cache_gorgon.json''"
  by code_simp

theorem cache_survives_disk_witness:
  "let m = [''b'' \<mapsto> \<lparr>eStatus = ''killed''\<rparr>, ''a'' \<mapsto> \<lparr>eStatus = ''survived''\<rparr>];
     disk' = snd (Save demoCacheEnv [''b'', ''a''] (Some m) ''p'' Map.empty)
   in Load demoCacheEnv disk' ''p'' = Inr (Some m)"
proof -
  let ?m = "[''b'' \<mapsto> \<lparr>eStatus = ''killed''\<rparr>, ''a'' \<mapsto> \<lparr>eStatus = ''survived''\<rparr>] :: string \<rightharpoonup> Entry"
  let ?s = "Save demoCacheEnv [''b'', ''a''] (Some ?m) ''p'' Map.empty"
  obtain dir where dir: "cacheDir demoCacheEnv = Some dir"
    using demoCachePath by (auto simp: cachePath_def split: option.splits)
  have r: "ceReadable demoCacheEnv q" "ceWritable demoCacheEnv q" "ceMkdir demoCacheEnv q" for q
    by (simp_all add: demoCacheEnv_def)
  have s: "?s = (None, snd ?s)" unfolding Save_def by (simp add: demoCachePath dir r)
  have "set [''b'', ''a''] = dom ?m" "distinct [''b'', ''a'']" "set [''a'', ''b''] = set [''b'', ''a'']" "distinct [''a'', ''b'']"
    by auto
  from cache_survives_disk [OF s this demoCachePath r(1)] show ?thesis by (simp only: Let_def)
qed

text \<open>A file without entries gives a nil map, on which \<open>Get\<close> finds nothing and \<open>Set\<close> panics.\<close>

lemma empty_object_gives_nil_map: "unmarshalCache ''{}'' = Some None"
proof -
  have "readJson (length ''{}'') ''{}'' = Some (JObj [])" by code_simp
  then show ?thesis by (simp only: unmarshalCache_def readStruct_def option.case json.case readFields.simps)
qed

text \<open>Two projects whose directories have the same name share one file.\<close>

lemma same_name_same_file:
  "Base (Abs (ceCwd env) p) = Base (Abs (ceCwd env) q) \<Longrightarrow> cachePath env p = cachePath env q"
  by (cases "cacheDir env") (simp_all add: cachePath_def)

end
