(* ===== verification/Tooling.thy ===== *)
theory Tooling
  imports Filters Climb
begin

text \<open>
  What the run reads before it starts and asks the Go command: the Go version of
  \<open>internal/core/consts.go\<close>, the limits, \<open>packageHasGoTestFiles\<close> (\<open>classify.go\<close>), and
  \<open>Load\<close>, \<open>LoadOrgPolicy\<close> and \<open>LoadSubConfig\<close> (\<open>pkg/config\<close>). Reading files, the output of
  \<open>go list\<close> and the YAML library are arguments.
\<close>

subsection \<open>The Go version\<close>

definition reSpace :: "char \<Rightarrow> bool" where
  "reSpace c \<longleftrightarrow> c \<in> {CHR '' '', CHR 0x09, CHR 0x0A, CHR 0x0C, CHR 0x0D}"

text \<open>The expression \<open>go\s+(\d+\.\d+)\<close> at the start of a text.\<close>

definition goVersionAt :: "string \<Rightarrow> string option" where
  "goVersionAt s = (if \<not> HasPrefix s ''go'' then None
     else let r = drop 2 s; v = dropWhile reSpace r; a = takeWhile isDigit v; t = dropWhile isDigit v in
       if takeWhile reSpace r = [] \<or> a = [] then None
       else case t of [] \<Rightarrow> None
         | c # u \<Rightarrow> if c \<noteq> CHR ''.'' \<or> takeWhile isDigit u = [] then None
                   else Some (a @ ''.'' @ takeWhile isDigit u))"

text \<open>The first match in the text; \<open>start\<close> says whether a line starts here.\<close>

fun goVersionIn :: "bool \<Rightarrow> string \<Rightarrow> string option" where
  "goVersionIn start [] = None"
| "goVersionIn start (c # cs) = (case (if start then goVersionAt (c # cs) else None) of
     Some v \<Rightarrow> Some v | None \<Rightarrow> goVersionIn (c = CHR 0x0A) cs)"

function versionAbove :: "(string \<Rightarrow> string option) \<Rightarrow> string \<Rightarrow> string option" where
  "versionAbove readFile d = (if d = '''' \<or> d = ''/'' \<or> d = ''.'' then None
     else case Option.bind (readFile (PathJoin [d, ''go.mod''])) (goVersionIn True) of
       Some v \<Rightarrow> Some v
     | None \<Rightarrow> if Dir d = d then None else versionAbove readFile (Dir d))"
  by pat_completeness auto
termination
  by (relation "measure (climb_measure \<circ> snd)") (auto dest: Dir_shrinks)

declare versionAbove.simps [simp del]

definition detectGoVersion :: "(string \<Rightarrow> string option) \<Rightarrow> string \<Rightarrow> string" where
  "detectGoVersion readFile cwd = or_else ''1.25'' (versionAbove readFile cwd)"

definition SetGoVersion :: "string \<Rightarrow> string \<Rightarrow> string" where
  "SetGoVersion version goVersion =
     (if version \<noteq> '''' \<and> HasPrefix version ''1.'' then version else goVersion)"

lemma goVersionIn_skip:
  "CHR 0x0A \<notin> set xs \<Longrightarrow> goVersionIn False (xs @ CHR 0x0A # r) = goVersionIn True r"
  by (induction xs) auto

lemma goVersionAt_line:
  assumes "a \<noteq> []" "b \<noteq> []" "list_all isDigit a" "list_all isDigit b"
  shows "goVersionAt (''go '' @ a @ ''.'' @ b @ CHR 0x0A # r) = Some (a @ ''.'' @ b)"
proof -
  have nd: "\<not> isDigit (CHR ''.'')" "\<not> isDigit (CHR 0x0A)" by code_simp+
  have sp: "reSpace (CHR '' '')" by (simp add: reSpace_def)
  from assms(1,3) obtain c a' where a: "a = c # a'" "isDigit c" by (cases a) auto
  have "\<not> reSpace c" using a(2) by (auto simp: isDigit_def reSpace_def)
  then have s: "takeWhile reSpace (a @ u) = []" "dropWhile reSpace (a @ u) = a @ u" for u by (simp_all add: a(1))
  have t: "takeWhile isDigit (xs @ d # u) = xs" "dropWhile isDigit (xs @ d # u) = d # u"
    if "list_all isDigit xs" "\<not> isDigit d" for xs d u
    using that by (auto simp: list_all_iff takeWhile_append2 dropWhile_append2)
  show ?thesis
    using assms by (simp add: goVersionAt_def HasPrefix_def sp s t nd Let_def)
qed

text \<open>The version that is written to a new \<open>go.mod\<close> is the one that is found in it.\<close>

lemma go_version_read_back:
  assumes "CHR 0x0A \<notin> set m" "a \<noteq> []" "b \<noteq> []" "list_all isDigit a" "list_all isDigit b"
  shows "goVersionIn True (''module '' @ m @ [CHR 0x0A, CHR 0x0A] @ ''go '' @ (a @ ''.'' @ b) @ [CHR 0x0A]) = Some (a @ ''.'' @ b)"
proof -
  let ?go = "''go '' @ a @ ''.'' @ b @ [CHR 0x0A]"
  have at: "goVersionAt (''module '' @ r) = None" "goVersionAt (CHR 0x0A # r) = None" for r
    by (simp_all add: goVersionAt_def HasPrefix_def)
  have "goVersionIn True (''module '' @ m @ CHR 0x0A # CHR 0x0A # ?go) = goVersionIn True (CHR 0x0A # ?go)"
    using at(1) [of "m @ CHR 0x0A # CHR 0x0A # ?go"] goVersionIn_skip [of "''odule '' @ m" "CHR 0x0A # ?go"] assms(1) by simp
  also have "\<dots> = goVersionIn True ?go" by (simp add: at(2))
  also have "\<dots> = Some (a @ ''.'' @ b)"
    using goVersionAt_line [OF assms(2-5), of "[]"] by simp
  finally show ?thesis by simp
qed

text \<open>The version is that of the working directory's module, a target elsewhere has no influence.\<close>

lemma version_of_working_directory:
  "detectGoVersion (\<lambda>p. if p = ''/w/go.mod'' then Some ''go 1.19'' else if p = ''/target/go.mod'' then Some ''go 1.24'' else None) ''/w'' = ''1.19''"
  by code_simp

subsection \<open>Limits\<close>

definition hardTimeoutMargin :: int where
  "hardTimeoutMargin = 2000000000"

definition hardTimeout :: "int \<Rightarrow> int" where
  "hardTimeout timeout = timeout + hardTimeoutMargin"

subsection \<open>Test files of a package\<close>

definition goListArgs :: "string \<Rightarrow> string list \<Rightarrow> string list" where
  "goListArgs importPath buildTags = [''list'', ''-f'', ''{{len .TestGoFiles}}+{{len .XTestGoFiles}}''] @
     (if buildTags = [] then [] else [''-tags'', Join buildTags '','']) @ [importPath]"

definition packageHasGoTestFiles ::
  "(string \<Rightarrow> string list \<Rightarrow> string option) \<Rightarrow> string \<Rightarrow> string \<Rightarrow> string list \<Rightarrow> string + bool" where
  "packageHasGoTestFiles goList workDir importPath buildTags =
     (case goList workDir (goListArgs importPath buildTags) of
        None \<Rightarrow> Inl (''go list '' @ importPath)
      | Some out \<Rightarrow> (let line = TrimSpace out in
          case IndexByte line (CHR ''+'') of
            None \<Rightarrow> Inl ''unexpected go list output''
          | Some i \<Rightarrow> Inr (take i line \<noteq> ''0'' \<or> drop (Suc i) line \<noteq> ''0'')))"

subsection \<open>Loading settings\<close>

text \<open>A file that is read: missing, unreadable, or its text.\<close>

datatype fileResult = Missing | Unreadable | Text string

datatype yaml = YString string | YStrings "string list" | YOther string

definition legacyOutput :: "(string \<rightharpoonup> yaml) \<Rightarrow> (string \<rightharpoonup> yaml)" where
  "legacyOutput raw = (case raw ''format'' of
     Some (YString f) \<Rightarrow> (case raw ''output'' of
         Some (YString p) \<Rightarrow> if f \<noteq> '''' \<and> p \<noteq> '''' \<and> raw ''outputs'' = None
           then raw(''outputs'' \<mapsto> YStrings [f @ '':'' @ p]) else raw
       | _ \<Rightarrow> raw)
   | _ \<Rightarrow> raw)"

definition LoadFile ::
  "(string \<Rightarrow> fileResult) \<Rightarrow> (string \<Rightarrow> (string \<rightharpoonup> yaml) option) \<Rightarrow> ((string \<rightharpoonup> yaml) \<Rightarrow> Config \<Rightarrow> Config option) \<Rightarrow>
   string \<Rightarrow> string + Config" where
  "LoadFile readFile parseMap decode path = (if path = '''' then Inr DefaultConfig
     else case readFile path of
       Text t \<Rightarrow> (case parseMap t of
           None \<Rightarrow> Inl ''failed to parse config file''
         | Some raw \<Rightarrow> (case decode (legacyOutput raw) DefaultConfig of
             None \<Rightarrow> Inl ''failed to parse config file'' | Some cfg \<Rightarrow> Inr cfg))
     | _ \<Rightarrow> Inl ''failed to read config file'')"

definition LoadOrgPolicy ::
  "(string \<Rightarrow> fileResult) \<Rightarrow> (string \<Rightarrow> OrgPolicy option) \<Rightarrow> string \<Rightarrow> string + OrgPolicy" where
  "LoadOrgPolicy readFile decode path = (case readFile path of
     Missing \<Rightarrow> Inr zeroPolicy
   | Unreadable \<Rightarrow> Inl (''failed to read org policy '' @ path)
   | Text t \<Rightarrow> (case decode t of None \<Rightarrow> Inl (''failed to parse org policy '' @ path) | Some p \<Rightarrow> Inr p))"

definition LoadSubConfig ::
  "(string \<Rightarrow> fileResult) \<Rightarrow> (string \<Rightarrow> SubConfig option) \<Rightarrow> string \<Rightarrow> string + SubConfig" where
  "LoadSubConfig readFile decode path = (case readFile path of
     Text t \<Rightarrow> (case decode t of None \<Rightarrow> Inl (''failed to parse sub-config '' @ path) | Some p \<Rightarrow> Inr p)
   | _ \<Rightarrow> Inl (''failed to read sub-config '' @ path))"

text \<open>The old settings for one output are read like the list with that output.\<close>

lemma legacy_output_is_list:
  "\<lbrakk>f \<noteq> ''''; p \<noteq> ''''; raw ''outputs'' = None; raw ''format'' = Some (YString f); raw ''output'' = Some (YString p)\<rbrakk> \<Longrightarrow>
     legacyOutput raw = legacyOutput (raw(''outputs'' \<mapsto> YStrings [f @ '':'' @ p]))"
  by (simp add: legacyOutput_def)

end
