(* ===== verification/Placement.thy ===== *)
theory Placement
  imports PipelineProps
begin

text \<open>
  What is on the disk before the tests run. Copying: \<open>CopyDir\<close>, \<open>copyDir\<close>, \<open>linkOrCopyDir\<close>
  (\<open>internal/core/utils.go\<close>), \<open>copyPackage\<close>, \<open>copyExternalSuites\<close> (\<open>workspace.go\<close>) and
  \<open>copyAllPackages\<close> (\<open>executor.go\<close>) are the lists of copies they make, \<open>copyFiles\<close> makes them.
  \<open>prepareStandalone\<close> is the first half of \<open>runStandalonePackage\<close>. The theorems say what
  stands in the copy when the schemata have been applied. Making directories and removing old
  files is taken to succeed; \<open>goVersion\<close> is the version detected at the start.
\<close>

subsection \<open>Copies\<close>

fun copyFiles :: "Tools \<Rightarrow> (string \<times> string) list \<Rightarrow> disk \<Rightarrow> string option \<times> disk" where
  "copyFiles T [] d = (None, d)"
| "copyFiles T ((s, t) # ps) d = (case tRead T s of
     None \<Rightarrow> (Some (''failed to open '' @ s), d)
   | Some text \<Rightarrow> (case writeFile T t text d of
       None \<Rightarrow> (Some (''failed to create '' @ t), d)
     | Some d' \<Rightarrow> copyFiles T ps d'))"

text \<open>The copies of the files a walk meets, with the test of the callback.\<close>

definition walkCopies :: "(string \<Rightarrow> bool) \<Rightarrow> (string \<Rightarrow> fsnode) \<Rightarrow> string \<Rightarrow> string \<Rightarrow> (string \<times> string) list" where
  "walkCopies wanted fs src dst = List.map_filter (\<lambda>p. if \<not> wanted p then None
     else map_option (\<lambda>rel. (p, PathJoin [dst, rel])) (Rel src p)) (walkFiles src (fs src))"

definition copySingleFile :: "string \<Rightarrow> string \<Rightarrow> (string \<times> string) list" where
  "copySingleFile src dst = [(src, PathJoin [dst, Base src])]"

definition CopyDir :: "(string \<Rightarrow> fsnode) \<Rightarrow> string \<Rightarrow> string \<Rightarrow> (string \<times> string) list" where
  "CopyDir fs src dst = (case fs src of
     Leaf _ \<Rightarrow> copySingleFile src dst
   | Folder _ _ \<Rightarrow> walkCopies (\<lambda>p. HasSuffix p ''.go'' \<or> p = ''go.mod'' \<or> p = ''go.sum'') fs src dst)"

definition copyAllPackages ::
  "(string \<Rightarrow> fsnode) \<Rightarrow> string \<Rightarrow> string \<Rightarrow> string set \<Rightarrow> (string \<times> string) list" where
  "copyAllPackages fs srcRoot dstRoot skipFiles =
     walkCopies (\<lambda>p. HasSuffix p ''.go'' \<and> p \<notin> skipFiles) fs srcRoot dstRoot"

definition copyDir :: "string \<Rightarrow> string \<Rightarrow> fsnode list \<Rightarrow> (string \<times> string) list" where
  "copyDir src dst dirEntries = List.map_filter (\<lambda>n. case n of
       Leaf name \<Rightarrow> if HasSuffix name ''.go'' then Some (PathJoin [src, name], PathJoin [dst, name]) else None
     | Folder _ _ \<Rightarrow> None) dirEntries"

definition linkOrCopyDir :: "string set \<Rightarrow> string \<Rightarrow> string \<Rightarrow> fsnode list \<Rightarrow> (string \<times> string) list" where
  "linkOrCopyDir mutated src dst dirEntries = concat (map (\<lambda>n.
     let s = PathJoin [src, nodeName n]; d = PathJoin [dst, nodeName n] in
     case n of Folder _ cs \<Rightarrow> if hasGoFiles n then copyDirContents mutated s d cs else []
     | Leaf _ \<Rightarrow> if s \<in> mutated then [] else [(s, d)]) dirEntries)"

definition copyPackage ::
  "ModuleWorkspace \<Rightarrow> string set \<Rightarrow> string \<Rightarrow> string \<Rightarrow> fsnode list \<Rightarrow> (string \<times> string) list" where
  "copyPackage w mutated absMod pkgRelDir dirEntries =
     (let srcDir = PathJoin [absMod, pkgRelDir]; dstDir = PathJoin [TempDir w, pkgRelDir] in
      concat (map (\<lambda>n. let s = PathJoin [srcDir, nodeName n]; d = PathJoin [dstDir, nodeName n] in
        case n of Folder _ cs \<Rightarrow> if hasGoFiles n then copyDirContents mutated s d cs else []
        | Leaf name \<Rightarrow> if \<not> HasSuffix name ''.go'' then [] else if s \<in> mutated then [] else [(s, d)]) dirEntries))"

definition childNodes :: "fsnode \<Rightarrow> fsnode list" where
  "childNodes n = (case n of Folder _ cs \<Rightarrow> cs | Leaf _ \<Rightarrow> [])"

definition copyExternalSuites ::
  "(string \<Rightarrow> fsnode) \<Rightarrow> ModuleWorkspace \<Rightarrow> string \<Rightarrow> string list \<Rightarrow> (string \<times> string) list" where
  "copyExternalSuites fs w absMod suitePaths = concat (map (\<lambda>relPath.
     concat (map (\<lambda>suiteDir. case Rel absMod suiteDir of None \<Rightarrow> []
       | Some rel \<Rightarrow> copyDir suiteDir (PathJoin [TempDir w, rel]) (childNodes (fs suiteDir)))
       (expandGlobPath fs absMod relPath))) suitePaths)"

subsection \<open>Preparing a stand-alone package\<close>

definition clearDir :: "string \<Rightarrow> disk \<Rightarrow> disk" where
  "clearDir tempDir d = (\<lambda>p. if HasPrefix p (tempDir @ [sep]) then None else d p)"

definition standaloneModulePath :: "Tools \<Rightarrow> string \<Rightarrow> string \<Rightarrow> string" where
  "standaloneModulePath T rt pkgDir =
     (let m = (case tRead T (PathJoin [rt, ''go.mod'']) of None \<Rightarrow> Base rt
               | Some content \<Rightarrow> moduleName (Base rt) (splitLines content))
      in if m = '''' then Base pkgDir else m)"

definition writeGoMod :: "Tools \<Rightarrow> string \<Rightarrow> string \<Rightarrow> string \<Rightarrow> string \<Rightarrow> disk \<Rightarrow> string option \<times> disk" where
  "writeGoMod T goVersion rt pkgDir tempDir d =
     (let dst = PathJoin [tempDir, ''go.mod''] in
      case tRead T (PathJoin [rt, ''go.mod'']) of
        Some content \<Rightarrow> (case writeFile T dst content d of
            None \<Rightarrow> (Some ''failed to copy go.mod'', d) | Some d' \<Rightarrow> (None, d'))
      | None \<Rightarrow> (case writeFile T dst (''module '' @ standaloneModulePath T rt pkgDir @ [newline, newline] @
                    ''go '' @ goVersion @ [newline]) d of
            None \<Rightarrow> (Some ''failed to write go.mod'', d) | Some d' \<Rightarrow> (None, d')))"

definition writeGoSum :: "Tools \<Rightarrow> string \<Rightarrow> string \<Rightarrow> disk \<Rightarrow> string option \<times> disk" where
  "writeGoSum T rt tempDir d = (case tRead T (PathJoin [rt, ''go.sum'']) of
     None \<Rightarrow> (None, d)
   | Some content \<Rightarrow> (case writeFile T (PathJoin [tempDir, ''go.sum'']) content d of
       None \<Rightarrow> (Some ''failed to copy go.sum'', d) | Some d' \<Rightarrow> (None, d')))"

definition standaloneFile :: "string \<Rightarrow> string \<Rightarrow> string \<Rightarrow> string" where
  "standaloneFile rt tempDir f = PathJoin [tempDir, or_else (Base f) (Rel rt f)]"

text \<open>The files that have a syntax tree; the mutants of a tree are those of its file.\<close>

fun astLoop ::
  "Tools \<Rightarrow> string \<Rightarrow> string \<Rightarrow> string list \<Rightarrow> disk \<Rightarrow> Mutant list \<Rightarrow> string option \<times> disk \<times> Mutant list" where
  "astLoop T rt tempDir [] d ms = (None, d, ms)"
| "astLoop T rt tempDir (f # fs) d ms =
     (let tempFile = PathJoin [tempDir, or_else '''' (Rel rt f)] in
      case ApplySchemataToAST T f tempFile (or_else '''' (tRead T f)) (map ((!) ms) (astIndices f ms)) d of
        None \<Rightarrow> (Some (''schemata failed on '' @ tempFile), d, ms)
      | Some (posMap, d1) \<Rightarrow>
          astLoop T rt tempDir fs d1 (updateAt (setTemp posMap) (astIndices f ms) ms))"

definition ApplySchemataToFile ::
  "Tools \<Rightarrow> string \<Rightarrow> Mutant list \<Rightarrow> disk \<Rightarrow> string + ((int \<rightharpoonup> PositionMapping) \<times> disk)" where
  "ApplySchemataToFile T filePath ms d = (case readDisk T d filePath of
     None \<Rightarrow> Inl (''read '' @ filePath)
   | Some src \<Rightarrow>
       if \<not> tParses T filePath src then Inl (''parse '' @ filePath)
       else (case ApplySchemataToAST T filePath filePath src ms d of
               None \<Rightarrow> Inl (''write '' @ filePath) | Some r \<Rightarrow> Inr r))"

text \<open>The files none of whose mutants has a tree are read from the copy.\<close>

fun fileLoop ::
  "Tools \<Rightarrow> (Mutant \<Rightarrow> string) \<Rightarrow> string list \<Rightarrow> disk \<Rightarrow> Mutant list \<Rightarrow> string option \<times> disk \<times> Mutant list" where
  "fileLoop T place [] d ms = (None, d, ms)"
| "fileLoop T place (t # ts) d ms =
     (let is = filter (\<lambda>i. hasFile (ms ! i) \<and> place (ms ! i) = t) [0..<length ms] in
      if list_ex (\<lambda>i. hasAST (ms ! i)) is then fileLoop T place ts d ms
      else (case ApplySchemataToFile T t (map ((!) ms) is) d of
              Inl err \<Rightarrow> (Some (''schemata failed on '' @ t @ '': '' @ err), d, ms)
            | Inr (posMap, d1) \<Rightarrow> fileLoop T place ts d1 (updateAt (setTemp posMap) is ms)))"

definition prepareStandalone ::
  "Tools \<Rightarrow> (string \<Rightarrow> fsnode) \<Rightarrow> string \<Rightarrow> string \<Rightarrow> string \<Rightarrow> string \<Rightarrow> disk \<Rightarrow> Mutant list \<Rightarrow>
   string option \<times> disk \<times> Mutant list" where
  "prepareStandalone T fs goVersion rt pkgDir tempDir d ms =
     (case writeGoMod T goVersion rt pkgDir tempDir (clearDir tempDir d) of
        (Some err, d1) \<Rightarrow> (Some err, d1, ms)
      | (None, d1) \<Rightarrow> (case writeGoSum T rt tempDir d1 of
        (Some err, d2) \<Rightarrow> (Some err, d2, ms)
      | (None, d2) \<Rightarrow> (case copyFiles T (copyAllPackages fs rt tempDir (set (map mutantFile (filter hasFile ms)))) d2 of
        (Some err, d3) \<Rightarrow> (Some (''failed to copy packages: '' @ err), d3, ms)
      | (None, d3) \<Rightarrow>
          (let place = (\<lambda>m. standaloneFile rt tempDir (mutantFile m)); withFile = filter hasFile ms;
               tempFiles = sort (remdups (map place withFile))
           in case astLoop T rt tempDir (sort (remdups (map mutantFile (filter hasAST withFile)))) d3 ms of
                (Some err, d4, ms1) \<Rightarrow> (Some err, d4, ms1)
              | (None, d4, ms1) \<Rightarrow> (case fileLoop T place tempFiles d4 ms1 of
                  (Some err, d5, ms2) \<Rightarrow> (Some err, d5, ms2)
                | (None, d5, ms2) \<Rightarrow>
                    (case InjectSchemataHelpers T (map (\<lambda>t. (t, filter (\<lambda>m. hasFile m \<and> place m = t) ms2)) tempFiles) d5 of
                       (err, d6) \<Rightarrow> (err, d6, ms2)))))))"

subsection \<open>Layers of writes\<close>

text \<open>What a list of writes leaves at a path: the text of the last one to it.\<close>

definition layer :: "('a \<Rightarrow> string) \<Rightarrow> ('a \<Rightarrow> string) \<Rightarrow> 'a list \<Rightarrow> disk" where
  "layer place text xs = map_of (rev (map (\<lambda>x. (place x, text x)) xs))"

lemma layer_Nil [simp]: "d ++ layer pl tx [] = d"
  by (simp add: layer_def)

lemma layer_Cons: "d ++ layer pl tx (x # xs) = d(pl x \<mapsto> tx x) ++ layer pl tx xs"
  by (simp add: layer_def map_add_def fun_eq_iff split: option.split)

lemma layer_off: "p \<notin> pl ` set xs \<Longrightarrow> (d ++ layer pl tx xs) p = d p"
proof -
  assume "p \<notin> pl ` set xs"
  then have "layer pl tx xs p = None" by (auto simp: layer_def map_of_eq_None_iff image_iff)
  then show ?thesis by (simp add: map_add_def)
qed

lemma layer_at:
  assumes "x \<in> set xs" and "\<And>y. y \<in> set xs \<Longrightarrow> pl y = pl x \<Longrightarrow> tx y = tx x"
  shows "(d ++ layer pl tx xs) (pl x) = Some (tx x)"
proof -
  have "(pl x, tx x) \<in> set (rev (map (\<lambda>x. (pl x, tx x)) xs))" using assms(1) by auto
  then obtain t where t: "layer pl tx xs (pl x) = Some t" unfolding layer_def by (rule weak_map_of_SomeI [THEN exE])
  from map_of_SomeD [OF this [unfolded layer_def]] obtain y where "y \<in> set xs" "pl y = pl x" "t = tx y" by auto
  with assms(2) t show ?thesis by (simp add: map_add_Some_iff)
qed

lemma layer_on:
  assumes "p \<in> pl ` set xs"
  shows "(d ++ layer pl tx xs) p \<noteq> None"
proof -
  have "p \<in> dom (layer pl tx xs)" using assms by (auto simp: layer_def dom_map_of_conv_image_fst image_image)
  then show ?thesis by (auto simp: map_add_def)
qed

lemma astIndices_identity:
  assumes "map identity xs = map identity ys"
  shows "astIndices f xs = astIndices f ys"
    and "map identity (map ((!) xs) (astIndices f xs)) = map identity (map ((!) ys) (astIndices f ys))"
proof -
  have l: "length xs = length ys" using assms by (rule map_eq_imp_length_eq)
  have i: "identity (xs ! i) = identity (ys ! i)" if "i < length ys" for i
    using that l nth_map [of i xs identity] nth_map [of i ys identity] assms by simp
  have s: "mSite (xs ! i) = mSite (ys ! i)" if "i < length ys" for i
    using i [OF that] by (simp add: identity_parts)
  show a: "astIndices f xs = astIndices f ys"
    unfolding astIndices_def indicesOf_def filter_filter l
    by (rule filter_cong) (auto simp: s mutantFile_def hasAST_def)
  show "map identity (map ((!) xs) (astIndices f xs)) = map identity (map ((!) ys) (astIndices f ys))"
    unfolding map_map a by (rule map_cong) (auto simp: i astIndices_def indicesOf_def)
qed

text \<open>The text for a file: the rendering with the table of its mutants.\<close>

definition rendering :: "Tools \<Rightarrow> Mutant list \<Rightarrow> string \<Rightarrow> string option" where
  "rendering T ms f = tRender T f (or_else '''' (tRead T f))
     (buildPositionToMutantsMap (map ((!) ms) (astIndices f ms)))"

definition rendersAll :: "Tools \<Rightarrow> Mutant list \<Rightarrow> string list \<Rightarrow> bool" where
  "rendersAll T ms fs = list_all (\<lambda>f. or_else '''' (rendering T ms f) \<noteq> '''') fs"

lemma rendering_identity: "map identity xs = map identity ys \<Longrightarrow> rendering T xs f = rendering T ys f"
  by (simp only: rendering_def table_identity [OF astIndices_identity(2) [of xs ys]])

lemma ApplySchemata_disk:
  assumes "ApplySchemataToAST T f p (or_else '''' (tRead T f)) (map ((!) ms) (astIndices f ms)) d = Some (pm, d1)"
    and "or_else '''' (rendering T ms f) \<noteq> ''''"
  shows "d1 = d(p \<mapsto> the (rendering T ms f))"
  using assms
  by (cases "rendering T ms f") (auto simp: ApplySchemataToAST_def rendering_def writeFile_def split: if_splits)

lemma astLoop_layer:
  "\<lbrakk>astLoop T rt tempDir fs d ms = (None, d1, ms1); rendersAll T ms fs\<rbrakk> \<Longrightarrow>
     d1 = d ++ layer (\<lambda>f. PathJoin [tempDir, or_else '''' (Rel rt f)]) (\<lambda>f. the (rendering T ms f)) fs \<and>
     map identity ms1 = map identity ms"
proof (induction fs arbitrary: d ms)
  case (Cons f fs)
  let ?t = "PathJoin [tempDir, or_else '''' (Rel rt f)]" and ?is = "astIndices f ms"
  from Cons.prems(1) obtain pm d' where
    a: "ApplySchemataToAST T f ?t (or_else '''' (tRead T f)) (map ((!) ms) ?is) d = Some (pm, d')"
    and l: "astLoop T rt tempDir fs d' (updateAt (setTemp pm) ?is ms) = (None, d1, ms1)"
    by (auto simp: Let_def split: option.splits)
  have i: "map identity (updateAt (setTemp pm) ?is ms) = map identity ms" by (rule temp.updateAt_keeps)
  have r: "rendering T (updateAt (setTemp pm) ?is ms) = rendering T ms"
    by (rule ext) (rule rendering_identity [OF i])
  have d': "d' = d(?t \<mapsto> the (rendering T ms f))"
    by (rule ApplySchemata_disk [OF a]) (use Cons.prems(2) in \<open>simp add: rendersAll_def\<close>)
  have "rendersAll T (updateAt (setTemp pm) ?is ms) fs"
    using Cons.prems(2) by (simp add: rendersAll_def r)
  from Cons.IH [OF l this] show ?case unfolding r layer_Cons d' i by blast
qed simp

lemma applyLoop_layer:
  "\<lbrakk>applyLoop T w fs d ms = (None, d1, ms1); rendersAll T ms fs; '''' \<notin> set fs\<rbrakk> \<Longrightarrow>
     d1 = d ++ layer (\<lambda>f. tempPath w (the (relOf w f))) (\<lambda>f. the (rendering T ms f)) fs \<and>
     map identity ms1 = map identity ms \<and> list_all (\<lambda>f. relOf w f \<noteq> None) fs"
proof (induction fs arbitrary: d ms)
  case (Cons f fs)
  let ?is = "astIndices f ms"
  have ne: "f \<noteq> ''''" using Cons.prems(3) by auto
  from Cons.prems(1) ne obtain src rel pm d' where
    s: "tRead T f = Some src" "relOf w f = Some rel"
    and a: "ApplySchemataToAST T f (tempPath w rel) src (map ((!) ms) ?is) d = Some (pm, d')"
    and l: "applyLoop T w fs d' (updateAt (setTemp pm) ?is ms) = (None, d1, ms1)"
    by (auto simp: Let_def split: option.splits prod.splits)
  have i: "map identity (updateAt (setTemp pm) ?is ms) = map identity ms" by (rule temp.updateAt_keeps)
  have r: "rendering T (updateAt (setTemp pm) ?is ms) = rendering T ms"
    by (rule ext) (rule rendering_identity [OF i])
  have "src = or_else '''' (tRead T f)" by (simp add: s)
  from a [unfolded this] have d': "d' = d(tempPath w rel \<mapsto> the (rendering T ms f))"
    by (rule ApplySchemata_disk) (use Cons.prems(2) in \<open>simp add: rendersAll_def\<close>)
  have "rendersAll T (updateAt (setTemp pm) ?is ms) fs" "'''' \<notin> set fs"
    using Cons.prems(2,3) by (simp_all add: rendersAll_def r)
  from Cons.IH [OF l this] have ih:
    "d1 = d' ++ layer (\<lambda>f. tempPath w (the (relOf w f))) (\<lambda>f. the (rendering T ms f)) fs"
    "map identity ms1 = map identity ms" "list_all (\<lambda>f. relOf w f \<noteq> None) fs"
    unfolding r i by blast+
  have "d1 = d ++ layer (\<lambda>f. tempPath w (the (relOf w f))) (\<lambda>f. the (rendering T ms f)) (f # fs)"
    unfolding layer_Cons s(2) option.sel using ih(1) unfolding d' .
  moreover have "list_all (\<lambda>f. relOf w f \<noteq> None) (f # fs)" using ih(3) by (simp add: s)
  ultimately show ?case using ih(2) by blast
qed simp

lemma writeHelpers_layer:
  "writeHelpers T fm ps d = (None, d1) \<Longrightarrow> d1 = d ++ layer helperFile (\<lambda>p. helperText (dirPackage fm p)) ps"
  by (induction ps arbitrary: d)
     (auto simp: layer_Cons writeFile_def split: option.splits if_splits)

lemma copyFiles_layer:
  "copyFiles T ps d = (None, d1) \<Longrightarrow> d1 = d ++ layer snd (\<lambda>p. the (tRead T (fst p))) ps"
  by (induction T ps d rule: copyFiles.induct)
     (auto simp: layer_Cons writeFile_def split: option.splits if_splits)

subsection \<open>The copy of a workspace\<close>

definition cleanPath :: "string \<Rightarrow> bool" where
  "cleanPath f \<longleftrightarrow> IsAbs f \<and> Clean f = f"

definition placeIn :: "ModuleWorkspace \<Rightarrow> string \<Rightarrow> string" where
  "placeIn w f = tempPath w (or_else '''' (relOf w f))"

definition helpersOf :: "(Mutant \<Rightarrow> string) \<Rightarrow> Mutant list \<Rightarrow> string list" where
  "helpersOf place ms = map (\<lambda>m. helperFile (Dir (place m))) ms"

lemma placeIn_inj:
  assumes "wsOK w" "cleanPath f" "cleanPath g" "relOf w f \<noteq> None" "relOf w g \<noteq> None" "placeIn w f = placeIn w g"
  shows "f = g"
  using assms temp_paths(2) [of w f g] by (auto simp: placeIn_def cleanPath_def)

lemma tempGroups_dirs:
  "set (map (Dir \<circ> fst) (tempGroups w ms)) = set (map (\<lambda>m. Dir (placeIn w (mutantFile m))) ms)"
  by (auto simp: tempGroups_def Let_def placeIn_def image_iff)

lemma placeIn_identity:
  assumes "map identity xs = map identity ys"
  shows "map (\<lambda>m. g (mutantFile m)) xs = map (\<lambda>m. g (mutantFile m)) ys"
proof -
  have "map (\<lambda>m. g (mutantFile m)) zs = map (g \<circ> sFile \<circ> fst \<circ> snd) (map identity zs)" for zs
    by (simp add: mutantFile_def identity_def)
  then show ?thesis using assms by (simp only:)
qed

text \<open>
  C21. The schemata are where they belong: when \<open>applySchemata\<close> succeeds, the place of each
  mutated file in the copy holds the rendering of the original with the table of exactly this
  file's mutants, there is a helper file beside it, every other file of the copy is as it was,
  and the mutants are the same. This is for clean absolute paths, trees that can be printed,
  and places that are not themselves those of a helper.
\<close>

theorem schemata_in_place:
  assumes "applySchemata T w ms d = (None, b, d', ms')" and "wsOK w"
    and "list_all (\<lambda>m. hasAST m \<and> cleanPath (mutantFile m)) ms"
    and "rendersAll T ms (map mutantFile ms)"
    and "m \<in> set ms"
  shows "let place = (\<lambda>m. placeIn w (mutantFile m)); helpers = helpersOf place ms in
     (place m \<in> set helpers \<or> d' (place m) = rendering T ms (mutantFile m)) \<and>
     d' (helperFile (Dir (place m))) \<noteq> None \<and>
     (p \<in> set helpers \<or> p \<in> set (map place ms) \<or> d' p = d p) \<and>
     map identity ms' = map identity ms"
proof -
  let ?place = "\<lambda>m. placeIn w (mutantFile m)" and ?fs = "sort (remdups (map mutantFile (filter hasAST ms)))"
  let ?tx = "\<lambda>f. the (rendering T ms f)" and ?dirs = "\<lambda>ms. sort (remdups (map (Dir \<circ> fst) (tempGroups w ms)))"
  have fs: "set ?fs = mutantFile ` set ms" using assms(3) by (auto simp: list_all_iff)
  have ra: "rendersAll T ms ?fs" using assms(4) unfolding rendersAll_def list_all_iff fs by simp
  have "cleanPath f \<Longrightarrow> f \<noteq> ''''" for f by (auto simp: cleanPath_def IsAbs_nonempty)
  then have ne: "'''' \<notin> set ?fs" unfolding fs using assms(3) by (fastforce simp: list_all_iff)
  from assms(1) obtain d1 where al: "applyLoop T w ?fs d ms = (None, d1, ms')"
    and ih: "InjectSchemataHelpers T (tempGroups w ms') d1 = (None, d')"
    by (auto simp: applySchemata_def split: option.splits prod.splits if_splits)
  from applyLoop_layer [OF al ra ne] have al':
    "d1 = d ++ layer (\<lambda>f. tempPath w (the (relOf w f))) ?tx ?fs" "map identity ms' = map identity ms"
    and rel: "\<forall>f \<in> mutantFile ` set ms. relOf w f \<noteq> None"
    unfolding list_all_iff fs by blast+
  have pl: "tempPath w (the (relOf w f)) = placeIn w f" if "f \<in> mutantFile ` set ms" for f
    using rel that by (auto simp: placeIn_def)
  from writeHelpers_layer [OF ih [unfolded InjectSchemataHelpers_def]]
  have d': "d' = d1 ++ layer helperFile (\<lambda>p. helperText (dirPackage (tempGroups w ms') p)) (?dirs ms')" .
  have "set (?dirs ms') = set (map (\<lambda>m. Dir (?place m)) ms')" using tempGroups_dirs [of w ms'] by simp
  also have "\<dots> = set (map (\<lambda>m. Dir (?place m)) ms)"
    using placeIn_identity [OF al'(2), of "\<lambda>f. Dir (placeIn w f)"] by (simp only:)
  finally have hs: "helperFile ` set (?dirs ms') = set (helpersOf ?place ms)" by (auto simp: helpersOf_def)
  have m: "mutantFile m \<in> set ?fs" "cleanPath (mutantFile m)" using assms(3,5) by (auto simp: fs list_all_iff)
  have "d1 (?place m) = Some (?tx (mutantFile m))"
  proof -
    have "(d ++ layer (\<lambda>f. tempPath w (the (relOf w f))) ?tx ?fs) (tempPath w (the (relOf w (mutantFile m)))) = Some (?tx (mutantFile m))"
    proof (rule layer_at [OF m(1)])
      fix g assume g: "g \<in> set ?fs" and eq: "tempPath w (the (relOf w g)) = tempPath w (the (relOf w (mutantFile m)))"
      have "cleanPath g" using g assms(3) unfolding fs by (auto simp: list_all_iff)
      then have "g = mutantFile m"
        using eq pl g m(1) rel unfolding fs by (intro placeIn_inj [OF assms(2) _ m(2)]) auto
      then show "?tx g = ?tx (mutantFile m)" by simp
    qed
    then show ?thesis using pl m(1) al'(1) unfolding fs by simp
  qed
  moreover have "rendering T ms (mutantFile m) = Some (?tx (mutantFile m))"
    using ra m(1) unfolding rendersAll_def list_all_iff by (cases "rendering T ms (mutantFile m)") fastforce+
  moreover have "q \<in> set (helpersOf ?place ms) \<or> d' q = d1 q" for q
    unfolding d' using layer_off [of q helperFile "?dirs ms'"] hs by blast
  moreover have "p \<in> set (map ?place ms) \<or> d1 p = d p"
    unfolding al'(1) using layer_off [of p "\<lambda>f. tempPath w (the (relOf w f))" ?fs] pl unfolding fs by auto
  moreover have "d' (helperFile (Dir (?place m))) \<noteq> None"
  proof -
    have "helperFile (Dir (?place m)) \<in> helperFile ` set (?dirs ms')" unfolding hs using assms(5) by (auto simp: helpersOf_def)
    then show ?thesis unfolding d' by (rule layer_on)
  qed
  ultimately show ?thesis unfolding Let_def using al'(2) by metis
qed

definition placedMutants :: "Mutant list" where
  "placedMutants = map (\<lambda>m. m\<lparr>mSite := (mSite m)\<lparr>sFileAST := Some (File None 1 (Ident 9 ''a'') [] [])\<rparr>\<rparr>) sampleMutants"

lemma sampleWorkspace_OK: "wsOK sampleWorkspace"
proof -
  have "IsAbs ''/p''" "IsAbs ''/tmp/g''" "parts ''/tmp/g'' \<noteq> []" by code_simp+
  then show ?thesis by (simp add: sampleWorkspace_def wsOK_def memoOK_def NewModuleWorkspace_def)
qed

theorem schemata_in_place_witness:
  "fst (snd (snd (applySchemata sampleTools sampleWorkspace placedMutants Map.empty))) ''/tmp/g/a/x.go'' = Some ''bad''"
proof -
  let ?r = "applySchemata sampleTools sampleWorkspace placedMutants Map.empty"
  have ok: "fst ?r = None" by code_simp
  obtain b d' ms' where r: "?r = (None, b, d', ms')" using ok by (cases ?r) auto
  have h: "list_all (\<lambda>m. hasAST m \<and> cleanPath (mutantFile m)) placedMutants"
    "rendersAll sampleTools placedMutants (map mutantFile placedMutants)"
    "placeIn sampleWorkspace (mutantFile (hd placedMutants)) = ''/tmp/g/a/x.go''"
    "''/tmp/g/a/x.go'' \<notin> set (helpersOf (\<lambda>m. placeIn sampleWorkspace (mutantFile m)) placedMutants)"
    "rendering sampleTools placedMutants (mutantFile (hd placedMutants)) = Some ''bad''"
    by code_simp+
  have m: "hd placedMutants \<in> set placedMutants" by (simp add: placedMutants_def sampleMutants_def)
  from schemata_in_place [OF r sampleWorkspace_OK h(1,2) m, of p] h(3-5) show ?thesis
    unfolding r Let_def fst_conv snd_conv by metis
qed

subsection \<open>The copy of a stand-alone package\<close>

definition standaloneWorkspace :: "string \<Rightarrow> string \<Rightarrow> ModuleWorkspace" where
  "standaloneWorkspace rt tempDir = (NewModuleWorkspace tempDir)\<lparr>absModule := rt\<rparr>"

definition insideFile :: "string \<Rightarrow> string \<Rightarrow> string \<Rightarrow> bool" where
  "insideFile rt tempDir f \<longleftrightarrow> cleanPath f \<and> relOf (standaloneWorkspace rt tempDir) f \<noteq> None"

text \<open>
  Every file of a tree, with the names of the folders it lies in from the root of the tree on.
  The Go files of a project are the \<open>.go\<close> files none of whose folders is a vendored or a git
  directory or has a name that begins with an underscore, as for the go command.
\<close>

fun filesUnder :: "string list \<Rightarrow> string \<Rightarrow> fsnode \<Rightarrow> (string list \<times> string) list"
and filesBelow :: "string list \<Rightarrow> string \<Rightarrow> fsnode list \<Rightarrow> (string list \<times> string) list" where
  "filesUnder outer path (Leaf name) = [(outer, path)]"
| "filesUnder outer path (Folder name cs) = filesBelow (outer @ [name]) path cs"
| "filesBelow outer path [] = []"
| "filesBelow outer path (c # cs) = filesUnder outer (PathJoin [path, nodeName c]) c @ filesBelow outer path cs"

definition projectFolder :: "string \<Rightarrow> bool" where
  "projectFolder name \<longleftrightarrow> name \<noteq> ''vendor'' \<and> name \<noteq> ''.git'' \<and> take 1 name \<noteq> ''_''"

definition goFiles :: "(string \<Rightarrow> fsnode) \<Rightarrow> string \<Rightarrow> string list" where
  "goFiles fs rt = map snd (filter (\<lambda>(folders, p). HasSuffix p ''.go'' \<and> list_all projectFolder folders)
     (filesUnder [] rt (fs rt)))"

lemma projectFolder_skipped: "projectFolder name \<longleftrightarrow> \<not> skippedDir name"
  by (cases name) (auto simp: projectFolder_def skippedDir_def HasPrefix_def)

text \<open>The walk of the copier visits exactly these folders.\<close>

lemma filesUnder_walk:
  "map snd (filter (\<lambda>x. list_all projectFolder (fst x)) (filesUnder outer path n)) =
     (if list_all projectFolder outer then walkFiles path n else [])"
  "map snd (filter (\<lambda>x. list_all projectFolder (fst x)) (filesBelow outer path ns)) =
     (if list_all projectFolder outer then walkChildren path ns else [])"
  by (induction outer path n and outer path ns rule: filesUnder_filesBelow.induct)
    (auto simp: projectFolder_skipped nodeName_def)

lemma goFiles_walk: "goFiles fs rt = filter (\<lambda>p. HasSuffix p ''.go'') (walkFiles rt (fs rt))"
proof -
  have "filter (\<lambda>p. HasSuffix p ''.go'') (map snd (filter (\<lambda>x. list_all projectFolder (fst x)) xs)) =
      map snd (filter (\<lambda>(folders, p). HasSuffix p ''.go'' \<and> list_all projectFolder folders) xs)" for xs
    by (induction xs) auto
  moreover have "map snd (filter (\<lambda>x. list_all projectFolder (fst x)) (filesUnder [] rt (fs rt))) = walkFiles rt (fs rt)"
    by (simp add: filesUnder_walk)
  ultimately show ?thesis unfolding goFiles_def by metis
qed

lemma standaloneWorkspace_OK:
  "IsAbs rt \<Longrightarrow> IsAbs tempDir \<Longrightarrow> parts tempDir \<noteq> [] \<Longrightarrow> wsOK (standaloneWorkspace rt tempDir)"
  by (simp add: standaloneWorkspace_def wsOK_def memoOK_def NewModuleWorkspace_def)

lemma insideFile_place:
  assumes "insideFile rt tempDir f"
  shows "PathJoin [tempDir, or_else '''' (Rel rt f)] = standaloneFile rt tempDir f"
    and "placeIn (standaloneWorkspace rt tempDir) f = standaloneFile rt tempDir f"
    and "Rel rt f \<noteq> None" and "f \<noteq> ''''"
  using assms
  by (auto simp: insideFile_def relOf_def relRoot_def standaloneWorkspace_def NewModuleWorkspace_def placeIn_def
      tempPath_def standaloneFile_def cleanPath_def IsAbs_nonempty split: option.splits if_splits)

lemma standaloneFile_inj:
  assumes "IsAbs rt" "IsAbs tempDir" "parts tempDir \<noteq> []" "insideFile rt tempDir f" "insideFile rt tempDir g"
    "standaloneFile rt tempDir f = standaloneFile rt tempDir g"
  shows "f = g"
  using placeIn_inj [OF standaloneWorkspace_OK [OF assms(1-3)], of f g] assms(4-6)
  by (auto simp: insideFile_place(2) insideFile_def)

lemma fileLoop_skip:
  "\<lbrakk>list_all hasAST ms; \<forall>t \<in> set ts. \<exists>m \<in> set ms. hasFile m \<and> place m = t\<rbrakk> \<Longrightarrow>
     fileLoop T place ts d ms = (None, d, ms)"
proof (induction ts)
  case (Cons t ts)
  from Cons.prems(2) obtain i where "i < length ms" "hasFile (ms ! i)" "place (ms ! i) = t"
    by (auto simp: in_set_conv_nth)
  moreover from this Cons.prems(1) have "hasAST (ms ! i)" by (simp add: list_all_length)
  ultimately have "list_ex (\<lambda>i. hasAST (ms ! i)) (filter (\<lambda>i. hasFile (ms ! i) \<and> place (ms ! i) = t) [0..<length ms])"
    by (auto simp: list_ex_iff)
  then show ?case using Cons by (simp add: Let_def)
qed simp

lemma fileLoop_after:
  assumes "map identity ms1 = map identity ms" "list_all hasAST ms" "list_all hasFile ms"
  shows "fileLoop T (\<lambda>m. place (mutantFile m)) (sort (remdups (map (\<lambda>m. place (mutantFile m)) ms))) d ms1 = (None, d, ms1)"
proof (rule fileLoop_skip)
  have s: "map mSite ms1 = map mSite ms"
    using arg_cong [OF assms(1), of "map (fst \<circ> snd)"] by (simp add: identity_def comp_def)
  have P: "list_all P ms1 = list_all P ms" if "\<And>m. P m = Q (mSite m)" for P Q
    using arg_cong [OF s, of "list_all Q"] by (simp add: list_all_iff that)
  show "list_all hasAST ms1" using P [of hasAST "\<lambda>s. sFileAST s \<noteq> None"] assms(2) by (simp add: hasAST_def)
  have h: "list_all hasFile ms1" using P [of hasFile "\<lambda>s. sFile s \<noteq> ''''"] assms(3) by (simp add: hasFile_def)
  have "mutantFile ` set ms1 = mutantFile ` set ms"
    using arg_cong [OF s, of "\<lambda>xs. sFile ` set xs"] by (simp add: image_image mutantFile_def [abs_def])
  then show "\<forall>t \<in> set (sort (remdups (map (\<lambda>m. place (mutantFile m)) ms))). \<exists>m \<in> set ms1. hasFile m \<and> place (mutantFile m) = t"
    using h unfolding list_all_iff by (auto simp: image_iff set_eq_iff) metis
qed

lemma copyFiles_reads: "copyFiles T ps d = (None, d1) \<Longrightarrow> p \<in> set ps \<Longrightarrow> tRead T (fst p) \<noteq> None"
  by (induction T ps d rule: copyFiles.induct) (auto split: option.splits)

lemma copyAllPackages_iff:
  "(f, t) \<in> set (copyAllPackages fs rt tempDir skip) \<longleftrightarrow>
     f \<in> set (goFiles fs rt) \<and> f \<notin> skip \<and> map_option (\<lambda>rel. PathJoin [tempDir, rel]) (Rel rt f) = Some t"
  by (auto simp: copyAllPackages_def walkCopies_def goFiles_walk set_map_filter split: if_splits)

text \<open>
  C22. The copy of a stand-alone package is the project with its mutants. The project's Go
  files are those under its root in no folder \<open>vendor\<close>, \<open>.git\<close> or \<open>_\<dots>\<close>, all with a path below
  the root; the mutated files have been parsed and lie below it too, and the mutants of each of
  them can be rendered (\<open>rendersAll\<close>). When the preparation succeeds, the place of each mutated
  file then holds the rendering with this file's mutants, and every other Go file of the project
  is copied unchanged to its place; the only places that may hold something else are those of the
  helper files. No mutant changes but in its temporary directory.
\<close>

theorem standalone_in_place:
  assumes "prepareStandalone T fs goVersion rt pkgDir tempDir d ms = (None, d', ms')"
    and "IsAbs rt" "IsAbs tempDir" "parts tempDir \<noteq> []"
    and "list_all (\<lambda>m. hasAST m \<and> insideFile rt tempDir (mutantFile m)) ms"
    and "list_all (insideFile rt tempDir) (goFiles fs rt)"
    and "rendersAll T ms (map mutantFile ms)"
    and "m \<in> set ms" and "f \<in> set (goFiles fs rt)" and "f \<notin> set (map mutantFile ms)"
  shows "let place = standaloneFile rt tempDir; helpers = helpersOf (\<lambda>m. place (mutantFile m)) ms in
     (place (mutantFile m) \<in> set helpers \<or> d' (place (mutantFile m)) = rendering T ms (mutantFile m)) \<and>
     (place f \<in> set helpers \<or> d' (place f) = tRead T f) \<and>
     map identity ms' = map identity ms"
proof -
  let ?place = "standaloneFile rt tempDir" and ?tx = "\<lambda>f. the (rendering T ms f)"
  let ?fs = "sort (remdups (map mutantFile (filter hasAST ms)))"
  let ?tf = "sort (remdups (map (\<lambda>m. ?place (mutantFile m)) ms))"
  let ?cp = "copyAllPackages fs rt tempDir (set (map mutantFile ms))"
  have ins: "\<forall>m \<in> set ms. hasAST m \<and> insideFile rt tempDir (mutantFile m)" using assms(5) by (simp add: list_all_iff)
  then have "\<forall>m \<in> set ms. hasFile m" using insideFile_place(4) by (auto simp: hasFile_def mutantFile_def)
  then have hf: "filter hasFile ms = ms" by simp
  obtain d2 d3 d4 d5 ms1 where c: "copyFiles T ?cp d2 = (None, d3)"
    and a: "astLoop T rt tempDir ?fs d3 ms = (None, d4, ms1)"
    and fl: "fileLoop T (\<lambda>m. ?place (mutantFile m)) ?tf d4 ms1 = (None, d5, ms')"
    and ih: "InjectSchemataHelpers T (map (\<lambda>t. (t, filter (\<lambda>m. hasFile m \<and> ?place (mutantFile m) = t) ms')) ?tf) d5 = (None, d')"
    using assms(1) by (auto simp: prepareStandalone_def Let_def hf split: option.splits prod.splits)
  have fs: "set ?fs = mutantFile ` set ms" using ins by auto
  have ra: "rendersAll T ms ?fs" using assms(7) unfolding rendersAll_def list_all_iff fs by simp
  note d4 = astLoop_layer [OF a ra]
  have "list_all hasAST ms" "list_all hasFile ms" using ins hf by (auto simp: list_all_iff filter_id_conv)
  then have d5: "d5 = d4" "ms' = ms1" using fileLoop_after [OF d4 [THEN conjunct2], of T ?place d4] fl by auto
  let ?fm = "map (\<lambda>t. (t, filter (\<lambda>m. hasFile m \<and> ?place (mutantFile m) = t) ms')) ?tf"
  let ?dirs = "sort (remdups (map (Dir \<circ> fst) ?fm))"
  from writeHelpers_layer [OF ih [unfolded InjectSchemataHelpers_def]]
  have d': "d' = d4 ++ layer helperFile (\<lambda>p. helperText (dirPackage ?fm p)) ?dirs" unfolding d5 .
  have "helperFile ` set ?dirs = set (helpersOf (\<lambda>m. ?place (mutantFile m)) ms)"
    by (auto simp: helpersOf_def image_image)
  then have off: "q \<in> set (helpersOf (\<lambda>m. ?place (mutantFile m)) ms) \<or> d' q = d4 q" for q
    unfolding d' using layer_off [of q helperFile ?dirs] by blast
  let ?pl = "\<lambda>f. PathJoin [tempDir, or_else '''' (Rel rt f)]"
  have pl: "?pl g = ?place g" if "g \<in> mutantFile ` set ms" for g
    using that ins insideFile_place(1) by auto
  have inj: "g = h" if "insideFile rt tempDir g" "insideFile rt tempDir h" "?place g = ?place h" for g h
    using standaloneFile_inj [OF assms(2-4)] that by blast
  have m: "mutantFile m \<in> set ?fs" "insideFile rt tempDir (mutantFile m)" using ins assms(8) by (auto simp: fs)
  have "(d3 ++ layer ?pl ?tx ?fs) (?pl (mutantFile m)) = Some (?tx (mutantFile m))"
  proof (rule layer_at [OF m(1)])
    fix g assume g: "g \<in> set ?fs" and eq: "?pl g = ?pl (mutantFile m)"
    have "?place g = ?place (mutantFile m)" using eq pl g m(1) unfolding fs by simp
    moreover have "insideFile rt tempDir g" using g ins unfolding fs by auto
    ultimately show "?tx g = ?tx (mutantFile m)" using inj m(2) by blast
  qed
  then have 1: "d4 (?place (mutantFile m)) = Some (?tx (mutantFile m))" using d4 pl m(1) unfolding fs by simp
  have 2: "rendering T ms (mutantFile m) = Some (?tx (mutantFile m))"
    using ra m(1) unfolding rendersAll_def list_all_iff by (cases "rendering T ms (mutantFile m)") fastforce+
  have f: "insideFile rt tempDir f" "f \<notin> mutantFile ` set ms" using assms(6,9,10) by (auto simp: list_all_iff)
  have "?place f \<notin> ?pl ` set ?fs"
  proof
    assume "?place f \<in> ?pl ` set ?fs"
    then obtain g where g: "g \<in> mutantFile ` set ms" "?place f = ?place g" using pl unfolding fs by auto
    with inj [OF f(1), of g] ins f(2) show False by auto
  qed
  from layer_off [OF this] d4 have 3: "d4 (?place f) = d3 (?place f)" by metis
  have fp: "(f, ?place f) \<in> set ?cp"
    using insideFile_place(3) [OF f(1)] assms(9,10) by (auto simp: copyAllPackages_iff standaloneFile_def)
  have same: "fst p = f" if p: "p \<in> set ?cp" "snd p = ?place f" for p
  proof -
    obtain g t where gt: "p = (g, t)" by (cases p)
    with p(1) have g: "g \<in> set (goFiles fs rt)" "map_option (\<lambda>rel. PathJoin [tempDir, rel]) (Rel rt g) = Some t"
      by (simp_all add: copyAllPackages_iff)
    have "insideFile rt tempDir g" using g(1) assms(6) by (simp add: list_all_iff)
    moreover have "?place g = ?place f" using g(2) gt p(2) by (auto simp: standaloneFile_def)
    ultimately show ?thesis using inj f(1) gt by simp
  qed
  have "d3 (?place f) = Some (the (tRead T f))"
    using layer_at [OF fp, of snd "\<lambda>p. the (tRead T (fst p))" d2] same copyFiles_layer [OF c] by simp
  then have 4: "d3 (?place f) = tRead T f" using copyFiles_reads [OF c fp] by auto
  show ?thesis unfolding Let_def using off 1 2 3 4 d4 d5(2) by metis
qed

definition standaloneTree :: "string \<Rightarrow> fsnode" where
  "standaloneTree = (\<lambda>_. Folder ''p'' [Folder ''a'' [Leaf ''x.go''], Folder ''vendor'' [Leaf ''v.go''], Leaf ''go.mod'', Leaf ''y.go''])"

theorem standalone_in_place_witness:
  "let d' = fst (snd (prepareStandalone sampleTools standaloneTree ''1.21'' ''/p'' ''/p/a'' ''/tmp/g'' Map.empty placedMutants))
   in d' ''/tmp/g/a/x.go'' = Some ''bad'' \<and> d' ''/tmp/g/y.go'' = Some ''package a''"
proof -
  let ?r = "prepareStandalone sampleTools standaloneTree ''1.21'' ''/p'' ''/p/a'' ''/tmp/g'' Map.empty placedMutants"
  have ok: "fst ?r = None" by code_simp
  obtain d' ms' where r: "?r = (None, d', ms')" using ok by (cases ?r) auto
  have b: "IsAbs ''/p''" "IsAbs ''/tmp/g''" "parts ''/tmp/g'' \<noteq> []" by code_simp+
  have h: "list_all (\<lambda>m. hasAST m \<and> insideFile ''/p'' ''/tmp/g'' (mutantFile m)) placedMutants"
    "list_all (insideFile ''/p'' ''/tmp/g'') (goFiles standaloneTree ''/p'')"
    "rendersAll sampleTools placedMutants (map mutantFile placedMutants)"
    "''/p/y.go'' \<in> set (goFiles standaloneTree ''/p'')" "''/p/y.go'' \<notin> set (map mutantFile placedMutants)"
    by code_simp+
  have v: "standaloneFile ''/p'' ''/tmp/g'' (mutantFile (hd placedMutants)) = ''/tmp/g/a/x.go''"
    "standaloneFile ''/p'' ''/tmp/g'' ''/p/y.go'' = ''/tmp/g/y.go''"
    "''/tmp/g/a/x.go'' \<notin> set (helpersOf (\<lambda>m. standaloneFile ''/p'' ''/tmp/g'' (mutantFile m)) placedMutants)"
    "''/tmp/g/y.go'' \<notin> set (helpersOf (\<lambda>m. standaloneFile ''/p'' ''/tmp/g'' (mutantFile m)) placedMutants)"
    "rendering sampleTools placedMutants (mutantFile (hd placedMutants)) = Some ''bad''"
    "tRead sampleTools ''/p/y.go'' = Some ''package a''"
    by code_simp+
  have m: "hd placedMutants \<in> set placedMutants" by (simp add: placedMutants_def sampleMutants_def)
  from standalone_in_place [OF r b h(1-3) m h(4,5)] v show ?thesis
    unfolding r Let_def fst_conv snd_conv by metis
qed

subsection \<open>What is not copied\<close>

lemma IsAbs_PathJoin: "IsAbs a \<Longrightarrow> IsAbs (PathJoin [a, b])"
  using IsAbs_nonempty [of a] IsAbs_append [of a "sep # b"] by (cases "b = []") (simp_all add: PathJoin2 PathJoin_def)

lemma walkFiles_abs:
  "IsAbs path \<Longrightarrow> p \<in> set (walkFiles path n) \<Longrightarrow> IsAbs p"
  "IsAbs path \<Longrightarrow> p \<in> set (walkChildren path ns) \<Longrightarrow> IsAbs p"
  by (induction path n and path ns rule: walkFiles_walkChildren.induct)
     (auto simp: IsAbs_PathJoin split: if_splits)

text \<open>
  \<open>CopyDir\<close> compares the whole path with \<open>go.mod\<close> and \<open>go.sum\<close>: below an absolute directory
  neither is ever copied.
\<close>

lemma CopyDir_leaves_module_files:
  assumes "IsAbs src" "fs src = Folder nm cs" "(p, t) \<in> set (CopyDir fs src dst)"
  shows "HasSuffix p ''.go''"
proof -
  have w: "p \<in> set (walkFiles src (fs src))" "HasSuffix p ''.go'' \<or> p = ''go.mod'' \<or> p = ''go.sum''"
    using assms(2,3) by (auto simp: CopyDir_def walkCopies_def set_map_filter split: if_splits)
  have "\<not> IsAbs ''go.mod''" "\<not> IsAbs ''go.sum''" by code_simp+
  with walkFiles_abs(1) [OF assms(1) w(1)] w(2) show ?thesis by auto
qed

text \<open>
  Without a \<open>go.mod\<close> above it a stand-alone package is copied together with every Go file of
  the machine: the project root is the root of the file system.
\<close>

lemma standalone_without_module: "standaloneRoot (\<lambda>f. False) ''/w/p'' = ''/''"
  by code_simp

end
