(* ===== verification/Unused.thy ===== *)
theory Unused
  imports Placement
begin

text \<open>
  Functions that nothing in the program calls any more: \<open>fixUnusedImports\<close>,
  \<open>getPackageNameFromImport\<close> and \<open>findMutantPositionsInFile\<close> (\<open>internal/core/transform.go\<close>),
  \<open>extractFilePath\<close> (\<open>utils.go\<close>), \<open>buildExternalBinariesFromSource\<close> and the deprecated
  \<open>bisectBadMutants\<close> (\<open>schemata.go\<close>), which is shown to blame all of its mutants or none.
\<close>

subsection \<open>Imports\<close>

definition majorVersion :: "string \<Rightarrow> bool" where
  "majorVersion s \<longleftrightarrow> 1 < length s \<and> hd s = CHR ''v'' \<and> Atoi (tl s) \<noteq> None"

definition getPackageNameFromImport :: "node option \<Rightarrow> string \<Rightarrow> string" where
  "getPackageNameFromImport name value = (case name of
     Some (Ident _ nm) \<Rightarrow> nm
   | _ \<Rightarrow>
       (let segments = Split (trimQuotes value) sep;
            end1 = segments ! (length segments - 1);
            end2 = (if majorVersion end1 \<and> 2 \<le> length segments then segments ! (length segments - 2) else end1)
        in case LastIndexByte end2 (CHR ''.'') of
             None \<Rightarrow> end2
           | Some i \<Rightarrow> if majorVersion (drop (Suc i) end2) then take i end2 else end2))"

definition isImportSpec :: "node \<Rightarrow> bool" where
  "isImportSpec n = (case n of ImportSpec _ _ _ _ \<Rightarrow> True | _ \<Rightarrow> False)"

definition usedNames :: "node \<Rightarrow> string list" where
  "usedNames tree = List.map_filter (\<lambda>n. case n of Ident _ nm \<Rightarrow> Some nm | _ \<Rightarrow> None)
     (walk (\<lambda>n. \<not> isImportSpec n) tree)"

definition blankImport :: "string list \<Rightarrow> node \<Rightarrow> node" where
  "blankImport used n = (case n of
     ImportSpec doc None (BasicLit p k value) c \<Rightarrow>
       if getPackageNameFromImport None value \<in> set used then n
       else ImportSpec doc (Some (Ident p ''_'')) (BasicLit p k value) c
   | _ \<Rightarrow> n)"

definition fixUnusedImports :: "node \<Rightarrow> node" where
  "fixUnusedImports tree = (case tree of
     File doc p name decls comments \<Rightarrow>
       File doc p name (map (\<lambda>d. case d of
         GenDecl ddoc dp tok lp specs rp \<Rightarrow> GenDecl ddoc dp tok lp (map (blankImport (usedNames tree)) specs) rp
       | _ \<Rightarrow> d) decls) comments
   | _ \<Rightarrow> tree)"

text \<open>Names as the comments of the function give them, and one that it gets wrong.\<close>

lemma import_names:
  "getPackageNameFromImport None (CHR 0x22 # ''github.com/foo/bar/v2'' @ [CHR 0x22]) = ''bar''"
  "getPackageNameFromImport None (CHR 0x22 # ''gopkg.in/yaml.v3'' @ [CHR 0x22]) = ''yaml''"
  "getPackageNameFromImport None (CHR 0x22 # ''github.com/mattn/go-isatty'' @ [CHR 0x22]) = ''go-isatty''"
  by code_simp+

subsection \<open>Positions and package names\<close>

definition findMutantPositionsInFile ::
  "(string \<Rightarrow> string option) \<Rightarrow> string \<Rightarrow> int list \<Rightarrow> (int \<rightharpoonup> PositionMapping) \<Rightarrow> (int \<rightharpoonup> PositionMapping)" where
  "findMutantPositionsInFile readFile filePath mutantIDs originalPositions = (case readFile filePath of
     None \<Rightarrow> originalPositions
   | Some content \<Rightarrow> scanLines mutantIDs originalPositions (Split content (CHR 0x0A)) 0 originalPositions)"

text \<open>\<open>clause\<close> is the package name that parsing only the package clause gives.\<close>

definition extractFilePath :: "(string \<Rightarrow> string option) \<Rightarrow> string \<Rightarrow> string" where
  "extractFilePath clause filePath = or_else '''' (clause filePath)"

subsection \<open>External binaries\<close>

text \<open>The function has the same body as \<open>buildAllExternalSuiteBinaries\<close>, with the root as an argument.\<close>

definition buildExternalBinariesFromSource ::
  "'p World \<Rightarrow> string \<Rightarrow> ExternalSuitesConfig \<Rightarrow> (string \<rightharpoonup> string list)" where
  "buildExternalBinariesFromSource W sourceRoot cfg = foldl (\<lambda>f s.
     case suiteBinaries W ((NewModuleWorkspace '''')\<lparr>absModule := sourceRoot\<rparr>) s of
       None \<Rightarrow> f | Some bs \<Rightarrow> if bs = [] then f else f(SuiteName s \<mapsto> bs)) Map.empty (Suites cfg)"

subsection \<open>The deprecated bisection\<close>

function bisectBadMutants ::
  "Tools \<Rightarrow> ModuleWorkspace \<Rightarrow> (string list \<Rightarrow> string list) \<Rightarrow> Mutant list \<Rightarrow> disk \<Rightarrow>
   Mutant list \<times> Mutant list \<times> disk" where
  "bisectBadMutants T w ord candidates d =
     (if candidates = [] then ([], [], d)
      else case reapplyAffectedFiles T w ord {} candidates candidates d of
        (Some err, d1, _) \<Rightarrow> ([], map (compilerMark (''bisect: re-apply failed: '' @ err)) candidates, d1)
      | (None, d1, _) \<Rightarrow>
          if tBuild T d1 = None then (candidates, [], d1)
          else if length candidates = 1 then
            ([], map (compilerMark ''bisect: single mutant causes compilation failure'') candidates, d1)
          else let mid = length candidates div 2 in
            (case bisectBadMutants T w ord (take mid candidates) d1 of
               (leftGood, leftBad, d2) \<Rightarrow>
                 (case bisectBadMutants T w ord (drop mid candidates) d2 of
                    (rightGood, rightBad, d3) \<Rightarrow> (leftGood @ rightGood, leftBad @ rightBad, d3))))"
  by pat_completeness auto
termination
  by (relation "measure (\<lambda>(T, w, ord, c, d). length c)") (auto simp: Suc_le_eq neq_Nil_conv)

declare bisectBadMutants.simps [simp del]

text \<open>
  The set of removed mutants it hands on is empty, so no file is written again and every
  build is that of the same disk: all candidates are good or all are bad.
\<close>

lemma reapply_nothing:
  "ord [] = [] \<Longrightarrow> reapplyAffectedFiles T w ord {} ms kept d = (None, d, kept)"
  by (simp add: reapplyAffectedFiles_def affectedFiles_def InjectSchemataHelpers_def)

lemma bisectBad_all_or_none:
  assumes "ord [] = []"
  shows "bisectBadMutants T w ord ms d =
     (if tBuild T d = None then (ms, [], d)
      else ([], map (compilerMark ''bisect: single mutant causes compilation failure'') ms, d))"
proof (induction ms rule: length_induct)
  case (1 ms)
  show ?case
  proof (cases "tBuild T d = None \<or> length ms \<le> 1")
    case True
    then show ?thesis
      by (subst bisectBadMutants.simps) (cases ms; auto simp: reapply_nothing [of ord, OF assms])
  next
    case False
    then have len: "length (take (length ms div 2) ms) < length ms" "length (drop (length ms div 2) ms) < length ms"
      "ms \<noteq> []" "length ms \<noteq> 1" and not_none: "tBuild T d \<noteq> None" by auto
    have "map f (take n ms) @ map f (drop n ms) = map f ms" for f :: "Mutant \<Rightarrow> Mutant" and n
      by (simp flip: map_append)
    then show ?thesis
      using 1 [rule_format, OF len(1)] 1 [rule_format, OF len(2)] False len(3,4) not_none
      by (simp add: bisectBadMutants.simps [of T w ord ms] reapply_nothing [of ord, OF assms] Let_def)
  qed
qed

end
