(* ===== verification/LoopVars.thy ===== *)
theory LoopVars
  imports Transform
begin

text \<open>
  \<open>fixUnusedLoopVarsAfterMutationFast\<close> of \<open>internal/core/transform.go\<close>: the repair of unused
  loop variables in a whole file, the declarations first and then, top down, the bodies of the
  function literals. \<open>ast.Inspect\<close> goes on into the children as the visitor left them, so the
  recursion is over a tree that grows; it ends because a literal is left behind at each repair.
\<close>

subsection \<open>A node with new children\<close>

primrec mapKids :: "(node \<Rightarrow> node) \<Rightarrow> node \<Rightarrow> node" where
  "mapKids f (BadExpr x1 x2) = BadExpr x1 x2"
| "mapKids f (Ident x1 x2) = Ident x1 x2"
| "mapKids f (Ellipsis x1 x2) = Ellipsis x1 (map_option f x2)"
| "mapKids f (BasicLit x1 x2 x3) = BasicLit x1 x2 x3"
| "mapKids f (FuncLit x1 x2) = FuncLit (f x1) (f x2)"
| "mapKids f (CompositeLit x1 x2 x3 x4) = CompositeLit (map_option f x1) x2 (map f x3) x4"
| "mapKids f (ParenExpr x1 x2 x3) = ParenExpr x1 (f x2) x3"
| "mapKids f (SelectorExpr x1 x2) = SelectorExpr (f x1) (f x2)"
| "mapKids f (IndexExpr x1 x2 x3 x4) = IndexExpr (f x1) x2 (f x3) x4"
| "mapKids f (IndexListExpr x1 x2 x3 x4) = IndexListExpr (f x1) x2 (map f x3) x4"
| "mapKids f (SliceExpr x1 x2 x3 x4 x5 x6 x7) = SliceExpr (f x1) x2 (map_option f x3) (map_option f x4) (map_option f x5) x6 x7"
| "mapKids f (TypeAssertExpr x1 x2 x3 x4) = TypeAssertExpr (f x1) x2 (map_option f x3) x4"
| "mapKids f (CallExpr x1 x2 x3 x4 x5) = CallExpr (f x1) x2 (map f x3) x4 x5"
| "mapKids f (StarExpr x1 x2) = StarExpr x1 (f x2)"
| "mapKids f (UnaryExpr x1 x2 x3) = UnaryExpr x1 x2 (f x3)"
| "mapKids f (BinaryExpr x1 x2 x3 x4) = BinaryExpr (f x1) x2 x3 (f x4)"
| "mapKids f (KeyValueExpr x1 x2 x3) = KeyValueExpr (f x1) x2 (f x3)"
| "mapKids f (ArrayType x1 x2 x3) = ArrayType x1 (map_option f x2) (f x3)"
| "mapKids f (StructType x1 x2) = StructType x1 (f x2)"
| "mapKids f (FuncType x1 x2 x3 x4) = FuncType x1 (map_option f x2) (map_option f x3) (map_option f x4)"
| "mapKids f (InterfaceType x1 x2) = InterfaceType x1 (f x2)"
| "mapKids f (MapType x1 x2 x3) = MapType x1 (f x2) (f x3)"
| "mapKids f (ChanType x1 x2 x3) = ChanType x1 x2 (f x3)"
| "mapKids f (BadStmt x1 x2) = BadStmt x1 x2"
| "mapKids f (DeclStmt x1) = DeclStmt (f x1)"
| "mapKids f (EmptyStmt x1 x2) = EmptyStmt x1 x2"
| "mapKids f (LabeledStmt x1 x2 x3) = LabeledStmt (f x1) x2 (f x3)"
| "mapKids f (ExprStmt x1) = ExprStmt (f x1)"
| "mapKids f (SendStmt x1 x2 x3) = SendStmt (f x1) x2 (f x3)"
| "mapKids f (IncDecStmt x1 x2 x3) = IncDecStmt (f x1) x2 x3"
| "mapKids f (AssignStmt x1 x2 x3 x4) = AssignStmt (map f x1) x2 x3 (map f x4)"
| "mapKids f (GoStmt x1 x2) = GoStmt x1 (f x2)"
| "mapKids f (DeferStmt x1 x2) = DeferStmt x1 (f x2)"
| "mapKids f (ReturnStmt x1 x2) = ReturnStmt x1 (map f x2)"
| "mapKids f (BranchStmt x1 x2 x3) = BranchStmt x1 x2 (map_option f x3)"
| "mapKids f (BlockStmt x1 x2 x3) = BlockStmt x1 (map f x2) x3"
| "mapKids f (IfStmt x1 x2 x3 x4 x5) = IfStmt x1 (map_option f x2) (f x3) (f x4) (map_option f x5)"
| "mapKids f (CaseClause x1 x2 x3 x4) = CaseClause x1 (map_option (map f) x2) x3 (map f x4)"
| "mapKids f (SwitchStmt x1 x2 x3 x4) = SwitchStmt x1 (map_option f x2) (map_option f x3) (f x4)"
| "mapKids f (TypeSwitchStmt x1 x2 x3 x4) = TypeSwitchStmt x1 (map_option f x2) (f x3) (f x4)"
| "mapKids f (CommClause x1 x2 x3 x4) = CommClause x1 (map_option f x2) x3 (map f x4)"
| "mapKids f (SelectStmt x1 x2) = SelectStmt x1 (f x2)"
| "mapKids f (ForStmt x1 x2 x3 x4 x5) = ForStmt x1 (map_option f x2) (map_option f x3) (map_option f x4) (f x5)"
| "mapKids f (RangeStmt x1 x2 x3 x4 x5 x6 x7 x8) = RangeStmt x1 (map_option f x2) (map_option f x3) x4 x5 x6 (f x7) (f x8)"
| "mapKids f (ImportSpec x1 x2 x3 x4) = ImportSpec (map_option f x1) (map_option f x2) (f x3) (map_option f x4)"
| "mapKids f (ValueSpec x1 x2 x3 x4 x5) = ValueSpec (map_option f x1) (map f x2) (map_option f x3) (map f x4) (map_option f x5)"
| "mapKids f (TypeSpec x1 x2 x3 x4 x5 x6) = TypeSpec (map_option f x1) (f x2) (map_option f x3) x4 (f x5) (map_option f x6)"
| "mapKids f (BadDecl x1 x2) = BadDecl x1 x2"
| "mapKids f (GenDecl x1 x2 x3 x4 x5 x6) = GenDecl (map_option f x1) x2 x3 x4 (map f x5) x6"
| "mapKids f (FuncDecl x1 x2 x3 x4 x5) = FuncDecl (map_option f x1) (map_option f x2) (f x3) (f x4) (map_option f x5)"
| "mapKids f (Field x1 x2 x3 x4 x5) = Field (map_option f x1) (map f x2) (map_option f x3) (map_option f x4) (map_option f x5)"
| "mapKids f (FieldList x1 x2 x3) = FieldList x1 (map f x2) x3"
| "mapKids f (Comment x1 x2) = Comment x1 x2"
| "mapKids f (CommentGroup x1) = CommentGroup (map f x1)"
| "mapKids f (File x1 x2 x3 x4 x5) = File (map_option f x1) x2 (f x3) (map f x4) x5"

lemma option_list_mem: "x \<in> set (option_list t) \<longleftrightarrow> t = Some x"
  by (cases t) auto

lemma option_list_map: "option_list (map_option f t) = map f (option_list t)"
  by (cases t) auto

lemma mapKids_cong [fundef_cong]:
  assumes "n = m" and "\<And>k. k \<in> set (kids m) \<Longrightarrow> f k = g k"
  shows "mapKids f n = mapKids g m"
proof (cases "\<exists>p l c b. m = CaseClause p l c b")
  case True
  then obtain p l c b where "m = CaseClause p l c b" by blast
  with assms show ?thesis by (cases l) auto
next
  case False
  with assms show ?thesis
    by (cases m) (auto simp: option_list_mem cong: map_option_cong)
qed

lemma kids_mapKids: "kids (mapKids f n) = map f (kids n)"
  by (cases n) (simp_all add: option_list_map split: option.splits)

subsection \<open>Function literals\<close>

definition isFuncLit :: "node \<Rightarrow> bool" where
  "isFuncLit n = (case n of FuncLit _ _ \<Rightarrow> True | _ \<Rightarrow> False)"

text \<open>The number of function literals in a tree.\<close>

function lits :: "node \<Rightarrow> nat" where
  "lits n = of_bool (isFuncLit n) + sum_list (map lits (kids n))"
  by pat_completeness auto
termination
  by (relation "measure size") (auto simp: kids_size)

declare lits.simps [simp del]

lemma lits_kids: "lits n = of_bool (isFuncLit n) + sum_list (map lits (kids n))"
  by (rule lits.simps)

lemma lits_kid: "k \<in> set (kids n) \<Longrightarrow> lits k + of_bool (isFuncLit n) \<le> lits n"
  unfolding lits_kids [of n] using member_le_sum_list [of "lits k" "map lits (kids n)"] by simp

lemma lits_prepend: "lits (prependStmt (blankAssign name) b) = lits b"
  by (cases b) (simp_all add: prependStmt_def blankAssign_def lits_kids [of "BlockStmt _ _ _"]
      lits_kids [of "AssignStmt _ _ _ _"] lits_kids [of "Ident _ _"] isFuncLit_def)

lemma lits_useLoopVars: "lits (useLoopVars vars b) = lits b"
  unfolding useLoopVars_def
  by (induction vars arbitrary: b) (auto simp: lits_prepend)

lemma lits_map_fix:
  "(\<And>s. s \<in> set ss \<Longrightarrow> lits (fixStmt s) = lits s) \<Longrightarrow>
     sum_list (map (\<lambda>s. lits (fixStmt s)) ss) = sum_list (map lits ss)"
  by (rule arg_cong [of _ _ sum_list], rule map_cong) auto

lemma lits_option_fix:
  "(\<And>e. els = Some e \<Longrightarrow> P e \<Longrightarrow> lits (fixStmt e) = lits e) \<Longrightarrow>
     map lits (option_list (map_option (\<lambda>e. if P e then fixStmt e else e) els)) = map lits (option_list els)"
  by (cases els) auto

lemmas lits_cases = lits_kids [of "RangeStmt _ _ _ _ _ _ _ _"] lits_kids [of "ForStmt _ _ _ _ _"]
  lits_kids [of "IfStmt _ _ _ _ _"] lits_kids [of "BlockStmt _ _ _"] lits_kids [of "CaseClause _ _ _ _"]
  lits_kids [of "CommClause _ _ _ _"] lits_kids [of "SwitchStmt _ _ _ _"] lits_kids [of "TypeSwitchStmt _ _ _ _"]
  lits_kids [of "SelectStmt _ _"] isFuncLit_def lits_useLoopVars comp_def

lemma lits_fixStmt: "lits (fixStmt n) = lits n"
proof (induction n rule: fixStmt.induct)
  case (1 n)
  show ?case
  proof (cases n)
    case (RangeStmt a b c d e f g h)
    show ?thesis unfolding RangeStmt by (subst fixStmt.simps) (use 1 RangeStmt in \<open>simp add: lits_cases\<close>)
  next
    case (ForStmt a b c d e)
    show ?thesis unfolding ForStmt by (subst fixStmt.simps) (use 1 ForStmt in \<open>simp add: lits_cases\<close>)
  next
    case (IfStmt a b c d e)
    have "map lits (option_list (map_option (\<lambda>e. if isIfOrBlock e then fixStmt e else e) e)) = map lits (option_list e)"
      by (rule lits_option_fix) (use 1 IfStmt in auto)
    then show ?thesis unfolding IfStmt by (subst fixStmt.simps) (use 1 IfStmt in \<open>simp add: lits_cases\<close>)
  next
    case (BlockStmt a ss b)
    have "sum_list (map (\<lambda>s. lits (fixStmt s)) ss) = sum_list (map lits ss)" by (rule lits_map_fix) (use 1 BlockStmt in auto)
    then show ?thesis unfolding BlockStmt by (subst fixStmt.simps) (simp add: lits_cases)
  next
    case (CaseClause a b c ss)
    have "sum_list (map (\<lambda>s. lits (fixStmt s)) ss) = sum_list (map lits ss)" by (rule lits_map_fix) (use 1 CaseClause in auto)
    then show ?thesis unfolding CaseClause by (subst fixStmt.simps) (simp add: lits_cases)
  next
    case (CommClause a b c ss)
    have "sum_list (map (\<lambda>s. lits (fixStmt s)) ss) = sum_list (map lits ss)" by (rule lits_map_fix) (use 1 CommClause in auto)
    then show ?thesis unfolding CommClause by (subst fixStmt.simps) (simp add: lits_cases)
  next
    case (SwitchStmt a b c d)
    show ?thesis unfolding SwitchStmt by (subst fixStmt.simps) (use 1 SwitchStmt in \<open>simp add: lits_cases\<close>)
  next
    case (TypeSwitchStmt a b c d)
    show ?thesis unfolding TypeSwitchStmt by (subst fixStmt.simps) (use 1 TypeSwitchStmt in \<open>simp add: lits_cases\<close>)
  next
    case (SelectStmt a b)
    show ?thesis unfolding SelectStmt by (subst fixStmt.simps) (use 1 SelectStmt in \<open>simp add: lits_cases\<close>)
  qed (subst fixStmt.simps, simp)+
qed

subsection \<open>The repair of a file\<close>

definition visitLit :: "node \<Rightarrow> node" where
  "visitLit n = (case n of
     FuncLit t body \<Rightarrow> FuncLit t (if isBlock body then fixStmt body else body)
   | _ \<Rightarrow> n)"

lemma visitLit_other: "\<not> isFuncLit n \<Longrightarrow> visitLit n = n"
  by (cases n) (simp_all add: visitLit_def isFuncLit_def)

lemma visitLit_kids: "isFuncLit n \<Longrightarrow> k \<in> set (kids (visitLit n)) \<Longrightarrow> lits k < lits n"
  by (cases n) (auto simp: visitLit_def isFuncLit_def lits_fixStmt lits_kids [of "FuncLit _ _"])

function fixLits :: "node \<Rightarrow> node" where
  "fixLits n = mapKids fixLits (visitLit n)"
  by pat_completeness auto
termination
proof (relation "measures [lits, size]")
  show "wf (measures [lits, size])" by simp
next
  fix n k assume k: "k \<in> set (kids (visitLit n))"
  show "(k, n) \<in> measures [lits, size]"
  proof (cases "isFuncLit n")
    case True
    then show ?thesis using visitLit_kids [OF True k] by simp
  next
    case False
    then have "lits k \<le> lits n" "size k < size n"
      using k lits_kid [of k n] kids_size [of k n] by (simp_all add: visitLit_other)
    then show ?thesis by auto
  qed
qed

declare fixLits.simps [simp del]

definition fixUnusedLoopVarsAfterMutationFast :: "node \<Rightarrow> node" where
  "fixUnusedLoopVarsAfterMutationFast tree = (case tree of
     File doc p name decls comments \<Rightarrow> fixLits (File doc p name (map processDeclForLoopVars decls) comments)
   | _ \<Rightarrow> tree)"

text \<open>The repair adds no literal and removes none.\<close>

lemma lits_visitLit: "lits (visitLit n) = lits n"
proof (cases n)
  case (FuncLit t b)
  then show ?thesis by (simp add: visitLit_def lits_kids [of "FuncLit _ _"] lits_fixStmt isFuncLit_def)
qed (simp_all add: visitLit_def)

lemma isFuncLit_mapKids: "isFuncLit (mapKids f n) = isFuncLit n"
  by (cases n) (simp_all add: isFuncLit_def)

lemma lits_fixLits: "lits (fixLits n) = lits n"
proof (induction n rule: fixLits.induct)
  case (1 n)
  have "map lits (kids (mapKids fixLits (visitLit n))) = map lits (kids (visitLit n))" using 1 by (simp add: kids_mapKids)
  then have "lits (mapKids fixLits (visitLit n)) = lits (visitLit n)"
    by (simp only: lits_kids [of "mapKids _ _"] lits_kids [of "visitLit n"] isFuncLit_mapKids)
  then show ?case by (simp only: fixLits.simps [of n] lits_visitLit)
qed

text \<open>
  The repair reaches every function literal, whatever expression it stands in: each literal of
  the result has a body that was repaired before its own children were.
\<close>

lemma literals_repaired:
  "lits (fixLits n) = lits n \<and>
   list_all (\<lambda>m. isFuncLit m \<longrightarrow> (\<exists>t b. m = mapKids fixLits (visitLit (FuncLit t b)))) (nodes (fixLits n))"
proof
  show "list_all (\<lambda>m. isFuncLit m \<longrightarrow> (\<exists>t b. m = mapKids fixLits (visitLit (FuncLit t b)))) (nodes (fixLits n))"
  proof (induction n rule: fixLits.induct)
    case (1 n)
    have root: "isFuncLit (fixLits n) \<Longrightarrow> \<exists>t b. fixLits n = mapKids fixLits (visitLit (FuncLit t b))"
    proof -
      assume "isFuncLit (fixLits n)"
      then have "isFuncLit (visitLit n)" by (simp only: fixLits.simps [of n] isFuncLit_mapKids)
      then obtain t b where "n = FuncLit t b" by (cases n) (auto simp: visitLit_def isFuncLit_def)
      then show ?thesis using fixLits.simps [of n] by blast
    qed
    have "kids (fixLits n) = map fixLits (kids (visitLit n))" by (simp only: fixLits.simps [of n] kids_mapKids)
    with 1 root show ?case unfolding list_all_iff nodes_rec [of "fixLits n"] by auto
  qed
qed (rule lits_fixLits)

text \<open>An assignment counts as a use, though the Go compiler does not take it for one.\<close>

lemma assignment_counts_as_use:
  "isVariableUsedInBlockFast ''i'' (BlockStmt 1 [AssignStmt [Ident 5 ''i''] 6 T_ASSIGN [BasicLit 8 T_INT ''0'']] 9) 2"
  by code_simp

text \<open>A loop in a function literal that is an argument of a call is repaired.\<close>

lemma loop_in_argument_repaired:
  "fixLits (ExprStmt (CallExpr (Ident 1 ''f'') 2 [FuncLit (FuncType 3 None None None)
      (BlockStmt 7 [RangeStmt 9 (Some (Ident 13 ''i'')) None 15 T_DEFINE 18 (Ident 24 ''xs'') (BlockStmt 27 [] 28)] 30)] 0 31)) =
   ExprStmt (CallExpr (Ident 1 ''f'') 2 [FuncLit (FuncType 3 None None None)
      (BlockStmt 7 [RangeStmt 9 (Some (Ident 13 ''i'')) None 15 T_DEFINE 18 (Ident 24 ''xs'')
        (BlockStmt 27 [blankAssign ''i''] 28)] 30)] 0 31)"
  by code_simp

subsection \<open>After the repair\<close>

text \<open>The statements the repair goes through, and what it is for: loops whose variables are used.\<close>

definition subStmts :: "node \<Rightarrow> node list" where
  "subStmts n = (case n of
     RangeStmt _ _ _ _ _ _ _ body \<Rightarrow> filter isBlock [body]
   | ForStmt _ _ _ _ body \<Rightarrow> filter isBlock [body]
   | IfStmt _ _ _ body els \<Rightarrow> filter isBlock [body] @ filter isIfOrBlock (option_list els)
   | BlockStmt _ ss _ \<Rightarrow> ss
   | CaseClause _ _ _ ss \<Rightarrow> ss
   | CommClause _ _ _ ss \<Rightarrow> ss
   | SwitchStmt _ _ _ body \<Rightarrow> filter isBlock [body]
   | TypeSwitchStmt _ _ _ body \<Rightarrow> filter isBlock [body]
   | SelectStmt _ body \<Rightarrow> filter isBlock [body]
   | _ \<Rightarrow> [])"

lemma subStmts_kids: "set (subStmts n) \<subseteq> set (kids n)"
  by (cases n) (auto simp: subStmts_def)

function stmtsIn :: "node \<Rightarrow> node list" where
  "stmtsIn n = n # concat (map stmtsIn (subStmts n))"
  by pat_completeness auto
termination
proof (relation "measure size")
  fix n k assume "k \<in> set (subStmts n)"
  then have "k \<in> set (kids n)" using subStmts_kids by blast
  then show "(k, n) \<in> measure size" by (simp add: kids_size)
qed simp

declare stmtsIn.simps [simp del]

definition loopVarsOf :: "node \<Rightarrow> ((int \<times> string) list \<times> node) option" where
  "loopVarsOf s = (case s of
     RangeStmt _ k v _ _ _ _ body \<Rightarrow> Some (loopIdents (option_list k) @ loopIdents (option_list v), body)
   | ForStmt _ i _ _ body \<Rightarrow> Some (initIdents i, body)
   | _ \<Rightarrow> None)"

definition loopUsed :: "node \<Rightarrow> bool" where
  "loopUsed s \<longleftrightarrow> (case loopVarsOf s of None \<Rightarrow> True
     | Some (vars, body) \<Rightarrow> isBlock body \<longrightarrow>
         list_all (\<lambda>(p, name). p \<noteq> 0 \<longrightarrow> isVariableUsedInBlockFast name body p) vars)"

definition loopsUsed :: "node \<Rightarrow> bool" where
  "loopsUsed b = list_all loopUsed (stmtsIn b)"

lemma loopsUsed_rec: "loopsUsed n \<longleftrightarrow> loopUsed n \<and> list_all loopsUsed (subStmts n)"
  unfolding loopsUsed_def by (subst stmtsIn.simps) (auto simp: list_all_iff)

lemma isBlock_iff: "isBlock n \<longleftrightarrow> (\<exists>l ss r. n = BlockStmt l ss r)"
  by (cases n) (simp_all add: isBlock_def NodeTypeOf_def)

lemma loopUsed_plain: "loopVarsOf n = None \<Longrightarrow> loopUsed n"
  by (simp add: loopUsed_def)

lemma useLoopVars_uses:
  "\<lbrakk>p \<noteq> 0; (p, name) \<in> set vars \<or> isVariableUsedInBlockFast name (BlockStmt l ss r) p\<rbrakk> \<Longrightarrow>
     isVariableUsedInBlockFast name (useLoopVars vars (BlockStmt l ss r)) p"
  unfolding useLoopVars_def
proof (induction vars arbitrary: ss)
  case (Cons v vars)
  obtain q nm where v: "v = (q, nm)" by (cases v)
  show ?case
  proof (cases "isVariableUsedInBlockFast nm (BlockStmt l ss r) q")
    case True
    with v Cons.IH [of ss] Cons.prems show ?thesis by auto
  next
    case False
    have "(p, name) \<in> set vars \<or> isVariableUsedInBlockFast name (BlockStmt l (blankAssign nm # ss) r) p"
      using Cons.prems v used_blank used_mono by auto
    with v False Cons.IH [of "blankAssign nm # ss"] Cons.prems show ?thesis by (simp add: prependStmt_def)
  qed
qed simp

lemma loopsUsed_useLoopVars:
  assumes "loopsUsed (BlockStmt l ss r)"
  shows "loopsUsed (useLoopVars vars (BlockStmt l ss r))"
proof -
  obtain pre where pre: "useLoopVars vars (BlockStmt l ss r) = BlockStmt l (map blankAssign pre @ ss) r"
    using useLoopVars_block by blast
  have "loopsUsed (blankAssign nm)" for nm
    by (subst loopsUsed_rec) (simp add: blankAssign_def loopUsed_def loopVarsOf_def subStmts_def)
  with assms show ?thesis unfolding pre loopsUsed_rec [of "BlockStmt _ _ _"]
    by (auto simp: subStmts_def loopUsed_def loopVarsOf_def list_all_iff)
qed

lemma fixStmt_block: "fixStmt (BlockStmt l ss r) = BlockStmt l (map fixStmt ss) r"
  by (subst fixStmt.simps) simp

text \<open>A loop with its repaired body.\<close>

lemma loop_repaired:
  assumes "loopVarsOf s = Some (vars, useLoopVars vars (if isBlock body then fixStmt body else body))"
    and "subStmts s = filter isBlock [useLoopVars vars (if isBlock body then fixStmt body else body)]"
    and "isBlock body \<Longrightarrow> loopsUsed (fixStmt body)"
  shows "loopsUsed s"
proof (cases "isBlock body")
  case True
  then obtain l ss r where b: "body = BlockStmt l ss r" by (auto simp: isBlock_iff)
  have u: "loopsUsed (useLoopVars vars (BlockStmt l (map fixStmt ss) r))"
    by (rule loopsUsed_useLoopVars) (use assms(3) True in \<open>simp add: b fixStmt_block\<close>)
  have "loopUsed s"
    unfolding loopUsed_def assms(1) using True
    by (auto simp: b fixStmt_block list_all_iff intro!: useLoopVars_uses)
  with u show ?thesis unfolding loopsUsed_rec [of s] assms(2) using True by (simp add: b fixStmt_block)
next
  case False
  have "\<not> isBlock (useLoopVars vars body)"
  proof -
    have nb: "\<not> isBlock x \<Longrightarrow> prependStmt c x = x" for c x
      by (cases x) (auto simp: prependStmt_def isBlock_iff)
    have "useLoopVars vars body = body" unfolding useLoopVars_def by (induction vars) (auto simp: nb [OF False])
    then show ?thesis using False by simp
  qed
  with False show ?thesis unfolding loopsUsed_rec [of s] loopUsed_def assms(1,2) by simp
qed

lemma isBlock_fixStmt: "isBlock (fixStmt b) = isBlock b" "isIfOrBlock (fixStmt b) = isIfOrBlock b"
  by (cases b; subst fixStmt.simps; simp add: isBlock_def isIfOrBlock_def NodeTypeOf_def)+

lemma fixStmt_loops:
  "fixStmt (RangeStmt a k v d e f g body) = RangeStmt a k v d e f g
     (useLoopVars (loopIdents (option_list k) @ loopIdents (option_list v)) (if isBlock body then fixStmt body else body))"
  "fixStmt (ForStmt a i c q body) = ForStmt a i c q (useLoopVars (initIdents i) (if isBlock body then fixStmt body else body))"
  by (subst fixStmt.simps, simp)+

lemma fixStmt_subStmts: "loopVarsOf n = None \<Longrightarrow> subStmts (fixStmt n) = map fixStmt (subStmts n)"
proof (cases n)
  case (IfStmt a b c d e)
  then show ?thesis
    by (cases e) (subst fixStmt.simps, simp add: subStmts_def isBlock_fixStmt)+
qed (subst fixStmt.simps, simp add: subStmts_def isBlock_fixStmt loopVarsOf_def)+

lemma loopVarsOf_fixStmt: "loopVarsOf n = None \<Longrightarrow> loopVarsOf (fixStmt n) = None"
  by (cases n; subst fixStmt.simps; simp add: loopVarsOf_def)

lemma loopsUsed_fixStmt: "loopsUsed (fixStmt n)"
proof (induction n rule: stmtsIn.induct)
  case (1 n)
  show ?case
  proof (cases "loopVarsOf n")
    case None
    then show ?thesis
      using 1 by (simp add: loopsUsed_rec [of "fixStmt n"] loopUsed_plain loopVarsOf_fixStmt fixStmt_subStmts list_all_iff)
  next
    case (Some vb)
    show ?thesis
    proof (cases n)
      case (RangeStmt a k v d e f g body)
      have "isBlock body \<Longrightarrow> loopsUsed (fixStmt body)" using 1 RangeStmt by (simp add: subStmts_def)
      then show ?thesis unfolding RangeStmt fixStmt_loops
        by (rule loop_repaired [where vars = "loopIdents (option_list k) @ loopIdents (option_list v)" and body = body, rotated 2])
          (simp_all only: loopVarsOf_def subStmts_def node.case)
    next
      case (ForStmt a i c d body)
      have "isBlock body \<Longrightarrow> loopsUsed (fixStmt body)" using 1 ForStmt by (simp add: subStmts_def)
      then show ?thesis unfolding ForStmt fixStmt_loops
        by (rule loop_repaired [where vars = "initIdents i" and body = body, rotated 2])
          (simp_all only: loopVarsOf_def subStmts_def node.case)
    qed (use Some in \<open>simp_all add: loopVarsOf_def\<close>)
  qed
qed

subsection \<open>Literals inside\<close>

text \<open>Repairing the literals inside a statement takes no identifier away and keeps its shape.\<close>

lemma fixLits_Ident [simp]: "fixLits (Ident p nm) = Ident p nm"
  by (simp add: fixLits.simps [of "Ident _ _"] visitLit_def)

lemma useLoopVars_nodes: "m \<in> set (nodes b) \<Longrightarrow> is_Expr m \<Longrightarrow> m \<in> set (nodes (useLoopVars vars b))"
proof -
  have p: "m \<in> set (nodes (prependStmt c b))" if "m \<in> set (nodes b)" "is_Expr m" for b c
    using that by (cases b) (auto simp: prependStmt_def nodes_rec [of "BlockStmt _ _ _"] is_Expr_def)
  show "m \<in> set (nodes b) \<Longrightarrow> is_Expr m \<Longrightarrow> m \<in> set (nodes (useLoopVars vars b))"
    unfolding useLoopVars_def by (induction vars arbitrary: b) (auto simp: p)
qed

lemma nodes_cases: "m \<in> set (nodes n) \<longleftrightarrow> m = n \<or> (\<exists>k \<in> set (kids n). m \<in> set (nodes k))"
  by (subst nodes_rec) auto

lemma nodes_fixStmt: "Ident p nm \<in> set (nodes n) \<Longrightarrow> Ident p nm \<in> set (nodes (fixStmt n))"
proof (induction n rule: stmtsIn.induct)
  case (1 n)
  have ex: "is_Expr (Ident p nm)" by (simp add: is_Expr_def)
  show ?case
  proof (cases n)
    case (RangeStmt a k v d e f g body)
    have "isBlock body \<Longrightarrow> Ident p nm \<in> set (nodes body) \<Longrightarrow> Ident p nm \<in> set (nodes (fixStmt body))"
      using 1(1) RangeStmt by (simp add: subStmts_def)
    then show ?thesis using 1(2) unfolding RangeStmt fixStmt_loops nodes_cases [of _ "RangeStmt _ _ _ _ _ _ _ _"]
      by (auto intro: useLoopVars_nodes ex)
  next
    case (ForStmt a i c q body)
    have "isBlock body \<Longrightarrow> Ident p nm \<in> set (nodes body) \<Longrightarrow> Ident p nm \<in> set (nodes (fixStmt body))"
      using 1(1) ForStmt by (simp add: subStmts_def)
    then show ?thesis using 1(2) unfolding ForStmt fixStmt_loops nodes_cases [of _ "ForStmt _ _ _ _ _"]
      by (auto intro: useLoopVars_nodes ex)
  next
    case (IfStmt a b c body els)
    have "isBlock body \<Longrightarrow> Ident p nm \<in> set (nodes body) \<Longrightarrow> Ident p nm \<in> set (nodes (fixStmt body))"
      "\<And>e. els = Some e \<Longrightarrow> isIfOrBlock e \<Longrightarrow> Ident p nm \<in> set (nodes e) \<Longrightarrow> Ident p nm \<in> set (nodes (fixStmt e))"
      using 1(1) IfStmt by (simp_all add: subStmts_def)
    then show ?thesis using 1(2) unfolding IfStmt
      by (subst fixStmt.simps) (cases els; auto simp: nodes_cases [of _ "IfStmt _ _ _ _ _"])
  next
    case (BlockStmt a ss b)
    then show ?thesis using 1 by (subst fixStmt.simps) (auto simp: subStmts_def nodes_cases [of _ "BlockStmt _ _ _"])
  next
    case (CaseClause a b c ss)
    then show ?thesis using 1 by (subst fixStmt.simps) (auto simp: subStmts_def nodes_cases [of _ "CaseClause _ _ _ _"])
  next
    case (CommClause a b c ss)
    then show ?thesis using 1 by (subst fixStmt.simps) (auto simp: subStmts_def nodes_cases [of _ "CommClause _ _ _ _"])
  next
    case (SwitchStmt a b c body)
    then show ?thesis using 1 by (subst fixStmt.simps) (auto simp: subStmts_def nodes_cases [of _ "SwitchStmt _ _ _ _"])
  next
    case (TypeSwitchStmt a b c body)
    then show ?thesis using 1 by (subst fixStmt.simps) (auto simp: subStmts_def nodes_cases [of _ "TypeSwitchStmt _ _ _ _"])
  next
    case (SelectStmt a body)
    then show ?thesis using 1 by (subst fixStmt.simps) (auto simp: subStmts_def nodes_cases [of _ "SelectStmt _ _"])
  qed (use 1(2) in \<open>subst fixStmt.simps, simp\<close>)+
qed

lemma nodes_fixLits: "Ident p nm \<in> set (nodes n) \<Longrightarrow> Ident p nm \<in> set (nodes (fixLits n))"
proof (induction n rule: fixLits.induct)
  case (1 n)
  show ?case
  proof (cases "Ident p nm = n")
    case False
    with 1(2) obtain k where k: "k \<in> set (kids n)" "Ident p nm \<in> set (nodes k)" by (auto simp: nodes_cases [of _ n])
    have "\<exists>k \<in> set (kids (visitLit n)). Ident p nm \<in> set (nodes k)"
    proof (cases n)
      case (FuncLit t b)
      with k show ?thesis by (auto simp: visitLit_def nodes_fixStmt)
    qed (use k in \<open>auto simp: visitLit_def\<close>)
    then obtain k' where "k' \<in> set (kids (visitLit n))" "Ident p nm \<in> set (nodes (fixLits k'))" using 1(1) by blast
    then show ?thesis by (subst fixLits.simps) (auto simp: nodes_cases [of _ "mapKids _ _"] kids_mapKids)
  next
    case True
    show ?thesis unfolding True [symmetric] by simp
  qed
qed

lemma isBlock_fixLits: "isBlock (fixLits b) = isBlock b" "isIfOrBlock (fixLits b) = isIfOrBlock b"
  by (cases b; simp add: fixLits.simps [of "_ _"] visitLit_def isBlock_def isIfOrBlock_def NodeTypeOf_def)+

lemma fixLits_visit: "\<not> isFuncLit n \<Longrightarrow> fixLits n = mapKids fixLits n"
  using fixLits.simps [of n] visitLit_other [of n] by simp

lemma subStmts_fixLits: "subStmts (fixLits n) = map fixLits (subStmts n)"
proof (cases "isFuncLit n")
  case True
  then show ?thesis by (cases n) (simp_all add: isFuncLit_def fixLits.simps [of "FuncLit _ _"] visitLit_def subStmts_def)
next
  case False
  have o: "filter isIfOrBlock (option_list (map_option fixLits e)) = map fixLits (filter isIfOrBlock (option_list e))" for e
    by (cases e) (simp_all add: isBlock_fixLits)
  show ?thesis unfolding fixLits_visit [OF False]
    by (cases n) (simp_all add: subStmts_def isBlock_fixLits o)
qed

lemma loopIdents_fixLits: "loopIdents (map fixLits es) = loopIdents es"
proof -
  define F where "F = (\<lambda>e. case e of Ident p name \<Rightarrow> if name \<noteq> ''_'' then Some (p, name) else None | _ \<Rightarrow> None)"
  have F: "F (fixLits e) = F e" for e
    by (cases e) (simp_all add: F_def fixLits.simps [of "_ _"] visitLit_def)
  have "loopIdents es = List.map_filter F es" for es by (simp add: loopIdents_def F_def)
  then show ?thesis by (simp add: List.map_filter_def filter_map comp_def F)
qed

lemma initIdents_fixLits: "initIdents (map_option fixLits i) = initIdents i"
proof (cases i)
  case (Some n)
  then show ?thesis
    by (cases n) (simp_all add: initIdents_def fixLits.simps [of "_ _"] visitLit_def loopIdents_fixLits)
qed simp

lemma loopVarsOf_fixLits: "loopVarsOf (fixLits s) = map_option (apsnd fixLits) (loopVarsOf s)"
proof -
  have o: "loopIdents (option_list (map_option fixLits k)) = loopIdents (option_list k)" for k
    by (simp add: option_list_map loopIdents_fixLits)
  show ?thesis
    by (cases s) (simp_all add: loopVarsOf_def fixLits.simps [of "_ _"] visitLit_def o initIdents_fixLits)
qed

lemma used_iff: "isVariableUsedInBlockFast nm b p \<longleftrightarrow> (\<exists>q. Ident q nm \<in> set (nodes b) \<and> q \<noteq> p)"
proof -
  have "(case n of Ident q name \<Rightarrow> name = nm \<and> q \<noteq> p | _ \<Rightarrow> False) \<longleftrightarrow> (\<exists>q. n = Ident q nm \<and> q \<noteq> p)" for n
    by (cases n) auto
  then show ?thesis by (auto simp: isVariableUsedInBlockFast_def list_ex_iff)
qed

lemma loopUsed_fixLits: "loopUsed s \<Longrightarrow> loopUsed (fixLits s)"
proof -
  have "isVariableUsedInBlockFast nm b p \<Longrightarrow> isVariableUsedInBlockFast nm (fixLits b) p" for nm b p
    unfolding used_iff using nodes_fixLits by blast
  then show "loopUsed s \<Longrightarrow> loopUsed (fixLits s)"
    by (auto simp: loopUsed_def loopVarsOf_fixLits isBlock_fixLits list_all_iff split: option.splits)
qed

lemma loopsUsed_fixLits: "loopsUsed n \<Longrightarrow> loopsUsed (fixLits n)"
proof (induction n rule: stmtsIn.induct)
  case (1 n)
  then show ?case
    by (simp add: loopsUsed_rec [of n] loopsUsed_rec [of "fixLits n"] subStmts_fixLits loopUsed_fixLits list_all_iff)
qed

text \<open>The bodies in a file: of its functions and of the function literals anywhere.\<close>

definition functionBodies :: "node \<Rightarrow> node list" where
  "functionBodies tree = (case tree of
     File _ _ _ decls _ \<Rightarrow> List.map_filter (\<lambda>d. case d of FuncDecl _ _ _ _ b \<Rightarrow> b | _ \<Rightarrow> None) decls
   | _ \<Rightarrow> [])"

definition literalBodies :: "node \<Rightarrow> node list" where
  "literalBodies tree = List.map_filter (\<lambda>n. case n of FuncLit _ b \<Rightarrow> Some b | _ \<Rightarrow> None) (nodes tree)"

lemma functionBodies_iff:
  "b \<in> set (functionBodies (File doc p nm ds cs)) \<longleftrightarrow> (\<exists>d1 d2 d3 d4. FuncDecl d1 d2 d3 d4 (Some b) \<in> set ds)"
proof -
  have "(case d of FuncDecl _ _ _ _ b' \<Rightarrow> b' | _ \<Rightarrow> None) = Some b \<longleftrightarrow> (\<exists>d1 d2 d3 d4. d = FuncDecl d1 d2 d3 d4 (Some b))" for d
    by (cases d) auto
  then have "b \<in> set (functionBodies (File doc p nm ds cs)) \<longleftrightarrow>
      (\<exists>d \<in> set ds. \<exists>d1 d2 d3 d4. d = FuncDecl d1 d2 d3 d4 (Some b))"
    by (simp add: functionBodies_def set_map_filter)
  then show ?thesis by blast
qed

lemma literalBodies_iff: "b \<in> set (literalBodies tree) \<longleftrightarrow> (\<exists>t. FuncLit t b \<in> set (nodes tree))"
proof -
  have "(case n of FuncLit _ b' \<Rightarrow> Some b' | _ \<Rightarrow> None) = Some b \<longleftrightarrow> (\<exists>t. n = FuncLit t b)" for n
    by (cases n) auto
  then show ?thesis by (auto simp: literalBodies_def set_map_filter)
qed

lemma repaired_decl:
  assumes "fixLits (processDeclForLoopVars d) = FuncDecl d1 d2 d3 d4 (Some b)"
  shows "\<exists>b'. b = fixLits (if isBlock b' then fixStmt b' else b')"
proof (cases d)
  case (FuncDecl a1 a2 a3 a4 body)
  with assms show ?thesis
    by (cases body) (auto simp: processDeclForLoopVars_def fixLits.simps [of "FuncDecl _ _ _ _ _"] visitLit_def)
qed (use assms in \<open>simp_all add: processDeclForLoopVars_def fixLits.simps [of "_ _"] visitLit_def\<close>)

text \<open>
  C9. After the repair of a file no loop variable is left without an occurrence: in the body of
  each function and of each function literal, wherever it stands, every named variable with a
  position that a range or three-clause loop declares occurs again in the loop's body, through
  any nesting of blocks, if, switch, select and loop statements. What stands under a label is
  left out, it is not repaired (\<open>labelled_loop_not_repaired\<close>); and an occurrence is any identifier
  of that name at another position, be it the target of an assignment, which is what the code
  looks for and less than what the Go compiler asks (\<open>assignment_counts_as_use\<close>).
\<close>

theorem repaired_loops_use_variables:
  "let tree = fixUnusedLoopVarsAfterMutationFast (File doc p name decls comments)
   in list_all loopsUsed (filter isBlock (functionBodies tree @ literalBodies tree))"
proof -
  let ?tree = "fixUnusedLoopVarsAfterMutationFast (File doc p name decls comments)"
  have tree: "?tree = fixLits (File doc p name (map processDeclForLoopVars decls) comments)"
    by (simp add: fixUnusedLoopVarsAfterMutationFast_def)
  have shape: "fixLits (File doc p name ds cs) = File (map_option fixLits doc) p (fixLits name) (map fixLits ds) cs" for ds cs
    by (subst fixLits.simps) (simp add: visitLit_def)
  have repaired: "loopsUsed b" if "b = fixLits (if isBlock b' then fixStmt b' else b')" "isBlock b" for b b'
    using that isBlock_fixLits(1) isBlock_fixStmt(1) loopsUsed_fixLits loopsUsed_fixStmt by metis
  have "loopsUsed b" if "b \<in> set (functionBodies ?tree)" "isBlock b" for b
  proof -
    from that(1) obtain d d1 d2 d3 d4 where "fixLits (processDeclForLoopVars d) = FuncDecl d1 d2 d3 d4 (Some b)"
      unfolding tree shape functionBodies_iff set_map image_image by (metis imageE)
    with that(2) show ?thesis using repaired_decl repaired by blast
  qed
  moreover have "loopsUsed b" if b: "b \<in> set (literalBodies ?tree)" "isBlock b" for b
  proof -
    from b(1) obtain t where m: "FuncLit t b \<in> set (nodes (fixLits (File doc p name (map processDeclForLoopVars decls) comments)))"
      unfolding tree literalBodies_iff by blast
    obtain t' b' where "FuncLit t b = mapKids fixLits (visitLit (FuncLit t' b'))"
      using literals_repaired [THEN conjunct2, unfolded list_all_iff, rule_format, OF m] by (auto simp: isFuncLit_def)
    then show ?thesis using repaired b(2) by (simp add: visitLit_def)
  qed
  ultimately show ?thesis by (auto simp: Let_def list_all_iff)
qed

end
